(* ===== verification/Py_Prelude.thy ===== *)
theory Py_Prelude
  imports Main "HOL-Library.Char_ord" "HOL-Library.List_Lexorder" "HOL-Library.AList"
begin

text \<open>
  What every component of the model shares: the exceptions the source raises, the result
  type of a fallible function, the dynamically typed values a manifest or a JSON document
  holds, Python's dictionaries as association lists in insertion order, and the string
  operations the source uses (\<open>strip\<close>, \<open>lower\<close>, \<open>int\<close>, \<open>str\<close>).

  A Python string is a list of characters with code points below 256. For these the
  classes used here (white space, letters, digits, lower case) are exactly Python's.
\<close>

named_theorems dp_res "rewriting the result monad"
named_theorems dp_fields "definitional unfolding of the record constructors of the model"

section \<open>Exceptions and results\<close>

datatype py_exn =
    ValueError string
  | TypeError string
  | KeyError string
  | RuntimeError string
  | OverflowError string
  | AppError string string

type_synonym 'a res = "py_exn + 'a"

definition bind_res :: "'e + 'a \<Rightarrow> ('a \<Rightarrow> 'e + 'b) \<Rightarrow> 'e + 'b" where
  "bind_res r f = (case r of Inl e \<Rightarrow> Inl e | Inr a \<Rightarrow> f a)"

lemma bind_res_simps [simp, dp_res]:
  "bind_res (Inl e) f = Inl e"
  "bind_res (Inr a) f = f a"
  by (simp_all add: bind_res_def)

lemma bind_res_eq_Inr [dp_res]:
  "bind_res r f = Inr b \<longleftrightarrow> (\<exists>a. r = Inr a \<and> f a = Inr b)"
  by (cases r) simp_all

lemma bind_res_eq_Inl [dp_res]:
  "bind_res r f = Inl e \<longleftrightarrow> r = Inl e \<or> (\<exists>a. r = Inr a \<and> f a = Inl e)"
  by (cases r) simp_all

lemma bind_res_assoc: "bind_res (bind_res r f) g = bind_res r (\<lambda>x. bind_res (f x) g)"
  by (cases r) simp_all

text \<open>A comprehension over a fallible function: the first exception ends it.\<close>

fun map_res :: "('a \<Rightarrow> 'e + 'b) \<Rightarrow> 'a list \<Rightarrow> 'e + 'b list" where
  "map_res f [] = Inr []"
| "map_res f (x # xs) = bind_res (f x) (\<lambda>y. bind_res (map_res f xs) (\<lambda>ys. Inr (y # ys)))"

lemma map_res_Inr_map: "(\<And>x. x \<in> set xs \<Longrightarrow> f x = Inr (g x)) \<Longrightarrow> map_res f xs = Inr (map g xs)"
  by (induction xs) simp_all

lemma map_res_cong:
  "xs = ys \<Longrightarrow> (\<And>x. x \<in> set ys \<Longrightarrow> f x = g x) \<Longrightarrow> map_res f xs = map_res g ys"
  by (induction ys arbitrary: xs) auto

lemma map_res_eq_Inr:
  "map_res f xs = Inr ys \<longleftrightarrow> list_all2 (\<lambda>x y. f x = Inr y) xs ys"
proof (induction xs arbitrary: ys)
  case Nil
  then show ?case by auto
next
  case (Cons x xs)
  then show ?case by (auto simp: bind_res_eq_Inr list_all2_Cons1)
qed

section \<open>Dictionaries in insertion order\<close>

text \<open>
  A \<open>dict\<close> is an association list without duplicate keys. \<open>AList.update\<close> is the item
  assignment: it replaces the value of a present key in place and appends a new key.
\<close>

type_synonym ('k, 'v) dict = "('k \<times> 'v) list"

abbreviation dict_get :: "('k, 'v) dict \<Rightarrow> 'k \<Rightarrow> 'v option" where
  "dict_get d k \<equiv> map_of d k"

abbreviation dict_set :: "('k, 'v) dict \<Rightarrow> 'k \<Rightarrow> 'v \<Rightarrow> ('k, 'v) dict" where
  "dict_set d k v \<equiv> AList.update k v d"

definition dict_keys :: "('k, 'v) dict \<Rightarrow> 'k list" where
  "dict_keys d = map fst d"

definition dict_values :: "('k, 'v) dict \<Rightarrow> 'v list" where
  "dict_values d = map snd d"

lemma dict_get_set [simp]: "dict_get (dict_set d k v) k' = (if k' = k then Some v else dict_get d k')"
  by (simp add: update_conv')

lemma distinct_dict_set [simp, intro]:
  "distinct (map fst d) \<Longrightarrow> distinct (map fst (dict_set d k v))"
  by (rule distinct_update)

lemma set_keys_dict_set [simp]: "fst ` set (dict_set d k v) = insert k (fst ` set d)"
  by (induction d) auto

lemma dict_set_keys_present:
  "k \<in> fst ` set d \<Longrightarrow> map fst (dict_set d k v) = map fst d"
  by (induction d) auto

lemma dict_set_keys_absent:
  "k \<notin> fst ` set d \<Longrightarrow> dict_set d k v = d @ [(k, v)]"
  by (induction d) auto

section \<open>Characters and strings\<close>

abbreviation code_of :: "char \<Rightarrow> nat" where
  "code_of c \<equiv> of_char c"

definition py_is_space :: "char \<Rightarrow> bool" where
  "py_is_space c = (code_of c \<in> {9, 10, 11, 12, 13, 28, 29, 30, 31, 32, 133, 160})"

definition py_is_digit :: "char \<Rightarrow> bool" where
  "py_is_digit c = (48 \<le> code_of c \<and> code_of c \<le> 57)"

definition py_lstrip :: "string \<Rightarrow> string" where
  "py_lstrip s = dropWhile py_is_space s"

definition py_strip :: "string \<Rightarrow> string" where
  "py_strip s = rev (dropWhile py_is_space (rev (py_lstrip s)))"

definition py_lower_char :: "char \<Rightarrow> char" where
  "py_lower_char c =
     (let n = code_of c in
      if (65 \<le> n \<and> n \<le> 90) \<or> (192 \<le> n \<and> n \<le> 222 \<and> n \<noteq> 215) then char_of (n + 32) else c)"

definition py_lower :: "string \<Rightarrow> string" where
  "py_lower s = map py_lower_char s"

definition py_startswith :: "string \<Rightarrow> string \<Rightarrow> bool" where
  "py_startswith s p = (take (length p) s = p)"

definition py_replace_char :: "char \<Rightarrow> string \<Rightarrow> string \<Rightarrow> string" where
  "py_replace_char c r s = concat (map (\<lambda>x. if x = c then r else [x]) s)"

fun py_join :: "string \<Rightarrow> string list \<Rightarrow> string" where
  "py_join sep [] = []"
| "py_join sep [x] = x"
| "py_join sep (x # y # xs) = x @ sep @ py_join sep (y # xs)"

text \<open>\<open>s.split(c, 1)\<close> for a one-character separator that occurs in \<open>s\<close>.\<close>

definition py_split1 :: "char \<Rightarrow> string \<Rightarrow> string \<times> string" where
  "py_split1 c s = (takeWhile (\<lambda>x. x \<noteq> c) s, drop (Suc (length (takeWhile (\<lambda>x. x \<noteq> c) s))) s)"

lemma py_strip_idem_aux:
  assumes "s \<noteq> []" "\<not> py_is_space (hd s)" "\<not> py_is_space (last s)"
  shows "py_strip s = s"
proof -
  have "dropWhile py_is_space s = s"
    using assms by (cases s) auto
  moreover have "dropWhile py_is_space (rev s) = rev s"
    using assms by (cases "rev s") (auto simp: hd_rev [symmetric])
  ultimately show ?thesis by (simp add: py_strip_def py_lstrip_def)
qed

lemma py_strip_no_space:
  assumes "\<forall>c\<in>set s. \<not> py_is_space c"
  shows "py_strip s = s"
proof (cases s)
  case Nil
  then show ?thesis by (simp add: py_strip_def py_lstrip_def)
next
  case (Cons c cs)
  with assms show ?thesis by (intro py_strip_idem_aux) auto
qed

section \<open>Decimal integers\<close>

text \<open>
  \<open>str(n)\<close> and \<open>int(text)\<close>. \<open>int\<close> takes surrounding white space, a sign, and single
  underscores between digits, and refuses more than 4300 digits
  (\<open>sys.int_info.default_max_str_digits\<close>).
\<close>

fun nat_digits :: "nat \<Rightarrow> string" where
  "nat_digits n =
     (if n < 10 then [char_of (48 + n)] else nat_digits (n div 10) @ [char_of (48 + n mod 10)])"

declare nat_digits.simps [simp del]

definition digit_val :: "char \<Rightarrow> nat" where
  "digit_val c = code_of c - 48"

definition digits_value :: "string \<Rightarrow> nat" where
  "digits_value s = foldl (\<lambda>a c. 10 * a + digit_val c) 0 s"

definition py_str_int :: "int \<Rightarrow> string" where
  "py_str_int i = (if i < 0 then CHR ''-'' # nat_digits (nat (- i)) else nat_digits (nat i))"

definition max_str_digits :: nat where
  "max_str_digits = 4300"

lemma max_str_digits_pos: "max_str_digits \<noteq> 0"
  by (simp add: max_str_digits_def)

fun int_body :: "string \<Rightarrow> nat \<Rightarrow> bool \<Rightarrow> nat option" where
  "int_body [] acc p = (if p then Some acc else None)"
| "int_body (c # cs) acc p =
     (if py_is_digit c then int_body cs (10 * acc + digit_val c) True
      else if c = CHR ''_'' \<and> p then int_body cs acc False
      else None)"

definition unsigned_int :: "string \<Rightarrow> nat option" where
  "unsigned_int s =
     (if max_str_digits < length (filter py_is_digit s) then None else int_body s 0 False)"

definition py_int :: "string \<Rightarrow> int option" where
  "py_int text =
     (case py_strip text of
        [] \<Rightarrow> None
      | c # cs \<Rightarrow>
          if c = CHR ''-'' then map_option (\<lambda>n. - int n) (unsigned_int cs)
          else if c = CHR ''+'' then map_option int (unsigned_int cs)
          else map_option int (unsigned_int (c # cs)))"

lemma of_char_digit [simp]: "n < 10 \<Longrightarrow> (of_char (char_of (48 + n) :: char) :: nat) = 48 + n"
  by (simp add: of_char_of)

lemma digit_char_props [simp]:
  assumes "n < 10"
  shows "py_is_digit (char_of (48 + n))" "digit_val (char_of (48 + n)) = n"
    "\<not> py_is_space (char_of (48 + n))"
  using assms by (auto simp: py_is_digit_def digit_val_def py_is_space_def)

lemma py_is_digit_not_space: "py_is_digit c \<Longrightarrow> \<not> py_is_space c"
  by (auto simp: py_is_digit_def py_is_space_def)

lemma py_is_digit_neq [simp]:
  "py_is_digit c \<Longrightarrow> c \<noteq> CHR ''-''" "py_is_digit c \<Longrightarrow> c \<noteq> CHR ''+''"
  "py_is_digit c \<Longrightarrow> c \<noteq> CHR ''_''" "py_is_digit c \<Longrightarrow> c \<noteq> CHR '':''"
  "py_is_digit c \<Longrightarrow> c \<noteq> CHR ''W''" "py_is_digit c \<Longrightarrow> c \<noteq> CHR ''Z''"
  "py_is_digit c \<Longrightarrow> c \<noteq> CHR ''.''" "py_is_digit c \<Longrightarrow> c \<noteq> CHR '' ''"
  by (auto simp: py_is_digit_def)

lemma nat_digits_digit: "\<forall>c\<in>set (nat_digits n). py_is_digit c"
proof (induction n rule: nat_digits.induct)
  case (1 n)
  then show ?case by (cases "n < 10") (auto simp: nat_digits.simps [of n])
qed

lemma nat_digits_nonempty [simp]: "nat_digits n \<noteq> []"
  by (subst nat_digits.simps) simp

lemma digits_value_append: "digits_value (s @ [c]) = 10 * digits_value s + digit_val c"
  by (simp add: digits_value_def)

lemma digits_value_nat_digits [simp]: "digits_value (nat_digits n) = n"
proof (induction n rule: nat_digits.induct)
  case (1 n)
  show ?case
  proof (cases "n < 10")
    case True
    then show ?thesis by (simp add: nat_digits.simps [of n] digits_value_def)
  next
    case False
    with "1.IH" show ?thesis by (simp add: nat_digits.simps [of n] digits_value_append)
  qed
qed

lemma int_body_digits:
  assumes "\<forall>c\<in>set s. py_is_digit c" "p \<or> s \<noteq> []"
  shows "int_body s acc p = Some (foldl (\<lambda>a c. 10 * a + digit_val c) acc s)"
  using assms by (induction s arbitrary: acc p) auto

lemma nat_digits_length: "k \<noteq> 0 \<Longrightarrow> n < 10 ^ k \<Longrightarrow> length (nat_digits n) \<le> k"
proof (induction n arbitrary: k rule: nat_digits.induct)
  case (1 n)
  show ?case
  proof (cases "n < 10")
    case True
    with "1.prems" show ?thesis by (simp add: nat_digits.simps [of n])
  next
    case False
    with "1.prems" have "k \<noteq> 1" by auto
    with "1.prems" obtain j where j: "k = Suc j" "j \<noteq> 0"
      by (metis One_nat_def nat.exhaust)
    with "1.prems" have "n div 10 < 10 ^ j" by (simp add: less_mult_imp_div_less mult.commute)
    with "1.IH" [OF False] j have "length (nat_digits (n div 10)) \<le> j" by blast
    with False j show ?thesis by (simp add: nat_digits.simps [of n])
  qed
qed

lemma unsigned_int_nat_digits:
  assumes "n < 10 ^ max_str_digits"
  shows "unsigned_int (nat_digits n) = Some n"
proof -
  have "filter py_is_digit (nat_digits n) = nat_digits n"
    using nat_digits_digit [of n] by (simp add: filter_id_conv)
  moreover have "length (nat_digits n) \<le> max_str_digits"
    using assms max_str_digits_pos by (intro nat_digits_length)
  ultimately show ?thesis
    using int_body_digits [OF nat_digits_digit [of n], of False 0] digits_value_nat_digits [of n]
    by (simp add: unsigned_int_def digits_value_def)
qed

lemma py_str_int_no_space: "\<forall>c\<in>set (py_str_int i). \<not> py_is_space c"
proof -
  have "\<not> py_is_space (CHR ''-'')"
    by (simp add: py_is_space_def)
  then show ?thesis
    using nat_digits_digit py_is_digit_not_space by (auto simp: py_str_int_def)
qed

lemma py_str_int_nonempty [simp]: "py_str_int i \<noteq> []"
  by (simp add: py_str_int_def)

text \<open>The round trip: parsing what \<open>str\<close> printed gives the number back.\<close>

lemma py_int_str [simp]:
  assumes "\<bar>i\<bar> < 10 ^ max_str_digits"
  shows "py_int (py_str_int i) = Some i"
proof -
  have strip: "py_strip (py_str_int i) = py_str_int i"
    by (rule py_strip_no_space [OF py_str_int_no_space])
  have bound: "nat \<bar>i\<bar> < 10 ^ max_str_digits"
    using assms by simp
  show ?thesis
  proof (cases "i < 0")
    case True
    with bound have "unsigned_int (nat_digits (nat (- i))) = Some (nat (- i))"
      by (intro unsigned_int_nat_digits) simp
    with True strip show ?thesis by (simp add: py_int_def py_str_int_def)
  next
    case False
    with bound have u: "unsigned_int (nat_digits (nat i)) = Some (nat i)"
      by (intro unsigned_int_nat_digits) simp
    obtain c cs where c: "nat_digits (nat i) = c # cs"
      by (cases "nat_digits (nat i)") auto
    then have "py_is_digit c" using nat_digits_digit [of "nat i"] by simp
    with False strip u c show ?thesis by (simp add: py_int_def py_str_int_def)
  qed
qed

text \<open>Without a bound: the text of a number parses to that number or to nothing.\<close>

lemma unsigned_int_nat_digits_Some:
  assumes "unsigned_int (nat_digits n) = Some m"
  shows "m = n"
proof -
  have "int_body (nat_digits n) 0 False = Some n"
    using int_body_digits [OF nat_digits_digit [of n], of False 0] digits_value_nat_digits [of n]
    by (simp add: digits_value_def)
  with assms show ?thesis by (simp add: unsigned_int_def split: if_splits)
qed

lemma py_int_str_Some:
  assumes "py_int (py_str_int i) = Some j"
  shows "j = i"
proof -
  have strip: "py_strip (py_str_int i) = py_str_int i"
    by (rule py_strip_no_space [OF py_str_int_no_space])
  show ?thesis
  proof (cases "i < 0")
    case True
    with strip assms show ?thesis
      by (auto simp: py_int_def py_str_int_def dest: unsigned_int_nat_digits_Some)
  next
    case False
    obtain c cs where c: "nat_digits (nat i) = c # cs"
      by (cases "nat_digits (nat i)") auto
    then have "py_is_digit c" using nat_digits_digit [of "nat i"] by simp
    with False strip assms c unsigned_int_nat_digits_Some [of "nat i"] show ?thesis
      by (auto simp: py_int_def py_str_int_def)
  qed
qed

text \<open>Distinct numbers print differently, and a digit text followed by a separator can be cut off.\<close>

lemma nat_digits_inject [simp]: "nat_digits m = nat_digits n \<longleftrightarrow> m = n"
  using digits_value_nat_digits by metis

lemma py_str_int_inject [simp]: "py_str_int i = py_str_int j \<longleftrightarrow> i = j"
proof
  assume e: "py_str_int i = py_str_int j"
  have h: "hd (nat_digits n) \<noteq> CHR ''-''" for n
    using nat_digits_digit [of n] nat_digits_nonempty [of n] py_is_digit_neq(1)
    by (metis list.set_sel(1))
  from e h [of "nat i"] h [of "nat j"] show "i = j"
    by (auto simp: py_str_int_def split: if_splits) (metis list.sel(1))+
qed simp

end
