(* ===== verification/Py_Calendar.thy ===== *)
theory Py_Calendar
  imports Py_Prelude
begin

text \<open>
  The proleptic Gregorian calendar of Python's \<open>datetime\<close> module: a date is its ordinal
  (1 January of year 1 is day 1), \<open>ymd2ord\<close> and \<open>ord2ymd\<close> are the module's conversions.
  The lemmas show that the two are inverse and that ordinals order dates as the triples
  (year, month, day) do, which is what the month arithmetic of the backfill planner needs.
\<close>

section \<open>Years, months and ordinals\<close>

type_synonym ymd = "int \<times> int \<times> int"

definition is_leap :: "int \<Rightarrow> bool" where
  "is_leap y = (y mod 4 = 0 \<and> (y mod 100 \<noteq> 0 \<or> y mod 400 = 0))"

definition leap_day :: "int \<Rightarrow> int" where
  "leap_day y = (if is_leap y then 1 else 0)"

definition month_days :: "int list" where
  "month_days = [31, 28, 31, 30, 31, 30, 31, 31, 30, 31, 30, 31]"

definition month_starts :: "int list" where
  "month_starts = [0, 31, 59, 90, 120, 151, 181, 212, 243, 273, 304, 334]"

definition days_in_month :: "int \<Rightarrow> int \<Rightarrow> int" where
  "days_in_month y m = (if m = 2 \<and> is_leap y then 29 else month_days ! nat (m - 1))"

definition days_before_year :: "int \<Rightarrow> int" where
  "days_before_year y = (y - 1) * 365 + (y - 1) div 4 - (y - 1) div 100 + (y - 1) div 400"

definition days_before_month :: "int \<Rightarrow> int \<Rightarrow> int" where
  "days_before_month y m = month_starts ! nat (m - 1) + (if 2 < m \<and> is_leap y then 1 else 0)"

definition ymd_valid :: "int \<Rightarrow> int \<Rightarrow> int \<Rightarrow> bool" where
  "ymd_valid y m d = (1 \<le> m \<and> m \<le> 12 \<and> 1 \<le> d \<and> d \<le> days_in_month y m)"

definition ymd2ord :: "int \<Rightarrow> int \<Rightarrow> int \<Rightarrow> int" where
  "ymd2ord y m d = days_before_year y + days_before_month y m + d"

definition month_of_day :: "int \<Rightarrow> int \<Rightarrow> int \<times> int" where
  "month_of_day y n =
     (let m = (n + 50) div 32; p = days_before_month y m in
      if n < p then (m - 1, n - days_before_month y (m - 1) + 1) else (m, n - p + 1))"

definition ord2ymd :: "int \<Rightarrow> ymd" where
  "ord2ymd n =
     (let k = n - 1;
          n400 = k div 146097; r400 = k mod 146097;
          n100 = r400 div 36524; r100 = r400 mod 36524;
          n4 = r100 div 1461; r4 = r100 mod 1461;
          n1 = r4 div 365; r1 = r4 mod 365;
          y = n400 * 400 + n100 * 100 + n4 * 4 + n1 + 1 in
      if n1 = 4 \<or> n100 = 4 then (y - 1, 12, 31)
      else (y, month_of_day y r1))"

definition max_ordinal :: int where
  "max_ordinal = 3652059"

lemmas calendar_defs = is_leap_def leap_day_def days_in_month_def days_before_month_def
  month_days_def month_starts_def

lemma month_range:
  assumes "1 \<le> m" "m \<le> (12::int)"
  shows "m = 1 \<or> m = 2 \<or> m = 3 \<or> m = 4 \<or> m = 5 \<or> m = 6 \<or> m = 7 \<or> m = 8
    \<or> m = 9 \<or> m = 10 \<or> m = 11 \<or> m = 12"
  using assms by presburger

lemma days_in_month_bounds:
  assumes "1 \<le> m" "m \<le> 12"
  shows "28 \<le> days_in_month y m \<and> days_in_month y m \<le> 31"
  using month_range [OF assms] by (elim disjE) (simp_all add: calendar_defs)

text \<open>Consecutive months and years are adjacent.\<close>

lemma days_before_month_Suc:
  assumes "1 \<le> m" "m \<le> 11"
  shows "days_before_month y (m + 1) = days_before_month y m + days_in_month y m"
proof -
  from assms have "1 \<le> m" "m \<le> 12" by auto
  from month_range [OF this] assms(2) show ?thesis
    by (elim disjE) (simp_all add: calendar_defs)
qed

lemma days_before_month_1 [simp]: "days_before_month y 1 = 0"
  by (simp add: calendar_defs)

lemma days_before_month_12: "days_before_month y 12 + days_in_month y 12 = 365 + leap_day y"
  by (simp add: calendar_defs)

lemma div_step:
  assumes "1 < (k::int)"
  shows "(a + 1) div k = a div k + (if (a + 1) mod k = 0 then 1 else 0)"
proof -
  have r: "0 \<le> a mod k" "a mod k < k" using assms by auto
  have d: "(a + 1) div k = a div k + (a mod k + 1) div k"
    using assms by (simp add: div_add1_eq [of a 1 k])
  have m: "(a + 1) mod k = (a mod k + 1) mod k"
    by (simp add: mod_add_left_eq)
  show ?thesis
  proof (cases "a mod k = k - 1")
    case True
    with d m assms show ?thesis by simp
  next
    case False
    with r have "a mod k + 1 < k" "0 \<le> a mod k + 1" "a mod k + 1 \<noteq> 0" by linarith+
    with d m show ?thesis by (simp add: div_pos_pos_trivial mod_pos_pos_trivial)
  qed
qed

lemma div_pred:
  assumes "1 < (k::int)"
  shows "y div k = (y - 1) div k + (if y mod k = 0 then 1 else 0)"
  using div_step [OF assms, of "y - 1"] by (simp only: diff_add_cancel)

lemma mod_400_100_4:
  fixes y :: int
  shows "y mod 400 = 0 \<Longrightarrow> y mod 100 = 0" "y mod 100 = 0 \<Longrightarrow> y mod 4 = 0"
  using mod_mod_cancel [of 100 400 y] mod_mod_cancel [of 4 100 y] by simp_all

lemma days_before_year_Suc: "days_before_year (y + 1) = days_before_year y + 365 + leap_day y"
proof -
  define a b c where "a = y div 4" and "b = y div 100" and "c = y div 400"
  define a' b' c' where "a' = (y - 1) div 4" and "b' = (y - 1) div 100" and "c' = (y - 1) div 400"
  define p q r where "p = (y mod 4 = 0)" and "q = (y mod 100 = 0)" and "r = (y mod 400 = 0)"
  have abc: "a = a' + (if p then 1 else 0)" "b = b' + (if q then 1 else 0)"
    "c = c' + (if r then 1 else 0)"
    unfolding a_def b_def c_def a'_def b'_def c'_def p_def q_def r_def
    by (rule div_pred; simp)+
  have "r \<longrightarrow> q"
    unfolding q_def r_def by (intro impI) (rule mod_400_100_4(1))
  moreover have "q \<longrightarrow> p"
    unfolding p_def q_def by (intro impI) (rule mod_400_100_4(2))
  ultimately have "y * 365 + a - b + c =
      (y - 1) * 365 + a' - b' + c' + 365 + (if p \<and> (\<not> q \<or> r) then 1 else 0)"
    unfolding abc by (cases p; cases q; cases r) simp_all
  then show ?thesis
    unfolding days_before_year_def leap_day_def is_leap_def a_def b_def c_def a'_def b'_def c'_def
      p_def q_def r_def add_diff_cancel_right' .
qed

lemma days_before_year_mono: "y \<le> y' \<Longrightarrow> days_before_year y + 365 * (y' - y) \<le> days_before_year y'"
proof (induction "nat (y' - y)" arbitrary: y')
  case 0
  then show ?case by simp
next
  case (Suc k)
  then have "days_before_year y + 365 * ((y' - 1) - y) \<le> days_before_year (y' - 1)"
    by (intro Suc.hyps(1)) linarith+
  with days_before_year_Suc [of "y' - 1"] show ?case by (simp add: leap_day_def split: if_splits)
qed

lemma day_of_year_bounds:
  assumes "ymd_valid y m d"
  shows "1 \<le> days_before_month y m + d \<and> days_before_month y m + d \<le> 365 + leap_day y"
proof -
  from assms have "1 \<le> m" "m \<le> 12" by (auto simp: ymd_valid_def)
  from month_range [OF this] assms show ?thesis
    by (elim disjE) (simp_all add: ymd_valid_def calendar_defs split: if_splits)
qed

section \<open>The conversions are inverse\<close>

lemma ymd2ord_year_bounds:
  assumes "ymd_valid y m d"
  shows "days_before_year y < ymd2ord y m d" "ymd2ord y m d \<le> days_before_year (y + 1)"
  using day_of_year_bounds [OF assms] days_before_year_Suc [of y] by (simp_all add: ymd2ord_def)

lemma days_before_month_mono:
  assumes "1 \<le> m" "m < m'" "m' \<le> 12"
  shows "days_before_month y m + days_in_month y m \<le> days_before_month y m'"
proof -
  from assms have "1 \<le> m" "m \<le> 12" "1 \<le> m'" by auto
  from month_range [OF this(1,2)] month_range [OF this(3) assms(3)] assms(2) show ?thesis
    by (elim disjE) (simp_all add: calendar_defs)
qed

lemma ymd2ord_less:
  assumes v: "ymd_valid y m d" and v': "ymd_valid y' m' d'"
    and lt: "y < y' \<or> (y = y' \<and> (m < m' \<or> (m = m' \<and> d < d')))"
  shows "ymd2ord y m d < ymd2ord y' m' d'"
proof (cases "y < y'")
  case True
  have "days_before_year (y + 1) \<le> days_before_year y'"
    using days_before_year_mono [of "y + 1" y'] True by simp
  then show ?thesis using ymd2ord_year_bounds [OF v] ymd2ord_year_bounds [OF v'] by linarith
next
  case False
  with lt have y: "y = y'" and md: "m < m' \<or> (m = m' \<and> d < d')" by auto
  show ?thesis
  proof (cases "m < m'")
    case True
    with v v' have "days_before_month y m + days_in_month y m \<le> days_before_month y m'"
      by (intro days_before_month_mono) (auto simp: ymd_valid_def)
    with v v' y show ?thesis by (simp add: ymd2ord_def ymd_valid_def)
  next
    case False
    with md y show ?thesis by (simp add: ymd2ord_def)
  qed
qed

lemma ymd2ord_inject:
  assumes "ymd_valid y m d" "ymd_valid y' m' d'" "ymd2ord y m d = ymd2ord y' m' d'"
  shows "y = y' \<and> m = m' \<and> d = d'"
proof (rule ccontr)
  assume "\<not> (y = y' \<and> m = m' \<and> d = d')"
  then have "(y < y' \<or> (y = y' \<and> (m < m' \<or> (m = m' \<and> d < d'))))
    \<or> (y' < y \<or> (y' = y \<and> (m' < m \<or> (m' = m \<and> d' < d))))" by auto
  then show False
    using ymd2ord_less [OF assms(1,2)] ymd2ord_less [OF assms(2,1)] assms(3) by auto
qed

lemma month_guess_correct:
  assumes e: "32 * e \<le> k + 50" "k + 50 < 32 * e + 32" "1 \<le> e" "e \<le> 12"
    and k: "0 \<le> k" "k < 365 + leap_day y"
  shows "(if k < days_before_month y e then 2 \<le> e \<and> days_before_month y (e - 1) \<le> k
    else k < days_before_month y e + days_in_month y e)"
  using month_range [OF e(3,4)] e(1,2) k
  by (elim disjE) (simp_all add: calendar_defs split: if_splits)

lemma month_of_day_correct:
  assumes k: "0 \<le> k" "k < 365 + leap_day y" and md: "month_of_day y k = (m, d)"
  shows "ymd_valid y m d \<and> days_before_month y m + d = k + 1"
proof -
  define e where "e = (k + 50) div 32"
  have e: "32 * e \<le> k + 50" "k + 50 < 32 * e + 32"
    unfolding e_def by presburger+
  have "leap_day y \<le> 1" by (simp add: leap_day_def)
  with e k have e12: "1 \<le> e" "e \<le> 12" by linarith+
  note guess = month_guess_correct [OF e e12 k]
  note md' = md [unfolded month_of_day_def, folded e_def]
  show ?thesis
  proof (cases "k < days_before_month y e")
    case True
    with guess have p: "2 \<le> e" "days_before_month y (e - 1) \<le> k" by simp_all
    from True md' have "m = e - 1" "d = k - days_before_month y (e - 1) + 1"
      by (auto simp: Let_def)
    then show ?thesis
      using True p e12 days_before_month_Suc [of "e - 1" y] by (simp add: ymd_valid_def)
  next
    case False
    with guess have p: "k < days_before_month y e + days_in_month y e" by simp
    from False md' have "m = e" "d = k - days_before_month y e + 1"
      by (auto simp: Let_def)
    then show ?thesis
      using False p e12 by (simp add: ymd_valid_def)
  qed
qed

lemma days_before_year_parts:
  assumes "0 \<le> b" "b \<le> 3" "0 \<le> c" "c \<le> 24" "0 \<le> e" "e \<le> 3"
  shows "days_before_year (a * 400 + b * 100 + c * 4 + e + 1)
    = 146097 * a + 36524 * b + 1461 * c + 365 * e"
proof -
  let ?z = "a * 400 + b * 100 + c * 4 + e"
  have "?z div 4 = 100 * a + 25 * b + c" "?z div 100 = 4 * a + b" "?z div 400 = a"
    using assms by linarith+
  then show ?thesis by (simp add: days_before_year_def)
qed

lemma last_day_of_year:
  "ymd_valid y 12 31 \<and> ymd2ord y 12 31 = days_before_year (y + 1)"
  using days_before_year_Suc [of y] by (simp add: ymd_valid_def ymd2ord_def calendar_defs)

lemma ord2ymd_correct:
  assumes "ord2ymd n = (y, m, d)"
  shows "ymd_valid y m d \<and> ymd2ord y m d = n"
proof -
  define k n400 r400 n100 r100 n4 r4 n1 r1 where
    "k = n - 1" and "n400 = k div 146097" and "r400 = k mod 146097"
    and "n100 = r400 div 36524" and "r100 = r400 mod 36524"
    and "n4 = r100 div 1461" and "r4 = r100 mod 1461"
    and "n1 = r4 div 365" and "r1 = r4 mod 365"
  note split_defs = this
  have d400: "k = 146097 * n400 + r400" "0 \<le> r400" "r400 < 146097"
    unfolding split_defs by simp_all
  have d100: "r400 = 36524 * n100 + r100" "0 \<le> r100" "r100 < 36524"
    unfolding n100_def r100_def by simp_all
  have d4: "r100 = 1461 * n4 + r4" "0 \<le> r4" "r4 < 1461"
    unfolding n4_def r4_def by simp_all
  have d1: "r4 = 365 * n1 + r1" "0 \<le> r1" "r1 < 365"
    unfolding n1_def r1_def by simp_all
  have b: "0 \<le> n100" "n100 \<le> 4" "0 \<le> n4" "n4 \<le> 24" "0 \<le> n1" "n1 \<le> 4"
    using d400 d100 d4 d1 by linarith+
  let ?y = "n400 * 400 + n100 * 100 + n4 * 4 + n1 + 1"
  have res: "ord2ymd n = (if n1 = 4 \<or> n100 = 4 then (?y - 1, 12, 31) else (?y, month_of_day ?y r1))"
    by (simp add: ord2ymd_def Let_def split_defs)
  consider (cycle400) "n100 = 4" | (cycle4) "n100 \<noteq> 4" "n1 = 4" | (year) "n100 \<noteq> 4" "n1 \<noteq> 4"
    by blast
  then show ?thesis
  proof cases
    case cycle400
    with d400 d100 d4 d1 b have "n4 = 0" "n1 = 0" "r1 = 0" by linarith+
    with cycle400 res assms have "y = (n400 + 1) * 400" "m = 12" "d = 31" by auto
    moreover have "days_before_year ((n400 + 1) * 400 + 1) = n"
      using days_before_year_parts [of 0 0 0 "n400 + 1"] d400 d100 d4 d1 cycle400 \<open>n4 = 0\<close> \<open>n1 = 0\<close>
        \<open>r1 = 0\<close> \<open>k = n - 1\<close> by simp
    ultimately show ?thesis using last_day_of_year [of y] by simp
  next
    case cycle4
    with d400 d100 d4 d1 b have "n4 \<le> 23" "r1 = 0" by linarith+
    moreover from cycle4 res assms have "y = ?y - 1" "m = 12" "d = 31" by auto
    moreover have "days_before_year (n400 * 400 + n100 * 100 + (n4 + 1) * 4 + 0 + 1) = n"
      using days_before_year_parts [of n100 "n4 + 1" 0 n400] d400 d100 d4 d1 b cycle4 \<open>n4 \<le> 23\<close>
        \<open>r1 = 0\<close> \<open>k = n - 1\<close> by simp
    ultimately show ?thesis using last_day_of_year [of y] cycle4 by (simp add: algebra_simps)
  next
    case year
    with res assms have y: "y = ?y" and md: "month_of_day y r1 = (m, d)" by auto
    have "days_before_year y = k - r1"
      using days_before_year_parts [of n100 n4 n1 n400] year b d400 d100 d4 d1 y by simp
    moreover have "ymd_valid y m d \<and> days_before_month y m + d = r1 + 1"
      using md d1 by (intro month_of_day_correct) (simp_all add: leap_day_def)
    ultimately show ?thesis using \<open>k = n - 1\<close> by (simp add: ymd2ord_def)
  qed
qed

text \<open>Both round trips.\<close>

lemma ymd2ord_ord2ymd [simp]: "(case ord2ymd n of (y, m, d) \<Rightarrow> ymd2ord y m d) = n"
  using ord2ymd_correct by (auto split: prod.split)

lemma ord2ymd_ymd2ord [simp]:
  assumes "ymd_valid y m d"
  shows "ord2ymd (ymd2ord y m d) = (y, m, d)"
proof -
  obtain y' m' d' where e: "ord2ymd (ymd2ord y m d) = (y', m', d')"
    by (cases "ord2ymd (ymd2ord y m d)") auto
  from ord2ymd_correct [OF e] ymd2ord_inject [OF assms] e show ?thesis by metis
qed

lemma ord2ymd_valid: "ord2ymd n = (y, m, d) \<Longrightarrow> ymd_valid y m d"
  using ord2ymd_correct by blast

text \<open>The ordinals from 1 to \<open>max_ordinal\<close> are the years 1 to 9999.\<close>

lemma ord2ymd_year_range:
  assumes "1 \<le> n" "n \<le> max_ordinal" "ord2ymd n = (y, m, d)"
  shows "1 \<le> y \<and> y \<le> 9999"
proof -
  from ord2ymd_correct [OF assms(3)] have v: "ymd_valid y m d" "ymd2ord y m d = n" by auto
  have "days_before_year y < n" "n \<le> days_before_year (y + 1)"
    using ymd2ord_year_bounds [OF v(1)] v(2) by auto
  moreover have "days_before_year (y + 1) \<le> 0" if "y \<le> 0"
    using days_before_year_mono [of "y + 1" 1] that by (simp add: days_before_year_def)
  moreover have "max_ordinal \<le> days_before_year y" if "10000 \<le> y"
    using days_before_year_mono [of 10000 y] that by (simp add: days_before_year_def max_ordinal_def)
  ultimately show ?thesis using assms(1,2) by force
qed

lemma ymd2ord_range:
  assumes "ymd_valid y m d" "1 \<le> y" "y \<le> 9999"
  shows "1 \<le> ymd2ord y m d \<and> ymd2ord y m d \<le> max_ordinal"
proof -
  have "0 \<le> days_before_year y"
    using days_before_year_mono [of 1 y] assms(2) by (simp add: days_before_year_def)
  moreover have "days_before_year (y + 1) \<le> max_ordinal"
    using days_before_year_mono [of "y + 1" 10000] assms(3)
    by (simp add: days_before_year_def max_ordinal_def)
  ultimately show ?thesis using ymd2ord_year_bounds [OF assms(1)] by linarith
qed

end
