(* ===== verification/Py_Datetime.thy ===== *)
theory Py_Datetime
  imports Py_Calendar
begin

text \<open>
  Dates, date-times and their ISO 8601 text, as Python 3.11's \<open>datetime\<close> module reads
  and prints them. A \<open>date\<close> is its ordinal; a \<open>datetime\<close> is a day, the microseconds
  elapsed in it and, when it is aware, its UTC offset in microseconds. The parser follows
  the module's C implementation character by character, so that texts other than the ones
  the program itself prints are accepted or refused as Python does it.

  What the lease code relies on is \<open>parse_utc_text_utc_text\<close>: printing a UTC instant gives a
  text that reads back as an aware date-time of the same instant.
\<close>

section \<open>Date-times\<close>

type_synonym pydate = int
type_synonym instant = int

record pydt =
  dt_day :: int
  dt_us :: int
  dt_off :: "int option"

definition us_second :: int where "us_second = 1000000"
definition us_day :: int where "us_day = 86400000000"

definition dt_valid :: "pydt \<Rightarrow> bool" where
  "dt_valid d = (1 \<le> dt_day d \<and> dt_day d \<le> max_ordinal \<and> 0 \<le> dt_us d \<and> dt_us d < us_day
     \<and> (case dt_off d of None \<Rightarrow> True | Some z \<Rightarrow> - us_day < z \<and> z < us_day))"

definition dt_local :: "pydt \<Rightarrow> int" where
  "dt_local d = dt_day d * us_day + dt_us d"

definition dt_instant :: "pydt \<Rightarrow> instant" where
  "dt_instant d = dt_local d - (case dt_off d of None \<Rightarrow> 0 | Some z \<Rightarrow> z)"

definition dt_aware :: "pydt \<Rightarrow> bool" where
  "dt_aware d = (dt_off d \<noteq> None)"

definition of_instant :: "instant \<Rightarrow> pydt" where
  "of_instant t = \<lparr>dt_day = t div us_day, dt_us = t mod us_day, dt_off = Some 0\<rparr>"

definition instant_valid :: "instant \<Rightarrow> bool" where
  "instant_valid t = (us_day \<le> t \<and> t < (max_ordinal + 1) * us_day)"

text \<open>Comparing an aware with a naive date-time is a \<open>TypeError\<close>.\<close>

definition dt_less :: "pydt \<Rightarrow> pydt \<Rightarrow> bool res" where
  "dt_less a b =
     (if dt_aware a \<noteq> dt_aware b
      then Inl (TypeError ''can't compare offset-naive and offset-aware datetimes'')
      else Inr (dt_instant a < dt_instant b))"

definition dt_add_us :: "pydt \<Rightarrow> int \<Rightarrow> pydt res" where
  "dt_add_us d k =
     (let t = dt_local d + k; day = t div us_day in
      if 1 \<le> day \<and> day \<le> max_ordinal
      then Inr (d\<lparr>dt_day := day, dt_us := t mod us_day\<rparr>)
      else Inl (OverflowError ''date value out of range''))"

definition date_add_days :: "pydate \<Rightarrow> int \<Rightarrow> pydate res" where
  "date_add_days d k =
     (if 1 \<le> d + k \<and> d + k \<le> max_ordinal then Inr (d + k)
      else Inl (OverflowError ''date value out of range''))"

text \<open>\<open>date(y, m, d)\<close> and its range checks.\<close>

definition mk_date :: "int \<Rightarrow> int \<Rightarrow> int \<Rightarrow> pydate res" where
  "mk_date y m d =
     (if \<not> (1 \<le> y \<and> y \<le> 9999) then Inl (ValueError ''year is out of range'')
      else if \<not> (1 \<le> m \<and> m \<le> 12) then Inl (ValueError ''month must be in 1..12'')
      else if \<not> (1 \<le> d \<and> d \<le> days_in_month y m) then Inl (ValueError ''day is out of range for month'')
      else Inr (ymd2ord y m d))"

section \<open>Printing\<close>

definition dg :: "int \<Rightarrow> char" where
  "dg n = char_of (48 + nat (n mod 10))"

text \<open>Fixed-width decimals: \<open>padk k n\<close> holds the last \<open>k\<close> digits of \<open>n\<close>.\<close>

fun padk :: "nat \<Rightarrow> int \<Rightarrow> string" where
  "padk 0 n = []"
| "padk (Suc k) n = padk k (n div 10) @ [dg n]"

definition pad2 :: "int \<Rightarrow> string" where
  "pad2 n = padk 2 n"

definition pad4 :: "int \<Rightarrow> string" where
  "pad4 n = padk 4 n"

definition pad6 :: "int \<Rightarrow> string" where
  "pad6 n = padk 6 n"

definition date_iso :: "pydate \<Rightarrow> string" where
  "date_iso d = (case ord2ymd d of (y, m, dd) \<Rightarrow> pad4 y @ ''-'' @ pad2 m @ ''-'' @ pad2 dd)"

definition time_iso :: "int \<Rightarrow> string" where
  "time_iso us =
     (let s = us div us_second; f = us mod us_second in
      pad2 (s div 3600) @ '':'' @ pad2 (s div 60 mod 60) @ '':'' @ pad2 (s mod 60)
      @ (if f = 0 then [] else ''.'' @ pad6 f))"

definition off_iso :: "int option \<Rightarrow> string" where
  "off_iso z = (case z of None \<Rightarrow> [] | Some off \<Rightarrow>
     (let a = \<bar>off\<bar>; s = a div us_second; f = a mod us_second in
      (if off < 0 then ''-'' else ''+'')
      @ pad2 (s div 3600) @ '':'' @ pad2 (s div 60 mod 60)
      @ (if s mod 60 = 0 \<and> f = 0 then [] else '':'' @ pad2 (s mod 60))
      @ (if f = 0 then [] else ''.'' @ pad6 f)))"

definition dt_iso :: "char \<Rightarrow> pydt \<Rightarrow> string" where
  "dt_iso sep d = date_iso (dt_day d) @ [sep] @ time_iso (dt_us d) @ off_iso (dt_off d)"

section \<open>Parsing\<close>

fun parse_digits :: "nat \<Rightarrow> int \<Rightarrow> string \<Rightarrow> (int \<times> string) option" where
  "parse_digits 0 acc s = Some (acc, s)"
| "parse_digits (Suc n) acc (c # s) =
     (if py_is_digit c then parse_digits n (10 * acc + int (digit_val c)) s else None)"
| "parse_digits (Suc n) acc [] = None"

text \<open>The Monday of ISO week 1, and the date of an ISO week and weekday.\<close>

definition iso_week1_monday :: "int \<Rightarrow> int" where
  "iso_week1_monday y =
     (let first = ymd2ord y 1 1; wd = (first + 6) mod 7; monday = first - wd in
      if 3 < wd then monday + 7 else monday)"

definition iso_to_ymd :: "int \<Rightarrow> int \<Rightarrow> int \<Rightarrow> ymd option" where
  "iso_to_ymd y w d =
     (let first_wd = ymd2ord y 1 1 mod 7;
          ok53 = (w = 53 \<and> (first_wd = 4 \<or> (first_wd = 3 \<and> is_leap y))) in
      if 1 \<le> y \<and> y \<le> 9999 \<and> (0 < w \<and> w < 53 \<or> ok53) \<and> 0 < d \<and> d < 8
      then Some (ord2ymd (iso_week1_monday y + (w - 1) * 7 + (d - 1)))
      else None)"

definition parse_iso_date :: "string \<Rightarrow> ymd option" where
  "parse_iso_date s =
     (case parse_digits 4 0 s of None \<Rightarrow> None | Some (y, s1) \<Rightarrow>
        (let sep = (take 1 s1 = ''-''); s2 = (if sep then drop 1 s1 else s1) in
         if take 1 s2 = ''W'' then
           (case parse_digits 2 0 (drop 1 s2) of None \<Rightarrow> None | Some (w, s3) \<Rightarrow>
              (if s3 = [] then iso_to_ymd y w 1
               else if sep \<and> take 1 s3 \<noteq> ''-'' then None
               else (case parse_digits 1 0 (if sep then drop 1 s3 else s3) of None \<Rightarrow> None
                     | Some (d, _) \<Rightarrow> iso_to_ymd y w d)))
         else
           (case parse_digits 2 0 s2 of None \<Rightarrow> None | Some (m, s3) \<Rightarrow>
              (if sep \<and> take 1 s3 \<noteq> ''-'' then None
               else (case parse_digits 2 0 (if sep then drop 1 s3 else s3) of None \<Rightarrow> None
                     | Some (d, s4) \<Rightarrow> if s4 = [] then Some (y, m, d) else None)))))"

definition date_fromisoformat :: "string \<Rightarrow> pydate res" where
  "date_fromisoformat s =
     (if length s \<in> {7, 8, 10} then
        (case parse_iso_date s of
           None \<Rightarrow> Inl (ValueError ''Invalid isoformat string'')
         | Some (y, m, d) \<Rightarrow> mk_date y m d)
      else Inl (ValueError ''Invalid isoformat string''))"

text \<open>
  The fraction of a second: six digits at most are read, digits after them are skipped;
  the flag says that nothing is left.
\<close>

definition parse_fraction :: "string \<Rightarrow> (int \<times> bool) option" where
  "parse_fraction s =
     (let n = min 6 (length s) in
      case parse_digits n 0 s of None \<Rightarrow> None
      | Some (v, rest) \<Rightarrow> Some (v * 10 ^ (6 - n), dropWhile py_is_digit rest = []))"

text \<open>
  \<open>parse_hms i sep vals s\<close> reads the components from the \<open>i\<close>-th on: the values of hour,
  minute and second read so far, the microseconds, and whether the whole text was used.
\<close>

fun parse_hms :: "nat \<Rightarrow> nat \<Rightarrow> bool \<Rightarrow> int list \<Rightarrow> string \<Rightarrow> (int list \<times> int \<times> bool) option" where
  "parse_hms 0 i sep vals s = map_option (\<lambda>(f, ok). (vals, f, ok)) (parse_fraction s)"
| "parse_hms (Suc k) i sep vals s =
     (case parse_digits 2 0 s of
        None \<Rightarrow> None
      | Some (v, rest) \<Rightarrow>
          (case rest of
             [] \<Rightarrow> Some (vals @ [v], 0, True)
           | [c] \<Rightarrow> Some (vals @ [v], 0, False)
           | c # rest' \<Rightarrow>
               (let sep' = (if i = 0 then c = CHR '':'' else sep) in
                if sep' \<and> c = CHR '':'' then parse_hms k (Suc i) sep' (vals @ [v]) rest'
                else if c = CHR ''.'' \<or> c = CHR '','' then
                  map_option (\<lambda>(f, ok). (vals @ [v], f, ok)) (parse_fraction rest')
                else if \<not> sep' then parse_hms k (Suc i) sep' (vals @ [v]) rest
                else None)))"

definition tcomp :: "int list \<Rightarrow> nat \<Rightarrow> int" where
  "tcomp vals i = (if i < length vals then vals ! i else 0)"

definition hms_us :: "int list \<Rightarrow> int \<Rightarrow> int" where
  "hms_us vals f = ((tcomp vals 0 * 60 + tcomp vals 1) * 60 + tcomp vals 2) * us_second + f"

definition is_tz_char :: "char \<Rightarrow> bool" where
  "is_tz_char c = (c = CHR ''+'' \<or> c = CHR ''-'' \<or> c = CHR ''Z'')"

text \<open>The result: hour, minute, second, microsecond and the offset.\<close>

definition parse_iso_time :: "string \<Rightarrow> (int list \<times> int \<times> int option) option" where
  "parse_iso_time s =
     (let t = takeWhile (\<lambda>c. \<not> is_tz_char c) s; z = dropWhile (\<lambda>c. \<not> is_tz_char c) s in
      case parse_hms 3 0 True [] t of
        None \<Rightarrow> None
      | Some (vals, f, ok) \<Rightarrow>
          (case z of
             [] \<Rightarrow> if ok then Some (vals, f, None) else None
           | zc # zs \<Rightarrow>
               if zc = CHR ''Z'' then (if zs = [] then Some (vals, f, Some 0) else None)
               else (case parse_hms 3 0 True [] zs of
                       None \<Rightarrow> None
                     | Some (zv, zf, zok) \<Rightarrow>
                         if zok then Some (vals, f, Some ((if zc = CHR ''-'' then -1 else 1) * hms_us zv zf))
                         else None)))"

definition iso_separator :: "string \<Rightarrow> nat option" where
  "iso_separator s =
     (let n = length s; dig = (\<lambda>i. i < n \<and> py_is_digit (s ! i)) in
      if n = 7 then Some 7
      else if s ! 4 = CHR ''-'' then
        (if s ! 5 = CHR ''W'' then
           (if n < 8 then None
            else if 8 < n \<and> s ! 8 = CHR ''-'' then
              (if n = 9 then None else if dig 10 then Some 8 else Some 10)
            else Some 8)
         else Some 10)
      else if s ! 4 = CHR ''W'' then
        (let idx = 7 + length (takeWhile py_is_digit (drop 7 s)) in
         if idx < 9 then Some idx else if even idx then Some 7 else Some 8)
      else Some 8)"

definition mk_datetime :: "ymd \<Rightarrow> int list \<Rightarrow> int \<Rightarrow> int option \<Rightarrow> pydt res" where
  "mk_datetime date vals f z =
     (case date of (y, m, d) \<Rightarrow>
        (if \<not> (case z of None \<Rightarrow> True | Some off \<Rightarrow> - us_day < off \<and> off < us_day)
         then Inl (ValueError ''offset must be strictly between -24h and 24h'')
         else bind_res (mk_date y m d) (\<lambda>day.
           if tcomp vals 0 \<le> 23 \<and> tcomp vals 1 \<le> 59 \<and> tcomp vals 2 \<le> 59
           then Inr \<lparr>dt_day = day, dt_us = hms_us vals f, dt_off = z\<rparr>
           else Inl (ValueError ''time component out of range''))))"

definition datetime_fromisoformat :: "string \<Rightarrow> pydt res" where
  "datetime_fromisoformat s =
     (let bad = Inl (ValueError ''Invalid isoformat string'') in
      if length s < 7 then bad
      else (case iso_separator s of
              None \<Rightarrow> bad
            | Some k \<Rightarrow>
                (case parse_iso_date (take k s) of
                   None \<Rightarrow> bad
                 | Some date \<Rightarrow>
                     if length s \<le> k then mk_datetime date [] 0 None
                     else (case parse_iso_time (drop (Suc k) s) of
                             None \<Rightarrow> bad
                           | Some (vals, f, z) \<Rightarrow> mk_datetime date vals f z))))"

section \<open>Round trips\<close>

lemma dg_digit [simp]: "py_is_digit (dg n)" "int (digit_val (dg n)) = n mod 10"
proof -
  have "nat (n mod 10) < 10" by simp
  then show "py_is_digit (dg n)" "int (digit_val (dg n)) = n mod 10"
    unfolding dg_def by (simp_all only: digit_char_props int_nat_eq) simp_all
qed

lemma dg_not_special [simp]:
  "dg n \<noteq> CHR ''-''" "dg n \<noteq> CHR ''W''" "dg n \<noteq> CHR ''+''" "dg n \<noteq> CHR ''Z''"
  "dg n \<noteq> CHR '':''" "dg n \<noteq> CHR ''.''" "\<not> is_tz_char (dg n)"
  using py_is_digit_neq [OF dg_digit(1) [of n]] by (auto simp: is_tz_char_def)

lemma parse_digits_append:
  "parse_digits j acc xs = Some (a, []) \<Longrightarrow> parse_digits (j + k) acc (xs @ ys) = parse_digits k a ys"
proof (induction j acc xs rule: parse_digits.induct)
  case (2 n acc c s)
  then show ?case by (simp split: if_splits)
qed simp_all

lemma parse_padk: "0 \<le> n \<Longrightarrow> n < 10 ^ k \<Longrightarrow> parse_digits k 0 (padk k n) = Some (n, [])"
proof (induction k arbitrary: n)
  case 0
  then show ?case by simp
next
  case (Suc k)
  have "parse_digits k 0 (padk k (n div 10)) = Some (n div 10, [])"
    using Suc.prems by (intro Suc.IH) (simp_all add: pos_imp_zdiv_nonneg_iff)
  then have "parse_digits (k + 1) 0 (padk k (n div 10) @ [dg n]) = parse_digits 1 (n div 10) [dg n]"
    by (rule parse_digits_append)
  also have "\<dots> = Some (n, [])" by simp
  finally show ?case by simp
qed

lemma parse_padk_append:
  "0 \<le> n \<Longrightarrow> n < 10 ^ k \<Longrightarrow> parse_digits k 0 (padk k n @ s) = Some (n, s)"
  using parse_digits_append [OF parse_padk, of n k 0 s] by simp

lemma parse_pad2: "0 \<le> n \<Longrightarrow> n < 100 \<Longrightarrow> parse_digits 2 0 (pad2 n @ s) = Some (n, s)"
  by (simp add: pad2_def pad4_def pad6_def parse_padk_append)

lemma parse_pad4: "0 \<le> n \<Longrightarrow> n < 10000 \<Longrightarrow> parse_digits 4 0 (pad4 n @ s) = Some (n, s)"
  by (simp add: pad2_def pad4_def pad6_def parse_padk_append)

lemma parse_pad6: "0 \<le> n \<Longrightarrow> n < 1000000 \<Longrightarrow> parse_digits 6 0 (pad6 n @ s) = Some (n, s)"
  by (simp add: pad2_def pad4_def pad6_def parse_padk_append)

lemma length_padk [simp]: "length (padk k n) = k"
  by (induction k arbitrary: n) simp_all

lemma padk_digits: "\<forall>c\<in>set (padk k n). py_is_digit c"
  by (induction k arbitrary: n) simp_all

lemma pad_lengths [simp]: "length (pad2 n) = 2" "length (pad4 n) = 4" "length (pad6 n) = 6"
  by (simp_all add: pad2_def pad4_def pad6_def)

lemma pad_nonempty [simp]: "pad2 n \<noteq> []" "pad4 n \<noteq> []" "pad6 n \<noteq> []"
  using pad_lengths [of n] by (metis list.size(3) zero_neq_numeral)+

lemma pad_digits [simp]:
  "\<forall>c\<in>set (pad2 n). py_is_digit c" "\<forall>c\<in>set (pad4 n). py_is_digit c"
  "\<forall>c\<in>set (pad6 n). py_is_digit c"
  unfolding pad2_def pad4_def pad6_def by (rule padk_digits)+

lemma pad2_eq: "pad2 n = [dg (n div 10), dg n]"
  by (simp add: pad2_def numeral_2_eq_2)

lemma take1_pad2 [simp]:
  "take (Suc 0) (pad2 n) = [dg (n div 10)]" "take (Suc 0) (pad2 n @ s) = [dg (n div 10)]"
  by (simp_all add: pad2_eq)

lemma parse_iso_date_iso:
  assumes "ord2ymd d = (y, m, dd)" "1 \<le> d" "d \<le> max_ordinal"
  shows "parse_iso_date (date_iso d) = Some (y, m, dd)"
proof -
  from assms have y: "1 \<le> y" "y \<le> 9999" using ord2ymd_year_range by blast+
  from assms(1) have v: "ymd_valid y m dd" by (rule ord2ymd_valid)
  then have m: "1 \<le> m" "m \<le> 12" "1 \<le> dd" "dd \<le> 31"
    using days_in_month_bounds [of m y] by (auto simp: ymd_valid_def)
  have e: "date_iso d = pad4 y @ (''-'' @ pad2 m @ ''-'' @ pad2 dd)"
    using assms(1) by (simp add: date_iso_def)
  have p4: "parse_digits 4 0 (date_iso d) = Some (y, ''-'' @ pad2 m @ ''-'' @ pad2 dd)"
    unfolding e using y by (intro parse_pad4) auto
  have p2: "parse_digits 2 0 (pad2 m @ ''-'' @ pad2 dd) = Some (m, ''-'' @ pad2 dd)"
    using m by (intro parse_pad2) auto
  have p2': "parse_digits 2 0 (pad2 dd) = Some (dd, [])"
    using m parse_pad2 [of dd "[]"] by simp
  show ?thesis
    using p2 p2' by (simp add: parse_iso_date_def p4 Let_def)
qed

lemma date_iso_length [simp]: "length (date_iso d) = 10"
  by (simp add: date_iso_def split: prod.split)

lemma mk_date_ord2ymd:
  assumes "ord2ymd d = (y, m, dd)" "1 \<le> d" "d \<le> max_ordinal"
  shows "mk_date y m dd = Inr d"
proof -
  from assms have "1 \<le> y" "y \<le> 9999" using ord2ymd_year_range by blast+
  with ord2ymd_correct [OF assms(1)] show ?thesis by (simp add: mk_date_def ymd_valid_def)
qed

text \<open>\<open>date.fromisoformat\<close> reads back what \<open>date.isoformat\<close> prints.\<close>

lemma date_fromisoformat_iso [simp]:
  assumes "1 \<le> d" "d \<le> max_ordinal"
  shows "date_fromisoformat (date_iso d) = Inr d"
proof -
  obtain y m dd where e: "ord2ymd d = (y, m, dd)" by (cases "ord2ymd d") auto
  show ?thesis
    using parse_iso_date_iso [OF e assms] mk_date_ord2ymd [OF e assms]
    by (simp add: date_fromisoformat_def)
qed

text \<open>The clock part of a date-time.\<close>

lemma parse_fraction_pad6:
  assumes "0 \<le> f" "f < 1000000"
  shows "parse_fraction (pad6 f) = Some (f, True)"
  using parse_pad6 [OF assms, of "[]"] by (simp add: parse_fraction_def)

lemma parse_hms_end:
  assumes "0 \<le> v" "v < 100"
  shows "parse_hms (Suc k) i sep vals (pad2 v) = Some (vals @ [v], 0, True)"
  using parse_pad2 [OF assms, of "[]"] by simp

lemma parse_hms_colon:
  assumes "0 \<le> v" "v < 100" "r \<noteq> []" "i = 0 \<or> sep"
  shows "parse_hms (Suc k) i sep vals (pad2 v @ '':'' @ r) = parse_hms k (Suc i) True (vals @ [v]) r"
  using parse_pad2 [OF assms(1,2), of "'':'' @ r"] assms(3,4)
  by (cases r) (auto simp: Let_def)

lemma parse_hms_dot:
  assumes "0 \<le> v" "v < 100" "0 \<le> f" "f < 1000000"
  shows "parse_hms (Suc k) i sep vals (pad2 v @ ''.'' @ pad6 f) = Some (vals @ [v], f, True)"
  using parse_pad2 [OF assms(1,2), of "''.'' @ pad6 f"] parse_fraction_pad6 [OF assms(3,4)]
  by (cases "pad6 f") (auto simp: Let_def)

definition frac_text :: "int \<Rightarrow> string" where
  "frac_text f = (if f = 0 then [] else ''.'' @ pad6 f)"

lemma parse_hms_second:
  assumes "0 \<le> v" "v < 100" "0 \<le> f" "f < 1000000"
  shows "parse_hms (Suc k) i sep vals (pad2 v @ frac_text f) = Some (vals @ [v], f, True)"
  using parse_hms_end [OF assms(1,2)] parse_hms_dot [OF assms] by (simp add: frac_text_def)

lemma parse_hms_clock:
  assumes "0 \<le> h" "h < 100" "0 \<le> m" "m < 100" "0 \<le> s" "s < 100" "0 \<le> f" "f < 1000000"
  shows "parse_hms 3 0 True [] (pad2 h @ '':'' @ pad2 m @ '':'' @ pad2 s @ frac_text f)
    = Some ([h, m, s], f, True)"
proof -
  have "parse_hms 3 0 True [] (pad2 h @ '':'' @ pad2 m @ '':'' @ pad2 s @ frac_text f)
      = parse_hms 2 1 True [h] (pad2 m @ '':'' @ pad2 s @ frac_text f)"
    unfolding numeral_3_eq_3 using assms by (subst parse_hms_colon) (simp_all add: numeral_2_eq_2)
  also have "\<dots> = parse_hms 1 2 True [h, m] (pad2 s @ frac_text f)"
    unfolding numeral_2_eq_2 using assms by (subst parse_hms_colon) simp_all
  also have "\<dots> = Some ([h, m, s], f, True)"
    unfolding One_nat_def using assms by (subst parse_hms_second) simp_all
  finally show ?thesis .
qed

lemma parse_hms_hm:
  assumes "0 \<le> h" "h < 100" "0 \<le> m" "m < 100"
  shows "parse_hms 3 0 True [] (pad2 h @ '':'' @ pad2 m) = Some ([h, m], 0, True)"
proof -
  have "parse_hms 3 0 True [] (pad2 h @ '':'' @ pad2 m) = parse_hms 2 1 True [h] (pad2 m)"
    unfolding numeral_3_eq_3 using assms by (subst parse_hms_colon) (simp_all add: numeral_2_eq_2)
  also have "\<dots> = Some ([h, m], 0, True)"
    unfolding numeral_2_eq_2 using assms by (subst parse_hms_end) simp_all
  finally show ?thesis .
qed

lemma clock_split:
  assumes "0 \<le> us" "us < us_day"
  defines "s \<equiv> us div us_second"
  shows "0 \<le> s div 3600" "s div 3600 < 24" "0 \<le> s div 60 mod 60" "s div 60 mod 60 < 60"
    "0 \<le> s mod 60" "s mod 60 < 60" "0 \<le> us mod us_second" "us mod us_second < 1000000"
    "((s div 3600 * 60 + s div 60 mod 60) * 60 + s mod 60) * us_second + us mod us_second = us"
proof -
  have s: "0 \<le> s" "s < 86400" using assms by (auto simp: s_def us_day_def us_second_def)
  have h: "s div 3600 = s div 60 div 60" using zdiv_zmult2_eq [of 60 s 60] by simp
  show "0 \<le> s div 3600" "s div 3600 < 24" "0 \<le> s div 60 mod 60" "s div 60 mod 60 < 60"
    "0 \<le> s mod 60" "s mod 60 < 60" "0 \<le> us mod us_second" "us mod us_second < 1000000"
    using s by (simp_all add: us_second_def)
  have "(s div 60 div 60 * 60 + s div 60 mod 60) * 60 + s mod 60 = s"
    by (simp only: div_mult_mod_eq)
  then show "((s div 3600 * 60 + s div 60 mod 60) * 60 + s mod 60) * us_second + us mod us_second = us"
    unfolding h by (simp only: s_def div_mult_mod_eq)
qed

lemma time_iso_clock:
  "time_iso us = (let s = us div us_second in
     pad2 (s div 3600) @ '':'' @ pad2 (s div 60 mod 60) @ '':'' @ pad2 (s mod 60)
     @ frac_text (us mod us_second))"
  by (simp add: time_iso_def frac_text_def Let_def)

lemma tcomp_three [simp]:
  "tcomp [h, m, s] 0 = h" "tcomp [h, m, s] (Suc 0) = m" "tcomp [h, m, s] 2 = s"
  "tcomp [h, m] 0 = h" "tcomp [h, m] (Suc 0) = m" "tcomp [h, m] 2 = 0"
  by (simp_all add: tcomp_def)

lemma hms_us_three [simp]:
  "hms_us [h, m, s] f = ((h * 60 + m) * 60 + s) * us_second + f"
  "hms_us [h, m] f = (h * 60 + m) * 60 * us_second + f"
  by (simp_all add: hms_us_def)

lemma parse_time_iso:
  assumes "0 \<le> us" "us < us_day"
  obtains vals f where "parse_hms 3 0 True [] (time_iso us) = Some (vals, f, True)"
    "hms_us vals f = us" "tcomp vals 0 \<le> 23" "tcomp vals 1 \<le> 59" "tcomp vals 2 \<le> 59"
proof -
  define h m s f where "h = us div us_second div 3600" and "m = us div us_second div 60 mod 60"
    and "s = us div us_second mod 60" and "f = us mod us_second"
  note c = clock_split [OF assms, folded h_def m_def s_def f_def]
  have "parse_hms 3 0 True [] (time_iso us) = Some ([h, m, s], f, True)"
    unfolding time_iso_clock Let_def h_def [symmetric] m_def [symmetric] s_def [symmetric]
      f_def [symmetric]
    using c by (intro parse_hms_clock) linarith+
  then show ?thesis using c by (intro that [of "[h, m, s]" f]) simp_all
qed

lemma digit_not_tz: "py_is_digit c \<Longrightarrow> \<not> is_tz_char c"
  using py_is_digit_neq [of c] by (auto simp: is_tz_char_def)

lemma pad_no_tz: "list_all (\<lambda>c. \<not> is_tz_char c) (pad2 n)" "list_all (\<lambda>c. \<not> is_tz_char c) (pad6 n)"
  unfolding list_all_iff using pad_digits digit_not_tz by blast+

lemma time_iso_no_tz: "list_all (\<lambda>c. \<not> is_tz_char c) (time_iso us)"
  by (simp add: time_iso_def Let_def pad_no_tz) (simp add: is_tz_char_def)

text \<open>The UTC offset.\<close>

lemma hms_us_split:
  assumes "((h * 60 + m) * 60 + s) * us_second + f = (a::int)" "s = 0" "f = 0"
  shows "hms_us [h, m] 0 = a"
  using assms by simp

lemma parse_off_iso:
  assumes "- us_day < z" "z < us_day"
  obtains vals f where
    "off_iso (Some z) = (if z < 0 then CHR ''-'' else CHR ''+'')
       # drop 1 (off_iso (Some z))"
    "parse_hms 3 0 True [] (drop 1 (off_iso (Some z))) = Some (vals, f, True)"
    "hms_us vals f = \<bar>z\<bar>"
proof -
  define a where "a = \<bar>z\<bar>"
  define h m s f where "h = a div us_second div 3600" and "m = a div us_second div 60 mod 60"
    and "s = a div us_second mod 60" and "f = a mod us_second"
  have a: "0 \<le> a" "a < us_day" using assms by (auto simp: a_def)
  note c = clock_split [OF a, folded h_def m_def s_def f_def]
  let ?body = "pad2 h @ '':'' @ pad2 m @ (if s = 0 \<and> f = 0 then [] else '':'' @ pad2 s)
    @ (if f = 0 then [] else ''.'' @ pad6 f)"
  have e: "off_iso (Some z) = (if z < 0 then ''-'' else ''+'') @ ?body"
    by (simp add: off_iso_def Let_def h_def m_def s_def f_def a_def)
  have head: "off_iso (Some z) = (if z < 0 then CHR ''-'' else CHR ''+'') # drop 1 (off_iso (Some z))"
    and body: "drop 1 (off_iso (Some z)) = ?body"
    unfolding e by simp_all
  show ?thesis
  proof (cases "s = 0 \<and> f = 0")
    case True
    then have "parse_hms 3 0 True [] (drop 1 (off_iso (Some z))) = Some ([h, m], 0, True)"
      unfolding body using parse_hms_hm [of h m] c by simp
    with head True c(9) show ?thesis
      by (intro that [of "[h, m]" 0] hms_us_split) (simp_all add: a_def)
  next
    case False
    then have "?body = pad2 h @ '':'' @ pad2 m @ '':'' @ pad2 s @ frac_text f"
      by (simp add: frac_text_def)
    then have "parse_hms 3 0 True [] (drop 1 (off_iso (Some z))) = Some ([h, m, s], f, True)"
      unfolding body using parse_hms_clock [of h m s f] c by simp
    with head c(9) show ?thesis
      by (intro that [of "[h, m, s]" f]) (simp_all add: a_def)
  qed
qed

lemma split_at_tz:
  assumes "list_all (\<lambda>c. \<not> is_tz_char c) t"
  shows "takeWhile (\<lambda>c. \<not> is_tz_char c) t = t" "dropWhile (\<lambda>c. \<not> is_tz_char c) t = []"
    "is_tz_char zc \<Longrightarrow> takeWhile (\<lambda>c. \<not> is_tz_char c) (t @ zc # zs) = t"
    "is_tz_char zc \<Longrightarrow> dropWhile (\<lambda>c. \<not> is_tz_char c) (t @ zc # zs) = zc # zs"
  using assms by (induction t) auto

lemma parse_iso_time_iso:
  assumes "0 \<le> us" "us < us_day" "case z of None \<Rightarrow> True | Some off \<Rightarrow> - us_day < off \<and> off < us_day"
  obtains vals f where "parse_iso_time (time_iso us @ off_iso z) = Some (vals, f, z)"
    "hms_us vals f = us" "tcomp vals 0 \<le> 23" "tcomp vals 1 \<le> 59" "tcomp vals 2 \<le> 59"
proof -
  obtain vals f where t: "parse_hms 3 0 True [] (time_iso us) = Some (vals, f, True)"
    "hms_us vals f = us" "tcomp vals 0 \<le> 23" "tcomp vals 1 \<le> 59" "tcomp vals 2 \<le> 59"
    using parse_time_iso [OF assms(1,2)] .
  note tz = split_at_tz [OF time_iso_no_tz [of us]]
  have "parse_iso_time (time_iso us @ off_iso z) = Some (vals, f, z)"
  proof (cases z)
    case None
    then show ?thesis using t(1) by (simp add: parse_iso_time_def off_iso_def tz Let_def)
  next
    case (Some off)
    with assms(3) have "- us_day < off" "off < us_day" by simp_all
    then obtain zv zf where o: "off_iso (Some off) = (if off < 0 then CHR ''-'' else CHR ''+'')
          # drop 1 (off_iso (Some off))"
        "parse_hms 3 0 True [] (drop 1 (off_iso (Some off))) = Some (zv, zf, True)"
        "hms_us zv zf = \<bar>off\<bar>"
      by (rule parse_off_iso)
    define zc zs where "zc = (if off < 0 then CHR ''-'' else CHR ''+'')"
      and "zs = drop 1 (off_iso (Some off))"
    have z: "off_iso z = zc # zs" using o(1) Some by (simp add: zc_def zs_def)
    have zc: "is_tz_char zc" "zc \<noteq> CHR ''Z''" by (simp_all add: zc_def is_tz_char_def)
    have "(if zc = CHR ''-'' then -1 else 1) * hms_us zv zf = off"
      using o(3) by (simp add: zc_def)
    with o(2) [folded zs_def] zc t(1) Some show ?thesis
      unfolding z by (auto simp: parse_iso_time_def tz Let_def)
  qed
  with t show ?thesis by (intro that)
qed

lemma date_iso_at4: "date_iso d ! 4 = CHR ''-''" "date_iso d ! 5 \<noteq> CHR ''W''"
proof -
  obtain y m dd where e: "ord2ymd d = (y, m, dd)" by (cases "ord2ymd d") auto
  show "date_iso d ! 4 = CHR ''-''" "date_iso d ! 5 \<noteq> CHR ''W''"
    by (simp_all add: date_iso_def e nth_append pad2_eq)
qed

lemma iso_separator_iso:
  assumes "length t \<noteq> 0"
  shows "iso_separator (date_iso d @ t) = Some 10"
  using assms by (simp add: iso_separator_def nth_append date_iso_at4)

lemma time_iso_nonempty [simp]: "time_iso us \<noteq> []"
  by (simp add: time_iso_def Let_def)

text \<open>\<open>datetime.fromisoformat\<close> reads back what \<open>datetime.isoformat\<close> prints.\<close>

lemma datetime_fromisoformat_iso [simp]:
  assumes v: "dt_valid d"
  shows "datetime_fromisoformat (dt_iso sep d) = Inr d"
proof -
  obtain y m dd where e: "ord2ymd (dt_day d) = (y, m, dd)" by (cases "ord2ymd (dt_day d)") auto
  from v have day: "1 \<le> dt_day d" "dt_day d \<le> max_ordinal" and us: "0 \<le> dt_us d" "dt_us d < us_day"
    and off: "case dt_off d of None \<Rightarrow> True | Some off \<Rightarrow> - us_day < off \<and> off < us_day"
    by (simp_all add: dt_valid_def)
  obtain vals f where t: "parse_iso_time (time_iso (dt_us d) @ off_iso (dt_off d)) = Some (vals, f, dt_off d)"
    "hms_us vals f = dt_us d" "tcomp vals 0 \<le> 23" "tcomp vals 1 \<le> 59" "tcomp vals 2 \<le> 59"
    using parse_iso_time_iso [OF us off] .
  have "iso_separator (dt_iso sep d) = Some 10"
    unfolding dt_iso_def by (rule iso_separator_iso) simp
  moreover have "take 10 (dt_iso sep d) = date_iso (dt_day d)"
    "drop (Suc 10) (dt_iso sep d) = time_iso (dt_us d) @ off_iso (dt_off d)"
    by (simp_all add: dt_iso_def)
  moreover have "10 < length (dt_iso sep d)" by (simp add: dt_iso_def)
  moreover have "mk_datetime (y, m, dd) vals f (dt_off d) = Inr d"
    using mk_date_ord2ymd [OF e day] t off by (simp add: mk_datetime_def)
  ultimately show ?thesis
    using parse_iso_date_iso [OF e day] t(1) by (simp add: datetime_fromisoformat_def Let_def)
qed

section \<open>UTC instants as text\<close>

text \<open>
  \<open>utc_text t\<close> is \<open>value.astimezone(UTC).isoformat()\<close> of an aware date-time at the instant
  \<open>t\<close>; \<open>parse_utc_text\<close> is \<open>datetime.fromisoformat(text.replace(''Z'', ''+00:00''))\<close>.
\<close>

definition utc_text :: "instant \<Rightarrow> string" where
  "utc_text t = dt_iso (CHR ''T'') (of_instant t)"

definition parse_utc_text :: "string \<Rightarrow> pydt res" where
  "parse_utc_text s = datetime_fromisoformat (py_replace_char (CHR ''Z'') ''+00:00'' s)"

lemma of_instant_valid: "instant_valid t \<Longrightarrow> dt_valid (of_instant t)"
proof -
  assume v: "instant_valid t"
  have "1 \<le> t div us_day" "t div us_day \<le> max_ordinal"
    using v by (auto simp: instant_valid_def us_day_def max_ordinal_def)
  then show ?thesis by (simp add: dt_valid_def of_instant_def us_day_def)
qed

lemma dt_instant_of_instant [simp]: "dt_instant (of_instant t) = t"
  by (simp add: dt_instant_def dt_local_def of_instant_def)

lemma dt_aware_of_instant [simp]: "dt_aware (of_instant t)"
  by (simp add: dt_aware_def of_instant_def)

lemma py_replace_absent: "c \<notin> set s \<Longrightarrow> py_replace_char c r s = s"
  by (induction s) (auto simp: py_replace_char_def)

lemma digits_no_Z: "list_all py_is_digit s \<Longrightarrow> CHR ''Z'' \<notin> set s"
  by (induction s) (auto simp: py_is_digit_def)

lemma utc_text_no_Z: "CHR ''Z'' \<notin> set (utc_text t)"
proof -
  have p: "CHR ''Z'' \<notin> set (pad2 n)" "CHR ''Z'' \<notin> set (pad4 n)" "CHR ''Z'' \<notin> set (pad6 n)" for n
    using pad_digits [of n] by (intro digits_no_Z; simp add: list_all_iff)+
  show ?thesis
    by (simp add: utc_text_def dt_iso_def date_iso_def time_iso_def off_iso_def of_instant_def
        Let_def p split: prod.split)
qed

lemma utc_text_nonempty [simp]: "utc_text t \<noteq> []"
  by (simp add: utc_text_def dt_iso_def)

lemma parse_utc_text_utc_text [simp]:
  "instant_valid t \<Longrightarrow> parse_utc_text (utc_text t) = Inr (of_instant t)"
  unfolding parse_utc_text_def py_replace_absent [OF utc_text_no_Z]
  by (simp add: utc_text_def of_instant_valid)

section \<open>What a parsed text denotes is a valid date or date-time\<close>

lemma mk_date_Inr: "mk_date y m d = Inr n \<Longrightarrow> 1 \<le> n \<and> n \<le> max_ordinal"
  using ymd2ord_range [of y m d] by (auto simp: mk_date_def ymd_valid_def split: if_splits)

lemma date_fromisoformat_range: "date_fromisoformat s = Inr n \<Longrightarrow> 1 \<le> n \<and> n \<le> max_ordinal"
  by (auto simp: date_fromisoformat_def dest: mk_date_Inr split: if_splits option.splits)

lemma parse_digits_range:
  "parse_digits n acc s = Some (v, r) \<Longrightarrow> 0 \<le> acc \<Longrightarrow> 0 \<le> v \<and> v < (acc + 1) * 10 ^ n"
proof (induction n acc s rule: parse_digits.induct)
  case (2 n acc c s)
  then have d: "py_is_digit c" "parse_digits n (10 * acc + int (digit_val c)) s = Some (v, r)"
    by (auto split: if_splits)
  then have c: "int (digit_val c) \<le> 9" by (auto simp: py_is_digit_def digit_val_def)
  have "0 \<le> v" "v < (10 * acc + int (digit_val c) + 1) * 10 ^ n"
    using "2.IH" [OF d] "2.prems"(2) by simp_all
  moreover have "(10 * acc + int (digit_val c) + 1) * 10 ^ n \<le> ((acc + 1) * 10) * (10::int) ^ n"
    using c by (intro mult_right_mono) simp_all
  ultimately have "0 \<le> v" "v < ((acc + 1) * 10) * 10 ^ n" by linarith+
  then show ?case by (simp only: power_Suc mult.assoc)
qed simp_all

lemma parse_fraction_range: "parse_fraction s = Some (f, ok) \<Longrightarrow> 0 \<le> f \<and> f < us_second"
proof -
  assume a: "parse_fraction s = Some (f, ok)"
  define n where "n = min 6 (length s)"
  from a obtain v r where v: "parse_digits n 0 s = Some (v, r)" "f = v * 10 ^ (6 - n)"
    by (auto simp: parse_fraction_def Let_def n_def split: option.splits)
  from parse_digits_range [OF v(1)] have "0 \<le> v" "v < 10 ^ n" by simp_all
  moreover have "(10::int) ^ n * 10 ^ (6 - n) = 10 ^ 6"
    by (simp add: power_add [symmetric] n_def)
  ultimately have "v * 10 ^ (6 - n) < (10::int) ^ 6"
    by (metis mult_strict_right_mono zero_less_numeral zero_less_power)
  with v \<open>0 \<le> v\<close> show ?thesis by (simp add: us_second_def)
qed

lemma parse_hms_range:
  "parse_hms k i sep vals s = Some (vs, f, ok) \<Longrightarrow> \<forall>v\<in>set vals. 0 \<le> v
    \<Longrightarrow> (\<forall>v\<in>set vs. 0 \<le> v) \<and> 0 \<le> f \<and> f < us_second"
proof (induction k arbitrary: i sep vals s)
  case 0
  then show ?case by (auto dest: parse_fraction_range)
next
  case (Suc k)
  then obtain v rest where d: "parse_digits 2 0 s = Some (v, rest)"
    by (auto split: option.splits)
  from parse_digits_range [OF d] have v: "0 \<le> v" by simp
  have sec: "0 < us_second" by (simp add: us_second_def)
  have "(vs = vals @ [v] \<and> f = 0) \<or> (vs = vals @ [v] \<and> (\<exists>t. parse_fraction t = Some (f, ok)))
      \<or> (\<exists>sep' t. parse_hms k (Suc i) sep' (vals @ [v]) t = Some (vs, f, ok))"
    using Suc.prems(1) by (auto simp: d Let_def split: list.splits if_split_asm)
  then show ?case
  proof (elim disjE exE conjE)
    fix sep' t assume "parse_hms k (Suc i) sep' (vals @ [v]) t = Some (vs, f, ok)"
    from Suc.IH [OF this] Suc.prems(2) v show ?thesis by simp
  qed (use Suc.prems(2) v sec in \<open>auto dest: parse_fraction_range\<close>)
qed

lemma tcomp_nonneg: "\<forall>v\<in>set vals. 0 \<le> v \<Longrightarrow> 0 \<le> tcomp vals i"
  by (simp add: tcomp_def)

lemma parse_iso_time_range:
  assumes "parse_iso_time s = Some (vals, f, z)"
  shows "(\<forall>v\<in>set vals. 0 \<le> v) \<and> 0 \<le> f \<and> f < us_second"
proof -
  obtain t where "parse_hms 3 0 True [] t = Some (vals, f, True) \<or> parse_hms 3 0 True [] t = Some (vals, f, False)"
    using assms by (auto simp: parse_iso_time_def Let_def split: option.splits list.splits if_splits bool.splits)
      (metis (full_types))+
  then show ?thesis using parse_hms_range by fastforce
qed

lemma mk_datetime_valid:
  assumes "mk_datetime date vals f z = Inr d" "\<forall>v\<in>set vals. 0 \<le> v" "0 \<le> f" "f < us_second"
  shows "dt_valid d"
proof -
  define h m s where "h = tcomp vals 0" and "m = tcomp vals 1" and "s = tcomp vals 2"
  have nonneg: "0 \<le> h" "0 \<le> m" "0 \<le> s"
    unfolding h_def m_def s_def using tcomp_nonneg [OF assms(2)] by blast+
  from assms(1) obtain y mo dd day where date: "date = (y, mo, dd)" "mk_date y mo dd = Inr day"
    and d: "d = \<lparr>dt_day = day, dt_us = hms_us vals f, dt_off = z\<rparr>"
    and ub: "h \<le> 23" "m \<le> 59" "s \<le> 59"
    and z: "case z of None \<Rightarrow> True | Some off \<Rightarrow> - us_day < off \<and> off < us_day"
    by (auto simp: mk_datetime_def h_def m_def s_def bind_res_eq_Inr split: prod.splits if_splits)
  have us: "hms_us vals f = ((h * 60 + m) * 60 + s) * us_second + f"
    by (simp add: hms_us_def h_def m_def s_def)
  have "0 \<le> hms_us vals f" "hms_us vals f < us_day"
    unfolding us using nonneg ub assms(3,4) by (simp_all add: us_second_def us_day_def)
  with mk_date_Inr [OF date(2)] z show ?thesis by (simp add: dt_valid_def d)
qed

lemma datetime_fromisoformat_valid:
  assumes "datetime_fromisoformat s = Inr d"
  shows "dt_valid d"
proof -
  have sec: "0 < us_second" by (simp add: us_second_def)
  from assms obtain date vals f z where "mk_datetime date vals f z = Inr d"
    "\<forall>v\<in>set vals. 0 \<le> v" "0 \<le> f" "f < us_second"
  proof (cases "iso_separator s")
    case (Some k)
    with assms that sec show ?thesis
      by (auto simp: datetime_fromisoformat_def Let_def dest!: parse_iso_time_range
          split: if_splits option.splits prod.splits)
  qed (auto simp: datetime_fromisoformat_def Let_def split: if_splits)
  then show ?thesis by (rule mk_datetime_valid)
qed

end
