(* ===== verification/Py_Value.thy ===== *)
theory Py_Value
  imports Py_Datetime
begin

text \<open>
  Dynamically typed values: what a YAML manifest or a JSON document holds once it is loaded.
  A float is represented by what the program observes of it: its integral part (none for
  infinities and NaN) and its \<open>repr\<close>. Mappings have string keys and keep their order.
  Then truth testing, \<open>str\<close>, \<open>repr\<close> and the canonical JSON text
  (\<open>json.dumps(value, ensure_ascii=False, sort_keys=True, separators=(',', ':'))\<close>).
\<close>

datatype pyval =
    PNone
  | PBool bool
  | PInt int
  | PFloat "int option" string
  | PStr string
  | PList "pyval list"
  | PDict "(string \<times> pyval) list"

section \<open>Truth, str and repr\<close>

fun py_truthy :: "pyval \<Rightarrow> bool" where
  "py_truthy PNone = False"
| "py_truthy (PBool b) = b"
| "py_truthy (PInt i) = (i \<noteq> 0)"
| "py_truthy (PFloat t r) = (r \<noteq> ''0.0'' \<and> r \<noteq> ''-0.0'')"
| "py_truthy (PStr s) = (s \<noteq> [])"
| "py_truthy (PList xs) = (xs \<noteq> [])"
| "py_truthy (PDict d) = (d \<noteq> [])"

definition hex_digit :: "nat \<Rightarrow> char" where
  "hex_digit n = (if n < 10 then char_of (48 + n) else char_of (87 + n))"

definition sq :: char where "sq = char_of (39::nat)"
definition dq :: char where "dq = char_of (34::nat)"
definition bs :: char where "bs = char_of (92::nat)"

definition py_is_printable :: "char \<Rightarrow> bool" where
  "py_is_printable c = (let n = code_of c in (32 \<le> n \<and> n \<le> 126) \<or> (161 \<le> n \<and> n \<noteq> 173))"

definition repr_char :: "char \<Rightarrow> char \<Rightarrow> string" where
  "repr_char q c =
     (if c = q \<or> c = bs then [bs, c]
      else if code_of c = 10 then [bs, CHR ''n'']
      else if code_of c = 13 then [bs, CHR ''r'']
      else if code_of c = 9 then [bs, CHR ''t'']
      else if py_is_printable c then [c]
      else [bs, CHR ''x'', hex_digit (code_of c div 16), hex_digit (code_of c mod 16)])"

definition py_repr_str :: "string \<Rightarrow> string" where
  "py_repr_str s =
     (let q = (if sq \<in> set s \<and> dq \<notin> set s then dq else sq)
      in [q] @ concat (map (repr_char q) s) @ [q])"

fun py_repr :: "pyval \<Rightarrow> string" where
  "py_repr PNone = ''None''"
| "py_repr (PBool b) = (if b then ''True'' else ''False'')"
| "py_repr (PInt i) = py_str_int i"
| "py_repr (PFloat t r) = r"
| "py_repr (PStr s) = py_repr_str s"
| "py_repr (PList xs) = ''['' @ py_join '', '' (map py_repr xs) @ '']''"
| "py_repr (PDict d) =
     ''{'' @ py_join '', '' (map (\<lambda>kv. py_repr_str (fst kv) @ '': '' @ py_repr (snd kv)) d) @ ''}''"

definition py_str :: "pyval \<Rightarrow> string" where
  "py_str v = (case v of PStr s \<Rightarrow> s | _ \<Rightarrow> py_repr v)"

text \<open>\<open>int(value)\<close>.\<close>

definition py_to_int :: "pyval \<Rightarrow> int res" where
  "py_to_int v =
     (case v of
        PInt i \<Rightarrow> Inr i
      | PBool b \<Rightarrow> Inr (if b then 1 else 0)
      | PFloat (Some t) r \<Rightarrow> Inr t
      | PFloat None r \<Rightarrow> (if r = ''nan'' then Inl (ValueError ''cannot convert float NaN to integer'')
                         else Inl (OverflowError ''cannot convert float infinity to integer''))
      | PStr s \<Rightarrow> (case py_int s of Some i \<Rightarrow> Inr i
                  | None \<Rightarrow> Inl (ValueError ''invalid literal for int() with base 10''))
      | _ \<Rightarrow> Inl (TypeError ''int() argument must be a string or a real number''))"

section \<open>Mappings\<close>

text \<open>\<open>d.get(k)\<close>, and \<open>d.get(k) or default\<close>.\<close>

definition py_get :: "(string \<times> pyval) list \<Rightarrow> string \<Rightarrow> pyval" where
  "py_get d k = (case dict_get d k of None \<Rightarrow> PNone | Some v \<Rightarrow> v)"

definition py_has :: "(string \<times> pyval) list \<Rightarrow> string \<Rightarrow> bool" where
  "py_has d k = (k \<in> fst ` set d)"

definition py_or :: "pyval \<Rightarrow> pyval \<Rightarrow> pyval" where
  "py_or v w = (if py_truthy v then v else w)"

definition is_str :: "pyval \<Rightarrow> bool" where
  "is_str v = (case v of PStr _ \<Rightarrow> True | _ \<Rightarrow> False)"

definition is_mapping :: "pyval \<Rightarrow> bool" where
  "is_mapping v = (case v of PDict _ \<Rightarrow> True | _ \<Rightarrow> False)"

text \<open>\<open>type(value) is int\<close>: a boolean is not one.\<close>

definition is_int :: "pyval \<Rightarrow> bool" where
  "is_int v = (case v of PInt _ \<Rightarrow> True | _ \<Rightarrow> False)"

lemma py_get_absent: "\<not> py_has d k \<Longrightarrow> py_get d k = PNone"
  by (simp add: py_get_def py_has_def) (metis (no_types, lifting) map_of_eq_None_iff option.simps(4))

lemma py_get_Cons [simp]: "py_get ((k, v) # d) k' = (if k' = k then v else py_get d k')"
  by (simp add: py_get_def)

lemma py_has_Cons [simp]: "py_has ((k, v) # d) k' = (k' = k \<or> py_has d k')"
  by (auto simp: py_has_def)

lemma py_get_Nil [simp]: "py_get [] k = PNone" and py_has_Nil [simp]: "\<not> py_has [] k"
  by (simp_all add: py_get_def py_has_def)

section \<open>Canonical JSON\<close>

definition json_char :: "char \<Rightarrow> string" where
  "json_char c =
     (if c = dq \<or> c = bs then [bs, c]
      else if code_of c = 10 then [bs, CHR ''n'']
      else if code_of c = 13 then [bs, CHR ''r'']
      else if code_of c = 9 then [bs, CHR ''t'']
      else if code_of c = 8 then [bs, CHR ''b'']
      else if code_of c = 12 then [bs, CHR ''f'']
      else if code_of c < 32
        then [bs] @ ''u00'' @ [hex_digit (code_of c div 16), hex_digit (code_of c mod 16)]
      else [c])"

definition json_string :: "string \<Rightarrow> string" where
  "json_string s = [dq] @ concat (map json_char s) @ [dq]"

text \<open>
  Non-finite floats print as \<open>NaN\<close> and \<open>Infinity\<close>; they do not occur in the documents
  modelled here and keep their \<open>repr\<close>.
\<close>

fun json_canonical :: "pyval \<Rightarrow> string" where
  "json_canonical PNone = ''null''"
| "json_canonical (PBool b) = (if b then ''true'' else ''false'')"
| "json_canonical (PInt i) = py_str_int i"
| "json_canonical (PFloat t r) = r"
| "json_canonical (PStr s) = json_string s"
| "json_canonical (PList xs) = ''['' @ py_join '','' (map json_canonical xs) @ '']''"
| "json_canonical (PDict d) =
     ''{'' @ py_join '','' (map (\<lambda>(k, v). json_string k @ '':'' @ v)
        (sort_key fst (map (\<lambda>kv. (fst kv, json_canonical (snd kv))) d))) @ ''}''"

section \<open>Iteration\<close>

definition py_iter :: "pyval \<Rightarrow> pyval list res" where
  "py_iter v =
     (case v of
        PList xs \<Rightarrow> Inr xs
      | PDict d \<Rightarrow> Inr (map (\<lambda>kv. PStr (fst kv)) d)
      | PStr s \<Rightarrow> Inr (map (\<lambda>c. PStr [c]) s)
      | _ \<Rightarrow> Inl (TypeError ''object is not iterable''))"

text \<open>\<open>d.get(k, default)\<close>, and \<open>[item for item in v if isinstance(item, str)]\<close>.\<close>

definition py_get_default :: "(string \<times> pyval) list \<Rightarrow> string \<Rightarrow> pyval \<Rightarrow> pyval" where
  "py_get_default d k dflt = (case dict_get d k of None \<Rightarrow> dflt | Some v \<Rightarrow> v)"

fun only_strings :: "pyval list \<Rightarrow> string list" where
  "only_strings [] = []"
| "only_strings (PStr s # vs) = s # only_strings vs"
| "only_strings (_ # vs) = only_strings vs"

lemma only_strings_map [simp]: "only_strings (map PStr ss) = ss"
  by (induction ss) simp_all

lemma py_get_default_Cons [simp]:
  "py_get_default ((k, v) # d) k' dflt = (if k' = k then v else py_get_default d k' dflt)"
  by (simp add: py_get_default_def)

text \<open>\<open>dict(value)\<close> of a value, with string keys.\<close>

definition dict_item :: "pyval \<Rightarrow> (string \<times> pyval) res" where
  "dict_item x =
     (case x of
        PList [PStr k, v] \<Rightarrow> Inr (k, v)
      | PStr [a, b] \<Rightarrow> Inr ([a], PStr [b])
      | _ \<Rightarrow> Inl (ValueError ''dictionary update sequence element''))"

definition py_dict :: "pyval \<Rightarrow> ((string \<times> pyval) list) res" where
  "py_dict v =
     (case v of
        PDict d \<Rightarrow> Inr d
      | _ \<Rightarrow> bind_res (py_iter v) (\<lambda>xs. bind_res (map_res dict_item xs) (\<lambda>kvs.
               Inr (foldl (\<lambda>d kv. dict_set d (fst kv) (snd kv)) [] kvs))))"

end
