(* ===== verification/Ps_Scope.thy ===== *)
theory Ps_Scope
  imports Py_Value
begin

text \<open>
  Portable relation scopes (\<open>src/dpone/contracts/portable_scope_literals.py\<close>,
  \<open>portable_scope_model.py\<close>, \<open>portable_scope_parser.py\<close>): typed literals, equality and
  range scopes with their validation on construction, the canonical JSON contract of a
  scope and the closed-object parser that reads it.

  A contract error is kept as its blocker code; the explanatory text after the code is not
  modelled. A decimal is its canonical text, a UUID its 128-bit number. The digest of the
  canonical text (SHA-256) is a parameter of the definitions that use it.
\<close>

section \<open>Literals\<close>

datatype literal_value =
    LInt int
  | LDec string
  | LText string
  | LBool bool
  | LDate pydate
  | LStamp pydt
  | LUuid int

record portable_literal =
  lit_kind :: string
  lit_value :: literal_value

definition range_literal_kinds :: "string list" where
  "range_literal_kinds = [''integer'', ''decimal'', ''date'', ''timestamp'', ''timestamptz'', ''uuid'']"

definition literal_kinds :: "string list" where
  "literal_kinds = range_literal_kinds @ [''text'', ''boolean'']"

definition blocked :: "string \<Rightarrow> 'a res" where
  "blocked blocker = Inl (AppError ''DPONE_PORTABLE_SCOPE_CONTRACT_BLOCKED'' blocker)"

text \<open>Decimal texts: the regular expression, the value, and the canonical form.\<close>

definition dec_unsigned :: "string \<Rightarrow> string" where
  "dec_unsigned s = (if take 1 s = ''-'' then drop 1 s else s)"

definition dec_int_digits :: "string \<Rightarrow> string" where
  "dec_int_digits s = takeWhile py_is_digit (dec_unsigned s)"

definition dec_tail :: "string \<Rightarrow> string" where
  "dec_tail s = dropWhile py_is_digit (dec_unsigned s)"

definition is_decimal_literal :: "string \<Rightarrow> bool" where
  "is_decimal_literal s =
     (let i = dec_int_digits s; t = dec_tail s in
      i \<noteq> [] \<and> (i = ''0'' \<or> hd i \<noteq> CHR ''0'')
      \<and> (t = [] \<or> (hd t = CHR ''.'' \<and> tl t \<noteq> [] \<and> list_all py_is_digit (tl t))))"

definition dec_coefficient :: "string \<Rightarrow> int" where
  "dec_coefficient s =
     (if take 1 s = ''-'' then -1 else 1) * int (digits_value (dec_int_digits s @ drop 1 (dec_tail s)))"

definition dec_scale :: "string \<Rightarrow> nat" where
  "dec_scale s = length (dec_tail s) - 1"

definition dec_less :: "string \<Rightarrow> string \<Rightarrow> bool" where
  "dec_less a b = (dec_coefficient a * 10 ^ dec_scale b < dec_coefficient b * 10 ^ dec_scale a)"

text \<open>
  \<open>value == _canonical_decimal_text(Decimal(value))\<close> for a text that matches the regular
  expression: no sign on zero, no trailing zero of the fraction, and at most 28 significant
  digits, the precision \<open>Decimal.normalize\<close> rounds to.
\<close>

definition dec_significant :: "string \<Rightarrow> nat" where
  "dec_significant s =
     (let ds = dec_int_digits s @ drop 1 (dec_tail s);
          lead = dropWhile (\<lambda>c. c = CHR ''0'') ds
      in length (dropWhile (\<lambda>c. c = CHR ''0'') (rev lead)))"

definition decimal_is_canonical :: "string \<Rightarrow> bool" where
  "decimal_is_canonical s =
     (if dec_coefficient s = 0 then s = ''0''
      else (dec_tail s = [] \<or> last s \<noteq> CHR ''0'') \<and> dec_significant s \<le> 28)"

text \<open>UUID texts: \<open>str(UUID(int=n))\<close> and \<open>UUID(text)\<close>.\<close>

fun hex_digits :: "nat \<Rightarrow> int \<Rightarrow> string" where
  "hex_digits 0 n = []"
| "hex_digits (Suc k) n = hex_digits k (n div 16) @ [hex_digit (nat (n mod 16))]"

definition uuid_str :: "int \<Rightarrow> string" where
  "uuid_str n =
     (let h = hex_digits 32 n in
      take 8 h @ ''-'' @ take 4 (drop 8 h) @ ''-'' @ take 4 (drop 12 h) @ ''-''
      @ take 4 (drop 16 h) @ ''-'' @ drop 20 h)"

definition hex_val :: "char \<Rightarrow> int option" where
  "hex_val c =
     (let n = code_of c in
      if 48 \<le> n \<and> n \<le> 57 then Some (int n - 48)
      else if 97 \<le> n \<and> n \<le> 102 then Some (int n - 87)
      else if 65 \<le> n \<and> n \<le> 70 then Some (int n - 55)
      else None)"

fun hex_body :: "string \<Rightarrow> int \<Rightarrow> bool \<Rightarrow> int option" where
  "hex_body [] acc p = (if p then Some acc else None)"
| "hex_body (c # cs) acc p =
     (case hex_val c of
        Some v \<Rightarrow> hex_body cs (16 * acc + v) True
      | None \<Rightarrow> if c = CHR ''_'' \<and> p then hex_body cs acc False else None)"

definition py_int16 :: "string \<Rightarrow> int option" where
  "py_int16 text =
     (let s = py_strip text;
          neg = (take 1 s = ''-'');
          u = (if neg \<or> take 1 s = ''+'' then drop 1 s else s);
          pre = (take 2 u = ''0x'' \<or> take 2 u = ''0X'');
          b = (if pre then drop 2 u else u);
          b' = (if pre \<and> take 1 b = ''_'' then drop 1 b else b)
      in map_option (\<lambda>n. if neg then - n else n) (hex_body b' 0 False))"

function py_remove :: "string \<Rightarrow> string \<Rightarrow> string" where
  "py_remove p [] = []"
| "py_remove p (c # s) =
     (if p \<noteq> [] \<and> take (length p) (c # s) = p then py_remove p (drop (length p) (c # s))
      else c # py_remove p s)"
  by pat_completeness auto
termination
  by (relation "measure (\<lambda>(p, s). length s)") auto

definition uuid_parse :: "string \<Rightarrow> int option" where
  "uuid_parse s =
     (let t = py_remove ''uuid:'' (py_remove ''urn:'' s);
          brace = (\<lambda>c. c = CHR ''{'' \<or> c = CHR ''}'');
          u = rev (dropWhile brace (rev (dropWhile brace t)));
          h = filter (\<lambda>c. c \<noteq> CHR ''-'') u
      in if length h \<noteq> 32 then None
         else (case py_int16 h of
                 None \<Rightarrow> None
               | Some n \<Rightarrow> if 0 \<le> n \<and> n < 2 ^ 128 then Some n else None))"

text \<open>Validation when a literal is built, and the literal's canonical value.\<close>

definition as_utc :: "pydt \<Rightarrow> pydt res" where
  "as_utc d = (if instant_valid (dt_instant d) then Inr (of_instant (dt_instant d))
     else blocked ''portable_scope.literal.timestamptz_range'')"

definition validate_text :: "string \<Rightarrow> unit res" where
  "validate_text s = (if char_of (0::nat) \<in> set s then blocked ''portable_scope.literal.text_encoding''
     else Inr ())"

definition mk_literal :: "string \<Rightarrow> literal_value \<Rightarrow> portable_literal res" where
  "mk_literal kind v =
     (let ok = Inr \<lparr>lit_kind = kind, lit_value = v\<rparr> in
      if kind = ''integer'' then
        (case v of LInt i \<Rightarrow> ok | _ \<Rightarrow> blocked ''portable_scope.literal.integer'')
      else if kind = ''decimal'' then
        (case v of LDec s \<Rightarrow> if decimal_is_canonical s then ok
                             else blocked ''portable_scope.literal.decimal_canonical''
         | _ \<Rightarrow> blocked ''portable_scope.literal.decimal'')
      else if kind = ''text'' then
        (case v of LText s \<Rightarrow> bind_res (validate_text s) (\<lambda>_. ok)
         | _ \<Rightarrow> blocked ''portable_scope.literal.text'')
      else if kind = ''boolean'' then
        (case v of LBool b \<Rightarrow> ok | _ \<Rightarrow> blocked ''portable_scope.literal.boolean'')
      else if kind = ''date'' then
        (case v of LDate d \<Rightarrow> ok | _ \<Rightarrow> blocked ''portable_scope.literal.date'')
      else if kind = ''uuid'' then
        (case v of LUuid n \<Rightarrow> ok | _ \<Rightarrow> blocked ''portable_scope.literal.uuid'')
      else if kind = ''timestamp'' then
        (case v of LStamp d \<Rightarrow> if dt_aware d then blocked ''portable_scope.literal.timestamp_timezone'' else ok
         | _ \<Rightarrow> blocked ''portable_scope.literal.timestamp'')
      else if kind = ''timestamptz'' then
        (case v of LStamp d \<Rightarrow>
             if dt_aware d
             then bind_res (as_utc d) (\<lambda>u. Inr \<lparr>lit_kind = kind, lit_value = LStamp u\<rparr>)
             else blocked ''portable_scope.literal.timestamptz_timezone''
         | _ \<Rightarrow> blocked ''portable_scope.literal.timestamptz'')
      else blocked ''portable_scope.literal.type'')"

definition rstrip_char :: "char \<Rightarrow> string \<Rightarrow> string" where
  "rstrip_char c s = rev (dropWhile (\<lambda>x. x = c) (rev s))"

text \<open>\<open>value.isoformat(timespec='microseconds')\<close> of a naive date-time.\<close>

definition naive_iso_us :: "pydt \<Rightarrow> string" where
  "naive_iso_us d =
     (let s = dt_us d div us_second in
      date_iso (dt_day d) @ ''T'' @ pad2 (s div 3600) @ '':'' @ pad2 (s div 60 mod 60) @ '':''
      @ pad2 (s mod 60) @ ''.'' @ pad6 (dt_us d mod us_second))"

definition canonical_literal_value :: "portable_literal \<Rightarrow> pyval" where
  "canonical_literal_value l =
     (case lit_value l of
        LInt i \<Rightarrow> PInt i
      | LDec s \<Rightarrow> PStr s
      | LText s \<Rightarrow> PStr s
      | LBool b \<Rightarrow> PBool b
      | LDate d \<Rightarrow> PStr (date_iso d)
      | LUuid n \<Rightarrow> PStr (uuid_str n)
      | LStamp d \<Rightarrow>
          (let body = rstrip_char (CHR ''.'') (rstrip_char (CHR ''0'') (naive_iso_us d)) in
           PStr (if lit_kind l = ''timestamptz'' then body @ ''Z'' else body)))"

definition literal_to_contract :: "portable_literal \<Rightarrow> pyval" where
  "literal_to_contract l = PDict [(''type'', PStr (lit_kind l)), (''value'', canonical_literal_value l)]"

section \<open>Parsing literals\<close>

definition parse_decimal :: "pyval \<Rightarrow> literal_value res" where
  "parse_decimal v =
     (case v of
        PStr s \<Rightarrow>
          if \<not> is_decimal_literal s then blocked ''portable_scope.literal.decimal''
          else if \<not> decimal_is_canonical s then blocked ''portable_scope.literal.decimal_canonical''
          else Inr (LDec s)
      | _ \<Rightarrow> blocked ''portable_scope.literal.decimal'')"

definition parse_uuid :: "pyval \<Rightarrow> literal_value res" where
  "parse_uuid v =
     (case v of
        PStr s \<Rightarrow>
          (case uuid_parse s of
             None \<Rightarrow> blocked ''portable_scope.literal.uuid''
           | Some n \<Rightarrow> if uuid_str n \<noteq> s then blocked ''portable_scope.literal.uuid_canonical''
                       else Inr (LUuid n))
      | _ \<Rightarrow> blocked ''portable_scope.literal.uuid'')"

definition parse_temporal :: "string \<Rightarrow> pyval \<Rightarrow> literal_value res" where
  "parse_temporal kind v =
     (let bad = blocked (''portable_scope.literal.'' @ kind) in
      case v of
        PStr s \<Rightarrow>
          if kind = ''date'' then
            (case date_fromisoformat s of
               Inl e \<Rightarrow> bad
             | Inr d \<Rightarrow> if date_iso d \<noteq> s then bad else Inr (LDate d))
          else
            (let normalized = (if s \<noteq> [] \<and> last s = CHR ''Z'' then butlast s @ ''+00:00'' else s) in
             case datetime_fromisoformat normalized of
               Inl e \<Rightarrow> bad
             | Inr d \<Rightarrow>
                 if kind = ''timestamp'' \<and> dt_aware d
                   then blocked ''portable_scope.literal.timestamp_timezone''
                 else if kind = ''timestamptz'' \<and> \<not> dt_aware d
                   then blocked ''portable_scope.literal.timestamptz_timezone''
                 else if kind = ''timestamptz'' then bind_res (as_utc d) (\<lambda>u. Inr (LStamp u))
                 else Inr (LStamp d))
      | _ \<Rightarrow> bad)"

definition require_mapping :: "pyval \<Rightarrow> string \<Rightarrow> ((string \<times> pyval) list) res" where
  "require_mapping v blocker = (case v of PDict d \<Rightarrow> Inr d | _ \<Rightarrow> blocked blocker)"

definition parse_portable_literal :: "pyval \<Rightarrow> portable_literal res" where
  "parse_portable_literal raw =
     bind_res (require_mapping raw ''portable_scope.literal'') (\<lambda>d.
       if \<not> list_all (\<lambda>k. k \<in> {''type'', ''value''}) (dict_keys d)
         then blocked ''portable_scope.literal.fields''
       else
         (case py_get d ''type'' of
            PStr kind \<Rightarrow>
              if kind \<notin> set literal_kinds then blocked ''portable_scope.literal.type''
              else if \<not> py_has d ''value'' then blocked ''portable_scope.literal.value''
              else
                (let v = py_get d ''value'' in
                 if kind = ''integer'' then
                   (case v of PInt i \<Rightarrow> mk_literal kind (LInt i)
                    | _ \<Rightarrow> blocked ''portable_scope.literal.integer'')
                 else if kind = ''decimal'' then bind_res (parse_decimal v) (mk_literal kind)
                 else if kind = ''text'' then
                   (case v of PStr s \<Rightarrow> bind_res (validate_text s) (\<lambda>_. mk_literal kind (LText s))
                    | _ \<Rightarrow> blocked ''portable_scope.literal.text'')
                 else if kind = ''boolean'' then
                   (case v of PBool b \<Rightarrow> mk_literal kind (LBool b)
                    | _ \<Rightarrow> blocked ''portable_scope.literal.boolean'')
                 else if kind = ''uuid'' then bind_res (parse_uuid v) (mk_literal kind)
                 else bind_res (parse_temporal kind v) (mk_literal kind))
          | _ \<Rightarrow> blocked ''portable_scope.literal.type''))"

section \<open>Scopes\<close>

record range_bound =
  rb_value :: portable_literal
  rb_inclusive :: bool

text \<open>A scope keeps the version it was given, which is a number equal to 1.\<close>

record range_scope =
  rs_column :: string
  rs_lower :: "range_bound option"
  rs_upper :: "range_bound option"
  rs_version :: pyval

record equality_scope =
  es_column :: string
  es_value :: portable_literal
  es_version :: pyval

datatype relation_scope = EqScope equality_scope | RangeScope range_scope

definition scope_version :: int where "scope_version = 1"
definition identifier_utf8_limit :: nat where "identifier_utf8_limit = 63"

text \<open>The UTF-8 length of a text whose code points are below 256.\<close>

definition utf8_length :: "string \<Rightarrow> nat" where
  "utf8_length s = sum_list (map (\<lambda>c. if code_of c < 128 then 1 else 2) s)"

definition validate_catalog_identifier :: "pyval \<Rightarrow> string res" where
  "validate_catalog_identifier raw =
     (case raw of
        PStr s \<Rightarrow>
          if s = [] then blocked ''portable_scope.column_empty''
          else if char_of (0::nat) \<in> set s then blocked ''portable_scope.column_nul''
          else if identifier_utf8_limit < utf8_length s then blocked ''portable_scope.column_length''
          else Inr s
      | _ \<Rightarrow> blocked ''portable_scope.column'')"

text \<open>\<open>version != 1\<close> compares numbers: the float \<open>1.0\<close> is equal to 1.\<close>

definition validate_scope_version :: "pyval \<Rightarrow> unit res" where
  "validate_scope_version v =
     (case v of
        PInt i \<Rightarrow> if i = scope_version then Inr () else blocked ''portable_scope.version''
      | PFloat t r \<Rightarrow> if r = ''1.0'' then Inr () else blocked ''portable_scope.version''
      | _ \<Rightarrow> blocked ''portable_scope.version'')"

definition lit_less :: "portable_literal \<Rightarrow> portable_literal \<Rightarrow> bool" where
  "lit_less a b =
     (case (lit_value a, lit_value b) of
        (LInt x, LInt y) \<Rightarrow> x < y
      | (LDec x, LDec y) \<Rightarrow> dec_less x y
      | (LDate x, LDate y) \<Rightarrow> x < y
      | (LStamp x, LStamp y) \<Rightarrow> dt_instant x < dt_instant y
      | (LUuid x, LUuid y) \<Rightarrow> x < y
      | _ \<Rightarrow> False)"

definition validate_range :: "range_bound option \<Rightarrow> range_bound option \<Rightarrow> unit res" where
  "validate_range lower upper =
     (let kinds = map (lit_kind \<circ> rb_value) (case (lower, upper) of
          (None, None) \<Rightarrow> [] | (Some l, None) \<Rightarrow> [l] | (None, Some u) \<Rightarrow> [u] | (Some l, Some u) \<Rightarrow> [l, u])
      in if kinds = [] then blocked ''portable_scope.range.bounds''
         else if length (remdups kinds) \<noteq> 1 then blocked ''portable_scope.range.type_mismatch''
         else if hd kinds \<notin> set range_literal_kinds then blocked ''portable_scope.range.literal_type''
         else (case (lower, upper) of
                 (Some l, Some u) \<Rightarrow>
                   if lit_less (rb_value u) (rb_value l) then blocked ''portable_scope.range.order''
                   else if \<not> lit_less (rb_value l) (rb_value u) \<and> \<not> (rb_inclusive l \<and> rb_inclusive u)
                     then blocked ''portable_scope.range.empty''
                   else Inr ()
               | _ \<Rightarrow> Inr ()))"

text \<open>The constructors check the column, the version and, for a range, its bounds.\<close>

definition mk_equality_scope :: "string \<Rightarrow> portable_literal \<Rightarrow> pyval \<Rightarrow> relation_scope res" where
  "mk_equality_scope column v version =
     bind_res (validate_catalog_identifier (PStr column)) (\<lambda>_.
     bind_res (validate_scope_version version) (\<lambda>_.
       Inr (EqScope \<lparr>es_column = column, es_value = v, es_version = version\<rparr>)))"

definition mk_versioned_range :: "string \<Rightarrow> range_bound option \<Rightarrow> range_bound option \<Rightarrow> pyval \<Rightarrow> range_scope res" where
  "mk_versioned_range column lower upper version =
     bind_res (validate_catalog_identifier (PStr column)) (\<lambda>_.
     bind_res (validate_scope_version version) (\<lambda>_.
     bind_res (validate_range lower upper) (\<lambda>_.
       Inr \<lparr>rs_column = column, rs_lower = lower, rs_upper = upper, rs_version = version\<rparr>)))"

definition mk_range_scope :: "string \<Rightarrow> range_bound option \<Rightarrow> range_bound option \<Rightarrow> range_scope res" where
  "mk_range_scope column lower upper = mk_versioned_range column lower upper (PInt scope_version)"

definition bound_to_contract :: "range_bound \<Rightarrow> pyval" where
  "bound_to_contract b =
     PDict [(''inclusive'', PBool (rb_inclusive b)), (''value'', literal_to_contract (rb_value b))]"

definition equality_to_contract :: "equality_scope \<Rightarrow> pyval" where
  "equality_to_contract e =
     PDict [(''column'', PStr (es_column e)), (''kind'', PStr ''equality''),
            (''value'', literal_to_contract (es_value e)), (''version'', es_version e)]"

definition range_to_contract :: "range_scope \<Rightarrow> pyval" where
  "range_to_contract r =
     PDict ([(''column'', PStr (rs_column r)), (''kind'', PStr ''range''), (''version'', rs_version r)]
       @ (case rs_lower r of None \<Rightarrow> [] | Some b \<Rightarrow> [(''lower'', bound_to_contract b)])
       @ (case rs_upper r of None \<Rightarrow> [] | Some b \<Rightarrow> [(''upper'', bound_to_contract b)]))"

definition portable_scope_contract :: "relation_scope \<Rightarrow> pyval" where
  "portable_scope_contract s = (case s of EqScope e \<Rightarrow> equality_to_contract e | RangeScope r \<Rightarrow> range_to_contract r)"

definition portable_scope_canonical_json :: "relation_scope \<Rightarrow> string" where
  "portable_scope_canonical_json s = json_canonical (portable_scope_contract s)"

section \<open>The closed-object parser\<close>

definition parse_bound :: "string \<Rightarrow> pyval \<Rightarrow> range_bound res" where
  "parse_bound label raw =
     (let pre = ''portable_scope.range.'' @ label in
      bind_res (require_mapping raw pre) (\<lambda>d.
        if \<not> list_all (\<lambda>k. k \<in> {''value'', ''inclusive''}) (dict_keys d) then blocked (pre @ ''.fields'')
        else if \<not> py_has d ''value'' then blocked (pre @ ''.value'')
        else (case (if py_has d ''inclusive'' then py_get d ''inclusive'' else PBool True) of
                PBool inc \<Rightarrow>
                  bind_res (parse_portable_literal (py_get d ''value'')) (\<lambda>l.
                    Inr \<lparr>rb_value = l, rb_inclusive = inc\<rparr>)
              | _ \<Rightarrow> blocked (pre @ ''.inclusive''))))"

definition parse_opt_bound :: "string \<Rightarrow> (string \<times> pyval) list \<Rightarrow> (range_bound option) res" where
  "parse_opt_bound label d =
     (if py_has d label then bind_res (parse_bound label (py_get d label)) (\<lambda>b. Inr (Some b))
      else Inr None)"

definition scope_fields :: "string list" where
  "scope_fields = [''version'', ''kind'', ''column'', ''value'', ''lower'', ''upper'']"

definition parse_portable_relation_scope :: "pyval \<Rightarrow> relation_scope res" where
  "parse_portable_relation_scope raw =
     bind_res (require_mapping raw ''portable_scope.object'') (\<lambda>d.
       if \<not> list_all (\<lambda>k. k \<in> set scope_fields) (dict_keys d) then blocked ''portable_scope.fields''
       else
         (let version = (if py_has d ''version'' then py_get d ''version'' else PInt scope_version) in
          bind_res (validate_scope_version version) (\<lambda>_.
          bind_res (validate_catalog_identifier (py_get d ''column'')) (\<lambda>column.
            if py_get d ''kind'' = PStr ''equality'' then
              (if py_has d ''lower'' \<or> py_has d ''upper'' then blocked ''portable_scope.equality.fields''
               else if \<not> py_has d ''value'' then blocked ''portable_scope.equality.value''
               else bind_res (parse_portable_literal (py_get d ''value'')) (\<lambda>l. mk_equality_scope column l version))
            else if py_get d ''kind'' = PStr ''range'' then
              (if py_has d ''value'' then blocked ''portable_scope.range.fields''
               else
                 bind_res (parse_opt_bound ''lower'' d) (\<lambda>lower.
                 bind_res (parse_opt_bound ''upper'' d) (\<lambda>upper.
                 bind_res (mk_versioned_range column lower upper version) (\<lambda>r. Inr (RangeScope r)))))
            else blocked ''portable_scope.kind''))))"

section \<open>The values a range scope selects\<close>

text \<open>
  The meaning of a range scope: the literals inside its bounds. The predicates that each
  dialect renders from a scope select the rows whose column has such a value.
\<close>

definition bound_admits_above :: "range_bound option \<Rightarrow> portable_literal \<Rightarrow> bool" where
  "bound_admits_above b v =
     (case b of None \<Rightarrow> True
      | Some l \<Rightarrow> if rb_inclusive l then \<not> lit_less v (rb_value l) else lit_less (rb_value l) v)"

definition bound_admits_below :: "range_bound option \<Rightarrow> portable_literal \<Rightarrow> bool" where
  "bound_admits_below b v =
     (case b of None \<Rightarrow> True
      | Some u \<Rightarrow> if rb_inclusive u then \<not> lit_less (rb_value u) v else lit_less v (rb_value u))"

definition scope_contains :: "range_scope \<Rightarrow> portable_literal \<Rightarrow> bool" where
  "scope_contains r v = (bound_admits_above (rs_lower r) v \<and> bound_admits_below (rs_upper r) v)"

lemmas scope_contains_defs = scope_contains_def bound_admits_above_def bound_admits_below_def

lemma mk_range_scope_fields:
  "mk_range_scope column lower upper = Inr r \<Longrightarrow>
     rs_column r = column \<and> rs_lower r = lower \<and> rs_upper r = upper"
  by (auto simp: mk_range_scope_def mk_versioned_range_def bind_res_eq_Inr)

lemma mk_literal_simple [simp]:
  "mk_literal ''integer'' (LInt i) = Inr \<lparr>lit_kind = ''integer'', lit_value = LInt i\<rparr>"
  "mk_literal ''date'' (LDate d) = Inr \<lparr>lit_kind = ''date'', lit_value = LDate d\<rparr>"
  "mk_literal ''uuid'' (LUuid n) = Inr \<lparr>lit_kind = ''uuid'', lit_value = LUuid n\<rparr>"
  by (simp_all add: mk_literal_def)

text \<open>A time stamp keeps its instant when it is normalised to UTC.\<close>

lemma mk_literal_stamp:
  assumes "mk_literal k (LStamp d) = Inr l" "k = ''timestamp'' \<or> k = ''timestamptz''"
  shows "\<exists>u. lit_value l = LStamp u \<and> dt_instant u = dt_instant d"
  using assms by (auto simp: mk_literal_def as_utc_def blocked_def bind_res_eq_Inr split: if_splits)

end
