(* ===== verification/Bf_Models.thy ===== *)
theory Bf_Models
  imports Ps_Scope
begin

text \<open>
  The chunk declaration of a backfill (\<open>src/dpone/backfill/models.py\<close>): the step and the
  chunk specification, parsed and validated from the manifest's \<open>sink.strategy.backfill\<close>
  options, the inner mode and the number of workers. Error texts are shortened to their
  fixed part.

  The lemmas give what a specification that was accepted promises: its kind is supported,
  its boundaries parse and are ordered, and its step parses for its kind.
\<close>

section \<open>Steps and specifications\<close>

record backfill_step =
  bs_count :: int
  bs_unit :: "string option"

definition step_is_temporal :: "backfill_step \<Rightarrow> bool" where
  "step_is_temporal s = (bs_unit s \<noteq> None)"

record chunk_spec =
  cs_column :: string
  cs_start :: string
  cs_end :: string
  cs_step :: string
  cs_kind :: string
  cs_max_chunks :: int
  cs_buckets :: "int option"

definition supported_chunk_kinds :: "string list" where
  "supported_chunk_kinds = [''date'', ''timestamp'', ''integer'', ''uuid'']"

definition supported_inner_modes :: "string list" where
  "supported_inner_modes =
     [''partition_replace'', ''replace'', ''incremental_append'', ''incremental_merge'', ''full_refresh'']"

definition default_inner_mode :: string where "default_inner_mode = ''partition_replace''"
definition default_max_chunks :: int where "default_max_chunks = 1000"

text \<open>\<open>str(self.buckets or '')\<close>.\<close>

definition buckets_text :: "int option \<Rightarrow> string" where
  "buckets_text b = (case b of None \<Rightarrow> [] | Some n \<Rightarrow> if n = 0 then [] else py_str_int n)"

definition fingerprint_parts :: "chunk_spec \<Rightarrow> string list" where
  "fingerprint_parts c =
     [cs_column c, cs_start c, cs_end c, cs_step c, cs_kind c, buckets_text (cs_buckets c)]"

definition chunk_spec_to_jsonable :: "chunk_spec \<Rightarrow> pyval" where
  "chunk_spec_to_jsonable c =
     (if cs_kind c = ''uuid'' then
        PDict [(''column'', PStr (cs_column c)), (''kind'', PStr (cs_kind c)),
               (''buckets'', case cs_buckets c of None \<Rightarrow> PNone | Some n \<Rightarrow> PInt n)]
      else
        PDict [(''column'', PStr (cs_column c)), (''from'', PStr (cs_start c)), (''to'', PStr (cs_end c)),
               (''step'', PStr (cs_step c)), (''kind'', PStr (cs_kind c))])"

section \<open>Parsing a step\<close>

text \<open>
  \<open>match_step\<close> is the regular expression \<open>^(\d+)\s*(h|d|w|mo|y)$\<close> on a text that has been
  stripped and lowered: the digits of the count and the unit.
\<close>

definition match_step :: "string \<Rightarrow> (string \<times> string) option" where
  "match_step token =
     (let ds = takeWhile py_is_digit token;
          unit = dropWhile py_is_space (dropWhile py_is_digit token) in
      if ds \<noteq> [] \<and> unit \<in> {''h'', ''d'', ''w'', ''mo'', ''y''} then Some (ds, unit) else None)"

definition parse_step :: "string \<Rightarrow> string \<Rightarrow> backfill_step res" where
  "parse_step step kind =
     (if kind = ''uuid'' then Inl (ValueError ''kind=uuid uses buckets instead of step'')
      else
        (let token = py_lower (py_strip step) in
         case match_step token of
           Some (ds, unit) \<Rightarrow>
             if kind = ''integer'' then Inl (ValueError ''step is temporal but chunk kind is integer'')
             else if kind = ''date'' \<and> unit = ''h'' then Inl (ValueError ''step in hours requires kind: timestamp'')
             else (case py_int ds of
                     None \<Rightarrow> Inl (ValueError ''Exceeds the limit for integer string conversion'')
                   | Some n \<Rightarrow> Inr \<lparr>bs_count = n, bs_unit = Some unit\<rparr>)
         | None \<Rightarrow>
             (case py_int token of
                None \<Rightarrow> Inl (ValueError ''step is not supported'')
              | Some n \<Rightarrow>
                  if kind \<noteq> ''integer'' then Inl (ValueError ''step is an integer step but chunk kind is not'')
                  else if n < 1 then Inl (ValueError ''step must be >= 1'')
                  else Inr \<lparr>bs_count = n, bs_unit = None\<rparr>)))"

section \<open>Options\<close>

definition parse_date_boundary :: "string \<Rightarrow> pydate res" where
  "parse_date_boundary s = date_fromisoformat s"

definition parse_timestamp_boundary :: "string \<Rightarrow> pydt res" where
  "parse_timestamp_boundary s = datetime_fromisoformat s"

definition is_date_pattern :: "string \<Rightarrow> bool" where
  "is_date_pattern s =
     (length s = 10 \<and> s ! 4 = CHR ''-'' \<and> s ! 7 = CHR ''-''
      \<and> list_all py_is_digit (take 4 s @ take 2 (drop 5 s) @ drop 8 s))"

definition infer_kind :: "string \<Rightarrow> string" where
  "infer_kind start =
     (if is_date_pattern start then ''date''
      else if py_int start \<noteq> None then ''integer''
      else (case datetime_fromisoformat start of Inl _ \<Rightarrow> [] | Inr _ \<Rightarrow> ''timestamp''))"

definition options_mapping :: "pyval \<Rightarrow> ((string \<times> pyval) list) res" where
  "options_mapping opts =
     (case opts of
        PNone \<Rightarrow> Inr []
      | PDict d \<Rightarrow> Inr d
      | _ \<Rightarrow> Inl (ValueError ''backfill must be an object''))"

definition required_or_inferred_chunk_kind :: "(string \<times> pyval) list \<Rightarrow> string res" where
  "required_or_inferred_chunk_kind raw =
     (if \<not> py_has raw ''kind'' then Inr []
      else (case py_get raw ''kind'' of
              PStr s \<Rightarrow>
                if py_strip s = [] then Inl (ValueError ''kind must be a non-empty string'')
                else
                  (let kind = py_lower (py_strip s) in
                   if kind \<notin> set supported_chunk_kinds then Inl (ValueError ''kind must be one of'')
                   else Inr kind)
            | _ \<Rightarrow> Inl (ValueError ''kind must be a non-empty string'')))"

definition required_chunk_column :: "(string \<times> pyval) list \<Rightarrow> string res" where
  "required_chunk_column raw =
     (if \<not> py_has raw ''column'' then Inr []
      else (case py_get raw ''column'' of
              PStr s \<Rightarrow> if py_strip s = [] then Inl (ValueError ''column must be a non-empty string'')
                        else Inr (py_strip s)
            | _ \<Rightarrow> Inl (ValueError ''column must be a non-empty string'')))"

definition required_chunk_boundary :: "(string \<times> pyval) list \<Rightarrow> string \<Rightarrow> string res" where
  "required_chunk_boundary raw key =
     (if \<not> py_has raw key then Inr []
      else
        (let v = py_get raw key; bad = Inl (ValueError (key @ '' must be a string or integer'')) in
         case v of
           PStr s \<Rightarrow> if py_strip s = [] then bad else Inr (py_strip s)
         | PInt i \<Rightarrow> if py_strip (py_str_int i) = [] then bad else Inr (py_strip (py_str_int i))
         | _ \<Rightarrow> bad))"

text \<open>Only a \<open>ValueError\<close> of the parsers is wrapped; a \<open>TypeError\<close> of the comparison escapes.\<close>

definition wrap_value_error :: "'a res \<Rightarrow> 'a res" where
  "wrap_value_error r =
     (case r of Inl (ValueError m) \<Rightarrow> Inl (ValueError ''boundaries are not valid for kind'') | _ \<Rightarrow> r)"

definition int_boundary :: "string \<Rightarrow> int res" where
  "int_boundary s = (case py_int s of None \<Rightarrow> Inl (ValueError ''invalid literal for int() with base 10'') | Some n \<Rightarrow> Inr n)"

definition validate_boundaries :: "string \<Rightarrow> string \<Rightarrow> string \<Rightarrow> unit res" where
  "validate_boundaries start finish kind =
     bind_res
       (wrap_value_error
         (if kind = ''integer'' then
            bind_res (int_boundary start) (\<lambda>a. bind_res (int_boundary finish) (\<lambda>b. Inr (b < a)))
          else if kind = ''date'' then
            bind_res (parse_date_boundary start) (\<lambda>a. bind_res (parse_date_boundary finish) (\<lambda>b. Inr (b < a)))
          else
            bind_res (parse_timestamp_boundary start) (\<lambda>a.
            bind_res (parse_timestamp_boundary finish) (\<lambda>b. dt_less b a))))
       (\<lambda>inverted. if inverted then Inl (ValueError ''from must be <= to'') else Inr ())"

definition max_chunks_option :: "(string \<times> pyval) list \<Rightarrow> int res" where
  "max_chunks_option opts =
     (case (if py_has opts ''max_chunks'' then py_get opts ''max_chunks'' else PInt default_max_chunks) of
        PInt n \<Rightarrow> if n < 1 then Inl (ValueError ''max_chunks must be >= 1'') else Inr n
      | _ \<Rightarrow> Inl (ValueError ''max_chunks must be an integer''))"

definition uuid_chunk_spec :: "(string \<times> pyval) list \<Rightarrow> (string \<times> pyval) list \<Rightarrow> string \<Rightarrow> chunk_spec res" where
  "uuid_chunk_spec opts raw column =
     (if list_ex (\<lambda>k. k \<in> {''from'', ''to'', ''step''}) (dict_keys raw)
      then Inl (ValueError ''kind=uuid uses buckets and forbids'')
      else (case py_get raw ''buckets'' of
              PInt buckets \<Rightarrow>
                if buckets < 1 then Inl (ValueError ''buckets must be an integer >= 1'')
                else bind_res (max_chunks_option opts) (\<lambda>mc.
                  if mc < buckets then Inl (ValueError ''backfill would produce too many chunks'')
                  else Inr \<lparr>cs_column = column,
                            cs_start = ''00000000-0000-0000-0000-000000000000'',
                            cs_end = ''ffffffff-ffff-ffff-ffff-ffffffffffff'',
                            cs_step = py_str_int buckets, cs_kind = ''uuid'',
                            cs_max_chunks = mc, cs_buckets = Some buckets\<rparr>)
            | _ \<Rightarrow> Inl (ValueError ''buckets must be an integer >= 1'')))"

definition ranged_chunk_spec :: "(string \<times> pyval) list \<Rightarrow> (string \<times> pyval) list \<Rightarrow> string \<Rightarrow> string
    \<Rightarrow> chunk_spec res" where
  "ranged_chunk_spec opts raw column kind0 =
     bind_res (required_chunk_boundary raw ''from'') (\<lambda>start.
     bind_res (required_chunk_boundary raw ''to'') (\<lambda>finish.
     bind_res (required_chunk_boundary raw ''step'') (\<lambda>step.
       if column = [] \<or> start = [] \<or> finish = [] \<or> step = []
       then Inl (ValueError ''backfill.chunk requires keys'')
       else
         (let kind = (if py_has raw ''kind'' then kind0 else infer_kind start) in
          if kind \<notin> set supported_chunk_kinds then Inl (ValueError ''kind must be one of'')
          else
            bind_res (parse_step step kind) (\<lambda>_.
            bind_res (validate_boundaries start finish kind) (\<lambda>_.
            bind_res (max_chunks_option opts) (\<lambda>mc.
              Inr \<lparr>cs_column = column, cs_start = start, cs_end = finish, cs_step = step,
                   cs_kind = kind, cs_max_chunks = mc, cs_buckets = None\<rparr>)))))))"

definition chunk_spec_from_options :: "pyval \<Rightarrow> (chunk_spec option) res" where
  "chunk_spec_from_options raw_options =
     bind_res (options_mapping raw_options) (\<lambda>opts.
       if \<not> py_has opts ''chunk'' then Inr None
       else (case py_get opts ''chunk'' of
               PDict raw \<Rightarrow>
                 if raw = [] then Inl (ValueError ''backfill.chunk must be a non-empty object'')
                 else
                   bind_res (required_chunk_column raw) (\<lambda>column.
                   bind_res (required_or_inferred_chunk_kind raw) (\<lambda>kind.
                   bind_res (if kind = ''uuid'' then uuid_chunk_spec opts raw column
                             else ranged_chunk_spec opts raw column kind) (\<lambda>spec.
                     Inr (Some spec))))
             | _ \<Rightarrow> Inl (ValueError ''backfill.chunk must be a mapping'')))"

definition inner_mode_from_options :: "pyval \<Rightarrow> string res" where
  "inner_mode_from_options raw_options =
     bind_res (options_mapping raw_options) (\<lambda>opts.
       if \<not> py_has opts ''inner_mode'' then Inr default_inner_mode
       else (case py_get opts ''inner_mode'' of
               PStr s \<Rightarrow>
                 if py_strip s = [] then Inl (ValueError ''inner_mode must be a non-empty string'')
                 else
                   (let m = py_lower (py_strip s) in
                    if m \<notin> set supported_inner_modes then Inl (ValueError ''inner_mode must be one of'')
                    else Inr m)
             | _ \<Rightarrow> Inl (ValueError ''inner_mode must be a non-empty string'')))"

definition parallel_workers_from_options :: "pyval \<Rightarrow> int res" where
  "parallel_workers_from_options raw_options =
     bind_res (options_mapping raw_options) (\<lambda>opts.
       if \<not> py_has opts ''parallel_workers'' then Inr 1
       else (case py_get opts ''parallel_workers'' of
               PInt n \<Rightarrow> if n < 1 then Inl (ValueError ''parallel_workers must be >= 1'') else Inr n
             | _ \<Rightarrow> Inl (ValueError ''parallel_workers must be an integer'')))"

section \<open>What an accepted specification promises\<close>

definition spec_ok :: "chunk_spec \<Rightarrow> bool" where
  "spec_ok c =
     (1 \<le> cs_max_chunks c \<and>
      (if cs_kind c = ''uuid''
       then (case cs_buckets c of None \<Rightarrow> False | Some b \<Rightarrow> 1 \<le> b \<and> b \<le> cs_max_chunks c)
       else cs_kind c \<in> set supported_chunk_kinds \<and> cs_column c \<noteq> []
         \<and> (\<exists>s. parse_step (cs_step c) (cs_kind c) = Inr s)
         \<and> validate_boundaries (cs_start c) (cs_end c) (cs_kind c) = Inr ()))"

lemma max_chunks_option_ge: "max_chunks_option opts = Inr mc \<Longrightarrow> 1 \<le> mc"
  by (auto simp: max_chunks_option_def split: pyval.splits if_splits)

lemma uuid_chunk_spec_ok: "uuid_chunk_spec opts raw column = Inr c \<Longrightarrow> spec_ok c"
  by (auto simp: uuid_chunk_spec_def spec_ok_def bind_res_eq_Inr dest: max_chunks_option_ge
      split: pyval.splits if_splits)

lemma parse_step_uuid [simp]: "parse_step step ''uuid'' = Inl (ValueError ''kind=uuid uses buckets instead of step'')"
  by (simp add: parse_step_def)

lemma ranged_chunk_spec_ok: "ranged_chunk_spec opts raw column kind = Inr c \<Longrightarrow> spec_ok c"
  by (auto simp: ranged_chunk_spec_def Let_def spec_ok_def bind_res_eq_Inr dest: max_chunks_option_ge
      split: if_splits)

lemma chunk_spec_from_options_ok: "chunk_spec_from_options opts = Inr (Some c) \<Longrightarrow> spec_ok c"
proof -
  assume "chunk_spec_from_options opts = Inr (Some c)"
  then have "(\<exists>d raw column. uuid_chunk_spec d raw column = Inr c)
      \<or> (\<exists>d raw column kind. ranged_chunk_spec d raw column kind = Inr c)"
    unfolding chunk_spec_from_options_def bind_res_eq_Inr
    by (elim exE conjE, case_tac "py_get a ''chunk''") (auto simp: bind_res_eq_Inr split: if_split_asm)
  then show "spec_ok c"
    using uuid_chunk_spec_ok ranged_chunk_spec_ok by blast
qed

text \<open>A parsed step has a non-negative count, and a positive one when it is an integer step.\<close>

lemma int_body_nonneg: "int_body s acc p = Some n \<Longrightarrow> acc \<le> n"
proof (induction s acc p rule: int_body.induct)
  case (2 c cs acc p)
  then show ?case by (fastforce split: if_splits)
qed (simp split: if_splits)

lemma py_int_digits:
  assumes "list_all py_is_digit ds" "ds \<noteq> []"
  shows "py_int ds = map_option int (unsigned_int ds)"
proof -
  have "py_strip ds = ds"
    using assms py_is_digit_not_space by (intro py_strip_no_space) (auto simp: list_all_iff)
  with assms show ?thesis by (cases ds) (auto simp: py_int_def)
qed

lemma parse_step_count:
  assumes "parse_step step kind = Inr s"
  shows "0 \<le> bs_count s" "bs_unit s = None \<Longrightarrow> 1 \<le> bs_count s"
    "(bs_unit s = None) = (kind = ''integer'')"
proof -
  have nonneg: "0 \<le> n" if "match_step t = Some (ds, u)" "py_int ds = Some n" for t ds u n
  proof -
    from that(1) have "list_all py_is_digit ds" "ds \<noteq> []"
      by (auto simp: match_step_def Let_def list_all_iff dest: set_takeWhileD split: if_splits)
    from py_int_digits [OF this] that(2) show ?thesis by (cases "unsigned_int ds") auto
  qed
  show "0 \<le> bs_count s" "bs_unit s = None \<Longrightarrow> 1 \<le> bs_count s"
    "(bs_unit s = None) = (kind = ''integer'')"
    using assms
    by (auto simp: parse_step_def Let_def split: if_split_asm option.split_asm)
      (erule (1) nonneg)+
qed

end
