(* ===== verification/Bf_Planner.thy ===== *)
theory Bf_Planner
  imports Bf_Models
begin

text \<open>
  The backfill planner (\<open>src/dpone/backfill/planner.py\<close>, \<open>chunk_scope.py\<close>, the chunk of
  \<open>models.py\<close>): from an accepted chunk specification to the ordered list of chunks with
  their portable scopes and idempotency keys. A chunk loop is a partial function: \<open>None\<close> is
  a plan that never ends. The digest \<open>sha\<close> (SHA-256 of the UTF-8 text, in hexadecimal) is a
  parameter.

  What the planner promises is in \<open>Bf_Plan_Proofs\<close>.
\<close>

section \<open>Chunks and their scopes\<close>

record bf_chunk =
  bc_index :: int
  bc_start :: string
  bc_end :: string
  bc_scope :: range_scope
  bc_key :: string

definition scope_sha256 :: "(string \<Rightarrow> string) \<Rightarrow> range_scope \<Rightarrow> string" where
  "scope_sha256 sha r = sha (portable_scope_canonical_json (RangeScope r))"

definition chunk_to_jsonable :: "(string \<Rightarrow> string) \<Rightarrow> bf_chunk \<Rightarrow> pyval" where
  "chunk_to_jsonable sha c =
     PDict [(''index'', PInt (bc_index c)), (''start'', PStr (bc_start c)), (''end'', PStr (bc_end c)),
            (''portable_scope'', portable_scope_contract (RangeScope (bc_scope c))),
            (''portable_scope_sha256'', PStr (scope_sha256 sha (bc_scope c))),
            (''idempotency_key'', PStr (bc_key c))]"

definition backfill_run_key :: "(string \<Rightarrow> string) \<Rightarrow> string \<Rightarrow> chunk_spec \<Rightarrow> string \<Rightarrow> string" where
  "backfill_run_key sha dataset spec inner_mode =
     take 16 (sha (py_join ''|'' ([dataset, inner_mode] @ fingerprint_parts spec)))"

definition timestamp_literal_kind :: "pydt \<Rightarrow> pydt \<Rightarrow> string res" where
  "timestamp_literal_kind lower upper =
     (if dt_aware lower \<noteq> dt_aware upper
      then Inl (ValueError ''timestamp boundaries must use the same timezone form'')
      else Inr (if dt_aware lower then ''timestamptz'' else ''timestamp''))"

definition chunk_literals :: "string \<Rightarrow> string \<Rightarrow> string \<Rightarrow> (portable_literal \<times> portable_literal) res" where
  "chunk_literals kind start finish =
     (if kind = ''integer'' then
        bind_res (bind_res (int_boundary start) (\<lambda>a. mk_literal ''integer'' (LInt a))) (\<lambda>l.
        bind_res (bind_res (int_boundary finish) (\<lambda>b. mk_literal ''integer'' (LInt b))) (\<lambda>u. Inr (l, u)))
      else if kind = ''date'' then
        bind_res (bind_res (parse_date_boundary start) (\<lambda>a. mk_literal ''date'' (LDate a))) (\<lambda>l.
        bind_res (bind_res (parse_date_boundary finish) (\<lambda>b. mk_literal ''date'' (LDate b))) (\<lambda>u. Inr (l, u)))
      else
        bind_res (parse_timestamp_boundary start) (\<lambda>a.
        bind_res (parse_timestamp_boundary finish) (\<lambda>b.
        bind_res (timestamp_literal_kind a b) (\<lambda>k.
        bind_res (mk_literal k (LStamp a)) (\<lambda>l.
        bind_res (mk_literal k (LStamp b)) (\<lambda>u. Inr (l, u)))))))"

definition build_backfill_chunk_scope :: "chunk_spec \<Rightarrow> string \<Rightarrow> string \<Rightarrow> range_scope res" where
  "build_backfill_chunk_scope spec start finish =
     bind_res (chunk_literals (cs_kind spec) start finish) (\<lambda>(l, u).
       mk_range_scope (cs_column spec)
         (Some \<lparr>rb_value = l, rb_inclusive = True\<rparr>)
         (Some \<lparr>rb_value = u, rb_inclusive = (cs_kind spec = ''integer'')\<rparr>))"

definition chunk_key :: "(string \<Rightarrow> string) \<Rightarrow> string \<Rightarrow> int \<Rightarrow> range_scope \<Rightarrow> string" where
  "chunk_key sha run_key index r =
     run_key @ '':'' @ py_str_int index @ '':scope:'' @ scope_sha256 sha r"

definition mk_chunk :: "(string \<Rightarrow> string) \<Rightarrow> chunk_spec \<Rightarrow> string \<Rightarrow> int \<Rightarrow> string \<Rightarrow> string \<Rightarrow> bf_chunk res" where
  "mk_chunk sha spec run_key index start finish =
     bind_res (build_backfill_chunk_scope spec start finish) (\<lambda>r.
       Inr \<lparr>bc_index = index, bc_start = start, bc_end = finish, bc_scope = r,
            bc_key = chunk_key sha run_key index r\<rparr>)"

section \<open>Stepping through dates\<close>

text \<open>
  A year outside 1..9999 is a \<open>ValueError\<close> of the constructor; one that does not fit a C
  \<open>int\<close> is an \<open>OverflowError\<close>.
\<close>

definition mk_date_c :: "int \<Rightarrow> int \<Rightarrow> int \<Rightarrow> pydate res" where
  "mk_date_c y m d =
     (if y < - (2 ^ 31) \<or> 2 ^ 31 \<le> y then Inl (OverflowError ''signed integer is greater than maximum'')
      else mk_date y m d)"

definition month_length :: "int \<Rightarrow> int \<Rightarrow> int res" where
  "month_length year month =
     (if month = 12 then Inr 31
      else bind_res (mk_date_c (year + month div 12) (month mod 12 + 1) 1) (\<lambda>first_next.
        bind_res (date_add_days first_next (- 1)) (\<lambda>d. case ord2ymd d of (_, _, dd) \<Rightarrow> Inr dd)))"

definition add_months :: "pydate \<Rightarrow> int \<Rightarrow> pydate res" where
  "add_months cursor months =
     (case ord2ymd cursor of (y, m, d) \<Rightarrow>
        (let month_index = m - 1 + months;
             year = y + month_index div 12;
             month = month_index mod 12 + 1 in
         bind_res (month_length year month) (\<lambda>n. mk_date_c year month (min d n))))"

definition step_unit :: "backfill_step \<Rightarrow> string" where
  "step_unit step = (case bs_unit step of None \<Rightarrow> ''d'' | Some u \<Rightarrow> if u = [] then ''d'' else u)"

text \<open>\<open>_advance\<close> on a \<open>date\<close>, whose sum with a \<open>timedelta\<close> only sees its whole days.\<close>

definition advance_date :: "backfill_step \<Rightarrow> pydate \<Rightarrow> pydate res" where
  "advance_date step cursor =
     (let u = step_unit step; n = bs_count step in
      if u = ''h'' then date_add_days cursor (n div 24)
      else if u = ''d'' then date_add_days cursor n
      else if u = ''w'' then date_add_days cursor (7 * n)
      else if u = ''mo'' then add_months cursor n
      else add_months cursor (n * 12))"

definition add_months_dt :: "pydt \<Rightarrow> int \<Rightarrow> pydt res" where
  "add_months_dt cursor months = bind_res (add_months (dt_day cursor) months) (\<lambda>d. Inr (cursor\<lparr>dt_day := d\<rparr>))"

definition advance_datetime :: "backfill_step \<Rightarrow> pydt \<Rightarrow> pydt res" where
  "advance_datetime step cursor =
     (let u = step_unit step; n = bs_count step in
      if u = ''h'' then dt_add_us cursor (n * 3600 * us_second)
      else if u = ''d'' then dt_add_us cursor (n * us_day)
      else if u = ''w'' then dt_add_us cursor (7 * n * us_day)
      else if u = ''mo'' then add_months_dt cursor n
      else add_months_dt cursor (n * 12))"

section \<open>The chunk loops\<close>

partial_function (option) integer_loop ::
  "(int \<Rightarrow> string \<Rightarrow> string \<Rightarrow> bf_chunk res) \<Rightarrow> int \<Rightarrow> int \<Rightarrow> int \<Rightarrow> int \<Rightarrow> bf_chunk list
    \<Rightarrow> bf_chunk list res option" where
  "integer_loop mk count finish cursor index chunks =
     (if cursor \<le> finish then
        (let chunk_end = min (cursor + count - 1) finish in
         case mk index (py_str_int cursor) (py_str_int chunk_end) of
           Inl e \<Rightarrow> Some (Inl e)
         | Inr c \<Rightarrow> integer_loop mk count finish (chunk_end + 1) (index + 1) (chunks @ [c]))
      else Some (Inr chunks))"

partial_function (option) temporal_loop ::
  "('a \<Rightarrow> 'a \<Rightarrow> bool res) \<Rightarrow> ('a \<Rightarrow> 'a res) \<Rightarrow> ('a \<Rightarrow> string)
    \<Rightarrow> (int \<Rightarrow> string \<Rightarrow> string \<Rightarrow> bf_chunk res) \<Rightarrow> 'a \<Rightarrow> 'a \<Rightarrow> int \<Rightarrow> bf_chunk list
    \<Rightarrow> bf_chunk list res option" where
  "temporal_loop lt advance render mk finish cursor index chunks =
     (case lt cursor finish of
        Inl e \<Rightarrow> Some (Inl e)
      | Inr again \<Rightarrow>
          if \<not> again then Some (Inr chunks)
          else (case advance cursor of
                  Inl e \<Rightarrow> Some (Inl e)
                | Inr w \<Rightarrow>
                    (case lt finish w of
                       Inl e \<Rightarrow> Some (Inl e)
                     | Inr over \<Rightarrow>
                         (let window_end = (if over then finish else w) in
                          case mk index (render cursor) (render window_end) of
                            Inl e \<Rightarrow> Some (Inl e)
                          | Inr c \<Rightarrow>
                              temporal_loop lt advance render mk finish window_end (index + 1)
                                (chunks @ [c])))))"

declare integer_loop.simps [code]
declare temporal_loop.simps [code]

definition integer_chunks :: "(string \<Rightarrow> string) \<Rightarrow> chunk_spec \<Rightarrow> backfill_step \<Rightarrow> string
    \<Rightarrow> bf_chunk list res option" where
  "integer_chunks sha spec step run_key =
     (case bind_res (int_boundary (cs_start spec)) (\<lambda>a.
           bind_res (int_boundary (cs_end spec)) (\<lambda>b. Inr (a, b))) of
        Inl e \<Rightarrow> Some (Inl e)
      | Inr (a, b) \<Rightarrow> integer_loop (mk_chunk sha spec run_key) (bs_count step) b a 1 [])"

definition date_less :: "pydate \<Rightarrow> pydate \<Rightarrow> bool res" where
  "date_less a b = Inr (a < b)"

definition date_chunks :: "(string \<Rightarrow> string) \<Rightarrow> chunk_spec \<Rightarrow> backfill_step \<Rightarrow> string
    \<Rightarrow> bf_chunk list res option" where
  "date_chunks sha spec step run_key =
     (case bind_res (parse_date_boundary (cs_start spec)) (\<lambda>a.
           bind_res (bind_res (parse_date_boundary (cs_end spec)) (\<lambda>b. date_add_days b 1)) (\<lambda>b.
             Inr (a, b))) of
        Inl e \<Rightarrow> Some (Inl e)
      | Inr (a, b) \<Rightarrow>
          temporal_loop date_less (advance_date step) date_iso (mk_chunk sha spec run_key) b a 1 [])"

definition timestamp_chunks :: "(string \<Rightarrow> string) \<Rightarrow> chunk_spec \<Rightarrow> backfill_step \<Rightarrow> string
    \<Rightarrow> bf_chunk list res option" where
  "timestamp_chunks sha spec step run_key =
     (case bind_res (parse_timestamp_boundary (cs_start spec)) (\<lambda>a.
           bind_res (parse_timestamp_boundary (cs_end spec)) (\<lambda>b. Inr (a, b))) of
        Inl e \<Rightarrow> Some (Inl e)
      | Inr (a, b) \<Rightarrow>
          temporal_loop dt_less (advance_datetime step) (dt_iso (CHR '' '')) (mk_chunk sha spec run_key)
            b a 1 [])"

definition uuid_cardinality :: int where "uuid_cardinality = 2 ^ 128"

definition uuid_chunk :: "(string \<Rightarrow> string) \<Rightarrow> chunk_spec \<Rightarrow> string \<Rightarrow> int \<Rightarrow> nat \<Rightarrow> bf_chunk res" where
  "uuid_chunk sha spec run_key buckets k =
     (let offset = int k;
          is_last = (offset = buckets - 1);
          lower = offset * uuid_cardinality div buckets;
          upper = (if is_last then uuid_cardinality - 1 else (offset + 1) * uuid_cardinality div buckets) in
      bind_res (mk_literal ''uuid'' (LUuid lower)) (\<lambda>l.
      bind_res (mk_literal ''uuid'' (LUuid upper)) (\<lambda>u.
      bind_res (mk_range_scope (cs_column spec)
                 (Some \<lparr>rb_value = l, rb_inclusive = True\<rparr>)
                 (Some \<lparr>rb_value = u, rb_inclusive = is_last\<rparr>)) (\<lambda>r.
        Inr \<lparr>bc_index = offset + 1, bc_start = uuid_str lower, bc_end = uuid_str upper, bc_scope = r,
             bc_key = chunk_key sha run_key (offset + 1) r\<rparr>))))"

definition uuid_chunks :: "(string \<Rightarrow> string) \<Rightarrow> chunk_spec \<Rightarrow> string \<Rightarrow> bf_chunk list res" where
  "uuid_chunks sha spec run_key =
     (case cs_buckets spec of
        None \<Rightarrow> Inl (ValueError ''backfill.chunk.kind=uuid requires buckets'')
      | Some buckets \<Rightarrow> map_res (uuid_chunk sha spec run_key buckets) [0..<nat buckets])"

definition plan_chunks :: "(string \<Rightarrow> string) \<Rightarrow> chunk_spec \<Rightarrow> string \<Rightarrow> bf_chunk list res option" where
  "plan_chunks sha spec run_key =
     (let planned =
        (if cs_kind spec = ''uuid'' then Some (uuid_chunks sha spec run_key)
         else (case parse_step (cs_step spec) (cs_kind spec) of
                 Inl e \<Rightarrow> Some (Inl e)
               | Inr step \<Rightarrow>
                   if cs_kind spec = ''integer'' then integer_chunks sha spec step run_key
                   else if cs_kind spec = ''date'' then date_chunks sha spec step run_key
                   else timestamp_chunks sha spec step run_key)) in
      case planned of
        None \<Rightarrow> None
      | Some r \<Rightarrow> Some (bind_res r (\<lambda>chunks.
          if cs_max_chunks spec < int (length chunks)
          then Inl (ValueError ''backfill would produce too many chunks'')
          else Inr chunks)))"

end
