(* ===== verification/Bf_Plan_Proofs.thy ===== *)
theory Bf_Plan_Proofs
  imports Bf_Planner
begin

text \<open>
  What the backfill planner promises: the chunks of a plan partition the declared interval.
  Every integer, date, date-time or UUID inside it is in exactly one chunk and nothing
  outside it is in any; the chunks are numbered and have distinct idempotency keys; and
  planning always ends.

  The temporal loop is treated once, in the locale \<open>time_axis\<close>, which dates and date-times
  interpret.
\<close>

section \<open>Windows that tile an interval\<close>

fun tiles :: "int \<Rightarrow> (int \<times> int) list \<Rightarrow> int \<Rightarrow> bool" where
  "tiles a [] b = (b \<le> a)"
| "tiles a ((lo, hi) # ws) b = (lo = a \<and> a \<le> hi \<and> hi \<le> b \<and> tiles hi ws b)"

definition in_window :: "int \<Rightarrow> int \<times> int \<Rightarrow> bool" where
  "in_window x w = (fst w \<le> x \<and> x < snd w)"

text \<open>A point of the interval lies in exactly one window, a point outside it in none.\<close>

lemma tiles_cover:
  "tiles a ws b \<Longrightarrow> length (filter (in_window x) ws) = (if a \<le> x \<and> x < b then 1 else 0)"
  by (induction a ws b rule: tiles.induct) (auto simp: in_window_def)

lemma tiles_append_one:
  assumes "tiles a ws b" "a \<le> b" "b \<le> c"
  shows "tiles a (ws @ [(b, c)]) c"
  using assms
proof (induction a ws b rule: tiles.induct)
  case (1 a b)
  then show ?case by auto
next
  case (2 a lo hi ws b)
  then show ?case by auto
qed

text \<open>
  \<open>planned mk k ws cs\<close>: the chunks \<open>cs\<close> are made by \<open>mk\<close> from the windows \<open>ws\<close>, numbered
  from \<open>k\<close> on.
\<close>

fun planned :: "(int \<Rightarrow> 'w \<Rightarrow> bf_chunk res) \<Rightarrow> int \<Rightarrow> 'w list \<Rightarrow> bf_chunk list \<Rightarrow> bool" where
  "planned mk k [] cs = (cs = [])"
| "planned mk k (w # ws) cs = (\<exists>c cs'. cs = c # cs' \<and> mk k w = Inr c \<and> planned mk (k + 1) ws cs')"

lemma planned_filter:
  assumes "planned mk k ws cs" "\<And>i w c. w \<in> set ws \<Longrightarrow> mk i w = Inr c \<Longrightarrow> P c = Q w"
  shows "length (filter P cs) = length (filter Q ws)"
  using assms
proof (induction mk k ws cs rule: planned.induct)
  case (2 mk k w ws cs)
  then obtain c cs' where c: "cs = c # cs'" "mk k w = Inr c" "planned mk (k + 1) ws cs'" by auto
  have "length (filter P cs') = length (filter Q ws)"
    by (rule "2.IH" [OF c(3)]) (rule "2.prems"(2), auto)
  moreover have "P c = Q w" by (rule "2.prems"(2) [OF _ c(2)]) simp
  ultimately show ?case using c(1) by simp
qed simp

lemma planned_indexes:
  assumes "planned mk k ws cs" "\<And>i w c. mk i w = Inr c \<Longrightarrow> bc_index c = i"
  shows "map bc_index cs = [k..k + int (length cs) - 1]"
  using assms
proof (induction mk k ws cs rule: planned.induct)
  case (2 mk k w ws cs)
  then obtain c cs' where "cs = c # cs'" "bc_index c = k" "map bc_index cs' = [k + 1..k + 1 + int (length cs') - 1]"
    by force
  then show ?case by (simp add: upto_rec1 [of k])
qed simp

lemma planned_keys:
  assumes "planned mk k ws cs" "\<And>i w c. mk i w = Inr c \<Longrightarrow> bc_key c = chunk_key sha run_key (bc_index c) (bc_scope c)"
  shows "\<forall>c\<in>set cs. bc_key c = chunk_key sha run_key (bc_index c) (bc_scope c)"
  using assms by (induction mk k ws cs rule: planned.induct) auto

text \<open>The count of chunks that contain a value, from the tiling of the windows.\<close>

lemma planned_cover:
  assumes "planned mk k ws cs" "tiles a (map pos ws) b"
    "\<And>i w c. w \<in> set ws \<Longrightarrow> mk i w = Inr c \<Longrightarrow> P c = in_window x (pos w)"
  shows "length (filter P cs) = (if a \<le> x \<and> x < b then 1 else 0)"
proof -
  have "length (filter P cs) = length (filter (\<lambda>w. in_window x (pos w)) ws)"
    by (rule planned_filter [OF assms(1)]) (rule assms(3))
  also have "\<dots> = length (filter (in_window x) (map pos ws))"
    by (simp add: filter_map comp_def)
  finally show ?thesis using tiles_cover [OF assms(2)] by simp
qed

section \<open>Time axes\<close>

text \<open>
  What the temporal loop needs of its points and of the constructor of a chunk: a position
  that the comparison decides, an advance that keeps points admissible, and a constructor
  that refuses a window that does not move forward.
\<close>

locale time_axis =
  fixes ok :: "'a \<Rightarrow> bool"
    and pos :: "'a \<Rightarrow> int"
    and before :: "'a \<Rightarrow> 'a \<Rightarrow> bool res"
    and advance :: "'a \<Rightarrow> 'a res"
    and render :: "'a \<Rightarrow> string"
    and make :: "int \<Rightarrow> string \<Rightarrow> string \<Rightarrow> bf_chunk res"
  assumes before_pos: "ok a \<Longrightarrow> ok b \<Longrightarrow> before a b = Inr (pos a < pos b)"
    and advance_ok: "ok a \<Longrightarrow> advance a = Inr w \<Longrightarrow> ok w"
    and make_forward: "ok a \<Longrightarrow> ok b \<Longrightarrow> make i (render a) (render b) = Inr c \<Longrightarrow> pos a < pos b"
begin

abbreviation loop :: "'a \<Rightarrow> 'a \<Rightarrow> int \<Rightarrow> bf_chunk list \<Rightarrow> bf_chunk list res option" where
  "loop \<equiv> temporal_loop before advance render make"

text \<open>One turn: the loop stops, or a chunk is made and the cursor has moved forward.\<close>

lemma loop_turn:
  assumes "ok finish" "ok cursor"
  shows "(\<exists>r. loop finish cursor index chunks = Some r \<and> (\<forall>cs. r = Inr cs \<longrightarrow> cs = chunks \<and> pos finish \<le> pos cursor))
    \<or> (\<exists>e c. ok e \<and> pos cursor < pos e \<and> pos e \<le> pos finish \<and> make index (render cursor) (render e) = Inr c
         \<and> loop finish cursor index chunks = loop finish e (index + 1) (chunks @ [c]))"
proof (cases "pos cursor < pos finish")
  case False
  then show ?thesis using before_pos [OF assms(2,1)] by (simp add: temporal_loop.simps)
next
  case True
  note b = before_pos [OF assms(2,1)]
  show ?thesis
  proof (cases "advance cursor")
    case (Inl e)
    then show ?thesis using b True by (simp add: temporal_loop.simps)
  next
    case (Inr w)
    note w = advance_ok [OF assms(2) Inr]
    define e where "e = (if pos finish < pos w then finish else w)"
    have e: "ok e" "pos e \<le> pos finish" using w assms by (auto simp: e_def)
    have unfold: "loop finish cursor index chunks =
        (case make index (render cursor) (render e) of Inl x \<Rightarrow> Some (Inl x)
         | Inr c \<Rightarrow> loop finish e (index + 1) (chunks @ [c]))"
      using b True Inr before_pos [OF assms(1) w]
      by (subst temporal_loop.simps) (simp add: e_def [symmetric])
    show ?thesis
    proof (cases "make index (render cursor) (render e)")
      case (Inl x)
      then show ?thesis using unfold by simp
    next
      case made: (Inr c)
      with make_forward [OF assms(2) e(1)] have "pos cursor < pos e" by blast
      with e made unfold show ?thesis by auto
    qed
  qed
qed

text \<open>The loop ends: every turn moves the cursor closer to the end.\<close>

lemma loop_returns:
  assumes "ok finish" "ok cursor"
  shows "loop finish cursor index chunks \<noteq> None"
  using assms(2)
proof (induction "nat (pos finish - pos cursor)" arbitrary: cursor index chunks rule: less_induct)
  case less
  from loop_turn [OF assms(1) less.prems, of index chunks] show ?case
  proof (elim disjE exE conjE)
    fix e c
    assume e: "ok e" "pos cursor < pos e" "pos e \<le> pos finish"
      and eq: "loop finish cursor index chunks = loop finish e (index + 1) (chunks @ [c])"
    from e have "nat (pos finish - pos e) < nat (pos finish - pos cursor)" by simp
    from less.hyps [OF this e(1)] eq show ?thesis by simp
  qed simp
qed

text \<open>The chunks it returns are made from windows that tile the interval.\<close>

lemma loop_tiles:
  assumes "ok finish" "ok cursor" "loop finish cursor index chunks = Some (Inr cs)"
  shows "\<exists>ws new. cs = chunks @ new \<and> (\<forall>(a, b)\<in>set ws. ok a \<and> ok b)
    \<and> tiles (pos cursor) (map (\<lambda>(a, b). (pos a, pos b)) ws) (pos finish)
    \<and> planned (\<lambda>i (a, b). make i (render a) (render b)) index ws new"
  using assms(2,3)
proof (induction "nat (pos finish - pos cursor)" arbitrary: cursor index chunks rule: less_induct)
  case less
  from loop_turn [OF assms(1) less.prems(1), of index chunks] show ?case
  proof (elim disjE exE conjE)
    fix r assume "loop finish cursor index chunks = Some r"
      "\<forall>cs. r = Inr cs \<longrightarrow> cs = chunks \<and> pos finish \<le> pos cursor"
    with less.prems(2) show ?thesis by (intro exI [of _ "[]"]) auto
  next
    fix e c
    assume e: "ok e" "pos cursor < pos e" "pos e \<le> pos finish"
      and c: "make index (render cursor) (render e) = Inr c"
      and eq: "loop finish cursor index chunks = loop finish e (index + 1) (chunks @ [c])"
    from e have "nat (pos finish - pos e) < nat (pos finish - pos cursor)" by simp
    moreover have "loop finish e (index + 1) (chunks @ [c]) = Some (Inr cs)"
      using eq less.prems(2) by simp
    ultimately obtain ws new where
      "cs = (chunks @ [c]) @ new" "\<forall>(a, b)\<in>set ws. ok a \<and> ok b"
      "tiles (pos e) (map (\<lambda>(a, b). (pos a, pos b)) ws) (pos finish)"
      "planned (\<lambda>i (a, b). make i (render a) (render b)) (index + 1) ws new"
      using less.hyps [OF _ e(1)] by blast
    with less.prems(1) c e show ?thesis
      by (intro exI [of _ "(cursor, e) # ws"] exI [of _ "c # new"]) auto
  qed
qed

end

section \<open>Advancing dates and date-times\<close>

definition date_ok :: "pydate \<Rightarrow> bool" where
  "date_ok d = (1 \<le> d \<and> d \<le> max_ordinal)"

definition date_step_ok :: "backfill_step \<Rightarrow> bool" where
  "date_step_ok s = (1 \<le> bs_count s \<and> bs_unit s \<noteq> Some ''h'')"

definition stamp_ok :: "bool \<Rightarrow> pydt \<Rightarrow> bool" where
  "stamp_ok aware d = (dt_valid d \<and> dt_aware d = aware)"

definition stamp_step_ok :: "backfill_step \<Rightarrow> bool" where
  "stamp_step_ok s = (1 \<le> bs_count s)"

lemma mk_date_c_Inr:
  "mk_date_c y m d = Inr n \<Longrightarrow> ymd_valid y m d \<and> n = ymd2ord y m d \<and> date_ok n"
  using ymd2ord_range [of y m d]
  by (auto simp: mk_date_c_def mk_date_def ymd_valid_def date_ok_def split: if_splits)

lemma date_add_days_Inr: "date_add_days d k = Inr n \<Longrightarrow> n = d + k \<and> date_ok n"
  by (auto simp: date_add_days_def date_ok_def split: if_splits)

text \<open>The month a positive number of months later comes later in the calendar.\<close>

lemma add_months_later:
  assumes "1 \<le> months" "add_months cursor months = Inr d'"
  shows "cursor < d' \<and> date_ok d'"
proof -
  obtain y m d where c: "ord2ymd cursor = (y, m, d)" by (cases "ord2ymd cursor") auto
  from ord2ymd_correct [OF c] have v: "ymd_valid y m d" "ymd2ord y m d = cursor" by auto
  define k where "k = m - 1 + months"
  define q r where "q = k div 12" and "r = k mod 12"
  have qr: "k = 12 * q + r" "0 \<le> r" "r < 12" by (simp_all add: q_def r_def)
  from assms(2) obtain dd where "mk_date_c (y + q) (r + 1) dd = Inr d'"
    by (auto simp: add_months_def c Let_def bind_res_eq_Inr k_def q_def r_def)
  from mk_date_c_Inr [OF this] have d': "ymd_valid (y + q) (r + 1) dd"
    "d' = ymd2ord (y + q) (r + 1) dd" "date_ok d'" by auto
  have m: "1 \<le> m" "m \<le> 12" using v(1) by (auto simp: ymd_valid_def)
  have later: "y < y + q \<or> (y = y + q \<and> m < r + 1)"
  proof (cases "q = 0")
    case True
    with qr k_def assms(1) show ?thesis by auto
  next
    case False
    have "0 \<le> k" using m assms(1) by (simp add: k_def)
    with qr False have "1 \<le> q" by linarith
    then show ?thesis by simp
  qed
  have "ymd2ord y m d < ymd2ord (y + q) (r + 1) dd"
    by (rule ymd2ord_less [OF v(1) d'(1)]) (use later in auto)
  with v(2) d' show ?thesis by simp
qed

lemma advance_date_later:
  assumes "date_step_ok s" "advance_date s d = Inr w"
  shows "date_ok w \<and> d < w"
  using assms add_months_later [of "bs_count s" d w] add_months_later [of "bs_count s * 12" d w]
  by (auto simp: advance_date_def date_step_ok_def step_unit_def Let_def
      dest!: date_add_days_Inr split: if_splits option.splits)

lemma dt_add_us_later:
  assumes "1 \<le> k" "dt_valid d" "dt_add_us d k = Inr w"
  shows "dt_valid w \<and> dt_aware w = dt_aware d \<and> dt_instant d < dt_instant w"
proof -
  define t where "t = dt_local d + k"
  have w: "w = d\<lparr>dt_day := t div us_day, dt_us := t mod us_day\<rparr>"
    and r: "1 \<le> t div us_day" "t div us_day \<le> max_ordinal"
    using assms(3) by (auto simp: dt_add_us_def Let_def t_def split: if_splits)
  have "0 < us_day" by (simp add: us_day_def)
  then have "0 \<le> t mod us_day" "t mod us_day < us_day" by simp_all
  with assms(2) r w have "dt_valid w" by (simp add: dt_valid_def)
  moreover have "dt_local w = t" by (simp add: w dt_local_def)
  ultimately show ?thesis
    using assms(1) w by (simp add: dt_instant_def t_def dt_aware_def)
qed

lemma add_months_dt_later:
  assumes "1 \<le> n" "dt_valid d" "add_months_dt d n = Inr w"
  shows "dt_valid w \<and> dt_aware w = dt_aware d \<and> dt_instant d < dt_instant w"
proof -
  from assms(3) obtain e where e: "add_months (dt_day d) n = Inr e" and w: "w = d\<lparr>dt_day := e\<rparr>"
    by (auto simp: add_months_dt_def bind_res_eq_Inr)
  from add_months_later [OF assms(1) e] have "dt_day d < e" "date_ok e" by auto
  moreover from this(1) have "dt_day d * us_day < e * us_day" by (simp add: us_day_def)
  ultimately show ?thesis
    using assms(2) w by (simp add: dt_valid_def date_ok_def dt_aware_def dt_instant_def dt_local_def)
qed

lemma advance_datetime_later:
  assumes "stamp_step_ok s" "stamp_ok z d" "advance_datetime s d = Inr w"
  shows "stamp_ok z w \<and> dt_instant d < dt_instant w"
proof -
  have n: "1 \<le> bs_count s" using assms(1) by (simp add: stamp_step_ok_def)
  then have "1 \<le> bs_count s * 3600 * us_second" "1 \<le> bs_count s * us_day" "1 \<le> 7 * bs_count s * us_day"
    "1 \<le> bs_count s * 12"
    by (simp_all add: us_second_def us_day_def)
  with n assms(2,3) show ?thesis
    by (auto simp: advance_datetime_def stamp_ok_def Let_def split: if_splits
        dest!: dt_add_us_later [rotated 2] add_months_dt_later [rotated 2])
qed

lemma dt_less_stamp_ok:
  "stamp_ok z a \<Longrightarrow> stamp_ok z b \<Longrightarrow> dt_less a b = Inr (dt_instant a < dt_instant b)"
  by (simp add: dt_less_def stamp_ok_def)

section \<open>What a chunk contains\<close>

definition int_literal :: "int \<Rightarrow> portable_literal" where
  "int_literal i = \<lparr>lit_kind = ''integer'', lit_value = LInt i\<rparr>"

definition date_literal :: "pydate \<Rightarrow> portable_literal" where
  "date_literal d = \<lparr>lit_kind = ''date'', lit_value = LDate d\<rparr>"

definition uuid_literal :: "int \<Rightarrow> portable_literal" where
  "uuid_literal n = \<lparr>lit_kind = ''uuid'', lit_value = LUuid n\<rparr>"

definition stamp_literal :: "pydt \<Rightarrow> portable_literal" where
  "stamp_literal d = \<lparr>lit_kind = (if dt_aware d then ''timestamptz'' else ''timestamp''), lit_value = LStamp d\<rparr>"

lemmas literal_defs = int_literal_def date_literal_def uuid_literal_def stamp_literal_def

lemma mk_chunk_fields:
  assumes "mk_chunk sha spec run_key i a b = Inr c"
  shows "bc_index c = i" "bc_key c = chunk_key sha run_key (bc_index c) (bc_scope c)"
    "build_backfill_chunk_scope spec a b = Inr (bc_scope c)"
  using assms by (auto simp: mk_chunk_def bind_res_eq_Inr)

lemma chunk_scope_bounds:
  assumes "build_backfill_chunk_scope spec a b = Inr r"
  obtains l u where "chunk_literals (cs_kind spec) a b = Inr (l, u)"
    "rs_lower r = Some \<lparr>rb_value = l, rb_inclusive = True\<rparr>"
    "rs_upper r = Some \<lparr>rb_value = u, rb_inclusive = (cs_kind spec = ''integer'')\<rparr>"
  using assms by (auto simp: build_backfill_chunk_scope_def bind_res_eq_Inr dest!: mk_range_scope_fields)

lemma integer_chunk_contains:
  assumes "mk_chunk sha spec run_key i (py_str_int a) (py_str_int b) = Inr c" "cs_kind spec = ''integer''"
  shows "scope_contains (bc_scope c) (int_literal x) = in_window x (a, b + 1)"
  using mk_chunk_fields(3) [OF assms(1)]
proof (rule chunk_scope_bounds)
  fix l u
  assume lu: "chunk_literals (cs_kind spec) (py_str_int a) (py_str_int b) = Inr (l, u)"
    "rs_lower (bc_scope c) = Some \<lparr>rb_value = l, rb_inclusive = True\<rparr>"
    "rs_upper (bc_scope c) = Some \<lparr>rb_value = u, rb_inclusive = (cs_kind spec = ''integer'')\<rparr>"
  from lu(1) assms(2) have "l = int_literal a" "u = int_literal b"
    by (auto simp: chunk_literals_def bind_res_eq_Inr int_boundary_def int_literal_def
        dest!: py_int_str_Some split: option.splits)
  with lu(2,3) assms(2) show ?thesis
    by (auto simp: scope_contains_defs lit_less_def in_window_def int_literal_def)
qed

lemma date_chunk_contains:
  assumes "mk_chunk sha spec run_key i (date_iso a) (date_iso b) = Inr c" "cs_kind spec = ''date''"
    "date_ok a" "date_ok b"
  shows "scope_contains (bc_scope c) (date_literal x) = in_window x (a, b)"
  using mk_chunk_fields(3) [OF assms(1)]
proof (rule chunk_scope_bounds)
  fix l u
  assume lu: "chunk_literals (cs_kind spec) (date_iso a) (date_iso b) = Inr (l, u)"
    "rs_lower (bc_scope c) = Some \<lparr>rb_value = l, rb_inclusive = True\<rparr>"
    "rs_upper (bc_scope c) = Some \<lparr>rb_value = u, rb_inclusive = (cs_kind spec = ''integer'')\<rparr>"
  from lu(1) assms(2-4) have "l = date_literal a" "u = date_literal b"
    by (auto simp: chunk_literals_def bind_res_eq_Inr parse_date_boundary_def date_literal_def date_ok_def)
  with lu(2,3) assms(2) show ?thesis
    by (auto simp: scope_contains_defs lit_less_def in_window_def date_literal_def)
qed

lemma stamp_chunk_contains:
  assumes "mk_chunk sha spec run_key i (dt_iso (CHR '' '') a) (dt_iso (CHR '' '') b) = Inr c"
    "cs_kind spec = ''timestamp''" "dt_valid a" "dt_valid b"
  shows "scope_contains (bc_scope c) (stamp_literal x) = in_window (dt_instant x) (dt_instant a, dt_instant b)"
  using mk_chunk_fields(3) [OF assms(1)]
proof (rule chunk_scope_bounds)
  fix l u
  assume lu: "chunk_literals (cs_kind spec) (dt_iso (CHR '' '') a) (dt_iso (CHR '' '') b) = Inr (l, u)"
    "rs_lower (bc_scope c) = Some \<lparr>rb_value = l, rb_inclusive = True\<rparr>"
    "rs_upper (bc_scope c) = Some \<lparr>rb_value = u, rb_inclusive = (cs_kind spec = ''integer'')\<rparr>"
  from lu(1) assms(2-4) obtain k where "mk_literal k (LStamp a) = Inr l" "mk_literal k (LStamp b) = Inr u"
    "k = ''timestamp'' \<or> k = ''timestamptz''"
    by (auto simp: chunk_literals_def bind_res_eq_Inr parse_timestamp_boundary_def
        timestamp_literal_kind_def split: if_splits)
  with mk_literal_stamp obtain ua ub where "lit_value l = LStamp ua" "dt_instant ua = dt_instant a"
    "lit_value u = LStamp ub" "dt_instant ub = dt_instant b" by metis
  with lu(2,3) assms(2) show ?thesis
    by (auto simp: scope_contains_defs lit_less_def in_window_def stamp_literal_def)
qed

text \<open>A chunk whose window does not move forward is refused by its scope.\<close>

lemma mk_range_scope_forward:
  assumes "mk_range_scope column (Some \<lparr>rb_value = l, rb_inclusive = True\<rparr>)
      (Some \<lparr>rb_value = u, rb_inclusive = False\<rparr>) = Inr r"
  shows "lit_less l u"
  using assms
  by (auto simp: mk_range_scope_def mk_versioned_range_def validate_range_def blocked_def bind_res_eq_Inr Let_def split: if_splits)

lemma chunk_scope_forward:
  assumes "build_backfill_chunk_scope spec a b = Inr r" "cs_kind spec \<noteq> ''integer''"
  obtains l u where "chunk_literals (cs_kind spec) a b = Inr (l, u)" "lit_less l u"
  using assms by (auto simp: build_backfill_chunk_scope_def bind_res_eq_Inr dest!: mk_range_scope_forward)

lemma date_chunk_forward:
  assumes "mk_chunk sha (spec\<lparr>cs_kind := ''date''\<rparr>) run_key i (date_iso a) (date_iso b) = Inr c"
    "date_ok a" "date_ok b"
  shows "a < b"
  using chunk_scope_forward [OF mk_chunk_fields(3) [OF assms(1)]] assms(2,3)
  by (auto simp: chunk_literals_def bind_res_eq_Inr parse_date_boundary_def date_ok_def lit_less_def)

lemma stamp_chunk_forward:
  assumes "mk_chunk sha (spec\<lparr>cs_kind := ''timestamp''\<rparr>) run_key i
      (dt_iso (CHR '' '') a) (dt_iso (CHR '' '') b) = Inr c"
    "dt_valid a" "dt_valid b"
  shows "dt_instant a < dt_instant b"
proof -
  obtain l u where lu: "chunk_literals ''timestamp'' (dt_iso (CHR '' '') a) (dt_iso (CHR '' '') b) = Inr (l, u)"
    "lit_less l u"
    using chunk_scope_forward [OF mk_chunk_fields(3) [OF assms(1)]] by auto
  from lu(1) assms(2,3) obtain k where "mk_literal k (LStamp a) = Inr l" "mk_literal k (LStamp b) = Inr u"
    "k = ''timestamp'' \<or> k = ''timestamptz''"
    by (auto simp: chunk_literals_def bind_res_eq_Inr parse_timestamp_boundary_def
        timestamp_literal_kind_def split: if_splits)
  with mk_literal_stamp obtain ua ub where "lit_value l = LStamp ua" "dt_instant ua = dt_instant a"
    "lit_value u = LStamp ub" "dt_instant ub = dt_instant b" by metis
  with lu(2) show ?thesis by (simp add: lit_less_def)
qed

section \<open>Dates and date-times are time axes\<close>

lemma add_months_ok: "add_months d n = Inr w \<Longrightarrow> date_ok w"
  by (auto simp: add_months_def Let_def bind_res_eq_Inr dest: mk_date_c_Inr split: prod.splits)

lemma advance_date_ok: "advance_date s d = Inr w \<Longrightarrow> date_ok w"
  by (auto simp: advance_date_def Let_def dest: date_add_days_Inr add_months_ok split: if_splits)

lemma dt_add_us_ok:
  assumes "dt_valid d" "dt_add_us d k = Inr w"
  shows "dt_valid w \<and> dt_aware w = dt_aware d"
proof -
  have "0 < us_day" by (simp add: us_day_def)
  with assms show ?thesis
    by (auto simp: dt_add_us_def dt_valid_def dt_aware_def Let_def split: if_splits)
qed

lemma advance_datetime_ok: "stamp_ok z d \<Longrightarrow> advance_datetime s d = Inr w \<Longrightarrow> stamp_ok z w"
  by (auto simp: advance_datetime_def stamp_ok_def Let_def add_months_dt_def bind_res_eq_Inr
      dt_valid_def date_ok_def dt_aware_def dest!: dt_add_us_ok [rotated] add_months_ok split: if_splits)

interpretation date_axis: time_axis date_ok "\<lambda>d. d" date_less "advance_date s" date_iso
    "mk_chunk sha (spec\<lparr>cs_kind := ''date''\<rparr>) run_key" for s sha spec run_key
  by unfold_locales (simp_all add: date_less_def advance_date_ok date_chunk_forward)

interpretation stamp_axis: time_axis "stamp_ok z" dt_instant dt_less "advance_datetime s"
    "dt_iso (CHR '' '')" "mk_chunk sha (spec\<lparr>cs_kind := ''timestamp''\<rparr>) run_key" for z s sha spec run_key
  by unfold_locales
    (erule (1) dt_less_stamp_ok, erule (1) advance_datetime_ok,
      auto simp: stamp_ok_def intro: stamp_chunk_forward)

section \<open>The integer loop\<close>

lemma integer_loop_returns:
  assumes "1 \<le> count"
  shows "integer_loop mk count finish cursor index chunks \<noteq> None"
proof (induction "nat (finish + 1 - cursor)" arbitrary: cursor index chunks rule: less_induct)
  case less
  have "integer_loop mk count finish (min (cursor + count - 1) finish + 1) (index + 1) chunks' \<noteq> None"
    if "cursor \<le> finish" for chunks'
    using that assms by (intro less.hyps) auto
  then show ?case
    by (subst integer_loop.simps) (auto simp: Let_def split: sum.split)
qed

lemma integer_loop_tiles:
  assumes "1 \<le> count" "integer_loop mk count finish cursor index chunks = Some (Inr cs)"
  shows "\<exists>ws new. cs = chunks @ new
    \<and> tiles cursor (map (\<lambda>(a, b). (a, b + 1)) ws) (finish + 1)
    \<and> planned (\<lambda>i (a, b). mk i (py_str_int a) (py_str_int b)) index ws new"
  using assms(2)
proof (induction "nat (finish + 1 - cursor)" arbitrary: cursor index chunks rule: less_induct)
  case less
  show ?case
  proof (cases "cursor \<le> finish")
    case False
    with less.prems have "cs = chunks" by (simp add: integer_loop.simps)
    with False show ?thesis by (intro exI [of _ "[]"]) auto
  next
    case True
    define e where "e = min (cursor + count - 1) finish"
    have e: "cursor \<le> e" "e \<le> finish" using True assms(1) by (auto simp: e_def)
    from less.prems True obtain c where c: "mk index (py_str_int cursor) (py_str_int e) = Inr c"
      and rest: "integer_loop mk count finish (e + 1) (index + 1) (chunks @ [c]) = Some (Inr cs)"
      by (subst (asm) integer_loop.simps) (auto simp: Let_def e_def split: sum.splits)
    have "nat (finish + 1 - (e + 1)) < nat (finish + 1 - cursor)" using e by simp
    from less.hyps [OF this rest] obtain ws new where "cs = (chunks @ [c]) @ new"
      "tiles (e + 1) (map (\<lambda>(a, b). (a, b + 1)) ws) (finish + 1)"
      "planned (\<lambda>i (a, b). mk i (py_str_int a) (py_str_int b)) (index + 1) ws new" by blast
    with c e show ?thesis
      by (intro exI [of _ "(cursor, e) # ws"] exI [of _ "c # new"]) auto
  qed
qed

section \<open>Plans\<close>

lemma set_kind_same: "cs_kind spec = k \<Longrightarrow> spec\<lparr>cs_kind := k\<rparr> = spec"
  by simp

lemma plan_chunks_Inr:
  assumes "plan_chunks sha spec run_key = Some (Inr cs)"
  shows "int (length cs) \<le> cs_max_chunks spec"
    "cs_kind spec = ''uuid'' \<Longrightarrow> uuid_chunks sha spec run_key = Inr cs"
    "cs_kind spec \<noteq> ''uuid'' \<Longrightarrow> \<exists>step. parse_step (cs_step spec) (cs_kind spec) = Inr step
      \<and> (if cs_kind spec = ''integer'' then integer_chunks sha spec step run_key
         else if cs_kind spec = ''date'' then date_chunks sha spec step run_key
         else timestamp_chunks sha spec step run_key) = Some (Inr cs)"
  using assms
  by (auto simp: plan_chunks_def Let_def bind_res_eq_Inr split: option.splits if_split_asm sum.splits)

lemma date_chunks_tiles:
  assumes "date_chunks sha spec step run_key = Some (Inr cs)" "cs_kind spec = ''date''"
    "parse_date_boundary (cs_start spec) = Inr a" "parse_date_boundary (cs_end spec) = Inr b"
  shows "\<exists>ws. (\<forall>(u, v)\<in>set ws. date_ok u \<and> date_ok v) \<and> tiles a (map (\<lambda>(u, v). (u, v)) ws) (b + 1)
    \<and> planned (\<lambda>i (u, v). mk_chunk sha spec run_key i (date_iso u) (date_iso v)) 1 ws cs"
proof -
  from assms(1,3,4) have "date_ok (b + 1)" and
    l: "temporal_loop date_less (advance_date step) date_iso (mk_chunk sha spec run_key) (b + 1) a 1 []
        = Some (Inr cs)"
    by (auto simp: date_chunks_def bind_res_eq_Inr split: sum.splits dest: date_add_days_Inr)
  moreover have "date_ok a"
    using assms(3) date_fromisoformat_range by (simp add: parse_date_boundary_def date_ok_def)
  ultimately show ?thesis
    using date_axis.loop_tiles [of "b + 1" a step sha spec run_key 1 "[]" cs]
    by (simp add: set_kind_same [OF assms(2)])
qed

lemma parse_timestamp_boundary_valid: "parse_timestamp_boundary s = Inr d \<Longrightarrow> dt_valid d"
  by (simp add: parse_timestamp_boundary_def datetime_fromisoformat_valid)

lemma timestamp_chunks_tiles:
  assumes "timestamp_chunks sha spec step run_key = Some (Inr cs)" "cs_kind spec = ''timestamp''"
    "parse_timestamp_boundary (cs_start spec) = Inr a" "parse_timestamp_boundary (cs_end spec) = Inr b"
  shows "\<exists>ws. (\<forall>(u, v)\<in>set ws. dt_valid u \<and> dt_valid v)
    \<and> tiles (dt_instant a) (map (\<lambda>(u, v). (dt_instant u, dt_instant v)) ws) (dt_instant b)
    \<and> planned (\<lambda>i (u, v). mk_chunk sha spec run_key i (dt_iso (CHR '' '') u) (dt_iso (CHR '' '') v)) 1 ws cs"
proof -
  from assms(1,3,4) have
    l: "temporal_loop dt_less (advance_datetime step) (dt_iso (CHR '' '')) (mk_chunk sha spec run_key) b a 1 []
        = Some (Inr cs)"
    by (simp add: timestamp_chunks_def)
  then have "dt_aware a = dt_aware b"
    by (subst (asm) temporal_loop.simps) (simp add: dt_less_def split: if_splits)
  then have "stamp_ok (dt_aware b) a" "stamp_ok (dt_aware b) b"
    using assms(3,4) parse_timestamp_boundary_valid by (simp_all add: stamp_ok_def)
  from stamp_axis.loop_tiles [OF this(2,1), of step sha spec run_key 1 "[]" cs] l show ?thesis
    by (force simp: set_kind_same [OF assms(2)] stamp_ok_def)
qed

lemma integer_chunks_tiles:
  assumes "integer_chunks sha spec step run_key = Some (Inr cs)"
    "parse_step (cs_step spec) (cs_kind spec) = Inr step" "cs_kind spec = ''integer''"
    "py_int (cs_start spec) = Some a" "py_int (cs_end spec) = Some b"
  shows "\<exists>ws. tiles a (map (\<lambda>(u, v). (u, v + 1)) ws) (b + 1)
    \<and> planned (\<lambda>i (u, v). mk_chunk sha spec run_key i (py_str_int u) (py_str_int v)) 1 ws cs"
proof -
  have "1 \<le> bs_count step"
    using parse_step_count [OF assms(2)] assms(3) by simp
  moreover from assms(1,4,5) have
    "integer_loop (mk_chunk sha spec run_key) (bs_count step) b a 1 [] = Some (Inr cs)"
    by (simp add: integer_chunks_def int_boundary_def)
  ultimately show ?thesis
    using integer_loop_tiles [of "bs_count step" "mk_chunk sha spec run_key" b a 1 "[]" cs] by simp
qed

text \<open>The UUID buckets: the boundaries grow from 0 to the cardinality of the key space.\<close>

definition uuid_cut :: "int \<Rightarrow> nat \<Rightarrow> int" where
  "uuid_cut buckets k = int k * uuid_cardinality div buckets"

definition uuid_window :: "int \<Rightarrow> nat \<Rightarrow> int \<times> int" where
  "uuid_window buckets k = (uuid_cut buckets k, uuid_cut buckets (Suc k))"

lemma uuid_cut_mono: "0 < buckets \<Longrightarrow> j \<le> k \<Longrightarrow> uuid_cut buckets j \<le> uuid_cut buckets k"
  by (simp add: uuid_cut_def zdiv_mono1 uuid_cardinality_def)

lemma uuid_windows_tile:
  assumes "0 < buckets"
  shows "tiles 0 (map (uuid_window buckets) [0..<n]) (uuid_cut buckets n)"
proof (induction n)
  case 0
  then show ?case by (simp add: uuid_cut_def)
next
  case (Suc n)
  have "0 \<le> uuid_cut buckets n"
    using uuid_cut_mono [OF assms, of 0 n] by (simp add: uuid_cut_def)
  with Suc show ?case
    using tiles_append_one [of 0 _ "uuid_cut buckets n" "uuid_cut buckets (Suc n)"]
      uuid_cut_mono [OF assms, of n "Suc n"] by (simp add: uuid_window_def)
qed

lemma planned_map_res:
  assumes "map_res f ks = Inr cs" "\<And>j. j < length ks \<Longrightarrow> mk (i + int j) (ks ! j) = f (ks ! j)"
  shows "planned mk i ks cs"
  using assms
proof (induction ks arbitrary: i cs)
  case (Cons k ks)
  then obtain c cs' where c: "f k = Inr c" "map_res f ks = Inr cs'" "cs = c # cs'"
    by (auto simp: bind_res_eq_Inr)
  have "planned mk (i + 1) ks cs'"
  proof (rule Cons.IH [OF c(2)])
    fix j assume "j < length ks"
    with Cons.prems(2) [of "Suc j"] show "mk (i + 1 + int j) (ks ! j) = f (ks ! j)"
      by (simp add: add.assoc)
  qed
  moreover have "mk i k = Inr c" using Cons.prems(2) [of 0] c(1) by simp
  ultimately show ?case using c(3) by simp
qed simp

lemma uuid_chunk_contains:
  assumes "uuid_chunk sha spec run_key buckets k = Inr c" "0 < buckets" "int k < buckets"
    "0 \<le> x" "x < uuid_cardinality"
  shows "scope_contains (bc_scope c) (uuid_literal x) = in_window x (uuid_window buckets k)"
proof -
  define last where "last = (int k = buckets - 1)"
  define u where "u = (if last then uuid_cardinality - 1 else uuid_cut buckets (Suc k))"
  have "rs_lower (bc_scope c) = Some \<lparr>rb_value = uuid_literal (uuid_cut buckets k), rb_inclusive = True\<rparr>"
    "rs_upper (bc_scope c) = Some \<lparr>rb_value = uuid_literal u, rb_inclusive = last\<rparr>"
    using assms(1)
    by (auto simp: uuid_chunk_def Let_def bind_res_eq_Inr uuid_literal_def u_def last_def uuid_cut_def
        algebra_simps dest!: mk_range_scope_fields split: if_splits)
  moreover have "uuid_cut buckets (Suc k) = uuid_cardinality" if last
    using that assms(2) by (simp add: last_def uuid_cut_def)
  ultimately show ?thesis
    using assms(4,5)
    by (auto simp: scope_contains_defs lit_less_def in_window_def uuid_window_def uuid_literal_def u_def)
qed

lemma takeWhile_str_int: "takeWhile (\<lambda>c. c \<noteq> CHR '':'') (py_str_int i @ CHR '':'' # s) = py_str_int i"
proof -
  have "\<forall>c\<in>set (py_str_int i). c \<noteq> CHR '':''"
    using nat_digits_digit by (auto simp: py_str_int_def)
  then show ?thesis by (simp add: takeWhile_append2)
qed

lemma chunk_key_index: "chunk_key sha run_key i r = chunk_key sha run_key j r' \<Longrightarrow> i = j"
proof -
  assume "chunk_key sha run_key i r = chunk_key sha run_key j r'"
  then have "py_str_int i @ CHR '':'' # (''scope:'' @ scope_sha256 sha r)
      = py_str_int j @ CHR '':'' # (''scope:'' @ scope_sha256 sha r')"
    by (simp add: chunk_key_def)
  then have "py_str_int i = py_str_int j" using takeWhile_str_int by metis
  then show "i = j" by simp
qed

lemma uuid_chunks_planned:
  assumes "uuid_chunks sha spec run_key = Inr cs" "cs_buckets spec = Some b"
  shows "planned (\<lambda>i k. uuid_chunk sha spec run_key b (nat (i - 1))) 1 [0..<nat b] cs"
    "planned (\<lambda>i k. uuid_chunk sha spec run_key b k) 1 [0..<nat b] cs"
  using assms by (auto simp: uuid_chunks_def intro: planned_map_res)

lemma uuid_chunk_fields:
  "uuid_chunk sha spec run_key b k = Inr c \<Longrightarrow> bc_index c = int k + 1
    \<and> bc_key c = chunk_key sha run_key (bc_index c) (bc_scope c)"
  by (auto simp: uuid_chunk_def Let_def bind_res_eq_Inr)

lemma planned_imp:
  "planned mk k ws cs \<Longrightarrow> (\<And>i w c. k \<le> i \<Longrightarrow> mk i w = Inr c \<Longrightarrow> mk' i w = Inr c) \<Longrightarrow> planned mk' k ws cs"
  by (induction mk k ws cs rule: planned.induct) auto

definition numbered :: "(string \<Rightarrow> string) \<Rightarrow> string \<Rightarrow> bf_chunk list \<Rightarrow> bool" where
  "numbered sha run_key cs = (map bc_index cs = [1..int (length cs)]
     \<and> (\<forall>c\<in>set cs. bc_key c = chunk_key sha run_key (bc_index c) (bc_scope c)))"

lemma planned_numbered:
  assumes "planned mk 1 ws cs"
    "\<And>i w c. mk i w = Inr c \<Longrightarrow> bc_index c = i \<and> bc_key c = chunk_key sha run_key (bc_index c) (bc_scope c)"
  shows "numbered sha run_key cs"
  using planned_indexes [OF assms(1)] planned_keys [OF assms(1), of sha run_key] assms(2)
  by (auto simp: numbered_def)

lemma planned_windows_numbered:
  assumes "planned (\<lambda>i (u, v). mk_chunk sha spec run_key i (f u) (g v)) 1 ws cs"
  shows "numbered sha run_key cs"
  by (rule planned_numbered [OF assms]) (auto dest: mk_chunk_fields split: prod.splits)

text \<open>Whatever the kind, the chunks are numbered from 1 and carry their keys.\<close>

lemma plan_chunks_numbered:
  assumes "plan_chunks sha spec run_key = Some (Inr cs)" "cs_kind spec \<in> set supported_chunk_kinds"
  shows "numbered sha run_key cs"
proof -
  consider "cs_kind spec = ''uuid''" | "cs_kind spec = ''integer''" | "cs_kind spec = ''date''"
    | "cs_kind spec = ''timestamp''"
    using assms(2) by (auto simp: supported_chunk_kinds_def)
  then show ?thesis
  proof cases
    case 1
    with plan_chunks_Inr(2) [OF assms(1)] obtain b where "uuid_chunks sha spec run_key = Inr cs" "cs_buckets spec = Some b"
      by (auto simp: uuid_chunks_def split: option.splits)
    from uuid_chunks_planned(1) [OF this]
    have "planned (\<lambda>i k. if i < 1 then Inl (KeyError []) else uuid_chunk sha spec run_key b (nat (i - 1))) 1 [0..<nat b] cs"
      by (rule planned_imp) simp
    then show ?thesis
      by (rule planned_numbered) (auto dest!: uuid_chunk_fields split: if_splits)
  next
    case 2
    with plan_chunks_Inr(3) [OF assms(1)] obtain step where
      s: "parse_step (cs_step spec) (cs_kind spec) = Inr step" "integer_chunks sha spec step run_key = Some (Inr cs)" by auto
    then obtain a b where "py_int (cs_start spec) = Some a" "py_int (cs_end spec) = Some b"
      by (auto simp: integer_chunks_def int_boundary_def split: sum.splits option.splits)
    from integer_chunks_tiles [OF s(2,1) 2 this] show ?thesis using planned_windows_numbered by blast
  next
    case 3
    with plan_chunks_Inr(3) [OF assms(1)] obtain step where s: "date_chunks sha spec step run_key = Some (Inr cs)" by auto
    then obtain a b where "parse_date_boundary (cs_start spec) = Inr a" "parse_date_boundary (cs_end spec) = Inr b"
      by (auto simp: date_chunks_def bind_res_eq_Inr split: sum.splits)
    from date_chunks_tiles [OF s 3 this] show ?thesis using planned_windows_numbered by blast
  next
    case 4
    with plan_chunks_Inr(3) [OF assms(1)] obtain step where s: "timestamp_chunks sha spec step run_key = Some (Inr cs)" by auto
    then obtain a b where "parse_timestamp_boundary (cs_start spec) = Inr a" "parse_timestamp_boundary (cs_end spec) = Inr b"
      by (auto simp: timestamp_chunks_def bind_res_eq_Inr split: sum.splits)
    from timestamp_chunks_tiles [OF s 4 this] show ?thesis using planned_windows_numbered by blast
  qed
qed

lemma numbered_distinct_keys:
  assumes "numbered sha run_key cs"
  shows "distinct (map bc_key cs)"
proof -
  have d: "distinct (map bc_index cs)" using assms by (simp add: numbered_def)
  then have i: "inj_on bc_index (set cs)" and "distinct cs" by (simp_all add: distinct_map)
  moreover have "inj_on bc_key (set cs)"
  proof (rule inj_onI)
    fix c e assume ce: "c \<in> set cs" "e \<in> set cs" "bc_key c = bc_key e"
    then have "chunk_key sha run_key (bc_index c) (bc_scope c) = chunk_key sha run_key (bc_index e) (bc_scope e)"
      using assms by (simp add: numbered_def)
    from inj_onD [OF i chunk_key_index [OF this] ce(1,2)] show "c = e" .
  qed
  ultimately show ?thesis by (simp add: distinct_map)
qed

section \<open>Examples\<close>

text \<open>A digest with the right shape, and a specification of each kind.\<close>

definition sha_zero :: "string \<Rightarrow> string" where
  "sha_zero s = replicate 4 (CHR ''0'')"

definition plan_succeeds :: "chunk_spec \<Rightarrow> bool" where
  "plan_succeeds spec =
     (case plan_chunks sha_zero spec ''rk'' of Some (Inr cs) \<Rightarrow> cs \<noteq> [] | _ \<Rightarrow> False)"

definition example_spec :: "string \<Rightarrow> string \<Rightarrow> string \<Rightarrow> string \<Rightarrow> chunk_spec" where
  "example_spec kind start finish step =
     \<lparr>cs_column = ''k'', cs_start = start, cs_end = finish, cs_step = step, cs_kind = kind,
      cs_max_chunks = 3, cs_buckets = (if kind = ''uuid'' then Some 2 else None)\<rparr>"

definition example_integer :: chunk_spec where
  "example_integer = example_spec ''integer'' ''3'' ''7'' ''4''"

definition example_date :: chunk_spec where
  "example_date = example_spec ''date'' ''2024-01-31'' ''2024-02-29'' ''1mo''"

definition example_timestamp :: chunk_spec where
  "example_timestamp = example_spec ''timestamp'' ''2024-01-31 02:00:00+02:00'' ''2024-01-31T03:00:00Z'' ''2h''"

definition example_uuid :: chunk_spec where
  "example_uuid = example_spec ''uuid'' [] [] ''2''"

lemma plan_succeedsE:
  assumes "plan_succeeds spec"
  obtains cs where "plan_chunks sha_zero spec ''rk'' = Some (Inr cs)" "cs \<noteq> []"
  using assms by (auto simp: plan_succeeds_def split: option.splits sum.splits)

lemma example_integer_plan: "plan_succeeds example_integer" by code_simp
lemma example_date_plan: "plan_succeeds example_date" by code_simp
lemma example_timestamp_plan: "plan_succeeds example_timestamp" by code_simp
lemma example_uuid_plan: "plan_succeeds example_uuid" by code_simp

section \<open>Properties\<close>

text \<open>
  C10: the chunks of an integer plan partition the declared interval. An integer between the
  two boundaries, both included, is selected by the scope of exactly one chunk; any other
  integer by none.
\<close>

theorem integer_plan_partitions:
  assumes "plan_chunks sha spec run_key = Some (Inr cs)" "cs_kind spec = ''integer''"
    "py_int (cs_start spec) = Some a" "py_int (cs_end spec) = Some b"
  shows "length (filter (\<lambda>c. scope_contains (bc_scope c) (int_literal x)) cs)
    = (if a \<le> x \<and> x \<le> b then 1 else 0)"
proof -
  from plan_chunks_Inr(3) [OF assms(1)] assms(2) obtain step where
    s: "parse_step (cs_step spec) (cs_kind spec) = Inr step" "integer_chunks sha spec step run_key = Some (Inr cs)"
    by auto
  from integer_chunks_tiles [OF s(2,1) assms(2-4)] obtain ws where
    "tiles a (map (\<lambda>(u, v). (u, v + 1)) ws) (b + 1)"
    "planned (\<lambda>i (u, v). mk_chunk sha spec run_key i (py_str_int u) (py_str_int v)) 1 ws cs" by blast
  then have "length (filter (\<lambda>c. scope_contains (bc_scope c) (int_literal x)) cs)
      = (if a \<le> x \<and> x < b + 1 then 1 else 0)"
    by (elim planned_cover [rotated]) (auto dest: integer_chunk_contains [OF _ assms(2)])
  then show ?thesis by auto
qed

theorem integer_plan_partitions_witness:
  "\<exists>cs. plan_chunks sha_zero example_integer ''rk'' = Some (Inr cs)
     \<and> length (filter (\<lambda>c. scope_contains (bc_scope c) (int_literal 7)) cs) = 1"
proof -
  obtain cs where p: "plan_chunks sha_zero example_integer ''rk'' = Some (Inr cs)"
    using plan_succeedsE [OF example_integer_plan] by blast
  have "cs_kind example_integer = ''integer''" "py_int (cs_start example_integer) = Some 3"
    "py_int (cs_end example_integer) = Some 7" by code_simp+
  from integer_plan_partitions [OF p this, of 7] p show ?thesis by auto
qed

text \<open>
  C1: the chunks of a date plan partition the declared days. The \<open>to\<close> day is included: every
  day from the first to the last boundary is in exactly one chunk, any other day in none.
\<close>

theorem date_plan_partitions:
  assumes "plan_chunks sha spec run_key = Some (Inr cs)" "cs_kind spec = ''date''"
    "parse_date_boundary (cs_start spec) = Inr a" "parse_date_boundary (cs_end spec) = Inr b"
  shows "length (filter (\<lambda>c. scope_contains (bc_scope c) (date_literal d)) cs)
    = (if a \<le> d \<and> d \<le> b then 1 else 0)"
proof -
  from plan_chunks_Inr(3) [OF assms(1)] assms(2) obtain step where
    s: "date_chunks sha spec step run_key = Some (Inr cs)" by auto
  from date_chunks_tiles [OF s assms(2-4)] obtain ws where
    ok: "\<forall>(u, v)\<in>set ws. date_ok u \<and> date_ok v" and t: "tiles a (map (\<lambda>(u, v). (u, v)) ws) (b + 1)"
    "planned (\<lambda>i (u, v). mk_chunk sha spec run_key i (date_iso u) (date_iso v)) 1 ws cs" by blast
  then have "length (filter (\<lambda>c. scope_contains (bc_scope c) (date_literal d)) cs)
      = (if a \<le> d \<and> d < b + 1 then 1 else 0)"
    by (elim planned_cover [rotated]) (use ok in \<open>auto dest: date_chunk_contains [OF _ assms(2)]\<close>)
  then show ?thesis by auto
qed

theorem date_plan_partitions_witness:
  "\<exists>cs. plan_chunks sha_zero example_date ''rk'' = Some (Inr cs)
     \<and> length (filter (\<lambda>c. scope_contains (bc_scope c) (date_literal (ymd2ord 2024 2 29))) cs) = 1"
proof -
  obtain cs where p: "plan_chunks sha_zero example_date ''rk'' = Some (Inr cs)"
    using plan_succeedsE [OF example_date_plan] by blast
  have "cs_kind example_date = ''date''"
    "parse_date_boundary (cs_start example_date) = Inr (ymd2ord 2024 1 31)"
    "parse_date_boundary (cs_end example_date) = Inr (ymd2ord 2024 2 29)" by code_simp+
  from date_plan_partitions [OF p this, of "ymd2ord 2024 2 29"] p
  have "length (filter (\<lambda>c. scope_contains (bc_scope c) (date_literal (ymd2ord 2024 2 29))) cs)
      = (if ymd2ord 2024 1 31 \<le> ymd2ord 2024 2 29 then 1 else 0)" by simp
  moreover have "ymd2ord 2024 1 31 \<le> ymd2ord 2024 2 29" by code_simp
  ultimately show ?thesis using p by auto
qed

text \<open>
  C14: the chunks of a timestamp plan partition the declared half-open interval of instants,
  with and without time zones: a date-time at or after the first boundary and before the
  second is in exactly one chunk, any other in none.
\<close>

theorem timestamp_plan_partitions:
  assumes "plan_chunks sha spec run_key = Some (Inr cs)" "cs_kind spec = ''timestamp''"
    "parse_timestamp_boundary (cs_start spec) = Inr a" "parse_timestamp_boundary (cs_end spec) = Inr b"
  shows "length (filter (\<lambda>c. scope_contains (bc_scope c) (stamp_literal d)) cs)
    = (if dt_instant a \<le> dt_instant d \<and> dt_instant d < dt_instant b then 1 else 0)"
proof -
  from plan_chunks_Inr(3) [OF assms(1)] assms(2) obtain step where
    s: "timestamp_chunks sha spec step run_key = Some (Inr cs)" by auto
  from timestamp_chunks_tiles [OF s assms(2-4)] obtain ws where
    ok: "\<forall>(u, v)\<in>set ws. dt_valid u \<and> dt_valid v"
    and "tiles (dt_instant a) (map (\<lambda>(u, v). (dt_instant u, dt_instant v)) ws) (dt_instant b)"
    "planned (\<lambda>i (u, v). mk_chunk sha spec run_key i (dt_iso (CHR '' '') u) (dt_iso (CHR '' '') v)) 1 ws cs"
    by blast
  then show ?thesis
    by (elim planned_cover [rotated]) (use ok in \<open>auto dest: stamp_chunk_contains [OF _ assms(2)]\<close>)
qed

theorem timestamp_plan_partitions_witness:
  "\<exists>cs d. plan_chunks sha_zero example_timestamp ''rk'' = Some (Inr cs)
     \<and> parse_timestamp_boundary (cs_start example_timestamp) = Inr d
     \<and> length (filter (\<lambda>c. scope_contains (bc_scope c) (stamp_literal d)) cs) = 1"
proof -
  obtain cs where p: "plan_chunks sha_zero example_timestamp ''rk'' = Some (Inr cs)"
    using plan_succeedsE [OF example_timestamp_plan] by blast
  define a b where "a = \<lparr>dt_day = 738916, dt_us = 7200000000, dt_off = Some 7200000000\<rparr>"
    and "b = \<lparr>dt_day = 738916, dt_us = 10800000000, dt_off = Some 0\<rparr>"
  have k: "cs_kind example_timestamp = ''timestamp''" by code_simp
  have a: "parse_timestamp_boundary (cs_start example_timestamp) = Inr a"
    and b: "parse_timestamp_boundary (cs_end example_timestamp) = Inr b"
    unfolding a_def b_def by code_simp+
  have "dt_instant a < dt_instant b" unfolding a_def b_def by code_simp
  with timestamp_plan_partitions [OF p k a b, of a] p a show ?thesis by auto
qed

text \<open>
  The chunks of a UUID plan partition the whole key space: every 128-bit identifier is
  in exactly one bucket.
\<close>

theorem uuid_plan_partitions:
  assumes "plan_chunks sha spec run_key = Some (Inr cs)" "cs_kind spec = ''uuid''"
    "cs_buckets spec = Some b" "1 \<le> b" "0 \<le> x" "x < uuid_cardinality"
  shows "length (filter (\<lambda>c. scope_contains (bc_scope c) (uuid_literal x)) cs) = 1"
proof -
  have p: "planned (\<lambda>i k. uuid_chunk sha spec run_key b k) 1 [0..<nat b] cs"
    using plan_chunks_Inr(2) [OF assms(1,2)] assms(3) by (rule uuid_chunks_planned)
  have t: "tiles 0 (map (uuid_window b) [0..<nat b]) (uuid_cut b (nat b))"
    using assms(4) by (intro uuid_windows_tile) simp
  have "uuid_cut b (nat b) = uuid_cardinality" using assms(4) by (simp add: uuid_cut_def)
  moreover have "scope_contains (bc_scope c) (uuid_literal x) = in_window x (uuid_window b k)"
    if "k \<in> set [0..<nat b]" "uuid_chunk sha spec run_key b k = Inr c" for k c
    using uuid_chunk_contains [OF that(2)] that(1) assms(4-6) by auto
  ultimately show ?thesis
    using planned_cover [OF p t, of "\<lambda>c. scope_contains (bc_scope c) (uuid_literal x)" x] assms(5,6)
    by simp
qed

theorem uuid_plan_partitions_witness:
  "\<exists>cs. plan_chunks sha_zero example_uuid ''rk'' = Some (Inr cs)
     \<and> length (filter (\<lambda>c. scope_contains (bc_scope c) (uuid_literal (2 ^ 127))) cs) = 1"
proof -
  obtain cs where p: "plan_chunks sha_zero example_uuid ''rk'' = Some (Inr cs)"
    using plan_succeedsE [OF example_uuid_plan] by blast
  have "cs_kind example_uuid = ''uuid''" "cs_buckets example_uuid = Some 2" by code_simp+
  moreover have "(1::int) \<le> 2" "(0::int) \<le> 2 ^ 127" "2 ^ 127 < uuid_cardinality" by (simp_all add: uuid_cardinality_def)
  ultimately show ?thesis using uuid_plan_partitions [OF p] p by blast
qed

text \<open>
  C36: planning always ends. Whatever specification the options yield, the planner returns a
  plan or raises; a step of zero cannot make it loop, because the scope of a chunk refuses a
  window that does not move forward.
\<close>

theorem plan_chunks_returns:
  assumes "chunk_spec_from_options opts = Inr (Some spec)"
  shows "plan_chunks sha spec run_key \<noteq> None"
proof -
  have "cs_kind spec \<in> set supported_chunk_kinds"
    using chunk_spec_from_options_ok [OF assms]
    by (auto simp: spec_ok_def supported_chunk_kinds_def split: if_splits)
  then consider "cs_kind spec = ''uuid''" | "cs_kind spec = ''integer''" | "cs_kind spec = ''date''"
    | "cs_kind spec = ''timestamp''"
    by (auto simp: supported_chunk_kinds_def)
  then show ?thesis
  proof cases
    case 1
    then show ?thesis by (simp add: plan_chunks_def)
  next
    case 2
    have "integer_chunks sha spec step run_key \<noteq> None" if "parse_step (cs_step spec) ''integer'' = Inr step" for step
      using integer_loop_returns [of "bs_count step"] parse_step_count [OF that]
      by (auto simp: integer_chunks_def split: sum.split)
    with 2 show ?thesis by (auto simp: plan_chunks_def Let_def split: sum.split option.split)
  next
    case 3
    have "date_chunks sha spec step run_key \<noteq> None" for step
      using date_axis.loop_returns [of _ _ step sha spec run_key] date_fromisoformat_range
      by (auto simp: date_chunks_def parse_date_boundary_def bind_res_eq_Inr date_ok_def
          set_kind_same [OF 3] dest: date_add_days_Inr split: sum.split)
    with 3 show ?thesis
      by (auto simp: plan_chunks_def Let_def split: sum.split option.split) (metis option.distinct(1))
  next
    case 4
    have "timestamp_chunks sha spec step run_key \<noteq> None" for step
    proof (cases "bind_res (parse_timestamp_boundary (cs_start spec)) (\<lambda>a.
        bind_res (parse_timestamp_boundary (cs_end spec)) (\<lambda>b. Inr (a, b)))")
      case (Inr ab)
      obtain a b where ab: "ab = (a, b)" by (cases ab)
      with Inr have v: "dt_valid a" "dt_valid b"
        by (auto simp: bind_res_eq_Inr dest: parse_timestamp_boundary_valid)
      have "temporal_loop dt_less (advance_datetime step) (dt_iso (CHR '' '')) (mk_chunk sha spec run_key) b a 1 [] \<noteq> None"
      proof (cases "dt_aware a = dt_aware b")
        case True
        with v stamp_axis.loop_returns [of "dt_aware b" b a step sha spec run_key] show ?thesis
          by (simp add: stamp_ok_def set_kind_same [OF 4])
      next
        case False
        then show ?thesis by (subst temporal_loop.simps) (simp add: dt_less_def)
      qed
      with Inr ab show ?thesis by (simp add: timestamp_chunks_def)
    qed (simp add: timestamp_chunks_def)
    with 4 show ?thesis
      by (auto simp: plan_chunks_def Let_def split: sum.split option.split) (metis option.distinct(1))
  qed
qed

definition example_options :: pyval where
  "example_options = PDict [(''chunk'', PDict [(''column'', PStr ''k''), (''from'', PInt 3), (''to'', PInt 7),
     (''step'', PInt 4)]), (''max_chunks'', PInt 3)]"

theorem plan_chunks_returns_witness:
  "chunk_spec_from_options example_options = Inr (Some example_integer)
   \<and> plan_chunks sha_zero example_integer ''rk'' \<noteq> None"
proof -
  have "chunk_spec_from_options example_options = Inr (Some example_integer)" by code_simp
  with plan_chunks_returns [OF this] show ?thesis by blast
qed

text \<open>
  C35: a plan is bounded and its chunks are identified: there are at most \<open>max_chunks\<close> of them,
  they are numbered 1, 2, 3 and so on in order, and no two of them share an idempotency key.
\<close>

theorem plan_chunks_identified:
  assumes "plan_chunks sha spec run_key = Some (Inr cs)" "cs_kind spec \<in> set supported_chunk_kinds"
  shows "int (length cs) \<le> cs_max_chunks spec \<and> map bc_index cs = [1..int (length cs)]
    \<and> distinct (map bc_key cs)"
  using plan_chunks_Inr(1) [OF assms(1)] plan_chunks_numbered [OF assms] numbered_distinct_keys
  by (auto simp: numbered_def)

theorem plan_chunks_identified_witness:
  "\<exists>cs. plan_chunks sha_zero example_uuid ''rk'' = Some (Inr cs) \<and> distinct (map bc_key cs)"
proof -
  obtain cs where p: "plan_chunks sha_zero example_uuid ''rk'' = Some (Inr cs)"
    using plan_succeedsE [OF example_uuid_plan] by blast
  have "cs_kind example_uuid \<in> set supported_chunk_kinds" by code_simp
  with plan_chunks_identified [OF p] p show ?thesis by blast
qed

end
