(* ===== verification/Bf_State.thy ===== *)
theory Bf_State
  imports Py_Value
begin

text \<open>
  The durable backfill ledger (\<open>src/dpone/backfill/state.py\<close>, \<open>xmin_handoff_models.py\<close>): the
  record of one chunk, of an isolated publication and of an XMin handoff, the campaign
  ledger, their JSON documents and the readers of these documents. A field that the reader
  takes over without a conversion is a dynamically typed value, as in the code.

  The lemmas are the round trips: reading back the document of a well-formed record gives
  the record.
\<close>

section \<open>Chunk records\<close>

definition status_pending :: string where "status_pending = ''pending''"
definition status_running :: string where "status_running = ''running''"
definition status_success :: string where "status_success = ''success''"
definition status_failed :: string where "status_failed = ''failed''"

lemmas status_defs = status_pending_def status_running_def status_success_def status_failed_def

record chunk_record =
  cr_index :: int
  cr_start :: string
  cr_end :: string
  cr_key :: string
  cr_status :: string
  cr_attempts :: int
  cr_rows_extracted :: int
  cr_rows_loaded :: int
  cr_run_id :: pyval
  cr_load_id :: pyval
  cr_error :: pyval
  cr_lease_owner :: pyval
  cr_lease_expires_at :: pyval
  cr_started_at :: pyval
  cr_finished_at :: pyval
  cr_updated_at :: pyval
  cr_evidence :: "(string \<times> pyval) list"

definition require_same_coordinates :: "chunk_record \<Rightarrow> chunk_record \<Rightarrow> unit res" where
  "require_same_coordinates r incoming =
     (if (cr_index r, cr_start r, cr_end r, cr_key r)
         \<noteq> (cr_index incoming, cr_start incoming, cr_end incoming, cr_key incoming)
      then Inl (ValueError ''backfill chunk immutable coordinates changed'') else Inr ())"

definition chunk_record_to_jsonable :: "chunk_record \<Rightarrow> pyval" where
  "chunk_record_to_jsonable r =
     PDict [(''index'', PInt (cr_index r)), (''start'', PStr (cr_start r)), (''end'', PStr (cr_end r)),
            (''idempotency_key'', PStr (cr_key r)), (''status'', PStr (cr_status r)),
            (''attempts'', PInt (cr_attempts r)), (''rows_extracted'', PInt (cr_rows_extracted r)),
            (''rows_loaded'', PInt (cr_rows_loaded r)), (''run_id'', cr_run_id r),
            (''load_id'', cr_load_id r), (''error'', cr_error r), (''lease_owner'', cr_lease_owner r),
            (''lease_expires_at'', cr_lease_expires_at r), (''started_at'', cr_started_at r),
            (''finished_at'', cr_finished_at r), (''updated_at'', cr_updated_at r),
            (''execution_evidence'', PDict (cr_evidence r))]"

text \<open>\<open>str(data.get(k) or default)\<close> and \<open>int(data.get(k) or 0)\<close>.\<close>

definition get_str :: "(string \<times> pyval) list \<Rightarrow> string \<Rightarrow> string \<Rightarrow> string" where
  "get_str d k dflt = py_str (py_or (py_get d k) (PStr dflt))"

definition get_int0 :: "(string \<times> pyval) list \<Rightarrow> string \<Rightarrow> int res" where
  "get_int0 d k = py_to_int (py_or (py_get d k) (PInt 0))"

definition chunk_record_from_dict :: "pyval \<Rightarrow> chunk_record res" where
  "chunk_record_from_dict data =
     (case data of
        PDict d \<Rightarrow>
          bind_res (case dict_get d ''index'' of None \<Rightarrow> Inl (KeyError ''index'') | Some v \<Rightarrow> py_to_int v) (\<lambda>index.
          bind_res (get_int0 d ''attempts'') (\<lambda>attempts.
          bind_res (get_int0 d ''rows_extracted'') (\<lambda>extracted.
          bind_res (get_int0 d ''rows_loaded'') (\<lambda>loaded.
            Inr \<lparr>cr_index = index, cr_start = get_str d ''start'' [], cr_end = get_str d ''end'' [],
                 cr_key = get_str d ''idempotency_key'' [], cr_status = get_str d ''status'' status_pending,
                 cr_attempts = attempts, cr_rows_extracted = extracted, cr_rows_loaded = loaded,
                 cr_run_id = py_get d ''run_id'', cr_load_id = py_get d ''load_id'', cr_error = py_get d ''error'',
                 cr_lease_owner = py_get d ''lease_owner'', cr_lease_expires_at = py_get d ''lease_expires_at'',
                 cr_started_at = py_get d ''started_at'', cr_finished_at = py_get d ''finished_at'',
                 cr_updated_at = py_get d ''updated_at'',
                 cr_evidence = (case py_get d ''execution_evidence'' of PDict e \<Rightarrow> e | _ \<Rightarrow> [])\<rparr>))))
      | _ \<Rightarrow> Inl (TypeError ''indices must be integers or slices''))"

section \<open>Publication records\<close>

record publication_record =
  pr_mode :: string
  pr_target_table :: string
  pr_shadow_table :: string
  pr_backup_table :: string
  pr_phase :: string
  pr_expected_rows :: "int option"
  pr_actual_rows :: "int option"
  pr_duplicate_keys :: "int option"
  pr_receipt_id :: pyval
  pr_prepared_at :: pyval
  pr_published_at :: pyval
  pr_predecessor_object_id :: "int option"
  pr_predecessor_create_token :: pyval
  pr_predecessor_receipt_id :: pyval
  pr_shadow_object_id :: "int option"
  pr_shadow_create_token :: pyval
  pr_contract_sha256 :: pyval

definition is_lower_hex :: "char \<Rightarrow> bool" where
  "is_lower_hex c = (c \<in> set ''0123456789abcdef'')"

text \<open>\<open>_is_sha256\<close>: a \<open>partition\<close> at the first colon; a value that is not a string has none.\<close>

definition is_sha256_text :: "string \<Rightarrow> bool" where
  "is_sha256_text s =
     (let prefix = takeWhile (\<lambda>c. c \<noteq> CHR '':'') s; rest = dropWhile (\<lambda>c. c \<noteq> CHR '':'') s in
      prefix = ''sha256'' \<and> rest \<noteq> [] \<and> length (drop 1 rest) = 64 \<and> list_all is_lower_hex (drop 1 rest))"

definition is_sha256 :: "pyval \<Rightarrow> bool res" where
  "is_sha256 v = (case v of PStr s \<Rightarrow> Inr (is_sha256_text s)
     | _ \<Rightarrow> Inl (AppError ''AttributeError'' ''object has no attribute partition''))"

definition bad_object_id :: "int option \<Rightarrow> bool" where
  "bad_object_id v = (case v of None \<Rightarrow> False | Some n \<Rightarrow> n < 1)"

definition bad_token :: "pyval \<Rightarrow> bool" where
  "bad_token v = (v \<noteq> PNone \<and> py_strip (py_str v) = [])"

definition publication_post_init :: "publication_record \<Rightarrow> publication_record res" where
  "publication_post_init p =
     (if bad_object_id (pr_predecessor_object_id p) \<or> bad_object_id (pr_shadow_object_id p)
        then Inl (ValueError ''backfill publication object identity is invalid'')
      else if bad_token (pr_predecessor_create_token p) \<or> bad_token (pr_shadow_create_token p)
        then Inl (ValueError ''backfill publication object generation token is invalid'')
      else if pr_predecessor_object_id p = None \<and> pr_predecessor_create_token p \<noteq> PNone
        then Inl (ValueError ''backfill publication predecessor generation is incomplete'')
      else if pr_shadow_object_id p = None \<and> pr_shadow_create_token p \<noteq> PNone
        then Inl (ValueError ''backfill publication shadow generation is incomplete'')
      else if pr_contract_sha256 p = PNone then Inr p
      else bind_res (is_sha256 (pr_contract_sha256 p)) (\<lambda>ok.
        if ok then Inr p else Inl (ValueError ''backfill publication object contract digest is invalid'')))"

definition opt_int :: "int option \<Rightarrow> pyval" where
  "opt_int v = (case v of None \<Rightarrow> PNone | Some n \<Rightarrow> PInt n)"

definition optional_int :: "pyval \<Rightarrow> int option res" where
  "optional_int v = (if v = PNone then Inr None else bind_res (py_to_int v) (\<lambda>n. Inr (Some n)))"

definition publication_to_jsonable :: "publication_record \<Rightarrow> pyval" where
  "publication_to_jsonable p =
     PDict [(''mode'', PStr (pr_mode p)), (''target_table'', PStr (pr_target_table p)),
            (''shadow_table'', PStr (pr_shadow_table p)), (''backup_table'', PStr (pr_backup_table p)),
            (''phase'', PStr (pr_phase p)), (''expected_rows'', opt_int (pr_expected_rows p)),
            (''actual_rows'', opt_int (pr_actual_rows p)), (''duplicate_keys'', opt_int (pr_duplicate_keys p)),
            (''receipt_id'', pr_receipt_id p),
            (''predecessor_object_id'', opt_int (pr_predecessor_object_id p)),
            (''predecessor_create_token'', pr_predecessor_create_token p),
            (''predecessor_receipt_id'', pr_predecessor_receipt_id p),
            (''shadow_object_id'', opt_int (pr_shadow_object_id p)),
            (''shadow_create_token'', pr_shadow_create_token p),
            (''object_contract_sha256'', pr_contract_sha256 p),
            (''prepared_at'', pr_prepared_at p), (''published_at'', pr_published_at p)]"

definition publication_from_dict :: "pyval \<Rightarrow> publication_record res" where
  "publication_from_dict data =
     (case data of
        PDict d \<Rightarrow>
          bind_res (optional_int (py_get d ''expected_rows'')) (\<lambda>expected.
          bind_res (optional_int (py_get d ''actual_rows'')) (\<lambda>actual.
          bind_res (optional_int (py_get d ''duplicate_keys'')) (\<lambda>duplicates.
          bind_res (optional_int (py_get d ''predecessor_object_id'')) (\<lambda>pred.
          bind_res (optional_int (py_get d ''shadow_object_id'')) (\<lambda>shadow.
            publication_post_init
              \<lparr>pr_mode = get_str d ''mode'' [], pr_target_table = get_str d ''target_table'' [],
               pr_shadow_table = get_str d ''shadow_table'' [], pr_backup_table = get_str d ''backup_table'' [],
               pr_phase = get_str d ''phase'' ''planned'', pr_expected_rows = expected,
               pr_actual_rows = actual, pr_duplicate_keys = duplicates,
               pr_receipt_id = py_get d ''receipt_id'', pr_prepared_at = py_get d ''prepared_at'',
               pr_published_at = py_get d ''published_at'', pr_predecessor_object_id = pred,
               pr_predecessor_create_token = py_get d ''predecessor_create_token'',
               pr_predecessor_receipt_id = py_get d ''predecessor_receipt_id'',
               pr_shadow_object_id = shadow, pr_shadow_create_token = py_get d ''shadow_create_token'',
               pr_contract_sha256 = py_get d ''object_contract_sha256''\<rparr>)))))
      | _ \<Rightarrow> Inl (AppError ''AttributeError'' ''object has no attribute get''))"

section \<open>XMin handoff records\<close>

record xmin_handoff =
  xh_handoff_id :: string
  xh_status :: string
  xh_anchor_xmin :: int
  xh_snapshot_token :: string
  xh_state_key_sha256 :: string
  xh_source_authority_sha256 :: string
  xh_plan_hash :: string
  xh_seed_load_id :: string
  xh_receipt_id :: "string option"
  xh_candidate_revision :: "int option"
  xh_contract_version :: string
  xh_publication_receipt_id :: "string option"

definition handoff_contract_version :: string where
  "handoff_contract_version = ''postgres_xmin_initial_handoff_v1''"

definition is_hex64 :: "string \<Rightarrow> bool" where
  "is_hex64 s = (length s = 64 \<and> list_all is_lower_hex s)"

definition xmin_post_init :: "xmin_handoff \<Rightarrow> xmin_handoff res" where
  "xmin_post_init h =
     (let committed = (xh_status h = ''committed'');
          receipt = (case xh_receipt_id h of None \<Rightarrow> False | Some r \<Rightarrow> r \<noteq> []) in
      if xh_contract_version h \<noteq> handoff_contract_version
        then Inl (ValueError ''postgres_xmin_handoff.contract_version_invalid'')
      else if xh_handoff_id h = [] \<or> xh_status h \<notin> {''anchored'', ''committing'', ''committed''}
        then Inl (ValueError ''postgres_xmin_handoff.record_invalid'')
      else if xh_anchor_xmin h < 1 then Inl (ValueError ''postgres_xmin_handoff.anchor_invalid'')
      else if \<not> (take 7 (xh_snapshot_token h) = ''sha256:'' \<and> is_hex64 (drop 7 (xh_snapshot_token h)))
        then Inl (ValueError ''postgres_xmin_handoff.snapshot_token_invalid'')
      else if \<not> is_hex64 (xh_state_key_sha256 h) \<or> \<not> is_hex64 (xh_source_authority_sha256 h)
        then Inl (ValueError ''postgres_xmin_handoff.identity_invalid'')
      else if xh_plan_hash h = [] \<or> xh_seed_load_id h = []
        then Inl (ValueError ''postgres_xmin_handoff.campaign_identity_invalid'')
      else if (case xh_publication_receipt_id h of None \<Rightarrow> False | Some s \<Rightarrow> py_strip s = [])
        then Inl (ValueError ''postgres_xmin_handoff.publication_receipt_invalid'')
      else if committed \<noteq> receipt \<or> committed \<noteq> (xh_candidate_revision h \<noteq> None)
        then Inl (ValueError ''postgres_xmin_handoff.receipt_state_invalid'')
      else if bad_object_id (xh_candidate_revision h)
        then Inl (ValueError ''postgres_xmin_handoff.receipt_state_invalid'')
      else Inr h)"

definition opt_str :: "string option \<Rightarrow> pyval" where
  "opt_str v = (case v of None \<Rightarrow> PNone | Some s \<Rightarrow> PStr s)"

definition xmin_to_jsonable :: "xmin_handoff \<Rightarrow> pyval" where
  "xmin_to_jsonable h =
     PDict [(''contract_version'', PStr (xh_contract_version h)), (''handoff_id'', PStr (xh_handoff_id h)),
            (''status'', PStr (xh_status h)), (''anchor_xmin'', PInt (xh_anchor_xmin h)),
            (''snapshot_token'', PStr (xh_snapshot_token h)), (''state_key_sha256'', PStr (xh_state_key_sha256 h)),
            (''source_authority_sha256'', PStr (xh_source_authority_sha256 h)),
            (''plan_hash'', PStr (xh_plan_hash h)), (''seed_load_id'', PStr (xh_seed_load_id h)),
            (''publication_receipt_id'', opt_str (xh_publication_receipt_id h)),
            (''receipt_id'', opt_str (xh_receipt_id h)),
            (''candidate_revision'', opt_int (xh_candidate_revision h))]"

definition exact_int :: "pyval \<Rightarrow> string \<Rightarrow> int res" where
  "exact_int v field = (case v of PInt n \<Rightarrow> Inr n
     | _ \<Rightarrow> Inl (ValueError (''postgres_xmin_handoff.'' @ field @ ''_invalid'')))"

definition optional_exact_int :: "pyval \<Rightarrow> string \<Rightarrow> int option res" where
  "optional_exact_int v field =
     (if v = PNone then Inr None else bind_res (exact_int v field) (\<lambda>n. Inr (Some n)))"

text \<open>\<open>str(raw[k]) if raw.get(k) else None\<close>.\<close>

definition get_opt_str :: "(string \<times> pyval) list \<Rightarrow> string \<Rightarrow> string option" where
  "get_opt_str d k = (if py_truthy (py_get d k) then Some (py_str (py_get d k)) else None)"

definition xmin_from_dict :: "pyval \<Rightarrow> xmin_handoff res" where
  "xmin_from_dict raw =
     (case raw of
        PDict d \<Rightarrow>
          bind_res (exact_int (py_get d ''anchor_xmin'') ''anchor_xmin'') (\<lambda>anchor.
          bind_res (optional_exact_int (py_get d ''candidate_revision'') ''candidate_revision'') (\<lambda>revision.
            xmin_post_init
              \<lparr>xh_handoff_id = get_str d ''handoff_id'' [], xh_status = get_str d ''status'' [],
               xh_anchor_xmin = anchor, xh_snapshot_token = get_str d ''snapshot_token'' [],
               xh_state_key_sha256 = get_str d ''state_key_sha256'' [],
               xh_source_authority_sha256 = get_str d ''source_authority_sha256'' [],
               xh_plan_hash = get_str d ''plan_hash'' [], xh_seed_load_id = get_str d ''seed_load_id'' [],
               xh_receipt_id = get_opt_str d ''receipt_id'', xh_candidate_revision = revision,
               xh_contract_version = get_str d ''contract_version'' [],
               xh_publication_receipt_id = get_opt_str d ''publication_receipt_id''\<rparr>))
      | _ \<Rightarrow> Inl (ValueError ''postgres_xmin_handoff.record_invalid''))"

section \<open>The ledger\<close>

record ledger =
  bl_run_key :: string
  bl_dataset :: string
  bl_inner_mode :: string
  bl_chunk_config :: "(string \<times> pyval) list"
  bl_plan_hash :: pyval
  bl_config_hash :: pyval
  bl_status :: string
  bl_cancel_reason :: pyval
  bl_cancel_requested_by :: pyval
  bl_lock_owner :: pyval
  bl_lock_expires_at :: pyval
  bl_chunks :: "chunk_record list"
  bl_created_at :: pyval
  bl_updated_at :: pyval
  bl_xmin_handoff :: "xmin_handoff option"
  bl_publication :: "publication_record option"
  bl_column_contract :: "(string \<times> pyval) list option"
  bl_kind :: string
  bl_schema_version :: string

definition ledger_kind :: string where "ledger_kind = ''dpone.backfill_ledger''"
definition ledger_schema_version :: string where "ledger_schema_version = ''2''"

definition ledger_chunk :: "ledger \<Rightarrow> int \<Rightarrow> chunk_record res" where
  "ledger_chunk l index =
     (case find (\<lambda>r. cr_index r = index) (bl_chunks l) of
        Some r \<Rightarrow> Inr r
      | None \<Rightarrow> Inl (KeyError ''backfill ledger has no chunk''))"

definition committed_indexes :: "ledger \<Rightarrow> int set" where
  "committed_indexes l = set (map cr_index (filter (\<lambda>r. cr_status r = status_success) (bl_chunks l)))"

definition count_status :: "(string, int) dict \<Rightarrow> string \<Rightarrow> (string, int) dict" where
  "count_status d s = dict_set d s ((case dict_get d s of None \<Rightarrow> 0 | Some n \<Rightarrow> n) + 1)"

definition ledger_counts :: "ledger \<Rightarrow> (string, int) dict" where
  "ledger_counts l =
     foldl count_status
       [(status_pending, 0), (status_running, 0), (status_success, 0), (status_failed, 0)]
       (map cr_status (bl_chunks l))"

definition campaign_jsonable :: "ledger \<Rightarrow> (string \<times> pyval) list" where
  "campaign_jsonable l =
     [(''kind'', PStr (bl_kind l)), (''schema_version'', PStr (bl_schema_version l)),
      (''run_key'', PStr (bl_run_key l)), (''dataset'', PStr (bl_dataset l)),
      (''inner_mode'', PStr (bl_inner_mode l)), (''chunk_config'', PDict (bl_chunk_config l)),
      (''plan_hash'', bl_plan_hash l), (''config_hash'', bl_config_hash l), (''status'', PStr (bl_status l)),
      (''cancel_reason'', bl_cancel_reason l), (''cancel_requested_by'', bl_cancel_requested_by l),
      (''lock_owner'', bl_lock_owner l), (''lock_expires_at'', bl_lock_expires_at l),
      (''created_at'', bl_created_at l), (''updated_at'', bl_updated_at l),
      (''xmin_handoff'', case bl_xmin_handoff l of None \<Rightarrow> PNone | Some h \<Rightarrow> xmin_to_jsonable h),
      (''publication'', case bl_publication l of None \<Rightarrow> PNone | Some p \<Rightarrow> publication_to_jsonable p),
      (''portable_scope_column_contract'', case bl_column_contract l of None \<Rightarrow> PNone | Some c \<Rightarrow> PDict c)]"

definition ledger_to_jsonable :: "ledger \<Rightarrow> pyval" where
  "ledger_to_jsonable l =
     PDict (campaign_jsonable l @ [(''chunks'', PList (map chunk_record_to_jsonable (bl_chunks l)))])"

definition column_contract_from :: "(string \<times> pyval) list \<Rightarrow> ((string \<times> pyval) list option) res" where
  "column_contract_from d =
     (case py_get d ''portable_scope_column_contract'' of
        PNone \<Rightarrow> Inr None
      | PDict c \<Rightarrow> Inr (Some c)
      | _ \<Rightarrow> Inl (ValueError ''portable_scope.binding.campaign_contract_invalid''))"

definition optional_record :: "(pyval \<Rightarrow> 'r res) \<Rightarrow> pyval \<Rightarrow> 'r option res" where
  "optional_record parse v = (if v = PNone then Inr None else bind_res (parse v) (\<lambda>r. Inr (Some r)))"

definition ledger_from_dict :: "pyval \<Rightarrow> ledger res" where
  "ledger_from_dict data =
     (case data of
        PDict d \<Rightarrow>
          if py_get d ''schema_version'' \<noteq> PStr ledger_schema_version
          then Inl (ValueError ''DPONE_BACKFILL_LEDGER_MIGRATION_REQUIRED'')
          else
            bind_res (py_dict (py_or (py_get d ''chunk_config'') (PDict []))) (\<lambda>chunk_config.
            bind_res (py_iter (if py_has d ''chunks'' then py_get d ''chunks'' else PList [])) (\<lambda>items.
            bind_res (map_res chunk_record_from_dict items) (\<lambda>chunks.
            bind_res (optional_record xmin_from_dict (py_get d ''xmin_handoff'')) (\<lambda>xmin.
            bind_res (optional_record publication_from_dict (py_get d ''publication'')) (\<lambda>pub.
            bind_res (column_contract_from d) (\<lambda>contract.
              Inr \<lparr>bl_run_key = get_str d ''run_key'' [], bl_dataset = get_str d ''dataset'' [],
                   bl_inner_mode = get_str d ''inner_mode'' [], bl_chunk_config = chunk_config,
                   bl_plan_hash = py_get d ''plan_hash'', bl_config_hash = py_get d ''config_hash'',
                   bl_status = get_str d ''status'' ''active'', bl_cancel_reason = py_get d ''cancel_reason'',
                   bl_cancel_requested_by = py_get d ''cancel_requested_by'',
                   bl_lock_owner = py_get d ''lock_owner'', bl_lock_expires_at = py_get d ''lock_expires_at'',
                   bl_chunks = chunks, bl_created_at = py_get d ''created_at'',
                   bl_updated_at = py_get d ''updated_at'', bl_xmin_handoff = xmin, bl_publication = pub,
                   bl_column_contract = contract, bl_kind = ledger_kind,
                   bl_schema_version = ledger_schema_version\<rparr>))))))
      | _ \<Rightarrow> Inl (AppError ''AttributeError'' ''object has no attribute get''))"

section \<open>Round trips\<close>

definition chunk_record_wf :: "chunk_record \<Rightarrow> bool" where
  "chunk_record_wf r = (cr_status r \<noteq> [])"

definition publication_wf :: "publication_record \<Rightarrow> bool" where
  "publication_wf p = (pr_phase p \<noteq> [] \<and> publication_post_init p = Inr p)"

definition xmin_wf :: "xmin_handoff \<Rightarrow> bool" where
  "xmin_wf h = (xh_receipt_id h \<noteq> Some [] \<and> xmin_post_init h = Inr h)"

definition ledger_wf :: "ledger \<Rightarrow> bool" where
  "ledger_wf l = (bl_kind l = ledger_kind \<and> bl_schema_version l = ledger_schema_version \<and> bl_status l \<noteq> []
     \<and> list_all chunk_record_wf (bl_chunks l)
     \<and> (case bl_xmin_handoff l of None \<Rightarrow> True | Some h \<Rightarrow> xmin_wf h)
     \<and> (case bl_publication l of None \<Rightarrow> True | Some p \<Rightarrow> publication_wf p))"

lemma get_str_PStr: "py_get d k = PStr s \<Longrightarrow> get_str d k dflt = (if s = [] then dflt else s)"
  by (simp add: get_str_def py_or_def py_str_def)

lemma get_int0_PInt: "py_get d k = PInt n \<Longrightarrow> get_int0 d k = Inr n"
  by (simp add: get_int0_def py_or_def py_to_int_def)

lemma optional_int_opt_int [simp]: "optional_int (opt_int v) = Inr v"
  by (cases v) (simp_all add: optional_int_def opt_int_def py_to_int_def)

lemma optional_exact_int_opt_int [simp]: "optional_exact_int (opt_int v) f = Inr v"
  by (cases v) (simp_all add: optional_exact_int_def opt_int_def exact_int_def)

lemma get_opt_str_opt_str: "py_get d k = opt_str v \<Longrightarrow> v \<noteq> Some [] \<Longrightarrow> get_opt_str d k = v"
  by (cases v) (simp_all add: get_opt_str_def opt_str_def py_str_def)

lemma chunk_record_roundtrip:
  "chunk_record_wf r \<Longrightarrow> chunk_record_from_dict (chunk_record_to_jsonable r) = Inr r"
  by (simp add: chunk_record_from_dict_def chunk_record_to_jsonable_def get_str_PStr get_int0_PInt
      py_to_int_def chunk_record_wf_def)

lemma publication_roundtrip:
  "publication_wf p \<Longrightarrow> publication_from_dict (publication_to_jsonable p) = Inr p"
  by (cases p) (simp add: publication_from_dict_def publication_to_jsonable_def get_str_PStr publication_wf_def)

lemma xmin_roundtrip:
  assumes "xmin_wf h"
  shows "xmin_from_dict (xmin_to_jsonable h) = Inr h"
proof -
  from assms have init: "xmin_post_init h = Inr h" and receipt: "xh_receipt_id h \<noteq> Some []"
    by (simp_all add: xmin_wf_def)
  from init have ne: "xh_publication_receipt_id h \<noteq> Some []"
    by (auto simp: xmin_post_init_def Let_def py_strip_def py_lstrip_def split: if_splits)
  show ?thesis
    using init receipt ne
    by (cases h) (simp add: xmin_from_dict_def xmin_to_jsonable_def get_str_PStr exact_int_def
        get_opt_str_opt_str)
qed

lemma to_jsonable_not_None [simp]:
  "xmin_to_jsonable h \<noteq> PNone" "publication_to_jsonable p \<noteq> PNone"
  by (simp_all add: xmin_to_jsonable_def publication_to_jsonable_def)

lemma optional_xmin_roundtrip:
  "(case v of None \<Rightarrow> True | Some h \<Rightarrow> xmin_wf h) \<Longrightarrow>
     optional_record xmin_from_dict (case v of None \<Rightarrow> PNone | Some h \<Rightarrow> xmin_to_jsonable h) = Inr v"
  by (cases v) (simp_all add: optional_record_def xmin_roundtrip)

lemma optional_publication_roundtrip:
  "(case v of None \<Rightarrow> True | Some p \<Rightarrow> publication_wf p) \<Longrightarrow>
     optional_record publication_from_dict (case v of None \<Rightarrow> PNone | Some p \<Rightarrow> publication_to_jsonable p) = Inr v"
  by (cases v) (simp_all add: optional_record_def publication_roundtrip)

lemma chunk_records_roundtrip:
  "list_all chunk_record_wf rs \<Longrightarrow> map_res chunk_record_from_dict (map chunk_record_to_jsonable rs) = Inr rs"
  by (induction rs) (simp_all add: chunk_record_roundtrip)

lemma ledger_roundtrip:
  assumes "ledger_wf l"
  shows "ledger_from_dict (ledger_to_jsonable l) = Inr l"
proof -
  from assms have wf: "bl_kind l = ledger_kind" "bl_schema_version l = ledger_schema_version" "bl_status l \<noteq> []"
    "list_all chunk_record_wf (bl_chunks l)"
    and x: "case bl_xmin_handoff l of None \<Rightarrow> True | Some h \<Rightarrow> xmin_wf h"
    and p: "case bl_publication l of None \<Rightarrow> True | Some p \<Rightarrow> publication_wf p"
    by (simp_all add: ledger_wf_def)
  have config: "py_dict (py_or (PDict (bl_chunk_config l)) (PDict [])) = Inr (bl_chunk_config l)"
    by (cases "bl_chunk_config l") (simp_all add: py_or_def py_dict_def)
  have items: "py_iter (PList xs) = Inr xs" for xs by (simp add: py_iter_def)
  have contract: "column_contract_from (campaign_jsonable l @ d) = Inr (bl_column_contract l)" for d
    by (cases "bl_column_contract l") (simp_all add: column_contract_from_def campaign_jsonable_def)
  show ?thesis
    unfolding ledger_from_dict_def ledger_to_jsonable_def
    using wf config optional_xmin_roundtrip [OF x] optional_publication_roundtrip [OF p]
      chunk_records_roundtrip [OF wf(4)] contract
    by (simp add: campaign_jsonable_def items get_str_PStr)
qed

end
