(* ===== verification/Bf_FileStore.thy ===== *)
theory Bf_FileStore
  imports Bf_State
begin

text \<open>
  The filesystem state store (\<open>src/dpone/backfill/file_state.py\<close>) and the coordinator of
  campaign creation (\<open>state_coordination.py\<close>). The store is a map from run keys to ledger
  documents: one JSON file per key, replaced atomically, every operation under one lock.
  An operation returns its result and the new store; when it raises, nothing was written.

  Each operation takes the instant \<open>now\<close> its expiry checks read from the clock and the
  instant \<open>stamp\<close> its time stamps read. Lease expiries are instants (aware date-times).
\<close>

section \<open>The store\<close>

record fstore =
  fs_files :: "(string, pyval) dict"
  fs_init :: "(string, string) dict"

definition empty_store :: fstore where
  "empty_store = \<lparr>fs_files = [], fs_init = []\<rparr>"

definition fs_load :: "fstore \<Rightarrow> string \<Rightarrow> ledger option res" where
  "fs_load fs k =
     (case dict_get (fs_files fs) k of
        None \<Rightarrow> Inr None
      | Some doc \<Rightarrow> bind_res (ledger_from_dict doc) (\<lambda>l. Inr (Some l)))"

text \<open>\<open>load_verified\<close>: a pinned campaign may not change its plan or its configuration.\<close>

definition hash_changed :: "string option \<Rightarrow> pyval \<Rightarrow> bool" where
  "hash_changed pinned stored =
     (case pinned of None \<Rightarrow> False | Some h \<Rightarrow> h \<noteq> [] \<and> py_truthy stored \<and> stored \<noteq> PStr h)"

definition fs_load_verified :: "fstore \<Rightarrow> string \<Rightarrow> string option \<Rightarrow> string option \<Rightarrow> ledger option res" where
  "fs_load_verified fs k plan_hash config_hash =
     bind_res (fs_load fs k) (\<lambda>r.
       case r of
         None \<Rightarrow> Inr None
       | Some l \<Rightarrow>
           if hash_changed config_hash (bl_config_hash l)
             then Inl (ValueError ''backfill campaign config hash changed'')
           else if hash_changed plan_hash (bl_plan_hash l)
             then Inl (ValueError ''backfill campaign plan hash changed'')
           else Inr (Some l))"

definition fs_require :: "fstore \<Rightarrow> string \<Rightarrow> ledger res" where
  "fs_require fs k =
     bind_res (fs_load fs k) (\<lambda>r. case r of
         None \<Rightarrow> Inl (KeyError ''backfill campaign does not exist'')
       | Some l \<Rightarrow> Inr l)"

definition write_exact_snapshot :: "fstore \<Rightarrow> ledger \<Rightarrow> fstore" where
  "write_exact_snapshot fs l =
     fs\<lparr>fs_files := dict_set (fs_files fs) (bl_run_key l) (ledger_to_jsonable l)\<rparr>"

definition stamped :: "instant \<Rightarrow> ledger \<Rightarrow> ledger" where
  "stamped stamp l =
     l\<lparr>bl_created_at := py_or (bl_created_at l) (PStr (utc_text stamp)),
       bl_updated_at := PStr (utc_text stamp)\<rparr>"

definition fs_save :: "fstore \<Rightarrow> instant \<Rightarrow> ledger \<Rightarrow> fstore" where
  "fs_save fs stamp l = write_exact_snapshot fs (stamped stamp l)"

fun put_chunk :: "chunk_record \<Rightarrow> chunk_record list \<Rightarrow> chunk_record list" where
  "put_chunk r [] = [r]"
| "put_chunk r (x # xs) = (if cr_index x = cr_index r then r # xs else x # put_chunk r xs)"

definition fs_update_chunk :: "fstore \<Rightarrow> instant \<Rightarrow> ledger \<Rightarrow> chunk_record \<Rightarrow> fstore res" where
  "fs_update_chunk fs stamp l r =
     bind_res (fs_load fs (bl_run_key l)) (\<lambda>loaded.
       let current = (case loaded of None \<Rightarrow> l | Some c \<Rightarrow> c);
           record = r\<lparr>cr_updated_at := PStr (utc_text stamp)\<rparr> in
       Inr (fs_save fs stamp (current\<lparr>bl_chunks := put_chunk record (bl_chunks current)\<rparr>)))"

section \<open>Clock checks\<close>

definition expired :: "instant \<Rightarrow> pyval \<Rightarrow> bool res" where
  "expired now v =
     (if \<not> py_truthy v then Inr True
      else (case v of
              PStr s \<Rightarrow>
                bind_res (parse_utc_text s) (\<lambda>parsed.
                bind_res (dt_less (of_instant now) parsed) (\<lambda>later. Inr (\<not> later)))
            | _ \<Rightarrow> Inl (AppError ''AttributeError'' ''object has no attribute replace'')))"

definition published :: "ledger \<Rightarrow> bool" where
  "published l = (case bl_publication l of None \<Rightarrow> False | Some p \<Rightarrow> pr_phase p = ''published'')"

definition cancel_requested :: "ledger \<Rightarrow> bool" where
  "cancel_requested l = (bl_status l = ''cancel_requested'')"

text \<open>\<open>datetime.fromisoformat(str(value)) < expiry\<close>.\<close>

definition extends :: "pyval \<Rightarrow> instant \<Rightarrow> bool res" where
  "extends current expiry =
     bind_res (datetime_fromisoformat (py_str current)) (\<lambda>c. dt_less c (of_instant expiry))"

section \<open>The campaign lock\<close>

definition acquire_campaign_lock ::
  "fstore \<Rightarrow> instant \<Rightarrow> instant \<Rightarrow> string \<Rightarrow> string \<Rightarrow> instant \<Rightarrow> (bool \<times> fstore) res" where
  "acquire_campaign_lock fs now stamp k owner expiry =
     bind_res (fs_require fs k) (\<lambda>l.
       if cancel_requested l \<and> \<not> published l then Inr (False, fs)
       else
         (let l1 = (if cancel_requested l
                    then l\<lparr>bl_status := ''active'', bl_cancel_reason := PNone, bl_cancel_requested_by := PNone\<rparr>
                    else l) in
          bind_res (if py_truthy (bl_lock_owner l1)
                    then bind_res (expired now (bl_lock_expires_at l1)) (\<lambda>e. Inr (\<not> e))
                    else Inr False) (\<lambda>held.
            if held then Inr (False, fs)
            else Inr (True, fs_save fs stamp
              (l1\<lparr>bl_lock_owner := PStr owner, bl_lock_expires_at := PStr (utc_text expiry)\<rparr>)))))"

definition release_campaign_lock :: "fstore \<Rightarrow> instant \<Rightarrow> string \<Rightarrow> string \<Rightarrow> fstore res" where
  "release_campaign_lock fs stamp k owner =
     bind_res (fs_require fs k) (\<lambda>l.
       if bl_lock_owner l = PStr owner
       then Inr (fs_save fs stamp (l\<lparr>bl_lock_owner := PNone, bl_lock_expires_at := PNone\<rparr>))
       else Inr fs)"

definition renew_campaign_lock_if_owned ::
  "bool \<Rightarrow> fstore \<Rightarrow> instant \<Rightarrow> instant \<Rightarrow> string \<Rightarrow> string \<Rightarrow> instant \<Rightarrow> (bool \<times> fstore) res" where
  "renew_campaign_lock_if_owned allow_expired fs now stamp k owner expiry =
     bind_res (fs_require fs k) (\<lambda>l.
       if cancel_requested l \<and> \<not> published l then Inr (False, fs)
       else if bl_lock_owner l \<noteq> PStr owner then Inr (False, fs)
       else
         bind_res (if allow_expired then Inr False else expired now (bl_lock_expires_at l)) (\<lambda>gone.
           if gone \<or> expiry \<le> now then Inr (False, fs)
           else
             bind_res (if py_truthy (bl_lock_expires_at l) then extends (bl_lock_expires_at l) expiry
                       else Inr True) (\<lambda>later.
               if later then Inr (True, fs_save fs stamp (l\<lparr>bl_lock_expires_at := PStr (utc_text expiry)\<rparr>))
               else Inr (True, fs))))"

definition renew_campaign_lock ::
  "fstore \<Rightarrow> instant \<Rightarrow> instant \<Rightarrow> string \<Rightarrow> string \<Rightarrow> instant \<Rightarrow> (bool \<times> fstore) res" where
  "renew_campaign_lock = renew_campaign_lock_if_owned False"

definition request_cancel :: "fstore \<Rightarrow> instant \<Rightarrow> string \<Rightarrow> string \<Rightarrow> string \<Rightarrow> fstore res" where
  "request_cancel fs stamp k reason requested_by =
     bind_res (fs_require fs k) (\<lambda>l.
       if published l then Inl (RuntimeError ''backfill cancellation is closed after target publication'')
       else Inr (fs_save fs stamp
         (l\<lparr>bl_status := ''cancel_requested'', bl_cancel_reason := PStr reason,
            bl_cancel_requested_by := PStr requested_by\<rparr>)))"

section \<open>Creating a campaign\<close>

definition acquire_initialization_lock :: "fstore \<Rightarrow> string \<Rightarrow> string \<Rightarrow> bool \<times> fstore" where
  "acquire_initialization_lock fs k owner =
     (case dict_get (fs_init fs) k of
        Some _ \<Rightarrow> (False, fs)
      | None \<Rightarrow> (True, fs\<lparr>fs_init := dict_set (fs_init fs) k owner\<rparr>))"

definition release_initialization_lock :: "fstore \<Rightarrow> string \<Rightarrow> string \<Rightarrow> fstore" where
  "release_initialization_lock fs k owner =
     (if dict_get (fs_init fs) k = Some owner then fs\<lparr>fs_init := AList.delete k (fs_init fs)\<rparr> else fs)"

section \<open>Chunk leases\<close>

definition acquire_chunk_lease ::
  "fstore \<Rightarrow> instant \<Rightarrow> instant \<Rightarrow> string \<Rightarrow> int \<Rightarrow> string \<Rightarrow> instant \<Rightarrow> (bool \<times> fstore) res" where
  "acquire_chunk_lease fs now stamp k index owner expiry =
     bind_res (fs_require fs k) (\<lambda>l.
       if cancel_requested l then Inr (False, fs)
       else
         bind_res (ledger_chunk l index) (\<lambda>r.
           if cr_status r = status_success then Inr (False, fs)
           else
             bind_res (if cr_status r = status_running
                       then bind_res (expired now (cr_lease_expires_at r)) (\<lambda>e. Inr (\<not> e))
                       else Inr False) (\<lambda>held.
               if held then Inr (False, fs)
               else
                 bind_res (fs_update_chunk fs stamp l
                   (r\<lparr>cr_status := status_running, cr_attempts := cr_attempts r + 1,
                      cr_lease_owner := PStr owner, cr_lease_expires_at := PStr (utc_text expiry),
                      cr_started_at := py_or (cr_started_at r) (PStr (utc_text stamp)),
                      cr_error := PNone\<rparr>)) (\<lambda>fs'. Inr (True, fs')))))"

definition complete_chunk_if_owned ::
  "fstore \<Rightarrow> instant \<Rightarrow> string \<Rightarrow> chunk_record \<Rightarrow> string \<Rightarrow> (bool \<times> fstore) res" where
  "complete_chunk_if_owned fs stamp k r owner =
     bind_res (fs_require fs k) (\<lambda>l.
     bind_res (ledger_chunk l (cr_index r)) (\<lambda>current.
       if cr_status current \<noteq> status_running \<or> cr_lease_owner current \<noteq> PStr owner then Inr (False, fs)
       else
         bind_res (fs_update_chunk fs stamp l
           (r\<lparr>cr_lease_owner := PNone, cr_lease_expires_at := PNone\<rparr>)) (\<lambda>fs'. Inr (True, fs'))))"

definition renew_chunk_lease ::
  "fstore \<Rightarrow> instant \<Rightarrow> instant \<Rightarrow> string \<Rightarrow> int \<Rightarrow> string \<Rightarrow> instant \<Rightarrow> (bool \<times> fstore) res" where
  "renew_chunk_lease fs now stamp k index owner expiry =
     bind_res (fs_require fs k) (\<lambda>l.
     bind_res (ledger_chunk l index) (\<lambda>r.
       if cr_status r \<noteq> status_running \<or> cr_lease_owner r \<noteq> PStr owner then Inr (False, fs)
       else
         bind_res (expired now (cr_lease_expires_at r)) (\<lambda>gone.
           if gone \<or> expiry \<le> now then Inr (False, fs)
           else
             bind_res (extends (cr_lease_expires_at r) expiry) (\<lambda>later.
               if later
               then bind_res (fs_update_chunk fs stamp l (r\<lparr>cr_lease_expires_at := PStr (utc_text expiry)\<rparr>))
                      (\<lambda>fs'. Inr (True, fs'))
               else Inr (True, fs)))))"

text \<open>One chunk of \<open>recover_stale_running\<close>: the record, and whether it was recovered.\<close>

definition recover_chunk :: "instant \<Rightarrow> chunk_record \<Rightarrow> (chunk_record \<times> bool) res" where
  "recover_chunk now r =
     (if cr_status r \<noteq> status_running then Inr (r, False)
      else bind_res (expired now (cr_lease_expires_at r)) (\<lambda>gone.
        if gone
        then Inr (r\<lparr>cr_status := status_failed, cr_error := PStr ''lease_expired'',
                    cr_lease_owner := PNone, cr_lease_expires_at := PNone\<rparr>, True)
        else Inr (r, False)))"

definition recover_stale_running ::
  "fstore \<Rightarrow> instant \<Rightarrow> string \<Rightarrow> instant \<Rightarrow> (int list \<times> fstore) res" where
  "recover_stale_running fs stamp k now =
     bind_res (fs_require fs k) (\<lambda>l.
     bind_res (map_res (recover_chunk now) (bl_chunks l)) (\<lambda>rs.
       let recovered = map (\<lambda>(r, b). cr_index r) (filter snd rs) in
       if recovered = [] then Inr ([], fs)
       else Inr (recovered, fs_save fs stamp (l\<lparr>bl_chunks := map fst rs\<rparr>))))"

definition retryable_chunk_indexes :: "fstore \<Rightarrow> string \<Rightarrow> int list res" where
  "retryable_chunk_indexes fs k =
     bind_res (fs_require fs k) (\<lambda>l.
       Inr (map cr_index (filter (\<lambda>r. cr_status r \<in> {status_failed, status_pending}) (bl_chunks l))))"

end
