(* ===== verification/Bf_Store_Proofs.thy ===== *)
theory Bf_Store_Proofs
  imports Bf_FileStore
begin

text \<open>
  What the filesystem store promises. Its invariant (every file is the document of a
  well-formed ledger of that key) is preserved by every operation; on such a store an
  operation is a function of the ledger; a finished chunk stays finished; a chunk is leased
  to one owner at a time and completed only by that owner; recovery fails exactly the
  running chunks whose lease has ended.
\<close>

section \<open>The invariant\<close>

definition store_ok :: "fstore \<Rightarrow> bool" where
  "store_ok fs = list_all (\<lambda>(k, doc). case ledger_from_dict doc of
      Inl _ \<Rightarrow> False
    | Inr l \<Rightarrow> ledger_wf l \<and> bl_run_key l = k) (fs_files fs)"

definition view :: "fstore \<Rightarrow> string \<Rightarrow> ledger option" where
  "view fs k = (case fs_load fs k of Inl _ \<Rightarrow> None | Inr r \<Rightarrow> r)"

lemma store_ok_get:
  assumes "store_ok fs" "dict_get (fs_files fs) k = Some doc"
  obtains l where "ledger_from_dict doc = Inr l" "ledger_wf l" "bl_run_key l = k"
  using assms(1) map_of_SomeD [OF assms(2)]
  by (cases "ledger_from_dict doc") (fastforce simp: store_ok_def list_all_iff)+

lemma fs_load_view: "store_ok fs \<Longrightarrow> fs_load fs k = Inr (view fs k)"
  by (cases "dict_get (fs_files fs) k") (auto simp: fs_load_def view_def elim: store_ok_get)

lemma view_wf: "store_ok fs \<Longrightarrow> view fs k = Some l \<Longrightarrow> ledger_wf l \<and> bl_run_key l = k"
  by (cases "dict_get (fs_files fs) k") (auto simp: fs_load_def view_def elim: store_ok_get)

lemma fs_require_view: "store_ok fs \<Longrightarrow> fs_require fs k = Inr l \<longleftrightarrow> view fs k = Some l"
  by (simp add: fs_require_def fs_load_view split: option.split)

lemma stamped_simps [simp]:
  "bl_run_key (stamped t l) = bl_run_key l" "bl_status (stamped t l) = bl_status l"
  "bl_chunks (stamped t l) = bl_chunks l" "bl_lock_owner (stamped t l) = bl_lock_owner l"
  "bl_lock_expires_at (stamped t l) = bl_lock_expires_at l" "bl_publication (stamped t l) = bl_publication l"
  "ledger_wf (stamped t l) = ledger_wf l" "cancel_requested (stamped t l) = cancel_requested l"
  "published (stamped t l) = published l"
  by (simp_all add: stamped_def ledger_wf_def cancel_requested_def published_def)

lemma set_update_subset: "set (AList.update k v d) \<subseteq> insert (k, v) (set d)"
  by (induction d) auto

text \<open>Saving a ledger and reading it back.\<close>

lemma view_save:
  "ledger_wf l \<Longrightarrow> view (fs_save fs t l) k = (if k = bl_run_key l then Some (stamped t l) else view fs k)"
  using ledger_roundtrip [of "stamped t l"]
  by (simp add: view_def fs_load_def fs_save_def write_exact_snapshot_def)

lemma store_ok_save:
  assumes "store_ok fs" "ledger_wf l"
  shows "store_ok (fs_save fs t l)"
proof -
  have "ledger_from_dict (ledger_to_jsonable (stamped t l)) = Inr (stamped t l)"
    using assms(2) by (intro ledger_roundtrip) simp
  then show ?thesis
    using assms set_update_subset [of "bl_run_key l" "ledger_to_jsonable (stamped t l)" "fs_files fs"]
    by (auto simp: store_ok_def fs_save_def write_exact_snapshot_def list_all_iff)
qed

lemma store_ok_empty [simp]: "store_ok empty_store"
  by (simp add: store_ok_def empty_store_def)

section \<open>Updating one chunk\<close>

lemma put_chunk_index: "map cr_index (put_chunk r rs) = (if cr_index r \<in> cr_index ` set rs then map cr_index rs
    else map cr_index rs @ [cr_index r])"
  by (induction rs) auto

lemma put_chunk_wf: "list_all chunk_record_wf rs \<Longrightarrow> chunk_record_wf r \<Longrightarrow> list_all chunk_record_wf (put_chunk r rs)"
  by (induction rs) auto

lemma find_put_chunk:
  "find (\<lambda>x. cr_index x = i) (put_chunk r rs) = (if i = cr_index r then Some r else find (\<lambda>x. cr_index x = i) rs)"
  by (induction rs) auto

definition with_chunk :: "instant \<Rightarrow> ledger \<Rightarrow> chunk_record \<Rightarrow> ledger" where
  "with_chunk t l r =
     stamped t (l\<lparr>bl_chunks := put_chunk (r\<lparr>cr_updated_at := PStr (utc_text t)\<rparr>) (bl_chunks l)\<rparr>)"

lemma with_chunk_simps [simp]:
  "bl_run_key (with_chunk t l r) = bl_run_key l" "bl_status (with_chunk t l r) = bl_status l"
  "bl_lock_owner (with_chunk t l r) = bl_lock_owner l"
  "bl_lock_expires_at (with_chunk t l r) = bl_lock_expires_at l"
  "bl_publication (with_chunk t l r) = bl_publication l"
  by (simp_all add: with_chunk_def)

lemma ledger_chunk_with_chunk:
  "ledger_chunk (with_chunk t l r) i =
     (if i = cr_index r then Inr (r\<lparr>cr_updated_at := PStr (utc_text t)\<rparr>) else ledger_chunk l i)"
  by (simp add: ledger_chunk_def with_chunk_def find_put_chunk)

lemma with_chunk_wf: "ledger_wf l \<Longrightarrow> cr_status r \<noteq> [] \<Longrightarrow> ledger_wf (with_chunk t l r)"
  by (simp add: with_chunk_def) (simp add: ledger_wf_def put_chunk_wf chunk_record_wf_def)

text \<open>On a store in its invariant, \<open>update_chunk\<close> replaces the record in the stored ledger.\<close>

lemma fs_update_chunk_ok:
  assumes "store_ok fs" "view fs k = Some l" "cr_status r \<noteq> []"
  obtains fs' where "fs_update_chunk fs t l r = Inr fs'" "store_ok fs'"
    "\<And>j. view fs' j = (if j = k then Some (with_chunk t l r) else view fs j)"
    "fs_init fs' = fs_init fs"
proof -
  let ?l = "l\<lparr>bl_chunks := put_chunk (r\<lparr>cr_updated_at := PStr (utc_text t)\<rparr>) (bl_chunks l)\<rparr>"
  from view_wf [OF assms(1,2)] have l: "ledger_wf l" "bl_run_key l = k" by auto
  have wf: "ledger_wf ?l"
    using with_chunk_wf [OF l(1) assms(3), of t] by (simp add: with_chunk_def)
  have "fs_update_chunk fs t l r = Inr (fs_save fs t ?l)"
    using fs_load_view [OF assms(1)] assms(2) l by (simp add: fs_update_chunk_def Let_def)
  moreover have "store_ok (fs_save fs t ?l)" by (rule store_ok_save [OF assms(1) wf])
  moreover have "view (fs_save fs t ?l) j = (if j = k then Some (with_chunk t l r) else view fs j)" for j
    using view_save [OF wf] l by (simp add: with_chunk_def)
  moreover have "fs_init (fs_save fs t ?l) = fs_init fs"
    by (simp add: fs_save_def write_exact_snapshot_def)
  ultimately show ?thesis by (rule that)
qed

section \<open>Expiry\<close>

lemma expired_utc_text [simp]:
  "instant_valid e \<Longrightarrow> expired now (PStr (utc_text e)) = Inr (e \<le> now)"
  by (auto simp: expired_def dt_less_def)

lemma expired_none [simp]: "expired now PNone = Inr True"
  by (simp add: expired_def)

lemma datetime_fromisoformat_utc_text [simp]:
  "instant_valid t \<Longrightarrow> datetime_fromisoformat (utc_text t) = Inr (of_instant t)"
  by (simp add: utc_text_def of_instant_valid)

lemma extends_utc_text [simp]:
  "instant_valid c \<Longrightarrow> extends (PStr (utc_text c)) e = Inr (c < e)"
  by (simp add: extends_def py_str_def dt_less_def)

lemma truthy_utc_text [simp]: "py_truthy (PStr (utc_text t))"
  by simp

section \<open>What each operation does to the ledger\<close>

text \<open>\<open>becomes fs fs' k l\<close>: the store stays in its invariant and only the ledger of \<open>k\<close> changed.\<close>

definition becomes :: "fstore \<Rightarrow> fstore \<Rightarrow> string \<Rightarrow> ledger \<Rightarrow> bool" where
  "becomes fs fs' k l = (store_ok fs' \<and> (\<forall>j. view fs' j = (if j = k then Some l else view fs j)))"

lemma becomes_save:
  assumes "store_ok fs" "view fs k = Some l0" "ledger_wf l" "bl_run_key l = k"
  shows "becomes fs (fs_save fs t l) k (stamped t l)"
  using store_ok_save [OF assms(1,3)] view_save [OF assms(3)] assms(4) by (simp add: becomes_def)

lemma becomes_update_chunk:
  assumes "store_ok fs" "view fs k = Some l" "cr_status r \<noteq> []" "fs_update_chunk fs t l r = Inr fs'"
  shows "becomes fs fs' k (with_chunk t l r)"
  using fs_update_chunk_ok [OF assms(1-3), of t] assms(4) by (metis becomes_def sum.inject(2))

lemma ledger_chunk_index: "ledger_chunk l i = Inr r \<Longrightarrow> cr_index r = i"
  by (auto simp: ledger_chunk_def find_Some_iff split: option.splits)

lemma ledger_wf_locks [simp]:
  "ledger_wf (l\<lparr>bl_lock_owner := a\<rparr>) = ledger_wf l"
  "ledger_wf (l\<lparr>bl_lock_expires_at := b\<rparr>) = ledger_wf l"
  by (simp_all add: ledger_wf_def)

definition reactivated :: "ledger \<Rightarrow> ledger" where
  "reactivated l = (if cancel_requested l
     then l\<lparr>bl_status := ''active'', bl_cancel_reason := PNone, bl_cancel_requested_by := PNone\<rparr> else l)"

lemma reactivated_simps [simp]:
  "bl_run_key (reactivated l) = bl_run_key l" "bl_chunks (reactivated l) = bl_chunks l"
  "bl_lock_owner (reactivated l) = bl_lock_owner l" "bl_lock_expires_at (reactivated l) = bl_lock_expires_at l"
  "ledger_wf l \<Longrightarrow> ledger_wf (reactivated l)"
  by (simp_all add: reactivated_def ledger_wf_def)

lemma acquire_campaign_cases:
  assumes "store_ok fs" "acquire_campaign_lock fs now t k owner e = Inr (b, fs')"
  obtains "\<not> b" "fs' = fs"
  | l where "b" "view fs k = Some l" "cancel_requested l \<Longrightarrow> published l"
      "py_truthy (bl_lock_owner l) \<Longrightarrow> expired now (bl_lock_expires_at l) = Inr True"
      "becomes fs fs' k (stamped t ((reactivated l)\<lparr>bl_lock_owner := PStr owner, bl_lock_expires_at := PStr (utc_text e)\<rparr>))"
proof -
  from assms obtain l where l: "view fs k = Some l"
    by (auto simp: acquire_campaign_lock_def bind_res_eq_Inr fs_require_view)
  from view_wf [OF assms(1) l] have wf: "ledger_wf l" "bl_run_key l = k" by auto
  from assms(2) l show ?thesis
    using that becomes_save [OF assms(1) l, of "(reactivated l)\<lparr>bl_lock_owner := PStr owner, bl_lock_expires_at := PStr (utc_text e)\<rparr>" t] wf
    by (auto simp: acquire_campaign_lock_def bind_res_eq_Inr fs_require_view [OF assms(1)] Let_def
        reactivated_def [symmetric] split: if_splits)
qed

lemma release_campaign_cases:
  assumes "store_ok fs" "release_campaign_lock fs t k owner = Inr fs'"
  obtains l where "view fs k = Some l" "bl_lock_owner l = PStr owner"
      "becomes fs fs' k (stamped t (l\<lparr>bl_lock_owner := PNone, bl_lock_expires_at := PNone\<rparr>))"
  | l where "view fs k = Some l" "bl_lock_owner l \<noteq> PStr owner" "fs' = fs"
proof -
  from assms obtain l where l: "view fs k = Some l"
    by (auto simp: release_campaign_lock_def bind_res_eq_Inr fs_require_view)
  from view_wf [OF assms(1) l] have wf: "ledger_wf l" "bl_run_key l = k" by auto
  from assms(2) l show ?thesis
    using that becomes_save [OF assms(1) l, of "l\<lparr>bl_lock_owner := PNone, bl_lock_expires_at := PNone\<rparr>" t] wf
    by (auto simp: release_campaign_lock_def bind_res_eq_Inr fs_require_view [OF assms(1)] split: if_splits)
qed

lemma renew_campaign_cases:
  assumes "store_ok fs" "renew_campaign_lock fs now t k owner e = Inr (b, fs')"
  obtains "\<not> b" "fs' = fs"
  | l where "b" "view fs k = Some l" "bl_lock_owner l = PStr owner"
      "expired now (bl_lock_expires_at l) = Inr False" "now < e" "cancel_requested l \<Longrightarrow> published l"
      "extends (bl_lock_expires_at l) e = Inr False" "fs' = fs"
  | l where "b" "view fs k = Some l" "bl_lock_owner l = PStr owner"
      "expired now (bl_lock_expires_at l) = Inr False" "now < e" "cancel_requested l \<Longrightarrow> published l"
      "extends (bl_lock_expires_at l) e = Inr True"
      "becomes fs fs' k (stamped t (l\<lparr>bl_lock_expires_at := PStr (utc_text e)\<rparr>))"
proof -
  from assms obtain l where l: "view fs k = Some l"
    by (auto simp: renew_campaign_lock_def renew_campaign_lock_if_owned_def bind_res_eq_Inr fs_require_view)
  from view_wf [OF assms(1) l] have wf: "ledger_wf l" "bl_run_key l = k" by auto
  define l' where "l' = l\<lparr>bl_lock_expires_at := PStr (utc_text e)\<rparr>"
  have b: "becomes fs (fs_save fs t l') k (stamped t l')"
    using becomes_save [OF assms(1) l, of l' t] wf by (simp add: l'_def)
  have req: "fs_require fs k = Inr l" using l by (simp add: fs_require_view [OF assms(1)])
  note run = assms(2) [unfolded renew_campaign_lock_def renew_campaign_lock_if_owned_def req bind_res_simps if_False,
      folded l'_def]
  show ?thesis
  proof (cases "cancel_requested l \<and> \<not> published l \<or> bl_lock_owner l \<noteq> PStr owner")
    case True
    with run that(1) show ?thesis by (simp split: if_splits)
  next
    case False
    then have own: "bl_lock_owner l = PStr owner" "cancel_requested l \<Longrightarrow> published l" by auto
    from False have c: "(cancel_requested l \<and> \<not> published l) = False" "(bl_lock_owner l \<noteq> PStr owner) = False" by auto
    note run = run [unfolded c if_False]
    then obtain gone where g: "expired now (bl_lock_expires_at l) = Inr gone" by (auto simp: bind_res_eq_Inr)
    note run = run [unfolded g bind_res_simps]
    show ?thesis
    proof (cases "gone \<or> e \<le> now")
      case True
      with run that(1) show ?thesis by simp
    next
      case fresh: False
      with g have "py_truthy (bl_lock_expires_at l)" by (simp add: expired_def split: if_splits)
      with fresh run obtain later where later: "extends (bl_lock_expires_at l) e = Inr later"
        and r: "(if later then Inr (True, fs_save fs t l') else Inr (True, fs)) = (Inr (b, fs') :: (bool \<times> fstore) res)"
        by (cases "extends (bl_lock_expires_at l) e") auto
      show ?thesis
        using that(2,3) [OF _ l own(1) _ _ own(2)] later r g fresh b by (cases later) (simp_all add: l'_def)
    qed
  qed
qed

lemma request_cancel_cases:
  assumes "store_ok fs" "request_cancel fs t k reason who = Inr fs'"
  obtains l where "view fs k = Some l" "\<not> published l"
      "becomes fs fs' k (stamped t (l\<lparr>bl_status := ''cancel_requested'', bl_cancel_reason := PStr reason,
         bl_cancel_requested_by := PStr who\<rparr>))"
proof -
  from assms obtain l where l: "view fs k = Some l"
    by (auto simp: request_cancel_def bind_res_eq_Inr fs_require_view)
  let ?l = "l\<lparr>bl_status := ''cancel_requested'', bl_cancel_reason := PStr reason, bl_cancel_requested_by := PStr who\<rparr>"
  from view_wf [OF assms(1) l] have wf: "ledger_wf ?l" "bl_run_key ?l = k" by (auto simp: ledger_wf_def)
  from assms(2) l show ?thesis
    using that becomes_save [OF assms(1) l wf, of t]
    by (auto simp: request_cancel_def bind_res_eq_Inr fs_require_view [OF assms(1)] split: if_splits)
qed

lemma acquire_chunk_cases:
  assumes "store_ok fs" "acquire_chunk_lease fs now t k i owner e = Inr (b, fs')"
  obtains "\<not> b" "fs' = fs"
  | l r where "b" "view fs k = Some l" "\<not> cancel_requested l" "ledger_chunk l i = Inr r"
      "cr_status r \<noteq> status_success"
      "cr_status r = status_running \<Longrightarrow> expired now (cr_lease_expires_at r) = Inr True"
      "becomes fs fs' k (with_chunk t l
         (r\<lparr>cr_status := status_running, cr_attempts := cr_attempts r + 1, cr_lease_owner := PStr owner,
            cr_lease_expires_at := PStr (utc_text e),
            cr_started_at := py_or (cr_started_at r) (PStr (utc_text t)), cr_error := PNone\<rparr>))"
proof -
  from assms obtain l where l: "view fs k = Some l"
    by (auto simp: acquire_chunk_lease_def bind_res_eq_Inr fs_require_view)
  from assms(2) l show ?thesis
    using that
    by (auto simp: acquire_chunk_lease_def bind_res_eq_Inr fs_require_view [OF assms(1)] status_defs
        dest!: becomes_update_chunk [OF assms(1) l, rotated] split: if_splits)
qed

lemma complete_chunk_cases:
  assumes "store_ok fs" "cr_status r \<noteq> []" "complete_chunk_if_owned fs t k r owner = Inr (b, fs')"
  obtains "\<not> b" "fs' = fs"
  | l c where "b" "view fs k = Some l" "ledger_chunk l (cr_index r) = Inr c" "cr_status c = status_running"
      "cr_lease_owner c = PStr owner"
      "becomes fs fs' k (with_chunk t l (r\<lparr>cr_lease_owner := PNone, cr_lease_expires_at := PNone\<rparr>))"
proof -
  from assms obtain l where l: "view fs k = Some l"
    by (auto simp: complete_chunk_if_owned_def bind_res_eq_Inr fs_require_view)
  from assms(2,3) l show ?thesis
    using that
    by (auto simp: complete_chunk_if_owned_def bind_res_eq_Inr fs_require_view [OF assms(1)]
        dest!: becomes_update_chunk [OF assms(1) l, rotated] split: if_splits)
qed

lemma renew_chunk_cases:
  assumes "store_ok fs" "renew_chunk_lease fs now t k i owner e = Inr (b, fs')"
  obtains "fs' = fs"
  | l r where "b" "view fs k = Some l" "ledger_chunk l i = Inr r" "cr_status r = status_running"
      "cr_lease_owner r = PStr owner" "expired now (cr_lease_expires_at r) = Inr False" "now < e"
      "extends (cr_lease_expires_at r) e = Inr True"
      "becomes fs fs' k (with_chunk t l (r\<lparr>cr_lease_expires_at := PStr (utc_text e)\<rparr>))"
proof -
  from assms obtain l where l: "view fs k = Some l"
    by (auto simp: renew_chunk_lease_def bind_res_eq_Inr fs_require_view)
  from assms(2) l show ?thesis
    using that
    by (auto simp: renew_chunk_lease_def bind_res_eq_Inr fs_require_view [OF assms(1)] status_defs
        dest!: becomes_update_chunk [OF assms(1) l, rotated] split: if_splits)
qed

text \<open>Recovery visits every chunk: it keeps the indexes, and fails exactly the stale ones.\<close>

definition stale :: "instant \<Rightarrow> chunk_record \<Rightarrow> bool" where
  "stale now r = (cr_status r = status_running \<and> expired now (cr_lease_expires_at r) = Inr True)"

definition failed_stale :: "chunk_record \<Rightarrow> chunk_record" where
  "failed_stale r = r\<lparr>cr_status := status_failed, cr_error := PStr ''lease_expired'',
     cr_lease_owner := PNone, cr_lease_expires_at := PNone\<rparr>"

definition recovered_chunk :: "instant \<Rightarrow> chunk_record \<Rightarrow> chunk_record" where
  "recovered_chunk now r = (if stale now r then failed_stale r else r)"

lemma recover_chunk_Inr: "recover_chunk now r = Inr x \<Longrightarrow> x = (recovered_chunk now r, stale now r)"
  by (auto simp: recover_chunk_def recovered_chunk_def failed_stale_def stale_def bind_res_eq_Inr split: if_splits)

lemma recover_chunks_Inr:
  "map_res (recover_chunk now) rs = Inr xs \<Longrightarrow> xs = map (\<lambda>r. (recovered_chunk now r, stale now r)) rs"
  by (induction rs arbitrary: xs) (auto simp: bind_res_eq_Inr dest: recover_chunk_Inr)

lemma recovered_chunk_index [simp]: "cr_index (recovered_chunk now r) = cr_index r"
  by (simp add: recovered_chunk_def failed_stale_def)

lemma recovered_chunk_wf: "chunk_record_wf r \<Longrightarrow> chunk_record_wf (recovered_chunk now r)"
  by (simp add: recovered_chunk_def failed_stale_def chunk_record_wf_def status_failed_def)

lemma recover_cases:
  assumes "store_ok fs" "recover_stale_running fs t k now = Inr (is, fs')"
  obtains l where "view fs k = Some l" "is = map cr_index (filter (stale now) (bl_chunks l))"
    "is = [] \<Longrightarrow> fs' = fs"
    "is \<noteq> [] \<Longrightarrow> becomes fs fs' k (stamped t (l\<lparr>bl_chunks := map (recovered_chunk now) (bl_chunks l)\<rparr>))"
proof -
  from assms obtain l xs where l: "view fs k = Some l" and xs: "map_res (recover_chunk now) (bl_chunks l) = Inr xs"
    and res: "(let rec = map (\<lambda>(r, b). cr_index r) (filter snd xs) in if rec = [] then Inr ([], fs)
      else Inr (rec, fs_save fs t (l\<lparr>bl_chunks := map fst xs\<rparr>))) = (Inr (is, fs') :: (int list \<times> fstore) res)"
    by (auto simp: recover_stale_running_def bind_res_eq_Inr fs_require_view)
  note xs = recover_chunks_Inr [OF xs]
  let ?l = "l\<lparr>bl_chunks := map (recovered_chunk now) (bl_chunks l)\<rparr>"
  from view_wf [OF assms(1) l] have wf: "ledger_wf ?l" "bl_run_key ?l = k"
    by (auto simp: ledger_wf_def list_all_iff recovered_chunk_wf)
  have "map (\<lambda>(r, b). cr_index r) (filter snd xs) = map cr_index (filter (stale now) (bl_chunks l))"
    by (simp add: xs filter_map comp_def)
  moreover have "map fst xs = map (recovered_chunk now) (bl_chunks l)" by (simp add: xs)
  ultimately show ?thesis
    using that [OF l] res becomes_save [OF assms(1) l wf, of t] by (auto simp: Let_def split: if_splits)
qed

section \<open>Traces of operations\<close>

text \<open>
  The operations of the callers that share one store object, in any order; its lock makes each
  of them atomic (other processes have a store object and a lock of their own, and are not
  covered). An operation that raises leaves the store as it is. \<open>OpCreate\<close> is the creation of a
  campaign that has no ledger yet; \<open>OpSave\<close> and \<open>OpUpdateChunk\<close> are the public \<open>save\<close> and
  \<open>update_chunk\<close>, which write whatever the caller hands over, also a ledger or a record that was
  read earlier and is out of date.
\<close>

datatype file_op =
    OpCreate ledger
  | OpSave ledger
  | OpUpdateChunk ledger chunk_record
  | OpAcquireCampaign string instant
  | OpRenewCampaign string instant
  | OpReleaseCampaign string
  | OpCancel string string
  | OpAcquireInit string
  | OpReleaseInit string
  | OpAcquireChunk int string instant
  | OpRenewChunk int string instant
  | OpComplete chunk_record string
  | OpRecover

definition kept :: "fstore \<Rightarrow> fstore res \<Rightarrow> fstore" where
  "kept fs r = (case r of Inl _ \<Rightarrow> fs | Inr fs' \<Rightarrow> fs')"

definition kept2 :: "fstore \<Rightarrow> ('a \<times> fstore) res \<Rightarrow> fstore" where
  "kept2 fs r = (case r of Inl _ \<Rightarrow> fs | Inr (_, fs') \<Rightarrow> fs')"

fun apply_op :: "fstore \<Rightarrow> instant \<Rightarrow> instant \<Rightarrow> string \<Rightarrow> file_op \<Rightarrow> fstore" where
  "apply_op fs now t k (OpCreate l) =
     (if bl_run_key l = k \<and> fs_load fs k = Inr None then fs_save fs t l else fs)"
| "apply_op fs now t k (OpSave l) = (if bl_run_key l = k then fs_save fs t l else fs)"
| "apply_op fs now t k (OpUpdateChunk l r) = (if bl_run_key l = k then kept fs (fs_update_chunk fs t l r) else fs)"
| "apply_op fs now t k (OpAcquireCampaign owner e) = kept2 fs (acquire_campaign_lock fs now t k owner e)"
| "apply_op fs now t k (OpRenewCampaign owner e) = kept2 fs (renew_campaign_lock fs now t k owner e)"
| "apply_op fs now t k (OpReleaseCampaign owner) = kept fs (release_campaign_lock fs t k owner)"
| "apply_op fs now t k (OpCancel reason who) = kept fs (request_cancel fs t k reason who)"
| "apply_op fs now t k (OpAcquireInit owner) = snd (acquire_initialization_lock fs k owner)"
| "apply_op fs now t k (OpReleaseInit owner) = release_initialization_lock fs k owner"
| "apply_op fs now t k (OpAcquireChunk i owner e) = kept2 fs (acquire_chunk_lease fs now t k i owner e)"
| "apply_op fs now t k (OpRenewChunk i owner e) = kept2 fs (renew_chunk_lease fs now t k i owner e)"
| "apply_op fs now t k (OpComplete r owner) = kept2 fs (complete_chunk_if_owned fs t k r owner)"
| "apply_op fs now t k OpRecover = kept2 fs (recover_stale_running fs t k now)"

fun op_ok :: "file_op \<Rightarrow> bool" where
  "op_ok (OpCreate l) = ledger_wf l"
| "op_ok (OpSave l) = ledger_wf l"
| "op_ok (OpUpdateChunk l r) = (ledger_wf l \<and> cr_status r \<noteq> [])"
| "op_ok (OpComplete r owner) = (cr_status r \<noteq> [])"
| "op_ok op = True"

type_synonym file_event = "instant \<times> instant \<times> string \<times> file_op"

definition apply_event :: "fstore \<Rightarrow> file_event \<Rightarrow> fstore" where
  "apply_event fs ev = (case ev of (now, t, k, op) \<Rightarrow> apply_op fs now t k op)"

definition event_ok :: "file_event \<Rightarrow> bool" where
  "event_ok ev = (case ev of (now, t, k, op) \<Rightarrow> op_ok op)"

definition run_events :: "fstore \<Rightarrow> file_event list \<Rightarrow> fstore" where
  "run_events fs evs = foldl apply_event fs evs"

text \<open>Every operation either leaves the files alone or changes one ledger.\<close>

lemma kept_cases: "kept fs r = fs \<or> (\<exists>fs'. r = Inr fs' \<and> kept fs r = fs')"
  by (cases r) (auto simp: kept_def)

lemma kept2_cases: "kept2 fs r = fs \<or> (\<exists>b fs'. r = Inr (b, fs') \<and> kept2 fs r = fs')"
  by (cases r) (auto simp: kept2_def)

lemma init_lock_files:
  "fs_files (snd (acquire_initialization_lock fs k owner)) = fs_files fs"
  "fs_files (release_initialization_lock fs k owner) = fs_files fs"
  by (simp_all add: acquire_initialization_lock_def release_initialization_lock_def split: option.split)

lemma same_files_view: "fs_files fs' = fs_files fs \<Longrightarrow> view fs' = view fs \<and> store_ok fs' = store_ok fs"
  by (auto simp: view_def fs_load_def store_ok_def)

definition chunk_at :: "fstore \<Rightarrow> string \<Rightarrow> int \<Rightarrow> chunk_record option" where
  "chunk_at fs k i = (case view fs k of None \<Rightarrow> None
     | Some l \<Rightarrow> find (\<lambda>r. cr_index r = i) (bl_chunks l))"

lemma ledger_chunk_find: "ledger_chunk l i = Inr r \<longleftrightarrow> find (\<lambda>r. cr_index r = i) (bl_chunks l) = Some r"
  by (simp add: ledger_chunk_def split: option.split)

lemma chunk_at_becomes:
  "becomes fs fs' k l \<Longrightarrow> chunk_at fs' k' i =
     (if k' = k then find (\<lambda>r. cr_index r = i) (bl_chunks l) else chunk_at fs k' i)"
  by (simp add: becomes_def chunk_at_def)

lemma chunk_at_same_chunks:
  "becomes fs fs' k l' \<Longrightarrow> view fs k = Some l \<Longrightarrow> bl_chunks l' = bl_chunks l \<Longrightarrow> chunk_at fs' = chunk_at fs"
  by (rule ext, rule ext) (simp add: chunk_at_becomes, simp add: chunk_at_def)

lemma chunk_at_with_chunk:
  assumes "becomes fs fs' k (with_chunk t l r)" "view fs k = Some l"
  shows "chunk_at fs' k' i = (if k' = k \<and> i = cr_index r then Some (r\<lparr>cr_updated_at := PStr (utc_text t)\<rparr>)
    else chunk_at fs k' i)"
  using chunk_at_becomes [OF assms(1), of k' i] assms(2)
  by (simp add: with_chunk_def find_put_chunk chunk_at_def)

section \<open>The life of a chunk\<close>

text \<open>
  The state machine of one chunk, labelled with the operation that moves it: leasing a
  chunk that is not finished and not leased, renewing or completing a lease as its owner,
  and failing a stale one. A raw save or a raw update puts in its place what the caller wrote.
\<close>

inductive chunk_move ::
  "instant \<Rightarrow> instant \<Rightarrow> file_op \<Rightarrow> int \<Rightarrow> chunk_record option \<Rightarrow> chunk_record option \<Rightarrow> bool"
  for now t :: instant where
  move_stay: "chunk_move now t op i x x"
| move_create: "chunk_move now t (OpCreate l) i None x"
| move_save: "chunk_move now t (OpSave l) i x (find (\<lambda>r. cr_index r = i) (bl_chunks l))"
| move_update: "cr_index r = i
    \<Longrightarrow> chunk_move now t (OpUpdateChunk l r) i x (Some (r\<lparr>cr_updated_at := PStr (utc_text t)\<rparr>))"
| move_update_new: "cr_index r \<noteq> i
    \<Longrightarrow> chunk_move now t (OpUpdateChunk l r) i None (find (\<lambda>r. cr_index r = i) (bl_chunks l))"
| move_lease: "cr_status r \<noteq> status_success
    \<Longrightarrow> (cr_status r = status_running \<Longrightarrow> expired now (cr_lease_expires_at r) = Inr True)
    \<Longrightarrow> chunk_move now t (OpAcquireChunk i owner e) i (Some r)
        (Some (r\<lparr>cr_status := status_running, cr_attempts := cr_attempts r + 1, cr_lease_owner := PStr owner,
                 cr_lease_expires_at := PStr (utc_text e),
                 cr_started_at := py_or (cr_started_at r) (PStr (utc_text t)), cr_error := PNone,
                 cr_updated_at := PStr (utc_text t)\<rparr>))"
| move_renew: "cr_status r = status_running \<Longrightarrow> cr_lease_owner r = PStr owner
    \<Longrightarrow> expired now (cr_lease_expires_at r) = Inr False \<Longrightarrow> extends (cr_lease_expires_at r) e = Inr True
    \<Longrightarrow> chunk_move now t (OpRenewChunk i owner e) i (Some r)
        (Some (r\<lparr>cr_lease_expires_at := PStr (utc_text e), cr_updated_at := PStr (utc_text t)\<rparr>))"
| move_complete: "cr_status r = status_running \<Longrightarrow> cr_lease_owner r = PStr owner \<Longrightarrow> cr_index r' = i
    \<Longrightarrow> chunk_move now t (OpComplete r' owner) i (Some r)
        (Some (r'\<lparr>cr_lease_owner := PNone, cr_lease_expires_at := PNone, cr_updated_at := PStr (utc_text t)\<rparr>))"
| move_recover: "stale now r \<Longrightarrow> chunk_move now t OpRecover i (Some r) (Some (failed_stale r))"

lemma find_recovered:
  "find (\<lambda>r. cr_index r = i) (map (recovered_chunk now) rs)
    = map_option (recovered_chunk now) (find (\<lambda>r. cr_index r = i) rs)"
  by (induction rs) auto

lemma stale_none_indexes: "map cr_index (filter (stale now) rs) = [] \<Longrightarrow> r \<in> set rs \<Longrightarrow> \<not> stale now r"
  by (auto simp: filter_empty_conv)

text \<open>
  Every operation keeps the store's invariant, moves the chunks of its own key as the state
  machine allows, and leaves the ledgers of other keys alone.
\<close>

definition op_effect :: "fstore \<Rightarrow> instant \<Rightarrow> instant \<Rightarrow> string \<Rightarrow> file_op \<Rightarrow> fstore \<Rightarrow> bool" where
  "op_effect fs now t k op fs' = (store_ok fs'
     \<and> (\<forall>i. chunk_move now t op i (chunk_at fs k i) (chunk_at fs' k i))
     \<and> (\<forall>j. j \<noteq> k \<longrightarrow> view fs' j = view fs j))"

lemma op_effect_same: "store_ok fs \<Longrightarrow> op_effect fs now t k op fs"
  by (simp add: op_effect_def move_stay)

lemma op_effect_same_chunks:
  "becomes fs fs' k l' \<Longrightarrow> view fs k = Some l \<Longrightarrow> bl_chunks l' = bl_chunks l \<Longrightarrow> op_effect fs now t k op fs'"
  using chunk_at_same_chunks [of fs fs' k l' l] by (simp add: op_effect_def becomes_def move_stay)

lemma op_effect_with_chunk:
  assumes "becomes fs fs' k (with_chunk t l r')" "view fs k = Some l" "ledger_chunk l (cr_index r') = Inr r"
    "chunk_move now t op (cr_index r') (Some r) (Some (r'\<lparr>cr_updated_at := PStr (utc_text t)\<rparr>))"
  shows "op_effect fs now t k op fs'"
proof -
  have "chunk_at fs k (cr_index r') = Some r"
    using assms(2,3) by (simp add: chunk_at_def ledger_chunk_find)
  with assms(1,4) show ?thesis
    by (auto simp: op_effect_def becomes_def chunk_at_with_chunk [OF assms(1,2)] intro: move_stay)
qed

lemma acquire_chunk_effect:
  assumes "store_ok fs" "acquire_chunk_lease fs now t k i owner e = Inr (b, fs')"
  shows "op_effect fs now t k (OpAcquireChunk i owner e) fs'"
  using assms(1,2)
proof (rule acquire_chunk_cases)
  fix l r
  assume l: "view fs k = Some l" "ledger_chunk l i = Inr r" and r: "cr_status r \<noteq> status_success"
    "cr_status r = status_running \<Longrightarrow> expired now (cr_lease_expires_at r) = Inr True"
    and b: "becomes fs fs' k (with_chunk t l
      (r\<lparr>cr_status := status_running, cr_attempts := cr_attempts r + 1, cr_lease_owner := PStr owner,
         cr_lease_expires_at := PStr (utc_text e),
         cr_started_at := py_or (cr_started_at r) (PStr (utc_text t)), cr_error := PNone\<rparr>))"
  from ledger_chunk_index [OF l(2)] move_lease [OF r, where t = t and i = i and owner = owner and e = e]
  show ?thesis by (intro op_effect_with_chunk [OF b l(1)]) (simp_all add: l(2))
qed (simp add: op_effect_same [OF assms(1)])

lemma renew_chunk_effect:
  assumes "store_ok fs" "renew_chunk_lease fs now t k i owner e = Inr (b, fs')"
  shows "op_effect fs now t k (OpRenewChunk i owner e) fs'"
  using assms(1,2)
proof (rule renew_chunk_cases)
  fix l r
  assume l: "view fs k = Some l" "ledger_chunk l i = Inr r" and r: "cr_status r = status_running"
    "cr_lease_owner r = PStr owner" "expired now (cr_lease_expires_at r) = Inr False"
    "extends (cr_lease_expires_at r) e = Inr True"
    and b: "becomes fs fs' k (with_chunk t l (r\<lparr>cr_lease_expires_at := PStr (utc_text e)\<rparr>))"
  from ledger_chunk_index [OF l(2)] move_renew [OF r, where t = t and i = i]
  show ?thesis by (intro op_effect_with_chunk [OF b l(1)]) (simp_all add: l(2))
qed (simp add: op_effect_same [OF assms(1)])

lemma complete_chunk_effect:
  assumes "store_ok fs" "cr_status r \<noteq> []" "complete_chunk_if_owned fs t k r owner = Inr (b, fs')"
  shows "op_effect fs now t k (OpComplete r owner) fs'"
  using assms(1-3)
proof (rule complete_chunk_cases)
  fix l c
  assume l: "view fs k = Some l" "ledger_chunk l (cr_index r) = Inr c" and c: "cr_status c = status_running"
    "cr_lease_owner c = PStr owner"
    and b: "becomes fs fs' k (with_chunk t l (r\<lparr>cr_lease_owner := PNone, cr_lease_expires_at := PNone\<rparr>))"
  from move_complete [OF c refl, where t = t and now = now and r' = r]
  show ?thesis by (intro op_effect_with_chunk [OF b l(1)]) (simp_all add: l(2))
qed (simp add: op_effect_same [OF assms(1)])

lemma recover_effect:
  assumes "store_ok fs" "recover_stale_running fs t k now = Inr (is, fs')"
  shows "op_effect fs now t k OpRecover fs'"
  using assms
proof (rule recover_cases)
  fix l
  assume l: "view fs k = Some l" "is = [] \<Longrightarrow> fs' = fs"
    "is \<noteq> [] \<Longrightarrow> becomes fs fs' k (stamped t (l\<lparr>bl_chunks := map (recovered_chunk now) (bl_chunks l)\<rparr>))"
  show ?thesis
  proof (cases "is = []")
    case True
    with l(2) op_effect_same [OF assms(1)] show ?thesis by simp
  next
    case False
    note b = l(3) [OF False]
    have "chunk_at fs' k i = map_option (recovered_chunk now) (chunk_at fs k i)" for i
      by (simp add: chunk_at_becomes [OF b] find_recovered) (simp add: chunk_at_def l(1))
    then have "chunk_move now t OpRecover i (chunk_at fs k i) (chunk_at fs' k i)" for i
      using move_recover [of now _ t i]
      by (cases "chunk_at fs k i") (auto simp: recovered_chunk_def intro: move_stay)
    with b show ?thesis by (simp add: op_effect_def becomes_def)
  qed
qed

lemma init_lock_effect:
  "store_ok fs \<Longrightarrow> op_effect fs now t k op (snd (acquire_initialization_lock fs k owner))"
  "store_ok fs \<Longrightarrow> op_effect fs now t k op (release_initialization_lock fs k owner)"
  using same_files_view [OF init_lock_files(1), of fs k owner] same_files_view [OF init_lock_files(2), of fs k owner]
  by (simp_all add: op_effect_def chunk_at_def move_stay)

lemma create_effect:
  assumes "store_ok fs" "ledger_wf l"
  shows "op_effect fs now t k (OpCreate l) (apply_op fs now t k (OpCreate l))"
proof (cases "bl_run_key l = k \<and> fs_load fs k = Inr None")
  case True
  then have "view fs k = None" by (simp add: view_def)
  with True assms show ?thesis
    by (auto simp: op_effect_def store_ok_save view_save chunk_at_def intro: move_create)
qed (use op_effect_same [OF assms(1)] in auto)

lemma save_effect:
  assumes "store_ok fs" "ledger_wf l"
  shows "op_effect fs now t k (OpSave l) (apply_op fs now t k (OpSave l))"
proof (cases "bl_run_key l = k")
  case True
  with assms move_save [of now t l] show ?thesis
    by (simp add: op_effect_def store_ok_save view_save chunk_at_def)
qed (use op_effect_same [OF assms(1)] in simp)

lemma update_chunk_new:
  assumes "store_ok fs" "view fs k = None" "bl_run_key l = k" "ledger_wf l" "cr_status r \<noteq> []"
  shows "fs_update_chunk fs t l r
      = Inr (fs_save fs t (l\<lparr>bl_chunks := put_chunk (r\<lparr>cr_updated_at := PStr (utc_text t)\<rparr>) (bl_chunks l)\<rparr>))"
    "ledger_wf (l\<lparr>bl_chunks := put_chunk (r\<lparr>cr_updated_at := PStr (utc_text t)\<rparr>) (bl_chunks l)\<rparr>)"
  using fs_load_view [OF assms(1), of k] assms(2,3) with_chunk_wf [OF assms(4,5), of t]
  by (simp_all add: fs_update_chunk_def Let_def with_chunk_def)

lemma update_chunk_stored:
  assumes "store_ok fs" "view fs k = Some c" "bl_run_key l = k" "cr_status r \<noteq> []"
  obtains fs' where "fs_update_chunk fs t l r = Inr fs'" "becomes fs fs' k (with_chunk t c r)"
proof -
  from view_wf [OF assms(1,2)] have "fs_update_chunk fs t l r = fs_update_chunk fs t c r"
    using fs_load_view [OF assms(1), of k] assms(2,3) by (simp add: fs_update_chunk_def)
  with fs_update_chunk_ok [OF assms(1,2,4), of t] that show ?thesis by (metis becomes_def)
qed

lemma update_effect:
  assumes "store_ok fs" "ledger_wf l" "cr_status r \<noteq> []"
  shows "op_effect fs now t k (OpUpdateChunk l r) (apply_op fs now t k (OpUpdateChunk l r))"
proof (cases "bl_run_key l = k")
  case True
  let ?r = "r\<lparr>cr_updated_at := PStr (utc_text t)\<rparr>"
  have move: "chunk_move now t (OpUpdateChunk l r) i x (if i = cr_index r then Some ?r else x)" for i x
    using move_update [of r i now t l x] move_stay by auto
  show ?thesis
  proof (cases "view fs k")
    case None
    have at: "chunk_at fs k i = None" for i using None by (simp add: chunk_at_def)
    from move_update_new [of r _ now t l] move
    have "chunk_move now t (OpUpdateChunk l r) i None (find (\<lambda>x. cr_index x = i) (put_chunk ?r (bl_chunks l)))" for i
      using move [of i None] by (cases "i = cr_index r") (simp_all add: find_put_chunk)
    with update_chunk_new [OF assms(1) None True assms(2,3), of t] True show ?thesis
      by (simp add: op_effect_def store_ok_save assms(1) view_save kept_def at) (simp add: chunk_at_def view_save)
  next
    case (Some c)
    obtain fs' where fs': "fs_update_chunk fs t l r = Inr fs'" "becomes fs fs' k (with_chunk t c r)"
      by (rule update_chunk_stored [OF assms(1) Some True assms(3)])
    with move True chunk_at_with_chunk [OF fs'(2) Some, of k] show ?thesis
      by (simp add: op_effect_def kept_def becomes_def)
  qed
qed (use op_effect_same [OF assms(1)] in simp)

lemma kept_effect:
  "store_ok fs \<Longrightarrow> (\<And>fs'. r = Inr fs' \<Longrightarrow> op_effect fs now t k op fs') \<Longrightarrow> op_effect fs now t k op (kept fs r)"
  "store_ok fs \<Longrightarrow> (\<And>b fs'. r2 = Inr (b, fs') \<Longrightarrow> op_effect fs now t k op fs') \<Longrightarrow> op_effect fs now t k op (kept2 fs r2)"
  using op_effect_same by (auto simp: kept_def kept2_def split: sum.split prod.split)

lemma apply_op_effect:
  assumes "store_ok fs" "op_ok op"
  shows "op_effect fs now t k op (apply_op fs now t k op)"
proof (cases op)
  case (OpCreate l)
  with create_effect [OF assms(1)] assms(2) show ?thesis by simp
next
  case (OpSave l)
  with save_effect [OF assms(1)] assms(2) show ?thesis by simp
next
  case (OpUpdateChunk l r)
  with update_effect [OF assms(1)] assms(2) show ?thesis by simp
next
  case (OpAcquireCampaign owner e)
  then show ?thesis
    by (auto intro!: kept_effect [OF assms(1)] intro: op_effect_same [OF assms(1)] op_effect_same_chunks
        elim!: acquire_campaign_cases [OF assms(1)])
next
  case (OpRenewCampaign owner e)
  then show ?thesis
    by (auto intro!: kept_effect [OF assms(1)] intro: op_effect_same [OF assms(1)] op_effect_same_chunks
        elim!: renew_campaign_cases [OF assms(1)])
next
  case (OpReleaseCampaign owner)
  then show ?thesis
    by (auto intro!: kept_effect [OF assms(1)] intro: op_effect_same [OF assms(1)] op_effect_same_chunks
        elim!: release_campaign_cases [OF assms(1)])
next
  case (OpCancel reason who)
  then show ?thesis
    by (auto intro!: kept_effect [OF assms(1)] intro: op_effect_same_chunks elim!: request_cancel_cases [OF assms(1)])
next
  case (OpAcquireInit owner)
  then show ?thesis using init_lock_effect(1) [OF assms(1)] by simp
next
  case (OpReleaseInit owner)
  then show ?thesis using init_lock_effect(2) [OF assms(1)] by simp
next
  case (OpAcquireChunk i owner e)
  then show ?thesis
    by (simp, intro kept_effect(2) [OF assms(1)], elim acquire_chunk_effect [OF assms(1)])
next
  case (OpRenewChunk i owner e)
  then show ?thesis
    by (simp, intro kept_effect(2) [OF assms(1)], elim renew_chunk_effect [OF assms(1)])
next
  case (OpComplete r owner)
  with assms(2) show ?thesis
    by (simp, intro kept_effect(2) [OF assms(1)], elim complete_chunk_effect [OF assms(1), rotated])
next
  case OpRecover
  then show ?thesis
    by (simp, intro kept_effect(2) [OF assms(1)], elim recover_effect [OF assms(1)])
qed

section \<open>An example campaign\<close>

definition example_chunk :: chunk_record where
  "example_chunk = \<lparr>cr_index = 1, cr_start = ''3'', cr_end = ''6'', cr_key = ''rk:1:scope:0'',
     cr_status = status_pending, cr_attempts = 0, cr_rows_extracted = 0, cr_rows_loaded = 0,
     cr_run_id = PNone, cr_load_id = PNone, cr_error = PNone, cr_lease_owner = PNone,
     cr_lease_expires_at = PNone, cr_started_at = PNone, cr_finished_at = PNone, cr_updated_at = PNone,
     cr_evidence = []\<rparr>"

definition example_ledger :: ledger where
  "example_ledger = \<lparr>bl_run_key = ''rk'', bl_dataset = ''d'', bl_inner_mode = ''replace'', bl_chunk_config = [],
     bl_plan_hash = PNone, bl_config_hash = PNone, bl_status = ''active'', bl_cancel_reason = PNone,
     bl_cancel_requested_by = PNone, bl_lock_owner = PNone, bl_lock_expires_at = PNone,
     bl_chunks = [example_chunk], bl_created_at = PNone, bl_updated_at = PNone, bl_xmin_handoff = None,
     bl_publication = None, bl_column_contract = None, bl_kind = ledger_kind,
     bl_schema_version = ledger_schema_version\<rparr>"

text \<open>Noon of 1 January 2024, and the minutes after it.\<close>

definition example_time :: "int \<Rightarrow> instant" where
  "example_time minutes = 738886 * us_day + (720 + minutes) * 60 * us_second"

lemma example_ledger_wf: "ledger_wf example_ledger"
  by (simp add: ledger_wf_def example_ledger_def chunk_record_wf_def example_chunk_def status_pending_def)

end
