(* ===== verification/Bf_Chunk_Lease.thy ===== *)
theory Bf_Chunk_Lease
  imports Bf_Store_Proofs
begin

text \<open>
  The promises of the filesystem store over any sequence of operations of the callers that
  share it: a finished chunk stays as it is, a leased chunk is its owner's until the lease ends,
  a cancelled campaign hands out no more work (each as long as no raw write of an outdated
  ledger undoes it), and recovery releases exactly the stale chunks.
\<close>

section \<open>Traces\<close>

lemma run_events_Nil [simp]: "run_events fs [] = fs"
  by (simp add: run_events_def)

lemma run_events_Cons: "run_events fs (ev # evs) = run_events (apply_event fs ev) evs"
  by (simp add: run_events_def)

text \<open>An invariant that every admissible operation keeps holds after every trace.\<close>

lemma run_events_invariant:
  assumes "I fs" "list_all ok evs" "\<And>fs ev. I fs \<Longrightarrow> ok ev \<Longrightarrow> I (apply_event fs ev)"
  shows "I (run_events fs evs)"
  using assms(1,2) by (induction evs arbitrary: fs) (simp_all add: run_events_Cons assms(3))

lemma apply_event_effect:
  assumes "store_ok fs" "event_ok (now, t, k, op)"
  shows "op_effect fs now t k op (apply_event fs (now, t, k, op))"
  using apply_op_effect [OF assms(1)] assms(2) by (simp add: apply_event_def event_ok_def)

lemma apply_event_store_ok: "store_ok fs \<Longrightarrow> event_ok ev \<Longrightarrow> store_ok (apply_event fs ev)"
  by (cases ev) (metis apply_event_effect op_effect_def)

lemma chunk_at_event:
  assumes "store_ok fs" "event_ok (now, t, k', op)"
  shows "if k = k' then chunk_move now t op i (chunk_at fs k i) (chunk_at (apply_event fs (now, t, k', op)) k i)
    else chunk_at (apply_event fs (now, t, k', op)) k i = chunk_at fs k i"
  using apply_event_effect [OF assms] by (simp add: op_effect_def chunk_at_def)

text \<open>
  C34: the store's invariant. Starting from an empty store, after any sequence of operations
  (creations, raw saves and updates, locks, leases, completions, recoveries, cancellations, in any
  order) every file holds the document of a well-formed ledger of its own run key.
\<close>

theorem store_invariant:
  assumes "list_all event_ok evs"
  shows "store_ok (run_events empty_store evs)"
  using assms by (intro run_events_invariant [of store_ok _ event_ok]) (simp_all add: apply_event_store_ok)

definition example_events :: "file_event list" where
  "example_events =
     [(example_time 0, example_time 0, ''rk'', OpCreate example_ledger),
      (example_time 1, example_time 1, ''rk'', OpAcquireChunk 1 ''A'' (example_time 5))]"

definition example_leased :: fstore where
  "example_leased = run_events empty_store example_events"

lemma example_events_ok: "list_all event_ok example_events"
  by (simp add: example_events_def event_ok_def example_ledger_wf)

theorem store_invariant_witness: "store_ok example_leased"
  unfolding example_leased_def by (rule store_invariant [OF example_events_ok])

lemma store_invariant_leased: "store_ok example_leased"
  unfolding example_leased_def
  by (rule run_events_invariant [of store_ok _ event_ok, OF _ example_events_ok])
    (simp_all add: apply_event_store_ok)

lemma example_leased_view:
  "chunk_at example_leased ''rk'' 1 = Some (example_chunk\<lparr>cr_status := status_running, cr_attempts := 1,
     cr_lease_owner := PStr ''A'', cr_lease_expires_at := PStr (utc_text (example_time 5)),
     cr_started_at := PStr (utc_text (example_time 1)), cr_updated_at := PStr (utc_text (example_time 1))\<rparr>)"
  by code_simp

section \<open>Finished chunks\<close>

text \<open>
  A raw write that leaves the record of a chunk alone: a saved ledger that carries the record as
  it is, or an update of another chunk.
\<close>

fun spares_chunk :: "int \<Rightarrow> chunk_record \<Rightarrow> file_op \<Rightarrow> bool" where
  "spares_chunk i r (OpSave l) = (find (\<lambda>x. cr_index x = i) (bl_chunks l) = Some r)"
| "spares_chunk i r (OpUpdateChunk l r') = (cr_index r' \<noteq> i)"
| "spares_chunk i r op = True"

definition sparing :: "string \<Rightarrow> int \<Rightarrow> chunk_record \<Rightarrow> file_event \<Rightarrow> bool" where
  "sparing k i r ev = (case ev of (now, t, k', op) \<Rightarrow> k' = k \<longrightarrow> spares_chunk i r op)"

lemma chunk_move_finished:
  "chunk_move now t op i (Some r) x \<Longrightarrow> cr_status r = status_success \<Longrightarrow> spares_chunk i r op \<Longrightarrow> x = Some r"
  by (cases rule: chunk_move.cases) (auto simp: status_defs stale_def)

text \<open>
  A finished chunk is never touched again. Once a chunk's record has status success, no
  later operation leases it, renews it, completes it or recovers it: as long as no raw write
  replaces it, its record is the same after any sequence of operations, so a resumed campaign
  does not load it a second time.
\<close>

theorem finished_chunk_stays:
  assumes "store_ok fs" "list_all event_ok evs" "chunk_at fs k i = Some r" "cr_status r = status_success"
    "list_all (sparing k i r) evs"
  shows "chunk_at (run_events fs evs) k i = Some r"
proof -
  have "store_ok (run_events fs evs) \<and> chunk_at (run_events fs evs) k i = Some r"
  proof (rule run_events_invariant [where ok = "\<lambda>ev. event_ok ev \<and> sparing k i r ev"])
    fix fs ev assume a: "store_ok fs \<and> chunk_at fs k i = Some r" "event_ok ev \<and> sparing k i r ev"
    obtain now t k' op where ev: "ev = (now, t, k', op)" by (cases ev)
    from a chunk_at_event [of fs now t k' op k i] have "chunk_at (apply_event fs ev) k i = Some r"
      by (auto simp: ev sparing_def dest: chunk_move_finished [OF _ assms(4)] split: if_splits)
    with a show "store_ok (apply_event fs ev) \<and> chunk_at (apply_event fs ev) k i = Some r"
      by (simp add: apply_event_store_ok)
  qed (use assms in \<open>auto simp: list_all_iff\<close>)
  then show ?thesis by blast
qed

definition example_done :: chunk_record where
  "example_done = example_chunk\<lparr>cr_status := status_success, cr_rows_loaded := 10\<rparr>"

definition example_finished :: fstore where
  "example_finished = fs_save empty_store (example_time 0) (example_ledger\<lparr>bl_chunks := [example_done]\<rparr>)"

lemma example_finished_ok: "store_ok example_finished" "chunk_at example_finished ''rk'' 1 = Some example_done"
proof -
  have wf: "ledger_wf (example_ledger\<lparr>bl_chunks := [example_done]\<rparr>)"
    by (simp add: ledger_wf_def example_ledger_def chunk_record_wf_def example_done_def status_success_def)
  show "store_ok example_finished"
    unfolding example_finished_def by (intro store_ok_save wf) simp
  show "chunk_at example_finished ''rk'' 1 = Some example_done"
    unfolding example_finished_def chunk_at_def view_save [OF wf]
    by (simp add: example_ledger_def example_done_def example_chunk_def)
qed

theorem finished_chunk_stays_witness:
  "chunk_at (run_events example_finished
     [(example_time 9, example_time 9, ''rk'', OpAcquireChunk 1 ''B'' (example_time 12)),
      (example_time 9, example_time 9, ''rk'', OpRecover)]) ''rk'' 1 = Some example_done"
  by (rule finished_chunk_stays [OF example_finished_ok(1) _ example_finished_ok(2)])
    (simp_all add: event_ok_def sparing_def example_done_def)

section \<open>Leased chunks\<close>

text \<open>The operations with which an owner gives its lease up or extends it.\<close>

fun owner_op :: "int \<Rightarrow> string \<Rightarrow> file_op \<Rightarrow> bool" where
  "owner_op i owner (OpRenewChunk j o' e) = (j = i \<and> o' = owner)"
| "owner_op i owner (OpComplete r o') = (cr_index r = i \<and> o' = owner)"
| "owner_op i owner op = False"

definition leased_to :: "chunk_record \<Rightarrow> string \<Rightarrow> instant \<Rightarrow> bool" where
  "leased_to r owner e = (cr_status r = status_running \<and> cr_lease_owner r = PStr owner
     \<and> cr_lease_expires_at r = PStr (utc_text e) \<and> instant_valid e)"

lemma leased_fields:
  assumes "leased_to r owner e" "now < e"
  shows "cr_status r = status_running" "cr_lease_owner r = PStr owner" "expired now (cr_lease_expires_at r) = Inr False"
  using assms by (simp_all add: leased_to_def)

lemma chunk_move_Some:
  assumes "chunk_move now t op i (Some r) x"
  shows "x = Some r
    \<or> (\<exists>owner e. op = OpAcquireChunk i owner e \<and> (cr_status r = status_running \<longrightarrow> stale now r))
    \<or> (\<exists>owner e. op = OpRenewChunk i owner e \<and> cr_lease_owner r = PStr owner)
    \<or> (\<exists>r' owner. op = OpComplete r' owner \<and> cr_index r' = i \<and> cr_lease_owner r = PStr owner)
    \<or> op = OpRecover \<and> stale now r
    \<or> (\<exists>l. op = OpSave l \<and> x = find (\<lambda>r. cr_index r = i) (bl_chunks l))
    \<or> (\<exists>l r'. op = OpUpdateChunk l r' \<and> cr_index r' = i)"
  using assms by (cases rule: chunk_move.cases) (simp_all add: stale_def)

lemma chunk_move_leased:
  assumes "chunk_move now t op i (Some r) x" "leased_to r owner e" "now < e" "\<not> owner_op i owner op"
    "spares_chunk i r op"
  shows "x = Some r"
  using chunk_move_Some [OF assms(1)] leased_fields [OF assms(2,3)] assms(4,5)
  by (elim disjE exE conjE) (simp_all add: stale_def)

definition foreign :: "string \<Rightarrow> int \<Rightarrow> string \<Rightarrow> instant \<Rightarrow> file_event \<Rightarrow> bool" where
  "foreign k i owner e ev = (case ev of (now, t, k', op) \<Rightarrow> now < e \<and> \<not> (k' = k \<and> owner_op i owner op))"

text \<open>
  C4: a lease is exclusive among the callers that share the store object. While the lease of a
  chunk has not ended, nothing anybody but its owner does changes the chunk's record: it is not
  leased to another worker, not completed in its name, not recovered as stale, whatever sequence
  of operations the others run, as long as their raw writes (\<open>save\<close>, \<open>update_chunk\<close>) carry the
  record as it was leased or concern other chunks. A raw write that does not
  (\<open>stale_write_takes_lease\<close>) takes the lease away.
\<close>

theorem leased_chunk_exclusive:
  assumes "store_ok fs" "list_all event_ok evs" "chunk_at fs k i = Some r" "leased_to r owner e"
    "list_all (foreign k i owner e) evs" "list_all (sparing k i r) evs"
  shows "chunk_at (run_events fs evs) k i = Some r"
proof -
  have "store_ok (run_events fs evs) \<and> chunk_at (run_events fs evs) k i = Some r"
  proof (rule run_events_invariant [where ok = "\<lambda>ev. event_ok ev \<and> foreign k i owner e ev \<and> sparing k i r ev"])
    fix fs ev assume a: "store_ok fs \<and> chunk_at fs k i = Some r"
      "event_ok ev \<and> foreign k i owner e ev \<and> sparing k i r ev"
    obtain now t k' op where ev: "ev = (now, t, k', op)" by (cases ev)
    from a chunk_at_event [of fs now t k' op k i] have "chunk_at (apply_event fs ev) k i = Some r"
      by (auto simp: ev foreign_def sparing_def dest: chunk_move_leased [OF _ assms(4)] split: if_splits)
    with a show "store_ok (apply_event fs ev) \<and> chunk_at (apply_event fs ev) k i = Some r"
      by (simp add: apply_event_store_ok)
  qed (use assms in \<open>auto simp: list_all_iff\<close>)
  then show ?thesis by blast
qed

text \<open>The saved ledger of the witness is a snapshot that was read after the chunk was leased.\<close>

definition example_snapshot :: ledger where
  "example_snapshot = (case view example_leased ''rk'' of Some l \<Rightarrow> l | None \<Rightarrow> example_ledger)"

lemma example_snapshot_ok:
  "ledger_wf example_snapshot" "bl_run_key example_snapshot = ''rk''"
  "find (\<lambda>x. cr_index x = 1) (bl_chunks example_snapshot) = chunk_at example_leased ''rk'' 1"
proof -
  obtain l where l: "view example_leased ''rk'' = Some l"
    using example_leased_view by (auto simp: chunk_at_def split: option.splits)
  from view_wf [OF store_invariant_leased l] l show "ledger_wf example_snapshot"
    "bl_run_key example_snapshot = ''rk''"
    "find (\<lambda>x. cr_index x = 1) (bl_chunks example_snapshot) = chunk_at example_leased ''rk'' 1"
    by (simp_all add: example_snapshot_def chunk_at_def)
qed

lemma example_leased_to:
  obtains r where "chunk_at example_leased ''rk'' 1 = Some r" "leased_to r ''A'' (example_time 5)"
  using example_leased_view by (auto simp: leased_to_def instant_valid_def example_time_def us_day_def
      us_second_def max_ordinal_def)

theorem leased_chunk_exclusive_witness:
  "\<exists>r. leased_to r ''A'' (example_time 5)
     \<and> chunk_at (run_events example_leased
          [(example_time 3, example_time 3, ''rk'', OpAcquireChunk 1 ''B'' (example_time 9)),
           (example_time 3, example_time 3, ''rk'', OpSave example_snapshot),
           (example_time 4, example_time 4, ''rk'', OpRecover)]) ''rk'' 1 = Some r"
proof -
  let ?evs = "[(example_time 3, example_time 3, ''rk'', OpAcquireChunk 1 ''B'' (example_time 9)),
       (example_time 3, example_time 3, ''rk'', OpSave example_snapshot),
       (example_time 4, example_time 4, ''rk'', OpRecover)]"
  obtain r where r: "chunk_at example_leased ''rk'' 1 = Some r" and l: "leased_to r ''A'' (example_time 5)"
    by (rule example_leased_to)
  have "list_all (foreign ''rk'' 1 ''A'' (example_time 5)) ?evs"
    by (simp add: foreign_def example_time_def us_second_def)
  moreover have "list_all (sparing ''rk'' 1 r) ?evs" "list_all event_ok ?evs"
    using r by (simp_all add: sparing_def event_ok_def example_snapshot_ok)
  ultimately show ?thesis using leased_chunk_exclusive [OF store_invariant_leased _ r l] l by blast
qed

text \<open>
  The condition on raw writes is needed: a ledger that was read before the chunk was leased and
  is saved afterwards, or an update with an old record, takes a live lease away, and the next
  worker gets the chunk while the first one still runs it.
\<close>

theorem stale_write_takes_lease:
  assumes "store_ok fs" "chunk_at fs k i = Some r" "leased_to r owner e" "now < e"
    and "ledger_wf l" "bl_run_key l = k" "find (\<lambda>x. cr_index x = i) (bl_chunks l) = Some old"
    and "cr_status old = status_pending" "\<not> cancel_requested l" "instant_valid e'"
  shows "acquire_chunk_lease fs now t k i other e' = Inr (False, fs)
    \<and> (\<exists>fs' r'. acquire_chunk_lease (fs_save fs t l) now t k i other e' = Inr (True, fs')
         \<and> chunk_at fs' k i = Some r' \<and> leased_to r' other e')"
proof
  obtain l0 where l0: "view fs k = Some l0" "ledger_chunk l0 i = Inr r"
    using assms(2) by (auto simp: chunk_at_def ledger_chunk_find split: option.splits)
  then have "fs_require fs k = Inr l0" by (simp add: fs_require_view [OF assms(1)])
  with l0(2) leased_fields [OF assms(3,4)] show "acquire_chunk_lease fs now t k i other e' = Inr (False, fs)"
    by (simp add: acquire_chunk_lease_def status_defs)
next
  let ?fs = "fs_save fs t l" and ?l = "stamped t l"
  let ?r = "old\<lparr>cr_status := status_running, cr_attempts := cr_attempts old + 1, cr_lease_owner := PStr other,
    cr_lease_expires_at := PStr (utc_text e'), cr_started_at := py_or (cr_started_at old) (PStr (utc_text t)), cr_error := PNone\<rparr>"
  have ok: "store_ok ?fs" by (rule store_ok_save [OF assms(1,5)])
  have v: "view ?fs k = Some ?l" using assms(6) by (simp add: view_save [OF assms(5)])
  then have req: "fs_require ?fs k = Inr ?l" by (simp add: fs_require_view [OF ok])
  have c: "ledger_chunk ?l i = Inr old" using assms(7) by (simp add: ledger_chunk_find)
  have st: "cr_status ?r \<noteq> []" by (simp add: status_defs)
  obtain fs' where upd: "fs_update_chunk ?fs t ?l ?r = Inr fs'" using fs_update_chunk_ok [OF ok v st] by metis
  then have "acquire_chunk_lease ?fs now t k i other e' = Inr (True, fs')"
    using req c assms(8,9) by (simp add: acquire_chunk_lease_def status_defs)
  moreover have "chunk_at fs' k i = Some (?r\<lparr>cr_updated_at := PStr (utc_text t)\<rparr>)"
    using chunk_at_with_chunk [OF becomes_update_chunk [OF ok v st upd] v, of k i] ledger_chunk_index [OF c] by simp
  moreover have "leased_to (?r\<lparr>cr_updated_at := PStr (utc_text t)\<rparr>) other e'"
    using assms(10) by (simp add: leased_to_def)
  ultimately show "\<exists>fs' r'. acquire_chunk_lease ?fs now t k i other e' = Inr (True, fs')
      \<and> chunk_at fs' k i = Some r' \<and> leased_to r' other e'" by blast
qed

text \<open>
  What acquiring a lease means. A successful acquisition makes the chunk running, leased
  to the caller until the given expiry, with one more attempt; before it the chunk was not
  finished and not under a live lease, and the campaign was not cancelled.
\<close>

theorem acquire_chunk_lease_takes:
  assumes "store_ok fs" "instant_valid e" "acquire_chunk_lease fs now t k i owner e = Inr (True, fs')"
  shows "\<exists>r r'. chunk_at fs k i = Some r \<and> chunk_at fs' k i = Some r' \<and> leased_to r' owner e
    \<and> cr_attempts r' = cr_attempts r + 1 \<and> cr_status r \<noteq> status_success
    \<and> (cr_status r = status_running \<longrightarrow> stale now r)
    \<and> (\<forall>l. view fs k = Some l \<longrightarrow> \<not> cancel_requested l)"
  using assms(1,3)
proof (rule acquire_chunk_cases)
  fix l r
  assume l: "view fs k = Some l" "\<not> cancel_requested l" "ledger_chunk l i = Inr r" and s: "cr_status r \<noteq> status_success"
    "cr_status r = status_running \<Longrightarrow> expired now (cr_lease_expires_at r) = Inr True"
    and b: "becomes fs fs' k (with_chunk t l
      (r\<lparr>cr_status := status_running, cr_attempts := cr_attempts r + 1, cr_lease_owner := PStr owner,
         cr_lease_expires_at := PStr (utc_text e),
         cr_started_at := py_or (cr_started_at r) (PStr (utc_text t)), cr_error := PNone\<rparr>))"
  have "chunk_at fs k i = Some r" using l by (simp add: chunk_at_def ledger_chunk_find)
  with ledger_chunk_index [OF l(3)] chunk_at_with_chunk [OF b l(1), of k i] l s assms(2) show ?thesis
    by (auto simp: leased_to_def stale_def)
qed simp

theorem acquire_chunk_lease_takes_witness:
  "\<exists>fs' r'. acquire_chunk_lease example_leased (example_time 6) (example_time 6) ''rk'' 1 ''B'' (example_time 9)
      = Inr (True, fs') \<and> chunk_at fs' ''rk'' 1 = Some r' \<and> leased_to r' ''B'' (example_time 9) \<and> cr_attempts r' = 2"
proof -
  have "case acquire_chunk_lease example_leased (example_time 6) (example_time 6) ''rk'' 1 ''B'' (example_time 9)
      of Inr (b, _) \<Rightarrow> b | _ \<Rightarrow> False" by code_simp
  then obtain fs' where a: "acquire_chunk_lease example_leased (example_time 6) (example_time 6) ''rk'' 1 ''B'' (example_time 9)
      = Inr (True, fs')" by (auto split: sum.splits prod.splits)
  have "instant_valid (example_time 9)"
    by (simp add: instant_valid_def example_time_def us_day_def us_second_def max_ordinal_def)
  from acquire_chunk_lease_takes [OF store_invariant_leased this a] a example_leased_view show ?thesis by auto
qed

section \<open>Recovery\<close>

lemma recovered_not_stale: "\<not> stale now (recovered_chunk now r)"
  by (simp add: recovered_chunk_def failed_stale_def stale_def status_defs)

text \<open>
  Recovery is exact. \<open>recover_stale_running\<close> returns the indexes of the running chunks
  whose lease has ended, in order; these are failed with the error \<open>lease_expired\<close>, all other
  records stay as they were, and no stale chunk is left.
\<close>

theorem recovery_exact:
  assumes "store_ok fs" "recover_stale_running fs t k now = Inr (indexes, fs')"
  shows "\<exists>l l'. view fs k = Some l \<and> view fs' k = Some l'
    \<and> indexes = map cr_index (filter (stale now) (bl_chunks l))
    \<and> bl_chunks l' = map (\<lambda>r. if stale now r then failed_stale r else r) (bl_chunks l)
    \<and> (\<forall>r\<in>set (bl_chunks l'). \<not> stale now r)"
  using assms
proof (rule recover_cases)
  fix l
  assume l: "view fs k = Some l" "indexes = map cr_index (filter (stale now) (bl_chunks l))"
    "indexes = [] \<Longrightarrow> fs' = fs"
    "indexes \<noteq> [] \<Longrightarrow> becomes fs fs' k (stamped t (l\<lparr>bl_chunks := map (recovered_chunk now) (bl_chunks l)\<rparr>))"
  have eq: "map (\<lambda>r. if stale now r then failed_stale r else r) rs = map (recovered_chunk now) rs" for rs
    by (simp add: recovered_chunk_def)
  show ?thesis
  proof (cases "indexes = []")
    case True
    with l(2) have none: "\<forall>r\<in>set (bl_chunks l). \<not> stale now r" by (simp add: filter_empty_conv)
    then have "map (recovered_chunk now) (bl_chunks l) = bl_chunks l"
      by (simp add: recovered_chunk_def cong: map_cong)
    with none True l show ?thesis unfolding eq by (intro exI [of _ l]) simp
  next
    case False
    with l show ?thesis unfolding eq by (auto simp: becomes_def recovered_not_stale)
  qed
qed

theorem recovery_exact_witness:
  "\<exists>fs' l'. recover_stale_running example_leased (example_time 6) ''rk'' (example_time 6) = Inr ([1], fs')
     \<and> view fs' ''rk'' = Some l' \<and> (\<forall>r\<in>set (bl_chunks l'). \<not> stale (example_time 6) r)"
proof -
  have "case recover_stale_running example_leased (example_time 6) ''rk'' (example_time 6) of
      Inr (is, _) \<Rightarrow> is = [1] | _ \<Rightarrow> False" by code_simp
  then obtain fs' where a: "recover_stale_running example_leased (example_time 6) ''rk'' (example_time 6) = Inr ([1], fs')"
    by (auto split: sum.splits prod.splits)
  from recovery_exact [OF store_invariant_leased a] a show ?thesis by auto
qed

section \<open>Cancellation\<close>

definition cancelled_at :: "fstore \<Rightarrow> string \<Rightarrow> bool" where
  "cancelled_at fs k = (case view fs k of None \<Rightarrow> False | Some l \<Rightarrow> cancel_requested l \<and> \<not> published l)"

lemma cancelled_simps [simp]:
  "cancel_requested (l\<lparr>bl_lock_owner := a\<rparr>) = cancel_requested l" "published (l\<lparr>bl_lock_owner := a\<rparr>) = published l"
  "cancel_requested (l\<lparr>bl_lock_expires_at := a\<rparr>) = cancel_requested l"
  "published (l\<lparr>bl_lock_expires_at := a\<rparr>) = published l"
  "cancel_requested (l\<lparr>bl_chunks := c\<rparr>) = cancel_requested l" "published (l\<lparr>bl_chunks := c\<rparr>) = published l"
  "cancel_requested (with_chunk t l r) = cancel_requested l" "published (with_chunk t l r) = published l"
  by (simp_all add: cancel_requested_def published_def with_chunk_def)

lemma cancelled_kept: "cancelled_at fs k \<Longrightarrow> (\<And>fs'. r = Inr fs' \<Longrightarrow> cancelled_at fs' k) \<Longrightarrow> cancelled_at (kept fs r) k"
  "cancelled_at fs k \<Longrightarrow> (\<And>b fs'. r2 = Inr (b, fs') \<Longrightarrow> cancelled_at fs' k) \<Longrightarrow> cancelled_at (kept2 fs r2) k"
  by (auto simp: kept_def kept2_def split: sum.split prod.split)

lemma cancelled_becomes:
  assumes "cancelled_at fs k" "view fs j = Some l" "becomes fs fs' j l'"
    "cancel_requested l \<Longrightarrow> \<not> published l \<Longrightarrow> cancel_requested l' \<and> \<not> published l'"
  shows "cancelled_at fs' k"
  using assms by (auto simp: cancelled_at_def becomes_def split: option.splits)

text \<open>A saved ledger that takes the cancellation along.\<close>

fun keeps_cancelled :: "file_op \<Rightarrow> bool" where
  "keeps_cancelled (OpSave l) = (cancel_requested l \<and> \<not> published l)"
| "keeps_cancelled op = True"

definition cancel_kept :: "string \<Rightarrow> file_event \<Rightarrow> bool" where
  "cancel_kept k ev = (case ev of (now, t, k', op) \<Rightarrow> k' = k \<longrightarrow> keeps_cancelled op)"

lemma cancelled_op:
  assumes "store_ok fs" "op_ok op" "cancelled_at fs k" "j = k \<Longrightarrow> keeps_cancelled op"
  shows "cancelled_at (apply_op fs now t j op) k"
proof (cases op)
  case (OpCreate l)
  show ?thesis
  proof (cases "bl_run_key l = j \<and> fs_load fs j = Inr None")
    case True
    then have "view fs j = None" by (simp add: view_def)
    with assms(3) have "j \<noteq> k" by (auto simp: cancelled_at_def)
    with True OpCreate assms(2,3) show ?thesis by (simp add: cancelled_at_def view_save)
  next
    case False
    with OpCreate assms(3) show ?thesis by auto
  qed
next
  case (OpSave l)
  with assms(2-4) show ?thesis by (auto simp: cancelled_at_def view_save)
next
  case (OpUpdateChunk l r)
  show ?thesis
  proof (cases "bl_run_key l = j \<and> view fs j \<noteq> None")
    case True
    then obtain c where c: "view fs j = Some c" by blast
    from True assms(2) OpUpdateChunk have "bl_run_key l = j" "cr_status r \<noteq> []" by auto
    then obtain fs' where "fs_update_chunk fs t l r = Inr fs'" "becomes fs fs' j (with_chunk t c r)"
      by (rule update_chunk_stored [OF assms(1) c])
    with cancelled_becomes [OF assms(3) c this(2)] True OpUpdateChunk show ?thesis by (simp add: kept_def)
  next
    case False
    show ?thesis
    proof (cases "bl_run_key l = j")
      case True
      with False have none: "view fs j = None" by simp
      with assms(3) have "j \<noteq> k" by (auto simp: cancelled_at_def)
      with update_chunk_new [OF assms(1) none True, of r t] OpUpdateChunk assms(2,3) True show ?thesis
        by (simp add: kept_def cancelled_at_def view_save)
    qed (use OpUpdateChunk assms(3) in simp)
  qed
next
  case (OpAcquireCampaign owner e)
  then show ?thesis
    using assms(3) by (simp, intro cancelled_kept(2))
      (auto elim!: acquire_campaign_cases [OF assms(1)] dest: cancelled_becomes)
next
  case (OpRenewCampaign owner e)
  then show ?thesis
    using assms(3) by (simp, intro cancelled_kept(2))
      (auto elim!: renew_campaign_cases [OF assms(1)] dest: cancelled_becomes)
next
  case (OpReleaseCampaign owner)
  then show ?thesis
    using assms(3) by (simp, intro cancelled_kept(1))
      (auto elim!: release_campaign_cases [OF assms(1)] dest: cancelled_becomes)
next
  case (OpCancel reason who)
  have "cancel_requested (l\<lparr>bl_status := ''cancel_requested'', bl_cancel_reason := a, bl_cancel_requested_by := b\<rparr>)"
    "published (l\<lparr>bl_status := ''cancel_requested'', bl_cancel_reason := a, bl_cancel_requested_by := b\<rparr>) = published l"
    for l a b by (simp_all add: cancel_requested_def published_def)
  with OpCancel show ?thesis
    using assms(3) by (simp, intro cancelled_kept(1))
      (auto elim!: request_cancel_cases [OF assms(1)] dest: cancelled_becomes)
next
  case (OpAcquireInit owner)
  then show ?thesis
    using assms(3) same_files_view [OF init_lock_files(1), of fs j owner] by (simp add: cancelled_at_def)
next
  case (OpReleaseInit owner)
  then show ?thesis
    using assms(3) same_files_view [OF init_lock_files(2), of fs j owner] by (simp add: cancelled_at_def)
next
  case (OpAcquireChunk i owner e)
  then show ?thesis
    using assms(3) by (simp, intro cancelled_kept(2))
      (auto elim!: acquire_chunk_cases [OF assms(1)] dest: cancelled_becomes)
next
  case (OpRenewChunk i owner e)
  then show ?thesis
    using assms(3) by (simp, intro cancelled_kept(2))
      (auto elim!: renew_chunk_cases [OF assms(1)] dest: cancelled_becomes)
next
  case (OpComplete r owner)
  then show ?thesis
    using assms(2,3) by (simp, intro cancelled_kept(2))
      (auto elim!: complete_chunk_cases [OF assms(1)] dest: cancelled_becomes)
next
  case OpRecover
  show ?thesis
    unfolding OpRecover apply_op.simps
  proof (intro cancelled_kept(2) assms(3))
    fix b fs' assume "recover_stale_running fs t j now = Inr (b, fs')"
    with assms(1) show "cancelled_at fs' k"
    proof (rule recover_cases)
      fix l
      assume l: "view fs j = Some l" "b = [] \<Longrightarrow> fs' = fs"
        "b \<noteq> [] \<Longrightarrow> becomes fs fs' j (stamped t (l\<lparr>bl_chunks := map (recovered_chunk now) (bl_chunks l)\<rparr>))"
      show ?thesis
        using l(2) assms(3) cancelled_becomes [OF assms(3) l(1) l(3)] by (cases "b = []") simp_all
    qed
  qed
qed

text \<open>
  A cancelled campaign hands out no more work. After a cancellation of a campaign that is
  not published, whatever operations follow, as long as no saved ledger undoes the
  cancellation, the campaign lock is refused, and so is every chunk lease; the store is left
  as it was.
\<close>

theorem cancelled_campaign_refuses:
  assumes "store_ok fs" "request_cancel fs t k reason who = Inr fs1" "list_all event_ok evs"
    "list_all (cancel_kept k) evs"
  shows "acquire_chunk_lease (run_events fs1 evs) now t' k i owner e = Inr (False, run_events fs1 evs)
    \<and> acquire_campaign_lock (run_events fs1 evs) now t' k owner e = Inr (False, run_events fs1 evs)"
proof -
  have start: "store_ok fs1 \<and> cancelled_at fs1 k"
    using assms(1,2)
  proof (rule request_cancel_cases)
    fix l assume "view fs k = Some l" "\<not> published l"
      "becomes fs fs1 k (stamped t (l\<lparr>bl_status := ''cancel_requested'', bl_cancel_reason := PStr reason,
         bl_cancel_requested_by := PStr who\<rparr>))"
    then show ?thesis by (simp add: becomes_def cancelled_at_def) (simp add: cancel_requested_def published_def)
  qed
  have "store_ok (run_events fs1 evs) \<and> cancelled_at (run_events fs1 evs) k"
  proof (rule run_events_invariant [where ok = "\<lambda>ev. event_ok ev \<and> cancel_kept k ev"])
    fix fs ev assume a: "store_ok fs \<and> cancelled_at fs k" "event_ok ev \<and> cancel_kept k ev"
    obtain now t j op where ev: "ev = (now, t, j, op)" by (cases ev)
    from a cancelled_op [of fs op k j now t] show "store_ok (apply_event fs ev) \<and> cancelled_at (apply_event fs ev) k"
      using apply_event_store_ok [of fs ev] by (simp add: ev apply_event_def event_ok_def cancel_kept_def)
  qed (use start assms(3,4) in \<open>auto simp: list_all_iff\<close>)
  then have ok: "store_ok (run_events fs1 evs)" and "cancelled_at (run_events fs1 evs) k" by auto
  then obtain l where "view (run_events fs1 evs) k = Some l" "cancel_requested l" "\<not> published l"
    by (auto simp: cancelled_at_def split: option.splits)
  moreover from this(1) have "fs_require (run_events fs1 evs) k = Inr l"
    using fs_require_view [OF ok] by blast
  ultimately show ?thesis by (simp add: acquire_chunk_lease_def acquire_campaign_lock_def)
qed

theorem cancelled_campaign_refuses_witness:
  "\<exists>fs1. request_cancel example_leased (example_time 6) ''rk'' ''stop'' ''me'' = Inr fs1
     \<and> (let fs2 = run_events fs1 [(example_time 6, example_time 6, ''rk'', OpRecover)] in
          acquire_chunk_lease fs2 (example_time 7) (example_time 7) ''rk'' 1 ''B'' (example_time 9) = Inr (False, fs2))"
proof -
  have "case request_cancel example_leased (example_time 6) ''rk'' ''stop'' ''me'' of Inr _ \<Rightarrow> True | _ \<Rightarrow> False"
    by code_simp
  then obtain fs1 where a: "request_cancel example_leased (example_time 6) ''rk'' ''stop'' ''me'' = Inr fs1"
    by (auto split: sum.splits)
  from cancelled_campaign_refuses [OF store_invariant_leased a,
      of "[(example_time 6, example_time 6, ''rk'', OpRecover)]"] a show ?thesis
    by (simp add: event_ok_def cancel_kept_def Let_def)
qed

section \<open>Saving and loading\<close>

text \<open>
  C30: the ledger survives the file. Loading a campaign right after saving a well-formed
  ledger gives the same ledger, with the creation time kept when it had one and the update
  time of the save; other campaigns are not affected.
\<close>

theorem save_load_roundtrip:
  assumes "ledger_wf l"
  shows "fs_load (fs_save fs t l) (bl_run_key l) = Inr (Some (stamped t l))
    \<and> (k \<noteq> bl_run_key l \<longrightarrow> fs_load (fs_save fs t l) k = fs_load fs k)"
  using ledger_roundtrip [of "stamped t l"] assms
  by (simp add: fs_load_def fs_save_def write_exact_snapshot_def)

theorem save_load_roundtrip_witness:
  "fs_load (fs_save example_finished (example_time 3) example_ledger) ''rk''
     = Inr (Some (stamped (example_time 3) example_ledger))"
  using save_load_roundtrip [OF example_ledger_wf, of example_finished "example_time 3"]
  by (simp add: example_ledger_def)

end
