(* ===== verification/Bf_Lease.thy ===== *)
theory Bf_Lease
  imports Bf_Store_Proofs
begin

text \<open>
  The campaign lease (\<open>src/dpone/backfill/campaign_lease.py\<close>, \<open>process_lane_lease.py\<close>): a
  client that acquires the campaign lock of a state store, renews it from an event loop and
  fences the phases of a campaign with it. The client works with any store, so its
  operations take the store's lock operations as arguments; the locale \<open>campaign_store\<close> is
  the contract it relies on, and the filesystem store interprets it.

  What it promises is mutual exclusion: of any number of lease objects on one campaign, at
  most one is alive at any time.
\<close>

section \<open>The lease object\<close>

record campaign_lease =
  ls_run_key :: string
  ls_owner :: string
  ls_ttl :: int
  ls_renew :: int
  ls_next :: "instant option"
  ls_acquired :: bool
  ls_healthy :: bool

definition process_lane_ttl :: int where "process_lane_ttl = 90 * us_second"
definition process_lane_renew :: int where "process_lane_renew = 30 * us_second"

definition recoverable_owner_prefix :: string where
  "recoverable_owner_prefix = ''dpone-backfill-campaign-lease-v2:''"

text \<open>The clock must be aware; the conversion to UTC and the sums stay in the calendar.\<close>

definition in_calendar :: "instant \<Rightarrow> instant res" where
  "in_calendar t = (if instant_valid t then Inr t else Inl (OverflowError ''date value out of range''))"

definition aware_now :: "pydt \<Rightarrow> instant res" where
  "aware_now clock =
     (if \<not> dt_aware clock then Inl (ValueError ''backfill campaign lease clock must be timezone-aware'')
      else in_calendar (dt_instant clock))"

definition process_lane_lease_expires_at :: "pydt \<Rightarrow> instant res" where
  "process_lane_lease_expires_at now =
     (if \<not> dt_aware now then Inl (ValueError ''backfill process-lane lease clock must be timezone-aware'')
      else bind_res (in_calendar (dt_instant now)) (\<lambda>t. in_calendar (t + process_lane_ttl)))"

definition mk_campaign_lease :: "string \<Rightarrow> string option \<Rightarrow> int \<Rightarrow> int \<Rightarrow> string \<Rightarrow> campaign_lease res" where
  "mk_campaign_lease run_key owner ttl renew uuid_hex =
     (if ttl \<le> 0 \<or> renew \<le> 0 \<or> ttl \<le> renew
      then Inl (ValueError ''backfill campaign lease requires 0 < renew_interval < ttl'')
      else
        (let resolved = (case owner of Some o' \<Rightarrow> if o' = [] then recoverable_owner_prefix @ uuid_hex else o'
                         | None \<Rightarrow> recoverable_owner_prefix @ uuid_hex) in
         if \<not> py_startswith resolved recoverable_owner_prefix
         then Inl (ValueError ''recoverable campaign lease owner has an unsupported identity version'')
         else if py_strip run_key = [] then Inl (ValueError ''backfill campaign lease requires run_key'')
         else Inr \<lparr>ls_run_key = run_key, ls_owner = resolved, ls_ttl = ttl, ls_renew = renew,
                   ls_next = None, ls_acquired = False, ls_healthy = True\<rparr>))"

definition lease_lost :: "'a res" where
  "lease_lost = Inl (AppError ''BackfillCampaignLeaseError'' ''DPONE_BACKFILL_CAMPAIGN_LEASE_LOST'')"

text \<open>An operation of the lease: its outcome, the lease and the store afterwards.\<close>

type_synonym ('s, 'a) lease_result = "'a res \<times> campaign_lease \<times> 's"
type_synonym 's lock_op = "'s \<Rightarrow> string \<Rightarrow> string \<Rightarrow> instant \<Rightarrow> (bool \<times> 's) res"

definition lease_acquire :: "'s lock_op \<Rightarrow> campaign_lease \<Rightarrow> 's \<Rightarrow> pydt \<Rightarrow> ('s, unit) lease_result" where
  "lease_acquire acquire ls s clock =
     (case bind_res (aware_now clock) (\<lambda>now. bind_res (in_calendar (now + ls_ttl ls)) (\<lambda>e. Inr (now, e))) of
        Inl x \<Rightarrow> (Inl x, ls, s)
      | Inr (now, e) \<Rightarrow>
          (case acquire s (ls_run_key ls) (ls_owner ls) e of
             Inl x \<Rightarrow> (Inl x, ls, s)
           | Inr (got, s') \<Rightarrow>
               if got then (Inr (), ls\<lparr>ls_acquired := True, ls_next := Some (now + ls_renew ls)\<rparr>, s')
               else (lease_lost, ls\<lparr>ls_healthy := False\<rparr>, s')))"

definition lease_tick :: "'s lock_op \<Rightarrow> bool \<Rightarrow> campaign_lease \<Rightarrow> 's \<Rightarrow> pydt \<Rightarrow> ('s, unit) lease_result" where
  "lease_tick renew force ls s clock =
     (if \<not> ls_healthy ls then (lease_lost, ls, s)
      else if \<not> ls_acquired ls then (lease_lost, ls, s)
      else (case ls_next ls of
          None \<Rightarrow> (lease_lost, ls, s)
        | Some due \<Rightarrow>
            (case aware_now clock of
               Inl x \<Rightarrow> (Inl x, ls, s)
             | Inr now \<Rightarrow>
                 if \<not> force \<and> now < due then (Inr (), ls, s)
                 else
                   (case in_calendar (now + ls_ttl ls) of
                      Inl x \<Rightarrow> (Inl x, ls, s)
                    | Inr e \<Rightarrow>
                        (case renew s (ls_run_key ls) (ls_owner ls) e of
                           Inl x \<Rightarrow> (Inl x, ls, s)
                         | Inr (got, s') \<Rightarrow>
                             if got then (Inr (), ls\<lparr>ls_next := Some (now + ls_renew ls)\<rparr>, s')
                             else (lease_lost, ls\<lparr>ls_healthy := False\<rparr>, s'))))))"

definition lease_release :: "('s \<Rightarrow> string \<Rightarrow> string \<Rightarrow> 's res) \<Rightarrow> campaign_lease \<Rightarrow> 's \<Rightarrow> ('s, unit) lease_result" where
  "lease_release release ls s =
     (if \<not> ls_acquired ls then (Inr (), ls, s)
      else (case release s (ls_run_key ls) (ls_owner ls) of
              Inl x \<Rightarrow> (Inl x, ls, s)
            | Inr s' \<Rightarrow> (Inr (), ls\<lparr>ls_acquired := False, ls_next := None\<rparr>, s')))"

text \<open>\<open>run_fenced\<close>: renew, run the phase, renew again, and only then accept its result.\<close>

definition lease_run_fenced ::
  "'s lock_op \<Rightarrow> ('s \<Rightarrow> 'a res \<times> 's) \<Rightarrow> 's lock_op \<Rightarrow> campaign_lease \<Rightarrow> 's \<Rightarrow> pydt \<Rightarrow> pydt \<Rightarrow> ('s, 'a) lease_result" where
  "lease_run_fenced renew phase renew' ls s clock clock' =
     (case lease_tick renew True ls s clock of
        (Inl x, ls1, s1) \<Rightarrow> (Inl x, ls1, s1)
      | (Inr _, ls1, s1) \<Rightarrow>
          (case phase s1 of
             (Inl x, s2) \<Rightarrow> (Inl x, ls1, s2)
           | (Inr a, s2) \<Rightarrow>
               (case lease_tick renew' True ls1 s2 clock' of
                  (Inl x, ls3, s3) \<Rightarrow> (Inl x, ls3, s3)
                | (Inr _, ls3, s3) \<Rightarrow> if ls_healthy ls3 then (Inr a, ls3, s3) else (lease_lost, ls3, s3))))"

section \<open>Any number of leases on one store\<close>

text \<open>
  A configuration: the time, the store and the lease objects. In a step the time advances,
  a lease operates (the store reads its clock at the present time, the lease's own clock may
  differ), or something else happens to the store.
\<close>

type_synonym 's lease_system = "instant \<times> 's \<times> campaign_lease list"

inductive lease_step ::
  "(instant \<Rightarrow> 's lock_op) \<Rightarrow> (instant \<Rightarrow> 's lock_op) \<Rightarrow> (instant \<Rightarrow> 's \<Rightarrow> string \<Rightarrow> string \<Rightarrow> 's res)
    \<Rightarrow> ('s \<Rightarrow> 's \<Rightarrow> bool) \<Rightarrow> 's lease_system \<Rightarrow> 's lease_system \<Rightarrow> bool"
  for acquire renew release env where
  step_time: "now \<le> later \<Longrightarrow> lease_step acquire renew release env (now, s, lss) (later, s, lss)"
| step_env: "env s s' \<Longrightarrow> lease_step acquire renew release env (now, s, lss) (now, s', lss)"
| step_acquire: "i < length lss \<Longrightarrow> lease_acquire (acquire now) (lss ! i) s clock = (r, ls', s')
    \<Longrightarrow> lease_step acquire renew release env (now, s, lss) (now, s', lss[i := ls'])"
| step_tick: "i < length lss \<Longrightarrow> lease_tick (renew now) force (lss ! i) s clock = (r, ls', s')
    \<Longrightarrow> lease_step acquire renew release env (now, s, lss) (now, s', lss[i := ls'])"
| step_release: "i < length lss \<Longrightarrow> lease_release (release now) (lss ! i) s = (r, ls', s')
    \<Longrightarrow> lease_step acquire renew release env (now, s, lss) (now, s', lss[i := ls'])"

inductive_cases lease_stepE: "lease_step acquire renew release env c c'"

text \<open>
  A lease is alive while it is acquired, healthy and its last successful acquisition or
  renewal is younger than its time to live.
\<close>

definition lease_until :: "campaign_lease \<Rightarrow> instant option" where
  "lease_until ls = map_option (\<lambda>n. n - ls_renew ls + ls_ttl ls) (ls_next ls)"

definition lease_alive :: "instant \<Rightarrow> campaign_lease \<Rightarrow> bool" where
  "lease_alive now ls = (ls_acquired ls \<and> ls_healthy ls
     \<and> (case lease_until ls of None \<Rightarrow> False | Some u \<Rightarrow> now < u))"

section \<open>What an operation of a lease does\<close>

lemma in_calendar_Inr [simp]: "in_calendar t = Inr u \<longleftrightarrow> u = t \<and> instant_valid t"
  by (auto simp: in_calendar_def)

lemma lease_acquire_cases:
  assumes "lease_acquire acq ls s clock = (r, ls', s')"
  obtains (taken) t e where "acq s (ls_run_key ls) (ls_owner ls) e = Inr (True, s')" "instant_valid e"
      "e = t + ls_ttl ls" "ls' = ls\<lparr>ls_acquired := True, ls_next := Some (t + ls_renew ls)\<rparr>"
    | (refused) e where "acq s (ls_run_key ls) (ls_owner ls) e = Inr (False, s')" "ls' = ls\<lparr>ls_healthy := False\<rparr>"
    | (failed) "s' = s" "ls' = ls"
proof (cases "bind_res (aware_now clock) (\<lambda>now. bind_res (in_calendar (now + ls_ttl ls)) (\<lambda>e. Inr (now, e)))")
  case (Inl x)
  with assms failed show ?thesis by (simp add: lease_acquire_def)
next
  case (Inr p)
  then obtain t where t: "p = (t, t + ls_ttl ls)" "instant_valid (t + ls_ttl ls)"
    by (auto simp: bind_res_eq_Inr)
  show ?thesis
  proof (cases "acq s (ls_run_key ls) (ls_owner ls) (t + ls_ttl ls)")
    case e: (Inl x)
    with assms Inr t(1) failed show ?thesis by (simp add: lease_acquire_def)
  next
    case e: (Inr q)
    obtain got s2 where q: "q = (got, s2)" by (cases q)
    show ?thesis
    proof (cases got)
      case True
      with assms Inr t(1) e q have "s' = s2" "ls' = ls\<lparr>ls_acquired := True, ls_next := Some (t + ls_renew ls)\<rparr>"
        by (auto simp: lease_acquire_def)
      with taken [OF _ t(2) refl] e q True show ?thesis by simp
    next
      case False
      with assms Inr t(1) e q have "s' = s2" "ls' = ls\<lparr>ls_healthy := False\<rparr>"
        by (auto simp: lease_acquire_def)
      with refused e q False show ?thesis by simp
    qed
  qed
qed

lemma lease_tick_cases:
  assumes "lease_tick ren force ls s clock = (r, ls', s')"
  obtains (taken) t e where "ren s (ls_run_key ls) (ls_owner ls) e = Inr (True, s')" "instant_valid e"
      "e = t + ls_ttl ls" "ls' = ls\<lparr>ls_next := Some (t + ls_renew ls)\<rparr>" "ls_healthy ls" "ls_acquired ls"
    | (refused) e x where "ren s (ls_run_key ls) (ls_owner ls) e = Inr (False, s')" "ls' = ls\<lparr>ls_healthy := False\<rparr>"
        "r = Inl x"
    | (failed) x where "s' = s" "ls' = ls" "r = Inl x"
    | (early) "s' = s" "ls' = ls" "\<not> force"
proof (cases "ls_healthy ls \<and> ls_acquired ls \<and> ls_next ls \<noteq> None")
  case False
  with assms failed show ?thesis by (auto simp: lease_tick_def lease_lost_def split: if_splits option.splits)
next
  case True
  then obtain due where due: "ls_next ls = Some due" by auto
  show ?thesis
  proof (cases "aware_now clock")
    case (Inl x)
    with assms True due failed show ?thesis by (auto simp: lease_tick_def)
  next
    case (Inr t)
    define e where "e = t + ls_ttl ls"
    consider "\<not> force \<and> t < due" | "\<not> (\<not> force \<and> t < due)" "\<not> instant_valid e"
      | "\<not> (\<not> force \<and> t < due)" "instant_valid e" by blast
    then show ?thesis
    proof cases
      case 1
      with assms True due Inr early show ?thesis by (simp add: lease_tick_def)
    next
      case 2
      with assms True due Inr failed show ?thesis by (auto simp: lease_tick_def in_calendar_def e_def)
    next
      case 3
      with assms True due Inr have tick: "(case ren s (ls_run_key ls) (ls_owner ls) e of
          Inl x \<Rightarrow> (Inl x, ls, s)
        | Inr (got, s') \<Rightarrow> if got then (Inr (), ls\<lparr>ls_next := Some (t + ls_renew ls)\<rparr>, s')
            else (lease_lost, ls\<lparr>ls_healthy := False\<rparr>, s')) = (r, ls', s')"
        by (simp add: lease_tick_def in_calendar_def e_def)
      show ?thesis
      proof (cases "ren s (ls_run_key ls) (ls_owner ls) e")
        case (Inl x)
        with tick failed show ?thesis by auto
      next
        case q: (Inr q)
        with tick taken [OF _ 3(2) e_def] refused True show ?thesis
          by (cases q) (auto simp: lease_lost_def split: if_splits)
      qed
    qed
  qed
qed

lemma lease_release_cases:
  assumes "lease_release rel ls s = (r, ls', s')"
  obtains (gone) "rel s (ls_run_key ls) (ls_owner ls) = Inr s'" "ls' = ls\<lparr>ls_acquired := False, ls_next := None\<rparr>"
    | (kept) "s' = s" "ls' = ls"
  using assms by (auto simp: lease_release_def split: sum.splits if_splits)

lemma lease_result_fields:
  "lease_acquire acq ls s clock = (r, ls', s') \<Longrightarrow> ls_owner ls' = ls_owner ls \<and> ls_run_key ls' = ls_run_key ls"
  "lease_tick ren force ls s clock = (r2, ls', s') \<Longrightarrow> ls_owner ls' = ls_owner ls \<and> ls_run_key ls' = ls_run_key ls"
  "lease_release rel ls s = (r3, ls', s') \<Longrightarrow> ls_owner ls' = ls_owner ls \<and> ls_run_key ls' = ls_run_key ls"
  by (erule lease_acquire_cases lease_tick_cases lease_release_cases; simp)+

section \<open>The contract of a state store\<close>

text \<open>
  What a lease relies on: \<open>holder s k\<close> is the owner and the expiry of the lock of campaign
  \<open>k\<close>. A lock is only taken when it is free or its expiry has passed, only renewed by its
  unexpired holder and never shortened, only released by its holder; a refusal changes
  nothing.
\<close>

locale campaign_store =
  fixes ok :: "'s \<Rightarrow> bool"
    and holder :: "'s \<Rightarrow> string \<Rightarrow> (string \<times> instant) option"
    and acquire :: "instant \<Rightarrow> 's lock_op"
    and renew :: "instant \<Rightarrow> 's lock_op"
    and release :: "instant \<Rightarrow> 's \<Rightarrow> string \<Rightarrow> string \<Rightarrow> 's res"
    and env :: "'s \<Rightarrow> 's \<Rightarrow> bool"
  assumes acquire_taken: "ok s \<Longrightarrow> owner \<noteq> [] \<Longrightarrow> instant_valid e \<Longrightarrow> acquire now s k owner e = Inr (True, s')
      \<Longrightarrow> ok s' \<and> holder s' = (holder s)(k := Some (owner, e)) \<and> (\<forall>o' x. holder s k = Some (o', x) \<longrightarrow> x \<le> now)"
    and acquire_refused: "ok s \<Longrightarrow> acquire now s k owner e = Inr (False, s') \<Longrightarrow> s' = s"
    and renew_taken: "ok s \<Longrightarrow> instant_valid e \<Longrightarrow> renew now s k owner e = Inr (True, s')
      \<Longrightarrow> ok s' \<and> (\<exists>x. holder s k = Some (owner, x) \<and> now < x \<and> holder s' = (holder s)(k := Some (owner, max x e)))"
    and renew_refused: "ok s \<Longrightarrow> renew now s k owner e = Inr (False, s') \<Longrightarrow> s' = s"
    and release_done: "ok s \<Longrightarrow> release now s k owner = Inr s'
      \<Longrightarrow> ok s' \<and> (\<forall>j. holder s' j = holder s j \<or> (j = k \<and> (\<exists>x. holder s k = Some (owner, x))))"
    and env_keeps: "ok s \<Longrightarrow> env s s' \<Longrightarrow> ok s' \<and> holder s' = holder s"
begin

text \<open>A lease that is alive holds the lock, at least as long as it believes.\<close>

definition holds :: "instant \<Rightarrow> 's \<Rightarrow> campaign_lease \<Rightarrow> bool" where
  "holds now s ls = (lease_alive now ls \<longrightarrow>
     (\<exists>u x. lease_until ls = Some u \<and> holder s (ls_run_key ls) = Some (ls_owner ls, x) \<and> u \<le> x))"

definition system_ok :: "'s lease_system \<Rightarrow> bool" where
  "system_ok c = (case c of (now, s, lss) \<Rightarrow> ok s \<and> distinct (map ls_owner lss)
     \<and> (\<forall>ls\<in>set lss. ls_owner ls \<noteq> [] \<and> holds now s ls))"

lemma alive_later: "lease_alive later ls \<Longrightarrow> now \<le> later \<Longrightarrow> lease_alive now ls"
  by (auto simp: lease_alive_def split: option.splits)

lemma holds_later: "holds now s ls \<Longrightarrow> now \<le> later \<Longrightarrow> holds later s ls"
  using alive_later by (auto simp: holds_def)

text \<open>
  An operation of one lease keeps what the others hold: \<open>ls\<close> operates, \<open>other\<close> is a lease
  with another owner.
\<close>

lemma acquire_keeps:
  assumes "ok s" "ls_owner ls \<noteq> []" "holds now s ls" "lease_acquire (acquire now) ls s clock = (r, ls', s')"
  shows "ok s' \<and> holds now s' ls' \<and> (\<forall>other. ls_owner other \<noteq> ls_owner ls \<longrightarrow> holds now s other \<longrightarrow> holds now s' other)"
proof -
  from assms(4) show ?thesis
  proof (cases rule: lease_acquire_cases)
    case (taken t e)
    from acquire_taken [OF assms(1,2) taken(2,1)] have s': "ok s'"
      "holder s' = (holder s)(ls_run_key ls := Some (ls_owner ls, e))"
      and free: "\<forall>o' x. holder s (ls_run_key ls) = Some (o', x) \<longrightarrow> x \<le> now" by auto
    have "holds now s' other" if "ls_owner other \<noteq> ls_owner ls" "holds now s other" for other
    proof (cases "lease_alive now other \<and> ls_run_key other = ls_run_key ls")
      case True
      with that(2) obtain u x where "lease_until other = Some u" "holder s (ls_run_key ls) = Some (ls_owner other, x)" "u \<le> x"
        by (auto simp: holds_def)
      moreover from True this(1) have "now < u" by (simp add: lease_alive_def)
      ultimately show ?thesis using free by fastforce
    next
      case False
      with that(2) s'(2) show ?thesis by (auto simp: holds_def)
    qed
    moreover have "holds now s' ls'"
      using s'(2) taken by (simp add: holds_def lease_until_def)
    ultimately show ?thesis using s'(1) by blast
  next
    case refused
    with assms(1) acquire_refused [OF assms(1) refused(1)] show ?thesis by (simp add: holds_def lease_alive_def)
  next
    case failed
    with assms(1,3) show ?thesis by simp
  qed
qed

lemma tick_keeps:
  assumes "ok s" "holds now s ls" "lease_tick (renew now) force ls s clock = (r, ls', s')"
  shows "ok s' \<and> holds now s' ls' \<and> (\<forall>other. ls_owner other \<noteq> ls_owner ls \<longrightarrow> holds now s other \<longrightarrow> holds now s' other)"
proof -
  from assms(3) show ?thesis
  proof (cases rule: lease_tick_cases)
    case (taken t e)
    from renew_taken [OF assms(1) taken(2,1)] obtain x where s': "ok s'"
      "holder s' = (holder s)(ls_run_key ls := Some (ls_owner ls, max x e))"
      and x: "holder s (ls_run_key ls) = Some (ls_owner ls, x)" by auto
    have "holds now s' other" if "ls_owner other \<noteq> ls_owner ls" "holds now s other" for other
      using that s'(2) x by (auto simp: holds_def)
    moreover have "holds now s' ls'"
      using s'(2) taken by (simp add: holds_def lease_until_def)
    ultimately show ?thesis using s'(1) by blast
  next
    case refused
    with assms(1) renew_refused [OF assms(1) refused(1)] show ?thesis by (simp add: holds_def lease_alive_def)
  next
    case failed
    with assms(1,2) show ?thesis by simp
  next
    case early
    with assms(1,2) show ?thesis by simp
  qed
qed

lemma release_keeps:
  assumes "ok s" "holds now s ls" "lease_release (release now) ls s = (r, ls', s')"
  shows "ok s' \<and> holds now s' ls' \<and> (\<forall>other. ls_owner other \<noteq> ls_owner ls \<longrightarrow> holds now s other \<longrightarrow> holds now s' other)"
proof -
  from assms(3) show ?thesis
  proof (cases rule: lease_release_cases)
    case gone
    from release_done [OF assms(1) gone(1)] have s': "ok s'"
      "\<forall>j. holder s' j = holder s j \<or> (j = ls_run_key ls \<and> (\<exists>x. holder s j = Some (ls_owner ls, x)))" by auto
    have "holds now s' other" if "ls_owner other \<noteq> ls_owner ls" "holds now s other" for other
      using that s'(2) [rule_format, of "ls_run_key other"] by (auto simp: holds_def)
    with s'(1) gone(2) show ?thesis by (simp add: holds_def lease_alive_def)
  next
    case kept
    with assms(1,2) show ?thesis by simp
  qed
qed

text \<open>The invariant of the system, one operation at a time.\<close>

lemma system_update:
  assumes "system_ok (now, s, lss)" "i < length lss" "ls_owner ls' = ls_owner (lss ! i)"
    and keeps: "ok s' \<and> holds now s' ls' \<and>
      (\<forall>other. ls_owner other \<noteq> ls_owner (lss ! i) \<longrightarrow> holds now s other \<longrightarrow> holds now s' other)"
  shows "system_ok (now, s', lss[i := ls'])"
proof -
  have d: "distinct (map ls_owner lss)" and all: "\<forall>ls\<in>set lss. ls_owner ls \<noteq> [] \<and> holds now s ls"
    using assms(1) by (simp_all add: system_ok_def)
  have "map ls_owner (lss[i := ls']) = map ls_owner lss"
    using assms(2,3) by (simp add: map_update) (metis list_update_id nth_map)
  moreover have "ls_owner ls \<noteq> [] \<and> holds now s' ls" if "ls \<in> set (lss[i := ls'])" for ls
  proof -
    from that obtain j where j: "j < length lss" "ls = lss[i := ls'] ! j" by (auto simp: in_set_conv_nth)
    show ?thesis
    proof (cases "j = i")
      case True
      with j keeps all assms(2,3) show ?thesis by simp
    next
      case False
      with d j assms(2) have "ls_owner (lss ! j) \<noteq> ls_owner (lss ! i)"
        by (simp add: distinct_conv_nth)
      with False j keeps all show ?thesis by simp
    qed
  qed
  ultimately show ?thesis using keeps d by (simp add: system_ok_def)
qed

lemma system_step:
  assumes "lease_step acquire renew release env c c'" "system_ok c"
  shows "system_ok c'"
  using assms
proof (cases rule: lease_step.cases)
  case (step_time now later s lss)
  with assms(2) show ?thesis by (auto simp: system_ok_def intro: holds_later)
next
  case (step_env s s' now lss)
  with assms(2) env_keeps [of s s'] show ?thesis by (auto simp: system_ok_def holds_def)
next
  case (step_acquire i lss now s clock r ls' s')
  with assms(2) have "ok s" "ls_owner (lss ! i) \<noteq> []" "holds now s (lss ! i)" by (auto simp: system_ok_def)
  from acquire_keeps [OF this step_acquire(4)] lease_result_fields(1) [OF step_acquire(4)] step_acquire(1-3) assms(2)
  show ?thesis by (auto intro: system_update)
next
  case (step_tick i lss now force s clock r ls' s')
  with assms(2) have "ok s" "holds now s (lss ! i)" by (auto simp: system_ok_def)
  from tick_keeps [OF this step_tick(4)] lease_result_fields(2) [OF step_tick(4)] step_tick(1-3) assms(2)
  show ?thesis by (auto intro: system_update)
next
  case (step_release i lss now s r ls' s')
  with assms(2) have "ok s" "holds now s (lss ! i)" by (auto simp: system_ok_def)
  from release_keeps [OF this step_release(4)] lease_result_fields(3) [OF step_release(4)] step_release(1-3) assms(2)
  show ?thesis by (auto intro: system_update)
qed

lemma system_reachable:
  "(lease_step acquire renew release env)\<^sup>*\<^sup>* c c' \<Longrightarrow> system_ok c \<Longrightarrow> system_ok c'"
  by (induction rule: rtranclp_induct) (auto intro: system_step)

text \<open>Mutual exclusion.\<close>

lemma exclusive:
  assumes "system_ok (now, s, lss)" "i < length lss" "j < length lss"
    "lease_alive now (lss ! i)" "lease_alive now (lss ! j)" "ls_run_key (lss ! i) = ls_run_key (lss ! j)"
  shows "i = j"
proof -
  have "holds now s (lss ! i)" "holds now s (lss ! j)" and d: "distinct (map ls_owner lss)"
    using assms(1-3) by (auto simp: system_ok_def)
  with assms(4-6) have "ls_owner (lss ! i) = ls_owner (lss ! j)" by (auto simp: holds_def)
  with d assms(2,3) show ?thesis by (simp add: distinct_conv_nth) metis
qed

text \<open>A fenced result was computed between two moments at which the lease held the lock.\<close>

lemma tick_forced:
  assumes "ok s" "lease_tick (renew now) True ls s clock = (Inr u, ls', s')"
  shows "ok s' \<and> (\<exists>x y. holder s (ls_run_key ls) = Some (ls_owner ls, x) \<and> now < x
    \<and> holder s' (ls_run_key ls) = Some (ls_owner ls, y))"
  using assms(2)
proof (cases rule: lease_tick_cases)
  case (taken t e)
  with renew_taken [OF assms(1) taken(2,1)] show ?thesis by auto
qed auto

lemma fenced:
  assumes "ok s" "\<And>s1 s2 a. ok s1 \<Longrightarrow> phase s1 = (Inr a, s2) \<Longrightarrow> ok s2"
    "lease_run_fenced (renew now) phase (renew later) ls s clock clock' = (Inr a, ls', s')"
  shows "\<exists>s1 s2 x y. holder s (ls_run_key ls) = Some (ls_owner ls, x) \<and> now < x \<and> phase s1 = (Inr a, s2)
    \<and> holder s2 (ls_run_key ls) = Some (ls_owner ls, y) \<and> later < y"
proof -
  from assms(3) obtain u ls1 s1 s2 u' ls3 where
    t1: "lease_tick (renew now) True ls s clock = (Inr u, ls1, s1)" and ph: "phase s1 = (Inr a, s2)"
    and t2: "lease_tick (renew later) True ls1 s2 clock' = (Inr u', ls3, s')"
    by (auto simp: lease_run_fenced_def lease_lost_def split: prod.splits sum.splits if_splits)
  note h1 = tick_forced [OF assms(1) t1]
  with assms(2) ph have "ok s2" by blast
  from tick_forced [OF this t2] h1 ph lease_result_fields(2) [OF t1] show ?thesis by force
qed

end

section \<open>The filesystem store keeps the contract\<close>

definition lock_holder :: "ledger \<Rightarrow> (string \<times> instant) option" where
  "lock_holder l =
     (case (bl_lock_owner l, bl_lock_expires_at l) of
        (PStr owner, PStr text) \<Rightarrow>
          (case parse_utc_text text of Inr d \<Rightarrow> Some (owner, dt_instant d) | Inl _ \<Rightarrow> None)
      | _ \<Rightarrow> None)"

definition file_holder :: "fstore \<Rightarrow> string \<Rightarrow> (string \<times> instant) option" where
  "file_holder fs k = (case view fs k of None \<Rightarrow> None | Some l \<Rightarrow> lock_holder l)"

definition lock_ok :: "ledger \<Rightarrow> bool" where
  "lock_ok l = (bl_lock_owner l = PNone \<or> (\<exists>owner e. bl_lock_owner l = PStr owner \<and> owner \<noteq> []
     \<and> bl_lock_expires_at l = PStr (utc_text e) \<and> instant_valid e))"

definition file_ok :: "fstore \<Rightarrow> bool" where
  "file_ok fs = (store_ok fs \<and> (\<forall>k l. view fs k = Some l \<longrightarrow> lock_ok l))"

lemma lock_ok_cases:
  assumes "lock_ok l"
  obtains "bl_lock_owner l = PNone" "lock_holder l = None"
  | owner e where "bl_lock_owner l = PStr owner" "owner \<noteq> []" "bl_lock_expires_at l = PStr (utc_text e)"
      "instant_valid e" "lock_holder l = Some (owner, e)"
  using assms by (auto simp: lock_ok_def lock_holder_def)

lemma lock_taken:
  assumes "bl_lock_owner l = PStr owner" "owner \<noteq> []" "bl_lock_expires_at l = PStr (utc_text e)" "instant_valid e"
  shows "lock_ok l \<and> lock_holder l = Some (owner, e)"
  using assms unfolding lock_ok_def lock_holder_def by auto

text \<open>
  Operations other than those on the campaign lock; a new campaign starts unlocked. A raw save
  writes the lock fields of the ledger too, so it keeps the lock only when the ledger carries
  the fields that the store holds.
\<close>

fun other_op :: "file_op \<Rightarrow> bool" where
  "other_op (OpCreate l) = (bl_lock_owner l = PNone)"
| "other_op (OpAcquireCampaign owner e) = False"
| "other_op (OpRenewCampaign owner e) = False"
| "other_op (OpReleaseCampaign owner) = False"
| "other_op op = True"

definition same_lock :: "ledger \<Rightarrow> ledger option \<Rightarrow> bool" where
  "same_lock l stored =
     (case stored of
        None \<Rightarrow> bl_lock_owner l = PNone
      | Some c \<Rightarrow> bl_lock_owner l = bl_lock_owner c \<and> bl_lock_expires_at l = bl_lock_expires_at c)"

fun lock_kept :: "fstore \<Rightarrow> string \<Rightarrow> file_op \<Rightarrow> bool" where
  "lock_kept fs k (OpSave l) = same_lock l (view fs k)"
| "lock_kept fs k (OpUpdateChunk l r) = (view fs k = None \<longrightarrow> bl_lock_owner l = PNone)"
| "lock_kept fs k op = True"

definition file_env :: "fstore \<Rightarrow> fstore \<Rightarrow> bool" where
  "file_env fs fs' =
     (\<exists>now t k op. op_ok op \<and> other_op op \<and> lock_kept fs k op \<and> fs' = apply_op fs now t k op)"

definition file_acquire :: "instant \<Rightarrow> fstore lock_op" where
  "file_acquire now fs k owner e = acquire_campaign_lock fs now now k owner e"

definition file_renew :: "instant \<Rightarrow> fstore lock_op" where
  "file_renew now fs k owner e = renew_campaign_lock fs now now k owner e"

definition file_release :: "instant \<Rightarrow> fstore \<Rightarrow> string \<Rightarrow> string \<Rightarrow> fstore res" where
  "file_release now fs k owner = release_campaign_lock fs now k owner"

lemma file_becomes:
  assumes "file_ok fs" "becomes fs fs' k l" "lock_ok l"
  shows "file_ok fs' \<and> file_holder fs' = (file_holder fs)(k := lock_holder l)"
  using assms by (auto simp: file_ok_def becomes_def file_holder_def fun_eq_iff)

lemma file_becomes_same_lock:
  assumes "file_ok fs" "becomes fs fs' k l'" "view fs k = Some l"
    "bl_lock_owner l' = bl_lock_owner l" "bl_lock_expires_at l' = bl_lock_expires_at l"
  shows "file_ok fs' \<and> file_holder fs' = file_holder fs"
proof -
  have "lock_ok l' = lock_ok l" "lock_holder l' = lock_holder l"
    using assms(4,5) by (simp_all add: lock_ok_def lock_holder_def)
  moreover have "lock_ok l" using assms(1,3) by (simp add: file_ok_def)
  ultimately show ?thesis
    using file_becomes [OF assms(1,2)] assms(3) by (auto simp: file_holder_def fun_eq_iff)
qed

lemma file_kept:
  "file_ok fs \<Longrightarrow> (\<And>fs'. r = Inr fs' \<Longrightarrow> file_ok fs' \<and> file_holder fs' = file_holder fs)
    \<Longrightarrow> file_ok (kept fs r) \<and> file_holder (kept fs r) = file_holder fs"
  "file_ok fs \<Longrightarrow> (\<And>b fs'. r2 = Inr (b, fs') \<Longrightarrow> file_ok fs' \<and> file_holder fs' = file_holder fs)
    \<Longrightarrow> file_ok (kept2 fs r2) \<and> file_holder (kept2 fs r2) = file_holder fs"
  by (auto simp: kept_def kept2_def split: sum.split prod.split)

lemma file_save_same_lock:
  assumes "file_ok fs" "ledger_wf l" "bl_run_key l = k" "same_lock l (view fs k)"
  shows "file_ok (fs_save fs t l) \<and> file_holder (fs_save fs t l) = file_holder fs"
proof -
  have ok: "store_ok fs" using assms(1) by (simp add: file_ok_def)
  have "lock_ok (stamped t l) \<and> lock_holder (stamped t l) = file_holder fs k"
  proof (cases "view fs k")
    case None
    with assms(4) show ?thesis by (simp add: same_lock_def lock_ok_def lock_holder_def file_holder_def)
  next
    case (Some c)
    with assms(1) have "lock_ok c" by (simp add: file_ok_def)
    with Some assms(4) show ?thesis by (simp add: same_lock_def lock_ok_def lock_holder_def file_holder_def)
  qed
  with file_becomes [OF assms(1), of "fs_save fs t l" k "stamped t l"] assms(2,3) store_ok_save [OF ok assms(2), of t]
    view_save [OF assms(2), of fs t] show ?thesis by (simp add: becomes_def fun_eq_iff)
qed

lemma other_op_keeps_lock:
  assumes "file_ok fs" "op_ok op" "other_op op" "lock_kept fs k op"
  shows "file_ok (apply_op fs now t k op) \<and> file_holder (apply_op fs now t k op) = file_holder fs"
proof -
  have ok: "store_ok fs" using assms(1) by (simp add: file_ok_def)
  note same = file_becomes_same_lock [OF assms(1)]
  show ?thesis
  proof (cases op)
    case (OpCreate l)
    show ?thesis
    proof (cases "bl_run_key l = k \<and> fs_load fs k = Inr None")
      case True
      then have "view fs k = None" by (simp add: view_def)
      with True OpCreate assms show ?thesis
        by (auto simp: file_ok_def store_ok_save view_save lock_ok_def file_holder_def lock_holder_def fun_eq_iff)
    qed (use OpCreate assms(1) in auto)
  next
    case (OpSave l)
    show ?thesis
    proof (cases "bl_run_key l = k")
      case True
      with OpSave assms(2,4) show ?thesis by (simp add: file_save_same_lock [OF assms(1)])
    qed (use OpSave assms(1) in simp)
  next
    case (OpUpdateChunk l r)
    show ?thesis
    proof (cases "bl_run_key l = k")
      case key: True
      show ?thesis
      proof (cases "view fs k")
        case None
        from update_chunk_new [OF ok None key, of r t] file_save_same_lock [OF assms(1)] None key OpUpdateChunk assms(2,4)
        show ?thesis by (simp add: kept_def same_lock_def)
      next
        case (Some c)
        from OpUpdateChunk assms(2) have "cr_status r \<noteq> []" by simp
        then obtain fs' where "fs_update_chunk fs t l r = Inr fs'" "becomes fs fs' k (with_chunk t c r)"
          by (rule update_chunk_stored [OF ok Some key])
        with same [OF this(2) Some] OpUpdateChunk key show ?thesis by (simp add: kept_def)
      qed
    qed (use OpUpdateChunk assms(1) in simp)
  next
    case (OpCancel reason who)
    then show ?thesis by (simp, intro file_kept(1) assms(1)) (elim request_cancel_cases [OF ok], rule same, assumption, assumption, simp_all)
  next
    case (OpAcquireInit owner)
    then show ?thesis
      using assms(1) same_files_view [OF init_lock_files(1), of fs k owner] by (simp add: file_ok_def file_holder_def fun_eq_iff)
  next
    case (OpReleaseInit owner)
    then show ?thesis
      using assms(1) same_files_view [OF init_lock_files(2), of fs k owner] by (simp add: file_ok_def file_holder_def fun_eq_iff)
  next
    case (OpAcquireChunk i owner e)
    then show ?thesis
      by (simp, intro file_kept(2) assms(1)) (elim acquire_chunk_cases [OF ok], simp add: assms(1), rule same, assumption, assumption, simp_all)
  next
    case (OpRenewChunk i owner e)
    then show ?thesis
      by (simp, intro file_kept(2) assms(1)) (elim renew_chunk_cases [OF ok], simp add: assms(1), rule same, assumption, assumption, simp_all)
  next
    case (OpComplete r owner)
    with assms(2) have st: "cr_status r \<noteq> []" by simp
    show ?thesis unfolding OpComplete apply_op.simps
      by (intro file_kept(2) assms(1)) (elim complete_chunk_cases [OF ok st], simp add: assms(1), rule same, assumption, assumption, simp_all)
  next
    case OpRecover
    have rec: "file_ok fs' \<and> file_holder fs' = file_holder fs" if "recover_stale_running fs t k now = Inr (is, fs')" for "is" fs'
      using ok that
    proof (rule recover_cases)
      fix l assume l: "view fs k = Some l" "is = [] \<Longrightarrow> fs' = fs"
        "is \<noteq> [] \<Longrightarrow> becomes fs fs' k (stamped t (l\<lparr>bl_chunks := map (recovered_chunk now) (bl_chunks l)\<rparr>))"
      show ?thesis using l(2) same [OF l(3) l(1)] assms(1) by (cases "is = []") simp_all
    qed
    show ?thesis unfolding OpRecover apply_op.simps by (rule file_kept(2) [OF assms(1)]) (rule rec)
  qed (use assms(3) in simp_all)
qed

lemma file_acquire_taken:
  assumes "file_ok fs" "owner \<noteq> []" "instant_valid e" "file_acquire now fs k owner e = Inr (True, fs')"
  shows "file_ok fs' \<and> file_holder fs' = (file_holder fs)(k := Some (owner, e))
    \<and> (\<forall>o' x. file_holder fs k = Some (o', x) \<longrightarrow> x \<le> now)"
proof -
  have ok: "store_ok fs" using assms(1) by (simp add: file_ok_def)
  from ok assms(4) [unfolded file_acquire_def] show ?thesis
  proof (rule acquire_campaign_cases)
    fix l
    let ?l = "stamped now ((reactivated l)\<lparr>bl_lock_owner := PStr owner, bl_lock_expires_at := PStr (utc_text e)\<rparr>)"
    assume l: "view fs k = Some l"
      "py_truthy (bl_lock_owner l) \<Longrightarrow> expired now (bl_lock_expires_at l) = Inr True" "becomes fs fs' k ?l"
    have "lock_ok ?l" "lock_holder ?l = Some (owner, e)"
      using lock_taken [of ?l owner e] assms(2,3) by simp_all
    moreover have "lock_ok l" using assms(1) l(1) by (simp add: file_ok_def)
    then have "x \<le> now" if "file_holder fs k = Some (o', x)" for o' x
      by (cases rule: lock_ok_cases) (use that l(1,2) in \<open>auto simp: file_holder_def\<close>)
    ultimately show ?thesis using file_becomes [OF assms(1) l(3)] by auto
  qed simp
qed

lemma file_renew_taken:
  assumes "file_ok fs" "instant_valid e" "file_renew now fs k owner e = Inr (True, fs')"
  shows "file_ok fs' \<and> (\<exists>x. file_holder fs k = Some (owner, x) \<and> now < x
    \<and> file_holder fs' = (file_holder fs)(k := Some (owner, max x e)))"
proof -
  have ok: "store_ok fs" using assms(1) by (simp add: file_ok_def)
  have held: "\<exists>x. bl_lock_expires_at l = PStr (utc_text x) \<and> instant_valid x \<and> file_holder fs k = Some (owner, x)
      \<and> owner \<noteq> [] \<and> now < x"
    if "view fs k = Some l" "bl_lock_owner l = PStr owner" "expired now (bl_lock_expires_at l) = Inr False" for l
  proof -
    have "lock_ok l" using assms(1) that(1) by (simp add: file_ok_def)
    then show ?thesis by (cases rule: lock_ok_cases) (use that in \<open>auto simp: file_holder_def\<close>)
  qed
  from ok assms(3) [unfolded file_renew_def] show ?thesis
  proof (rule renew_campaign_cases)
    fix l
    assume l: "view fs k = Some l" "bl_lock_owner l = PStr owner" "expired now (bl_lock_expires_at l) = Inr False"
      "extends (bl_lock_expires_at l) e = Inr False" "fs' = fs"
    from held [OF l(1-3)] obtain x where x: "bl_lock_expires_at l = PStr (utc_text x)" "instant_valid x"
      "file_holder fs k = Some (owner, x)" "now < x" by auto
    with l(4) have "max x e = x" by simp
    with x l(5) assms(1) show ?thesis by (auto simp: fun_eq_iff)
  next
    fix l
    let ?l = "stamped now (l\<lparr>bl_lock_expires_at := PStr (utc_text e)\<rparr>)"
    assume l: "view fs k = Some l" "bl_lock_owner l = PStr owner" "expired now (bl_lock_expires_at l) = Inr False"
      "extends (bl_lock_expires_at l) e = Inr True" "becomes fs fs' k ?l"
    from held [OF l(1-3)] obtain x where x: "bl_lock_expires_at l = PStr (utc_text x)" "instant_valid x"
      "file_holder fs k = Some (owner, x)" "owner \<noteq> []" "now < x" by auto
    with l(4) have "max x e = e" by simp
    moreover have "lock_ok ?l" "lock_holder ?l = Some (owner, e)"
      using lock_taken [of ?l owner e] x(4) l(2) assms(2) by simp_all
    ultimately show ?thesis using file_becomes [OF assms(1) l(5)] x by auto
  qed simp
qed

lemma file_release_done:
  assumes "file_ok fs" "file_release now fs k owner = Inr fs'"
  shows "file_ok fs' \<and> (\<forall>j. file_holder fs' j = file_holder fs j
    \<or> (j = k \<and> (\<exists>x. file_holder fs k = Some (owner, x))))"
proof -
  have ok: "store_ok fs" using assms(1) by (simp add: file_ok_def)
  from ok assms(2) [unfolded file_release_def] show ?thesis
  proof (rule release_campaign_cases)
    fix l
    let ?l = "stamped now (l\<lparr>bl_lock_owner := PNone, bl_lock_expires_at := PNone\<rparr>)"
    assume l: "view fs k = Some l" "bl_lock_owner l = PStr owner" "becomes fs fs' k ?l"
    have "lock_ok l" using assms(1) l(1) by (simp add: file_ok_def)
    then have "\<exists>x. file_holder fs k = Some (owner, x)"
      by (cases rule: lock_ok_cases) (use l in \<open>auto simp: file_holder_def\<close>)
    moreover have "lock_ok ?l" by (simp add: lock_ok_def)
    ultimately show ?thesis using file_becomes [OF assms(1) l(3)] by auto
  qed (use assms(1) in simp)
qed

lemma file_acquire_refused: "file_ok fs \<Longrightarrow> file_acquire now fs k owner e = Inr (False, fs') \<Longrightarrow> fs' = fs"
  by (auto simp: file_acquire_def file_ok_def elim: acquire_campaign_cases)

lemma file_renew_refused: "file_ok fs \<Longrightarrow> file_renew now fs k owner e = Inr (False, fs') \<Longrightarrow> fs' = fs"
  by (auto simp: file_renew_def file_ok_def elim: renew_campaign_cases)

lemma file_env_keeps: "file_ok fs \<Longrightarrow> file_env fs fs' \<Longrightarrow> file_ok fs' \<and> file_holder fs' = file_holder fs"
  using other_op_keeps_lock by (auto simp: file_env_def)

interpretation file_lock: campaign_store file_ok file_holder file_acquire file_renew file_release file_env
  by unfold_locales
    (rule file_acquire_taken file_acquire_refused file_renew_taken file_renew_refused file_release_done file_env_keeps;
      assumption)+

section \<open>Properties\<close>

abbreviation file_lease_step :: "fstore lease_system \<Rightarrow> fstore lease_system \<Rightarrow> bool" where
  "file_lease_step \<equiv> lease_step file_acquire file_renew file_release file_env"

definition fresh_lease :: "campaign_lease \<Rightarrow> bool" where
  "fresh_lease ls = (ls_owner ls \<noteq> [] \<and> \<not> ls_acquired ls)"

lemma fresh_system:
  assumes "file_ok fs" "distinct (map ls_owner lss)" "list_all fresh_lease lss"
  shows "file_lock.system_ok (now, fs, lss)"
  using assms by (auto simp: file_lock.system_ok_def file_lock.holds_def lease_alive_def fresh_lease_def list_all_iff)

text \<open>
  C2: mutual exclusion of campaign leases on one filesystem store. Start any number of lease
  objects with different owners; let them acquire, renew and release in any interleaving,
  with clocks of their own, while chunks are leased and completed, stale chunks recovered,
  campaigns created or cancelled, chunk records updated and whole ledgers saved, provided that a
  saved ledger carries the lock fields that the store holds. At any time at most one lease
  object of a campaign is alive. The callers share the store object: its lock is the process's.
  Without the condition on saves two leases can be alive (\<open>stale_save_frees_lock\<close>).
\<close>

theorem campaign_lease_exclusive:
  assumes "file_ok fs0" "distinct (map ls_owner lss0)" "list_all fresh_lease lss0"
    "file_lease_step\<^sup>*\<^sup>* (now0, fs0, lss0) (now, fs, lss)"
    "i < length lss" "j < length lss" "lease_alive now (lss ! i)" "lease_alive now (lss ! j)"
    "ls_run_key (lss ! i) = ls_run_key (lss ! j)"
  shows "i = j"
  using file_lock.system_reachable [OF assms(4) fresh_system [OF assms(1-3)]] assms(5-9)
  by (rule file_lock.exclusive)

text \<open>
  Why the condition on saves is needed: a ledger that was read before the lock was renewed (or
  taken) and is saved afterwards puts the old expiry back, and from then on another owner gets
  the lock although the lease that renewed it is still alive.
\<close>

theorem stale_save_frees_lock:
  assumes "file_ok fs" "file_holder fs k = Some (owner, x)" "now < x"
    and "ledger_wf l" "bl_run_key l = k" "\<not> cancel_requested l" "lock_ok l"
    and "lock_holder l = Some (owner, y)" "y \<le> now" "other \<noteq> []" "instant_valid e"
  shows "(\<forall>s'. file_acquire now fs k other e \<noteq> Inr (True, s'))
    \<and> (\<exists>s'. file_acquire now (fs_save fs t l) k other e = Inr (True, s') \<and> file_holder s' k = Some (other, e))"
proof
  show "\<forall>s'. file_acquire now fs k other e \<noteq> Inr (True, s')"
    using file_acquire_taken [OF assms(1,10,11), of now k] assms(2,3) by fastforce
next
  let ?fs = "fs_save fs t l" and ?l = "stamped t l"
  have ok: "store_ok fs" using assms(1) by (simp add: file_ok_def)
  have lock: "lock_ok ?l" "lock_holder ?l = Some (owner, y)"
    using assms(7,8) by (simp_all add: lock_ok_def lock_holder_def)
  have "becomes fs ?fs k ?l"
    using store_ok_save [OF ok assms(4)] view_save [OF assms(4)] assms(5) by (simp add: becomes_def)
  from file_becomes [OF assms(1) this lock(1)] have fok: "file_ok ?fs" by simp
  have v: "view ?fs k = Some ?l" using assms(5) by (simp add: view_save [OF assms(4)])
  have gone: "expired now (bl_lock_expires_at ?l) = Inr True"
    using lock(1) by (cases rule: lock_ok_cases) (use lock(2) assms(9) in simp_all)
  have req: "fs_require ?fs k = Inr ?l" using v store_ok_save [OF ok assms(4)] by (simp add: fs_require_view)
  obtain s' where a: "file_acquire now ?fs k other e = Inr (True, s')"
    using gone assms(6) by (simp add: file_acquire_def acquire_campaign_lock_def req Let_def)
  from file_acquire_taken [OF fok assms(10,11) a] a show
    "\<exists>s'. file_acquire now ?fs k other e = Inr (True, s') \<and> file_holder s' k = Some (other, e)" by auto
qed

text \<open>
  C15: a fenced phase keeps its result only under continuous ownership. When \<open>run_fenced\<close>
  returns the result of a phase, the lease held the campaign lock, unexpired, right before
  the phase and right after it.
\<close>

theorem fenced_phase_owned:
  assumes "file_ok fs" "\<And>s1 s2 a. file_ok s1 \<Longrightarrow> phase s1 = (Inr a, s2) \<Longrightarrow> file_ok s2"
    "lease_run_fenced (file_renew now) phase (file_renew later) ls fs clock clock' = (Inr a, ls', fs')"
  shows "\<exists>s1 s2 x y. file_holder fs (ls_run_key ls) = Some (ls_owner ls, x) \<and> now < x \<and> phase s1 = (Inr a, s2)
    \<and> file_holder s2 (ls_run_key ls) = Some (ls_owner ls, y) \<and> later < y"
  using assms by (rule file_lock.fenced)

section \<open>Examples\<close>

definition example_campaign :: fstore where
  "example_campaign = fs_save empty_store (example_time 0) example_ledger"

definition example_lease :: "string \<Rightarrow> campaign_lease" where
  "example_lease who = \<lparr>ls_run_key = ''rk'', ls_owner = recoverable_owner_prefix @ who, ls_ttl = process_lane_ttl,
     ls_renew = process_lane_renew, ls_next = None, ls_acquired = False, ls_healthy = True\<rparr>"

lemma example_campaign_ok: "file_ok example_campaign"
proof -
  have none: "view empty_store k = None" for k by (simp add: view_def fs_load_def empty_store_def)
  have lock: "lock_ok (stamped t example_ledger)" for t by (simp add: lock_ok_def example_ledger_def)
  show ?thesis
    unfolding file_ok_def example_campaign_def
    by (auto simp: view_save [OF example_ledger_wf] none lock store_ok_save [OF _ example_ledger_wf] split: if_splits)
qed

text \<open>A free lock is granted, a held one renewed.\<close>

definition campaign_open :: "fstore \<Rightarrow> string \<Rightarrow> bool" where
  "campaign_open fs k = (case view fs k of None \<Rightarrow> False | Some l \<Rightarrow> \<not> cancel_requested l)"

lemma file_acquire_free:
  assumes "file_ok fs" "campaign_open fs k" "file_holder fs k = None" "owner \<noteq> []" "instant_valid e"
  shows "\<exists>s'. file_acquire now fs k owner e = Inr (True, s') \<and> file_ok s' \<and> campaign_open s' k
    \<and> file_holder s' k = Some (owner, e)"
proof -
  have ok: "store_ok fs" using assms(1) by (simp add: file_ok_def)
  obtain l where l: "view fs k = Some l" "\<not> cancel_requested l"
    using assms(2) by (auto simp: campaign_open_def split: option.splits)
  then have req: "fs_require fs k = Inr l" by (simp add: fs_require_view [OF ok])
  let ?l = "l\<lparr>bl_lock_owner := PStr owner, bl_lock_expires_at := PStr (utc_text e)\<rparr>"
  have "lock_ok l" using assms(1) l(1) by (simp add: file_ok_def)
  then have "bl_lock_owner l = PNone"
    by (cases rule: lock_ok_cases) (use assms(3) l(1) in \<open>simp_all add: file_holder_def\<close>)
  with l(2) have a: "file_acquire now fs k owner e = Inr (True, fs_save fs now ?l)"
    by (simp add: file_acquire_def acquire_campaign_lock_def req Let_def)
  from view_wf [OF ok l(1)] have "ledger_wf ?l" "bl_run_key ?l = k" by auto
  then have "campaign_open (fs_save fs now ?l) k"
    using l(2) by (simp add: campaign_open_def view_save cancel_requested_def)
  with file_acquire_taken [OF assms(1,4,5) a] a show ?thesis by auto
qed

lemma file_renew_held:
  assumes "file_ok fs" "campaign_open fs k" "file_holder fs k = Some (owner, x)" "now < x" "x < e" "instant_valid e"
  shows "\<exists>s'. file_renew now fs k owner e = Inr (True, s') \<and> file_ok s' \<and> campaign_open s' k
    \<and> file_holder s' k = Some (owner, e)"
proof -
  have ok: "store_ok fs" using assms(1) by (simp add: file_ok_def)
  obtain l where l: "view fs k = Some l" "\<not> cancel_requested l"
    using assms(2) by (auto simp: campaign_open_def split: option.splits)
  then have req: "fs_require fs k = Inr l" by (simp add: fs_require_view [OF ok])
  let ?l = "l\<lparr>bl_lock_expires_at := PStr (utc_text e)\<rparr>"
  have "lock_ok l" using assms(1) l(1) by (simp add: file_ok_def)
  then have held: "bl_lock_owner l = PStr owner" "bl_lock_expires_at l = PStr (utc_text x)" "instant_valid x"
    by (cases rule: lock_ok_cases; use assms(3) l(1) in \<open>simp add: file_holder_def\<close>)+
  have a: "file_renew now fs k owner e = Inr (True, fs_save fs now ?l)"
    using l(2) held assms(4,5) by (simp add: file_renew_def renew_campaign_lock_def renew_campaign_lock_if_owned_def req)
  from view_wf [OF ok l(1)] have "ledger_wf ?l" "bl_run_key ?l = k" by auto
  then have "campaign_open (fs_save fs now ?l) k"
    using l(2) by (simp add: campaign_open_def view_save cancel_requested_def)
  with file_renew_taken [OF assms(1,6) a] a assms(3,5) show ?thesis by auto
qed

lemma aware_now_instant: "instant_valid t \<Longrightarrow> aware_now (of_instant t) = Inr t"
  by (simp add: aware_now_def in_calendar_def)

lemma example_instant_valid: "0 \<le> m \<Longrightarrow> m < 100 \<Longrightarrow> instant_valid (example_time m)"
  "0 \<le> m \<Longrightarrow> m < 100 \<Longrightarrow> instant_valid (example_time m + process_lane_ttl)"
  by (simp_all add: instant_valid_def example_time_def process_lane_ttl_def us_day_def us_second_def max_ordinal_def)

lemma example_open: "campaign_open example_campaign ''rk''" "file_holder example_campaign ''rk'' = None"
  by (simp_all add: campaign_open_def file_holder_def example_campaign_def view_save [OF example_ledger_wf])
    (simp_all add: example_ledger_def cancel_requested_def lock_holder_def)

abbreviation example_owner :: "string \<Rightarrow> string" where
  "example_owner who \<equiv> recoverable_owner_prefix @ who"

lemma example_lease_fields:
  "ls_run_key (example_lease who) = ''rk''" "ls_owner (example_lease who) = example_owner who"
  "ls_ttl (example_lease who) = process_lane_ttl" "ls_renew (example_lease who) = process_lane_renew"
  "ls_healthy (example_lease who)"
  by (simp_all add: example_lease_def)

lemma example_acquired_full:
  obtains s where "lease_acquire (file_acquire (example_time 1)) (example_lease ''a'') example_campaign
      (of_instant (example_time 1))
    = (Inr (), (example_lease ''a'')\<lparr>ls_acquired := True, ls_next := Some (example_time 1 + process_lane_renew)\<rparr>, s)"
    "file_ok s" "campaign_open s ''rk''"
    "file_holder s ''rk'' = Some (example_owner ''a'', example_time 1 + process_lane_ttl)"
proof -
  have "example_owner ''a'' \<noteq> []" by (simp add: recoverable_owner_prefix_def)
  from file_acquire_free [OF example_campaign_ok example_open this example_instant_valid(2), of 1 "example_time 1"]
  obtain s where "file_acquire (example_time 1) example_campaign ''rk'' (example_owner ''a'')
      (example_time 1 + process_lane_ttl) = Inr (True, s)" "file_ok s" "campaign_open s ''rk''"
    "file_holder s ''rk'' = Some (example_owner ''a'', example_time 1 + process_lane_ttl)" by auto
  with that [of s] show ?thesis
    by (simp add: lease_acquire_def aware_now_instant example_instant_valid in_calendar_def example_lease_fields)
qed

lemma example_acquired:
  "case lease_acquire (file_acquire (example_time 1)) (example_lease ''a'') example_campaign (of_instant (example_time 1)) of
     (r, ls, s) \<Rightarrow> r = Inr () \<and> lease_alive (example_time 1) ls"
proof -
  obtain s where "lease_acquire (file_acquire (example_time 1)) (example_lease ''a'') example_campaign
      (of_instant (example_time 1))
    = (Inr (), (example_lease ''a'')\<lparr>ls_acquired := True, ls_next := Some (example_time 1 + process_lane_renew)\<rparr>, s)"
    by (rule example_acquired_full)
  then show ?thesis
    by (simp add: lease_alive_def lease_until_def example_lease_fields process_lane_ttl_def us_second_def)
qed

theorem campaign_lease_exclusive_witness:
  "\<exists>fs ls. file_lease_step\<^sup>*\<^sup>*
       (example_time 1, example_campaign, [example_lease ''a'', example_lease ''b''])
       (example_time 1, fs, [ls, example_lease ''b''])
     \<and> (\<forall>j<2. lease_alive (example_time 1) ([ls, example_lease ''b''] ! j) \<longrightarrow> j = 0)"
proof -
  let ?lss = "[example_lease ''a'', example_lease ''b'']"
  obtain r ls fs where acq: "lease_acquire (file_acquire (example_time 1)) (?lss ! 0) example_campaign
      (of_instant (example_time 1)) = (r, ls, fs)" and alive: "lease_alive (example_time 1) ls"
    using example_acquired by (auto split: prod.splits)
  from step_acquire [where i = 0 and lss = ?lss and acquire = file_acquire, OF _ acq] have "file_lease_step (example_time 1, example_campaign, ?lss)
      (example_time 1, fs, [ls, example_lease ''b''])" by simp
  then have steps: "file_lease_step\<^sup>*\<^sup>* (example_time 1, example_campaign, ?lss)
      (example_time 1, fs, [ls, example_lease ''b''])" by (rule r_into_rtranclp)
  have "distinct (map ls_owner ?lss)" "list_all fresh_lease ?lss"
    by (simp_all add: example_lease_def fresh_lease_def recoverable_owner_prefix_def)
  note ex = campaign_lease_exclusive [OF example_campaign_ok this steps]
  have "ls_run_key ls = ''rk''"
    using lease_result_fields(1) [OF acq] by (simp add: example_lease_def)
  then have "j = 0" if "j < 2" "lease_alive (example_time 1) ([ls, example_lease ''b''] ! j)" for j
    using ex [of j 0] that alive by (cases j) (simp_all add: example_lease_def less_Suc_eq numeral_2_eq_2)
  with steps show ?thesis by blast
qed

definition example_phase :: "fstore \<Rightarrow> int res \<times> fstore" where
  "example_phase fs = (Inr 7, fs)"

lemma example_tick:
  assumes "file_ok s" "campaign_open s ''rk''" "file_holder s ''rk'' = Some (example_owner ''a'', x)"
    "example_time m < x" "x < example_time m + process_lane_ttl" "0 \<le> m" "m < 100"
    "ls = (example_lease ''a'')\<lparr>ls_acquired := True, ls_next := Some due\<rparr>"
  obtains s' where "lease_tick (file_renew (example_time m)) True ls s (of_instant (example_time m))
      = (Inr (), ls\<lparr>ls_next := Some (example_time m + process_lane_renew)\<rparr>, s')"
    "file_ok s'" "campaign_open s' ''rk''" "file_holder s' ''rk'' = Some (example_owner ''a'', example_time m + process_lane_ttl)"
proof -
  from file_renew_held [OF assms(1-5) example_instant_valid(2) [OF assms(6,7)]] obtain s' where
    "file_renew (example_time m) s ''rk'' (example_owner ''a'') (example_time m + process_lane_ttl) = Inr (True, s')"
    "file_ok s'" "campaign_open s' ''rk''" "file_holder s' ''rk'' = Some (example_owner ''a'', example_time m + process_lane_ttl)"
    by blast
  with that [of s'] show ?thesis
    unfolding assms(8)
    by (simp add: lease_tick_def aware_now_instant example_instant_valid assms(6,7) in_calendar_def example_lease_fields)
qed

theorem fenced_phase_owned_witness:
  "\<exists>ls fs ls' fs' s2 y. file_ok fs \<and> lease_run_fenced (file_renew (example_time 2)) example_phase
       (file_renew (example_time 3)) ls fs (of_instant (example_time 2)) (of_instant (example_time 3)) = (Inr 7, ls', fs')
     \<and> file_holder s2 ''rk'' = Some (example_owner ''a'', y) \<and> example_time 3 < y"
proof -
  let ?l = "\<lambda>due. (example_lease ''a'')\<lparr>ls_acquired := True, ls_next := Some due\<rparr>"
  obtain s where s: "file_ok s" "campaign_open s ''rk''"
    "file_holder s ''rk'' = Some (example_owner ''a'', example_time 1 + process_lane_ttl)" by (rule example_acquired_full)
  obtain s1 where s1: "lease_tick (file_renew (example_time 2)) True (?l 0) s (of_instant (example_time 2))
      = (Inr (), ?l (example_time 2 + process_lane_renew), s1)"
    "file_ok s1" "campaign_open s1 ''rk''" "file_holder s1 ''rk'' = Some (example_owner ''a'', example_time 2 + process_lane_ttl)"
    by (rule example_tick [OF s, of 2 "?l 0" 0]) (simp_all add: example_time_def process_lane_ttl_def us_second_def)
  obtain s3 where s3: "lease_tick (file_renew (example_time 3)) True (?l (example_time 2 + process_lane_renew)) s1
      (of_instant (example_time 3)) = (Inr (), ?l (example_time 3 + process_lane_renew), s3)"
    by (rule example_tick [OF s1(2-4), of 3 "?l (example_time 2 + process_lane_renew)" "example_time 2 + process_lane_renew"])
      (simp_all add: example_time_def process_lane_ttl_def us_second_def)
  have "ls_healthy (?l due)" "ls_run_key (?l due) = ''rk''" "ls_owner (?l due) = example_owner ''a''" for due
    by (simp_all add: example_lease_fields)
  note fields = this
  have run: "lease_run_fenced (file_renew (example_time 2)) example_phase (file_renew (example_time 3)) (?l 0) s
      (of_instant (example_time 2)) (of_instant (example_time 3)) = (Inr 7, ?l (example_time 3 + process_lane_renew), s3)"
    using s1(1) s3 fields(1) by (simp add: lease_run_fenced_def example_phase_def)
  have "\<exists>s1 s2 x y. file_holder s (ls_run_key (?l 0)) = Some (ls_owner (?l 0), x) \<and> example_time 2 < x
      \<and> example_phase s1 = (Inr 7, s2) \<and> file_holder s2 (ls_run_key (?l 0)) = Some (ls_owner (?l 0), y) \<and> example_time 3 < y"
    by (rule fenced_phase_owned [OF s(1) _ run]) (simp add: example_phase_def)
  with s(1) run show ?thesis unfolding fields by blast
qed

end
