(* ===== verification/Bf_Execution.thy ===== *)
theory Bf_Execution
  imports Bf_Lease Bf_Planner
begin

text \<open>
  The execution of a campaign's pending chunks (\<open>src/dpone/backfill/runtime_chunk_execution.py\<close>,
  \<open>parallel_execution.py\<close>, \<open>lease_heartbeat.py\<close>, \<open>execution_policy.py\<close>, \<open>runtime_results.py\<close>,
  \<open>src/dpone/runtime/_backfill_admission.py\<close>, \<open>_backfill_heartbeat_scope.py\<close>): lanes that take
  chunks from a queue, claim each under a lease, run it while a heartbeat thread renews the
  lease, and complete it if they still own it.

  A lane is a small-step program. A step is one access to what the threads share (the queue,
  the admission gate, the state store) together with the local work around it, so the
  interleavings of the lanes are those of the threads. What comes from outside a step (a new
  owner name, an expiry, a failing store call, the runner's result) is its \<open>lane_input\<close>.
  The state store is a parameter; \<open>Bf_Lanes_Proofs\<close> states its contract.
\<close>

section \<open>Selecting chunks\<close>

definition normalize_retry_policy :: "pyval \<Rightarrow> string res" where
  "normalize_retry_policy v =
     (let bad = Inl (ValueError ''backfill.retry_policy must be one of: non_committed, failed_only'') in
      case v of
        PNone \<Rightarrow> Inr ''non_committed''
      | PStr s \<Rightarrow>
          (let policy = py_lower (py_strip s) in
           if py_strip s = [] \<or> policy \<notin> {''non_committed'', ''failed_only''} then bad else Inr policy)
      | _ \<Rightarrow> bad)"

definition select_pending_chunks :: "bf_chunk list \<Rightarrow> ledger \<Rightarrow> pyval \<Rightarrow> bf_chunk list res" where
  "select_pending_chunks chunks l retry_policy =
     bind_res (normalize_retry_policy retry_policy) (\<lambda>policy.
       if policy = ''failed_only''
       then Inr (filter (\<lambda>c. bc_index c \<in> set (map cr_index (filter (\<lambda>r. cr_status r = status_failed) (bl_chunks l)))) chunks)
       else Inr (filter (\<lambda>c. bc_index c \<notin> committed_indexes l) chunks))"

definition combined_predicate :: "pyval \<Rightarrow> string \<Rightarrow> string" where
  "combined_predicate user_predicate chunk_predicate =
     (let user = py_strip (py_str (py_or user_predicate (PStr []))) in
      if user = [] then chunk_predicate else ''('' @ user @ '') AND ('' @ chunk_predicate @ '')'')"

definition row_count_verification :: "ledger \<Rightarrow> pyval" where
  "row_count_verification l =
     (let mismatches = map (\<lambda>r. PDict [(''index'', PInt (cr_index r)), (''start'', PStr (cr_start r)),
            (''end'', PStr (cr_end r)), (''rows_extracted'', PInt (cr_rows_extracted r)),
            (''rows_loaded'', PInt (cr_rows_loaded r))])
          (filter (\<lambda>r. cr_status r = status_success \<and> cr_rows_extracted r \<noteq> cr_rows_loaded r) (bl_chunks l)) in
      PDict [(''check'', PStr ''row_count_parity''),
             (''status'', PStr (if mismatches = [] then ''passed'' else ''warning'')),
             (''mismatched_chunks'', PList mismatches)])"

section \<open>Evidence of a chunk\<close>

definition evidence_keys :: "string list" where
  "evidence_keys = [''mssql_staging_evidence'', ''mssql_mutation_fence_evidence'',
     ''mssql_target_fence_evidence'', ''mssql_receipt_recovery'']"

fun is_public_scalar :: "pyval \<Rightarrow> bool" where
  "is_public_scalar PNone = True"
| "is_public_scalar (PBool b) = True"
| "is_public_scalar (PInt i) = True"
| "is_public_scalar (PStr s) = True"
| "is_public_scalar v = False"

definition is_public_json_mapping :: "(string \<times> pyval) list \<Rightarrow> bool" where
  "is_public_json_mapping d = list_all (\<lambda>(k, v). is_public_scalar v) d"

definition project_evidence :: "(string \<times> pyval) list \<Rightarrow> (string, pyval) dict \<Rightarrow> string \<Rightarrow> (string, pyval) dict" where
  "project_evidence metrics projected key =
     (case py_get metrics key of
        PDict e \<Rightarrow> if is_public_json_mapping e then dict_set projected key (PDict e) else projected
      | _ \<Rightarrow> projected)"

definition project_chunk_execution_evidence :: "(string \<times> pyval) list \<Rightarrow> (string \<times> pyval) list" where
  "project_chunk_execution_evidence result =
     (case py_get result ''reconciliation_metrics'' of
        PDict metrics \<Rightarrow>
          (let projected = foldl (project_evidence metrics) [] evidence_keys in
           if py_get metrics ''mssql_transaction_replay_suppressed'' = PBool True
           then dict_set projected ''mssql_transaction_replay_suppressed'' (PBool True) else projected)
      | _ \<Rightarrow> [])"

section \<open>The state store and the admission gate\<close>

text \<open>\<open>str(exc)\<close>.\<close>

fun exn_text :: "py_exn \<Rightarrow> string" where
  "exn_text (ValueError s) = s"
| "exn_text (TypeError s) = s"
| "exn_text (KeyError s) = py_repr_str s"
| "exn_text (RuntimeError s) = s"
| "exn_text (OverflowError s) = s"
| "exn_text (AppError name s) = s"

text \<open>
  The operations of the state store that a lane uses, on the campaign of the run. The first
  argument of an operation that reads the clock is the present time.
\<close>

record 's chunk_ops =
  op_load :: "'s \<Rightarrow> ledger option res"
  op_acquire :: "instant \<Rightarrow> 's \<Rightarrow> int \<Rightarrow> string \<Rightarrow> instant \<Rightarrow> (bool \<times> 's) res"
  op_renew :: "instant \<Rightarrow> 's \<Rightarrow> int \<Rightarrow> string \<Rightarrow> instant \<Rightarrow> (bool \<times> 's) res"
  op_complete :: "instant \<Rightarrow> 's \<Rightarrow> chunk_record \<Rightarrow> string \<Rightarrow> (bool \<times> 's) res"

text \<open>
  A call may also fail on the way (\<open>Some persisted\<close>): the caller sees an exception, and
  whether the effect was made durable is not known to it.
\<close>

definition call_failed :: py_exn where
  "call_failed = AppError ''OSError'' ''state store call failed''"

definition call_store :: "bool option \<Rightarrow> 's \<Rightarrow> ('a \<times> 's) res \<Rightarrow> 'a res \<times> 's" where
  "call_store fault s r =
     (case r of
        Inl e \<Rightarrow> (Inl e, s)
      | Inr (a, s') \<Rightarrow> (case fault of None \<Rightarrow> (Inr a, s') | Some persisted \<Rightarrow> (Inl call_failed, if persisted then s' else s)))"

definition call_load :: "'s chunk_ops \<Rightarrow> bool option \<Rightarrow> 's \<Rightarrow> ledger option res" where
  "call_load ops fault s = (if fault = None then op_load ops s else Inl call_failed)"

record 's lane_pool =
  pl_store :: 's
  pl_closed :: bool
  pl_queue :: "bf_chunk list"

definition admission_close :: "'s lane_pool \<Rightarrow> 's lane_pool" where
  "admission_close p = p\<lparr>pl_closed := True\<rparr>"

definition admission_acquire :: "'s lane_pool \<Rightarrow> ('s \<Rightarrow> bool res \<times> 's) \<Rightarrow> bool option res \<times> 's lane_pool" where
  "admission_acquire p claim =
     (if pl_closed p then (Inr None, p)
      else case claim (pl_store p) of
          (Inl e, s) \<Rightarrow> (Inl e, p\<lparr>pl_store := s, pl_closed := True\<rparr>)
        | (Inr acquired, s) \<Rightarrow>
            (Inr (Some acquired), if acquired then p\<lparr>pl_store := s\<rparr> else p\<lparr>pl_store := s, pl_closed := True\<rparr>))"

section \<open>Lanes\<close>

record lane_input =
  in_uuid :: string
  in_expiry :: "instant res"
  in_fault :: "bool option"
  in_hook :: "py_exn option"
  in_runner :: "((string \<times> pyval) list) res"
  in_stop :: "py_exn option"
  in_report :: "py_exn option"

datatype lane_state =
    LaneIdle
  | LaneOpen
  | LaneTaken bf_chunk
  | LaneClaiming bf_chunk chunk_record
  | LaneRejected bf_chunk chunk_record
  | LaneLeased bf_chunk chunk_record string
  | LaneProving bf_chunk chunk_record string
  | LaneRunning bf_chunk chunk_record string
  | LaneRan bf_chunk chunk_record string "(string \<times> pyval) list"
  | LaneFailing bf_chunk chunk_record string py_exn
  | LaneReporting bf_chunk chunk_record string string
  | LaneFinishing bf_chunk chunk_record string
  | LaneLost bf_chunk
  | LaneRaised bf_chunk py_exn
  | LaneStopped
  | LaneDone
  | LaneCrashed py_exn

text \<open>
  \<open>ln_until\<close> is the last expiry the lane was granted; the code does not store it, it is what
  the properties talk about. \<open>ln_beating\<close>: the heartbeat thread runs; \<open>ln_healthy\<close>: its
  \<open>_failed\<close> event is not set.
\<close>

record lane =
  ln_state :: lane_state
  ln_errors :: "string list"
  ln_beating :: bool
  ln_healthy :: bool
  ln_until :: "instant option"

definition new_lane :: lane where
  "new_lane = \<lparr>ln_state = LaneIdle, ln_errors = [], ln_beating = False, ln_healthy = True, ln_until = None\<rparr>"

definition chunk_owner :: "string \<Rightarrow> string" where
  "chunk_owner uuid_hex = ''dpone-backfill-chunk:'' @ uuid_hex"

definition goes :: "lane \<Rightarrow> lane_state \<Rightarrow> lane" where
  "goes ln st = ln\<lparr>ln_state := st\<rparr>"

definition complains :: "lane \<Rightarrow> string \<Rightarrow> lane" where
  "complains ln e = ln\<lparr>ln_errors := ln_errors ln @ [e]\<rparr>"

definition chunk_text :: "bf_chunk \<Rightarrow> string" where
  "chunk_text c = ''chunk '' @ py_str_int (bc_index c)"

definition heartbeat_lost :: py_exn where
  "heartbeat_lost = AppError ''BackfillLeaseHeartbeatError'' ''DPONE_BACKFILL_CHUNK_LEASE_HEARTBEAT_LOST''"

definition lease_lost_text :: "bf_chunk \<Rightarrow> string" where
  "lease_lost_text c = ''DPONE_BACKFILL_CHUNK_LEASE_LOST: '' @ chunk_text c @ '' lease owner changed''"

text \<open>\<open>_run_lane\<close>: the loop around the chunks, and the start of \<open>_run_one\<close>.\<close>

definition lane_idle :: "'s lane_pool \<Rightarrow> lane \<Rightarrow> 's lane_pool \<times> lane" where
  "lane_idle p ln = (p, goes ln (if pl_closed p then LaneDone else LaneOpen))"

definition lane_open :: "'s lane_pool \<Rightarrow> lane \<Rightarrow> 's lane_pool \<times> lane" where
  "lane_open p ln =
     (case pl_queue p of [] \<Rightarrow> (p, goes ln LaneDone) | c # cs \<Rightarrow> (p\<lparr>pl_queue := cs\<rparr>, goes ln (LaneTaken c)))"

definition lane_taken :: "ledger \<Rightarrow> 's lane_pool \<Rightarrow> lane \<Rightarrow> bf_chunk \<Rightarrow> 's lane_pool \<times> lane" where
  "lane_taken l p ln c =
     (p, goes ln (if pl_closed p then LaneDone
        else case ledger_chunk l (bc_index c) of Inl e \<Rightarrow> LaneRaised c e | Inr r \<Rightarrow> LaneClaiming c r))"

text \<open>The claim: the gate's test and the store's transition happen under one lock.\<close>

definition acquisition_failed :: "bf_chunk \<Rightarrow> py_exn \<Rightarrow> string" where
  "acquisition_failed c e = chunk_text c @ '' lease acquisition failed: '' @ exn_text e"

definition lane_claim ::
  "'s chunk_ops \<Rightarrow> instant \<Rightarrow> lane_input \<Rightarrow> 's lane_pool \<Rightarrow> lane \<Rightarrow> bf_chunk \<Rightarrow> chunk_record \<Rightarrow> 's lane_pool \<times> lane" where
  "lane_claim ops now inp p ln c r =
     (let owner = chunk_owner (in_uuid inp) in
      case in_expiry inp of
        Inl e \<Rightarrow> (admission_close p, goes (complains ln (acquisition_failed c e)) LaneStopped)
      | Inr expiry \<Rightarrow>
          (case admission_acquire p (\<lambda>s. call_store (in_fault inp) s (op_acquire ops now s (bc_index c) owner expiry)) of
             (Inl e, p') \<Rightarrow> (admission_close p', goes (complains ln (acquisition_failed c e)) LaneStopped)
           | (Inr None, p') \<Rightarrow> (p', goes ln LaneStopped)
           | (Inr (Some True), p') \<Rightarrow>
               (p', (goes ln (LaneLeased c r owner))\<lparr>ln_until := Some expiry, ln_beating := False, ln_healthy := True\<rparr>)
           | (Inr (Some False), p') \<Rightarrow> (p', goes ln (LaneRejected c r))))"

definition lane_rejected ::
  "'s chunk_ops \<Rightarrow> ledger \<Rightarrow> lane_input \<Rightarrow> 's lane_pool \<Rightarrow> lane \<Rightarrow> bf_chunk \<Rightarrow> 's lane_pool \<times> lane" where
  "lane_rejected ops l inp p ln c =
     (case bind_res (call_load ops (in_fault inp) (pl_store p)) (\<lambda>loaded.
            let current = (case loaded of None \<Rightarrow> l | Some x \<Rightarrow> x) in
            bind_res (ledger_chunk current (bc_index c)) (\<lambda>record. Inr (current, record))) of
        Inl e \<Rightarrow> (admission_close p, goes (complains ln (acquisition_failed c e)) LaneStopped)
      | Inr (current, record) \<Rightarrow>
          (p, goes (if cancel_requested current then complains ln (chunk_text c @ '' cancelled before start'')
                    else if cr_status record \<noteq> status_success then complains ln (chunk_text c @ '' lease is not available'')
                    else ln) LaneStopped))"

definition lane_leased ::
  "'s chunk_ops \<Rightarrow> ledger \<Rightarrow> lane_input \<Rightarrow> 's lane_pool \<Rightarrow> lane \<Rightarrow> bf_chunk \<Rightarrow> chunk_record \<Rightarrow> string \<Rightarrow> 's lane_pool \<times> lane" where
  "lane_leased ops l inp p ln c r owner =
     (p, goes ln
       (case call_load ops (in_fault inp) (pl_store p) of
          Inl e \<Rightarrow> LaneFailing c r owner e
        | Inr loaded \<Rightarrow>
            (case ledger_chunk (case loaded of None \<Rightarrow> l | Some x \<Rightarrow> x) (bc_index c) of
               Inl e \<Rightarrow> LaneFailing c r owner e
             | Inr r' \<Rightarrow> (case in_hook inp of Some e \<Rightarrow> LaneFailing c r' owner e | None \<Rightarrow> LaneProving c r' owner))))"

text \<open>
  \<open>_renew_once\<close> of \<open>renew_and_report\<close>: every exception counts as a refused renewal, that of
  the progress report and of the coordinator's tick after a granted one too.
\<close>

definition renew_once ::
  "'s chunk_ops \<Rightarrow> instant \<Rightarrow> lane_input \<Rightarrow> 's lane_pool \<Rightarrow> lane \<Rightarrow> bf_chunk \<Rightarrow> string \<Rightarrow> bool \<times> 's lane_pool \<times> lane" where
  "renew_once ops now inp p ln c owner =
     (case in_expiry inp of
        Inl e \<Rightarrow> (False, p, ln)
      | Inr expiry \<Rightarrow>
          (case call_store (in_fault inp) (pl_store p) (op_renew ops now (pl_store p) (bc_index c) owner expiry) of
             (Inl e, s) \<Rightarrow> (False, p\<lparr>pl_store := s\<rparr>, ln)
           | (Inr renewed, s) \<Rightarrow>
               if renewed then (in_report inp = None, p\<lparr>pl_store := s\<rparr>, ln\<lparr>ln_until := Some expiry\<rparr>)
               else (False, p\<lparr>pl_store := s\<rparr>, ln)))"

definition lane_proving ::
  "'s chunk_ops \<Rightarrow> instant \<Rightarrow> lane_input \<Rightarrow> 's lane_pool \<Rightarrow> lane \<Rightarrow> bf_chunk \<Rightarrow> chunk_record \<Rightarrow> string \<Rightarrow> 's lane_pool \<times> lane" where
  "lane_proving ops now inp p ln c r owner =
     (case renew_once ops now inp p ln c owner of (renewed, p', ln') \<Rightarrow>
        if \<not> renewed then (p', (goes ln' (LaneFailing c r owner heartbeat_lost))\<lparr>ln_healthy := False\<rparr>)
        else (case in_hook inp of
            Some e \<Rightarrow> (p', goes ln' (LaneFailing c r owner e))
          | None \<Rightarrow> (p', (goes ln' (LaneRunning c r owner))\<lparr>ln_beating := True\<rparr>)))"

text \<open>A round of the heartbeat thread; after a refused renewal it returns.\<close>

definition heartbeat_round ::
  "'s chunk_ops \<Rightarrow> instant \<Rightarrow> lane_input \<Rightarrow> 's lane_pool \<Rightarrow> lane \<Rightarrow> bf_chunk \<Rightarrow> string \<Rightarrow> 's lane_pool \<times> lane" where
  "heartbeat_round ops now inp p ln c owner =
     (case renew_once ops now inp p ln c owner of (renewed, p', ln') \<Rightarrow>
        (p', if renewed then ln' else ln'\<lparr>ln_beating := False, ln_healthy := False\<rparr>))"

text \<open>\<open>_heartbeat_cleanup\<close>: the runner's outcome and a failure to stop the heartbeat.\<close>

definition heartbeat_cleanup :: "'a res \<Rightarrow> py_exn option \<Rightarrow> 'a res" where
  "heartbeat_cleanup outcome stop =
     (case stop of
        None \<Rightarrow> outcome
      | Some e \<Rightarrow> (case outcome of
            Inr a \<Rightarrow> Inl e
          | Inl primary \<Rightarrow> Inl (RuntimeError (exn_text primary @ ''; heartbeat cleanup failed: '' @ exn_text e))))"

definition lane_running :: "lane_input \<Rightarrow> 's lane_pool \<Rightarrow> lane \<Rightarrow> bf_chunk \<Rightarrow> chunk_record \<Rightarrow> string \<Rightarrow> 's lane_pool \<times> lane" where
  "lane_running inp p ln c r owner =
     (case heartbeat_cleanup (in_runner inp) (in_stop inp) of
        Inr result \<Rightarrow> (p, goes ln (LaneRan c r owner result))
      | Inl e \<Rightarrow> (admission_close p, goes ln (LaneFailing c r owner e)))"

text \<open>\<open>_complete_success\<close> up to the store call.\<close>

definition success_record :: "instant \<Rightarrow> chunk_record \<Rightarrow> (string \<times> pyval) list \<Rightarrow> chunk_record res" where
  "success_record now r result =
     bind_res (get_int0 result ''extracted_rows'') (\<lambda>extracted.
     bind_res (get_int0 result ''loaded_rows'') (\<lambda>loaded.
       Inr (r\<lparr>cr_status := status_success, cr_error := PNone, cr_finished_at := PStr (utc_text now),
              cr_rows_extracted := extracted, cr_rows_loaded := loaded, cr_run_id := py_get result ''run_id'',
              cr_load_id := py_get result ''load_id'', cr_evidence := project_chunk_execution_evidence result\<rparr>)))"

definition lane_ran ::
  "instant \<Rightarrow> lane_input \<Rightarrow> 's lane_pool \<Rightarrow> lane \<Rightarrow> bf_chunk \<Rightarrow> chunk_record \<Rightarrow> string \<Rightarrow> (string \<times> pyval) list
    \<Rightarrow> 's lane_pool \<times> lane" where
  "lane_ran now inp p ln c r owner result =
     (p, goes ln
       (if \<not> ln_healthy ln then LaneFailing c r owner heartbeat_lost
        else case in_hook inp of
            Some e \<Rightarrow> LaneFailing c r owner e
          | None \<Rightarrow> (case success_record now r result of Inl e \<Rightarrow> LaneRaised c e | Inr r' \<Rightarrow> LaneFinishing c r' owner)))"

definition lane_finishing ::
  "'s chunk_ops \<Rightarrow> instant \<Rightarrow> lane_input \<Rightarrow> 's lane_pool \<Rightarrow> lane \<Rightarrow> bf_chunk \<Rightarrow> chunk_record \<Rightarrow> string \<Rightarrow> 's lane_pool \<times> lane" where
  "lane_finishing ops now inp p ln c r owner =
     (case call_store (in_fault inp) (pl_store p) (op_complete ops now (pl_store p) r owner) of
        (Inl e, s) \<Rightarrow> (p\<lparr>pl_store := s\<rparr>, goes ln (LaneRaised c e))
      | (Inr completed, s) \<Rightarrow>
          (p\<lparr>pl_store := s\<rparr>, goes ln
            (if \<not> completed then LaneLost c
             else case in_report inp of Some e \<Rightarrow> LaneRaised c e | None \<Rightarrow> LaneIdle)))"

text \<open>The \<open>except\<close> branch after the lease was acquired.\<close>

definition failure_text :: "bf_chunk \<Rightarrow> py_exn \<Rightarrow> string" where
  "failure_text c e = chunk_text c @ '' ['' @ bc_start c @ ''..'' @ bc_end c @ '']: '' @ exn_text e"

definition lane_failing :: "'s lane_pool \<Rightarrow> lane \<Rightarrow> bf_chunk \<Rightarrow> chunk_record \<Rightarrow> string \<Rightarrow> py_exn \<Rightarrow> 's lane_pool \<times> lane" where
  "lane_failing p ln c r owner e =
     (admission_close p,
      goes (complains ln (failure_text c e))
        (LaneReporting c (r\<lparr>cr_status := status_failed, cr_error := PStr (exn_text e)\<rparr>) owner (failure_text c e)))"

definition report_failed :: "string \<Rightarrow> py_exn \<Rightarrow> py_exn" where
  "report_failed message e = RuntimeError (message @ ''; failure reporting failed: '' @ exn_text e)"

definition lane_reporting ::
  "'s chunk_ops \<Rightarrow> instant \<Rightarrow> lane_input \<Rightarrow> 's lane_pool \<Rightarrow> lane \<Rightarrow> bf_chunk \<Rightarrow> chunk_record \<Rightarrow> string \<Rightarrow> string
    \<Rightarrow> 's lane_pool \<times> lane" where
  "lane_reporting ops now inp p ln c r owner message =
     (case call_store (in_fault inp) (pl_store p) (op_complete ops now (pl_store p) r owner) of
        (Inl e, s) \<Rightarrow> (p\<lparr>pl_store := s\<rparr>, goes ln (LaneRaised c (report_failed message e)))
      | (Inr completed, s) \<Rightarrow>
          (p\<lparr>pl_store := s\<rparr>,
           if \<not> completed then goes (complains ln (lease_lost_text c)) LaneStopped
           else goes ln (case in_report inp of Some e \<Rightarrow> LaneRaised c (report_failed message e) | None \<Rightarrow> LaneStopped)))"

fun lane_move ::
  "'s chunk_ops \<Rightarrow> ledger \<Rightarrow> instant \<Rightarrow> lane_input \<Rightarrow> 's lane_pool \<Rightarrow> lane \<Rightarrow> lane_state \<Rightarrow> 's lane_pool \<times> lane" where
  "lane_move ops l now inp p ln LaneIdle = lane_idle p ln"
| "lane_move ops l now inp p ln LaneOpen = lane_open p ln"
| "lane_move ops l now inp p ln (LaneTaken c) = lane_taken l p ln c"
| "lane_move ops l now inp p ln (LaneClaiming c r) = lane_claim ops now inp p ln c r"
| "lane_move ops l now inp p ln (LaneRejected c r) = lane_rejected ops l inp p ln c"
| "lane_move ops l now inp p ln (LaneLeased c r owner) = lane_leased ops l inp p ln c r owner"
| "lane_move ops l now inp p ln (LaneProving c r owner) = lane_proving ops now inp p ln c r owner"
| "lane_move ops l now inp p ln (LaneRunning c r owner) = lane_running inp p ln c r owner"
| "lane_move ops l now inp p ln (LaneRan c r owner result) = lane_ran now inp p ln c r owner result"
| "lane_move ops l now inp p ln (LaneFailing c r owner e) = lane_failing p ln c r owner e"
| "lane_move ops l now inp p ln (LaneReporting c r owner message) = lane_reporting ops now inp p ln c r owner message"
| "lane_move ops l now inp p ln (LaneFinishing c r owner) = lane_finishing ops now inp p ln c r owner"
| "lane_move ops l now inp p ln (LaneLost c) =
     (admission_close p, goes (complains ln (lease_lost_text c)) LaneStopped)"
| "lane_move ops l now inp p ln (LaneRaised c e) = (admission_close p, goes ln (LaneCrashed e))"
| "lane_move ops l now inp p ln LaneStopped = (admission_close p, goes ln LaneDone)"
| "lane_move ops l now inp p ln LaneDone = (p, ln)"
| "lane_move ops l now inp p ln (LaneCrashed e) = (p, ln)"

fun lane_over :: "lane_state \<Rightarrow> bool" where
  "lane_over LaneDone = True"
| "lane_over (LaneCrashed e) = True"
| "lane_over st = False"

text \<open>The chunk a lane has a lease of, and the owner name it uses.\<close>

fun lane_work :: "lane_state \<Rightarrow> (bf_chunk \<times> string) option" where
  "lane_work (LaneLeased c r owner) = Some (c, owner)"
| "lane_work (LaneProving c r owner) = Some (c, owner)"
| "lane_work (LaneRunning c r owner) = Some (c, owner)"
| "lane_work (LaneRan c r owner result) = Some (c, owner)"
| "lane_work (LaneFailing c r owner e) = Some (c, owner)"
| "lane_work (LaneReporting c r owner message) = Some (c, owner)"
| "lane_work (LaneFinishing c r owner) = Some (c, owner)"
| "lane_work st = None"

section \<open>The pool\<close>

text \<open>
  \<open>_run_parallel_chunk_lanes\<close>: the coordinator ticks the campaign lease until its first
  failure, which closes the gate; the lanes' errors follow the coordinator's. A sequential
  run (one worker, or one chunk) is the same with one lane.
\<close>

record 's exec_world =
  ew_now :: instant
  ew_pool :: "'s lane_pool"
  ew_lanes :: "lane list"
  ew_errors :: "string list"
  ew_lost :: bool

definition lane_count :: "int \<Rightarrow> bf_chunk list \<Rightarrow> nat" where
  "lane_count workers pending =
     (if workers > 1 \<and> length pending > 1 then nat (min workers (int (length pending))) else 1)"

definition exec_start :: "instant \<Rightarrow> 's \<Rightarrow> int \<Rightarrow> bf_chunk list \<Rightarrow> 's exec_world" where
  "exec_start now s workers pending =
     \<lparr>ew_now = now, ew_pool = \<lparr>pl_store = s, pl_closed = False, pl_queue = pending\<rparr>,
      ew_lanes = replicate (lane_count workers pending) new_lane, ew_errors = [], ew_lost = False\<rparr>"

definition coordinator_failed :: "'s exec_world \<Rightarrow> 's exec_world" where
  "coordinator_failed w =
     w\<lparr>ew_pool := admission_close (ew_pool w),
       ew_errors := ew_errors w @ [''DPONE_BACKFILL_PROCESS_COORDINATOR_LOST''], ew_lost := True\<rparr>"

definition exec_errors :: "'s exec_world \<Rightarrow> string list" where
  "exec_errors w = ew_errors w @ concat (map ln_errors (ew_lanes w))"

definition lane_owners :: "lane list \<Rightarrow> string set" where
  "lane_owners lns = {owner. \<exists>ln\<in>set lns. \<exists>c. lane_work (ln_state ln) = Some (c, owner)}"

definition input_ok :: "string set \<Rightarrow> lane_input \<Rightarrow> bool" where
  "input_ok owners inp = (chunk_owner (in_uuid inp) \<notin> owners
     \<and> (case in_expiry inp of Inr e \<Rightarrow> instant_valid e | Inl _ \<Rightarrow> True))"

datatype exec_label = MoveTime | MoveOthers | MoveLane nat | MoveBeat nat | MoveCoordinator

definition set_lane :: "nat \<Rightarrow> 's exec_world \<Rightarrow> 's lane_pool \<times> lane \<Rightarrow> 's exec_world" where
  "set_lane i w x = w\<lparr>ew_pool := fst x, ew_lanes := (ew_lanes w)[i := snd x]\<rparr>"

text \<open>
  A step of the whole: the time advances, somebody else uses the store (\<open>env owners now\<close>,
  any operation in a name that no lane works under), a lane or a heartbeat thread moves, or
  the coordinator loses the campaign lease. All read one clock.
\<close>

inductive exec_step ::
  "'s chunk_ops \<Rightarrow> (string set \<Rightarrow> instant \<Rightarrow> 's \<Rightarrow> 's \<Rightarrow> bool) \<Rightarrow> ledger
    \<Rightarrow> 's exec_world \<Rightarrow> exec_label \<Rightarrow> 's exec_world \<Rightarrow> bool"
  for ops env l where
  exec_time: "ew_now w \<le> later \<Longrightarrow> exec_step ops env l w MoveTime (w\<lparr>ew_now := later\<rparr>)"
| exec_others: "env (lane_owners (ew_lanes w)) (ew_now w) (pl_store (ew_pool w)) s
    \<Longrightarrow> exec_step ops env l w MoveOthers (w\<lparr>ew_pool := (ew_pool w)\<lparr>pl_store := s\<rparr>\<rparr>)"
| exec_lane: "i < length (ew_lanes w) \<Longrightarrow> ln = ew_lanes w ! i \<Longrightarrow> \<not> lane_over (ln_state ln)
    \<Longrightarrow> input_ok (lane_owners (ew_lanes w)) inp
    \<Longrightarrow> exec_step ops env l w (MoveLane i)
         (set_lane i w (lane_move ops l (ew_now w) inp (ew_pool w) ln (ln_state ln)))"
| exec_beat: "i < length (ew_lanes w) \<Longrightarrow> ln = ew_lanes w ! i \<Longrightarrow> ln_beating ln
    \<Longrightarrow> lane_work (ln_state ln) = Some (c, owner) \<Longrightarrow> input_ok {} inp
    \<Longrightarrow> exec_step ops env l w (MoveBeat i)
         (set_lane i w (heartbeat_round ops (ew_now w) inp (ew_pool w) ln c owner))"
| exec_lost: "\<not> ew_lost w \<Longrightarrow> exec_step ops env l w MoveCoordinator (coordinator_failed w)"

inductive exec_run ::
  "'s chunk_ops \<Rightarrow> (string set \<Rightarrow> instant \<Rightarrow> 's \<Rightarrow> 's \<Rightarrow> bool) \<Rightarrow> ledger
    \<Rightarrow> 's exec_world \<Rightarrow> exec_label list \<Rightarrow> 's exec_world \<Rightarrow> bool"
  for ops env l where
  run_none: "exec_run ops env l w [] w"
| run_step: "exec_run ops env l w a w' \<Longrightarrow> exec_step ops env l w' b w'' \<Longrightarrow> exec_run ops env l w (a @ [b]) w''"

section \<open>Creating the ledger and the end of a campaign\<close>

definition pending_record :: "bf_chunk \<Rightarrow> chunk_record" where
  "pending_record c =
     \<lparr>cr_index = bc_index c, cr_start = bc_start c, cr_end = bc_end c, cr_key = bc_key c,
      cr_status = status_pending, cr_attempts = 0, cr_rows_extracted = 0, cr_rows_loaded = 0,
      cr_run_id = PNone, cr_load_id = PNone, cr_error = PNone, cr_lease_owner = PNone,
      cr_lease_expires_at = PNone, cr_started_at = PNone, cr_finished_at = PNone, cr_updated_at = PNone,
      cr_evidence = []\<rparr>"

definition new_campaign_ledger ::
  "string \<Rightarrow> string \<Rightarrow> string \<Rightarrow> bf_chunk list \<Rightarrow> (string \<times> pyval) list \<Rightarrow> string \<Rightarrow> string
    \<Rightarrow> (string \<times> pyval) list option \<Rightarrow> ledger" where
  "new_campaign_ledger k dataset inner_mode chunks config plan_hash config_hash contract =
     \<lparr>bl_run_key = k, bl_dataset = dataset, bl_inner_mode = inner_mode, bl_chunk_config = config,
      bl_plan_hash = PStr plan_hash, bl_config_hash = PStr config_hash, bl_status = ''active'',
      bl_cancel_reason = PNone, bl_cancel_requested_by = PNone, bl_lock_owner = PNone, bl_lock_expires_at = PNone,
      bl_chunks = map pending_record chunks, bl_created_at = PNone, bl_updated_at = PNone,
      bl_xmin_handoff = None, bl_publication = None, bl_column_contract = contract,
      bl_kind = ledger_kind, bl_schema_version = ledger_schema_version\<rparr>"

definition load_or_create_backfill_ledger ::
  "fstore \<Rightarrow> instant \<Rightarrow> string \<Rightarrow> string \<Rightarrow> string \<Rightarrow> bf_chunk list \<Rightarrow> (string \<times> pyval) list \<Rightarrow> string \<Rightarrow> string
    \<Rightarrow> (string \<times> pyval) list option \<Rightarrow> (ledger \<times> fstore) res" where
  "load_or_create_backfill_ledger fs stamp k dataset inner_mode chunks config plan_hash config_hash contract =
     bind_res (fs_load_verified fs k (Some plan_hash) (Some config_hash)) (\<lambda>existing.
       let fresh = new_campaign_ledger k dataset inner_mode chunks config plan_hash config_hash contract in
       case existing of
         Some l \<Rightarrow> if length (bl_chunks l) = length chunks then Inr (l, fs)
                   else Inr (stamped stamp fresh, fs_save fs stamp fresh)
       | None \<Rightarrow> Inr (stamped stamp fresh, fs_save fs stamp fresh))"

definition requires_post_publication_normalization :: "ledger \<Rightarrow> bool" where
  "requires_post_publication_normalization l = published l"

definition campaign_completed :: "ledger \<Rightarrow> bf_chunk list \<Rightarrow> string list \<Rightarrow> bool" where
  "campaign_completed l chunks errors =
     (errors = [] \<and> \<not> cancel_requested l \<and> card (committed_indexes l) = length chunks)"

definition result_status :: "ledger \<Rightarrow> bf_chunk list \<Rightarrow> string list \<Rightarrow> string \<times> string" where
  "result_status l chunks errors =
     (if cancel_requested l then (''cancelled'', ''cancelled'')
      else
        (let complete = (dict_get (ledger_counts l) status_success = Some (int (length chunks))) in
         (if complete \<and> errors = [] then ''success'' else ''error'', if errors \<noteq> [] then ''error'' else ''success'')))"

end
