(* ===== verification/Bf_Lanes_Proofs.thy ===== *)
theory Bf_Lanes_Proofs
  imports Bf_Execution
begin

text \<open>
  What the chunk lanes promise over any store that keeps the contract \<open>chunk_store\<close>: a lane
  whose lease has not ended holds the chunk in the store, chunks of open executions are not
  lost, a closed gate admits nothing, and an execution ends after a bounded number of moves.
\<close>

section \<open>Fields\<close>

lemma lane_fields [simp]:
  "ln_state (goes ln st) = st" "ln_errors (goes ln st) = ln_errors ln" "ln_beating (goes ln st) = ln_beating ln"
  "ln_healthy (goes ln st) = ln_healthy ln" "ln_until (goes ln st) = ln_until ln"
  "ln_state (complains ln e) = ln_state ln" "ln_beating (complains ln e) = ln_beating ln"
  "ln_healthy (complains ln e) = ln_healthy ln" "ln_until (complains ln e) = ln_until ln"
  by (simp_all add: goes_def complains_def)

lemma close_fields [simp]:
  "pl_store (admission_close p) = pl_store p" "pl_queue (admission_close p) = pl_queue p" "pl_closed (admission_close p)"
  by (simp_all add: admission_close_def)

lemma set_lane_fields [simp]:
  "ew_now (set_lane i w x) = ew_now w" "ew_pool (set_lane i w x) = fst x"
  "ew_lanes (set_lane i w x) = (ew_lanes w)[i := snd x]" "ew_lost (set_lane i w x) = ew_lost w"
  by (simp_all add: set_lane_def)

lemma coordinator_fields [simp]:
  "ew_now (coordinator_failed w) = ew_now w" "ew_pool (coordinator_failed w) = admission_close (ew_pool w)"
  "ew_lanes (coordinator_failed w) = ew_lanes w"
  by (simp_all add: coordinator_failed_def)

lemma start_fields [simp]:
  "pl_store (ew_pool (exec_start now s workers pending)) = s" "\<not> pl_closed (ew_pool (exec_start now s workers pending))"
  "pl_queue (ew_pool (exec_start now s workers pending)) = pending"
  "ew_lanes (exec_start now s workers pending) = replicate (lane_count workers pending) new_lane"
  "ew_now (exec_start now s workers pending) = now"
  by (simp_all add: exec_start_def)

lemma new_lane_idle [simp]: "ln_state new_lane = LaneIdle"
  by (simp add: new_lane_def)

lemma lane_count_pos [simp]: "0 < lane_count workers pending"
  by (cases pending) (simp_all add: lane_count_def)

text \<open>What a store call leaves behind: nothing, or the effect of the operation.\<close>

lemma call_store_cases:
  assumes "call_store fault s r = (x, s')"
  obtains "s' = s" "\<And>a. x = Inr a \<Longrightarrow> False"
  | a s1 where "r = Inr (a, s1)" "s' = s1" "x = Inr a \<or> (\<exists>e. x = Inl e)"
  using assms by (auto simp: call_store_def split: sum.splits option.splits if_splits prod.splits)

lemmas lane_step_defs = lane_idle_def lane_open_def lane_taken_def lane_claim_def lane_rejected_def lane_leased_def
  lane_proving_def lane_running_def lane_ran_def lane_failing_def lane_reporting_def lane_finishing_def
  admission_acquire_def Let_def

section \<open>The gate\<close>

lemma renew_once_fields:
  "renew_once ops now inp p ln c owner = (b, p', ln') \<Longrightarrow> pl_closed p' = pl_closed p \<and> pl_queue p' = pl_queue p
    \<and> ln_state ln' = ln_state ln \<and> ln_errors ln' = ln_errors ln \<and> ln_beating ln' = ln_beating ln"
  by (auto simp: renew_once_def split: sum.splits prod.splits if_splits)

lemma heartbeat_round_fields:
  "heartbeat_round ops now inp p ln c owner = (p', ln') \<Longrightarrow> pl_closed p' = pl_closed p \<and> pl_queue p' = pl_queue p
    \<and> ln_state ln' = ln_state ln"
  by (auto simp: heartbeat_round_def split: prod.splits if_splits dest: renew_once_fields)

text \<open>A closed gate stays closed, and no lane gets a lease that it does not have.\<close>

lemma lane_move_closed:
  assumes "lane_move ops l now inp p ln (ln_state ln) = (p', ln')" "pl_closed p"
  shows "pl_closed p' \<and> (lane_work (ln_state ln') = None \<or> lane_work (ln_state ln') = lane_work (ln_state ln))"
  using assms
  by (cases "ln_state ln") (auto simp: lane_step_defs split: sum.splits prod.splits if_splits list.splits option.splits
      dest: renew_once_fields)

definition leases_within :: "lane list \<Rightarrow> lane list \<Rightarrow> bool" where
  "leases_within lns' lns = (length lns' = length lns
     \<and> (\<forall>i<length lns. lane_work (ln_state (lns' ! i)) = None
          \<or> lane_work (ln_state (lns' ! i)) = lane_work (ln_state (lns ! i))))"

lemma leases_within_refl: "leases_within lns lns"
  by (simp add: leases_within_def)

lemma leases_within_trans: "leases_within c b \<Longrightarrow> leases_within b a \<Longrightarrow> leases_within c a"
  by (auto simp: leases_within_def) metis

lemma leases_within_update:
  "i < length lns \<Longrightarrow> lane_work (ln_state ln') = None \<or> lane_work (ln_state ln') = lane_work (ln_state (lns ! i))
    \<Longrightarrow> leases_within (lns[i := ln']) lns"
  by (auto simp: leases_within_def nth_list_update)

lemma exec_step_closed:
  assumes "exec_step ops env l w b w'" "pl_closed (ew_pool w)"
  shows "pl_closed (ew_pool w') \<and> leases_within (ew_lanes w') (ew_lanes w)"
  using assms
proof (cases rule: exec_step.cases)
  case (exec_lane i ln inp)
  obtain p' ln' where m: "lane_move ops l (ew_now w) inp (ew_pool w) ln (ln_state ln) = (p', ln')" by fastforce
  from lane_move_closed [OF m assms(2)] exec_lane m show ?thesis
    by (auto intro: leases_within_update)
next
  case (exec_beat i ln c owner inp)
  obtain p' ln' where m: "heartbeat_round ops (ew_now w) inp (ew_pool w) ln c owner = (p', ln')" by fastforce
  from heartbeat_round_fields [OF m] exec_beat m assms(2) show ?thesis
    by (auto intro: leases_within_update)
qed (auto simp: leases_within_refl)

lemma exec_run_closed:
  "exec_run ops env l w bs' w' \<Longrightarrow> pl_closed (ew_pool w) \<Longrightarrow> pl_closed (ew_pool w') \<and> leases_within (ew_lanes w') (ew_lanes w)"
proof (induction rule: exec_run.induct)
  case (run_step w a w' b w'')
  with exec_step_closed [OF run_step.hyps(2)] show ?case by (blast intro: leases_within_trans)
qed (simp add: leases_within_refl)

section \<open>Termination\<close>

text \<open>The moves a lane still has at most, and those of all lanes with the chunks in the queue.\<close>

fun lane_rank :: "lane_state \<Rightarrow> nat" where
  "lane_rank (LaneTaken c) = 9"
| "lane_rank (LaneClaiming c r) = 8"
| "lane_rank (LaneLeased c r owner) = 7"
| "lane_rank (LaneProving c r owner) = 6"
| "lane_rank (LaneRunning c r owner) = 5"
| "lane_rank (LaneRan c r owner result) = 4"
| "lane_rank (LaneFinishing c r owner) = 3"
| "lane_rank (LaneFailing c r owner e) = 3"
| "lane_rank (LaneReporting c r owner message) = 2"
| "lane_rank (LaneRejected c r) = 2"
| "lane_rank (LaneLost c) = 2"
| "lane_rank LaneIdle = 2"
| "lane_rank LaneOpen = 1"
| "lane_rank LaneStopped = 1"
| "lane_rank (LaneRaised c e) = 1"
| "lane_rank LaneDone = 0"
| "lane_rank (LaneCrashed e) = 0"

definition exec_measure :: "'s exec_world \<Rightarrow> nat" where
  "exec_measure w = 9 * length (pl_queue (ew_pool w)) + sum_list (map (lane_rank \<circ> ln_state) (ew_lanes w))"

lemma lane_rank_0: "lane_rank st = 0 \<longleftrightarrow> lane_over st"
  by (cases st) simp_all

lemma lane_move_rank:
  assumes "lane_move ops l now inp p ln (ln_state ln) = (p', ln')" "\<not> lane_over (ln_state ln)"
  shows "9 * length (pl_queue p') + lane_rank (ln_state ln') < 9 * length (pl_queue p) + lane_rank (ln_state ln)"
  using assms
  by (cases "ln_state ln") (auto simp: lane_step_defs split: sum.splits prod.splits if_splits list.splits option.splits
      dest: renew_once_fields)

lemma sum_list_update_nat:
  "i < length xs \<Longrightarrow> sum_list (map f (xs[i := y])) + f (xs ! i) = sum_list (map f xs) + (f y :: nat)"
  using elem_le_sum_list [of i "map f xs"] by (simp add: map_update sum_list_update)

fun lane_label :: "exec_label \<Rightarrow> bool" where
  "lane_label (MoveLane i) = True"
| "lane_label b = False"

lemma exec_step_measure:
  assumes "exec_step ops env l w b w'"
  shows "exec_measure w' + (if lane_label b then 1 else 0) \<le> exec_measure w"
  using assms
proof (cases rule: exec_step.cases)
  case (exec_lane i ln inp)
  obtain p' ln' where m: "lane_move ops l (ew_now w) inp (ew_pool w) ln (ln_state ln) = (p', ln')" by fastforce
  from lane_move_rank [OF m] exec_lane m sum_list_update_nat [of i "ew_lanes w" "lane_rank \<circ> ln_state" ln']
  show ?thesis by (simp add: exec_measure_def)
next
  case (exec_beat i ln c owner inp)
  obtain p' ln' where m: "heartbeat_round ops (ew_now w) inp (ew_pool w) ln c owner = (p', ln')" by fastforce
  from heartbeat_round_fields [OF m] exec_beat m sum_list_update_nat [of i "ew_lanes w" "lane_rank \<circ> ln_state" ln']
  show ?thesis by (simp add: exec_measure_def)
qed (auto simp: exec_measure_def)

lemma exec_run_measure:
  "exec_run ops env l w bs' w' \<Longrightarrow> exec_measure w' + length (filter lane_label bs') \<le> exec_measure w"
proof (induction rule: exec_run.induct)
  case (run_step w a w' b w'')
  with exec_step_measure [OF run_step.hyps(2)] show ?case by (simp split: if_splits)
qed simp

lemma exec_measure_start: "exec_measure (exec_start now s workers pending) = 9 * length pending + 2 * lane_count workers pending"
  by (simp add: exec_measure_def sum_list_replicate map_replicate_const)

lemma exec_measure_0: "exec_measure w = 0 \<Longrightarrow> ln \<in> set (ew_lanes w) \<Longrightarrow> lane_over (ln_state ln)"
  by (auto simp: exec_measure_def simp flip: lane_rank_0)

section \<open>Errors close the gate\<close>

text \<open>The states that a lane enters behind a closed gate only.\<close>

fun behind_gate :: "lane_state \<Rightarrow> bool" where
  "behind_gate (LaneRejected c r) = True"
| "behind_gate (LaneReporting c r owner m) = True"
| "behind_gate LaneStopped = True"
| "behind_gate (LaneCrashed e) = True"
| "behind_gate st = False"

lemma lane_move_open:
  assumes "lane_move ops l now inp p ln (ln_state ln) = (p', ln')"
    "\<not> pl_closed p'" "\<not> behind_gate (ln_state ln)" "ln_state ln = LaneDone \<Longrightarrow> pl_queue p = []"
  shows "\<not> behind_gate (ln_state ln') \<and> (ln_state ln' = LaneDone \<longrightarrow> pl_queue p' = [])
    \<and> (pl_queue p = [] \<longrightarrow> pl_queue p' = []) \<and> \<not> pl_closed p \<and> ln_errors ln' = ln_errors ln"
  using assms
  by (cases "ln_state ln") (auto simp: lane_step_defs split: sum.splits prod.splits if_splits list.splits option.splits
      dest: renew_once_fields)

definition gate_quiet :: "'s exec_world \<Rightarrow> bool" where
  "gate_quiet w = (pl_closed (ew_pool w) \<or> ew_errors w = [] \<and> (\<forall>ln\<in>set (ew_lanes w). ln_errors ln = []
     \<and> \<not> behind_gate (ln_state ln) \<and> (ln_state ln = LaneDone \<longrightarrow> pl_queue (ew_pool w) = [])))"

lemma heartbeat_round_errors: "heartbeat_round ops now inp p ln c owner = (p', ln') \<Longrightarrow> ln_errors ln' = ln_errors ln"
  by (auto simp: heartbeat_round_def split: prod.splits if_splits dest: renew_once_fields)

lemma exec_step_quiet:
  assumes "exec_step ops env l w b w'" "gate_quiet w"
  shows "gate_quiet w'"
  using assms(1)
proof (cases rule: exec_step.cases)
  case (exec_lane i ln inp)
  obtain p' ln' where m: "lane_move ops l (ew_now w) inp (ew_pool w) ln (ln_state ln) = (p', ln')" by fastforce
  show ?thesis
  proof (cases "pl_closed p'")
    case False
    with lane_move_closed [OF m] have "\<not> pl_closed (ew_pool w)" by blast
    with assms(2) have inv: "ew_errors w = []" "\<And>x. x \<in> set (ew_lanes w) \<Longrightarrow> ln_errors x = [] \<and> \<not> behind_gate (ln_state x)
      \<and> (ln_state x = LaneDone \<longrightarrow> pl_queue (ew_pool w) = [])" by (auto simp: gate_quiet_def)
    have ln: "ln \<in> set (ew_lanes w)" using exec_lane by simp
    from lane_move_open [OF m False] inv(2) [OF ln] have o: "ln_errors ln' = [] \<and> \<not> behind_gate (ln_state ln')
      \<and> (ln_state ln' = LaneDone \<longrightarrow> pl_queue p' = [])" "pl_queue (ew_pool w) = [] \<Longrightarrow> pl_queue p' = []" by auto
    have "ln_errors x = [] \<and> \<not> behind_gate (ln_state x) \<and> (ln_state x = LaneDone \<longrightarrow> pl_queue p' = [])"
      if "x \<in> set ((ew_lanes w)[i := ln'])" for x
      using set_update_subset_insert [of "ew_lanes w" i ln'] that o inv(2) by blast
    with inv(1) exec_lane m show ?thesis by (simp add: gate_quiet_def set_lane_def)
  qed (use exec_lane m in \<open>simp add: gate_quiet_def\<close>)
next
  case (exec_beat i ln c owner inp)
  obtain p' ln' where m: "heartbeat_round ops (ew_now w) inp (ew_pool w) ln c owner = (p', ln')" by fastforce
  have ln: "ln \<in> set (ew_lanes w)" using exec_beat by simp
  with exec_beat assms(2) m heartbeat_round_fields [OF m] heartbeat_round_errors [OF m] show ?thesis
    by (auto simp: gate_quiet_def set_lane_def dest!: subsetD [OF set_update_subset_insert])
qed (use assms(2) in \<open>auto simp: gate_quiet_def\<close>)

lemma exec_run_quiet: "exec_run ops env l w bs' w' \<Longrightarrow> gate_quiet w \<Longrightarrow> gate_quiet w'"
  by (induction rule: exec_run.induct) (auto intro: exec_step_quiet)

lemma gate_quiet_start: "gate_quiet (exec_start now s workers pending)"
  by (auto simp: gate_quiet_def new_lane_def exec_start_def)

lemma quiet_errors: "gate_quiet w \<Longrightarrow> \<not> pl_closed (ew_pool w) \<Longrightarrow> exec_errors w = []"
  by (simp add: gate_quiet_def exec_errors_def)

text \<open>The record a lane completes is the one of its chunk.\<close>

fun lane_record_ok :: "lane_state \<Rightarrow> bool" where
  "lane_record_ok (LaneClaiming c r) = (cr_index r = bc_index c)"
| "lane_record_ok (LaneLeased c r owner) = (cr_index r = bc_index c)"
| "lane_record_ok (LaneProving c r owner) = (cr_index r = bc_index c)"
| "lane_record_ok (LaneRunning c r owner) = (cr_index r = bc_index c)"
| "lane_record_ok (LaneRan c r owner result) = (cr_index r = bc_index c)"
| "lane_record_ok (LaneFailing c r owner e) = (cr_index r = bc_index c)"
| "lane_record_ok (LaneReporting c r owner m) = (cr_index r = bc_index c \<and> cr_status r = status_failed)"
| "lane_record_ok (LaneFinishing c r owner) = (cr_index r = bc_index c \<and> cr_status r = status_success)"
| "lane_record_ok st = True"

text \<open>The chunk a lane is responsible for.\<close>

fun lane_chunk :: "lane_state \<Rightarrow> bf_chunk option" where
  "lane_chunk (LaneTaken c) = Some c"
| "lane_chunk (LaneClaiming c r) = Some c"
| "lane_chunk (LaneLost c) = Some c"
| "lane_chunk (LaneRaised c e) = Some c"
| "lane_chunk st = map_option fst (lane_work st)"

section \<open>The contract of the store\<close>

text \<open>
  \<open>holder s i\<close> is the owner and the expiry of the lease of chunk \<open>i\<close>, \<open>committed s i\<close> says
  that its record is a success.
\<close>

locale chunk_store =
  fixes ok :: "'s \<Rightarrow> bool"
    and holder :: "'s \<Rightarrow> int \<Rightarrow> (string \<times> instant) option"
    and committed :: "'s \<Rightarrow> int \<Rightarrow> bool"
    and ops :: "'s chunk_ops"
    and env :: "string set \<Rightarrow> instant \<Rightarrow> 's \<Rightarrow> 's \<Rightarrow> bool"
  assumes acquire_taken: "ok s \<Longrightarrow> instant_valid e \<Longrightarrow> op_acquire ops now s i owner e = Inr (True, s')
      \<Longrightarrow> ok s' \<and> holder s' = (holder s)(i \<mapsto> (owner, e)) \<and> committed s' = committed s
        \<and> (\<forall>o' x. holder s i = Some (o', x) \<longrightarrow> x \<le> now)"
    and acquire_refused: "ok s \<Longrightarrow> op_acquire ops now s i owner e = Inr (False, s') \<Longrightarrow> s' = s"
    and renew_taken: "ok s \<Longrightarrow> instant_valid e \<Longrightarrow> op_renew ops now s i owner e = Inr (True, s')
      \<Longrightarrow> ok s' \<and> committed s' = committed s
        \<and> (\<exists>x. holder s i = Some (owner, x) \<and> holder s' = (holder s)(i \<mapsto> (owner, max x e)))"
    and renew_refused: "ok s \<Longrightarrow> op_renew ops now s i owner e = Inr (False, s') \<Longrightarrow> s' = s"
    and complete_taken: "ok s \<Longrightarrow> cr_status r \<in> {status_success, status_failed}
      \<Longrightarrow> op_complete ops now s r owner = Inr (True, s')
      \<Longrightarrow> ok s' \<and> (\<exists>x. holder s (cr_index r) = Some (owner, x)) \<and> holder s' = (holder s)(cr_index r := None)
        \<and> committed s' = (committed s)(cr_index r := cr_status r = status_success)"
    and complete_refused: "ok s \<Longrightarrow> cr_status r \<in> {status_success, status_failed}
      \<Longrightarrow> op_complete ops now s r owner = Inr (False, s') \<Longrightarrow> s' = s"
    and held_open: "ok s \<Longrightarrow> holder s i = Some h \<Longrightarrow> \<not> committed s i"
    and env_keeps: "ok s \<Longrightarrow> env owners now s s' \<Longrightarrow> ok s'
      \<and> (\<forall>i owner x. holder s i = Some (owner, x) \<longrightarrow> owner \<in> owners \<longrightarrow> now < x \<longrightarrow> holder s' i = Some (owner, x))
      \<and> (\<forall>i. committed s i \<longrightarrow> committed s' i)"
begin

text \<open>What a step of somebody under the name \<open>mover\<close> leaves to the others.\<close>

definition spares :: "instant \<Rightarrow> string \<Rightarrow> 's \<Rightarrow> 's \<Rightarrow> bool" where
  "spares now mover s s' = (ok s'
     \<and> (\<forall>i owner x. holder s i = Some (owner, x) \<longrightarrow> owner \<noteq> mover \<longrightarrow> now < x \<longrightarrow> holder s' i = Some (owner, x))
     \<and> (\<forall>i. committed s i \<longrightarrow> committed s' i))"

lemma spares_refl: "ok s \<Longrightarrow> spares now mover s s"
  by (simp add: spares_def)

lemma spares_acquire:
  assumes "ok s" "instant_valid e" "op_acquire ops now s i owner e = Inr (b, s')"
  shows "spares now owner s s' \<and> (if b then holder s' i = Some (owner, e) else s' = s)"
proof (cases b)
  case True
  with acquire_taken [OF assms(1,2), of now i owner s'] assms(3) show ?thesis by (fastforce simp: spares_def)
next
  case False
  with acquire_refused [OF assms(1), of now i owner e s'] assms show ?thesis by (simp add: spares_refl)
qed

lemma spares_renew:
  assumes "ok s" "instant_valid e" "op_renew ops now s i owner e = Inr (b, s')"
  shows "spares now owner s s'
    \<and> (if b then \<exists>x. holder s i = Some (owner, x) \<and> holder s' i = Some (owner, max x e) else s' = s)"
proof (cases b)
  case True
  with renew_taken [OF assms(1,2), of now i owner s'] assms(3) show ?thesis by (fastforce simp: spares_def)
next
  case False
  with renew_refused [OF assms(1), of now i owner e s'] assms show ?thesis by (simp add: spares_refl)
qed

lemma spares_complete:
  assumes "ok s" "cr_status r \<in> {status_success, status_failed}" "op_complete ops now s r owner = Inr (b, s')"
  shows "spares now owner s s' \<and> (if b then cr_status r = status_success \<longrightarrow> committed s' (cr_index r) else s' = s)"
proof (cases b)
  case True
  with complete_taken [OF assms(1,2), of now owner s'] assms(3) held_open [OF assms(1)] show ?thesis
    by (fastforce simp: spares_def)
next
  case False
  with complete_refused [OF assms(1,2), of now owner s'] assms show ?thesis by (simp add: spares_refl)
qed

section \<open>One lane\<close>

definition lane_holds :: "instant \<Rightarrow> 's \<Rightarrow> lane \<Rightarrow> bool" where
  "lane_holds now s ln = (\<forall>c owner. lane_work (ln_state ln) = Some (c, owner) \<longrightarrow>
     (\<exists>u. ln_until ln = Some u \<and> (now < u \<longrightarrow> (\<exists>x. holder s (bc_index c) = Some (owner, x) \<and> u \<le> x))))"

lemma lane_holds_none: "lane_work (ln_state ln) = None \<Longrightarrow> lane_holds now s ln"
  by (simp add: lane_holds_def)

lemma lane_holds_later: "lane_holds now s ln \<Longrightarrow> now \<le> later \<Longrightarrow> lane_holds later s ln"
  by (fastforce simp: lane_holds_def)

lemma lane_holds_kept:
  assumes "lane_holds now s ln" "\<And>i c owner x. lane_work (ln_state ln) = Some (c, owner)
    \<Longrightarrow> holder s i = Some (owner, x) \<Longrightarrow> now < x \<Longrightarrow> holder s' i = Some (owner, x)"
  shows "lane_holds now s' ln"
  using assms(1) unfolding lane_holds_def by (meson assms(2) order_less_le_trans)

lemma lane_holds_spared:
  assumes "lane_holds now s ln" "spares now mover s s'" "\<And>c. lane_work (ln_state ln) \<noteq> Some (c, mover)"
  shows "lane_holds now s' ln"
  using assms(2,3) by (intro lane_holds_kept [OF assms(1)]) (auto simp: spares_def)

lemma lane_holds_goes:
  assumes "lane_holds now s ln" "lane_work st = lane_work (ln_state ln) \<or> lane_work st = None" "ln_until ln' = ln_until ln"
    "ln_state ln' = st"
  shows "lane_holds now s ln'"
  using assms by (auto simp: lane_holds_def)

definition mover :: "lane \<Rightarrow> lane_input \<Rightarrow> string" where
  "mover ln inp = (case lane_work (ln_state ln) of Some (c, owner) \<Rightarrow> owner | None \<Rightarrow> chunk_owner (in_uuid inp))"

definition good_move :: "instant \<Rightarrow> string \<Rightarrow> 's lane_pool \<Rightarrow> 's lane_pool \<times> lane \<Rightarrow> bool" where
  "good_move now owner p x = (spares now owner (pl_store p) (pl_store (fst x)) \<and> lane_holds now (pl_store (fst x)) (snd x)
     \<and> lane_record_ok (ln_state (snd x)) \<and> (\<forall>c o'. lane_work (ln_state (snd x)) = Some (c, o') \<longrightarrow> o' = owner))"

lemma good_move_local:
  assumes "ok (pl_store p)" "pl_store p' = pl_store p" "lane_record_ok (ln_state ln')" "lane_holds now (pl_store p) ln'"
    "\<And>c o'. lane_work (ln_state ln') = Some (c, o') \<Longrightarrow> o' = owner"
  shows "good_move now owner p (p', ln')"
  using assms by (simp add: good_move_def spares_refl)

lemma good_claim:
  assumes "ok (pl_store p)" "cr_index r = bc_index c" "input_ok owners inp"
  shows "good_move now (chunk_owner (in_uuid inp)) p (lane_claim ops now inp p ln c r)"
proof (cases "in_expiry inp")
  case (Inl e)
  with assms show ?thesis by (simp add: lane_claim_def Let_def good_move_def spares_refl lane_holds_none)
next
  case (Inr expiry)
  let ?o = "chunk_owner (in_uuid inp)"
  have v: "instant_valid expiry" using assms(3) Inr by (simp add: input_ok_def)
  obtain x s' where call: "call_store (in_fault inp) (pl_store p)
      (op_acquire ops now (pl_store p) (bc_index c) ?o expiry) = (x, s')" by fastforce
  then have eff: "spares now ?o (pl_store p) s' \<and> (x = Inr True \<longrightarrow> holder s' (bc_index c) = Some (?o, expiry))"
    by (cases rule: call_store_cases)
      (use assms(1) spares_acquire [OF assms(1) v] in \<open>auto simp: spares_refl split: if_splits\<close>)
  show ?thesis
  proof (cases x)
    case (Inl e)
    with eff call Inr assms show ?thesis
      by (simp add: lane_claim_def admission_acquire_def Let_def good_move_def spares_refl lane_holds_none)
  next
    case (Inr b)
    with eff call \<open>in_expiry inp = Inr expiry\<close> assms show ?thesis
      by (cases b) (simp_all add: lane_claim_def admission_acquire_def Let_def good_move_def spares_refl lane_holds_none,
        simp add: lane_holds_def)
  qed
qed

lemma renew_once_effect:
  assumes "ok (pl_store p)" "lane_work (ln_state ln) = Some (c, owner)" "lane_holds now (pl_store p) ln"
    "input_ok owners inp" "renew_once ops now inp p ln c owner = (b, p', ln')"
  shows "spares now owner (pl_store p) (pl_store p') \<and> lane_holds now (pl_store p') ln'"
proof (cases "in_expiry inp")
  case (Inl e)
  with assms show ?thesis by (simp add: renew_once_def spares_refl)
next
  case (Inr expiry)
  have v: "instant_valid expiry" using assms(4) Inr by (simp add: input_ok_def)
  obtain x s' where call: "call_store (in_fault inp) (pl_store p)
      (op_renew ops now (pl_store p) (bc_index c) owner expiry) = (x, s')" by fastforce
  then have eff: "spares now owner (pl_store p) s' \<and> (s' = pl_store p \<and> x \<noteq> Inr True
      \<or> (\<exists>y. holder (pl_store p) (bc_index c) = Some (owner, y) \<and> holder s' (bc_index c) = Some (owner, max y expiry)))"
  proof (cases rule: call_store_cases)
    case (2 a s1)
    with spares_renew [OF assms(1) v, of now "bc_index c" owner a s1] show ?thesis by (cases a) auto
  qed (use assms(1) in \<open>auto simp: spares_refl\<close>)
  have "lane_holds now s' ln" using eff assms(2,3) by (auto simp: lane_holds_def)
  with eff call Inr assms(2,5) show ?thesis
    by (auto simp: renew_once_def lane_holds_def split: sum.splits if_splits)
qed

lemma good_proving:
  assumes "ok (pl_store p)" "ln_state ln = LaneProving c r owner" "lane_holds now (pl_store p) ln" "input_ok owners inp"
    "cr_index r = bc_index c"
  shows "good_move now owner p (lane_proving ops now inp p ln c r owner)"
proof -
  obtain b p' ln' where r: "renew_once ops now inp p ln c owner = (b, p', ln')" by (metis prod_cases3)
  have eff: "spares now owner (pl_store p) (pl_store p') \<and> lane_holds now (pl_store p') ln'"
    by (rule renew_once_effect [OF assms(1) _ assms(3,4) r]) (simp add: assms(2))
  have st: "ln_state ln' = LaneProving c r owner" using renew_once_fields [OF r] assms(2) by simp
  with eff r assms(5) show ?thesis
    by (auto simp: lane_proving_def good_move_def lane_holds_def split: option.split)
qed

lemma complete_effect:
  assumes "ok s" "cr_status r \<in> {status_success, status_failed}" "call_store fault s (op_complete ops now s r owner) = (x, s')"
  shows "spares now owner s s' \<and> (x = Inr True \<longrightarrow> cr_status r = status_success \<longrightarrow> committed s' (cr_index r))"
  using assms(3) by (cases rule: call_store_cases)
    (use assms(1) spares_complete [OF assms(1,2)] in \<open>auto simp: spares_refl split: if_splits\<close>)

lemma good_complete:
  assumes "ok (pl_store p)" "cr_status r \<in> {status_success, status_failed}"
  shows "good_move now owner p (lane_finishing ops now inp p ln c r owner)
    \<and> good_move now owner p (lane_reporting ops now inp p ln c r owner m)"
proof -
  obtain y s' where call: "call_store (in_fault inp) (pl_store p) (op_complete ops now (pl_store p) r owner) = (y, s')"
    by fastforce
  from complete_effect [OF assms(1,2) call] call show ?thesis
    by (auto simp: lane_finishing_def lane_reporting_def good_move_def lane_holds_none split: sum.split option.split)
qed

lemma lane_move_good:
  assumes "ok (pl_store p)" "lane_holds now (pl_store p) ln" "lane_record_ok (ln_state ln)" "input_ok owners inp"
  shows "good_move now (mover ln inp) p (lane_move ops l now inp p ln (ln_state ln))"
proof (cases "ln_state ln")
  case (LaneClaiming c r)
  with good_claim [OF assms(1) _ assms(4)] assms(3) show ?thesis by (simp add: mover_def)
next
  case (LaneProving c r owner)
  with good_proving [OF assms(1) LaneProving assms(2,4)] assms(3) show ?thesis by (simp add: mover_def)
next
  case (LaneFinishing c r owner)
  with good_complete [OF assms(1), of r] assms(3) show ?thesis by (simp add: mover_def)
next
  case (LaneReporting c r owner m)
  with good_complete [OF assms(1), of r] assms(3) show ?thesis by (simp add: mover_def)
qed (use assms in \<open>auto simp: mover_def lane_step_defs good_move_def spares_refl success_record_def bind_res_eq_Inr
      lane_holds_def ledger_chunk_index split: sum.split option.split list.split prod.split\<close>)

section \<open>All lanes\<close>

definition world_ok :: "'s exec_world \<Rightarrow> bool" where
  "world_ok w = (ok (pl_store (ew_pool w))
     \<and> (\<forall>ln\<in>set (ew_lanes w). lane_holds (ew_now w) (pl_store (ew_pool w)) ln \<and> lane_record_ok (ln_state ln))
     \<and> (\<forall>i<length (ew_lanes w). \<forall>j<length (ew_lanes w). \<forall>c c' owner.
          lane_work (ln_state (ew_lanes w ! i)) = Some (c, owner) \<longrightarrow>
          lane_work (ln_state (ew_lanes w ! j)) = Some (c', owner) \<longrightarrow> i = j))"

lemma world_ok_lane:
  "world_ok w \<Longrightarrow> i < length (ew_lanes w) \<Longrightarrow> lane_holds (ew_now w) (pl_store (ew_pool w)) (ew_lanes w ! i)
    \<and> lane_record_ok (ln_state (ew_lanes w ! i)) \<and> ok (pl_store (ew_pool w))"
  by (simp add: world_ok_def)

lemma world_ok_set_lane:
  assumes w: "world_ok w" and i: "i < length (ew_lanes w)" and g: "good_move (ew_now w) owner (ew_pool w) x"
    and other: "\<And>j c. j < length (ew_lanes w) \<Longrightarrow> j \<noteq> i \<Longrightarrow> lane_work (ln_state (ew_lanes w ! j)) \<noteq> Some (c, owner)"
  shows "world_ok (set_lane i w x)"
proof -
  have spare: "spares (ew_now w) owner (pl_store (ew_pool w)) (pl_store (fst x))"
    and own: "lane_work (ln_state (snd x)) = Some (c, o') \<Longrightarrow> o' = owner" for c o'
    using g by (auto simp: good_move_def)
  have "lane_holds (ew_now w) (pl_store (fst x)) ((ew_lanes w)[i := snd x] ! j)
      \<and> lane_record_ok (ln_state ((ew_lanes w)[i := snd x] ! j))" if "j < length (ew_lanes w)" for j
    using that g world_ok_lane [OF w that] lane_holds_spared [OF _ spare, of "ew_lanes w ! j"] other [OF that]
    by (cases "j = i") (auto simp: good_move_def)
  moreover have "a = b" if a: "a < length (ew_lanes w)" "b < length (ew_lanes w)"
    "lane_work (ln_state ((ew_lanes w)[i := snd x] ! a)) = Some (c, o')"
    "lane_work (ln_state ((ew_lanes w)[i := snd x] ! b)) = Some (c', o')" for a b c c' o'
  proof (cases "a = i \<or> b = i")
    case True
    with a own other [OF a(1), of c] other [OF a(2), of c'] show ?thesis by (auto simp: nth_list_update split: if_splits)
  next
    case False
    with a w show ?thesis by (simp add: world_ok_def)
  qed
  ultimately show ?thesis
    using spare by (auto simp: world_ok_def spares_def in_set_conv_nth)
qed

lemma lane_owners_nth: "i < length lns \<Longrightarrow> lane_work (ln_state (lns ! i)) = Some (c, owner) \<Longrightarrow> owner \<in> lane_owners lns"
  by (force simp: lane_owners_def)

lemma mover_other:
  assumes "world_ok w" "i < length (ew_lanes w)" "input_ok (lane_owners (ew_lanes w)) inp" "j < length (ew_lanes w)" "j \<noteq> i"
  shows "lane_work (ln_state (ew_lanes w ! j)) \<noteq> Some (c, mover (ew_lanes w ! i) inp)"
proof
  assume j: "lane_work (ln_state (ew_lanes w ! j)) = Some (c, mover (ew_lanes w ! i) inp)"
  from lane_owners_nth [OF assms(4) j] assms(3) obtain c' owner where
    "lane_work (ln_state (ew_lanes w ! i)) = Some (c', owner)" "mover (ew_lanes w ! i) inp = owner"
    by (auto simp: mover_def input_ok_def split: option.splits)
  with j assms(1,2,4,5) show False by (simp add: world_ok_def)
qed

lemma good_beat:
  assumes "ok (pl_store p)" "lane_work (ln_state ln) = Some (c, owner)" "lane_holds now (pl_store p) ln"
    "lane_record_ok (ln_state ln)" "input_ok owners inp"
  shows "good_move now owner p (heartbeat_round ops now inp p ln c owner)"
proof -
  obtain b p' ln' where r: "renew_once ops now inp p ln c owner = (b, p', ln')" by (metis prod_cases3)
  from renew_once_effect [OF assms(1-3,5) r] renew_once_fields [OF r] r assms(2,4) show ?thesis
    by (auto simp: heartbeat_round_def good_move_def lane_holds_def)
qed

lemma exec_step_ok:
  assumes "exec_step ops env l w b w'" "world_ok w"
  shows "world_ok w'"
  using assms(1)
proof (cases rule: exec_step.cases)
  case (exec_time later)
  with assms(2) show ?thesis by (auto simp: world_ok_def intro: lane_holds_later)
next
  case (exec_others s)
  have ok: "ok (pl_store (ew_pool w))" using assms(2) by (simp add: world_ok_def)
  note keeps = env_keeps [OF ok exec_others(3)]
  have "lane_holds (ew_now w) s ln" if "ln \<in> set (ew_lanes w)" for ln
  proof (rule lane_holds_kept)
    show "lane_holds (ew_now w) (pl_store (ew_pool w)) ln" using assms(2) that by (simp add: world_ok_def)
    fix i c owner x
    assume "lane_work (ln_state ln) = Some (c, owner)"
      and h: "holder (pl_store (ew_pool w)) i = Some (owner, x)" "ew_now w < x"
    with that have "owner \<in> lane_owners (ew_lanes w)" by (auto simp: lane_owners_def)
    with keeps h show "holder s i = Some (owner, x)" by blast
  qed
  moreover have "ok s" using keeps by blast
  ultimately show ?thesis using assms(2) unfolding world_ok_def exec_others(2) by simp
next
  case (exec_lane i ln inp)
  with world_ok_lane [OF assms(2), of i] mover_other [OF assms(2), of i inp] show ?thesis
    by (auto intro!: world_ok_set_lane assms(2) lane_move_good)
next
  case (exec_beat i ln c owner inp)
  have "lane_work (ln_state (ew_lanes w ! j)) \<noteq> Some (c', owner)" if "j < length (ew_lanes w)" "j \<noteq> i" for j c'
    using that exec_beat assms(2) by (auto simp: world_ok_def)
  with exec_beat world_ok_lane [OF assms(2), of i] show ?thesis
    by (auto intro!: world_ok_set_lane assms(2) good_beat)
qed (use assms(2) in \<open>simp add: world_ok_def\<close>)

lemma exec_run_ok: "exec_run ops env l w bs' w' \<Longrightarrow> world_ok w \<Longrightarrow> world_ok w'"
  by (induction rule: exec_run.induct) (auto intro: exec_step_ok)

lemma world_ok_start: "ok s \<Longrightarrow> world_ok (exec_start now s workers pending)"
  by (auto simp: world_ok_def lane_holds_def)

text \<open>Two lanes never both work on one chunk within the leases they were granted.\<close>

lemma lanes_exclusive:
  assumes "world_ok w" "i < length (ew_lanes w)" "j < length (ew_lanes w)" "i \<noteq> j"
    "lane_work (ln_state (ew_lanes w ! i)) = Some (c, owner)" "lane_work (ln_state (ew_lanes w ! j)) = Some (c', owner')"
    "ln_until (ew_lanes w ! i) = Some u" "ln_until (ew_lanes w ! j) = Some u'" "ew_now w < u" "ew_now w < u'"
  shows "bc_index c \<noteq> bc_index c'"
proof
  assume same: "bc_index c = bc_index c'"
  from world_ok_lane [OF assms(1,2)] world_ok_lane [OF assms(1,3)] assms same have "owner = owner'"
    by (auto simp: lane_holds_def)
  with assms(1-6) show False by (auto simp: world_ok_def)
qed

section \<open>No chunk is lost\<close>

lemma exec_step_committed:
  assumes "exec_step ops env l w b w'" "world_ok w" "committed (pl_store (ew_pool w)) i"
  shows "committed (pl_store (ew_pool w')) i"
  using assms(1)
proof (cases rule: exec_step.cases)
  case (exec_others s)
  have ok: "ok (pl_store (ew_pool w))" using assms(2) by (simp add: world_ok_def)
  from env_keeps [OF ok exec_others(3)] assms(3) exec_others(2) show ?thesis by simp
next
  case (exec_lane j ln inp)
  with lane_move_good [of "ew_pool w" "ew_now w" ln] world_ok_lane [OF assms(2), of j] assms(3) show ?thesis
    by (auto simp: good_move_def spares_def)
next
  case (exec_beat j ln c owner inp)
  with good_beat [of "ew_pool w" ln c owner "ew_now w"] world_ok_lane [OF assms(2), of j] assms(3) show ?thesis
    by (auto simp: good_move_def spares_def)
qed (use assms(3) in simp_all)

definition accounted :: "bf_chunk \<Rightarrow> 's lane_pool \<Rightarrow> lane \<Rightarrow> bool" where
  "accounted c p ln = (c \<in> set (pl_queue p) \<or> lane_chunk (ln_state ln) = Some c \<or> committed (pl_store p) (bc_index c))"

lemma lane_finishing_accounted:
  assumes "ok (pl_store p)" "cr_status r = status_success" "cr_index r = bc_index c"
    "lane_finishing ops now inp p ln c r owner = (p', ln')"
  shows "accounted c p' ln' \<and> pl_queue p' = pl_queue p \<and> pl_closed p' = pl_closed p
    \<and> \<not> behind_gate (ln_state ln') \<and> ln_state ln' \<noteq> LaneDone"
proof -
  obtain y s' where call: "call_store (in_fault inp) (pl_store p) (op_complete ops now (pl_store p) r owner) = (y, s')"
    by fastforce
  have "cr_status r \<in> {status_success, status_failed}" using assms(2) by simp
  from complete_effect [OF assms(1) this call] call assms(2-4) show ?thesis
    by (auto simp: lane_finishing_def accounted_def split: sum.splits option.splits if_splits)
qed

lemma lane_move_accounted:
  assumes "ok (pl_store p)" "lane_record_ok (ln_state ln)" "lane_move ops l now inp p ln (ln_state ln) = (p', ln')"
    "\<not> pl_closed p'" "\<not> behind_gate (ln_state ln)" "c \<in> set (pl_queue p) \<or> lane_chunk (ln_state ln) = Some c"
  shows "accounted c p' ln'"
proof (cases "ln_state ln")
  case (LaneFinishing c' r owner)
  with lane_finishing_accounted [OF assms(1), of r c' now inp ln owner p' ln'] assms(2,3,6) show ?thesis
    by (auto simp: accounted_def)
qed (use assms in \<open>auto simp: lane_step_defs accounted_def split: sum.splits prod.splits if_splits list.splits option.splits
      dest: renew_once_fields\<close>)

definition all_accounted :: "bf_chunk list \<Rightarrow> 's exec_world \<Rightarrow> bool" where
  "all_accounted cs w = (pl_closed (ew_pool w) \<or> (\<forall>c\<in>set cs. \<exists>ln\<in>set (ew_lanes w). accounted c (ew_pool w) ln))"

lemma all_accounted_store:
  assumes "all_accounted cs w" "pl_queue p = pl_queue (ew_pool w)" "pl_closed p = pl_closed (ew_pool w)"
    "\<And>i. committed (pl_store (ew_pool w)) i \<Longrightarrow> committed (pl_store p) i" "ew_pool w' = p"
    "map ln_state (ew_lanes w') = map ln_state (ew_lanes w)"
  shows "all_accounted cs w'"
proof (cases "pl_closed p")
  case False
  have set: "ln_state ` set (ew_lanes w') = ln_state ` set (ew_lanes w)"
    using arg_cong [OF assms(6), of set] by simp
  have "\<exists>ln\<in>set (ew_lanes w'). accounted c p ln" if c: "c \<in> set cs" for c
  proof -
    from assms(1,3) False c obtain ln where ln: "ln \<in> set (ew_lanes w)" "accounted c (ew_pool w) ln"
      by (auto simp: all_accounted_def)
    then have "ln_state ln \<in> ln_state ` set (ew_lanes w')" by (simp add: set)
    then obtain ln' where "ln' \<in> set (ew_lanes w')" "ln_state ln' = ln_state ln" by auto
    with ln assms(2,4) show ?thesis by (intro bexI [of _ ln']) (auto simp: accounted_def)
  qed
  then show ?thesis using assms(5) by (simp add: all_accounted_def)
qed (use assms(5) in \<open>simp add: all_accounted_def\<close>)

lemma all_accounted_move:
  assumes w: "world_ok w" "gate_quiet w" and a: "all_accounted cs w" and i: "i < length (ew_lanes w)" "ln = ew_lanes w ! i"
    and m: "lane_move ops l (ew_now w) inp (ew_pool w) ln (ln_state ln) = (p', ln')"
    and mono: "\<And>j. committed (pl_store (ew_pool w)) j \<Longrightarrow> committed (pl_store p') j"
  shows "all_accounted cs (set_lane i w (p', ln'))"
proof (cases "pl_closed p'")
  case False
  have ln: "ln \<in> set (ew_lanes w)" using i by simp
  have open_w: "\<not> pl_closed (ew_pool w)" using lane_move_closed [OF m] False by blast
  with w(2) ln have front: "\<not> behind_gate (ln_state ln)" by (simp add: gate_quiet_def)
  have "\<exists>x\<in>set ((ew_lanes w)[i := ln']). accounted c p' x" if c: "c \<in> set cs" for c
  proof -
    from a open_w c obtain x where x: "x \<in> set (ew_lanes w)" "accounted c (ew_pool w) x" by (auto simp: all_accounted_def)
    have new: "ln' \<in> set ((ew_lanes w)[i := ln'])" by (rule set_update_memI [OF i(1)])
    consider "c \<in> set (pl_queue (ew_pool w)) \<or> lane_chunk (ln_state ln) = Some c"
      | "committed (pl_store (ew_pool w)) (bc_index c)" | "lane_chunk (ln_state x) = Some c" "x \<noteq> ln"
      using x by (auto simp: accounted_def)
    then show ?thesis
    proof cases
      case 1
      from lane_move_accounted [OF _ _ m False front 1] world_ok_lane [OF w(1) i(1)] i(2) new show ?thesis by blast
    next
      case 2
      with mono new show ?thesis by (auto simp: accounted_def)
    next
      case 3
      with x(1) i have "x \<in> set ((ew_lanes w)[i := ln'])" by (metis in_set_conv_nth length_list_update nth_list_update_neq)
      with 3 show ?thesis by (auto simp: accounted_def)
    qed
  qed
  then show ?thesis by (simp add: all_accounted_def)
qed (simp add: all_accounted_def)

lemma map_ln_state_update: "ln_state x = ln_state (lns ! i) \<Longrightarrow> map ln_state (lns[i := x]) = map ln_state lns"
  by (metis list_update_id map_update)

lemma exec_step_accounted:
  assumes "exec_step ops env l w b w'" "world_ok w" "all_accounted cs w" "gate_quiet w"
  shows "all_accounted cs w'"
  using assms(1)
proof (cases rule: exec_step.cases)
  case (exec_lane i ln inp)
  obtain p' ln' where m: "lane_move ops l (ew_now w) inp (ew_pool w) ln (ln_state ln) = (p', ln')" by fastforce
  have "pl_store (ew_pool w') = pl_store p'" using exec_lane m by simp
  with all_accounted_move [OF assms(2,4,3) exec_lane(3,4) m] exec_step_committed [OF assms(1,2)] exec_lane(2) m
  show ?thesis by simp
next
  case (exec_beat i ln c owner inp)
  obtain p' ln' where m: "heartbeat_round ops (ew_now w) inp (ew_pool w) ln c owner = (p', ln')" by fastforce
  with heartbeat_round_fields [OF m] exec_beat exec_step_committed [OF assms(1,2)]
  show ?thesis by (intro all_accounted_store [OF assms(3), of p']) (auto intro: map_ln_state_update)
next
  case exec_lost
  then show ?thesis by (simp add: all_accounted_def)
next
  case (exec_others s)
  with exec_step_committed [OF assms(1,2)] show ?thesis
    by (intro all_accounted_store [OF assms(3), of "(ew_pool w)\<lparr>pl_store := s\<rparr>"]) simp_all
qed (use assms(3) in \<open>simp add: all_accounted_def\<close>)

lemma exec_run_accounted:
  "exec_run ops env l w bs' w' \<Longrightarrow> world_ok w \<Longrightarrow> gate_quiet w \<Longrightarrow> all_accounted cs w \<Longrightarrow> all_accounted cs w'"
  by (induction rule: exec_run.induct) (auto intro: exec_step_accounted exec_run_ok exec_run_quiet)

lemma all_accounted_start: "all_accounted pending (exec_start now s workers pending)"
  using lane_count_pos [of workers pending] by (auto simp: all_accounted_def accounted_def)

text \<open>When all lanes are over and the gate is open, every chunk of the run is committed.\<close>

lemma open_run_commits:
  assumes "exec_run ops env l (exec_start now s workers pending) bs' w'" "ok s"
    "\<forall>ln\<in>set (ew_lanes w'). lane_over (ln_state ln)" "\<not> pl_closed (ew_pool w')" "c \<in> set pending"
  shows "committed (pl_store (ew_pool w')) (bc_index c)"
proof -
  have inv: "all_accounted pending w'"
    by (rule exec_run_accounted [OF assms(1) world_ok_start [OF assms(2)] gate_quiet_start all_accounted_start])
  have quiet: "gate_quiet w'" by (rule exec_run_quiet [OF assms(1) gate_quiet_start])
  have over: "ln_state ln = LaneDone" if "ln \<in> set (ew_lanes w')" for ln
    using quiet assms(3,4) that by (cases "ln_state ln") (auto simp: gate_quiet_def)
  from inv assms(4,5) obtain ln where "ln \<in> set (ew_lanes w')" "accounted c (ew_pool w') ln"
    by (auto simp: all_accounted_def)
  with over quiet assms(4) show ?thesis by (auto simp: accounted_def gate_quiet_def)
qed

end

end
