(* ===== verification/Bf_Run_Proofs.thy ===== *)
theory Bf_Run_Proofs
  imports Bf_Lanes_Proofs Bf_Chunk_Lease
begin

text \<open>
  Chunk execution over the filesystem store: the store keeps the contract of \<open>Bf_Lanes_Proofs\<close>,
  so its lanes are exclusive while their leases last, an execution that keeps its gate open
  commits every selected chunk, and the campaign is then complete.
\<close>

section \<open>The filesystem store as a chunk store\<close>

definition file_ops :: "string \<Rightarrow> fstore chunk_ops" where
  "file_ops k = \<lparr>op_load = (\<lambda>s. fs_load s k),
     op_acquire = (\<lambda>now s i owner e. acquire_chunk_lease s now now k i owner e),
     op_renew = (\<lambda>now s i owner e. renew_chunk_lease s now now k i owner e),
     op_complete = (\<lambda>now s r owner. complete_chunk_if_owned s now k r owner)\<rparr>"

definition chunk_holder :: "chunk_record \<Rightarrow> (string \<times> instant) option" where
  "chunk_holder r =
     (if cr_status r \<noteq> status_running then None
      else case (cr_lease_owner r, cr_lease_expires_at r) of
          (PStr owner, PStr text) \<Rightarrow>
            (case parse_utc_text text of Inr d \<Rightarrow> Some (owner, dt_instant d) | Inl _ \<Rightarrow> None)
        | _ \<Rightarrow> None)"

definition file_chunk_holder :: "string \<Rightarrow> fstore \<Rightarrow> int \<Rightarrow> (string \<times> instant) option" where
  "file_chunk_holder k s i = (case chunk_at s k i of None \<Rightarrow> None | Some r \<Rightarrow> chunk_holder r)"

definition file_committed :: "string \<Rightarrow> fstore \<Rightarrow> int \<Rightarrow> bool" where
  "file_committed k s i = (case chunk_at s k i of None \<Rightarrow> False | Some r \<Rightarrow> cr_status r = status_success)"

definition lease_ok :: "chunk_record \<Rightarrow> bool" where
  "lease_ok r = (cr_status r = status_running \<longrightarrow> (\<exists>owner e. leased_to r owner e))"

definition chunks_ok :: "string \<Rightarrow> fstore \<Rightarrow> bool" where
  "chunks_ok k s = (store_ok s \<and> (\<forall>i r. chunk_at s k i = Some r \<longrightarrow> lease_ok r))"

text \<open>
  What the other threads of the process may do: any operation of the store, but not in the name
  of a working lane; their raw saves write the chunk records that the store holds, and their raw
  updates concern chunks that are neither finished nor running.
\<close>

fun others_op :: "string set \<Rightarrow> file_op \<Rightarrow> bool" where
  "others_op owners (OpCreate l) = list_all lease_ok (bl_chunks l)"
| "others_op owners (OpSave l) = list_all lease_ok (bl_chunks l)"
| "others_op owners (OpUpdateChunk l r) = (list_all lease_ok (bl_chunks l) \<and> lease_ok r)"
| "others_op owners (OpAcquireChunk i owner e) = instant_valid e"
| "others_op owners (OpRenewChunk i owner e) = (instant_valid e \<and> owner \<notin> owners)"
| "others_op owners (OpComplete r owner) = (cr_status r \<in> {status_success, status_failed} \<and> owner \<notin> owners)"
| "others_op owners op = True"

fun chunks_kept :: "fstore \<Rightarrow> string \<Rightarrow> file_op \<Rightarrow> bool" where
  "chunks_kept s j (OpSave l) = (case view s j of None \<Rightarrow> True | Some c \<Rightarrow> bl_chunks l = bl_chunks c)"
| "chunks_kept s j (OpUpdateChunk l r) =
     (view s j = None \<or> (case chunk_at s j (cr_index r) of
        None \<Rightarrow> False
      | Some c \<Rightarrow> cr_status c \<notin> {status_success, status_running}))"
| "chunks_kept s j op = True"

definition file_others :: "string \<Rightarrow> string set \<Rightarrow> instant \<Rightarrow> fstore \<Rightarrow> fstore \<Rightarrow> bool" where
  "file_others k owners now s s' =
     (\<exists>t j op. op_ok op \<and> others_op owners op \<and> chunks_kept s j op \<and> s' = apply_op s now t j op)"

lemma utc_text_inject: "instant_valid a \<Longrightarrow> instant_valid b \<Longrightarrow> utc_text a = utc_text b \<longleftrightarrow> a = b"
  by (metis dt_instant_of_instant parse_utc_text_utc_text sum.inject(2))

lemma leased_holder: "leased_to r owner e \<Longrightarrow> chunk_holder r = Some (owner, e)"
  by (simp add: leased_to_def chunk_holder_def)

lemma idle_holder: "cr_status r \<noteq> status_running \<Longrightarrow> chunk_holder r = None"
  by (simp add: chunk_holder_def)

lemma lease_ok_holder:
  assumes "lease_ok r"
  shows "chunk_holder r = Some (owner, e) \<longleftrightarrow> leased_to r owner e"
proof
  assume h: "chunk_holder r = Some (owner, e)"
  then have "cr_status r = status_running" by (auto simp: chunk_holder_def split: if_splits)
  with assms obtain o' e' where "leased_to r o' e'" by (auto simp: lease_ok_def)
  with leased_holder [OF this] h show "leased_to r owner e" by simp
qed (rule leased_holder)

lemma file_holder_leased:
  "chunks_ok k s \<Longrightarrow> file_chunk_holder k s i = Some (owner, e) \<longleftrightarrow> (\<exists>r. chunk_at s k i = Some r \<and> leased_to r owner e)"
  by (auto simp: file_chunk_holder_def chunks_ok_def lease_ok_holder split: option.splits)

text \<open>Replacing one record.\<close>

lemma file_becomes_chunk:
  assumes "chunks_ok k s" "becomes s s' k (with_chunk t l r)" "view s k = Some l" "lease_ok r"
  shows "chunks_ok k s' \<and> file_chunk_holder k s' = (file_chunk_holder k s)(cr_index r := chunk_holder r)
    \<and> file_committed k s' = (file_committed k s)(cr_index r := (cr_status r = status_success))"
proof -
  have upd: "chunk_holder (r\<lparr>cr_updated_at := x\<rparr>) = chunk_holder r" "lease_ok (r\<lparr>cr_updated_at := x\<rparr>)" for x
    using assms(4) by (simp_all add: chunk_holder_def lease_ok_def leased_to_def)
  show ?thesis
    using assms(1) upd assms(2) chunk_at_with_chunk [OF assms(2,3)]
    by (auto simp: chunks_ok_def becomes_def file_chunk_holder_def file_committed_def fun_eq_iff)
qed

lemma file_acquire_granted:
  assumes "chunks_ok k s" "instant_valid e" "acquire_chunk_lease s now t k i owner e = Inr (True, s')"
  shows "chunks_ok k s' \<and> file_chunk_holder k s' = (file_chunk_holder k s)(i \<mapsto> (owner, e))
    \<and> file_committed k s' = file_committed k s \<and> (\<forall>o' x. file_chunk_holder k s i = Some (o', x) \<longrightarrow> x \<le> now)"
proof -
  have ok: "store_ok s" using assms(1) by (simp add: chunks_ok_def)
  from ok assms(3) show ?thesis
  proof (rule acquire_chunk_cases)
    fix l and r :: chunk_record
    let ?r = "r\<lparr>cr_status := status_running, cr_attempts := cr_attempts r + 1, cr_lease_owner := PStr owner,
      cr_lease_expires_at := PStr (utc_text e), cr_started_at := py_or (cr_started_at r) (PStr (utc_text t)), cr_error := PNone\<rparr>"
    assume l: "view s k = Some l" "ledger_chunk l i = Inr r" and st: "cr_status r \<noteq> status_success"
      "cr_status r = status_running \<Longrightarrow> expired now (cr_lease_expires_at r) = Inr True"
      and b: "becomes s s' k (with_chunk t l ?r)"
    have leased: "leased_to ?r owner e" using assms(2) by (simp add: leased_to_def)
    then have "lease_ok ?r" by (auto simp: lease_ok_def)
    note eff = file_becomes_chunk [OF assms(1) b l(1) this]
    have at: "chunk_at s k i = Some r" using l by (simp add: chunk_at_def ledger_chunk_find)
    have "x \<le> now" if "file_chunk_holder k s i = Some (o', x)" for o' x
      using that st(2) at by (auto simp: file_holder_leased [OF assms(1)] leased_to_def)
    with eff leased_holder [OF leased] ledger_chunk_index [OF l(2)] at st(1) show ?thesis
      by (auto simp: file_committed_def fun_eq_iff status_defs)
  qed simp
qed

lemma file_renew_granted:
  assumes "chunks_ok k s" "instant_valid e" "renew_chunk_lease s now t k i owner e = Inr (True, s')"
  shows "chunks_ok k s' \<and> file_committed k s' = file_committed k s
    \<and> (\<exists>x. file_chunk_holder k s i = Some (owner, x) \<and> file_chunk_holder k s' = (file_chunk_holder k s)(i \<mapsto> (owner, max x e)))"
proof -
  have ok: "store_ok s" using assms(1) by (simp add: chunks_ok_def)
  obtain l r where l: "view s k = Some l" "ledger_chunk l i = Inr r" and st: "cr_status r = status_running" "cr_lease_owner r = PStr owner"
    using assms(3) by (auto simp: renew_chunk_lease_def bind_res_eq_Inr fs_require_view [OF ok] split: if_splits)
  have at: "chunk_at s k i = Some r" using l by (simp add: chunk_at_def ledger_chunk_find)
  with assms(1) have "lease_ok r" by (simp add: chunks_ok_def)
  with st obtain x where x: "leased_to r owner x" by (auto simp: lease_ok_def leased_to_def)
  have held: "file_chunk_holder k s i = Some (owner, x)" using at x by (simp add: file_chunk_holder_def leased_holder)
  let ?r = "r\<lparr>cr_lease_expires_at := PStr (utc_text e)\<rparr>"
  from assms(3) l st x have "s' = s \<and> e \<le> x \<or> x < e \<and> fs_update_chunk s t l ?r = Inr s'"
    by (auto simp: renew_chunk_lease_def bind_res_eq_Inr fs_require_view [OF ok] leased_to_def split: if_splits)
  then show ?thesis
  proof
    assume "s' = s \<and> e \<le> x"
    with assms(1) held show ?thesis by (auto simp: max_def fun_eq_iff)
  next
    assume a: "x < e \<and> fs_update_chunk s t l ?r = Inr s'"
    have leased: "leased_to ?r owner e" using x assms(2) by (simp add: leased_to_def)
    then have "lease_ok ?r" by (auto simp: lease_ok_def)
    moreover have "becomes s s' k (with_chunk t l ?r)"
      by (rule becomes_update_chunk [OF ok l(1)]) (use a st in \<open>simp_all add: status_defs\<close>)
    ultimately show ?thesis
      using file_becomes_chunk [OF assms(1) _ l(1), of s' t ?r] leased_holder [OF leased] ledger_chunk_index [OF l(2)] a held at st
      by (auto simp: file_committed_def fun_eq_iff status_defs max_def)
  qed
qed

lemma file_complete_taken:
  assumes "chunks_ok k s" "cr_status r \<in> {status_success, status_failed}" "complete_chunk_if_owned s t k r owner = Inr (True, s')"
  shows "chunks_ok k s' \<and> (\<exists>x. file_chunk_holder k s (cr_index r) = Some (owner, x))
    \<and> file_chunk_holder k s' = (file_chunk_holder k s)(cr_index r := None)
    \<and> file_committed k s' = (file_committed k s)(cr_index r := cr_status r = status_success)"
proof -
  have ok: "store_ok s" "cr_status r \<noteq> []" using assms(1,2) by (auto simp: chunks_ok_def status_defs)
  from ok assms(3) show ?thesis
  proof (rule complete_chunk_cases)
    fix l and c :: chunk_record
    let ?r = "r\<lparr>cr_lease_owner := PNone, cr_lease_expires_at := PNone\<rparr>"
    assume l: "view s k = Some l" "ledger_chunk l (cr_index r) = Inr c" and c: "cr_status c = status_running" "cr_lease_owner c = PStr owner"
      and b: "becomes s s' k (with_chunk t l ?r)"
    have run: "cr_status r \<noteq> status_running" using assms(2) by (auto simp: status_defs)
    then have "lease_ok ?r" by (simp add: lease_ok_def)
    moreover have at: "chunk_at s k (cr_index r) = Some c" using l by (simp add: chunk_at_def ledger_chunk_find)
    with assms(1) have "lease_ok c" by (simp add: chunks_ok_def)
    with c obtain x where "leased_to c owner x" by (auto simp: lease_ok_def leased_to_def)
    ultimately show ?thesis
      using file_becomes_chunk [OF assms(1) b l(1)] at idle_holder [of ?r] run
      by (auto simp: file_chunk_holder_def leased_holder fun_eq_iff)
  qed simp
qed

lemma refused_same:
  assumes "chunks_ok k s"
  shows "acquire_chunk_lease s now t k i owner e = Inr (False, s') \<Longrightarrow> s' = s"
    "renew_chunk_lease s now t k i owner e = Inr (False, s') \<Longrightarrow> s' = s"
    "complete_chunk_if_owned s t k r owner = Inr (False, s') \<Longrightarrow> s' = s"
  by (auto simp: acquire_chunk_lease_def renew_chunk_lease_def complete_chunk_if_owned_def bind_res_eq_Inr split: if_splits)

lemma find_lease_ok: "find P rs = Some r \<Longrightarrow> list_all lease_ok rs \<Longrightarrow> lease_ok r"
  by (auto simp: find_Some_iff list_all_length)

lemma others_chunk:
  assumes "chunk_move now t op i x y" "others_op owners op" "\<And>r. x = Some r \<Longrightarrow> lease_ok r"
    "\<And>l. op = OpCreate l \<Longrightarrow> x = None \<Longrightarrow> y = None \<or> (\<exists>r\<in>set (bl_chunks l). y = Some r)"
    "\<And>l. op = OpSave l \<Longrightarrow> x \<noteq> None \<Longrightarrow> y = x"
    "\<And>l r c. op = OpUpdateChunk l r \<Longrightarrow> cr_index r = i \<Longrightarrow> x = Some c \<Longrightarrow> cr_status c \<notin> {status_success, status_running}"
  shows "(\<forall>r. y = Some r \<longrightarrow> lease_ok r)
    \<and> (\<forall>r owner e. x = Some r \<longrightarrow> leased_to r owner e \<longrightarrow> owner \<in> owners \<longrightarrow> now < e \<longrightarrow> y = x)
    \<and> (\<forall>r. x = Some r \<longrightarrow> cr_status r = status_success \<longrightarrow> y = x)"
  using assms(1)
proof (cases rule: chunk_move.cases)
  case (move_create l)
  with assms(2,4) show ?thesis by (auto simp: list_all_iff)
next
  case (move_save l)
  with assms(2,3,5) show ?thesis by (cases x) (auto dest: find_lease_ok)
next
  case (move_update r l)
  from assms(2) move_update have "lease_ok (r\<lparr>cr_updated_at := PStr (utc_text t)\<rparr>)"
    by (simp add: lease_ok_def leased_to_def)
  with assms(6) move_update show ?thesis by (cases x) (auto simp: leased_to_def)
next
  case (move_update_new r l)
  with assms(2) show ?thesis by (auto dest: find_lease_ok)
next
  case (move_lease r owner e)
  with assms(2,3) show ?thesis by (auto simp: lease_ok_def leased_to_def utc_text_inject)
next
  case (move_renew r owner e)
  with assms(2,3) show ?thesis by (auto simp: lease_ok_def leased_to_def status_defs)
next
  case (move_complete r owner r')
  with assms(2,3) show ?thesis by (auto simp: lease_ok_def leased_to_def status_defs)
next
  case (move_recover r)
  with assms(2,3) show ?thesis by (auto simp: lease_ok_def leased_to_def status_defs stale_def failed_stale_def utc_text_inject)
qed (use assms(3) in auto)

lemma created_chunk:
  assumes "store_ok s" "ledger_wf l" "chunk_at s k i = None" "chunk_at (apply_op s now t j (OpCreate l)) k i = Some r"
  shows "r \<in> set (bl_chunks l)"
  using assms find_Some_iff [of "\<lambda>x. cr_index x = i" "bl_chunks l" r]
  by (auto simp: chunk_at_def view_save nth_mem split: if_splits option.splits)

lemma file_others_keeps:
  assumes "chunks_ok k s" "file_others k owners now s s'"
  shows "chunks_ok k s'
    \<and> (\<forall>i owner x. file_chunk_holder k s i = Some (owner, x) \<longrightarrow> owner \<in> owners \<longrightarrow> now < x
         \<longrightarrow> file_chunk_holder k s' i = Some (owner, x))
    \<and> (\<forall>i. file_committed k s i \<longrightarrow> file_committed k s' i)"
proof -
  obtain t j op where op: "op_ok op" "others_op owners op" "s' = apply_op s now t j op" and kept: "chunks_kept s j op"
    using assms(2) by (auto simp: file_others_def)
  have ok: "store_ok s" using assms(1) by (simp add: chunks_ok_def)
  from apply_op_effect [OF ok op(1), of now t j] have eff: "op_effect s now t j op s'" by (simp add: op(3))
  have chunk: "(\<forall>r. chunk_at s' k i = Some r \<longrightarrow> lease_ok r)
    \<and> (\<forall>r owner e. chunk_at s k i = Some r \<longrightarrow> leased_to r owner e \<longrightarrow> owner \<in> owners \<longrightarrow> now < e
         \<longrightarrow> chunk_at s' k i = chunk_at s k i)
    \<and> (\<forall>r. chunk_at s k i = Some r \<longrightarrow> cr_status r = status_success \<longrightarrow> chunk_at s' k i = chunk_at s k i)" for i
  proof (cases "j = k")
    case True
    with eff have m: "chunk_move now t op i (chunk_at s k i) (chunk_at s' k i)" by (simp add: op_effect_def)
    show ?thesis
    proof (rule others_chunk [OF m op(2)])
      fix l assume "op = OpCreate l" "chunk_at s k i = None"
      with created_chunk [OF ok _ _, of l k i now t j] op show
        "chunk_at s' k i = None \<or> (\<exists>r\<in>set (bl_chunks l). chunk_at s' k i = Some r)"
        by (cases "chunk_at s' k i") auto
    next
      fix l assume save: "op = OpSave l" "chunk_at s k i \<noteq> None"
      then obtain c where c: "view s k = Some c" by (auto simp: chunk_at_def split: option.splits)
      with kept save(1) True have "bl_chunks l = bl_chunks c" by simp
      with save c op(1,3) True show "chunk_at s' k i = chunk_at s k i"
        by (cases "bl_run_key l = k") (simp_all add: chunk_at_def view_save)
    next
      fix l r c assume "op = OpUpdateChunk l r" "cr_index r = i" "chunk_at s k i = Some c"
      with kept True show "cr_status c \<notin> {status_success, status_running}"
        by (auto simp: chunk_at_def split: option.splits)
    qed (use assms(1) in \<open>simp add: chunks_ok_def\<close>)
  next
    case False
    with eff have "chunk_at s' k i = chunk_at s k i" by (simp add: op_effect_def chunk_at_def)
    with assms(1) show ?thesis by (auto simp: chunks_ok_def)
  qed
  then have ok': "chunks_ok k s'" using eff by (auto simp: chunks_ok_def op_effect_def)
  with chunk show ?thesis
    by (fastforce simp: file_holder_leased [OF assms(1)] file_holder_leased [OF ok'] file_committed_def split: option.splits)
qed

interpretation file_chunks: chunk_store "chunks_ok k" "file_chunk_holder k" "file_committed k" "file_ops k" "file_others k" for k
proof
  fix s s' :: fstore and now e :: instant and i and owner :: string and r and h owners
  assume ok: "chunks_ok k s"
  show "instant_valid e \<Longrightarrow> op_acquire (file_ops k) now s i owner e = Inr (True, s')
    \<Longrightarrow> chunks_ok k s' \<and> file_chunk_holder k s' = (file_chunk_holder k s)(i \<mapsto> (owner, e))
      \<and> file_committed k s' = file_committed k s \<and> (\<forall>o' x. file_chunk_holder k s i = Some (o', x) \<longrightarrow> x \<le> now)"
    using file_acquire_granted [OF ok] by (simp add: file_ops_def)
  show "instant_valid e \<Longrightarrow> op_renew (file_ops k) now s i owner e = Inr (True, s')
    \<Longrightarrow> chunks_ok k s' \<and> file_committed k s' = file_committed k s
      \<and> (\<exists>x. file_chunk_holder k s i = Some (owner, x)
           \<and> file_chunk_holder k s' = (file_chunk_holder k s)(i \<mapsto> (owner, max x e)))"
    using file_renew_granted [OF ok] by (simp add: file_ops_def)
  show "cr_status r \<in> {status_success, status_failed} \<Longrightarrow> op_complete (file_ops k) now s r owner = Inr (True, s')
    \<Longrightarrow> chunks_ok k s' \<and> (\<exists>x. file_chunk_holder k s (cr_index r) = Some (owner, x))
      \<and> file_chunk_holder k s' = (file_chunk_holder k s)(cr_index r := None)
      \<and> file_committed k s' = (file_committed k s)(cr_index r := cr_status r = status_success)"
    using file_complete_taken [OF ok] by (simp add: file_ops_def)
  show "op_acquire (file_ops k) now s i owner e = Inr (False, s') \<Longrightarrow> s' = s"
    "op_renew (file_ops k) now s i owner e = Inr (False, s') \<Longrightarrow> s' = s"
    "op_complete (file_ops k) now s r owner = Inr (False, s') \<Longrightarrow> s' = s"
    using refused_same [OF ok] by (simp_all add: file_ops_def)
  show "file_chunk_holder k s i = Some h \<Longrightarrow> \<not> file_committed k s i"
    by (cases h) (auto simp: file_holder_leased [OF ok] file_committed_def leased_to_def status_defs)
  show "file_others k owners now s s' \<Longrightarrow> chunks_ok k s'
      \<and> (\<forall>i owner x. file_chunk_holder k s i = Some (owner, x) \<longrightarrow> owner \<in> owners \<longrightarrow> now < x
           \<longrightarrow> file_chunk_holder k s' i = Some (owner, x))
      \<and> (\<forall>i. file_committed k s i \<longrightarrow> file_committed k s' i)"
    by (rule file_others_keeps [OF ok])
qed

abbreviation file_run :: "string \<Rightarrow> ledger \<Rightarrow> fstore exec_world \<Rightarrow> exec_label list \<Rightarrow> fstore exec_world \<Rightarrow> bool" where
  "file_run k \<equiv> exec_run (file_ops k) (file_others k)"

section \<open>Exclusive chunks\<close>

text \<open>
  C3: no chunk is run twice at a time. Whatever the lanes, their heartbeats, failing store calls
  and other threads that share the store object do, in any interleaving (raw saves of others
  carry the chunk records of the store, raw updates concern chunks that are neither finished nor
  running): a lane whose granted lease has not ended is the owner of its chunk in the store, and
  no two such lanes have the same chunk.
\<close>

theorem chunk_lanes_exclusive:
  assumes "file_run k l (exec_start now s workers pending) ls w" "chunks_ok k s"
    "i < length (ew_lanes w)" "lane_work (ln_state (ew_lanes w ! i)) = Some (c, owner)"
    "ln_until (ew_lanes w ! i) = Some u" "ew_now w < u"
  shows "(\<exists>r x. chunk_at (pl_store (ew_pool w)) k (bc_index c) = Some r \<and> leased_to r owner x \<and> u \<le> x)
    \<and> (\<forall>j c' owner' u'. j < length (ew_lanes w) \<longrightarrow> j \<noteq> i \<longrightarrow> lane_work (ln_state (ew_lanes w ! j)) = Some (c', owner')
         \<longrightarrow> ln_until (ew_lanes w ! j) = Some u' \<longrightarrow> ew_now w < u' \<longrightarrow> bc_index c' \<noteq> bc_index c)"
proof -
  have ok: "file_chunks.world_ok k w"
    by (rule file_chunks.exec_run_ok [OF assms(1) file_chunks.world_ok_start [OF assms(2)]])
  then have ch: "chunks_ok k (pl_store (ew_pool w))" by (simp add: file_chunks.world_ok_def)
  from file_chunks.world_ok_lane [OF ok assms(3)] assms(4-6) obtain x where
    "file_chunk_holder k (pl_store (ew_pool w)) (bc_index c) = Some (owner, x)" "u \<le> x"
    by (auto simp: file_chunks.lane_holds_def)
  then have "\<exists>r x. chunk_at (pl_store (ew_pool w)) k (bc_index c) = Some r \<and> leased_to r owner x \<and> u \<le> x"
    by (auto simp: file_holder_leased [OF ch])
  with file_chunks.lanes_exclusive [OF ok _ assms(3) _ _ assms(4) _ assms(5) _ assms(6)] show ?thesis by blast
qed

section \<open>Playing an execution\<close>

text \<open>A schedule of lane moves, for concrete executions.\<close>

definition working_owners :: "lane list \<Rightarrow> string list" where
  "working_owners lns = concat (map (\<lambda>ln. case lane_work (ln_state ln) of None \<Rightarrow> [] | Some (c, owner) \<Rightarrow> [owner]) lns)"

lemma lane_owners_working: "lane_owners lns = set (working_owners lns)"
proof -
  have "set (case x of None \<Rightarrow> [] | Some (c :: bf_chunk, owner) \<Rightarrow> [owner]) = {owner :: string. \<exists>c. x = Some (c, owner)}" for x
    by (cases x) (auto split: prod.split)
  then show ?thesis by (auto simp: lane_owners_def working_owners_def)
qed

fun exec_play :: "'s chunk_ops \<Rightarrow> ledger \<Rightarrow> 's exec_world \<Rightarrow> (nat \<times> lane_input) list \<Rightarrow> 's exec_world option" where
  "exec_play ops l w [] = Some w"
| "exec_play ops l w ((i, inp) # ms) =
     (if i < length (ew_lanes w) \<and> \<not> lane_over (ln_state (ew_lanes w ! i))
         \<and> input_ok (set (working_owners (ew_lanes w))) inp
      then exec_play ops l
        (set_lane i w (lane_move ops l (ew_now w) inp (ew_pool w) (ew_lanes w ! i) (ln_state (ew_lanes w ! i)))) ms
      else None)"

lemma exec_run_append: "exec_run ops env l w2 b w3 \<Longrightarrow> exec_run ops env l w1 a w2 \<Longrightarrow> exec_run ops env l w1 (a @ b) w3"
proof (induction rule: exec_run.induct)
  case (run_step w a' w' b' w'')
  then have "exec_run ops env l w1 ((a @ a') @ [b']) w''" by (blast intro: exec_run.run_step)
  then show ?case by simp
qed simp

lemma exec_play_run: "exec_play ops l w ms = Some w' \<Longrightarrow> exec_run ops env l w (map (MoveLane \<circ> fst) ms) w'"
proof (induction ops l w ms rule: exec_play.induct)
  case (2 ops l w i inp ms)
  then have "exec_step ops env l w (MoveLane i)
      (set_lane i w (lane_move ops l (ew_now w) inp (ew_pool w) (ew_lanes w ! i) (ln_state (ew_lanes w ! i))))"
    by (intro exec_lane) (auto simp: lane_owners_working split: if_splits)
  then have "exec_run ops env l w ([] @ [MoveLane i])
      (set_lane i w (lane_move ops l (ew_now w) inp (ew_pool w) (ew_lanes w ! i) (ln_state (ew_lanes w ! i))))"
    by (rule exec_run.run_step [OF exec_run.run_none])
  with 2 show ?case by (auto intro: exec_run_append dest: exec_run_append [rotated] split: if_splits)
qed (simp add: exec_run.run_none)

definition example_bf_chunk :: "int \<Rightarrow> bf_chunk" where
  "example_bf_chunk i = \<lparr>bc_index = i, bc_start = ''3'', bc_end = ''6'',
     bc_scope = \<lparr>rs_column = ''c'', rs_lower = None, rs_upper = None, rs_version = PInt 1\<rparr>, bc_key = ''k''\<rparr>"

definition example_chunks :: "bf_chunk list" where
  "example_chunks = map example_bf_chunk [1, 2]"

definition plan_ledger :: "bf_chunk list \<Rightarrow> ledger" where
  "plan_ledger cs = new_campaign_ledger ''rk'' ''d'' ''replace'' cs [] ''p'' ''c'' None"

definition plan_store :: "bf_chunk list \<Rightarrow> fstore" where
  "plan_store cs = fs_save empty_store (example_time 0) (plan_ledger cs)"

definition example_input :: "string \<Rightarrow> lane_input" where
  "example_input u = \<lparr>in_uuid = u, in_expiry = Inr (example_time 9), in_fault = None, in_hook = None,
     in_runner = Inr [(''extracted_rows'', PInt 5), (''loaded_rows'', PInt 5)], in_stop = None, in_report = None\<rparr>"

definition example_world :: "fstore exec_world" where
  "example_world = exec_start (example_time 1) (plan_store example_chunks) 2 example_chunks"

lemma plan_store_ok: "chunks_ok ''rk'' (plan_store cs)" "view (plan_store cs) ''rk'' = Some (stamped (example_time 0) (plan_ledger cs))"
proof -
  have wf: "ledger_wf (plan_ledger cs)"
    by (simp add: ledger_wf_def plan_ledger_def new_campaign_ledger_def list_all_iff chunk_record_wf_def
        pending_record_def status_pending_def)
  show v: "view (plan_store cs) ''rk'' = Some (stamped (example_time 0) (plan_ledger cs))"
    unfolding plan_store_def view_save [OF wf] by (simp add: plan_ledger_def new_campaign_ledger_def)
  have "lease_ok (pending_record c)" for c by (simp add: lease_ok_def pending_record_def status_defs)
  moreover have "store_ok (plan_store cs)"
    unfolding plan_store_def by (intro store_ok_save wf) simp
  ultimately show "chunks_ok ''rk'' (plan_store cs)"
    using v by (auto simp: chunks_ok_def chunk_at_def plan_ledger_def new_campaign_ledger_def stamped_def
        dest!: find_Some_iff [THEN iffD1])
qed

text \<open>Both lanes take a chunk and lease it, in turns; and one lane that runs both chunks.\<close>

definition example_schedule :: "(nat \<times> lane_input) list" where
  "example_schedule = concat (replicate 4 [(0, example_input ''A''), (1, example_input ''B'')])"

definition example_both :: "fstore exec_world" where
  "example_both = the (exec_play (file_ops ''rk'') (plan_ledger example_chunks) example_world example_schedule)"

definition example_work :: "(int \<times> string) option list" where
  "example_work = [Some (1, ''dpone-backfill-chunk:A''), Some (2, ''dpone-backfill-chunk:B'')]"

lemma example_both_play:
  "exec_play (file_ops ''rk'') (plan_ledger example_chunks) example_world example_schedule = Some example_both
   \<and> map (map_option (\<lambda>(c, owner). (bc_index c, owner)) \<circ> lane_work \<circ> ln_state) (ew_lanes example_both) = example_work
   \<and> map ln_until (ew_lanes example_both) = replicate 2 (Some (example_time 9))
   \<and> ew_now example_both = example_time 1"
proof -
  have "case exec_play (file_ops ''rk'') (plan_ledger example_chunks) example_world example_schedule of
      None \<Rightarrow> False
    | Some w \<Rightarrow> map (map_option (\<lambda>(c, owner). (bc_index c, owner)) \<circ> lane_work \<circ> ln_state) (ew_lanes w) = example_work
        \<and> map ln_until (ew_lanes w) = replicate 2 (Some (example_time 9)) \<and> ew_now w = example_time 1"
    by code_simp
  then show ?thesis by (auto simp: example_both_def split: option.splits)
qed

theorem chunk_lanes_exclusive_witness:
  "\<exists>ls r x. file_run ''rk'' (plan_ledger example_chunks) example_world ls example_both
     \<and> chunk_at (pl_store (ew_pool example_both)) ''rk'' 1 = Some r
     \<and> leased_to r ''dpone-backfill-chunk:A'' x \<and> example_time 9 \<le> x"
proof -
  have play: "exec_play (file_ops ''rk'') (plan_ledger example_chunks) example_world example_schedule = Some example_both"
    and work: "map (map_option (\<lambda>(c, owner). (bc_index c, owner)) \<circ> lane_work \<circ> ln_state) (ew_lanes example_both) = example_work"
    and until: "map ln_until (ew_lanes example_both) = replicate 2 (Some (example_time 9))"
    and now: "ew_now example_both = example_time 1"
    using example_both_play by blast+
  have len: "length (ew_lanes example_both) = 2" using arg_cong [OF until, of length] by simp
  have "map_option (\<lambda>(c, owner). (bc_index c, owner)) (lane_work (ln_state (ew_lanes example_both ! 0)))
      = Some (1, ''dpone-backfill-chunk:A'')"
    using arg_cong [OF work, of "\<lambda>xs. xs ! 0"] len by (simp add: example_work_def)
  then obtain c where c: "lane_work (ln_state (ew_lanes example_both ! 0)) = Some (c, ''dpone-backfill-chunk:A'')" "bc_index c = 1"
    by auto
  have u: "ln_until (ew_lanes example_both ! 0) = Some (example_time 9)"
    using arg_cong [OF until, of "\<lambda>xs. xs ! 0"] len by simp
  have "ew_now example_both < example_time 9" by (simp add: now example_time_def us_second_def)
  from chunk_lanes_exclusive [OF exec_play_run [OF play [unfolded example_world_def]] plan_store_ok(1) _ c(1) u this]
    exec_play_run [OF play] len c(2) show ?thesis by fastforce
qed

section \<open>Indexes, and the end of the campaign\<close>

definition known_chunks :: "string \<Rightarrow> fstore \<Rightarrow> int set" where
  "known_chunks k s = {i. chunk_at s k i \<noteq> None}"

lemma known_apply_op:
  assumes "store_ok s" "op_ok op" "known_chunks k s \<noteq> {}" "chunks_kept s j op"
  shows "known_chunks k (apply_op s now t j op) = known_chunks k s"
proof -
  from apply_op_effect [OF assms(1,2), of now t j] have eff: "op_effect s now t j op (apply_op s now t j op)" .
  have same: "apply_op s now t k op = s" if "op = OpCreate l" for l
  proof -
    from assms(3) have "view s k \<noteq> None" by (auto simp: known_chunks_def chunk_at_def split: option.splits)
    with that fs_load_view [OF assms(1), of k] show ?thesis by auto
  qed
  have "(chunk_at (apply_op s now t j op) k i = None) = (chunk_at s k i = None)" for i
  proof (cases "j = k")
    case True
    with eff have "chunk_move now t op i (chunk_at s k i) (chunk_at (apply_op s now t j op) k i)" by (simp add: op_effect_def)
    moreover from assms(3) obtain c where c: "view s k = Some c"
      by (auto simp: known_chunks_def chunk_at_def split: option.splits)
    moreover have "(chunk_at (apply_op s now t k op) k i = None) = (chunk_at s k i = None)" if "op = OpUpdateChunk l r" for l r
    proof (cases "bl_run_key l = k")
      case key: True
      from that assms(2) have "cr_status r \<noteq> []" by simp
      then obtain s' where s': "fs_update_chunk s t l r = Inr s'" "becomes s s' k (with_chunk t c r)"
        by (rule update_chunk_stored [OF assms(1) c key])
      with that key chunk_at_with_chunk [OF s'(2) c, of k i] assms(4) True c show ?thesis
        by (auto simp: kept_def split: option.splits)
    qed (use that in simp)
    ultimately show ?thesis
      using same True assms(4) by (cases rule: chunk_move.cases) (auto simp: chunk_at_def)
  next
    case False
    with eff show ?thesis by (simp add: op_effect_def chunk_at_def)
  qed
  then show ?thesis by (simp add: known_chunks_def)
qed

text \<open>A lane changes the store by operations of the store only.\<close>

definition store_event :: "fstore \<Rightarrow> fstore \<Rightarrow> bool" where
  "store_event s s' = (s' = s \<or> (\<exists>now t k op. op_ok op \<and> chunks_kept s k op \<and> s' = apply_op s now t k op))"

lemma call_event:
  assumes "call_store fault s r = (x, s')" "op_ok op" "chunks_kept s k op" "apply_op s now t k op = kept2 s r"
  shows "store_event s s'"
  using assms(1)
proof (cases rule: call_store_cases)
  case (2 a s1)
  with assms(4) have "s' = apply_op s now t k op" by (simp add: kept2_def)
  with assms(2,3) show ?thesis unfolding store_event_def by blast
qed (simp add: store_event_def)

lemma file_calls:
  "call_store fault s (op_acquire (file_ops k) now s i owner e) = (x, s') \<Longrightarrow> store_event s s'"
  "call_store fault s (op_renew (file_ops k) now s i owner e) = (x, s') \<Longrightarrow> store_event s s'"
  "cr_status r \<in> {status_success, status_failed} \<Longrightarrow> call_store fault s (op_complete (file_ops k) now s r owner) = (x, s')
    \<Longrightarrow> store_event s s'"
  by (erule call_event [where op = "OpAcquireChunk i owner e" and now = now and t = now and k = k], simp_all add: file_ops_def)
    (erule call_event [where op = "OpRenewChunk i owner e" and now = now and t = now and k = k], simp_all add: file_ops_def,
     erule call_event [where op = "OpComplete r owner" and now = now and t = now and k = k], auto simp: file_ops_def status_defs)

lemma store_event_refl [simp]: "store_event s s"
  by (simp add: store_event_def)

lemma renew_once_event: "renew_once (file_ops k) now inp p ln c owner = (b, p', ln') \<Longrightarrow> store_event (pl_store p) (pl_store p')"
  by (auto simp: renew_once_def split: sum.splits prod.splits if_splits dest: file_calls(2))

lemma lane_move_event:
  assumes "lane_move (file_ops k) l now inp p ln (ln_state ln) = (p', ln')" "lane_record_ok (ln_state ln)"
  shows "store_event (pl_store p) (pl_store p')"
proof (cases "ln_state ln")
  case (LaneReporting c r owner m)
  then have "cr_status r \<in> {status_success, status_failed}" using assms(2) by simp
  with LaneReporting assms(1) show ?thesis
    by (auto simp: lane_reporting_def split: sum.splits prod.splits if_splits option.splits intro: file_calls(3))
next
  case (LaneFinishing c r owner)
  then have "cr_status r \<in> {status_success, status_failed}" using assms(2) by simp
  with LaneFinishing assms(1) show ?thesis
    by (auto simp: lane_finishing_def split: sum.splits prod.splits if_splits option.splits intro: file_calls(3))
qed (use assms in \<open>auto simp: lane_step_defs split: sum.splits prod.splits if_splits list.splits option.splits
      dest: renew_once_event file_calls(1)\<close>)

lemma exec_step_event:
  assumes "exec_step (file_ops k) (file_others k) l w b w'" "file_chunks.world_ok k w"
  shows "store_event (pl_store (ew_pool w)) (pl_store (ew_pool w'))"
  using assms(1)
proof (cases rule: exec_step.cases)
  case (exec_others s)
  then show ?thesis by (auto simp: file_others_def store_event_def)
next
  case (exec_lane i ln inp)
  obtain p' ln' where m: "lane_move (file_ops k) l (ew_now w) inp (ew_pool w) ln (ln_state ln) = (p', ln')" by fastforce
  from lane_move_event [OF m] exec_lane m file_chunks.world_ok_lane [OF assms(2), of i] show ?thesis by simp
next
  case (exec_beat i ln c owner inp)
  then show ?thesis by (auto simp: heartbeat_round_def split: prod.splits dest: renew_once_event)
qed simp_all

lemma exec_run_known:
  "file_run k l w ls w' \<Longrightarrow> file_chunks.world_ok k w \<Longrightarrow> known_chunks k (pl_store (ew_pool w)) \<noteq> {}
    \<Longrightarrow> known_chunks k (pl_store (ew_pool w')) = known_chunks k (pl_store (ew_pool w))"
proof (induction rule: exec_run.induct)
  case (run_step w a w' b w'')
  have ok: "file_chunks.world_ok k w'" by (rule file_chunks.exec_run_ok [OF run_step.hyps(1) run_step.prems(1)])
  then have "store_ok (pl_store (ew_pool w'))" by (simp add: file_chunks.world_ok_def chunks_ok_def)
  moreover have "known_chunks k (pl_store (ew_pool w')) = known_chunks k (pl_store (ew_pool w))" using run_step by blast
  ultimately show ?case
    using exec_step_event [OF run_step.hyps(2) ok] run_step.prems(2) known_apply_op [of "pl_store (ew_pool w')" _ k]
    by (auto simp: store_event_def)
qed simp

lemma exec_run_committed:
  "file_run k l w ls w' \<Longrightarrow> file_chunks.world_ok k w \<Longrightarrow> file_committed k (pl_store (ew_pool w)) i
    \<Longrightarrow> file_committed k (pl_store (ew_pool w')) i"
proof (induction rule: exec_run.induct)
  case (run_step w a w' b w'')
  have "file_chunks.world_ok k w'" by (rule file_chunks.exec_run_ok [OF run_step.hyps(1) run_step.prems(1)])
  with file_chunks.exec_step_committed [OF run_step.hyps(2)] run_step show ?case by blast
qed

lemma find_index_distinct:
  "distinct (map cr_index rs) \<Longrightarrow> r \<in> set rs \<Longrightarrow> find (\<lambda>x. cr_index x = cr_index r) rs = Some r"
  by (induction rs) (auto simp: rev_image_eqI)

lemma committed_index_at:
  "i \<in> committed_indexes l \<Longrightarrow> view s k = Some l \<Longrightarrow> chunk_at s k i \<noteq> None"
  by (auto simp: committed_indexes_def chunk_at_def find_None_iff)

lemma file_committed_index: "file_committed k s i \<Longrightarrow> view s k = Some l \<Longrightarrow> i \<in> committed_indexes l"
  by (force simp: file_committed_def chunk_at_def committed_indexes_def find_Some_iff split: option.splits)

text \<open>
  C5: an execution that keeps its gate open completes the campaign. Let the lanes run the
  chunks that are not committed in the ledger of the plan. When all lanes are over and none
  closed the gate, then, cancelled or not, the record of every chunk of the plan is a success in
  the store and no error was recorded; and the campaign counts as completed exactly when it was
  not cancelled meanwhile.
\<close>

theorem open_run_completes_campaign:
  assumes "file_run k l (exec_start now s workers pending) ls w" "chunks_ok k s"
    "select_pending_chunks chunks l0 PNone = Inr pending" "view s k = Some l0"
    "map cr_index (bl_chunks l0) = map bc_index chunks" "distinct (map bc_index chunks)" "chunks \<noteq> []"
    "\<forall>ln\<in>set (ew_lanes w). lane_over (ln_state ln)" "\<not> pl_closed (ew_pool w)"
    "view (pl_store (ew_pool w)) k = Some l'"
  shows "(\<forall>c\<in>set chunks. \<exists>r. chunk_at (pl_store (ew_pool w)) k (bc_index c) = Some r \<and> cr_status r = status_success)
    \<and> exec_errors w = [] \<and> campaign_completed l' chunks (exec_errors w) = (\<not> cancel_requested l')"
proof -
  let ?s = "pl_store (ew_pool w)" and ?w0 = "exec_start now s workers pending"
  have w0: "file_chunks.world_ok k ?w0" by (rule file_chunks.world_ok_start [OF assms(2)])
  have pend: "pending = filter (\<lambda>c. bc_index c \<notin> committed_indexes l0) chunks"
    using assms(3) by (simp add: select_pending_chunks_def normalize_retry_policy_def)
  have quiet: "exec_errors w = []"
    by (rule quiet_errors [OF exec_run_quiet [OF assms(1) gate_quiet_start] assms(9)])
  have index_at: "chunk_at s k i = find (\<lambda>r. cr_index r = i) (bl_chunks l0)" for i
    using assms(4) by (simp add: chunk_at_def)
  have "known_chunks k s = cr_index ` set (bl_chunks l0)"
    by (force simp: known_chunks_def index_at find_None_iff)
  also have "\<dots> = bc_index ` set chunks" using arg_cong [OF assms(5), of set] by simp
  finally have known: "known_chunks k s = bc_index ` set chunks" .
  have comm: "file_committed k ?s (bc_index c)" if c: "c \<in> set chunks" for c
  proof (cases "c \<in> set pending")
    case True
    from file_chunks.open_run_commits [OF assms(1,2,8,9) True] show ?thesis .
  next
    case False
    with c pend obtain r where r: "r \<in> set (bl_chunks l0)" "cr_index r = bc_index c" "cr_status r = status_success"
      by (auto simp: committed_indexes_def)
    from find_index_distinct [OF _ r(1)] assms(5,6) r(2,3) have "file_committed k s (bc_index c)"
      by (simp add: file_committed_def index_at)
    with exec_run_committed [OF assms(1) w0] show ?thesis by simp
  qed
  have "known_chunks k (pl_store (ew_pool ?w0)) \<noteq> {}" using known assms(7) by simp
  from exec_run_known [OF assms(1) w0 this] known have known': "known_chunks k ?s = bc_index ` set chunks" by simp
  have "committed_indexes l' = bc_index ` set chunks"
  proof
    show "committed_indexes l' \<subseteq> bc_index ` set chunks"
      using committed_index_at [OF _ assms(10)] known' by (auto simp: known_chunks_def)
    show "bc_index ` set chunks \<subseteq> committed_indexes l'"
      using comm file_committed_index [OF _ assms(10)] by blast
  qed
  moreover have "card (bc_index ` set chunks) = length chunks"
    using distinct_card [OF assms(6)] by simp
  ultimately have "campaign_completed l' chunks (exec_errors w) = (\<not> cancel_requested l')"
    using quiet by (simp add: campaign_completed_def)
  moreover have "\<exists>r. chunk_at ?s k (bc_index c) = Some r \<and> cr_status r = status_success" if "c \<in> set chunks" for c
    using comm [OF that] by (auto simp: file_committed_def split: option.splits)
  ultimately show ?thesis using quiet by blast
qed

text \<open>One lane that runs one chunk.\<close>

definition example_single :: "fstore exec_world option" where
  "example_single = exec_play (file_ops ''rk'') (plan_ledger [example_bf_chunk 1])
     (exec_start (example_time 1) (plan_store [example_bf_chunk 1]) 1 [example_bf_chunk 1])
     (replicate 4 (0, example_input ''A'') @ replicate 7 (0, example_input ''B''))"

lemma example_single_play:
  "\<exists>w l'. example_single = Some w \<and> (\<forall>ln\<in>set (ew_lanes w). lane_over (ln_state ln)) \<and> \<not> pl_closed (ew_pool w)
     \<and> view (pl_store (ew_pool w)) ''rk'' = Some l' \<and> \<not> cancel_requested l'"
proof -
  have "case example_single of
      None \<Rightarrow> False
    | Some w \<Rightarrow> list_all (lane_over \<circ> ln_state) (ew_lanes w) \<and> \<not> pl_closed (ew_pool w)
        \<and> (case view (pl_store (ew_pool w)) ''rk'' of None \<Rightarrow> False | Some l' \<Rightarrow> \<not> cancel_requested l')"
    by code_simp
  then show ?thesis by (auto simp: list_all_iff split: option.splits)
qed

theorem open_run_completes_campaign_witness:
  "\<exists>w l'. example_single = Some w \<and> view (pl_store (ew_pool w)) ''rk'' = Some l'
     \<and> campaign_completed l' [example_bf_chunk 1] (exec_errors w)"
proof -
  obtain w l' where w: "example_single = Some w" "\<forall>ln\<in>set (ew_lanes w). lane_over (ln_state ln)" "\<not> pl_closed (ew_pool w)"
    "view (pl_store (ew_pool w)) ''rk'' = Some l'" "\<not> cancel_requested l'" using example_single_play by blast
  have "select_pending_chunks [example_bf_chunk 1] (stamped (example_time 0) (plan_ledger [example_bf_chunk 1])) PNone
      = Inr [example_bf_chunk 1]" by code_simp
  from open_run_completes_campaign [OF exec_play_run [OF w(1) [unfolded example_single_def]] plan_store_ok(1) this
      plan_store_ok(2) _ _ _ w(2-4)] w(5) have "campaign_completed l' [example_bf_chunk 1] (exec_errors w)"
    by (auto simp: plan_ledger_def new_campaign_ledger_def pending_record_def)
  with w show ?thesis by blast
qed

section \<open>The gate and the end of an execution\<close>

text \<open>
  A closed gate admits nothing. Once the admission gate is closed (by a failure, a
  refused claim or the coordinator), it stays closed, and a lane works on a chunk only under
  the lease it had when the gate closed: running chunks finish, no new one is claimed.
\<close>

theorem closed_gate_admits_nothing:
  assumes "file_run k l w ls w'" "pl_closed (ew_pool w)"
  shows "pl_closed (ew_pool w') \<and> (\<forall>i<length (ew_lanes w). lane_work (ln_state (ew_lanes w' ! i)) = None
    \<or> lane_work (ln_state (ew_lanes w' ! i)) = lane_work (ln_state (ew_lanes w ! i)))"
  using exec_run_closed [OF assms] by (simp add: leases_within_def)

definition example_closed :: "fstore exec_world" where
  "example_closed = coordinator_failed (exec_start (example_time 1) (plan_store example_chunks) 2 example_chunks)"

theorem closed_gate_admits_nothing_witness:
  "\<exists>w'. exec_play (file_ops ''rk'') (plan_ledger example_chunks) example_closed [(0, example_input ''A'')] = Some w'
     \<and> pl_closed (ew_pool w') \<and> lane_work (ln_state (ew_lanes w' ! 1)) = None"
proof -
  have "case exec_play (file_ops ''rk'') (plan_ledger example_chunks) example_closed [(0, example_input ''A'')] of
      None \<Rightarrow> False | Some w \<Rightarrow> True" by code_simp
  then obtain w' where w': "exec_play (file_ops ''rk'') (plan_ledger example_chunks) example_closed [(0, example_input ''A'')] = Some w'"
    by (auto split: option.splits)
  have len: "lane_count 2 example_chunks = 2" by (simp add: lane_count_def example_chunks_def)
  have "pl_closed (ew_pool example_closed)" by (simp add: example_closed_def)
  from closed_gate_admits_nothing [OF exec_play_run [OF w'] this] w' show ?thesis
    by (auto simp: example_closed_def len)
qed

text \<open>
  C26: an execution ends. With \<open>n\<close> chunks and \<open>m\<close> lanes the lanes make at most \<open>9 n + 2 m\<close>
  moves, whatever store calls and runners do; and as long as a lane is not over, some lane
  can move, with any input that is allowed. So nothing waits for anything, and every
  execution in which lanes keep moving comes to an end.
\<close>

theorem execution_bounded:
  assumes "file_run k l (exec_start now s workers pending) ls w"
  shows "length (filter lane_label ls) \<le> 9 * length pending + 2 * lane_count workers pending
    \<and> ((\<forall>ln\<in>set (ew_lanes w). lane_over (ln_state ln))
       \<or> (\<exists>i. \<forall>inp. input_ok (lane_owners (ew_lanes w)) inp
            \<longrightarrow> (\<exists>w'. exec_step (file_ops k) (file_others k) l w (MoveLane i) w')))"
proof -
  have "length (filter lane_label ls) \<le> 9 * length pending + 2 * lane_count workers pending"
    using exec_run_measure [OF assms] by (simp add: exec_measure_start)
  moreover have "\<exists>w'. exec_step (file_ops k) (file_others k) l w (MoveLane i) w'"
    if "i < length (ew_lanes w)" "\<not> lane_over (ln_state (ew_lanes w ! i))" "input_ok (lane_owners (ew_lanes w)) inp" for i inp
    using exec_lane [OF that(1) refl that(2,3)] by blast
  ultimately show ?thesis by (metis in_set_conv_nth)
qed

theorem execution_bounded_witness:
  "length example_schedule \<le> 9 * length example_chunks + 2 * lane_count 2 example_chunks"
proof -
  have "filter lane_label (map (MoveLane \<circ> fst) ms) = map (MoveLane \<circ> fst) ms" for ms :: "(nat \<times> lane_input) list"
    by (induction ms) auto
  with execution_bounded [OF exec_play_run [OF conjunct1 [OF example_both_play, unfolded example_world_def]]]
  show ?thesis by simp
qed

end
