(* ===== verification/Orch_State.thy ===== *)
theory Orch_State
  imports Py_Value
begin

text \<open>
  The durable job state of orchestrated runs (\<open>src/dpone/orchestration/state.py\<close>,
  \<open>resume.py\<close>): the state record and its document, the local store (one JSON file per run,
  named after the sanitised run id), the no-op store, and the resume policy. A file that
  does not hold a JSON document is \<open>None\<close>; the store's clock text is an argument.
\<close>

section \<open>The job state\<close>

record job_state =
  js_run_id :: string
  js_process :: string
  js_manifest_path :: string
  js_selector :: "string option"
  js_lock_key :: string
  js_status :: string
  js_started_at :: string
  js_updated_at :: string
  js_attempt :: int
  js_transitions :: "string list"
  js_blockers :: "string list"
  js_run_result :: "(string \<times> pyval) list"
  js_output_dir :: string
  js_state_path :: string
  js_resumable :: bool

definition opt_text :: "string option \<Rightarrow> pyval" where
  "opt_text v = (case v of None \<Rightarrow> PNone | Some s \<Rightarrow> PStr s)"

definition job_state_to_dict :: "job_state \<Rightarrow> (string \<times> pyval) list" where
  "job_state_to_dict s =
     [(''run_id'', PStr (js_run_id s)), (''process'', PStr (js_process s)),
      (''manifest_path'', PStr (js_manifest_path s)), (''selector'', opt_text (js_selector s)),
      (''lock_key'', PStr (js_lock_key s)), (''status'', PStr (js_status s)),
      (''started_at'', PStr (js_started_at s)), (''updated_at'', PStr (js_updated_at s)),
      (''attempt'', PInt (js_attempt s)), (''transitions'', PList (map PStr (js_transitions s))),
      (''blockers'', PList (map PStr (js_blockers s))), (''run_result'', PDict (js_run_result s)),
      (''output_dir'', PStr (js_output_dir s)), (''state_path'', PStr (js_state_path s)),
      (''resumable'', PBool (js_resumable s))]"

text \<open>\<open>str(payload.get(k, default))\<close>, and the reader of a document.\<close>

definition payload_str :: "(string \<times> pyval) list \<Rightarrow> string \<Rightarrow> string \<Rightarrow> string" where
  "payload_str d k dflt = py_str (py_get_default d k (PStr dflt))"

definition payload_strings :: "(string \<times> pyval) list \<Rightarrow> string \<Rightarrow> string list res" where
  "payload_strings d k = bind_res (py_iter (py_get_default d k (PList []))) (\<lambda>xs. Inr (only_strings xs))"

definition job_state_from_payload :: "(string \<times> pyval) list \<Rightarrow> string \<Rightarrow> job_state res" where
  "job_state_from_payload d path =
     bind_res (py_to_int (py_get_default d ''attempt'' (PInt 0))) (\<lambda>attempt.
     bind_res (payload_strings d ''transitions'') (\<lambda>transitions.
     bind_res (payload_strings d ''blockers'') (\<lambda>blockers.
       Inr \<lparr>js_run_id = payload_str d ''run_id'' [], js_process = payload_str d ''process'' [],
            js_manifest_path = payload_str d ''manifest_path'' [],
            js_selector = (case py_get d ''selector'' of PStr s \<Rightarrow> Some s | _ \<Rightarrow> None),
            js_lock_key = payload_str d ''lock_key'' [], js_status = payload_str d ''status'' ''unknown'',
            js_started_at = payload_str d ''started_at'' [], js_updated_at = payload_str d ''updated_at'' [],
            js_attempt = attempt, js_transitions = transitions, js_blockers = blockers,
            js_run_result = (case py_get d ''run_result'' of PDict r \<Rightarrow> r | _ \<Rightarrow> []),
            js_output_dir = payload_str d ''output_dir'' [], js_state_path = path,
            js_resumable = py_truthy (py_get_default d ''resumable'' (PBool False))\<rparr>)))"

section \<open>File names\<close>

text \<open>
  \<open>re.sub(r'[^A-Za-z0-9_.-]+', '_', text).strip('._') or 'default'\<close>: different ids can share a
  name.
\<close>

definition is_safe_char :: "char \<Rightarrow> bool" where
  "is_safe_char c = (let n = code_of c in
     (65 \<le> n \<and> n \<le> 90) \<or> (97 \<le> n \<and> n \<le> 122) \<or> (48 \<le> n \<and> n \<le> 57) \<or> c \<in> set ''_.-'')"

fun squeeze_unsafe :: "bool \<Rightarrow> string \<Rightarrow> string" where
  "squeeze_unsafe inside [] = []"
| "squeeze_unsafe inside (c # cs) =
     (if is_safe_char c then c # squeeze_unsafe False cs
      else if inside then squeeze_unsafe True cs
      else CHR ''_'' # squeeze_unsafe True cs)"

definition strip_chars :: "string \<Rightarrow> string \<Rightarrow> string" where
  "strip_chars cs s = rev (dropWhile (\<lambda>c. c \<in> set cs) (rev (dropWhile (\<lambda>c. c \<in> set cs) s)))"

definition safe_name :: "string \<Rightarrow> string" where
  "safe_name s = (let t = strip_chars ''._'' (squeeze_unsafe False s) in if t = [] then ''default'' else t)"

section \<open>The local store\<close>

type_synonym job_files = "(string, pyval option) dict"

definition job_path :: "string \<Rightarrow> string \<Rightarrow> string" where
  "job_path dir run_id = dir @ ''/'' @ safe_name run_id @ ''.job_state.json''"

definition job_payload :: "pyval option \<Rightarrow> (string \<times> pyval) list" where
  "job_payload content = (case content of Some (PDict d) \<Rightarrow> d | _ \<Rightarrow> [])"

definition job_get :: "string \<Rightarrow> job_files \<Rightarrow> string \<Rightarrow> job_state option res" where
  "job_get dir files run_id =
     (case dict_get files (job_path dir run_id) of
        None \<Rightarrow> Inr None
      | Some content \<Rightarrow>
          bind_res (job_state_from_payload (job_payload content) (job_path dir run_id)) (\<lambda>s. Inr (Some s)))"

definition job_write :: "string \<Rightarrow> job_files \<Rightarrow> job_state \<Rightarrow> job_state \<times> job_files" where
  "job_write dir files s =
     (s, dict_set files (job_path dir (js_run_id s)) (Some (PDict (job_state_to_dict s))))"

definition append_transition :: "job_state option \<Rightarrow> string \<Rightarrow> string list" where
  "append_transition previous status =
     (case previous of
        None \<Rightarrow> [status]
      | Some p \<Rightarrow>
          if js_transitions p \<noteq> [] \<and> last (js_transitions p) = status then js_transitions p
          else js_transitions p @ [status])"

record start_args =
  sa_run_id :: string
  sa_process :: string
  sa_manifest_path :: string
  sa_selector :: "string option"
  sa_lock_key :: string
  sa_output_dir :: string

definition job_mark_started :: "string \<Rightarrow> string \<Rightarrow> job_files \<Rightarrow> start_args \<Rightarrow> (job_state \<times> job_files) res" where
  "job_mark_started dir now files a =
     bind_res (job_get dir files (sa_run_id a)) (\<lambda>previous.
       Inr (job_write dir files
         \<lparr>js_run_id = sa_run_id a, js_process = sa_process a, js_manifest_path = sa_manifest_path a,
          js_selector = sa_selector a, js_lock_key = sa_lock_key a, js_status = ''started'',
          js_started_at = (case previous of None \<Rightarrow> now | Some p \<Rightarrow> js_started_at p),
          js_updated_at = now, js_attempt = 0, js_transitions = append_transition previous ''started'',
          js_blockers = [], js_run_result = [], js_output_dir = sa_output_dir a,
          js_state_path = job_path dir (sa_run_id a), js_resumable = False\<rparr>))"

definition created_state :: "string \<Rightarrow> string \<Rightarrow> string \<Rightarrow> job_state" where
  "created_state path now run_id =
     \<lparr>js_run_id = run_id, js_process = [], js_manifest_path = [], js_selector = None, js_lock_key = [],
      js_status = ''created'', js_started_at = now, js_updated_at = now, js_attempt = 0,
      js_transitions = [], js_blockers = [], js_run_result = [], js_output_dir = [],
      js_state_path = path, js_resumable = False\<rparr>"

definition job_transition ::
  "string \<Rightarrow> string \<Rightarrow> job_files \<Rightarrow> string \<Rightarrow> string \<Rightarrow> int option \<Rightarrow> string list \<Rightarrow> (string \<times> pyval) list \<Rightarrow> bool
    \<Rightarrow> (job_state \<times> job_files) res" where
  "job_transition dir now files run_id status attempt blockers run_result resumable =
     bind_res (job_get dir files run_id) (\<lambda>found.
       let previous = (case found of Some p \<Rightarrow> p | None \<Rightarrow> created_state (job_path dir run_id) now run_id) in
       Inr (job_write dir files
         \<lparr>js_run_id = js_run_id previous, js_process = js_process previous,
          js_manifest_path = js_manifest_path previous, js_selector = js_selector previous,
          js_lock_key = js_lock_key previous, js_status = status, js_started_at = js_started_at previous,
          js_updated_at = now,
          js_attempt = (case attempt of Some n \<Rightarrow> n | None \<Rightarrow> js_attempt previous),
          js_transitions = append_transition (Some previous) status, js_blockers = blockers,
          js_run_result = (if run_result = [] then js_run_result previous else run_result),
          js_output_dir = js_output_dir previous, js_state_path = job_path dir run_id,
          js_resumable = resumable\<rparr>))"

section \<open>The store interface and its two providers\<close>

record 's job_ops =
  jo_get :: "'s \<Rightarrow> string \<Rightarrow> job_state option res"
  jo_started :: "'s \<Rightarrow> start_args \<Rightarrow> (job_state \<times> 's) res"
  jo_running :: "'s \<Rightarrow> string \<Rightarrow> int \<Rightarrow> (job_state \<times> 's) res"
  jo_committed :: "'s \<Rightarrow> string \<Rightarrow> (string \<times> pyval) list \<Rightarrow> (job_state \<times> 's) res"
  jo_failed :: "'s \<Rightarrow> string \<Rightarrow> string list \<Rightarrow> (string \<times> pyval) list \<Rightarrow> (job_state \<times> 's) res"
  jo_blocked :: "'s \<Rightarrow> string \<Rightarrow> string list \<Rightarrow> (job_state \<times> 's) res"

definition local_job_ops :: "string \<Rightarrow> string \<Rightarrow> job_files job_ops" where
  "local_job_ops dir now =
     \<lparr>jo_get = job_get dir,
      jo_started = job_mark_started dir now,
      jo_running = (\<lambda>files run_id attempt. job_transition dir now files run_id ''running'' (Some attempt) [] [] False),
      jo_committed = (\<lambda>files run_id result. job_transition dir now files run_id ''committed'' None [] result False),
      jo_failed = (\<lambda>files run_id blockers result. job_transition dir now files run_id ''failed'' None blockers result True),
      jo_blocked = (\<lambda>files run_id blockers. job_transition dir now files run_id ''blocked'' None blockers [] True)\<rparr>"

definition noop_state :: "string \<Rightarrow> string \<Rightarrow> string \<Rightarrow> int \<Rightarrow> string list \<Rightarrow> (string \<times> pyval) list \<Rightarrow> bool \<Rightarrow> job_state" where
  "noop_state now run_id status attempt blockers run_result resumable =
     (created_state [] now run_id)\<lparr>js_status := status, js_attempt := attempt, js_transitions := [status],
       js_blockers := blockers, js_run_result := run_result, js_resumable := resumable\<rparr>"

definition noop_started :: "string \<Rightarrow> start_args \<Rightarrow> job_state" where
  "noop_started now a =
     (noop_state now (sa_run_id a) ''started'' 0 [] [] False)\<lparr>js_process := sa_process a,
       js_manifest_path := sa_manifest_path a, js_selector := sa_selector a, js_lock_key := sa_lock_key a,
       js_output_dir := sa_output_dir a\<rparr>"

definition noop_job_ops :: "string \<Rightarrow> unit job_ops" where
  "noop_job_ops now =
     \<lparr>jo_get = (\<lambda>s run_id. Inr None),
      jo_started = (\<lambda>s a. Inr (noop_started now a, s)),
      jo_running = (\<lambda>s run_id attempt. Inr (noop_state now run_id ''running'' attempt [] [] False, s)),
      jo_committed = (\<lambda>s run_id result. Inr (noop_state now run_id ''committed'' 0 [] result False, s)),
      jo_failed = (\<lambda>s run_id blockers result. Inr (noop_state now run_id ''failed'' 0 blockers result True, s)),
      jo_blocked = (\<lambda>s run_id blockers. Inr (noop_state now run_id ''blocked'' 0 blockers [] True, s))\<rparr>"

section \<open>The resume policy\<close>

record resume_decision =
  rd_allowed :: bool
  rd_policy :: string
  rd_blockers :: "string list"

definition supported_policies :: "string list" where
  "supported_policies = [''fail'', ''resume'', ''restart'']"

definition resume_decide :: "job_state option \<Rightarrow> string \<Rightarrow> resume_decision" where
  "resume_decide previous policy =
     (let p = (if policy \<in> set supported_policies then policy else ''fail'');
          yes = \<lparr>rd_allowed = True, rd_policy = p, rd_blockers = []\<rparr>;
          no = (\<lambda>b. \<lparr>rd_allowed = False, rd_policy = p, rd_blockers = [b]\<rparr>) in
      case previous of
        None \<Rightarrow> yes
      | Some s \<Rightarrow>
          if js_status s = ''committed'' \<and> p \<noteq> ''restart'' then no ''job_state.already_committed''
          else if js_status s = ''running'' then no ''job_state.already_running''
          else if js_resumable s \<and> p = ''fail'' then no ''job_state.resume_required''
          else yes)"

section \<open>Lemmas\<close>

lemma payload_strings_map: "py_get_default d k (PList []) = PList (map PStr ss) \<Longrightarrow> payload_strings d k = Inr ss"
  by (simp add: payload_strings_def py_iter_def)

text \<open>Every state is read back from its document, at the path it is read from.\<close>

lemma job_state_roundtrip: "job_state_from_payload (job_state_to_dict s) path = Inr (s\<lparr>js_state_path := path\<rparr>)"
  by (cases s; cases "js_selector s")
    (simp_all add: job_state_from_payload_def job_state_to_dict_def payload_strings_map payload_str_def
      py_str_def py_to_int_def opt_text_def)

lemma job_get_write:
  "job_write dir files s = (s', files') \<Longrightarrow> js_state_path s = job_path dir (js_run_id s)
    \<Longrightarrow> s' = s \<and> job_get dir files' (js_run_id s) = Inr (Some s)"
  by (auto simp: job_write_def job_get_def job_payload_def job_state_roundtrip)

end
