(* ===== verification/Orch_Locks.thy ===== *)
theory Orch_Locks
  imports Complex_Main Orch_State
begin

text \<open>
  The run lock of the orchestrator (\<open>src/dpone/orchestration/locks.py\<close>): one JSON file per
  concurrency key, created exclusively, replaced when its time to live is over. First the
  operations as one process runs them alone, then every system call of \<open>acquire\<close> as a step
  of its own, so that two processes can interleave. \<open>time.time()\<close> is a rational number of
  seconds; a file whose bytes are not the JSON of an object is \<open>None\<close>.
\<close>

section \<open>Lock files and locks\<close>

datatype lock_value = LText string | LNum rat | LOther

type_synonym lock_doc = "(string \<times> lock_value) list"
type_synonym lock_files = "(string, lock_doc option) dict"

record run_lock =
  rl_key :: string
  rl_token :: string
  rl_path :: string
  rl_acquired :: bool
  rl_stale_replaced :: bool
  rl_blocker :: "string option"

definition lock_path :: "string \<Rightarrow> string \<Rightarrow> string" where
  "lock_path dir key = dir @ ''/'' @ safe_name key @ ''.lock.json''"

definition lock_payload :: "lock_doc option \<Rightarrow> lock_doc" where
  "lock_payload content = (case content of None \<Rightarrow> [] | Some d \<Rightarrow> d)"

definition lock_created_at :: "lock_doc \<Rightarrow> rat" where
  "lock_created_at d = (case map_of d ''created_at_epoch'' of Some (LNum t) \<Rightarrow> t | _ \<Rightarrow> 0)"

text \<open>The condition under which a lock file is kept.\<close>

definition lock_fresh :: "lock_doc option \<Rightarrow> int \<Rightarrow> rat \<Rightarrow> bool" where
  "lock_fresh content ttl now =
     (let created = lock_created_at (lock_payload content) in
      0 < created \<and> now - created \<le> of_int (max 1 ttl))"

definition remove_stale :: "lock_files \<Rightarrow> string \<Rightarrow> int \<Rightarrow> rat \<Rightarrow> bool \<times> lock_files" where
  "remove_stale files path ttl now =
     (case dict_get files path of
        None \<Rightarrow> (False, files)
      | Some content \<Rightarrow> if lock_fresh content ttl now then (False, files) else (True, AList.delete path files))"

definition lock_document :: "string \<Rightarrow> string \<Rightarrow> rat \<Rightarrow> lock_doc" where
  "lock_document key token now = [(''key'', LText key), (''token'', LText token), (''created_at_epoch'', LNum now)]"

text \<open>\<open>time.time()\<close> is read twice: for the age of the present file and for the new document.\<close>

definition lock_acquire ::
  "string \<Rightarrow> lock_files \<Rightarrow> string \<Rightarrow> int \<Rightarrow> rat \<Rightarrow> rat \<Rightarrow> string \<Rightarrow> run_lock \<times> lock_files" where
  "lock_acquire dir files key ttl now now' token =
     (let path = lock_path dir key; (replaced, files1) = remove_stale files path ttl now in
      case dict_get files1 path of
        Some _ \<Rightarrow> (\<lparr>rl_key = key, rl_token = [], rl_path = path, rl_acquired = False,
                   rl_stale_replaced = replaced, rl_blocker = Some ''lock.concurrent_run''\<rparr>, files1)
      | None \<Rightarrow> (\<lparr>rl_key = key, rl_token = token, rl_path = path, rl_acquired = True,
                 rl_stale_replaced = replaced, rl_blocker = None\<rparr>,
                dict_set files1 path (Some (lock_document key token now'))))"

definition lock_owned_by :: "lock_doc option \<Rightarrow> string \<Rightarrow> bool" where
  "lock_owned_by content token = (map_of (lock_payload content) ''token'' = Some (LText token))"

definition lock_release :: "lock_files \<Rightarrow> run_lock \<Rightarrow> lock_files" where
  "lock_release files l =
     (if \<not> rl_acquired l then files
      else case dict_get files (rl_path l) of
             None \<Rightarrow> files
           | Some content \<Rightarrow> if lock_owned_by content (rl_token l) then AList.delete (rl_path l) files else files)"

section \<open>One operation at a time\<close>

datatype lock_op =
    LAcquire string int rat rat string
  | LRelease run_lock

fun lock_apply :: "string \<Rightarrow> lock_files \<Rightarrow> lock_op \<Rightarrow> lock_files" where
  "lock_apply dir files (LAcquire key ttl now now' token) = snd (lock_acquire dir files key ttl now now' token)"
| "lock_apply dir files (LRelease l) = lock_release files l"

lemma lock_created_document [simp]: "lock_created_at (lock_document key token t) = t"
  by (simp add: lock_created_at_def lock_document_def)

lemma lock_owned_document [simp]: "lock_owned_by (Some (lock_document key token t)) u \<longleftrightarrow> u = token"
  by (auto simp: lock_owned_by_def lock_payload_def lock_document_def)

lemma map_of_delete_self [simp]: "map_of (AList.delete k d) k = None"
  by (simp add: delete_conv')

lemma remove_stale_kept: "dict_get files path = Some c \<Longrightarrow> lock_fresh c ttl now \<Longrightarrow> remove_stale files path ttl now = (False, files)"
  by (simp add: remove_stale_def)

lemma remove_stale_other: "p \<noteq> path \<Longrightarrow> dict_get (snd (remove_stale files path ttl now)) p = dict_get files p"
  by (simp add: remove_stale_def delete_conv' split: option.splits)

text \<open>\<open>acquire\<close> succeeds exactly when there is no fresh file, and then the file is its own.\<close>

lemma lock_acquire_taken_iff:
  "rl_acquired (fst (lock_acquire dir files key ttl now now' token)) \<longleftrightarrow>
     (\<forall>c. dict_get files (lock_path dir key) = Some c \<longrightarrow> \<not> lock_fresh c ttl now)"
  by (auto simp: lock_acquire_def remove_stale_def Let_def split: option.splits)

lemma lock_acquire_takes:
  assumes "lock_acquire dir files key ttl now now' token = (l, files')" "rl_acquired l"
  shows "rl_token l = token" "rl_path l = lock_path dir key"
    "dict_get files' (lock_path dir key) = Some (Some (lock_document key token now'))"
  using assms by (auto simp: lock_acquire_def Let_def split: option.splits prod.splits)

lemma lock_acquire_refused:
  assumes "lock_acquire dir files key ttl now now' token = (l, files')" "\<not> rl_acquired l"
  shows "files' = files" "rl_blocker l = Some ''lock.concurrent_run''" "rl_token l = []" "\<not> rl_stale_replaced l"
  using assms
  by (auto simp: lock_acquire_def remove_stale_def Let_def split: option.splits prod.splits if_splits)

lemma lock_acquire_frame:
  "p \<noteq> lock_path dir key \<Longrightarrow> dict_get (snd (lock_acquire dir files key ttl now now' token)) p = dict_get files p"
  using remove_stale_other [of p "lock_path dir key" files ttl now]
  by (auto simp: lock_acquire_def Let_def split: option.splits prod.splits)

lemma lock_release_owned:
  "rl_acquired l \<Longrightarrow> dict_get files (rl_path l) = Some c \<Longrightarrow> lock_owned_by c (rl_token l)
    \<Longrightarrow> dict_get (lock_release files l) (rl_path l) = None"
  by (simp add: lock_release_def)

lemma lock_release_frame: "p \<noteq> rl_path l \<Longrightarrow> dict_get (lock_release files l) p = dict_get files p"
  by (simp add: lock_release_def delete_conv' split: option.splits)

lemma lock_release_foreign:
  "dict_get files (rl_path l) = Some c \<Longrightarrow> \<not> lock_owned_by c (rl_token l) \<Longrightarrow> lock_release files l = files"
  by (simp add: lock_release_def)

text \<open>What the operations of the others may be while a lock is held: attempts while the lock is
  fresh, and releases of locks with another token.\<close>

fun harmless_op :: "string \<Rightarrow> rat \<Rightarrow> string \<Rightarrow> lock_op \<Rightarrow> bool" where
  "harmless_op path created token (LAcquire key ttl now now' tok) = (now - created \<le> of_int (max 1 ttl))"
| "harmless_op path created token (LRelease l) = (rl_token l \<noteq> token)"

lemma lock_apply_harmless:
  assumes held: "dict_get files path = Some (Some (lock_document k token t))" and "0 < t"
    and "harmless_op path t token op"
  shows "dict_get (lock_apply dir files op) path = Some (Some (lock_document k token t))"
proof (cases op)
  case (LAcquire key ttl now now' tok)
  show ?thesis
  proof (cases "lock_path dir key = path")
    case True
    have fresh: "lock_fresh (Some (lock_document k token t)) ttl now"
      using assms LAcquire by (simp add: lock_fresh_def Let_def lock_payload_def)
    then have "\<not> rl_acquired (fst (lock_acquire dir files key ttl now now' tok))"
      using held True by (auto simp: lock_acquire_taken_iff)
    then have "snd (lock_acquire dir files key ttl now now' tok) = files"
      using lock_acquire_refused(1) by (metis prod.collapse)
    with held LAcquire show ?thesis by simp
  next
    case False
    with held LAcquire show ?thesis by (simp add: lock_acquire_frame)
  qed
next
  case (LRelease l)
  show ?thesis
  proof (cases "rl_path l = path")
    case True
    with assms LRelease show ?thesis by (simp add: lock_release_foreign)
  next
    case False
    with held LRelease show ?thesis by (simp add: lock_release_frame)
  qed
qed

lemma lock_applies_harmless:
  assumes "dict_get files path = Some (Some (lock_document k token t))" "0 < t"
    and "list_all (harmless_op path t token) ops"
  shows "dict_get (foldl (lock_apply dir) files ops) path = Some (Some (lock_document k token t))"
  using assms
proof (induction ops arbitrary: files)
  case (Cons op ops)
  then show ?case by (simp add: lock_apply_harmless)
qed simp

section \<open>Interleaved system calls\<close>

text \<open>
  The calls of \<open>acquire\<close> and \<open>release\<close> on one lock file, one process per number. A process
  writes into the file it has opened: when that file has been unlinked meanwhile, the
  document is lost. An open file is named by a number that is never used twice.
\<close>

datatype lock_pc =
    LIdle
  | LRead
  | LUnlink
  | LStamp bool
  | LOpen bool rat
  | LWrite bool nat rat
  | LHeld bool
  | LRefused bool
  | LRelRead
  | LRelUnlink
  | LReleased

record lock_race =
  lr_file :: "(nat \<times> lock_doc option) option"
  lr_opened :: nat
  lr_now :: rat
  lr_pc :: "nat \<Rightarrow> lock_pc"

definition race_token :: "nat \<Rightarrow> string" where
  "race_token p = nat_digits p"

definition race_goto :: "lock_race \<Rightarrow> nat \<Rightarrow> lock_pc \<Rightarrow> lock_race" where
  "race_goto s p pc = s\<lparr>lr_pc := (lr_pc s)(p := pc)\<rparr>"

definition race_content :: "lock_race \<Rightarrow> lock_doc option" where
  "race_content s = (case lr_file s of None \<Rightarrow> None | Some (i, c) \<Rightarrow> c)"

definition lock_call :: "string \<Rightarrow> int \<Rightarrow> lock_race \<Rightarrow> nat \<Rightarrow> lock_race" where
  "lock_call key ttl s p =
     (case lr_pc s p of
        LIdle \<Rightarrow> race_goto s p (if lr_file s = None then LStamp False else LRead)
      | LRead \<Rightarrow> race_goto s p (if lock_fresh (race_content s) ttl (lr_now s) then LStamp False else LUnlink)
      | LUnlink \<Rightarrow> race_goto (s\<lparr>lr_file := None\<rparr>) p (LStamp True)
      | LStamp b \<Rightarrow> race_goto s p (LOpen b (lr_now s))
      | LOpen b t \<Rightarrow>
          (case lr_file s of
             Some _ \<Rightarrow> race_goto s p (LRefused b)
           | None \<Rightarrow> race_goto (s\<lparr>lr_file := Some (lr_opened s, None), lr_opened := Suc (lr_opened s)\<rparr>) p
                      (LWrite b (lr_opened s) t))
      | LWrite b i t \<Rightarrow>
          (case lr_file s of
             Some (j, c) \<Rightarrow>
               (if i = j then race_goto (s\<lparr>lr_file := Some (j, Some (lock_document key (race_token p) t))\<rparr>) p (LHeld b)
                else race_goto s p (LHeld b))
           | None \<Rightarrow> race_goto s p (LHeld b))
      | LHeld b \<Rightarrow> race_goto s p (if lr_file s = None then LReleased else LRelRead)
      | LRelRead \<Rightarrow> race_goto s p (if lock_owned_by (race_content s) (race_token p) then LRelUnlink else LReleased)
      | LRelUnlink \<Rightarrow> race_goto (s\<lparr>lr_file := None\<rparr>) p LReleased
      | LRefused b \<Rightarrow> s
      | LReleased \<Rightarrow> s)"

inductive race_step :: "string \<Rightarrow> int \<Rightarrow> nat set \<Rightarrow> lock_race \<Rightarrow> lock_race \<Rightarrow> bool" for key ttl ps where
  race_call: "p \<in> ps \<Longrightarrow> race_step key ttl ps s (lock_call key ttl s p)"
| race_tick: "lr_now s \<le> t \<Longrightarrow> race_step key ttl ps s (s\<lparr>lr_now := t\<rparr>)"

inductive_cases race_stepE: "race_step key ttl ps s s'"

definition race_start :: "rat \<Rightarrow> lock_race" where
  "race_start now = \<lparr>lr_file = None, lr_opened = 0, lr_now = now, lr_pc = (\<lambda>p. LIdle)\<rparr>"

definition holds_lock :: "lock_race \<Rightarrow> nat \<Rightarrow> bool" where
  "holds_lock s p = (case lr_pc s p of LHeld b \<Rightarrow> True | _ \<Rightarrow> False)"

lemma race_calls_reach: "set qs \<subseteq> ps \<Longrightarrow> (race_step key ttl ps)\<^sup>*\<^sup>* s (foldl (lock_call key ttl) s qs)"
proof (induction qs arbitrary: s)
  case (Cons q qs)
  have "race_step key ttl ps s (lock_call key ttl s q)"
    using Cons.prems by (intro race_call) simp
  moreover have "(race_step key ttl ps)\<^sup>*\<^sup>* (lock_call key ttl s q) (foldl (lock_call key ttl) (lock_call key ttl s q) qs)"
    using Cons by simp
  ultimately show ?case by (simp add: converse_rtranclp_into_rtranclp)
qed simp

subsection \<open>A settled lock\<close>

text \<open>
  The state in which \<open>p\<close> holds the file with its own document and no other process has
  decided to remove a file.
\<close>

fun lock_bystander :: "lock_pc \<Rightarrow> bool" where
  "lock_bystander LIdle = True"
| "lock_bystander LRead = True"
| "lock_bystander (LStamp b) = (\<not> b)"
| "lock_bystander (LOpen b t) = (\<not> b)"
| "lock_bystander (LRefused b) = True"
| "lock_bystander LReleased = True"
| "lock_bystander _ = False"

definition settled :: "string \<Rightarrow> int \<Rightarrow> nat \<Rightarrow> rat \<Rightarrow> lock_race \<Rightarrow> bool" where
  "settled key ttl p t s =
     (\<exists>i. lr_file s = Some (i, Some (lock_document key (race_token p) t)) \<and>
       (\<forall>q. q \<noteq> p \<longrightarrow> lock_bystander (lr_pc s q)) \<and> holds_lock s p)"

lemma race_goto_fields [simp]:
  "lr_file (race_goto s p pc) = lr_file s" "lr_now (race_goto s p pc) = lr_now s"
  "lr_pc (race_goto s p pc) = (lr_pc s)(p := pc)" "lr_opened (race_goto s p pc) = lr_opened s"
  by (simp_all add: race_goto_def)

lemma settled_call:
  assumes "settled key ttl p t s" "0 < t" "lr_now s \<le> t + of_int (max 1 ttl)" "q \<noteq> p"
  shows "settled key ttl p t (lock_call key ttl s q)"
proof -
  from assms obtain i where f: "lr_file s = Some (i, Some (lock_document key (race_token p) t))"
    and others: "\<And>q. q \<noteq> p \<Longrightarrow> lock_bystander (lr_pc s q)" and held: "holds_lock s p"
    by (auto simp: settled_def)
  have fresh: "lock_fresh (race_content s) ttl (lr_now s)"
    using assms f by (simp add: lock_fresh_def race_content_def lock_payload_def Let_def algebra_simps)
  have "lock_bystander (lr_pc s q)" using others assms by blast
  then show ?thesis
    using f others held fresh assms(4)
    by (cases "lr_pc s q") (auto simp: lock_call_def settled_def holds_lock_def)
qed

lemma race_step_clock: "race_step key ttl ps s s' \<Longrightarrow> lr_now s \<le> lr_now s'"
  by (erule race_stepE) (auto simp: lock_call_def split: lock_pc.splits option.splits)

lemma settled_reach:
  assumes "(race_step key ttl ps)\<^sup>*\<^sup>* s s'" "settled key ttl p t s" "0 < t" "p \<notin> ps"
    "lr_now s' \<le> t + of_int (max 1 ttl)"
  shows "settled key ttl p t s'"
  using assms
proof (induction rule: rtranclp_induct)
  case (step y z)
  have "lr_now y \<le> t + of_int (max 1 ttl)"
    using race_step_clock [OF step.hyps(2)] step.prems(4) by linarith
  with step have y: "settled key ttl p t y" by blast
  from step.hyps(2) show ?case
  proof (cases rule: race_step.cases)
    case (race_call q)
    with step.prems(3) have "q \<noteq> p" by blast
    with race_call settled_call [OF y step.prems(2) \<open>lr_now y \<le> _\<close>] show ?thesis by simp
  next
    case (race_tick u)
    with y show ?thesis by (simp add: settled_def holds_lock_def)
  qed
qed

lemma settled_only_holder: "settled key ttl p t s \<Longrightarrow> holds_lock s q \<Longrightarrow> q = p"
  by (cases "lr_pc s q"; cases "q = p") (auto simp: settled_def holds_lock_def dest!: spec [of _ q])

section \<open>Properties\<close>

lemmas race_eval = lock_call_def race_goto_def race_start_def race_content_def lock_fresh_def Let_def
  lock_payload_def lock_created_at_def holds_lock_def lock_document_def

text \<open>
  Once a run lock is settled (its file holds the holder's document, no other process is
  about to remove a file), then while its time to live lasts every interleaving of the system
  calls of the other processes leaves the file in place, and none of them gets the lock.
\<close>

theorem run_lock_settled_exclusive:
  assumes "(race_step key ttl ps)\<^sup>*\<^sup>* s s'" "settled key ttl p t s" "0 < t" "p \<notin> ps"
    "lr_now s' \<le> t + of_int (max 1 ttl)"
  shows "race_content s' = Some (lock_document key (race_token p) t) \<and> (\<forall>q. holds_lock s' q \<longleftrightarrow> q = p)"
proof -
  have s': "settled key ttl p t s'"
    using assms by (rule settled_reach)
  then have "holds_lock s' p" and "race_content s' = Some (lock_document key (race_token p) t)"
    by (auto simp: settled_def race_content_def)
  with settled_only_holder [OF s'] show ?thesis by blast
qed

theorem run_lock_settled_exclusive_witness:
  "\<exists>s s'. (race_step ''load'' 60 {1})\<^sup>*\<^sup>* s s' \<and> lr_pc s' 1 = LRefused False \<and>
     (\<forall>q. holds_lock s' q \<longleftrightarrow> q = 0)"
proof -
  let ?s = "foldl (lock_call ''load'' 60) (race_start 1000) [0, 0, 0, 0]"
  let ?s' = "foldl (lock_call ''load'' 60) ?s [1, 1, 1, 1]"
  have reach: "(race_step ''load'' 60 {1})\<^sup>*\<^sup>* ?s ?s'"
    by (rule race_calls_reach) simp
  have st: "settled ''load'' 60 0 1000 ?s"
    by (simp add: race_eval settled_def)
  have now: "lr_now ?s' \<le> 1000 + of_int (max 1 60)" and pc: "lr_pc ?s' 1 = LRefused False"
    by (simp_all add: race_eval)
  have "\<forall>q. holds_lock ?s' q \<longleftrightarrow> q = 0"
    using run_lock_settled_exclusive [OF reach st _ _ now] by simp
  with reach pc show ?thesis by blast
qed

text \<open>
  C37: The lock is not exclusive while it is being taken. The file is created empty and
  written afterwards; an attempt in between reads no document, takes the file for a stale one
  and removes it. Two processes that start without any lock file can both hold the lock,
  whatever the key, the time to live and the clock.
\<close>

theorem run_lock_race:
  "\<exists>s. (race_step key ttl {0, 1})\<^sup>*\<^sup>* (race_start now) s \<and> holds_lock s 0 \<and> holds_lock s 1"
proof -
  let ?s = "foldl (lock_call key ttl) (race_start now) [0, 0, 0, 1, 1, 1, 1, 1, 1, 0]"
  have "(race_step key ttl {0, 1})\<^sup>*\<^sup>* (race_start now) ?s"
    by (rule race_calls_reach) simp
  moreover have "holds_lock ?s 0 \<and> holds_lock ?s 1"
    by (simp add: race_eval)
  ultimately show ?thesis by blast
qed

end
