(* ===== verification/Orch_Handoff.thy ===== *)
theory Orch_Handoff
  imports Py_Value
begin

text \<open>
  The scheduler handoff (\<open>src/dpone/orchestration/handoff.py\<close>): the command line that repeats
  an orchestrated run, quoted with \<open>shlex.quote\<close>, and its embedding in the snippets of three
  schedulers. The reference is a reader of the POSIX shell's word syntax: what the shell
  makes of the command is the argument vector that was meant.
\<close>

section \<open>The command line\<close>

text \<open>\<open>shlex.quote\<close>: the unsafe characters are those outside \<open>[\w@%+=:,./-]\<close> (ASCII).\<close>

definition sh_safe_char :: "char \<Rightarrow> bool" where
  "sh_safe_char c = (let n = code_of c in
     (65 \<le> n \<and> n \<le> 90) \<or> (97 \<le> n \<and> n \<le> 122) \<or> (48 \<le> n \<and> n \<le> 57) \<or> c \<in> set ''_@%+=:,./-'')"

definition shlex_quote :: "string \<Rightarrow> string" where
  "shlex_quote s =
     (if s = [] then [sq, sq]
      else if list_all sh_safe_char s then s
      else [sq] @ py_replace_char sq [sq, dq, sq, dq, sq] s @ [sq])"

record handoff_request =
  hr_manifest_path :: string
  hr_selector :: "string option"
  hr_run_id :: "string option"
  hr_retry_attempts :: int
  hr_retry_backoff_seconds :: pyval
  hr_concurrency_key :: "string option"
  hr_lock_dir :: "string option"
  hr_state_dir :: "string option"
  hr_output_dir :: "string option"
  hr_lock_ttl_seconds :: "int option"
  hr_resume_policy :: "string option"

definition text_option :: "string \<Rightarrow> string option \<Rightarrow> string list" where
  "text_option flag v = (case v of None \<Rightarrow> [] | Some s \<Rightarrow> if s = [] then [] else [flag, s])"

definition int_option :: "string \<Rightarrow> int option \<Rightarrow> string list" where
  "int_option flag v = (case v of None \<Rightarrow> [] | Some i \<Rightarrow> if i = 0 then [] else [flag, py_str_int i])"

definition handoff_parts :: "handoff_request \<Rightarrow> string list" where
  "handoff_parts r =
     [''dpone'', ''orchestrate'', ''run'', ''--manifest'', hr_manifest_path r]
     @ text_option ''--selector'' (hr_selector r)
     @ text_option ''--run-id'' (hr_run_id r)
     @ int_option ''--retry-attempts'' (Some (hr_retry_attempts r))
     @ (if py_truthy (hr_retry_backoff_seconds r)
        then [''--retry-backoff-seconds'', py_str (hr_retry_backoff_seconds r)] else [])
     @ text_option ''--concurrency-key'' (hr_concurrency_key r)
     @ text_option ''--lock-dir'' (hr_lock_dir r)
     @ text_option ''--state-dir'' (hr_state_dir r)
     @ text_option ''--output-dir'' (hr_output_dir r)
     @ int_option ''--lock-ttl-seconds'' (hr_lock_ttl_seconds r)
     @ text_option ''--resume-policy'' (hr_resume_policy r)
     @ [''--format'', ''json'']"

definition handoff_command :: "handoff_request \<Rightarrow> string" where
  "handoff_command r = py_join '' '' (map shlex_quote (handoff_parts r))"

section \<open>The snippets\<close>

record scheduler_handoff =
  sh_cron_command :: string
  sh_airflow_task :: string
  sh_dagster_asset :: string
  sh_kubernetes_cronjob :: string

definition newline :: string where "newline = [char_of (10::nat)]"

definition handoff_airflow :: "string \<Rightarrow> string" where
  "handoff_airflow command =
     ''BashOperator(task_id='' @ [sq] @ ''dpone_run'' @ [sq] @ '', bash_command='' @ py_repr_str command @ '')''"

definition handoff_dagster :: "string \<Rightarrow> string" where
  "handoff_dagster command =
     ''@asset'' @ newline @ ''def dpone_run(context):'' @ newline
       @ ''    context.log.info('' @ py_repr_str command @ '')''"

definition handoff_kubernetes :: "string \<Rightarrow> string" where
  "handoff_kubernetes command = py_join newline
     [''apiVersion: batch/v1'',
      ''kind: CronJob'',
      ''metadata:'',
      ''  name: dpone-run'',
      ''spec:'',
      ''  schedule: '' @ [dq] @ ''0 * * * *'' @ [dq],
      ''  jobTemplate:'',
      ''    spec:'',
      ''      template:'',
      ''        spec:'',
      ''          restartPolicy: Never'',
      ''          containers:'',
      ''            - name: dpone'',
      ''              image: your-dpone-runtime:latest'',
      ''              command: ['' @ [dq] @ ''/bin/sh'' @ [dq] @ '', '' @ [dq] @ ''-lc'' @ [dq] @ '']'',
      ''              args: ['' @ py_repr_str command @ '']'']"

definition build_handoff :: "handoff_request \<Rightarrow> scheduler_handoff" where
  "build_handoff r = (let command = handoff_command r in
     \<lparr>sh_cron_command = command, sh_airflow_task = handoff_airflow command,
      sh_dagster_asset = handoff_dagster command, sh_kubernetes_cronjob = handoff_kubernetes command\<rparr>)"

definition handoff_to_dict :: "scheduler_handoff \<Rightarrow> (string \<times> pyval) list" where
  "handoff_to_dict h =
     [(''cron_command'', PStr (sh_cron_command h)), (''airflow_task'', PStr (sh_airflow_task h)),
      (''dagster_asset'', PStr (sh_dagster_asset h)), (''kubernetes_cronjob'', PStr (sh_kubernetes_cronjob h))]"

section \<open>What a shell reads\<close>

text \<open>
  The word syntax of a POSIX shell: blanks separate words, a single-quoted part is literal, a
  double-quoted part is literal but for the characters that start an expansion, and an
  unquoted character must have no meaning of its own. Everything else is \<open>None\<close>.
\<close>

datatype sh_mode = ShBlank | ShBare | ShSingle | ShDouble

fun sh_lex :: "sh_mode \<Rightarrow> string \<Rightarrow> string \<Rightarrow> string list option" where
  "sh_lex ShBlank w [] = Some []"
| "sh_lex ShBare w [] = Some [rev w]"
| "sh_lex ShSingle w [] = None"
| "sh_lex ShDouble w [] = None"
| "sh_lex ShBlank w (c # cs) =
     (if c = CHR '' '' then sh_lex ShBlank [] cs
      else if c = sq then sh_lex ShSingle [] cs
      else if c = dq then sh_lex ShDouble [] cs
      else if sh_safe_char c then sh_lex ShBare [c] cs
      else None)"
| "sh_lex ShBare w (c # cs) =
     (if c = CHR '' '' then map_option (Cons (rev w)) (sh_lex ShBlank [] cs)
      else if c = sq then sh_lex ShSingle w cs
      else if c = dq then sh_lex ShDouble w cs
      else if sh_safe_char c then sh_lex ShBare (c # w) cs
      else None)"
| "sh_lex ShSingle w (c # cs) = (if c = sq then sh_lex ShBare w cs else sh_lex ShSingle (c # w) cs)"
| "sh_lex ShDouble w (c # cs) =
     (if c = dq then sh_lex ShBare w cs
      else if c = bs \<or> c \<in> set ''$`'' then None
      else sh_lex ShDouble (c # w) cs)"

definition sh_words :: "string \<Rightarrow> string list option" where
  "sh_words s = sh_lex ShBlank [] s"

lemma quote_chars: "sq = CHR 0x27" "dq = CHR 0x22" "bs = CHR 0x5C"
  by (simp_all add: sq_def dq_def bs_def char_of_def bit_0)

lemma sq_neq [simp]: "sq \<noteq> dq" "dq \<noteq> sq" "sq \<noteq> bs" "sq \<noteq> CHR '' ''" "dq \<noteq> CHR '' ''"
  "sq \<noteq> CHR ''$''" "sq \<noteq> CHR 0x60"
  by (simp_all add: quote_chars)

lemma sh_safe_char_plain [simp]: "sh_safe_char c \<Longrightarrow> c \<noteq> CHR '' '' \<and> c \<noteq> sq \<and> c \<noteq> dq"
  by (auto simp: sh_safe_char_def quote_chars Let_def)

lemma sh_lex_safe: "list_all sh_safe_char s \<Longrightarrow> sh_lex ShBare w (s @ rest) = sh_lex ShBare (rev s @ w) rest"
  by (induction s arbitrary: w) auto

lemma sh_lex_single:
  "sh_lex ShSingle w (py_replace_char sq [sq, dq, sq, dq, sq] s @ sq # rest) = sh_lex ShBare (rev s @ w) rest"
  by (induction s arbitrary: w) (simp_all add: py_replace_char_def)

lemma sh_lex_quote: "sh_lex ShBlank [] (shlex_quote s @ rest) = sh_lex ShBare (rev s) rest"
proof (cases s)
  case Nil
  then show ?thesis by (simp add: shlex_quote_def)
next
  case (Cons c cs)
  then show ?thesis
    using sh_lex_safe [of cs "[c]" rest] sh_lex_single [of "[]" s rest]
    by (auto simp: shlex_quote_def)
qed

lemma sh_words_quoted: "sh_words (py_join '' '' (map shlex_quote ws)) = Some ws"
proof (induction ws rule: induct_list012)
  case (2 w)
  then show ?case using sh_lex_quote [of w "[]"] by (simp add: sh_words_def)
next
  case (3 w v ws)
  then show ?case using sh_lex_quote [of w] by (simp add: sh_words_def)
qed (simp add: sh_words_def)

text \<open>
  A shell that reads the handoff command obtains exactly the argument vector the command
  was built from, whatever characters the manifest path, the selector, the run id, the keys
  and the directories contain.
\<close>

theorem handoff_command_reads_back: "sh_words (handoff_command r) = Some (handoff_parts r)"
  unfolding handoff_command_def by (rule sh_words_quoted)

end
