(* ===== verification/Orch_Run.thy ===== *)
theory Orch_Run
  imports Orch_Locks Orch_Handoff
begin

text \<open>
  Orchestrated runs (\<open>src/dpone/orchestration/run.py\<close>): the preflight decision on the durable
  job state, the run lock, the executor with its exceptions, the final mark, the report. The
  executor is a parameter that changes the whole world, the files of this service included,
  so it also stands for what other processes do while it works. The texts of the clock, the
  two readings of \<open>time.time()\<close> and the token are inputs. Failing file writes are not
  modelled.
\<close>

section \<open>Requests, results, reports\<close>

record run_request =
  oq_manifest_path :: string
  oq_selector :: "string option"
  oq_run_id :: "string option"
  oq_dag_id :: "string option"
  oq_execution_date :: pyval
  oq_retry_attempts :: int
  oq_retry_backoff_seconds :: pyval
  oq_concurrency_key :: "string option"
  oq_lock_ttl_seconds :: int
  oq_resume_policy :: string

text \<open>\<open>a or b\<close> on an optional text.\<close>

definition or_text :: "string option \<Rightarrow> string \<Rightarrow> string" where
  "or_text v dflt = (case v of None \<Rightarrow> dflt | Some s \<Rightarrow> if s = [] then dflt else s)"

definition effective_key :: "run_request \<Rightarrow> string" where
  "effective_key q = or_text (oq_concurrency_key q) (or_text (oq_run_id q) (or_text (oq_selector q) (oq_manifest_path q)))"

record run_result =
  rr_manifest :: string
  rr_process :: string
  rr_selector :: "string option"
  rr_run_id :: string
  rr_passed :: bool
  rr_status :: string
  rr_result :: "(string \<times> pyval) list"
  rr_attempts :: int
  rr_max_attempts :: int
  rr_retry_backoff_seconds :: pyval

definition run_result_to_dict :: "run_result \<Rightarrow> (string \<times> pyval) list" where
  "run_result_to_dict r =
     [(''manifest'', PStr (rr_manifest r)), (''process'', PStr (rr_process r)),
      (''selector'', opt_text (rr_selector r)), (''run_id'', PStr (rr_run_id r)),
      (''passed'', PBool (rr_passed r)), (''result'', PDict (rr_result r)),
      (''attempts'', PInt (rr_attempts r)), (''max_attempts'', PInt (rr_max_attempts r)),
      (''retry_backoff_seconds'', rr_retry_backoff_seconds r)]"

record run_report =
  or_passed :: bool
  or_status :: string
  or_run_id :: string
  or_process :: string
  or_lock_key :: string
  or_lock_acquired :: bool
  or_stale_lock_replaced :: bool
  or_blockers :: "string list"
  or_run_result :: "(string \<times> pyval) list"
  or_scheduler_handoff :: "(string \<times> pyval) list"
  or_job_state :: "(string \<times> pyval) list"
  or_output_dir :: string

definition run_report_to_dict :: "run_report \<Rightarrow> (string \<times> pyval) list" where
  "run_report_to_dict r =
     [(''passed'', PBool (or_passed r)), (''status'', PStr (or_status r)), (''run_id'', PStr (or_run_id r)),
      (''process'', PStr (or_process r)), (''lock_key'', PStr (or_lock_key r)),
      (''lock_acquired'', PBool (or_lock_acquired r)),
      (''stale_lock_replaced'', PBool (or_stale_lock_replaced r)),
      (''blockers'', PList (map PStr (or_blockers r))), (''run_result'', PDict (or_run_result r)),
      (''scheduler_handoff'', PDict (or_scheduler_handoff r)), (''job_state'', PDict (or_job_state r)),
      (''output_dir'', PStr (or_output_dir r))]"

definition tick :: "string \<Rightarrow> string" where
  "tick s = ''`'' @ s @ ''`''"

definition run_report_to_markdown :: "run_report \<Rightarrow> string" where
  "run_report_to_markdown r = py_join newline
     ([''# dpone orchestrated run'', [],
       ''- Passed: '' @ tick (py_repr (PBool (or_passed r))),
       ''- Status: '' @ tick (or_status r),
       ''- Run ID: '' @ tick (or_run_id r),
       ''- Process: '' @ tick (or_process r),
       ''- Lock key: '' @ tick (or_lock_key r),
       ''- Lock acquired: '' @ tick (py_repr (PBool (or_lock_acquired r))),
       ''- Stale lock replaced: '' @ tick (py_repr (PBool (or_stale_lock_replaced r))),
       ''- Job state: '' @ tick (py_str (py_get_default (or_job_state r) ''status'' (PStr [])))]
      @ (if or_blockers r = [] then []
         else [[], ''Blockers:'', []] @ map (\<lambda>b. ''- '' @ tick b) (or_blockers r))
      @ [[], ''## Scheduler handoff'', [], ''```bash'',
         py_str (py_get_default (or_scheduler_handoff r) ''cron_command'' (PStr [])), ''```'', [],
         ''## Runbook'', [],
         ''1. If lock acquisition fails, inspect the active lock and running scheduler job.'',
         ''2. If retry is exhausted, inspect the underlying `run_result` errors.'',
         ''3. Attach `orchestrated_run.json` to run registry, lineage, or release evidence.'', []])"

section \<open>The service\<close>

text \<open>
  The world: the job store, the lock directory, the report of each output directory (its JSON
  and Markdown files are functions of it), and everything the executor works on.
\<close>

record ('j, 'w) orch_world =
  ow_jobs :: 'j
  ow_locks :: lock_files
  ow_reports :: "(string, run_report) dict"
  ow_data :: 'w

record run_clock =
  rk_now :: "nat \<Rightarrow> string"
  rk_check :: rat
  rk_created :: rat
  rk_token :: string

type_synonym ('j, 'w) run_executor =
  "run_request \<Rightarrow> ('j, 'w) orch_world \<Rightarrow> run_result res \<times> ('j, 'w) orch_world"

definition request_handoff :: "string option \<Rightarrow> string \<Rightarrow> string \<Rightarrow> run_request \<Rightarrow> (string \<times> pyval) list" where
  "request_handoff state_dir lock_dir out q = handoff_to_dict (build_handoff
     \<lparr>hr_manifest_path = oq_manifest_path q, hr_selector = oq_selector q, hr_run_id = oq_run_id q,
      hr_retry_attempts = oq_retry_attempts q, hr_retry_backoff_seconds = oq_retry_backoff_seconds q,
      hr_concurrency_key = oq_concurrency_key q, hr_lock_dir = Some lock_dir, hr_state_dir = state_dir,
      hr_output_dir = Some out, hr_lock_ttl_seconds = Some (oq_lock_ttl_seconds q),
      hr_resume_policy = Some (oq_resume_policy q)\<rparr>)"

definition blocked_report :: "string \<Rightarrow> run_request \<Rightarrow> bool \<Rightarrow> string list \<Rightarrow> (string \<times> pyval) list \<Rightarrow> run_report" where
  "blocked_report out q replaced blockers handoff =
     \<lparr>or_passed = False, or_status = ''blocked'', or_run_id = or_text (oq_run_id q) [],
      or_process = or_text (oq_selector q) [], or_lock_key = effective_key q, or_lock_acquired = False,
      or_stale_lock_replaced = replaced, or_blockers = blockers, or_run_result = [],
      or_scheduler_handoff = handoff, or_job_state = [], or_output_dir = out\<rparr>"

definition preflight_blocked_report :: "string \<Rightarrow> run_request \<Rightarrow> string list \<Rightarrow> (string \<times> pyval) list \<Rightarrow> run_report" where
  "preflight_blocked_report out q blockers handoff = blocked_report out q False blockers handoff"

definition result_blockers :: "run_result \<Rightarrow> string list" where
  "result_blockers r = (if rr_passed r then [] else [''run.not_passed''])"

definition finished_report :: "string \<Rightarrow> run_request \<Rightarrow> run_result \<Rightarrow> bool \<Rightarrow> (string \<times> pyval) list \<Rightarrow> run_report" where
  "finished_report out q r replaced handoff =
     \<lparr>or_passed = rr_passed r, or_status = rr_status r, or_run_id = rr_run_id r, or_process = rr_process r,
      or_lock_key = effective_key q, or_lock_acquired = True, or_stale_lock_replaced = replaced,
      or_blockers = result_blockers r, or_run_result = run_result_to_dict r,
      or_scheduler_handoff = handoff, or_job_state = [], or_output_dir = out\<rparr>"

definition with_job_state :: "run_report \<Rightarrow> job_state \<Rightarrow> run_report" where
  "with_job_state r s = r\<lparr>or_job_state := job_state_to_dict s\<rparr>"

definition write_report :: "string \<Rightarrow> run_report \<Rightarrow> ('j, 'w) orch_world \<Rightarrow> ('j, 'w) orch_world" where
  "write_report out r w = w\<lparr>ow_reports := dict_set (ow_reports w) out r\<rparr>"

text \<open>One call of the job store: an exception leaves it as it was.\<close>

definition on_store ::
  "('j \<Rightarrow> (job_state \<times> 'j) res) \<Rightarrow> ('j, 'w) orch_world
    \<Rightarrow> (job_state \<Rightarrow> ('j, 'w) orch_world \<Rightarrow> 'a res \<times> ('j, 'w) orch_world) \<Rightarrow> 'a res \<times> ('j, 'w) orch_world" where
  "on_store call w k =
     (case call (ow_jobs w) of Inl e \<Rightarrow> (Inl e, w) | Inr (s, j) \<Rightarrow> k s (w\<lparr>ow_jobs := j\<rparr>))"

definition started_args :: "string \<Rightarrow> string \<Rightarrow> run_request \<Rightarrow> start_args" where
  "started_args out run_id q =
     \<lparr>sa_run_id = run_id, sa_process = or_text (oq_selector q) [], sa_manifest_path = oq_manifest_path q,
      sa_selector = oq_selector q, sa_lock_key = effective_key q, sa_output_dir = out\<rparr>"

text \<open>The body of the \<open>try\<close> block.\<close>

definition run_locked ::
  "(string \<Rightarrow> 'j job_ops) \<Rightarrow> ('j, 'w) run_executor \<Rightarrow> run_clock \<Rightarrow> string \<Rightarrow> string \<Rightarrow> run_request
    \<Rightarrow> bool \<Rightarrow> (string \<times> pyval) list \<Rightarrow> ('j, 'w) orch_world \<Rightarrow> run_report res \<times> ('j, 'w) orch_world" where
  "run_locked store exec clock out run_id q replaced handoff w =
     on_store (\<lambda>j. jo_started (store (rk_now clock 0)) j (started_args out run_id q)) w (\<lambda>s w1.
     on_store (\<lambda>j. jo_running (store (rk_now clock 1)) j (js_run_id s) 1) w1 (\<lambda>running w2.
       case exec q w2 of
         (Inl e, w3) \<Rightarrow> (Inl e, w3)
       | (Inr r, w3) \<Rightarrow>
           on_store (\<lambda>j. if rr_passed r
               then jo_committed (store (rk_now clock 2)) j (js_run_id s) (run_result_to_dict r)
               else jo_failed (store (rk_now clock 2)) j (js_run_id s) (result_blockers r) (run_result_to_dict r))
             w3 (\<lambda>final w4.
               let report = with_job_state (finished_report out q r replaced handoff) final in
               (Inr report, write_report out report w4))))"

definition release_after :: "run_lock \<Rightarrow> 'a \<times> ('j, 'w) orch_world \<Rightarrow> 'a \<times> ('j, 'w) orch_world" where
  "release_after l r = (case r of (a, w) \<Rightarrow> (a, w\<lparr>ow_locks := lock_release (ow_locks w) l\<rparr>))"

definition state_run_id :: "run_request \<Rightarrow> string" where
  "state_run_id q = or_text (oq_run_id q) (effective_key q)"

definition run_not_acquired ::
  "(string \<Rightarrow> 'j job_ops) \<Rightarrow> run_clock \<Rightarrow> string \<Rightarrow> run_request \<Rightarrow> run_lock \<Rightarrow> (string \<times> pyval) list
    \<Rightarrow> ('j, 'w) orch_world \<Rightarrow> run_report res \<times> ('j, 'w) orch_world" where
  "run_not_acquired store clock out q l handoff w =
     (let blockers = [or_text (rl_blocker l) ''lock.not_acquired''] in
      on_store (\<lambda>j. jo_started (store (rk_now clock 0)) j (started_args out (state_run_id q) q)) w (\<lambda>s w1.
      on_store (\<lambda>j. jo_blocked (store (rk_now clock 1)) j (js_run_id s) blockers) w1 (\<lambda>s' w2.
        let report = with_job_state (blocked_report out q (rl_stale_replaced l) blockers handoff) s' in
        (Inr report, write_report out report w2))))"

definition orchestrated_run ::
  "(string \<Rightarrow> 'j job_ops) \<Rightarrow> string option \<Rightarrow> string \<Rightarrow> ('j, 'w) run_executor \<Rightarrow> run_clock \<Rightarrow> string \<Rightarrow> run_request
    \<Rightarrow> ('j, 'w) orch_world \<Rightarrow> run_report res \<times> ('j, 'w) orch_world" where
  "orchestrated_run store state_dir lock_dir exec clock out q w =
     (let handoff = request_handoff state_dir lock_dir out q; run_id = state_run_id q in
      case jo_get (store (rk_now clock 0)) (ow_jobs w) run_id of
        Inl e \<Rightarrow> (Inl e, w)
      | Inr previous \<Rightarrow>
          let decision = resume_decide previous (oq_resume_policy q) in
          if \<not> rd_allowed decision then
            on_store (\<lambda>j. jo_blocked (store (rk_now clock 0)) j run_id (rd_blockers decision)) w (\<lambda>s w1.
              let report = with_job_state (preflight_blocked_report out q (rd_blockers decision) handoff) s in
              (Inr report, write_report out report w1))
          else
            (case lock_acquire lock_dir (ow_locks w) (effective_key q) (oq_lock_ttl_seconds q)
                    (rk_check clock) (rk_created clock) (rk_token clock) of
               (l, locks) \<Rightarrow>
                 if \<not> rl_acquired l
                 then run_not_acquired store clock out q l handoff (w\<lparr>ow_locks := locks\<rparr>)
                 else release_after l
                   (run_locked store exec clock out run_id q (rl_stale_replaced l) handoff (w\<lparr>ow_locks := locks\<rparr>))))"

end
