(* ===== verification/Orch_Proofs.thy ===== *)
theory Orch_Proofs
  imports Orch_Run
begin

text \<open>
  Correctness of orchestrated runs. The locale \<open>durable_job_store\<close> is what a run relies on in a
  job store (a mark is read back), its lemmas follow a run through the store, and the local
  file store interprets it. The no-op store, which keeps nothing, is no instance.
\<close>

section \<open>The contract of a durable store\<close>

text \<open>The state of \<open>run_id\<close> reads back as \<open>s\<close>, which carries this status.\<close>

definition job_marked ::
  "('s \<Rightarrow> string \<Rightarrow> job_state option res) \<Rightarrow> 's \<Rightarrow> string \<Rightarrow> job_state \<Rightarrow> string \<Rightarrow> bool \<Rightarrow> bool" where
  "job_marked get s run_id js status resumable =
     (get s run_id = Inr (Some js) \<and> js_run_id js = run_id \<and> js_status js = status \<and> js_resumable js = resumable)"

definition job_known :: "('s \<Rightarrow> string \<Rightarrow> job_state option res) \<Rightarrow> 's \<Rightarrow> string \<Rightarrow> bool" where
  "job_known get s run_id = (\<exists>js. get s run_id = Inr (Some js) \<and> js_run_id js = run_id)"

lemma job_marked_known: "job_marked get s run_id js status b \<Longrightarrow> job_known get s run_id"
  by (auto simp: job_marked_def job_known_def)

locale durable_job_store =
  fixes store :: "string \<Rightarrow> 's job_ops"
    and get :: "'s \<Rightarrow> string \<Rightarrow> job_state option res"
  assumes get_law: "jo_get (store t) = get"
    and started_law: "get s (sa_run_id a) = Inr prev \<Longrightarrow>
      \<exists>js s'. jo_started (store t) s a = Inr (js, s') \<and> job_marked get s' (sa_run_id a) js ''started'' False"
    and running_law: "job_known get s run_id \<Longrightarrow>
      \<exists>js s'. jo_running (store t) s run_id n = Inr (js, s') \<and> job_marked get s' run_id js ''running'' False
        \<and> js_attempt js = n"
    and committed_law: "job_known get s run_id \<Longrightarrow>
      \<exists>js s'. jo_committed (store t) s run_id result = Inr (js, s') \<and> job_marked get s' run_id js ''committed'' False
        \<and> (result \<noteq> [] \<longrightarrow> js_run_result js = result)"
    and failed_law: "job_known get s run_id \<Longrightarrow>
      \<exists>js s'. jo_failed (store t) s run_id blockers result = Inr (js, s') \<and> job_marked get s' run_id js ''failed'' True
        \<and> js_blockers js = blockers \<and> (result \<noteq> [] \<longrightarrow> js_run_result js = result)"
    and blocked_law: "job_known get s run_id \<Longrightarrow>
      \<exists>js s'. jo_blocked (store t) s run_id blockers = Inr (js, s') \<and> job_marked get s' run_id js ''blocked'' True
        \<and> js_blockers js = blockers"

section \<open>A run, branch by branch\<close>

lemma release_after_simps [simp]:
  "fst (release_after l r) = fst r" "ow_jobs (snd (release_after l r)) = ow_jobs (snd r)"
  "ow_data (snd (release_after l r)) = ow_data (snd r)"
  "ow_locks (snd (release_after l r)) = lock_release (ow_locks (snd r)) l"
  "ow_reports (snd (release_after l r)) = ow_reports (snd r)"
  by (simp_all add: release_after_def split_beta)

lemma on_store_Inr: "call (ow_jobs w) = Inr (s, j) \<Longrightarrow> on_store call w k = k s (w\<lparr>ow_jobs := j\<rparr>)"
  by (simp add: on_store_def)

lemma on_store_Inl: "call (ow_jobs w) = Inl e \<Longrightarrow> on_store call w k = (Inl e, w)"
  by (simp add: on_store_def)

lemma on_store_keeps:
  assumes "\<And>s w'. ow_locks (snd (k s w')) = ow_locks w' \<and> ow_data (snd (k s w')) = ow_data w'"
  shows "ow_locks (snd (on_store call w k)) = ow_locks w \<and> ow_data (snd (on_store call w k)) = ow_data w"
  using assms by (auto simp: on_store_def split: sum.splits prod.splits)

lemma write_report_fields [simp]:
  "ow_jobs (write_report out r w) = ow_jobs w" "ow_locks (write_report out r w) = ow_locks w"
  "ow_data (write_report out r w) = ow_data w"
  by (simp_all add: write_report_def)

lemma run_preflight_blocked:
  assumes "jo_get (store (rk_now clock 0)) (ow_jobs w) (state_run_id q) = Inr prev"
    and "\<not> rd_allowed (resume_decide prev (oq_resume_policy q))"
  shows "orchestrated_run store sdir ldir exec clock out q w =
    on_store (\<lambda>j. jo_blocked (store (rk_now clock 0)) j (state_run_id q)
        (rd_blockers (resume_decide prev (oq_resume_policy q)))) w
      (\<lambda>s w1. let report = with_job_state (preflight_blocked_report out q
           (rd_blockers (resume_decide prev (oq_resume_policy q))) (request_handoff sdir ldir out q)) s in
        (Inr report, write_report out report w1))"
  using assms by (simp add: orchestrated_run_def Let_def)

lemma run_refused_lock:
  assumes "jo_get (store (rk_now clock 0)) (ow_jobs w) (state_run_id q) = Inr prev"
    and "rd_allowed (resume_decide prev (oq_resume_policy q))"
    and "lock_acquire ldir (ow_locks w) (effective_key q) (oq_lock_ttl_seconds q) (rk_check clock)
           (rk_created clock) (rk_token clock) = (l, locks)" "\<not> rl_acquired l"
  shows "orchestrated_run store sdir ldir exec clock out q w =
    run_not_acquired store clock out q l (request_handoff sdir ldir out q) w"
  using assms lock_acquire_refused(1) [OF assms(3,4)] by (simp add: orchestrated_run_def Let_def)

lemma run_with_lock:
  assumes "jo_get (store (rk_now clock 0)) (ow_jobs w) (state_run_id q) = Inr prev"
    and "rd_allowed (resume_decide prev (oq_resume_policy q))"
    and "lock_acquire ldir (ow_locks w) (effective_key q) (oq_lock_ttl_seconds q) (rk_check clock)
           (rk_created clock) (rk_token clock) = (l, locks)" "rl_acquired l"
  shows "orchestrated_run store sdir ldir exec clock out q w =
    release_after l (run_locked store exec clock out (state_run_id q) q (rl_stale_replaced l)
      (request_handoff sdir ldir out q) (w\<lparr>ow_locks := locks\<rparr>))"
  using assms by (simp add: orchestrated_run_def Let_def)

lemma run_not_acquired_keeps:
  "ow_locks (snd (run_not_acquired store clock out q l handoff w)) = ow_locks w \<and>
   ow_data (snd (run_not_acquired store clock out q l handoff w)) = ow_data w"
  unfolding run_not_acquired_def Let_def
  by (intro on_store_keeps) (simp add: on_store_def split: sum.splits prod.splits)

text \<open>Which previous states refuse which policies.\<close>

lemma resume_refused_iff:
  "\<not> rd_allowed (resume_decide prev policy) \<longleftrightarrow>
     (\<exists>s. prev = Some s \<and>
       (js_status s = ''committed'' \<and> policy \<noteq> ''restart'' \<or> js_status s = ''running'' \<or>
        js_resumable s \<and> policy \<notin> {''resume'', ''restart''}))"
  by (cases prev) (auto simp: resume_decide_def supported_policies_def Let_def)

section \<open>A run on a durable store\<close>

context durable_job_store
begin

lemma started_marks:
  assumes "get (ow_jobs w) run_id = Inr prev"
  shows "\<exists>js j. jo_started (store t) (ow_jobs w) (started_args out run_id q) = Inr (js, j) \<and>
    job_marked get j run_id js ''started'' False"
  using started_law [of "ow_jobs w" "started_args out run_id q" prev t] assms by (simp add: started_args_def)

text \<open>Until the executor is called: the state is \<open>running\<close>, the rest of the world as it was.\<close>

lemma run_locked_reaches_executor:
  assumes "get (ow_jobs w) run_id = Inr prev"
  shows "\<exists>run j. job_marked get j run_id run ''running'' False \<and> js_attempt run = 1 \<and>
    run_locked store exec clock out run_id q replaced handoff w =
      (case exec q (w\<lparr>ow_jobs := j\<rparr>) of
         (Inl e, w3) \<Rightarrow> (Inl e, w3)
       | (Inr r, w3) \<Rightarrow>
           on_store (\<lambda>j. if rr_passed r
               then jo_committed (store (rk_now clock 2)) j run_id (run_result_to_dict r)
               else jo_failed (store (rk_now clock 2)) j run_id (result_blockers r) (run_result_to_dict r))
             w3 (\<lambda>final w4.
               let report = with_job_state (finished_report out q r replaced handoff) final in
               (Inr report, write_report out report w4)))"
proof -
  obtain js j1 where 1: "jo_started (store (rk_now clock 0)) (ow_jobs w) (started_args out run_id q) = Inr (js, j1)"
    "job_marked get j1 run_id js ''started'' False"
    using started_marks [OF assms] by blast
  obtain run j2 where 2: "jo_running (store (rk_now clock 1)) j1 run_id 1 = Inr (run, j2)"
    "job_marked get j2 run_id run ''running'' False" "js_attempt run = 1"
    using running_law [OF job_marked_known [OF 1(2)]] by blast
  have "js_run_id js = run_id" using 1(2) by (simp add: job_marked_def)
  with 1 2 show ?thesis
    by (intro exI [of _ run] exI [of _ j2]) (simp add: run_locked_def on_store_Inr cong: if_cong sum.case_cong prod.case_cong)
qed

text \<open>
  The whole of an accepted run, when the executor returns and leaves the run's own state and
  lock alone: the state reads back as the outcome, the lock is free, the report agrees.
\<close>

lemma run_recorded:
  assumes "get (ow_jobs w) (state_run_id q) = Inr prev"
    and "rd_allowed (resume_decide prev (oq_resume_policy q))"
    and "lock_acquire ldir (ow_locks w) (effective_key q) (oq_lock_ttl_seconds q) (rk_check clock)
           (rk_created clock) (rk_token clock) = (l, locks)" "rl_acquired l"
    and exec: "\<And>w1. fst (exec q w1) = Inr result"
    and keeps: "\<And>w1. get (ow_jobs (snd (exec q w1))) (state_run_id q) = get (ow_jobs w1) (state_run_id q)"
  shows "\<exists>js report w'. orchestrated_run store sdir ldir exec clock out q w = (Inr report, w') \<and>
    job_marked get (ow_jobs w') (state_run_id q) js
      (if rr_passed result then ''committed'' else ''failed'') (\<not> rr_passed result) \<and>
    js_run_result js = run_result_to_dict result \<and> or_passed report = rr_passed result \<and>
    or_job_state report = job_state_to_dict js \<and> dict_get (ow_reports w') out = Some report"
proof -
  let ?id = "state_run_id q"
  have "get (ow_jobs (w\<lparr>ow_locks := locks\<rparr>)) ?id = Inr prev" using assms(1) by simp
  then obtain js run j where run: "job_marked get j ?id run ''running'' False"
    and body: "run_locked store exec clock out ?id q (rl_stale_replaced l) (request_handoff sdir ldir out q)
        (w\<lparr>ow_locks := locks\<rparr>) =
      (case exec q (w\<lparr>ow_locks := locks, ow_jobs := j\<rparr>) of
         (Inl e, w3) \<Rightarrow> (Inl e, w3)
       | (Inr r, w3) \<Rightarrow>
           on_store (\<lambda>j. if rr_passed r
               then jo_committed (store (rk_now clock 2)) j ?id (run_result_to_dict r)
               else jo_failed (store (rk_now clock 2)) j ?id (result_blockers r) (run_result_to_dict r))
             w3 (\<lambda>final w4.
               let report = with_job_state (finished_report out q r (rl_stale_replaced l)
                 (request_handoff sdir ldir out q)) final in
               (Inr report, write_report out report w4)))"
    using run_locked_reaches_executor
      [where w = "w\<lparr>ow_locks := locks\<rparr>" and run_id = ?id and prev = prev and clock = clock
        and exec = exec and out = out and q = q and replaced = "rl_stale_replaced l"
        and handoff = "request_handoff sdir ldir out q"]
    by auto
  define w1 where "w1 = w\<lparr>ow_locks := locks, ow_jobs := j\<rparr>"
  define w3 where "w3 = snd (exec q w1)"
  have e: "exec q w1 = (Inr result, w3)"
    using exec [of w1] by (simp add: w3_def prod_eq_iff)
  have known: "job_known get (ow_jobs w3) ?id"
    using run keeps [of w1] by (auto simp: w3_def w1_def job_known_def job_marked_def)
  obtain final j' where f:
    "(if rr_passed result then jo_committed (store (rk_now clock 2)) (ow_jobs w3) ?id (run_result_to_dict result)
      else jo_failed (store (rk_now clock 2)) (ow_jobs w3) ?id (result_blockers result) (run_result_to_dict result)) =
      Inr (final, j')"
    "job_marked get j' ?id final (if rr_passed result then ''committed'' else ''failed'') (\<not> rr_passed result)"
    "js_run_result final = run_result_to_dict result"
    using committed_law [OF known, of "rk_now clock 2" "run_result_to_dict result"]
      failed_law [OF known, of "rk_now clock 2" "result_blockers result" "run_result_to_dict result"]
    by (cases "rr_passed result") (auto simp: run_result_to_dict_def)
  have get: "jo_get (store (rk_now clock 0)) (ow_jobs w) ?id = Inr prev"
    using assms(1) get_law by simp
  show ?thesis
    unfolding run_with_lock [where store = store and clock = clock, OF get assms(2-4)] body w1_def [symmetric] e prod.case sum.case
    using f by (auto simp: on_store_def Let_def release_after_def write_report_def with_job_state_def finished_report_def)
qed

lemma run_raises:
  assumes "get (ow_jobs w) (state_run_id q) = Inr prev"
    and "rd_allowed (resume_decide prev (oq_resume_policy q))"
    and "lock_acquire ldir (ow_locks w) (effective_key q) (oq_lock_ttl_seconds q) (rk_check clock)
           (rk_created clock) (rk_token clock) = (l, locks)" "rl_acquired l"
    and exec: "\<And>w1. fst (exec q w1) = Inl e"
    and keeps: "\<And>w1. get (ow_jobs (snd (exec q w1))) (state_run_id q) = get (ow_jobs w1) (state_run_id q)"
  shows "\<exists>js w'. orchestrated_run store sdir ldir exec clock out q w = (Inl e, w') \<and>
    job_marked get (ow_jobs w') (state_run_id q) js ''running'' False"
proof -
  let ?id = "state_run_id q"
  have get: "jo_get (store (rk_now clock 0)) (ow_jobs w) ?id = Inr prev"
    using assms(1) get_law by simp
  have "get (ow_jobs (w\<lparr>ow_locks := locks\<rparr>)) ?id = Inr prev" using assms(1) by simp
  then obtain js run j where run: "job_marked get j ?id run ''running'' False"
    and body: "run_locked store exec clock out ?id q (rl_stale_replaced l) (request_handoff sdir ldir out q)
        (w\<lparr>ow_locks := locks\<rparr>) = (Inl e, snd (exec q (w\<lparr>ow_locks := locks, ow_jobs := j\<rparr>)))"
    using run_locked_reaches_executor
        [where w = "w\<lparr>ow_locks := locks\<rparr>" and run_id = ?id and prev = prev and clock = clock
        and exec = exec and out = out and q = q and replaced = "rl_stale_replaced l"
        and handoff = "request_handoff sdir ldir out q"]
      exec by (auto simp: case_prod_unfold)
  have "job_marked get (ow_jobs (snd (exec q (w\<lparr>ow_locks := locks, ow_jobs := j\<rparr>)))) ?id run ''running'' False"
    using run keeps [of "w\<lparr>ow_locks := locks, ow_jobs := j\<rparr>"] by (simp add: job_marked_def)
  then show ?thesis
    unfolding run_with_lock [where store = store and clock = clock, OF get assms(2-4)] body
    by (auto simp: release_after_def)
qed

text \<open>An attempt refused by the preflight rewrites the state it was refused by.\<close>

lemma refused_attempt_rewrites:
  assumes known: "job_known get (ow_jobs w) (state_run_id q)" and "get (ow_jobs w) (state_run_id q) = Inr prev"
    and "\<not> rd_allowed (resume_decide prev (oq_resume_policy q))"
  shows "\<exists>js report w'. orchestrated_run store sdir ldir exec clock out q w = (Inr report, w') \<and>
    job_marked get (ow_jobs w') (state_run_id q) js ''blocked'' True \<and> \<not> or_passed report"
proof -
  let ?b = "rd_blockers (resume_decide prev (oq_resume_policy q))"
  obtain js j where b: "jo_blocked (store (rk_now clock 0)) (ow_jobs w) (state_run_id q) ?b = Inr (js, j)"
    "job_marked get j (state_run_id q) js ''blocked'' True"
    using blocked_law [OF known, of "rk_now clock 0" ?b] by blast
  have get: "jo_get (store (rk_now clock 0)) (ow_jobs w) (state_run_id q) = Inr prev"
    using assms(2) get_law by simp
  show ?thesis
    unfolding run_preflight_blocked [where store = store and clock = clock, OF get assms(3)] Let_def
    using b by (auto simp: on_store_def with_job_state_def preflight_blocked_report_def blocked_report_def)
qed

end

section \<open>The local store keeps the contract\<close>

lemma job_transition_marks:
  assumes "job_known (job_get dir) files run_id"
  shows "\<exists>js files'. job_transition dir now files run_id status attempt blockers result b = Inr (js, files') \<and>
    job_marked (job_get dir) files' run_id js status b \<and> (\<forall>n. attempt = Some n \<longrightarrow> js_attempt js = n) \<and>
    js_blockers js = blockers \<and> (result \<noteq> [] \<longrightarrow> js_run_result js = result)"
proof -
  from assms obtain p where p: "job_get dir files run_id = Inr (Some p)" "js_run_id p = run_id"
    by (auto simp: job_known_def)
  obtain js files' where t: "job_transition dir now files run_id status attempt blockers result b = Inr (js, files')"
    using p by (simp add: job_transition_def job_write_def Let_def)
  then have w: "job_write dir files js = (js, files')" "js_state_path js = job_path dir (js_run_id js)"
    and js: "js_run_id js = run_id" "js_status js = status" "js_resumable js = b"
      "\<forall>n. attempt = Some n \<longrightarrow> js_attempt js = n" "js_blockers js = blockers"
      "result \<noteq> [] \<longrightarrow> js_run_result js = result"
    using p by (auto simp: job_transition_def job_write_def Let_def)
  from job_get_write [OF w] js have "job_marked (job_get dir) files' run_id js status b"
    by (simp add: job_marked_def)
  with t js show ?thesis by blast
qed

lemma job_mark_started_marks:
  assumes "job_get dir files (sa_run_id a) = Inr prev"
  shows "\<exists>js files'. job_mark_started dir now files a = Inr (js, files') \<and>
    job_marked (job_get dir) files' (sa_run_id a) js ''started'' False"
proof -
  obtain js files' where t: "job_mark_started dir now files a = Inr (js, files')"
    using assms by (simp add: job_mark_started_def job_write_def)
  then have w: "job_write dir files js = (js, files')" "js_state_path js = job_path dir (js_run_id js)"
    and js: "js_run_id js = sa_run_id a" "js_status js = ''started''" "\<not> js_resumable js"
    using assms by (auto simp: job_mark_started_def job_write_def)
  from job_get_write [OF w] js have "job_marked (job_get dir) files' (sa_run_id a) js ''started'' False"
    by (simp add: job_marked_def)
  with t show ?thesis by blast
qed

interpretation local_jobs: durable_job_store "local_job_ops dir" "job_get dir" for dir
proof
  fix t s run_id and n :: int and blockers :: "string list" and result :: "(string \<times> pyval) list"
  show "jo_get (local_job_ops dir t) = job_get dir"
    by (simp add: local_job_ops_def)
  assume k: "job_known (job_get dir) s run_id"
  show "\<exists>js s'. jo_running (local_job_ops dir t) s run_id n = Inr (js, s') \<and>
      job_marked (job_get dir) s' run_id js ''running'' False \<and> js_attempt js = n"
    using job_transition_marks [OF k, where now = t and status = "''running''" and attempt = "Some n"
        and blockers = "[]" and result = "[]" and b = False]
    by (auto simp: local_job_ops_def)
  show "\<exists>js s'. jo_committed (local_job_ops dir t) s run_id result = Inr (js, s') \<and>
      job_marked (job_get dir) s' run_id js ''committed'' False \<and> (result \<noteq> [] \<longrightarrow> js_run_result js = result)"
    using job_transition_marks [OF k, where now = t and status = "''committed''" and attempt = None
        and blockers = "[]" and result = result and b = False]
    by (auto simp: local_job_ops_def)
  show "\<exists>js s'. jo_failed (local_job_ops dir t) s run_id blockers result = Inr (js, s') \<and>
      job_marked (job_get dir) s' run_id js ''failed'' True \<and> js_blockers js = blockers \<and>
      (result \<noteq> [] \<longrightarrow> js_run_result js = result)"
    using job_transition_marks [OF k, where now = t and status = "''failed''" and attempt = None
        and blockers = blockers and result = result and b = True]
    by (auto simp: local_job_ops_def)
  show "\<exists>js s'. jo_blocked (local_job_ops dir t) s run_id blockers = Inr (js, s') \<and>
      job_marked (job_get dir) s' run_id js ''blocked'' True \<and> js_blockers js = blockers"
    using job_transition_marks [OF k, where now = t and status = "''blocked''" and attempt = None
        and blockers = blockers and result = "[]" and b = True]
    by (auto simp: local_job_ops_def)
next
  fix t s prev and a :: start_args
  assume "job_get dir s (sa_run_id a) = Inr prev"
  then show "\<exists>js s'. jo_started (local_job_ops dir t) s a = Inr (js, s') \<and>
      job_marked (job_get dir) s' (sa_run_id a) js ''started'' False"
    using job_mark_started_marks by (simp add: local_job_ops_def)
qed

section \<open>Properties\<close>

text \<open>A request, a clock, an executor that counts its calls, and two worlds, for the examples.\<close>

definition example_request :: "string \<Rightarrow> run_request" where
  "example_request policy =
     \<lparr>oq_manifest_path = ''load.yaml'', oq_selector = None, oq_run_id = Some ''r1'', oq_dag_id = None,
      oq_execution_date = PNone, oq_retry_attempts = 0, oq_retry_backoff_seconds = PFloat (Some 0) ''0.0'',
      oq_concurrency_key = None, oq_lock_ttl_seconds = 60, oq_resume_policy = policy\<rparr>"

definition example_run_clock :: run_clock where
  "example_run_clock = \<lparr>rk_now = (\<lambda>n. ''2026-01-01''), rk_check = 1000, rk_created = 1000, rk_token = ''t1''\<rparr>"

definition example_result :: run_result where
  "example_result = \<lparr>rr_manifest = ''load.yaml'', rr_process = ''p'', rr_selector = None, rr_run_id = ''r1'',
     rr_passed = True, rr_status = ''success'', rr_result = [], rr_attempts = 1, rr_max_attempts = 1,
     rr_retry_backoff_seconds = PFloat (Some 0) ''0.0''\<rparr>"

definition counting_executor :: "run_result res \<Rightarrow> (job_files, nat) run_executor" where
  "counting_executor r q w = (r, w\<lparr>ow_data := Suc (ow_data w)\<rparr>)"

definition fresh_world :: "job_files \<Rightarrow> (job_files, nat) orch_world" where
  "fresh_world files = \<lparr>ow_jobs = files, ow_locks = [], ow_reports = [], ow_data = 0\<rparr>"

definition example_job :: "string \<Rightarrow> job_state" where
  "example_job status = (created_state (job_path ''state'' ''r1'') ''2026-01-01'' ''r1'')\<lparr>js_status := status\<rparr>"

definition example_files :: "string \<Rightarrow> job_files" where
  "example_files status = snd (job_write ''state'' [] (example_job status))"

lemma example_files_get: "job_get ''state'' (example_files status) ''r1'' = Inr (Some (example_job status))"
  using job_get_write [of "''state''" "[]" "example_job status" "example_job status" "example_files status"]
  by (simp add: example_files_def job_write_def example_job_def created_state_def)

lemmas example_run = example_request_def example_run_clock_def example_result_def counting_executor_def
  fresh_world_def state_run_id_def or_text_def local_jobs.get_law

lemma example_fields [simp]:
  "oq_resume_policy (example_request policy) = policy" "oq_lock_ttl_seconds (example_request policy) = 60"
  "effective_key (example_request policy) = ''r1''"
  "ow_jobs (fresh_world files) = files" "ow_locks (fresh_world files) = []" "ow_data (fresh_world files) = 0"
  "js_status (example_job status) = status" "\<not> js_resumable (example_job status)"
  "js_run_id (example_job status) = ''r1''" "rk_check example_run_clock = 1000"
  "rk_created example_run_clock = 1000" "rk_token example_run_clock = ''t1''"
  by (simp_all add: example_run effective_key_def example_job_def created_state_def)

lemma example_run_id [simp]: "state_run_id (example_request policy) = ''r1''"
  by (simp add: example_run)

lemma example_lock_free:
  "\<exists>l locks. lock_acquire ''locks'' [] key 60 (1000::rat) 1000 ''t1'' = (l, locks) \<and> rl_acquired l"
  by (simp add: lock_acquire_def remove_stale_def Let_def)

text \<open>
  C11: A committed run (unless the policy is \<open>restart\<close>), a running one, and a resumable one
  under the default policy are refused before anything happens: the result is the same for
  every executor, so none is called, and the locks and the data stay as they were.
\<close>

theorem orch_refused_without_running:
  assumes "jo_get (store (rk_now clock 0)) (ow_jobs w) (state_run_id q) = Inr (Some s)"
    and "js_status s = ''committed'' \<and> oq_resume_policy q \<noteq> ''restart'' \<or> js_status s = ''running'' \<or>
      js_resumable s \<and> oq_resume_policy q \<notin> {''resume'', ''restart''}"
  shows "orchestrated_run store sdir ldir exec clock out q w = orchestrated_run store sdir ldir exec' clock out q w \<and>
    ow_locks (snd (orchestrated_run store sdir ldir exec clock out q w)) = ow_locks w \<and>
    ow_data (snd (orchestrated_run store sdir ldir exec clock out q w)) = ow_data w"
proof -
  have no: "\<not> rd_allowed (resume_decide (Some s) (oq_resume_policy q))"
    using assms(2) by (simp add: resume_refused_iff)
  show ?thesis
    unfolding run_preflight_blocked [where store = store and clock = clock and w = w and q = q, OF assms(1) no] Let_def
    by (intro conjI refl on_store_keeps [THEN conjunct1] on_store_keeps [THEN conjunct2]) simp_all
qed

theorem orch_refused_without_running_witness:
  "ow_data (snd (orchestrated_run (local_job_ops ''state'') None ''locks'' (counting_executor (Inr example_result))
      example_run_clock ''out'' (example_request ''resume'') (fresh_world (example_files ''committed'')))) = 0"
  using orch_refused_without_running [where store = "local_job_ops ''state''" and clock = example_run_clock
      and w = "fresh_world (example_files ''committed'')" and q = "example_request ''resume''"
      and s = "example_job ''committed''" and sdir = None and ldir = "''locks''" and out = "''out''"
      and exec = "counting_executor (Inr example_result)"]
    example_files_get [of "''committed''"]
  by (simp add: local_jobs.get_law)

text \<open>
  While the lock file of the concurrency key is younger than the time to live, no attempt
  on that key calls an executor, takes the lock or changes the data.
\<close>

theorem orch_locked_without_running:
  assumes "dict_get (ow_locks w) (lock_path ldir (effective_key q)) = Some c"
    and "lock_fresh c (oq_lock_ttl_seconds q) (rk_check clock)"
  shows "orchestrated_run store sdir ldir exec clock out q w = orchestrated_run store sdir ldir exec' clock out q w \<and>
    ow_locks (snd (orchestrated_run store sdir ldir exec clock out q w)) = ow_locks w \<and>
    ow_data (snd (orchestrated_run store sdir ldir exec clock out q w)) = ow_data w"
proof -
  obtain l locks where l: "lock_acquire ldir (ow_locks w) (effective_key q) (oq_lock_ttl_seconds q)
      (rk_check clock) (rk_created clock) (rk_token clock) = (l, locks)"
    by fastforce
  have no: "\<not> rl_acquired l"
    using assms lock_acquire_taken_iff [of ldir "ow_locks w" "effective_key q"] l by (metis fst_conv)
  show ?thesis
  proof (cases "jo_get (store (rk_now clock 0)) (ow_jobs w) (state_run_id q)")
    case (Inl e)
    then show ?thesis by (simp add: orchestrated_run_def Let_def)
  next
    case (Inr prev)
    show ?thesis
    proof (cases "rd_allowed (resume_decide prev (oq_resume_policy q))")
      case True
      show ?thesis
        unfolding run_refused_lock [where store = store and clock = clock and w = w and q = q, OF Inr True l no]
        using run_not_acquired_keeps by blast
    next
      case False
      show ?thesis
        unfolding run_preflight_blocked [where store = store and clock = clock and w = w and q = q, OF Inr False] Let_def
        by (intro conjI refl on_store_keeps [THEN conjunct1] on_store_keeps [THEN conjunct2]) simp_all
    qed
  qed
qed

theorem orch_locked_without_running_witness:
  "ow_data (snd (orchestrated_run (local_job_ops ''state'') None ''locks'' (counting_executor (Inr example_result))
      example_run_clock ''out'' (example_request ''fail'')
      ((fresh_world [])\<lparr>ow_locks := [(lock_path ''locks'' ''r1'', Some (lock_document ''r1'' ''t0'' 990))]\<rparr>))) = 0"
  using orch_locked_without_running [where store = "local_job_ops ''state''" and clock = example_run_clock
      and w = "(fresh_world [])\<lparr>ow_locks := [(lock_path ''locks'' ''r1'', Some (lock_document ''r1'' ''t0'' 990))]\<rparr>"
      and q = "example_request ''fail''" and c = "Some (lock_document ''r1'' ''t0'' 990)"
      and sdir = None and ldir = "''locks''" and out = "''out''"
      and exec = "counting_executor (Inr example_result)"]
  by (simp add: lock_fresh_def Let_def lock_payload_def)

lemma run_locked_locks:
  assumes "\<And>w1. dict_get (ow_locks (snd (exec q w1))) p = dict_get (ow_locks w1) p"
  shows "dict_get (ow_locks (snd (run_locked store exec clock out run_id q replaced handoff w))) p = dict_get (ow_locks w) p"
proof -
  have "dict_get (ow_locks w3) p = dict_get (ow_locks w1) p" if "exec q w1 = (r, w3)" for w1 w3 r
    using assms [of w1] that by simp
  then show ?thesis
    unfolding run_locked_def on_store_def Let_def by (auto split: sum.splits prod.splits)
qed

text \<open>
  C12: Whatever an accepted run ends with, an exception of the executor or of the store
  included, its lock file is gone afterwards, provided that the executor left it in place.
\<close>

theorem orch_lock_released:
  assumes "jo_get (store (rk_now clock 0)) (ow_jobs w) (state_run_id q) = Inr prev"
    and "rd_allowed (resume_decide prev (oq_resume_policy q))"
    and "\<forall>c. dict_get (ow_locks w) (lock_path ldir (effective_key q)) = Some c \<longrightarrow>
      \<not> lock_fresh c (oq_lock_ttl_seconds q) (rk_check clock)"
    and keeps: "\<And>w1. dict_get (ow_locks (snd (exec q w1))) (lock_path ldir (effective_key q)) =
      dict_get (ow_locks w1) (lock_path ldir (effective_key q))"
  shows "dict_get (ow_locks (snd (orchestrated_run store sdir ldir exec clock out q w)))
    (lock_path ldir (effective_key q)) = None"
proof -
  obtain l locks where l: "lock_acquire ldir (ow_locks w) (effective_key q) (oq_lock_ttl_seconds q)
      (rk_check clock) (rk_created clock) (rk_token clock) = (l, locks)"
    by fastforce
  have acq: "rl_acquired l"
    using assms(3) lock_acquire_taken_iff [of ldir "ow_locks w" "effective_key q"] l by (metis fst_conv)
  note own = lock_acquire_takes [OF l acq]
  let ?r = "run_locked store exec clock out (state_run_id q) q (rl_stale_replaced l)
    (request_handoff sdir ldir out q) (w\<lparr>ow_locks := locks\<rparr>)"
  have doc: "dict_get (ow_locks (snd ?r)) (rl_path l) =
      Some (Some (lock_document (effective_key q) (rk_token clock) (rk_created clock)))"
    using own run_locked_locks [where exec = exec and q = q and p = "rl_path l", OF keeps [folded own(2)]] by simp
  show ?thesis
    unfolding run_with_lock [where store = store and clock = clock and w = w and q = q, OF assms(1,2) l acq] own(2) [symmetric]
    using lock_release_owned [OF acq doc] own(1) by simp
qed

theorem orch_lock_released_witness:
  "dict_get (ow_locks (snd (orchestrated_run (local_job_ops ''state'') None ''locks''
      (counting_executor (Inl (RuntimeError ''lost''))) example_run_clock ''out'' (example_request ''fail'') (fresh_world []))))
    (lock_path ''locks'' ''r1'') = None"
  using orch_lock_released [where store = "local_job_ops ''state''" and clock = example_run_clock
      and w = "fresh_world []" and q = "example_request ''fail''" and prev = None
      and sdir = None and ldir = "''locks''" and out = "''out''"
      and exec = "counting_executor (Inl (RuntimeError ''lost''))"]
  by (simp add: local_jobs.get_law job_get_def resume_decide_def Let_def counting_executor_def)

text \<open>
  On the local store, a run that is accepted, gets the lock and whose executor returns
  leaves the run's state file as \<open>committed\<close> or as \<open>failed\<close> and resumable according to the
  result, with the result in it; the report returned is the one written, and it holds that state.
\<close>

theorem orch_outcome_recorded:
  assumes "job_get dir (ow_jobs w) (state_run_id q) = Inr prev"
    and "rd_allowed (resume_decide prev (oq_resume_policy q))"
    and "lock_acquire ldir (ow_locks w) (effective_key q) (oq_lock_ttl_seconds q) (rk_check clock)
           (rk_created clock) (rk_token clock) = (l, locks)" "rl_acquired l"
    and "\<And>w1. fst (exec q w1) = Inr result"
    and "\<And>w1. job_get dir (ow_jobs (snd (exec q w1))) (state_run_id q) = job_get dir (ow_jobs w1) (state_run_id q)"
  shows "\<exists>js report w'. orchestrated_run (local_job_ops dir) sdir ldir exec clock out q w = (Inr report, w') \<and>
    job_get dir (ow_jobs w') (state_run_id q) = Inr (Some js) \<and>
    js_status js = (if rr_passed result then ''committed'' else ''failed'') \<and>
    js_resumable js = (\<not> rr_passed result) \<and> js_run_result js = run_result_to_dict result \<and>
    or_passed report = rr_passed result \<and> or_job_state report = job_state_to_dict js \<and>
    dict_get (ow_reports w') out = Some report"
proof -
  from local_jobs.run_recorded [where exec = exec and w = w and q = q and clock = clock, OF assms]
  obtain js report w' where "orchestrated_run (local_job_ops dir) sdir ldir exec clock out q w = (Inr report, w')"
    "job_marked (job_get dir) (ow_jobs w') (state_run_id q) js
      (if rr_passed result then ''committed'' else ''failed'') (\<not> rr_passed result)"
    "js_run_result js = run_result_to_dict result" "or_passed report = rr_passed result"
    "or_job_state report = job_state_to_dict js" "dict_get (ow_reports w') out = Some report"
    by blast
  then show ?thesis by (auto simp: job_marked_def)
qed

theorem orch_outcome_recorded_witness:
  "\<exists>js w'. snd (orchestrated_run (local_job_ops ''state'') None ''locks'' (counting_executor (Inr example_result))
      example_run_clock ''out'' (example_request ''fail'') (fresh_world [])) = w' \<and>
    job_get ''state'' (ow_jobs w') ''r1'' = Inr (Some js) \<and> js_status js = ''committed''"
proof -
  obtain l locks where l: "lock_acquire ''locks'' [] ''r1'' 60 1000 1000 ''t1'' = (l, locks)" "rl_acquired l"
    using example_lock_free by blast
  show ?thesis
    using orch_outcome_recorded [where dir = "''state''" and clock = example_run_clock
        and w = "fresh_world []" and q = "example_request ''fail''" and prev = None and result = example_result
        and sdir = None and ldir = "''locks''" and out = "''out''" and l = l and locks = locks
        and exec = "counting_executor (Inr example_result)"] l
    by (auto simp: job_get_def resume_decide_def Let_def counting_executor_def example_result_def)
qed

text \<open>
  When the executor raises, the exception is passed on and the state stays \<open>running\<close>, so
  that the next attempt is refused under every policy, \<open>restart\<close> included.
\<close>

theorem orch_exception_leaves_running:
  assumes "job_get dir (ow_jobs w) (state_run_id q) = Inr prev"
    and "rd_allowed (resume_decide prev (oq_resume_policy q))"
    and "lock_acquire ldir (ow_locks w) (effective_key q) (oq_lock_ttl_seconds q) (rk_check clock)
           (rk_created clock) (rk_token clock) = (l, locks)" "rl_acquired l"
    and "\<And>w1. fst (exec q w1) = Inl e"
    and "\<And>w1. job_get dir (ow_jobs (snd (exec q w1))) (state_run_id q) = job_get dir (ow_jobs w1) (state_run_id q)"
  shows "\<exists>js w'. orchestrated_run (local_job_ops dir) sdir ldir exec clock out q w = (Inl e, w') \<and>
    job_get dir (ow_jobs w') (state_run_id q) = Inr (Some js) \<and> js_status js = ''running'' \<and>
    (\<forall>policy. \<not> rd_allowed (resume_decide (Some js) policy))"
proof -
  from local_jobs.run_raises [where exec = exec and w = w and q = q and clock = clock, OF assms]
  obtain js w' where "orchestrated_run (local_job_ops dir) sdir ldir exec clock out q w = (Inl e, w')"
    "job_marked (job_get dir) (ow_jobs w') (state_run_id q) js ''running'' False"
    by blast
  then show ?thesis by (auto simp: job_marked_def resume_refused_iff)
qed

theorem orch_exception_leaves_running_witness:
  "\<exists>js w'. orchestrated_run (local_job_ops ''state'') None ''locks'' (counting_executor (Inl (RuntimeError ''lost'')))
      example_run_clock ''out'' (example_request ''restart'') (fresh_world []) = (Inl (RuntimeError ''lost''), w') \<and>
    job_get ''state'' (ow_jobs w') ''r1'' = Inr (Some js) \<and> js_status js = ''running''"
proof -
  obtain l locks where l: "lock_acquire ''locks'' [] ''r1'' 60 1000 1000 ''t1'' = (l, locks)" "rl_acquired l"
    using example_lock_free by blast
  show ?thesis
    using orch_exception_leaves_running [where dir = "''state''" and clock = example_run_clock
        and w = "fresh_world []" and q = "example_request ''restart''" and prev = None and e = "RuntimeError ''lost''"
        and sdir = None and ldir = "''locks''" and out = "''out''" and l = l and locks = locks
        and exec = "counting_executor (Inl (RuntimeError ''lost''))"] l
    by (auto simp: job_get_def resume_decide_def Let_def counting_executor_def)
qed

text \<open>
  C39: An attempt the preflight refuses overwrites the state it was refused by: a committed or
  running run becomes \<open>blocked\<close> and resumable, so that the next attempt with the policy
  \<open>resume\<close> is accepted and runs the load again, which only \<open>restart\<close> should do.
\<close>

theorem orch_refusal_forgets:
  assumes "job_get dir (ow_jobs w) (state_run_id q) = Inr (Some s)" "js_run_id s = state_run_id q"
    and "js_status s = ''committed'' \<and> oq_resume_policy q \<noteq> ''restart'' \<or> js_status s = ''running''"
  shows "\<exists>js report w'. orchestrated_run (local_job_ops dir) sdir ldir exec clock out q w = (Inr report, w') \<and>
    \<not> or_passed report \<and> job_get dir (ow_jobs w') (state_run_id q) = Inr (Some js) \<and>
    js_status js = ''blocked'' \<and> rd_allowed (resume_decide (Some js) ''resume'')"
proof -
  have "job_known (job_get dir) (ow_jobs w) (state_run_id q)"
    using assms by (auto simp: job_known_def)
  moreover have "\<not> rd_allowed (resume_decide (Some s) (oq_resume_policy q))"
    using assms(3) by (auto simp: resume_refused_iff)
  ultimately obtain js report w' where
    "orchestrated_run (local_job_ops dir) sdir ldir exec clock out q w = (Inr report, w')"
    "job_marked (job_get dir) (ow_jobs w') (state_run_id q) js ''blocked'' True" "\<not> or_passed report"
    using local_jobs.refused_attempt_rewrites [OF _ assms(1)] by blast
  moreover from this(2) have "rd_allowed (resume_decide (Some js) ''resume'')"
    by (simp add: job_marked_def resume_decide_def supported_policies_def Let_def)
  ultimately show ?thesis by (auto simp: job_marked_def)
qed

theorem orch_refusal_forgets_witness:
  "\<exists>js w'. snd (orchestrated_run (local_job_ops ''state'') None ''locks'' (counting_executor (Inr example_result))
      example_run_clock ''out'' (example_request ''fail'') (fresh_world (example_files ''committed''))) = w' \<and>
    job_get ''state'' (ow_jobs w') ''r1'' = Inr (Some js) \<and> rd_allowed (resume_decide (Some js) ''resume'')"
  using orch_refusal_forgets [where dir = "''state''" and w = "fresh_world (example_files ''committed'')"
      and q = "example_request ''fail''" and s = "example_job ''committed''" and clock = example_run_clock
      and exec = "counting_executor (Inr example_result)" and sdir = None and ldir = "''locks''" and out = "''out''"]
  by (auto simp: example_files_get)

end
