(* ===== verification/Dag_Model.thy ===== *)
theory Dag_Model
  imports Py_Value
begin

text \<open>
  The data of the dependency graph: process nodes and declared dependencies
  (\<open>src/dpone/dag/yaml_types.py\<close>, \<open>contracts/process_types.py\<close>), the few operations on paths
  the code uses, the parser of \<open>depends_on\<close> (\<open>dag/dependency_parser.py\<close>) without its
  tracer, and the node registry (\<open>dag/node_registry.py\<close>).

  Of a node's load configuration only the schema and table of the source and of the target are
  kept. A path is the text of a POSIX \<open>Path\<close>. A node is known by its name: the registry refuses a
  second node of the same name, so that the equality of nodes is the equality of names.
\<close>

section \<open>Paths\<close>

fun split_on :: "char \<Rightarrow> string \<Rightarrow> string list" where
  "split_on c [] = [[]]"
| "split_on c (x # xs) =
     (if x = c then [] # split_on c xs
      else case split_on c xs of [] \<Rightarrow> [[x]] | w # ws \<Rightarrow> (x # w) # ws)"

definition path_parts :: "string \<Rightarrow> string list" where
  "path_parts s = filter (\<lambda>p. p \<noteq> [] \<and> p \<noteq> ''.'') (split_on (CHR ''/'') s)"

text \<open>\<open>str(Path(s))\<close>: two leading slashes are kept, any other number becomes one.\<close>

definition path_root :: "string \<Rightarrow> string" where
  "path_root s =
     (if \<not> py_startswith s ''/'' then []
      else if py_startswith s ''//'' \<and> \<not> py_startswith s ''///'' then ''//'' else ''/'')"

definition path_str :: "string \<Rightarrow> string" where
  "path_str s = (let t = path_root s @ py_join ''/'' (path_parts s) in if t = [] then ''.'' else t)"

definition path_is_absolute :: "string \<Rightarrow> bool" where
  "path_is_absolute s = py_startswith s ''/''"

definition path_join :: "string \<Rightarrow> string \<Rightarrow> string" where
  "path_join a b = (if path_is_absolute b then path_str b else path_str (a @ ''/'' @ b))"

definition path_name :: "string \<Rightarrow> string" where
  "path_name s = (if path_parts s = [] then [] else last (path_parts s))"

text \<open>The part of the name before its last dot, if that dot is neither first nor last.\<close>

definition path_stem :: "string \<Rightarrow> string" where
  "path_stem s =
     (let name = path_name s;
          suffix = takeWhile (\<lambda>c. c \<noteq> CHR ''.'') (rev name);
          head = rev (drop (Suc (length suffix)) (rev name)) in
      if CHR ''.'' \<in> set name \<and> suffix \<noteq> [] \<and> head \<noteq> [] then head else name)"

section \<open>Nodes and dependencies\<close>

record dependency =
  dep_path :: string
  dep_alias :: pyval
  dep_group :: pyval

record process_node =
  pn_name :: string
  pn_config_path :: string
  pn_selector :: "string option"
  pn_dependencies :: "dependency list"
  pn_task_group :: "string option"
  pn_source :: "string option \<times> string option"
  pn_target :: "string option \<times> string option"

text \<open>Python's truth of an optional text: \<open>None\<close> and \<open>''\<close> are false.\<close>

definition some_text :: "string option \<Rightarrow> string option" where
  "some_text v = (case v of None \<Rightarrow> None | Some s \<Rightarrow> if s = [] then None else Some s)"

definition node_ref :: "process_node \<Rightarrow> string" where
  "node_ref n =
     pn_config_path n @ ''#'' @ (case some_text (pn_selector n) of None \<Rightarrow> pn_name n | Some s \<Rightarrow> s)"

definition has_dependencies :: "process_node \<Rightarrow> bool" where
  "has_dependencies n = (0 < length (pn_dependencies n))"

text \<open>\<open>(node.selector and node.selector == selector) or node.name == selector\<close>.\<close>

definition selected_by :: "process_node \<Rightarrow> string \<Rightarrow> bool" where
  "selected_by n sel = (some_text (pn_selector n) = Some sel \<or> pn_name n = sel)"

section \<open>Parsing depends_on\<close>

text \<open>The alias and the group of an entry are carried along, whatever their type.\<close>

definition dag_error :: "string \<Rightarrow> py_exn" where
  "dag_error msg = AppError ''DagConfigurationError'' msg"

definition parse_group_dependency :: "(string \<times> pyval) list \<Rightarrow> dependency" where
  "parse_group_dependency d =
     \<lparr>dep_path = [], dep_alias = py_get d ''alias'', dep_group = py_get d ''group''\<rparr>"

definition parse_path_dependency :: "string option \<Rightarrow> (string \<times> pyval) list \<Rightarrow> dependency res" where
  "parse_path_dependency base d =
     (case py_get d ''path'' of
        PStr raw0 \<Rightarrow>
          if py_strip raw0 = [] then Inl (dag_error ''depends_on.path'')
          else
            (let raw = py_strip raw0; alias = py_get d ''alias''; resolve = (\<lambda>p. case base of Some b \<Rightarrow> path_join b p | None \<Rightarrow> path_str p) in
            if py_startswith raw ''#'' then
              (let selector = py_strip (tl raw) in
               if selector = [] then Inl (dag_error ''#selector'')
               else Inr \<lparr>dep_path = ''#'' @ selector, dep_alias = alias, dep_group = PNone\<rparr>)
            else if CHR ''#'' \<in> set raw then
              (let (f, s) = py_split1 (CHR ''#'') raw; file_part = py_strip f; selector = py_strip s in
               if file_part = [] then Inl (dag_error ''path#selector: path'')
               else if selector = [] then Inl (dag_error ''path#selector: selector'')
               else Inr \<lparr>dep_path = resolve file_part @ ''#'' @ selector, dep_alias = alias, dep_group = PNone\<rparr>)
            else Inr \<lparr>dep_path = resolve raw, dep_alias = alias, dep_group = PNone\<rparr>)
      | _ \<Rightarrow> Inl (dag_error ''depends_on.path''))"

definition parse_dependency :: "string option \<Rightarrow> pyval \<Rightarrow> dependency res" where
  "parse_dependency base dep =
     bind_res (case dep of PStr s \<Rightarrow> Inr [(''path'', PStr s)] | PDict d \<Rightarrow> Inr d
               | _ \<Rightarrow> Inl (dag_error ''depends_on entry'')) (\<lambda>d.
       if py_has d ''group'' then Inr (parse_group_dependency d)
       else if py_has d ''path'' then parse_path_dependency base d
       else Inl (dag_error ''depends_on: path or group''))"

definition parse_dependencies :: "string option \<Rightarrow> pyval \<Rightarrow> dependency list res" where
  "parse_dependencies base raw =
     (case raw of
        PDict d \<Rightarrow> map_res (parse_dependency base) [PDict d]
      | PStr s \<Rightarrow> map_res (parse_dependency base) [PStr s]
      | PNone \<Rightarrow> Inr []
      | PList xs \<Rightarrow> map_res (parse_dependency base) xs
      | _ \<Rightarrow> Inl (dag_error ''depends_on''))"

section \<open>The registry\<close>

record registry =
  rg_nodes :: "(string, process_node) dict"
  rg_by_path :: "(string, process_node list) dict"
  rg_by_ref :: "(string, process_node) dict"
  rg_by_group :: "(string, process_node list) dict"

definition empty_registry :: registry where
  "empty_registry = \<lparr>rg_nodes = [], rg_by_path = [], rg_by_ref = [], rg_by_group = []\<rparr>"

text \<open>\<open>d.get(k, [])\<close> and \<open>d[k].append(x)\<close> on a \<open>defaultdict(list)\<close>.\<close>

definition get_list :: "(string, 'a list) dict \<Rightarrow> string \<Rightarrow> 'a list" where
  "get_list d k = (case dict_get d k of None \<Rightarrow> [] | Some xs \<Rightarrow> xs)"

definition add_to :: "(string, 'a list) dict \<Rightarrow> string \<Rightarrow> 'a \<Rightarrow> (string, 'a list) dict" where
  "add_to d k x = dict_set d k (get_list d k @ [x])"

definition registry_add :: "registry \<Rightarrow> process_node \<Rightarrow> registry res" where
  "registry_add r n =
     (if dict_get (rg_nodes r) (pn_name n) \<noteq> None then Inl (ValueError ''Duplicate process name detected'')
      else if dict_get (rg_by_ref r) (node_ref n) \<noteq> None then Inl (ValueError ''Duplicate process ref detected'')
      else Inr \<lparr>rg_nodes = dict_set (rg_nodes r) (pn_name n) n,
                rg_by_path = add_to (rg_by_path r) (pn_config_path n) n,
                rg_by_ref = dict_set (rg_by_ref r) (node_ref n) n,
                rg_by_group = (case some_text (pn_task_group n) of None \<Rightarrow> rg_by_group r
                               | Some g \<Rightarrow> add_to (rg_by_group r) g n)\<rparr>)"

definition registry_find :: "registry \<Rightarrow> string \<Rightarrow> string \<Rightarrow> process_node option" where
  "registry_find r path sel =
     (case dict_get (rg_by_ref r) (path @ ''#'' @ sel) of
        Some n \<Rightarrow> Some n
      | None \<Rightarrow> find (\<lambda>n. selected_by n sel) (get_list (rg_by_path r) path))"

fun registry_add_all :: "registry \<Rightarrow> process_node list \<Rightarrow> registry res" where
  "registry_add_all r [] = Inr r"
| "registry_add_all r (n # ns) = bind_res (registry_add r n) (\<lambda>r'. registry_add_all r' ns)"

lemma get_list_add_to [simp]:
  "get_list (add_to d k x) k' = (if k' = k then get_list d k @ [x] else get_list d k')"
  by (simp add: get_list_def add_to_def)

lemma get_list_Nil [simp]: "get_list [] k = []"
  by (simp add: get_list_def)

text \<open>
  What the registry knows after a list of nodes has been added: every index is the list of the
  nodes in order, by name, by file, by reference and by group.
\<close>

definition registry_of :: "registry \<Rightarrow> process_node list \<Rightarrow> bool" where
  "registry_of r ns \<longleftrightarrow>
     rg_nodes r = map (\<lambda>n. (pn_name n, n)) ns \<and> distinct (map pn_name ns) \<and>
     rg_by_ref r = map (\<lambda>n. (node_ref n, n)) ns \<and> distinct (map node_ref ns) \<and>
     (\<forall>p. get_list (rg_by_path r) p = filter (\<lambda>n. pn_config_path n = p) ns) \<and>
     (\<forall>g. get_list (rg_by_group r) g = filter (\<lambda>n. some_text (pn_task_group n) = Some g) ns)"

lemma map_of_index_None: "map_of (map (\<lambda>n. (f n, n)) ns) k = None \<longleftrightarrow> k \<notin> f ` set ns"
  by (induction ns) auto

lemma map_of_index_Some:
  "distinct (map f ns) \<Longrightarrow> map_of (map (\<lambda>n. (f n, n)) ns) k = Some n \<longleftrightarrow> n \<in> set ns \<and> f n = k"
  by (induction ns) (auto simp: image_iff)

lemma registry_of_empty: "registry_of empty_registry []"
  by (simp add: registry_of_def empty_registry_def)

lemma registry_add_refuses:
  assumes "registry_of r ns"
  shows "(\<exists>e. registry_add r n = Inl e) \<longleftrightarrow> pn_name n \<in> pn_name ` set ns \<or> node_ref n \<in> node_ref ` set ns"
  using assms by (auto simp: registry_of_def registry_add_def map_of_index_None [THEN iffD2] map_of_index_None
    dest!: map_of_index_None [THEN iffD1])

lemma registry_add_extends:
  assumes "registry_of r ns" "registry_add r n = Inr r'"
  shows "registry_of r' (ns @ [n])"
proof -
  from assms have new: "pn_name n \<notin> pn_name ` set ns" "node_ref n \<notin> node_ref ` set ns"
    using registry_add_refuses [OF assms(1), of n] by auto
  then have "dict_set (rg_nodes r) (pn_name n) n = rg_nodes r @ [(pn_name n, n)]"
    "dict_set (rg_by_ref r) (node_ref n) n = rg_by_ref r @ [(node_ref n, n)]"
    using assms(1) by (auto intro!: dict_set_keys_absent simp: registry_of_def image_iff)
  with assms new show ?thesis
    by (auto simp: registry_of_def registry_add_def split: if_splits option.splits)
qed

lemma registry_add_all_of:
  assumes "registry_of r ns" "registry_add_all r ms = Inr r'"
  shows "registry_of r' (ns @ ms)"
  using assms
proof (induction ms arbitrary: r ns)
  case (Cons m ms)
  then obtain r1 where "registry_add r m = Inr r1" "registry_add_all r1 ms = Inr r'"
    by (auto simp: bind_res_eq_Inr)
  with Cons.IH [of r1 "ns @ [m]"] Cons.prems(1) show ?case
    by (simp add: registry_add_extends)
qed simp

end
