(* ===== verification/Dag_Edges.thy ===== *)
theory Dag_Edges
  imports Dag_Model
begin

text \<open>
  From declared dependencies to edges (\<open>src/dpone/dag/edge_resolver.py\<close>): the indexes, the
  resolution of a reference to task names, the contribution of one declaration, and the
  adjacency. A set of names is the list of its members in the order they were added; the order
  in which Python would iterate over it is not fixed, and no property depends on it.
\<close>

section \<open>Indexes\<close>

record group_trigger =
  gt_task_name :: string
  gt_selector :: "string option"
  gt_dep_index :: nat
  gt_alias :: pyval

definition trigger_to_jsonable :: "group_trigger \<Rightarrow> pyval" where
  "trigger_to_jsonable t = PDict
     [(''task_name'', PStr (gt_task_name t)),
      (''selector'', (case gt_selector t of None \<Rightarrow> PNone | Some s \<Rightarrow> PStr s)),
      (''dep_index'', PInt (int (gt_dep_index t))), (''alias'', gt_alias t)]"

record dep_indexes =
  ix_nodes :: "process_node list"
  ix_by_name :: "(string, process_node) dict"
  ix_by_file :: "(string, process_node list) dict"
  ix_by_group :: "(string, process_node list) dict"
  ix_triggers :: "(string \<times> string, group_trigger list) dict"
  ix_all_groups :: "string list"

definition index_node :: "dep_indexes \<Rightarrow> process_node \<Rightarrow> dep_indexes" where
  "index_node ix n =
     (let ix1 = ix\<lparr>ix_by_name := dict_set (ix_by_name ix) (pn_name n) n,
                   ix_by_file := add_to (ix_by_file ix) (pn_config_path n) n\<rparr> in
      case some_text (pn_task_group n) of
        None \<Rightarrow> ix1
      | Some g \<Rightarrow> ix1\<lparr>ix_by_group := add_to (ix_by_group ix) g n, ix_all_groups := List.insert g (ix_all_groups ix)\<rparr>)"

text \<open>The group a declaration names, if it names one.\<close>

definition declared_group :: "dependency \<Rightarrow> string option" where
  "declared_group d = (if py_truthy (dep_group d) then Some (py_str (dep_group d)) else None)"

definition triggers_at :: "(string \<times> string, group_trigger list) dict \<Rightarrow> string \<times> string \<Rightarrow> group_trigger list" where
  "triggers_at d k = (case dict_get d k of None \<Rightarrow> [] | Some ts \<Rightarrow> ts)"

definition index_trigger ::
  "string \<Rightarrow> process_node \<Rightarrow> (string \<times> string, group_trigger list) dict \<Rightarrow> nat \<times> dependency
    \<Rightarrow> (string \<times> string, group_trigger list) dict" where
  "index_trigger own n d = (\<lambda>(i, dep).
     (case declared_group dep of
        None \<Rightarrow> d
      | Some g \<Rightarrow> dict_set d (g, own) (triggers_at d (g, own) @
          [\<lparr>gt_task_name = pn_name n, gt_selector = pn_selector n, gt_dep_index = i, gt_alias = dep_alias dep\<rparr>])))"

definition index_triggers ::
  "(string \<times> string, group_trigger list) dict \<Rightarrow> process_node \<Rightarrow> (string \<times> string, group_trigger list) dict" where
  "index_triggers d n =
     (case some_text (pn_task_group n) of
        None \<Rightarrow> d
      | Some own \<Rightarrow> foldl (index_trigger own n) d (enumerate 0 (pn_dependencies n)))"

definition build_indexes :: "process_node list \<Rightarrow> dep_indexes" where
  "build_indexes ns =
     (let ix = foldl index_node
        \<lparr>ix_nodes = ns, ix_by_name = [], ix_by_file = [], ix_by_group = [], ix_triggers = [], ix_all_groups = []\<rparr> ns
      in ix\<lparr>ix_triggers := foldl index_triggers [] ns\<rparr>)"

section \<open>Resolution\<close>

record path_resolution =
  pr_upstream :: "string list"
  pr_mode :: string
  pr_detail :: "(string \<times> pyval) list"

record resolution =
  rs_task :: string
  rs_selector :: "string option"
  rs_index :: nat
  rs_kind :: string
  rs_upstream :: "string list"
  rs_downstream :: "string list"
  rs_raw_path :: "string option"
  rs_group :: "string option"
  rs_alias :: pyval
  rs_detail :: "(string \<times> pyval) list"

definition matches_edge :: "resolution \<Rightarrow> string \<Rightarrow> string \<Rightarrow> bool" where
  "matches_edge r u d = (u \<in> set (rs_upstream r) \<and> d \<in> set (rs_downstream r))"

definition split_dependency_ref :: "string \<Rightarrow> process_node \<Rightarrow> string \<times> string option" where
  "split_dependency_ref dep n =
     (let raw = py_strip dep in
      if raw = [] then ([], None)
      else if py_startswith raw ''#'' then (pn_config_path n, some_text (Some (py_strip (tl raw))))
      else if CHR ''#'' \<in> set raw
        then (let (f, s) = py_split1 (CHR ''#'') raw in (py_strip f, some_text (Some (py_strip s))))
      else (raw, None))"

definition py_opt :: "string option \<Rightarrow> pyval" where
  "py_opt v = (case v of None \<Rightarrow> PNone | Some s \<Rightarrow> PStr s)"

definition match_count :: "string list \<Rightarrow> string \<times> pyval" where
  "match_count ms = (''match_count'', PInt (int (length ms)))"

text \<open>The group named by the last component of the path, with or without its suffix.\<close>

definition recovered_group :: "dep_indexes \<Rightarrow> string \<Rightarrow> (string \<times> string) option" where
  "recovered_group ix raw =
     find (\<lambda>(g, by). g \<noteq> [] \<and> g \<in> set (ix_all_groups ix)) [(path_name raw, ''basename''), (path_stem raw, ''stem'')]"

definition resolve_dependency_path :: "string \<Rightarrow> process_node \<Rightarrow> dep_indexes \<Rightarrow> path_resolution" where
  "resolve_dependency_path dep n ix =
     (let raw = py_strip dep; names = map pn_name in
      if raw = [] then \<lparr>pr_upstream = [], pr_mode = ''unresolved'', pr_detail = [(''raw'', PStr dep)]\<rparr>
      else if raw \<in> set (ix_all_groups ix) then
        (let ms = names (get_list (ix_by_group ix) raw) in
         \<lparr>pr_upstream = ms, pr_mode = ''group_string'',
          pr_detail = [(''group'', PStr raw), match_count ms, (''matched_by'', PStr ''exact'')]\<rparr>)
      else
        case dict_get (ix_by_name ix) raw of
          Some m \<Rightarrow> \<lparr>pr_upstream = [pn_name m], pr_mode = ''task_id'', pr_detail = [(''task_id'', PStr raw)]\<rparr>
        | None \<Rightarrow>
            (case split_dependency_ref raw n of
               (file, Some sel) \<Rightarrow>
                 (let ms = names (filter (\<lambda>m. selected_by m sel) (get_list (ix_by_file ix) file)) in
                  \<lparr>pr_upstream = ms, pr_mode = ''selector'',
                   pr_detail = [(''file'', PStr file), (''selector'', PStr sel), match_count ms]\<rparr>)
             | (file, None) \<Rightarrow>
                 (let ms = names (get_list (ix_by_file ix) file) in
                  if ms \<noteq> [] then
                    \<lparr>pr_upstream = ms, pr_mode = ''file'', pr_detail = [(''file'', PStr file), match_count ms]\<rparr>
                  else
                    case recovered_group ix raw of
                      Some (g, by) \<Rightarrow>
                        (let gs = names (get_list (ix_by_group ix) g) in
                         \<lparr>pr_upstream = gs, pr_mode = ''group_string'',
                          pr_detail = [(''group'', PStr g), match_count gs, (''matched_by'', PStr by), (''raw'', PStr raw)]\<rparr>)
                    | None \<Rightarrow>
                        (let stem = path_stem raw;
                             ss = names (filter (\<lambda>m. path_stem (pn_config_path m) = stem) (ix_nodes ix)) in
                         if ss \<noteq> [] then
                           \<lparr>pr_upstream = ss, pr_mode = ''stem'', pr_detail = [(''stem'', PStr stem), match_count ss]\<rparr>
                         else
                           \<lparr>pr_upstream = [], pr_mode = ''unresolved'',
                            pr_detail = [(''raw'', PStr raw), (''file_part'', PStr file), (''selector'', PNone)]\<rparr>))))"

definition kind_map :: "(string, string) dict" where
  "kind_map =
     [(''task_id'', ''depends_on_task_id''), (''group_string'', ''depends_on_group_string''),
      (''selector'', ''depends_on_selector''), (''file'', ''depends_on_file_all''),
      (''stem'', ''depends_on_stem_fallback''), (''unresolved'', ''unresolved'')]"

definition resolve_declared_dependency :: "process_node \<Rightarrow> dependency \<Rightarrow> nat \<Rightarrow> dep_indexes \<Rightarrow> resolution" where
  "resolve_declared_dependency n dep i ix =
     (case declared_group dep of
        Some g \<Rightarrow>
          (let ups = map pn_name (get_list (ix_by_group ix) g) in
           case some_text (pn_task_group n) of
             Some own \<Rightarrow>
               \<lparr>rs_task = pn_name n, rs_selector = pn_selector n, rs_index = i, rs_kind = ''group_to_group'',
                rs_upstream = ups, rs_downstream = map pn_name (get_list (ix_by_group ix) own), rs_raw_path = None,
                rs_group = Some g, rs_alias = dep_alias dep,
                rs_detail = [(''upstream_group'', PStr g), (''downstream_group'', PStr own),
                  (''trigger_task'', PStr (pn_name n)), (''trigger_selector'', py_opt (pn_selector n))]\<rparr>
           | None \<Rightarrow>
               \<lparr>rs_task = pn_name n, rs_selector = pn_selector n, rs_index = i, rs_kind = ''group_to_task'',
                rs_upstream = ups, rs_downstream = [pn_name n], rs_raw_path = None,
                rs_group = Some g, rs_alias = dep_alias dep,
                rs_detail = [(''group'', PStr g),
                  (''trigger_task'', PStr (pn_name n)), (''trigger_selector'', py_opt (pn_selector n))]\<rparr>)
      | None \<Rightarrow>
          (let p = resolve_dependency_path (dep_path dep) n ix in
           \<lparr>rs_task = pn_name n, rs_selector = pn_selector n, rs_index = i,
            rs_kind = (case dict_get kind_map (pr_mode p) of Some k \<Rightarrow> k | None \<Rightarrow> ''depends_on_other''),
            rs_upstream = pr_upstream p, rs_downstream = [pn_name n], rs_raw_path = Some (dep_path dep),
            rs_group = None, rs_alias = dep_alias dep, rs_detail = pr_detail p\<rparr>))"

definition resolve_node_dependencies :: "dep_indexes \<Rightarrow> process_node \<Rightarrow> resolution list" where
  "resolve_node_dependencies ix n =
     map (\<lambda>(i, dep). resolve_declared_dependency n dep i ix) (enumerate 0 (pn_dependencies n))"

definition collect_resolutions :: "process_node list \<Rightarrow> dep_indexes \<Rightarrow> resolution list" where
  "collect_resolutions ns ix = concat (map (resolve_node_dependencies ix) ns)"

section \<open>Edges\<close>

type_synonym adjacency = "(string, string list) dict"

definition add_edge :: "adjacency \<Rightarrow> string \<times> string \<Rightarrow> adjacency" where
  "add_edge adj = (\<lambda>(u, d). dict_set adj u (List.insert d (get_list adj u)))"

text \<open>The pairs of the nested loops, in order, without the loops on one node.\<close>

definition resolution_edges :: "resolution \<Rightarrow> (string \<times> string) list" where
  "resolution_edges r = filter (\<lambda>(u, d). u \<noteq> d) (List.product (rs_upstream r) (rs_downstream r))"

definition adjacency_of :: "resolution list \<Rightarrow> adjacency" where
  "adjacency_of rs = foldl add_edge [] (concat (map resolution_edges rs))"

definition build_adjacency :: "process_node list \<Rightarrow> adjacency" where
  "build_adjacency ns = adjacency_of (collect_resolutions ns (build_indexes ns))"

text \<open>The edge relation of an adjacency.\<close>

definition edges_of :: "adjacency \<Rightarrow> (string \<times> string) set" where
  "edges_of adj = {(u, d). d \<in> set (get_list adj u)}"

lemma set_insert_list [simp]: "set (List.insert x xs) = insert x (set xs)"
  by (rule set_insert)

lemma edges_of_add [simp]: "edges_of (add_edge adj e) = insert e (edges_of adj)"
  by (cases e) (auto simp: edges_of_def add_edge_def get_list_def split: if_splits option.splits)

lemma edges_of_adds: "edges_of (foldl add_edge adj es) = set es \<union> edges_of adj"
  by (induction es arbitrary: adj) auto

lemma edges_of_Nil [simp]: "edges_of [] = {}"
  by (simp add: edges_of_def)

lemma edges_of_adjacency:
  "(u, d) \<in> edges_of (adjacency_of rs) \<longleftrightarrow> u \<noteq> d \<and> (\<exists>r\<in>set rs. matches_edge r u d)"
  by (auto simp: adjacency_of_def edges_of_adds resolution_edges_def matches_edge_def)

section \<open>What the indexes hold\<close>

text \<open>Every index is the filter of the node list it stands for.\<close>

lemma index_node_nodes [simp]: "ix_nodes (index_node ix n) = ix_nodes ix"
  by (simp add: index_node_def Let_def split: option.split)

lemma foldl_index_nodes [simp]: "ix_nodes (foldl index_node ix ns) = ix_nodes ix"
  by (induction ns arbitrary: ix) simp_all

lemma foldl_index_file:
  "get_list (ix_by_file (foldl index_node ix ns)) f = get_list (ix_by_file ix) f @ filter (\<lambda>n. pn_config_path n = f) ns"
  by (induction ns arbitrary: ix) (auto simp: index_node_def Let_def split: option.split)

lemma foldl_index_group:
  "get_list (ix_by_group (foldl index_node ix ns)) g =
     get_list (ix_by_group ix) g @ filter (\<lambda>n. some_text (pn_task_group n) = Some g) ns"
  by (induction ns arbitrary: ix) (auto simp: index_node_def Let_def split: option.split)

lemma foldl_index_groups:
  "set (ix_all_groups (foldl index_node ix ns)) =
     set (ix_all_groups ix) \<union> {g. \<exists>n\<in>set ns. some_text (pn_task_group n) = Some g}"
  by (induction ns arbitrary: ix) (auto simp: index_node_def Let_def split: option.split)

lemma foldl_index_name:
  "distinct (map pn_name ns) \<Longrightarrow> dict_get (ix_by_name (foldl index_node ix ns)) k =
     (case find (\<lambda>n. pn_name n = k) ns of Some n \<Rightarrow> Some n | None \<Rightarrow> dict_get (ix_by_name ix) k)"
proof (induction ns arbitrary: ix)
  case (Cons n ns)
  then have "find (\<lambda>m. pn_name m = pn_name n) ns = None"
    by (auto simp: find_None_iff image_iff)
  with Cons show ?case
    by (auto simp: index_node_def Let_def split: option.split)
qed simp

lemma build_indexes_fields:
  "ix_nodes (build_indexes ns) = ns"
  "get_list (ix_by_file (build_indexes ns)) f = filter (\<lambda>n. pn_config_path n = f) ns"
  "get_list (ix_by_group (build_indexes ns)) g = filter (\<lambda>n. some_text (pn_task_group n) = Some g) ns"
  "g \<in> set (ix_all_groups (build_indexes ns)) \<longleftrightarrow> (\<exists>n\<in>set ns. some_text (pn_task_group n) = Some g)"
  by (simp_all add: build_indexes_def Let_def foldl_index_file foldl_index_group foldl_index_groups)

lemma build_indexes_name:
  "distinct (map pn_name ns) \<Longrightarrow> dict_get (ix_by_name (build_indexes ns)) k = Some n \<longleftrightarrow> n \<in> set ns \<and> pn_name n = k"
  by (auto simp: build_indexes_def Let_def foldl_index_name find_None_iff find_Some_iff in_set_conv_nth
      distinct_conv_nth split: option.split)

text \<open>Every resolved upstream name is the name of a node.\<close>

lemma resolve_path_upstream:
  "distinct (map pn_name ns) \<Longrightarrow> set (pr_upstream (resolve_dependency_path dep n (build_indexes ns))) \<subseteq> pn_name ` set ns"
  by (auto simp: resolve_dependency_path_def Let_def build_indexes_fields build_indexes_name
      split: option.split prod.split if_split intro: rev_image_eqI)

end
