(* ===== verification/Dag_Graph.thy ===== *)
theory Dag_Graph
  imports Dag_Edges
begin

text \<open>
  The dependency graph and its algorithms (\<open>src/dpone/dag/graph.py\<close>,
  \<open>graph_relationships.py\<close>, \<open>graph_algorithms.py\<close>): links between registered nodes, Kahn's
  ordering, and the search for cycles. A node is its name; the links are two dictionaries over
  names. The depth-first search has fuel for its recursion depth, \<open>None\<close> when it runs out;
  one more than the number of nodes is always enough (\<open>detect_cycles_returns\<close>).
\<close>

section \<open>Links\<close>

record dag_graph =
  dg_registry :: registry
  dg_dependents :: adjacency
  dg_upstream :: "(string, string) dict"

definition empty_graph :: dag_graph where
  "empty_graph = \<lparr>dg_registry = empty_registry, dg_dependents = [], dg_upstream = []\<rparr>"

definition graph_add_node :: "dag_graph \<Rightarrow> process_node \<Rightarrow> dag_graph res" where
  "graph_add_node g n = bind_res (registry_add (dg_registry g) n) (\<lambda>r. Inr (g\<lparr>dg_registry := r\<rparr>))"

text \<open>\<open>add_dependent\<close> appends a node that is not yet there.\<close>

definition add_dependent :: "adjacency \<Rightarrow> string \<Rightarrow> string \<Rightarrow> adjacency" where
  "add_dependent deps upstream dependent =
     (if dependent \<in> set (get_list deps upstream) then deps
      else dict_set deps upstream (get_list deps upstream @ [dependent]))"

definition add_dependency :: "dag_graph \<Rightarrow> string \<Rightarrow> string \<Rightarrow> dag_graph" where
  "add_dependency g dependent upstream =
     (if dict_get (rg_nodes (dg_registry g)) dependent \<noteq> None \<and> dict_get (rg_nodes (dg_registry g)) upstream \<noteq> None
      then g\<lparr>dg_dependents := add_dependent (dg_dependents g) upstream dependent,
             dg_upstream := (if dict_get (dg_upstream g) dependent = None
               then dict_set (dg_upstream g) dependent upstream else dg_upstream g)\<rparr>
      else g)"

definition build_relationships :: "dag_graph \<Rightarrow> dag_graph" where
  "build_relationships g =
     (let ns = map snd (rg_nodes (dg_registry g));
          rs = collect_resolutions ns (build_indexes ns) in
      foldl (\<lambda>g (u, d). add_dependency g d u) g
        (concat (map resolution_edges (filter (\<lambda>r. rs_kind r \<noteq> ''unresolved'') rs))))"

text \<open>The nodes in registration order, each with its dependents.\<close>

definition graph_links :: "dag_graph \<Rightarrow> adjacency" where
  "graph_links g = map (\<lambda>(name, n). (name, get_list (dg_dependents g) name)) (rg_nodes (dg_registry g))"

section \<open>Cycles\<close>

record dfs_state =
  ds_visited :: "string list"
  ds_stack :: "string list"
  ds_cycles :: "string list list"

fun opt_fold :: "('a \<Rightarrow> 's \<Rightarrow> 's option) \<Rightarrow> 'a list \<Rightarrow> 's \<Rightarrow> 's option" where
  "opt_fold f [] s = Some s"
| "opt_fold f (x # xs) s = (case f x s of None \<Rightarrow> None | Some s' \<Rightarrow> opt_fold f xs s')"

primrec dfs_visit :: "nat \<Rightarrow> adjacency \<Rightarrow> string list \<Rightarrow> string \<Rightarrow> dfs_state \<Rightarrow> dfs_state option" where
  "dfs_visit 0 adj path n s = None"
| "dfs_visit (Suc k) adj path n s =
     (if n \<in> set (ds_stack s)
      then Some (s\<lparr>ds_cycles := ds_cycles s @ [dropWhile (\<lambda>x. x \<noteq> n) path @ [n]]\<rparr>)
      else if n \<in> set (ds_visited s) then Some s
      else
        case opt_fold (dfs_visit k adj (path @ [n])) (get_list adj n)
               (s\<lparr>ds_visited := n # ds_visited s, ds_stack := n # ds_stack s\<rparr>) of
          None \<Rightarrow> None
        | Some s' \<Rightarrow> Some (s'\<lparr>ds_stack := removeAll n (ds_stack s')\<rparr>))"

definition dfs_root :: "adjacency \<Rightarrow> string \<Rightarrow> dfs_state \<Rightarrow> dfs_state option" where
  "dfs_root adj n s = (if n \<in> set (ds_visited s) then Some s else dfs_visit (Suc (length adj)) adj [] n s)"

definition detect_cycles :: "adjacency \<Rightarrow> string list list option" where
  "detect_cycles adj = map_option ds_cycles
     (opt_fold (dfs_root adj) (map fst adj) \<lparr>ds_visited = [], ds_stack = [], ds_cycles = []\<rparr>)"

section \<open>Topological order\<close>

type_synonym degrees = "(string, int) dict"

definition degree :: "degrees \<Rightarrow> string \<Rightarrow> int" where
  "degree d x = (case dict_get d x of None \<Rightarrow> 0 | Some v \<Rightarrow> v)"

definition in_degrees :: "adjacency \<Rightarrow> degrees" where
  "in_degrees adj =
     foldl (\<lambda>d x. dict_set d x (degree d x + 1)) (map (\<lambda>(n, ds). (n, 0)) adj) (concat (map snd adj))"

fun relax :: "string list \<Rightarrow> degrees \<Rightarrow> string list \<Rightarrow> degrees \<times> string list" where
  "relax [] d q = (d, q)"
| "relax (x # xs) d q =
     relax xs (dict_set d x (degree d x - 1)) (if degree d x - 1 = 0 then q @ [x] else q)"

definition positive :: "degrees \<Rightarrow> nat" where
  "positive d = length (filter (\<lambda>(k, v). 0 < v) d)"

lemma positive_update:
  "positive (dict_set d x v) + (if 0 < degree d x then 1 else 0) = positive d + (if 0 < v then 1 else 0)"
  by (induction d) (auto simp: positive_def degree_def)

text \<open>Each time a node enters the queue, one degree stops being positive.\<close>

lemma relax_measure: "relax xs d q = (d', q') \<Longrightarrow> length q' + positive d' \<le> length q + positive d"
proof (induction xs d q rule: relax.induct)
  case (2 x xs d q)
  have "(if degree d x - 1 = 0 then Suc (length q) else length q) + positive (dict_set d x (degree d x - 1))
      \<le> length q + positive d"
    using positive_update [where d = d and x = x and v = "degree d x - 1"]
    by (cases "degree d x = 1") (auto split: if_splits)
  with 2 show ?case by (auto split: if_splits)
qed simp

function kahn :: "adjacency \<Rightarrow> string list \<Rightarrow> degrees \<Rightarrow> string list \<Rightarrow> string list" where
  "kahn adj [] d result = result"
| "kahn adj (c # q) d result =
     (let (d', q') = relax (get_list adj c) d q in kahn adj q' d' (result @ [c]))"
  by pat_completeness auto

termination
proof (relation "measure (\<lambda>(adj, q, d, result). length q + positive d)")
  fix adj :: adjacency and c q d and result :: "string list" and x d' q'
  assume "x = relax (get_list adj c) d q" "(d', q') = x"
  then show "((adj, q', d', result @ [c]), adj, c # q, d, result) \<in> measure (\<lambda>(adj, q, d, result). length q + positive d)"
    using relax_measure [of "get_list adj c" d q d' q'] by simp
qed simp

definition cycle_message :: "adjacency \<Rightarrow> string list \<Rightarrow> string" where
  "cycle_message adj result =
     ''cyclic dependency, unprocessed: ''
       @ py_repr (PList (map PStr (filter (\<lambda>n. n \<notin> set result) (map fst adj))))
       @ (case detect_cycles adj of
            Some (c # cs) \<Rightarrow> '' cycles: '' @ py_repr (PList (map (\<lambda>c. PList (map PStr c)) (c # cs)))
          | _ \<Rightarrow> [])"

definition topological_sort :: "adjacency \<Rightarrow> string list res" where
  "topological_sort adj =
     (let d = in_degrees adj;
          result = kahn adj (filter (\<lambda>n. degree d n = 0) (map fst adj)) d [] in
      if length result \<noteq> length adj then Inl (RuntimeError (cycle_message adj result)) else Inr result)"

definition execution_order :: "dag_graph \<Rightarrow> string list res" where
  "execution_order g = topological_sort (graph_links g)"

definition graph_cycles :: "dag_graph \<Rightarrow> string list list option" where
  "graph_cycles g = detect_cycles (graph_links g)"

section \<open>Closed adjacencies\<close>

text \<open>What the links of a graph are: one entry per node, all dependents nodes.\<close>

definition closed_adjacency :: "adjacency \<Rightarrow> bool" where
  "closed_adjacency adj \<longleftrightarrow> distinct (map fst adj) \<and> (\<forall>(n, ds) \<in> set adj. set ds \<subseteq> fst ` set adj)"

lemma get_list_entry: "distinct (map fst adj) \<Longrightarrow> (n, ds) \<in> set adj \<Longrightarrow> get_list adj n = ds"
  by (simp add: get_list_def)

lemma get_list_absent: "n \<notin> fst ` set adj \<Longrightarrow> get_list adj n = []"
  by (auto simp: get_list_def split: option.split dest: map_of_SomeD intro: rev_image_eqI)

lemma closed_edges:
  assumes "closed_adjacency adj" "(u, d) \<in> edges_of adj"
  shows "u \<in> fst ` set adj" "d \<in> fst ` set adj"
proof -
  show u: "u \<in> fst ` set adj"
  proof (rule ccontr)
    assume "u \<notin> fst ` set adj"
    with assms(2) show False by (simp add: edges_of_def get_list_absent)
  qed
  then obtain ds where "(u, ds) \<in> set adj" by force
  with assms show "d \<in> fst ` set adj"
    using get_list_entry [of adj u ds] by (fastforce simp: closed_adjacency_def edges_of_def)
qed

end
