(* ===== verification/Dag_Sort.thy ===== *)
theory Dag_Sort
  imports Dag_Graph
begin

text \<open>
  Kahn's algorithm is correct: on the links of a graph it returns every node once, each after
  all it depends on, and it raises exactly when the graph has a cycle. The invariant counts
  the edges into a node from nodes that are not in the result yet.
\<close>

section \<open>Degrees\<close>

lemma degree_set [simp]: "degree (dict_set d x v) y = (if y = x then v else degree d y)"
  by (simp add: degree_def)

lemma degree_counts:
  "degree (foldl (\<lambda>d x. dict_set d x (degree d x + 1)) d xs) y = degree d y + int (count_list xs y)"
  by (induction xs arbitrary: d) auto

text \<open>The edges into \<open>x\<close> from the nodes outside \<open>R\<close>.\<close>

definition pending :: "adjacency \<Rightarrow> string set \<Rightarrow> string \<Rightarrow> nat" where
  "pending adj R x = sum_list (map (\<lambda>(n, ds). if n \<in> R then 0 else count_list ds x) adj)"

lemma degree_initial: "degree (map (\<lambda>(n, ds). (n, 0)) adj) x = 0"
  by (auto simp: degree_def split: option.split dest!: map_of_SomeD)

lemma count_concat: "count_list (concat (map snd adj)) x = pending adj {} x"
  by (induction adj) (auto simp: pending_def)

lemma degree_in_degrees: "degree (in_degrees adj) x = int (pending adj {} x)"
  by (simp add: in_degrees_def degree_counts degree_initial count_concat)

lemma pending_insert:
  assumes "distinct (map fst adj)" "c \<in> fst ` set adj" "c \<notin> R"
  shows "pending adj R x = pending adj (insert c R) x + count_list (get_list adj c) x"
  using assms
proof (induction adj)
  case (Cons e adj)
  obtain n ds where e: "e = (n, ds)" by fastforce
  show ?case
  proof (cases "n = c")
    case True
    have other: "n' \<noteq> c" if "(n', b) \<in> set adj" for n' b
      using Cons.prems(1) True e that by force
    have "pending adj (insert c R) x = pending adj R x"
      unfolding pending_def by (intro arg_cong [of _ _ sum_list] map_cong) (auto dest: other)
    with True e Cons.prems show ?thesis by (simp add: pending_def get_list_def)
  next
    case False
    with e Cons.prems Cons.IH show ?thesis by (auto simp: pending_def get_list_def)
  qed
qed simp

lemma pending_zero_entries: "pending adj R x = 0 \<longleftrightarrow> (\<forall>(n, ds)\<in>set adj. n \<in> R \<or> count_list ds x = 0)"
  by (induction adj) (auto simp: pending_def split: if_splits)

lemma pending_zero_iff:
  assumes "distinct (map fst adj)"
  shows "pending adj R x = 0 \<longleftrightarrow> (\<forall>u. (u, x) \<in> edges_of adj \<longrightarrow> u \<in> R)"
proof
  assume z: "pending adj R x = 0"
  show "\<forall>u. (u, x) \<in> edges_of adj \<longrightarrow> u \<in> R"
  proof (intro allI impI)
    fix u assume e: "(u, x) \<in> edges_of adj"
    then have "u \<in> fst ` set adj" using get_list_absent [of u adj] by (cases "u \<in> fst ` set adj") (auto simp: edges_of_def)
    then obtain ds where m: "(u, ds) \<in> set adj" by force
    with z have "u \<in> R \<or> count_list ds x = 0" by (auto simp: pending_zero_entries)
    with e m assms show "u \<in> R" by (auto simp: edges_of_def get_list_entry count_list_0_iff)
  qed
next
  assume a: "\<forall>u. (u, x) \<in> edges_of adj \<longrightarrow> u \<in> R"
  have "n \<in> R \<or> count_list ds x = 0" if "(n, ds) \<in> set adj" for n ds
    using a that assms by (auto simp: edges_of_def get_list_entry count_list_0_iff)
  then show "pending adj R x = 0"
    unfolding pending_zero_entries split_beta by (metis prod.collapse)
qed

text \<open>Which nodes one step of the loop appends to the queue.\<close>

lemma relax_result:
  assumes "relax xs d q = (d', q')" "\<And>x. int (count_list xs x) \<le> degree d x"
  shows "(\<forall>x. degree d' x = degree d x - int (count_list xs x)) \<and>
    (\<exists>new. q' = q @ new \<and> distinct new \<and> set new = {x \<in> set xs. degree d x = int (count_list xs x)})"
  using assms
proof (induction xs d q rule: relax.induct)
  case (2 x xs d q)
  let ?d = "dict_set d x (degree d x - 1)"
  have bound: "int (count_list xs y) \<le> degree ?d y" for y
    using "2.prems"(2) [of y] by (auto split: if_splits)
  have r: "relax xs ?d (if degree d x - 1 = 0 then q @ [x] else q) = (d', q')"
    using "2.prems"(1) by simp
  obtain new where new: "\<forall>y. degree d' y = degree ?d y - int (count_list xs y)"
    "q' = (if degree d x - 1 = 0 then q @ [x] else q) @ new" "distinct new"
    "set new = {y \<in> set xs. degree ?d y = int (count_list xs y)}"
    using "2.IH" [OF r bound] by blast
  have dd: "\<forall>y. degree d' y = degree d y - int (count_list (x # xs) y)"
    using new(1) by simp
  have here: "degree d y = int (count_list (x # xs) y) \<longleftrightarrow> degree ?d y = int (count_list xs y)" for y
    by auto
  show ?case
  proof (cases "degree d x - 1 = 0")
    case True
    then have no: "x \<notin> set xs" "count_list xs x = 0"
      using bound [of x] by (simp_all add: count_list_0_iff)
    have "set (x # new) = {y \<in> set (x # xs). degree d y = int (count_list (x # xs) y)}"
      unfolding here list.set(2) new(4) using True no(2) by auto
    moreover have "distinct (x # new)" "q' = q @ x # new"
      using new(2-4) no(1) True by simp_all
    ultimately show ?thesis using dd by blast
  next
    case False
    have "x \<in> set xs" if "degree ?d x = int (count_list xs x)"
      using that False count_list_0_iff [of xs x] by (cases "count_list xs x = 0") auto
    then have "set new = {y \<in> set (x # xs). degree d y = int (count_list (x # xs) y)}"
      unfolding here new(4) by auto
    moreover have "q' = q @ new" using new(2) False by simp
    ultimately show ?thesis using dd new(3) by blast
  qed
qed simp

section \<open>The invariant\<close>

definition kahn_inv :: "adjacency \<Rightarrow> string list \<Rightarrow> degrees \<Rightarrow> string list \<Rightarrow> bool" where
  "kahn_inv adj q d result \<longleftrightarrow>
     (\<forall>x. degree d x = int (pending adj (set result) x)) \<and>
     distinct (result @ q) \<and> set (result @ q) \<subseteq> fst ` set adj \<and>
     (\<forall>x\<in>fst ` set adj. pending adj (set result) x = 0 \<longleftrightarrow> x \<in> set (result @ q)) \<and>
     (\<forall>xs x ys u. result = xs @ x # ys \<longrightarrow> (u, x) \<in> edges_of adj \<longrightarrow> u \<in> set xs)"

lemma kahn_inv_start:
  assumes "closed_adjacency adj"
  shows "kahn_inv adj (filter (\<lambda>n. degree (in_degrees adj) n = 0) (map fst adj)) (in_degrees adj) []"
  using assms by (auto simp: kahn_inv_def degree_in_degrees closed_adjacency_def)

lemma kahn_inv_step:
  assumes closed: "closed_adjacency adj" and inv: "kahn_inv adj (c # q) d result"
    and relax: "relax (get_list adj c) d q = (d', q')"
  shows "kahn_inv adj q' d' (result @ [c])"
proof -
  from closed have dist: "distinct (map fst adj)" by (simp add: closed_adjacency_def)
  from inv have deg: "\<And>x. degree d x = int (pending adj (set result) x)"
    and order: "distinct (result @ c # q)" "set (result @ c # q) \<subseteq> fst ` set adj"
    and zero: "\<And>x. x \<in> fst ` set adj \<Longrightarrow> pending adj (set result) x = 0 \<longleftrightarrow> x \<in> set (result @ c # q)"
    and topo: "\<And>xs x ys u. result = xs @ x # ys \<Longrightarrow> (u, x) \<in> edges_of adj \<Longrightarrow> u \<in> set xs"
    by (auto simp: kahn_inv_def)
  have split: "pending adj (set result) x = pending adj (insert c (set result)) x + count_list (get_list adj c) x" for x
    using order by (intro pending_insert [OF dist]) auto
  then obtain new where new: "\<And>x. degree d' x = degree d x - int (count_list (get_list adj c) x)"
    "q' = q @ new" "distinct new"
    "set new = {x \<in> set (get_list adj c). degree d x = int (count_list (get_list adj c) x)}"
    using relax_result [OF relax] deg by (metis (no_types, lifting) le_add2 of_nat_mono)
  have deg': "degree d' x = int (pending adj (set (result @ [c])) x)" for x
    using new(1) [of x] deg [of x] split [of x] by simp
  have new_set: "x \<in> set new \<longleftrightarrow> x \<in> set (get_list adj c) \<and> pending adj (insert c (set result)) x = 0" for x
    using new(4) deg [of x] split [of x] by auto
  have keys: "set new \<subseteq> fst ` set adj"
    using new_set closed_edges(2) [OF closed] by (auto simp: edges_of_def)
  have fresh: "x \<notin> set (result @ c # q)" if "x \<in> set new" for x
  proof -
    from that have "0 < count_list (get_list adj c) x"
      using new_set count_list_0_iff [of "get_list adj c" x] by auto
    with split [of x] have "pending adj (set result) x \<noteq> 0" by simp
    with zero [of x] that keys show ?thesis by blast
  qed
  have zero': "pending adj (set (result @ [c])) x = 0 \<longleftrightarrow> x \<in> set ((result @ [c]) @ q')" if "x \<in> fst ` set adj" for x
    using zero [OF that] split [of x] new_set [of x] new(2) count_list_0_iff [of "get_list adj c" x] by auto
  have preds: "u \<in> set result" if "(u, c) \<in> edges_of adj" for u
    using zero [of c] order that pending_zero_iff [OF dist, of "set result" c] by auto
  have topo': "u \<in> set xs" if "result @ [c] = xs @ x # ys" "(u, x) \<in> edges_of adj" for xs x ys u
  proof (cases ys rule: rev_cases)
    case Nil
    with that preds show ?thesis by simp
  next
    case (snoc zs z)
    with that have "result = xs @ x # zs" by simp
    with topo that(2) show ?thesis by blast
  qed
  show ?thesis
    unfolding kahn_inv_def
  proof (intro conjI allI ballI impI)
    show "distinct ((result @ [c]) @ q')" using order(1) new(2,3) fresh by auto
    show "set ((result @ [c]) @ q') \<subseteq> fst ` set adj" using order(2) new(2) keys by auto
    show "degree d' x = int (pending adj (set (result @ [c])) x)" for x by (rule deg')
    show "pending adj (set (result @ [c])) x = 0 \<longleftrightarrow> x \<in> set ((result @ [c]) @ q')" if "x \<in> fst ` set adj" for x
      using that by (rule zero')
    show "u \<in> set xs" if "result @ [c] = xs @ x # ys" "(u, x) \<in> edges_of adj" for xs x ys u
      using that by (rule topo')
  qed
qed

lemma kahn_inv_end:
  "closed_adjacency adj \<Longrightarrow> kahn_inv adj q d result \<Longrightarrow> \<exists>d'. kahn_inv adj [] d' (kahn adj q d result)"
proof (induction adj q d result rule: kahn.induct)
  case (2 adj c q d result)
  obtain d' q' where r: "relax (get_list adj c) d q = (d', q')" by fastforce
  with 2 kahn_inv_step show ?case by simp
qed auto

section \<open>The order\<close>

text \<open>\<open>u\<close> occurs before \<open>d\<close>.\<close>

definition precedes :: "string list \<Rightarrow> string \<Rightarrow> string \<Rightarrow> bool" where
  "precedes order u d = (\<exists>xs ys zs. order = xs @ u # ys @ d # zs)"

lemma precedes_acyclic:
  assumes "distinct order" "\<And>u d. (u, d) \<in> E \<Longrightarrow> precedes order u d"
  shows "acyclic E"
proof -
  define pos where "pos x = length (takeWhile (\<lambda>y. y \<noteq> x) order)" for x
  have "pos u < pos d" if "(u, d) \<in> E" for u d
  proof -
    from assms(2) [OF that] obtain xs ys zs where o: "order = xs @ u # ys @ d # zs"
      by (auto simp: precedes_def)
    with assms(1) have "pos u = length xs" "pos d = length (xs @ u # ys)"
      by (auto simp: pos_def takeWhile_append)
    then show ?thesis by simp
  qed
  then have "E \<subseteq> measure pos" by auto
  then show ?thesis by (meson wf_acyclic wf_measure wf_subset)
qed

lemma predecessors_cycle:
  assumes "finite S" "S \<noteq> {}" "\<And>x. x \<in> S \<Longrightarrow> \<exists>u\<in>S. (u, x) \<in> E"
  shows "\<not> acyclic E"
proof
  assume "acyclic E"
  then have "acyclic (E \<inter> S \<times> S)" by (rule acyclic_subset) simp
  moreover have "finite (E \<inter> S \<times> S)" using assms(1) by simp
  ultimately have "wf (E \<inter> S \<times> S)" by (simp add: finite_acyclic_wf)
  with assms(2) obtain m where "m \<in> S" "\<And>u. (u, m) \<in> E \<inter> S \<times> S \<Longrightarrow> u \<notin> S"
    by (meson ex_in_conv wfE_min)
  with assms(3) show False by blast
qed

lemma topological_sort_cases:
  assumes closed: "closed_adjacency adj"
  obtains (sorted) order where "topological_sort adj = Inr order" "acyclic (edges_of adj)"
      "distinct order" "set order = fst ` set adj" "\<And>u d. (u, d) \<in> edges_of adj \<Longrightarrow> precedes order u d"
  | (cyclic) m where "topological_sort adj = Inl (RuntimeError m)" "\<not> acyclic (edges_of adj)"
proof -
  define result where "result = kahn adj (filter (\<lambda>n. degree (in_degrees adj) n = 0) (map fst adj)) (in_degrees adj) []"
  obtain d where inv: "kahn_inv adj [] d result"
    using kahn_inv_end [OF closed kahn_inv_start [OF closed]] unfolding result_def by blast
  have dist: "distinct (map fst adj)" using closed by (simp add: closed_adjacency_def)
  then have len: "length adj = card (fst ` set adj)"
    using distinct_card [of "map fst adj"] by simp
  show thesis
  proof (cases "length result = length adj")
    case True
    have sub: "set result \<subseteq> fst ` set adj" "distinct result" using inv by (auto simp: kahn_inv_def)
    with True len have all: "set result = fst ` set adj"
      by (intro card_subset_eq) (auto simp: distinct_card)
    have before: "precedes result u x" if "(u, x) \<in> edges_of adj" for u x
    proof -
      from closed_edges(2) [OF closed that] all obtain xs ys where r: "result = xs @ x # ys"
        by (metis split_list)
      with inv that have "u \<in> set xs" by (auto simp: kahn_inv_def)
      then obtain as bs where "xs = as @ u # bs" by (meson split_list)
      with r show ?thesis by (auto simp: precedes_def)
    qed
    then have "acyclic (edges_of adj)" using sub(2) precedes_acyclic by blast
    moreover have "topological_sort adj = Inr result"
      using True by (simp add: topological_sort_def result_def Let_def)
    ultimately show ?thesis using sorted before sub(2) all by blast
  next
    case False
    let ?S = "fst ` set adj - set result"
    have "\<exists>u\<in>?S. (u, x) \<in> edges_of adj" if "x \<in> ?S" for x
    proof -
      have "pending adj (set result) x \<noteq> 0"
        using inv that by (auto simp: kahn_inv_def)
      then obtain u where "(u, x) \<in> edges_of adj" "u \<notin> set result"
        using pending_zero_iff [OF dist, of "set result" x] by auto
      then show ?thesis using closed_edges(1) [OF closed] by blast
    qed
    moreover have "?S \<noteq> {}"
    proof
      assume "?S = {}"
      with inv have "set result = fst ` set adj" "distinct result" by (auto simp: kahn_inv_def)
      with False len show False by (metis distinct_card)
    qed
    ultimately have "\<not> acyclic (edges_of adj)" by (intro predecessors_cycle [of ?S]) auto
    moreover have "topological_sort adj = Inl (RuntimeError (cycle_message adj result))"
      using False by (simp add: topological_sort_def result_def Let_def)
    ultimately show ?thesis using cyclic by blast
  qed
qed

end
