(* ===== verification/Dag_Cycles.thy ===== *)
theory Dag_Cycles
  imports Dag_Sort
begin

text \<open>
  The depth-first search for cycles is correct: it ends within its fuel, what it reports are
  closed walks of the graph, and it reports nothing only when the graph has no cycle. The
  invariant is about the nodes that are visited and no longer on the stack.
\<close>

section \<open>The state along the search\<close>

lemma opt_fold_append [simp]:
  "opt_fold f (xs @ ys) s = (case opt_fold f xs s of None \<Rightarrow> None | Some s' \<Rightarrow> opt_fold f ys s')"
  by (induction xs arbitrary: s) (auto split: option.split)

text \<open>An invariant of the single steps is one of the loop.\<close>

lemma opt_fold_invariant:
  assumes "opt_fold f xs s = Some s'" "P s" "\<And>x s s'. x \<in> set xs \<Longrightarrow> P s \<Longrightarrow> f x s = Some s' \<Longrightarrow> P s'"
  shows "P s'"
  using assms
proof (induction xs arbitrary: s)
  case (Cons x xs)
  from Cons.prems(1) obtain s1 where s1: "f x s = Some s1" "opt_fold f xs s1 = Some s'"
    by (auto split: option.splits)
  have "P s1" using Cons.prems(3) [of x s s1] Cons.prems(2) s1(1) by simp
  then show ?case
    using Cons.prems(3) by (intro Cons.IH [OF s1(2)]) auto
qed simp

lemma opt_fold_total:
  assumes "P s" "\<And>x s. x \<in> set xs \<Longrightarrow> P s \<Longrightarrow> \<exists>s'. f x s = Some s' \<and> P s'"
  shows "\<exists>s'. opt_fold f xs s = Some s' \<and> P s'"
  using assms
proof (induction xs arbitrary: s)
  case (Cons x xs)
  then obtain s1 where "f x s = Some s1" "P s1" by (meson list.set_intros(1))
  with Cons.IH [of s1] Cons.prems(2) show ?case by simp
qed simp

definition extends :: "dfs_state \<Rightarrow> dfs_state \<Rightarrow> bool" where
  "extends s s' \<longleftrightarrow> set (ds_visited s) \<subseteq> set (ds_visited s') \<and> ds_stack s' = ds_stack s \<and>
     (\<exists>cs. ds_cycles s' = ds_cycles s @ cs)"

lemma extends_refl [simp]: "extends s s"
  by (simp add: extends_def)

lemma extends_trans: "extends s s' \<Longrightarrow> extends s' s'' \<Longrightarrow> extends s s''"
  by (auto simp: extends_def)

lemma dfs_visit_cases:
  assumes "dfs_visit k adj path n s = Some s'"
  obtains (onstack) "n \<in> set (ds_stack s)" "s' = s\<lparr>ds_cycles := ds_cycles s @ [dropWhile (\<lambda>x. x \<noteq> n) path @ [n]]\<rparr>"
  | (seen) "n \<notin> set (ds_stack s)" "n \<in> set (ds_visited s)" "s' = s"
  | (tree) j t where "k = Suc j" "n \<notin> set (ds_stack s)" "n \<notin> set (ds_visited s)"
      "opt_fold (dfs_visit j adj (path @ [n])) (get_list adj n)
         (s\<lparr>ds_visited := n # ds_visited s, ds_stack := n # ds_stack s\<rparr>) = Some t"
      "s' = t\<lparr>ds_stack := removeAll n (ds_stack t)\<rparr>"
  using assms by (cases k) (auto split: if_splits option.splits)

lemma dfs_visit_extends: "dfs_visit k adj path n s = Some s' \<Longrightarrow> extends s s'"
proof (induction k arbitrary: path n s s')
  case (Suc k)
  from Suc.prems show ?case
  proof (cases rule: dfs_visit_cases)
    case (tree j t)
    let ?s = "s\<lparr>ds_visited := n # ds_visited s, ds_stack := n # ds_stack s\<rparr>"
    from tree(4) have "extends ?s t"
      by (rule opt_fold_invariant) (use tree(1) Suc.IH extends_trans in auto)
    with tree show ?thesis by (auto simp: extends_def)
  qed (auto simp: extends_def)
qed simp

lemma dfs_fold_extends: "opt_fold (dfs_visit k adj path) xs s = Some s' \<Longrightarrow> extends s s'"
  by (erule opt_fold_invariant [where P = "extends s"]) (auto intro: extends_trans dfs_visit_extends)

section \<open>The fuel is enough\<close>

lemma dfs_visit_returns:
  assumes "distinct path" "set path \<subseteq> fst ` set adj" "set (ds_stack s) = set path" "length adj < length path + k"
    "distinct (map fst adj)"
  shows "\<exists>s'. dfs_visit k adj path n s = Some s' \<and> ds_stack s' = ds_stack s"
  using assms
proof (induction k arbitrary: path n s)
  case 0
  have "length path = card (set path)" using "0.prems"(1) by (simp add: distinct_card)
  also have "\<dots> \<le> card (fst ` set adj)" using "0.prems"(2) by (intro card_mono) auto
  also have "\<dots> \<le> length adj" by (metis card_length length_map list.set_map)
  finally show ?case using "0.prems"(4) by simp
next
  case (Suc k)
  show ?case
  proof (cases "n \<in> set (ds_stack s) \<or> n \<in> set (ds_visited s)")
    case False
    let ?s = "s\<lparr>ds_visited := n # ds_visited s, ds_stack := n # ds_stack s\<rparr>"
    have "\<exists>t. opt_fold (dfs_visit k adj (path @ [n])) (get_list adj n) ?s = Some t \<and> ds_stack t = n # ds_stack s"
    proof (rule opt_fold_total)
      fix d and t :: dfs_state assume d: "d \<in> set (get_list adj n)" and t: "ds_stack t = n # ds_stack s"
      have "n \<in> fst ` set adj"
      proof (rule ccontr)
        assume "n \<notin> fst ` set adj"
        with d show False by (simp add: get_list_absent)
      qed
      with False Suc.prems t have "\<exists>s'. dfs_visit k adj (path @ [n]) d t = Some s' \<and> ds_stack s' = ds_stack t"
        by (intro Suc.IH) auto
      with t show "\<exists>s'. dfs_visit k adj (path @ [n]) d t = Some s' \<and> ds_stack s' = n # ds_stack s" by simp
    qed simp
    with False show ?thesis by auto
  qed auto
qed

lemma dfs_root_returns:
  assumes "distinct (map fst adj)" "ds_stack s = []"
  shows "\<exists>s'. dfs_root adj n s = Some s' \<and> ds_stack s' = []"
  using dfs_visit_returns [where path = "[]" and adj = adj and s = s and k = "Suc (length adj)" and n = n] assms
  by (cases "n \<in> set (ds_visited s)") (simp_all add: dfs_root_def del: dfs_visit.simps)

lemma detect_cycles_runs:
  assumes "distinct (map fst adj)"
  shows "\<exists>s. opt_fold (dfs_root adj) (map fst adj) \<lparr>ds_visited = [], ds_stack = [], ds_cycles = []\<rparr> = Some s \<and> ds_stack s = []"
  by (rule opt_fold_total) (use dfs_root_returns [OF assms] in auto)

section \<open>What is reported is a cycle\<close>

definition closed_walk :: "(string \<times> string) set \<Rightarrow> string list \<Rightarrow> bool" where
  "closed_walk E c \<longleftrightarrow> 2 \<le> length c \<and> hd c = last c \<and> successively (\<lambda>u d. (u, d) \<in> E) c"

lemma successively_trancl: "successively (\<lambda>u d. (u, d) \<in> E) (x # xs @ [y]) \<Longrightarrow> (x, y) \<in> E\<^sup>+"
proof (induction xs arbitrary: x)
  case (Cons z zs)
  then have "(x, z) \<in> E" "(z, y) \<in> E\<^sup>+" by auto
  then show ?case by (rule trancl_into_trancl2)
qed auto

lemma closed_walk_cyclic: "closed_walk E c \<Longrightarrow> \<not> acyclic E"
proof -
  assume c: "closed_walk E c"
  then obtain x xs where x: "c = x # xs" "xs \<noteq> []"
    by (cases c; cases "tl c") (auto simp: closed_walk_def)
  then obtain ys y where "c = x # ys @ [y]" by (metis rev_exhaust)
  with c successively_trancl [of E x ys y] show ?thesis by (auto simp: closed_walk_def acyclic_def)
qed

lemma successively_suffix: "successively P (xs @ ys) \<Longrightarrow> successively P ys"
  by (auto simp: successively_append_iff)

lemma dropWhile_hit: "n \<in> set path \<Longrightarrow> \<exists>zs. dropWhile (\<lambda>x. x \<noteq> n) path = n # zs"
  by (induction path) auto

lemma dropWhile_closed_walk:
  assumes "successively (\<lambda>u d. (u, d) \<in> E) (path @ [n])" "n \<in> set path"
  shows "closed_walk E (dropWhile (\<lambda>x. x \<noteq> n) path @ [n])"
proof -
  obtain zs where z: "dropWhile (\<lambda>x. x \<noteq> n) path = n # zs"
    using dropWhile_hit [OF assms(2)] by blast
  have "path @ [n] = takeWhile (\<lambda>x. x \<noteq> n) path @ (dropWhile (\<lambda>x. x \<noteq> n) path @ [n])"
    by simp
  with assms(1) have "successively (\<lambda>u d. (u, d) \<in> E) (dropWhile (\<lambda>x. x \<noteq> n) path @ [n])"
    using successively_suffix by metis
  with z show ?thesis by (simp add: closed_walk_def)
qed

definition real_cycles :: "adjacency \<Rightarrow> dfs_state \<Rightarrow> bool" where
  "real_cycles adj s = list_all (closed_walk (edges_of adj)) (ds_cycles s)"

lemma dfs_visit_sound:
  assumes "dfs_visit k adj path n s = Some s'" "real_cycles adj s" "set (ds_stack s) = set path"
    "successively (\<lambda>u d. (u, d) \<in> edges_of adj) (path @ [n])"
  shows "real_cycles adj s'"
  using assms
proof (induction k arbitrary: path n s s')
  case (Suc k)
  from Suc.prems(1) show ?case
  proof (cases rule: dfs_visit_cases)
    case onstack
    with Suc.prems show ?thesis by (simp add: real_cycles_def dropWhile_closed_walk)
  next
    case seen
    with Suc.prems show ?thesis by simp
  next
    case (tree j t)
    let ?P = "\<lambda>t. real_cycles adj t \<and> ds_stack t = n # ds_stack s"
    from tree(4) have "?P t"
    proof (rule opt_fold_invariant [where P = ?P])
      fix d t t' assume d: "d \<in> set (get_list adj n)" and t: "?P t" and "dfs_visit j adj (path @ [n]) d t = Some t'"
      then have v: "dfs_visit k adj (path @ [n]) d t = Some t'" using tree(1) by simp
      have "successively (\<lambda>u d. (u, d) \<in> edges_of adj) ((path @ [n]) @ [d])"
        using Suc.prems(4) d by (auto simp: successively_append_iff edges_of_def)
      with Suc.IH [OF v] t Suc.prems(3) have "real_cycles adj t'" by simp
      with t dfs_visit_extends [OF v] show "?P t'" by (simp add: extends_def)
    qed (use Suc.prems in \<open>simp add: real_cycles_def\<close>)
    with tree show ?thesis by (simp add: real_cycles_def)
  qed
qed simp

section \<open>Every cycle is found\<close>

definition finished :: "dfs_state \<Rightarrow> string set" where
  "finished s = set (ds_visited s) - set (ds_stack s)"

definition finished_ok :: "adjacency \<Rightarrow> dfs_state \<Rightarrow> bool" where
  "finished_ok adj s \<longleftrightarrow>
     (\<forall>u d. u \<in> finished s \<longrightarrow> (u, d) \<in> edges_of adj \<longrightarrow> d \<in> finished s) \<and>
     acyclic (edges_of adj \<inter> finished s \<times> UNIV) \<and> set (ds_stack s) \<subseteq> set (ds_visited s)"

lemma acyclic_add_source:
  assumes "acyclic R" "\<And>u. (u, n) \<notin> R" "S \<subseteq> {n} \<times> (- {n})"
  shows "acyclic (R \<union> S)"
proof -
  have avoid: "b \<noteq> n \<and> (a = n \<or> (a, b) \<in> R\<^sup>+)" if "(a, b) \<in> (R \<union> S)\<^sup>+" for a b
    using that
  proof (induction rule: converse_trancl_induct)
    case (base a)
    with assms(2,3) show ?case by auto
  next
    case (step a z)
    then have "z \<noteq> n" using assms(2,3) by auto
    with step assms(3) show ?case by (auto intro: trancl_into_trancl2)
  qed
  show ?thesis
    unfolding acyclic_def
  proof (intro allI notI)
    fix x assume x: "(x, x) \<in> (R \<union> S)\<^sup>+"
    from avoid [OF x] have "(x, x) \<in> R\<^sup>+" by blast
    with assms(1) show False by (auto simp: acyclic_def)
  qed
qed

lemma extends_same_cycles:
  assumes "extends s t" "extends t s'" "ds_cycles s' = ds_cycles s"
  shows "ds_cycles t = ds_cycles s" "ds_cycles s' = ds_cycles t"
proof -
  obtain cs ds where "ds_cycles t = ds_cycles s @ cs" "ds_cycles s' = ds_cycles t @ ds"
    using assms(1,2) unfolding extends_def by blast
  with assms(3) show "ds_cycles t = ds_cycles s" "ds_cycles s' = ds_cycles t" by simp_all
qed

lemma extends_finished: "extends s t \<Longrightarrow> finished s \<subseteq> finished t"
  by (auto simp: extends_def finished_def)

lemma dfs_visit_complete:
  assumes "dfs_visit k adj path n s = Some s'" "finished_ok adj s" "ds_cycles s' = ds_cycles s"
  shows "finished_ok adj s' \<and> n \<in> finished s'"
  using assms
proof (induction k arbitrary: path n s s')
  case (Suc k)
  from Suc.prems(1) show ?case
  proof (cases rule: dfs_visit_cases)
    case onstack
    with Suc.prems(3) show ?thesis by simp
  next
    case seen
    with Suc.prems(2) show ?thesis by (simp add: finished_def)
  next
    case (tree j t)
    let ?f = "dfs_visit k adj (path @ [n])"
    let ?s = "s\<lparr>ds_visited := n # ds_visited s, ds_stack := n # ds_stack s\<rparr>"
    have start: "finished_ok adj ?s"
    proof -
      have "finished ?s = finished s" using tree(2,3) by (auto simp: finished_def)
      with Suc.prems(2) show ?thesis by (auto simp: finished_ok_def)
    qed
    have fold: "opt_fold ?f ds ?s = Some t \<Longrightarrow> finished_ok adj t \<and> set ds \<subseteq> finished t" if "ds_cycles t = ds_cycles s" for ds t
      using that
    proof (induction ds arbitrary: t rule: rev_induct)
      case Nil
      with start show ?case by simp
    next
      case (snoc d ds)
      then obtain t1 where t1: "opt_fold ?f ds ?s = Some t1" "?f d t1 = Some t"
        by (auto split: option.splits)
      have e: "extends ?s t1" "extends t1 t"
        using dfs_fold_extends [OF t1(1)] dfs_visit_extends [OF t1(2)] by blast+
      then have c: "ds_cycles t1 = ds_cycles s" "ds_cycles t = ds_cycles t1"
        using extends_same_cycles [OF e] snoc.prems(2) by simp_all
      from snoc.IH [OF t1(1) c(1)] have "finished_ok adj t1" "set ds \<subseteq> finished t1" by auto
      with Suc.IH [OF t1(2) _ c(2)] extends_finished [OF e(2)] show ?case by auto
    qed
    have ct: "ds_cycles t = ds_cycles s" using tree(5) Suc.prems(3) by simp
    have t: "finished_ok adj t" "set (get_list adj n) \<subseteq> finished t"
      using fold [OF ct, of "get_list adj n"] tree(1,4) by auto
    have ext: "extends ?s t" using dfs_fold_extends [OF tree(4)] .
    then have n: "n \<in> set (ds_visited t)" "ds_stack t = n # ds_stack s" "n \<notin> finished t"
      by (auto simp: extends_def finished_def)
    have F: "finished s' = insert n (finished t)"
      using n tree(2,5) by (auto simp: finished_def)
    have "edges_of adj \<inter> finished s' \<times> UNIV =
        (edges_of adj \<inter> finished t \<times> UNIV) \<union> {n} \<times> set (get_list adj n)"
      unfolding F by (auto simp: edges_of_def)
    moreover have "acyclic ((edges_of adj \<inter> finished t \<times> UNIV) \<union> {n} \<times> set (get_list adj n))"
      using t n(3) by (intro acyclic_add_source) (auto simp: finished_ok_def)
    moreover have "\<forall>u d. u \<in> finished s' \<longrightarrow> (u, d) \<in> edges_of adj \<longrightarrow> d \<in> finished s'"
      using t unfolding F by (auto simp: finished_ok_def edges_of_def)
    moreover have "set (ds_stack s') \<subseteq> set (ds_visited s')"
      using t(1) tree(5) by (auto simp: finished_ok_def)
    ultimately show ?thesis using F by (simp add: finished_ok_def)
  qed
qed simp

lemma roots_complete:
  assumes "opt_fold (dfs_root adj) ns \<lparr>ds_visited = [], ds_stack = [], ds_cycles = []\<rparr> = Some s" "ds_cycles s = []"
  shows "finished_ok adj s \<and> set ns \<subseteq> finished s \<and> ds_stack s = []"
  using assms
proof (induction ns arbitrary: s rule: rev_induct)
  case Nil
  then show ?case by (auto simp: finished_ok_def finished_def acyclic_def)
next
  case (snoc n ns)
  then obtain t where t: "opt_fold (dfs_root adj) ns \<lparr>ds_visited = [], ds_stack = [], ds_cycles = []\<rparr> = Some t"
    "dfs_root adj n t = Some s"
    by (auto split: option.splits)
  show ?case
  proof (cases "n \<in> set (ds_visited t)")
    case True
    with t(2) have "s = t" by (simp add: dfs_root_def)
    with snoc.IH [OF t(1)] snoc.prems(2) True show ?thesis by (auto simp: finished_def)
  next
    case False
    with t(2) have v: "dfs_visit (Suc (length adj)) adj [] n t = Some s"
      by (simp add: dfs_root_def del: dfs_visit.simps)
    from dfs_visit_extends [OF v] have e: "extends t s" .
    with snoc.prems(2) have c: "ds_cycles t = []" by (auto simp: extends_def)
    from snoc.IH [OF t(1) c] have "finished_ok adj t" "set ns \<subseteq> finished t" "ds_stack t = []" by auto
    with dfs_visit_complete [OF v] c snoc.prems(2) extends_finished [OF e] e show ?thesis
      by (auto simp: extends_def)
  qed
qed

text \<open>The search as a whole.\<close>

lemma detect_cycles_correct:
  assumes "distinct (map fst adj)"
  obtains cycles where "detect_cycles adj = Some cycles" "list_all (closed_walk (edges_of adj)) cycles"
    "cycles = [] \<longleftrightarrow> acyclic (edges_of adj)"
proof -
  obtain s where s: "opt_fold (dfs_root adj) (map fst adj) \<lparr>ds_visited = [], ds_stack = [], ds_cycles = []\<rparr> = Some s"
    using detect_cycles_runs [OF assms] by blast
  let ?P = "\<lambda>t. real_cycles adj t \<and> ds_stack t = []"
  from s have real: "?P s"
  proof (rule opt_fold_invariant [where P = ?P])
    fix n t t' assume t: "?P t" and r: "dfs_root adj n t = Some t'"
    show "?P t'"
    proof (cases "n \<in> set (ds_visited t)")
      case True
      with r t show ?thesis by (simp add: dfs_root_def)
    next
      case False
      with r have v: "dfs_visit (Suc (length adj)) adj [] n t = Some t'"
        by (simp add: dfs_root_def del: dfs_visit.simps)
      with dfs_visit_sound [OF v] dfs_visit_extends [OF v] t show ?thesis by (simp add: extends_def)
    qed
  qed (simp add: real_cycles_def)
  have none: "acyclic (edges_of adj)" if "ds_cycles s = []"
  proof -
    from roots_complete [OF s that] have "finished_ok adj s" "fst ` set adj \<subseteq> finished s" by auto
    moreover have "edges_of adj \<inter> finished s \<times> UNIV = edges_of adj" if "fst ` set adj \<subseteq> finished s"
    proof -
      have "u \<in> fst ` set adj" if "(u, d) \<in> edges_of adj" for u d
        using that get_list_absent [of u adj] by (cases "u \<in> fst ` set adj") (auto simp: edges_of_def)
      with \<open>fst ` set adj \<subseteq> finished s\<close> show ?thesis by auto
    qed
    ultimately show ?thesis by (simp add: finished_ok_def)
  qed
  have some: "ds_cycles s = []" if "acyclic (edges_of adj)"
    using real that closed_walk_cyclic by (cases "ds_cycles s") (auto simp: real_cycles_def)
  show thesis
  proof (rule that)
    show "detect_cycles adj = Some (ds_cycles s)" using s by (simp add: detect_cycles_def)
    show "list_all (closed_walk (edges_of adj)) (ds_cycles s)" using real by (simp add: real_cycles_def)
    show "ds_cycles s = [] \<longleftrightarrow> acyclic (edges_of adj)" using none some by blast
  qed
qed

end
