(* ===== verification/Dag_Order.thy ===== *)
theory Dag_Order
  imports Dag_Cycles
begin

text \<open>
  From manifests to the execution order: the links a graph builds are exactly the edges of the
  adjacency the reports use, and the order of execution respects every declared dependency.
\<close>

section \<open>Links and adjacency\<close>

lemma edges_of_add_dependent: "edges_of (add_dependent deps u d) = insert (u, d) (edges_of deps)"
  by (auto simp: edges_of_def add_dependent_def get_list_def split: if_splits option.splits)

definition registered :: "dag_graph \<Rightarrow> string \<Rightarrow> bool" where
  "registered g n = (dict_get (rg_nodes (dg_registry g)) n \<noteq> None)"

lemma add_dependency_registry [simp]: "dg_registry (add_dependency g d u) = dg_registry g"
  by (simp add: add_dependency_def)

lemma add_dependency_edges:
  "edges_of (dg_dependents (add_dependency g d u)) =
     (if registered g d \<and> registered g u then insert (u, d) (edges_of (dg_dependents g)) else edges_of (dg_dependents g))"
  by (simp add: add_dependency_def registered_def edges_of_add_dependent)

lemma add_dependencies:
  assumes "\<And>u d. (u, d) \<in> set es \<Longrightarrow> registered g u \<and> registered g d"
  shows "dg_registry (foldl (\<lambda>g (u, d). add_dependency g d u) g es) = dg_registry g \<and>
    edges_of (dg_dependents (foldl (\<lambda>g (u, d). add_dependency g d u) g es)) = set es \<union> edges_of (dg_dependents g)"
  using assms
proof (induction es arbitrary: g)
  case (Cons e es)
  obtain u d where e: "e = (u, d)" by fastforce
  have known: "registered (add_dependency g d u) a \<and> registered (add_dependency g d u) b" if "(a, b) \<in> set es" for a b
    using Cons.prems [of a b] that by (simp add: registered_def)
  have "dg_registry (foldl (\<lambda>g (u, d). add_dependency g d u) (add_dependency g d u) es) = dg_registry g \<and>
      edges_of (dg_dependents (foldl (\<lambda>g (u, d). add_dependency g d u) (add_dependency g d u) es)) =
      set es \<union> edges_of (dg_dependents (add_dependency g d u))"
    using Cons.IH [of "add_dependency g d u", OF known] by simp
  moreover have "registered g u \<and> registered g d" using Cons.prems [of u d] e by simp
  ultimately show ?case by (simp add: e add_dependency_edges)
qed simp

text \<open>Resolutions only name nodes; an unresolved one names none.\<close>

lemma declared_resolution_names:
  assumes "distinct (map pn_name ns)" "n \<in> set ns"
  shows "set (rs_upstream (resolve_declared_dependency n dep i (build_indexes ns))) \<subseteq> pn_name ` set ns"
    "set (rs_downstream (resolve_declared_dependency n dep i (build_indexes ns))) \<subseteq> pn_name ` set ns"
  using assms resolve_path_upstream [OF assms(1), of "dep_path dep" n]
  by (auto simp: resolve_declared_dependency_def Let_def build_indexes_fields split: option.split)

lemma path_unresolved:
  "pr_mode (resolve_dependency_path dep n ix) = ''unresolved'' \<Longrightarrow> pr_upstream (resolve_dependency_path dep n ix) = []"
  by (auto simp: resolve_dependency_path_def Let_def split: option.splits prod.splits if_splits)

lemma path_mode:
  "pr_mode (resolve_dependency_path dep n ix) \<in> set [''task_id'', ''group_string'', ''selector'', ''file'', ''stem'', ''unresolved'']"
  by (auto simp: resolve_dependency_path_def Let_def split: option.splits prod.splits if_splits)

lemma declared_kind_unresolved:
  "rs_kind (resolve_declared_dependency n dep i ix) = ''unresolved'' \<Longrightarrow>
    rs_upstream (resolve_declared_dependency n dep i ix) = []"
  using path_mode [of "dep_path dep" n ix] path_unresolved [of "dep_path dep" n ix]
  by (auto simp: resolve_declared_dependency_def Let_def kind_map_def split: option.splits if_splits)

lemma set_enumerate: "set (enumerate 0 xs) = (\<lambda>i. (i, xs ! i)) ` {..<length xs}"
  by (auto simp: in_set_enumerate_eq image_iff)

lemma collected_iff:
  "r \<in> set (collect_resolutions ns ix) \<longleftrightarrow>
     (\<exists>n\<in>set ns. \<exists>i<length (pn_dependencies n). r = resolve_declared_dependency n (pn_dependencies n ! i) i ix)"
  unfolding collect_resolutions_def resolve_node_dependencies_def set_concat set_map
  by (auto simp: set_enumerate image_image)

lemma collected_edges:
  assumes "distinct (map pn_name ns)" "r \<in> set (collect_resolutions ns (build_indexes ns))" "(u, d) \<in> set (resolution_edges r)"
  shows "u \<in> pn_name ` set ns" "d \<in> pn_name ` set ns" "rs_kind r \<noteq> ''unresolved''" "u \<noteq> d" "matches_edge r u d"
proof -
  from assms(2) obtain n i where n: "n \<in> set ns" and r: "r = resolve_declared_dependency n (pn_dependencies n ! i) i (build_indexes ns)"
    by (auto simp: collected_iff)
  have ud: "u \<in> set (rs_upstream r)" "d \<in> set (rs_downstream r)" and "u \<noteq> d"
    using assms(3) by (auto simp: resolution_edges_def)
  then show "u \<noteq> d" "matches_edge r u d" by (auto simp: matches_edge_def)
  show "u \<in> pn_name ` set ns" "d \<in> pn_name ` set ns"
    using ud declared_resolution_names [OF assms(1) n] unfolding r by blast+
  show "rs_kind r \<noteq> ''unresolved''"
    using ud(1) declared_kind_unresolved unfolding r by fastforce
qed

definition linked_graph :: "registry \<Rightarrow> dag_graph" where
  "linked_graph r = build_relationships (empty_graph\<lparr>dg_registry := r\<rparr>)"

lemma linked_graph:
  assumes "registry_add_all empty_registry ns = Inr r"
  shows "distinct (map pn_name ns)" "map fst (graph_links (linked_graph r)) = map pn_name ns"
    "edges_of (graph_links (linked_graph r)) = edges_of (build_adjacency ns)"
proof -
  have reg: "registry_of r ns"
    using registry_add_all_of [OF registry_of_empty assms] by simp
  then show dist: "distinct (map pn_name ns)" by (simp add: registry_of_def)
  from reg have nodes: "rg_nodes r = map (\<lambda>n. (pn_name n, n)) ns" by (simp add: registry_of_def)
  have snd_nodes: "map snd (rg_nodes r) = ns" by (simp add: nodes comp_def)
  define g where "g = empty_graph\<lparr>dg_registry := r\<rparr>"
  define rs where "rs = collect_resolutions ns (build_indexes ns)"
  define es where "es = concat (map resolution_edges (filter (\<lambda>r. rs_kind r \<noteq> ''unresolved'') rs))"
  have build: "linked_graph r = foldl (\<lambda>g (u, d). add_dependency g d u) g es"
    by (simp add: linked_graph_def build_relationships_def Let_def g_def [symmetric] es_def rs_def)
       (simp add: g_def snd_nodes)
  have es: "(u, d) \<in> set es \<longleftrightarrow> u \<noteq> d \<and> (\<exists>r\<in>set rs. matches_edge r u d)" for u d
  proof
    assume "(u, d) \<in> set es"
    then obtain r' where "r' \<in> set rs" "(u, d) \<in> set (resolution_edges r')" by (auto simp: es_def)
    with collected_edges(4,5) [OF dist, of r' u d] show "u \<noteq> d \<and> (\<exists>r\<in>set rs. matches_edge r u d)"
      by (auto simp: rs_def)
  next
    assume "u \<noteq> d \<and> (\<exists>r\<in>set rs. matches_edge r u d)"
    then obtain r' where r': "r' \<in> set rs" "(u, d) \<in> set (resolution_edges r')"
      by (auto simp: resolution_edges_def matches_edge_def)
    with collected_edges(3) [OF dist, of r' u d] show "(u, d) \<in> set es"
      by (auto simp: es_def rs_def)
  qed
  have known: "registered g u \<and> registered g d" if "(u, d) \<in> set es" for u d
  proof -
    from that obtain r' where "r' \<in> set rs" "(u, d) \<in> set (resolution_edges r')" by (auto simp: es_def)
    with collected_edges(1,2) [OF dist, of r' u d] show ?thesis
      by (simp add: rs_def registered_def g_def nodes map_of_index_None)
  qed
  from add_dependencies [OF known] have l: "dg_registry (linked_graph r) = r"
    "edges_of (dg_dependents (linked_graph r)) = set es"
    by (auto simp: build g_def empty_graph_def)
  show fst: "map fst (graph_links (linked_graph r)) = map pn_name ns"
    by (simp add: graph_links_def l nodes comp_def split_beta)
  have links: "get_list (graph_links (linked_graph r)) u =
      (if u \<in> pn_name ` set ns then get_list (dg_dependents (linked_graph r)) u else [])" for u
  proof (cases "u \<in> pn_name ` set ns")
    case True
    then have "(u, get_list (dg_dependents (linked_graph r)) u) \<in> set (graph_links (linked_graph r))"
      by (auto simp: graph_links_def l nodes)
    with True fst dist show ?thesis by (simp add: get_list_entry)
  next
    case False
    with fst have "u \<notin> fst ` set (graph_links (linked_graph r))" by (metis list.set_map)
    with False show ?thesis by (simp add: get_list_absent)
  qed
  have "edges_of (graph_links (linked_graph r)) = set es"
  proof -
    have "u \<in> pn_name ` set ns" if "(u, d) \<in> set es" for u d
      using known [OF that] by (simp add: registered_def g_def nodes map_of_index_None)
    then have src: "u \<in> pn_name ` set ns" if "(u, d) \<in> edges_of (dg_dependents (linked_graph r))" for u d
      using that l(2) by blast
    have "edges_of (graph_links (linked_graph r)) = edges_of (dg_dependents (linked_graph r))"
      using src by (auto simp: edges_of_def links)
    with l(2) show ?thesis by simp
  qed
  also have "\<dots> = edges_of (build_adjacency ns)"
    using es by (auto simp: build_adjacency_def edges_of_adjacency rs_def)
  finally show "edges_of (graph_links (linked_graph r)) = edges_of (build_adjacency ns)" .
qed

lemma linked_graph_closed:
  assumes "registry_add_all empty_registry ns = Inr r"
  shows "closed_adjacency (graph_links (linked_graph r))"
proof -
  note l = linked_graph [OF assms]
  have keys: "fst ` set (graph_links (linked_graph r)) = pn_name ` set ns"
    using l(2) by (metis list.set_map)
  have "d \<in> pn_name ` set ns" if "(u, d) \<in> edges_of (build_adjacency ns)" for u d
    using that collected_edges(2) [OF l(1)]
    by (fastforce simp: build_adjacency_def edges_of_adjacency resolution_edges_def matches_edge_def)
  then show ?thesis
    using l keys get_list_entry [of "graph_links (linked_graph r)"]
    unfolding closed_adjacency_def by (fastforce simp: edges_of_def)
qed

lemma declared_edge:
  assumes "n \<in> set ns" "i < length (pn_dependencies n)" "u \<noteq> d"
    "matches_edge (resolve_declared_dependency n (pn_dependencies n ! i) i (build_indexes ns)) u d"
  shows "(u, d) \<in> edges_of (build_adjacency ns)"
proof -
  have "resolve_declared_dependency n (pn_dependencies n ! i) i (build_indexes ns)
      \<in> set (collect_resolutions ns (build_indexes ns))"
    using assms(1,2) by (auto simp: collected_iff)
  with assms(3,4) show ?thesis by (auto simp: build_adjacency_def edges_of_adjacency)
qed

section \<open>Properties\<close>

definition example_node :: "string \<Rightarrow> dependency list \<Rightarrow> process_node" where
  "example_node name deps =
     \<lparr>pn_name = name, pn_config_path = ''/m/a.yaml'', pn_selector = None, pn_dependencies = deps, pn_task_group = None,
      pn_source = (None, None), pn_target = (None, None)\<rparr>"

definition on_task :: "string \<Rightarrow> dependency" where
  "on_task t = \<lparr>dep_path = t, dep_alias = PNone, dep_group = PNone\<rparr>"

definition example_chain :: "process_node list" where
  "example_chain = [example_node ''c'' [on_task ''b''], example_node ''b'' [on_task ''a''], example_node ''a'' []]"

definition example_ring :: "process_node list" where
  "example_ring = [example_node ''a'' [on_task ''b''], example_node ''b'' [on_task ''a'']]"

definition example_registry :: "process_node list \<Rightarrow> registry" where
  "example_registry ns = (case registry_add_all empty_registry ns of Inr r \<Rightarrow> r | Inl e \<Rightarrow> empty_registry)"

lemma example_chain_registry: "registry_add_all empty_registry example_chain = Inr (example_registry example_chain)"
  by code_simp

lemma example_ring_registry: "registry_add_all empty_registry example_ring = Inr (example_registry example_ring)"
  by code_simp

text \<open>
  The edges the graph builds its links from are the edges of the adjacency that reports
  and explanations use.
\<close>

theorem dag_links_agree:
  assumes "registry_add_all empty_registry ns = Inr r"
  shows "edges_of (graph_links (linked_graph r)) = edges_of (build_adjacency ns)"
  using linked_graph(3) [OF assms] .

theorem dag_links_agree_witness:
  "edges_of (graph_links (linked_graph (example_registry example_chain))) = edges_of (build_adjacency example_chain) \<and>
    get_list (build_adjacency example_chain) ''a'' = [''b'']"
  using dag_links_agree [OF example_chain_registry] by (rule conjI) code_simp

text \<open>
  C9: The execution order lists every registered node once, and puts a node after every node
  that one of its declared dependencies (or one of its group's) resolves to.
\<close>

theorem execution_order_respects:
  assumes "registry_add_all empty_registry ns = Inr r" "execution_order (linked_graph r) = Inr order"
  shows "distinct order \<and> set order = pn_name ` set ns \<and>
    (\<forall>n\<in>set ns. \<forall>i<length (pn_dependencies n). \<forall>u d. u \<noteq> d \<longrightarrow>
      matches_edge (resolve_declared_dependency n (pn_dependencies n ! i) i (build_indexes ns)) u d \<longrightarrow>
      precedes order u d)"
proof -
  note l = linked_graph [OF assms(1)]
  have keys: "fst ` set (graph_links (linked_graph r)) = pn_name ` set ns"
    using l(2) by (metis list.set_map)
  from linked_graph_closed [OF assms(1)] show ?thesis
  proof (cases rule: topological_sort_cases)
    case (sorted order')
    with assms(2) have o: "order' = order" by (simp add: execution_order_def)
    have before: "precedes order u d" if "n \<in> set ns" "i < length (pn_dependencies n)" "u \<noteq> d"
      "matches_edge (resolve_declared_dependency n (pn_dependencies n ! i) i (build_indexes ns)) u d" for n i u d
      using sorted(5) [of u d] l(3) declared_edge [OF that] o by simp
    show ?thesis
      using sorted(3,4) o keys by (intro conjI ballI allI impI) (simp_all add: before)
  next
    case (cyclic m)
    with assms(2) show ?thesis by (simp add: execution_order_def)
  qed
qed

theorem execution_order_respects_witness:
  "execution_order (linked_graph (example_registry example_chain)) = Inr [''a'', ''b'', ''c''] \<and>
    precedes [''a'', ''b'', ''c''] ''b'' ''c''"
proof -
  have o: "execution_order (linked_graph (example_registry example_chain)) = Inr [''a'', ''b'', ''c'']"
    by code_simp
  have "matches_edge (resolve_declared_dependency (example_chain ! 0) (pn_dependencies (example_chain ! 0) ! 0) 0
      (build_indexes example_chain)) ''b'' ''c''"
    by code_simp
  then have "precedes [''a'', ''b'', ''c''] ''b'' ''c''"
    using execution_order_respects [OF example_chain_registry o]
    by (auto simp: example_chain_def example_node_def)
  with o show ?thesis by blast
qed

text \<open>
  C27: Asking for the execution order raises exactly when the dependencies form a cycle, and so
  exactly when the search for cycles reports one; what it reports are closed walks along the
  edges, and its recursion never goes deeper than the number of nodes and one.
\<close>

theorem cycles_raise:
  assumes "registry_add_all empty_registry ns = Inr r"
  shows "\<exists>cycles. graph_cycles (linked_graph r) = Some cycles \<and>
    (\<forall>c\<in>set cycles. closed_walk (edges_of (build_adjacency ns)) c) \<and>
    (cycles = [] \<longleftrightarrow> acyclic (edges_of (build_adjacency ns))) \<and>
    (cycles = [] \<longleftrightarrow> (\<exists>order. execution_order (linked_graph r) = Inr order)) \<and>
    (cycles \<noteq> [] \<longrightarrow> (\<exists>m. execution_order (linked_graph r) = Inl (RuntimeError m)))"
proof -
  note l = linked_graph [OF assms]
  from l have "distinct (map fst (graph_links (linked_graph r)))" by simp
  then obtain cycles where c: "graph_cycles (linked_graph r) = Some cycles"
    "list_all (closed_walk (edges_of (build_adjacency ns))) cycles"
    "cycles = [] \<longleftrightarrow> acyclic (edges_of (build_adjacency ns))"
    using l(3) by (metis detect_cycles_correct graph_cycles_def)
  moreover from linked_graph_closed [OF assms]
  have "(cycles = [] \<longleftrightarrow> (\<exists>order. execution_order (linked_graph r) = Inr order)) \<and>
    (cycles \<noteq> [] \<longrightarrow> (\<exists>m. execution_order (linked_graph r) = Inl (RuntimeError m)))"
    by (cases rule: topological_sort_cases) (use c(3) l(3) in \<open>auto simp: execution_order_def\<close>)
  ultimately show ?thesis by (auto simp: list_all_iff)
qed

theorem cycles_raise_witness:
  "graph_cycles (linked_graph (example_registry example_ring)) = Some [[''a'', ''b'', ''a'']] \<and>
    \<not> acyclic (edges_of (build_adjacency example_ring)) \<and>
    (\<exists>m. execution_order (linked_graph (example_registry example_ring)) = Inl (RuntimeError m))"
proof -
  have "graph_cycles (linked_graph (example_registry example_ring)) = Some [[''a'', ''b'', ''a'']]"
    by code_simp
  with cycles_raise [OF example_ring_registry] show ?thesis by auto
qed

end
