(* ===== verification/Dag_Paths.thy ===== *)
theory Dag_Paths
  imports Dag_Order
begin

text \<open>
  Shortest paths in the graph (\<open>find_shortest_path\<close> of \<open>src/dpone/dag/edge_explain.py\<close>,
  \<open>_bfs_distances\<close> and \<open>_reverse_adjacency\<close> of \<open>dag/subgraph.py\<close>): two breadth-first
  searches and the way back along the predecessors, proved against the least length of a walk.
  The way back has fuel, the number of discovered nodes, which is always enough.
\<close>

section \<open>The searches\<close>

fun scan_next :: "string \<Rightarrow> string \<Rightarrow> string list \<Rightarrow> string list \<Rightarrow> (string, string option) dict
    \<Rightarrow> string list \<times> (string, string option) dict" where
  "scan_next t c [] q p = (q, p)"
| "scan_next t c (x # xs) q p =
     (if dict_get p x \<noteq> None then scan_next t c xs q p
      else if x = t then ([], dict_set p x (Some c))
      else scan_next t c xs (q @ [x]) (dict_set p x (Some c)))"

definition targets :: "adjacency \<Rightarrow> string set" where
  "targets adj = \<Union> (set ` snd ` set adj)"

lemma finite_targets [simp]: "finite (targets adj)"
  by (auto simp: targets_def)

lemma get_list_targets: "set (get_list adj c) \<subseteq> targets adj"
proof (cases "dict_get adj c")
  case (Some ds)
  then have "(c, ds) \<in> set adj" by (rule map_of_SomeD)
  with Some show ?thesis by (force simp: get_list_def targets_def)
qed (simp add: get_list_def)

lemma card_undiscovered:
  assumes "x \<in> targets adj" "dict_get p x = None"
  shows "Suc (card (targets adj - fst ` set (dict_set p x v))) = card (targets adj - fst ` set p)"
proof -
  have "x \<notin> fst ` set p" using assms(2) by (simp add: map_of_eq_None_iff)
  with assms(1) have "targets adj - fst ` set p = insert x (targets adj - insert x (fst ` set p))" by auto
  then have "card (targets adj - fst ` set p) = card (insert x (targets adj - insert x (fst ` set p)))" by (rule arg_cong)
  also have "\<dots> = Suc (card (targets adj - insert x (fst ` set p)))" by (intro card_insert_disjoint) auto
  finally show ?thesis unfolding set_keys_dict_set by (rule sym)
qed

lemma scan_next_measure:
  "scan_next t c xs q p = (q', p') \<Longrightarrow> set xs \<subseteq> targets adj \<Longrightarrow>
    length q' + card (targets adj - fst ` set p') \<le> length q + card (targets adj - fst ` set p)"
proof (induction t c xs q p rule: scan_next.induct)
  case (2 t c x xs q p)
  show ?case
  proof (cases "dict_get p x = None")
    case True
    with "2.prems" have "Suc (card (targets adj - fst ` set (dict_set p x (Some c)))) = card (targets adj - fst ` set p)"
      by (intro card_undiscovered) auto
    with 2 True show ?thesis by (auto split: if_splits)
  qed (use 2 in auto)
qed simp

function path_search :: "adjacency \<Rightarrow> string \<Rightarrow> string list \<Rightarrow> (string, string option) dict
    \<Rightarrow> (string, string option) dict" where
  "path_search adj t [] p = p"
| "path_search adj t (c # q) p = (let (q', p') = scan_next t c (get_list adj c) q p in path_search adj t q' p')"
  by pat_completeness auto

termination
proof (relation "measure (\<lambda>(adj, t, q, p). length q + card (targets adj - fst ` set p))")
  fix adj t c q p x q' p'
  assume "x = scan_next t c (get_list adj c) q p" "(q', p') = x"
  then have "scan_next t c (get_list adj c) q p = (q', p')" by simp
  from scan_next_measure [OF this get_list_targets] show "((adj, t, q', p'), adj, t, c # q, p) \<in>
      measure (\<lambda>(adj, t, q, p). length q + card (targets adj - fst ` set p))"
    by simp
qed simp

fun trace_back :: "nat \<Rightarrow> (string, string option) dict \<Rightarrow> string \<Rightarrow> string list option" where
  "trace_back 0 p cur = None"
| "trace_back (Suc k) p cur =
     (case dict_get p cur of
        None \<Rightarrow> None
      | Some None \<Rightarrow> Some [cur]
      | Some (Some c) \<Rightarrow> map_option (\<lambda>path. path @ [cur]) (trace_back k p c))"

text \<open>The outer \<open>None\<close> is fuel that ran out, the inner one the answer that there is no path.\<close>

definition find_shortest_path :: "adjacency \<Rightarrow> string \<Rightarrow> string \<Rightarrow> string list option option" where
  "find_shortest_path adj u d =
     (if u = d then Some (Some [u])
      else let p = path_search adj d [u] [(u, None)] in
        if dict_get p d = None then Some None else map_option Some (trace_back (length p) p d))"

fun scan_distance :: "nat \<Rightarrow> string list \<Rightarrow> string list \<Rightarrow> (string, nat) dict \<Rightarrow> string list \<times> (string, nat) dict" where
  "scan_distance k [] q d = (q, d)"
| "scan_distance k (x # xs) q d =
     (if dict_get d x \<noteq> None then scan_distance k xs q d
      else scan_distance k xs (q @ [x]) (dict_set d x (k + 1)))"

definition distance_at :: "(string, nat) dict \<Rightarrow> string \<Rightarrow> nat" where
  "distance_at d x = (case dict_get d x of None \<Rightarrow> 0 | Some k \<Rightarrow> k)"

lemma scan_distance_measure:
  "scan_distance k xs q p = (q', p') \<Longrightarrow> set xs \<subseteq> targets adj \<Longrightarrow>
    length q' + card (targets adj - fst ` set p') \<le> length q + card (targets adj - fst ` set p)"
proof (induction k xs q p rule: scan_distance.induct)
  case (2 k x xs q p)
  show ?case
  proof (cases "dict_get p x = None")
    case True
    with "2.prems" have "Suc (card (targets adj - fst ` set (dict_set p x (k + 1)))) = card (targets adj - fst ` set p)"
      by (intro card_undiscovered) auto
    with 2 True show ?thesis by (auto split: if_splits)
  qed (use 2 in auto)
qed simp

function distance_search :: "adjacency \<Rightarrow> string list \<Rightarrow> (string, nat) dict \<Rightarrow> (string, nat) dict" where
  "distance_search adj [] d = d"
| "distance_search adj (c # q) d =
     (let (q', d') = scan_distance (distance_at d c) (get_list adj c) q d in distance_search adj q' d')"
  by pat_completeness auto

termination
proof (relation "measure (\<lambda>(adj, q, p). length q + card (targets adj - fst ` set p))")
  fix adj c q and p :: "(string, nat) dict" and x q' p'
  assume "x = scan_distance (distance_at p c) (get_list adj c) q p" "(q', p') = x"
  then have "scan_distance (distance_at p c) (get_list adj c) q p = (q', p')" by simp
  from scan_distance_measure [OF this get_list_targets] show "((adj, q', p'), adj, c # q, p) \<in>
      measure (\<lambda>(adj, q, p). length q + card (targets adj - fst ` set p))"
    by simp
qed simp

definition bfs_distances :: "adjacency \<Rightarrow> string \<Rightarrow> (string, nat) dict" where
  "bfs_distances adj start = distance_search adj [start] [(start, 0)]"

definition reverse_adjacency :: "adjacency \<Rightarrow> adjacency" where
  "reverse_adjacency adj = foldl (\<lambda>rev (u, ds). foldl (\<lambda>rev d. add_edge rev (d, u)) rev ds) [] adj"

section \<open>Distances\<close>

definition reaches :: "(string \<times> string) set \<Rightarrow> string \<Rightarrow> string \<Rightarrow> bool" where
  "reaches E s v = (\<exists>n. (s, v) \<in> E ^^ n)"

definition dist :: "(string \<times> string) set \<Rightarrow> string \<Rightarrow> string \<Rightarrow> nat" where
  "dist E s v = (LEAST n. (s, v) \<in> E ^^ n)"

lemma dist_walk: "reaches E s v \<Longrightarrow> (s, v) \<in> E ^^ dist E s v"
  unfolding reaches_def dist_def by (rule LeastI_ex)

lemma dist_le: "(s, v) \<in> E ^^ n \<Longrightarrow> dist E s v \<le> n"
  unfolding dist_def by (rule Least_le)

lemma walk_zero: "(s, s) \<in> E ^^ 0"
  by simp

lemma dist_self [simp]: "dist E s s = 0"
  using dist_le [OF walk_zero] by simp

lemma reaches_self [simp]: "reaches E s s"
  unfolding reaches_def by (intro exI [of _ 0]) simp

lemma reaches_edge: "reaches E s u \<Longrightarrow> (u, v) \<in> E \<Longrightarrow> reaches E s v"
  by (auto simp: reaches_def intro: relpow_Suc_I)

lemma dist_edge: "reaches E s u \<Longrightarrow> (u, v) \<in> E \<Longrightarrow> dist E s v \<le> Suc (dist E s u)"
  by (intro dist_le relpow_Suc_I) (auto intro: dist_walk)

lemma dist_pred:
  assumes "reaches E s v" "v \<noteq> s"
  shows "\<exists>u. reaches E s u \<and> (u, v) \<in> E \<and> dist E s v = Suc (dist E s u)"
proof -
  have "(s, v) \<in> E ^^ dist E s v" by (rule dist_walk [OF assms(1)])
  moreover have "dist E s v \<noteq> 0"
  proof
    assume "dist E s v = 0"
    with dist_walk [OF assms(1)] assms(2) show False by simp
  qed
  then obtain n where n: "dist E s v = Suc n" by (cases "dist E s v") auto
  ultimately obtain u where u: "(s, u) \<in> E ^^ n" "(u, v) \<in> E" by auto
  then have r: "reaches E s u" by (auto simp: reaches_def)
  with dist_edge [OF r u(2)] dist_le [OF u(1)] n u(2) show ?thesis by fastforce
qed

lemma reaches_induct:
  assumes "reaches E s v" "P s" "\<And>u v. reaches E s u \<Longrightarrow> P u \<Longrightarrow> (u, v) \<in> E \<Longrightarrow> P v"
  shows "P v"
proof -
  have "P v" if "(s, v) \<in> E ^^ n" for n v
    using that
  proof (induction n arbitrary: v)
    case 0
    with assms(2) show ?case by simp
  next
    case (Suc n)
    then obtain u where "(s, u) \<in> E ^^ n" "(u, v) \<in> E" by auto
    with Suc.IH assms(3) show ?case by (auto simp: reaches_def)
  qed
  with assms(1) show ?thesis by (auto simp: reaches_def)
qed

section \<open>The invariant of breadth-first search\<close>

definition bfs_inv :: "(string \<times> string) set \<Rightarrow> string \<Rightarrow> string list \<Rightarrow> string set \<Rightarrow> bool" where
  "bfs_inv E s q D \<longleftrightarrow>
     s \<in> D \<and> set q \<subseteq> D \<and> (\<forall>v\<in>D. reaches E s v) \<and>
     (\<forall>u\<in>D - set q. \<forall>v. (u, v) \<in> E \<longrightarrow> v \<in> D) \<and>
     sorted (map (dist E s) q) \<and> (\<forall>x\<in>set q. dist E s x \<le> Suc (dist E s (hd q)))"

lemma bfs_inv_start: "bfs_inv E s [s] {s}"
  by (auto simp: bfs_inv_def)

lemma bfs_inv_closed: "bfs_inv E s q D \<Longrightarrow> u \<in> D \<Longrightarrow> u \<notin> set q \<Longrightarrow> (u, v) \<in> E \<Longrightarrow> v \<in> D"
  unfolding bfs_inv_def by blast

lemma bfs_inv_empty:
  assumes "bfs_inv E s [] D"
  shows "v \<in> D \<longleftrightarrow> reaches E s v"
proof
  show "reaches E s v" if "v \<in> D" using assms that by (simp add: bfs_inv_def)
  assume "reaches E s v"
  then show "v \<in> D"
  proof (rule reaches_induct)
    show "s \<in> D" using assms by (simp add: bfs_inv_def)
  qed (use bfs_inv_closed [OF assms] in auto)
qed

lemma bfs_inv_queue: "bfs_inv E s (c # q) D \<Longrightarrow> x \<in> set (c # q) \<Longrightarrow> dist E s c \<le> dist E s x \<and> dist E s x \<le> Suc (dist E s c)"
proof -
  assume inv: "bfs_inv E s (c # q) D" and x: "x \<in> set (c # q)"
  from inv have "sorted (map (dist E s) (c # q))" "\<forall>x\<in>set (c # q). dist E s x \<le> Suc (dist E s (hd (c # q)))"
    unfolding bfs_inv_def by blast+
  with x show ?thesis by (cases "x = c") simp_all
qed

text \<open>Everything nearer than the head of the queue, and as near, has been discovered.\<close>

lemma bfs_inv_near:
  assumes inv: "bfs_inv E s (c # q) D" and "reaches E s v" "dist E s v \<le> dist E s c"
  shows "v \<in> D"
  using assms(2,3)
proof (induction "dist E s v" arbitrary: v rule: less_induct)
  case (less v)
  show ?case
  proof (cases "v = s")
    case True
    with inv show ?thesis by (simp add: bfs_inv_def)
  next
    case False
    with dist_pred [OF less.prems(1)] obtain u where
      u: "reaches E s u" "(u, v) \<in> E" "dist E s v = Suc (dist E s u)" by blast
    with less.prems(2) have "u \<in> D" by (intro less.hyps) simp_all
    moreover have "u \<notin> set (c # q)"
      using bfs_inv_queue [OF inv, of u] u(3) less.prems(2) by linarith
    ultimately show ?thesis using bfs_inv_closed [OF inv] u(2) by blast
  qed
qed

lemma bfs_inv_new:
  assumes inv: "bfs_inv E s (c # q) D" and "(c, x) \<in> E" "x \<notin> D"
  shows "reaches E s x" "dist E s x = Suc (dist E s c)"
proof -
  have c: "reaches E s c" using inv by (simp add: bfs_inv_def)
  show r: "reaches E s x" by (rule reaches_edge [OF c assms(2)])
  have "\<not> dist E s x \<le> dist E s c" using bfs_inv_near [OF inv r] assms(3) by blast
  with dist_edge [OF c assms(2)] show "dist E s x = Suc (dist E s c)" by simp
qed

lemma bfs_inv_step:
  assumes inv: "bfs_inv E s (c # q) D" and new: "set new = {x. (c, x) \<in> E} - D"
  shows "bfs_inv E s (q @ new) (D \<union> set new)"
proof -
  have far: "dist E s x = Suc (dist E s c)" "reaches E s x" if "x \<in> set new" for x
    using that new bfs_inv_new [OF inv, of x] by auto
  have old: "dist E s c \<le> dist E s x" "dist E s x \<le> Suc (dist E s c)" if "x \<in> set q" for x
    using bfs_inv_queue [OF inv, of x] that by simp_all
  have sorted: "sorted (map (dist E s) (q @ new))"
  proof -
    have "map (dist E s) new = replicate (length new) (Suc (dist E s c))"
      using far(1) by (simp add: map_replicate_const [symmetric])
    moreover have "sorted (map (dist E s) q)" using inv by (simp add: bfs_inv_def)
    ultimately show ?thesis using old(2) by (auto simp: sorted_append)
  qed
  have bound: "dist E s x \<le> Suc (dist E s (hd (q @ new)))" if "x \<in> set (q @ new)" for x
  proof -
    have "hd (q @ new) \<in> set (q @ new)" using that by (cases "q @ new") auto
    then have "dist E s c \<le> dist E s (hd (q @ new))" using old(1) far(1) by auto
    moreover have "dist E s x \<le> Suc (dist E s c)" using that old(2) far(1) by auto
    ultimately show ?thesis by simp
  qed
  have closed: "v \<in> D \<union> set new" if "u \<in> D \<union> set new - set (q @ new)" "(u, v) \<in> E" for u v
  proof (cases "u = c")
    case True
    with that(2) new show ?thesis by blast
  next
    case False
    with that(1) have "u \<in> D" "u \<notin> set (c # q)" by auto
    with bfs_inv_closed [OF inv] that(2) show ?thesis by blast
  qed
  show ?thesis
    unfolding bfs_inv_def
  proof (intro conjI ballI allI impI)
    show "s \<in> D \<union> set new" "set (q @ new) \<subseteq> D \<union> set new" using inv by (auto simp: bfs_inv_def)
    show "reaches E s v" if "v \<in> D \<union> set new" for v using inv far(2) that by (auto simp: bfs_inv_def)
  qed (fact closed sorted bound)+
qed

end
