(* ===== verification/Dag_Search.thy ===== *)
theory Dag_Search
  imports Dag_Paths
begin

text \<open>
  The two searches are correct: \<open>bfs_distances\<close> is the distance function of the nodes that can
  be reached, and \<open>find_shortest_path\<close> returns a shortest walk, or no path when there is none.
\<close>

section \<open>Distances\<close>

lemma dom_single: "dom (dict_get [(s, v)]) = {s}"
  by (auto split: if_splits)

lemma bfs_inv_discovered: "bfs_inv E s q D \<Longrightarrow> x \<in> set q \<Longrightarrow> x \<in> D"
  unfolding bfs_inv_def by blast

lemma scan_distance_result:
  "scan_distance k xs q d = (q', d') \<Longrightarrow>
    \<exists>new. q' = q @ new \<and> set new = set xs - dom (dict_get d) \<and>
      (\<forall>x. dict_get d' x = (if x \<in> set new then Some (Suc k) else dict_get d x))"
proof (induction k xs q d rule: scan_distance.induct)
  case (2 k x xs q d)
  show ?case
  proof (cases "dict_get d x")
    case None
    with 2 obtain new where new: "q' = (q @ [x]) @ new" "set new = set xs - dom (dict_get (dict_set d x (k + 1)))"
      "\<forall>y. dict_get d' y = (if y \<in> set new then Some (Suc k) else dict_get (dict_set d x (k + 1)) y)"
      by auto
    have "set (x # new) = set (x # xs) - dom (dict_get d)"
      using new(2) None by (auto split: if_splits)
    moreover have "\<forall>y. dict_get d' y = (if y \<in> set (x # new) then Some (Suc k) else dict_get d y)"
      using new(3) by auto
    ultimately show ?thesis using new(1) by (intro exI [of _ "x # new"]) simp
  next
    case (Some v)
    with 2 obtain new where "q' = q @ new" "set new = set xs - dom (dict_get d)"
      "\<forall>y. dict_get d' y = (if y \<in> set new then Some (Suc k) else dict_get d y)"
      by auto
    with Some show ?thesis by (intro exI [of _ new]) auto
  qed
qed auto

definition distances_ok :: "(string \<times> string) set \<Rightarrow> string \<Rightarrow> (string, nat) dict \<Rightarrow> bool" where
  "distances_ok E s d \<longleftrightarrow> (\<forall>x v. dict_get d x = Some v \<longrightarrow> v = dist E s x)"

lemma distance_search_correct:
  assumes "bfs_inv (edges_of adj) s q (dom (dict_get d))" "distances_ok (edges_of adj) s d"
  shows "bfs_inv (edges_of adj) s [] (dom (dict_get (distance_search adj q d))) \<and>
    distances_ok (edges_of adj) s (distance_search adj q d)"
  using assms
proof (induction adj q d rule: distance_search.induct)
  case (2 adj c q d)
  let ?E = "edges_of adj"
  obtain q' d' where sc: "scan_distance (distance_at d c) (get_list adj c) q d = (q', d')" by fastforce
  then obtain new where new: "q' = q @ new" "set new = set (get_list adj c) - dom (dict_get d)"
    "\<And>x. dict_get d' x = (if x \<in> set new then Some (Suc (distance_at d c)) else dict_get d x)"
    using scan_distance_result by blast
  have "c \<in> dom (dict_get d)" using bfs_inv_discovered [OF "2.prems"(1)] by simp
  then have c: "distance_at d c = dist ?E s c"
    using "2.prems"(2) by (auto simp: distance_at_def distances_ok_def)
  have new': "set new = {x. (c, x) \<in> ?E} - dom (dict_get d)"
    using new(2) by (auto simp: edges_of_def)
  have dom: "dom (dict_get d') = dom (dict_get d) \<union> set new"
    using new(3) by (auto simp: dom_def)
  have "bfs_inv ?E s q' (dom (dict_get d'))"
    unfolding new(1) dom by (rule bfs_inv_step [OF "2.prems"(1) new'])
  moreover have "distances_ok ?E s d'"
    unfolding distances_ok_def
  proof (intro allI impI)
    fix x v assume x: "dict_get d' x = Some v"
    show "v = dist ?E s x"
    proof (cases "x \<in> set new")
      case True
      with new' bfs_inv_new(2) [OF "2.prems"(1), of x] x new(3) c show ?thesis by auto
    next
      case False
      with x new(3) "2.prems"(2) show ?thesis by (simp add: distances_ok_def)
    qed
  qed
  ultimately show ?case using "2.IH" sc by simp
qed simp

lemma bfs_distances_correct:
  "dict_get (bfs_distances adj s) v =
    (if reaches (edges_of adj) s v then Some (dist (edges_of adj) s v) else None)"
proof -
  have "bfs_inv (edges_of adj) s [s] (dom (dict_get [(s, 0::nat)]))" "distances_ok (edges_of adj) s [(s, 0)]"
    unfolding dom_single by (rule bfs_inv_start) (simp add: distances_ok_def)
  note r = distance_search_correct [OF this, folded bfs_distances_def]
  show ?thesis
    using bfs_inv_empty [OF r [THEN conjunct1], of v] r [THEN conjunct2]
    by (auto simp: distances_ok_def)
qed

section \<open>Predecessors\<close>

lemma scan_next_result:
  "scan_next t c xs q p = (q', p') \<Longrightarrow>
    \<exists>new. set new \<subseteq> set xs - dom (dict_get p) \<and>
      (\<forall>x. dict_get p' x = (if x \<in> set new then Some (Some c) else dict_get p x)) \<and>
      (if t \<in> set xs - dom (dict_get p) then q' = [] \<and> t \<in> set new
       else q' = q @ new \<and> set new = set xs - dom (dict_get p))"
proof (induction t c xs q p rule: scan_next.induct)
  case (2 t c x xs q p)
  show ?case
  proof (cases "dict_get p x")
    case None
    show ?thesis
    proof (cases "x = t")
      case True
      with None "2.prems" show ?thesis by (intro exI [of _ "[x]"]) auto
    next
      case False
      with None 2 obtain new where new: "set new \<subseteq> set xs - dom (dict_get (dict_set p x (Some c)))"
        "\<forall>y. dict_get p' y = (if y \<in> set new then Some (Some c) else dict_get (dict_set p x (Some c)) y)"
        "if t \<in> set xs - dom (dict_get (dict_set p x (Some c))) then q' = [] \<and> t \<in> set new
         else q' = (q @ [x]) @ new \<and> set new = set xs - dom (dict_get (dict_set p x (Some c)))"
        by auto
      have "set (x # new) \<subseteq> set (x # xs) - dom (dict_get p)"
        using new(1) None by (auto split: if_splits)
      moreover have "\<forall>y. dict_get p' y = (if y \<in> set (x # new) then Some (Some c) else dict_get p y)"
        using new(2) by auto
      moreover have "if t \<in> set (x # xs) - dom (dict_get p) then q' = [] \<and> t \<in> set (x # new)
         else q' = q @ x # new \<and> set (x # new) = set (x # xs) - dom (dict_get p)"
        using new(3) False None by (auto split: if_splits)
      ultimately show ?thesis by (intro exI [of _ "x # new"] conjI)
    qed
  next
    case (Some v)
    with 2 obtain new where "set new \<subseteq> set xs - dom (dict_get p)"
      "\<forall>y. dict_get p' y = (if y \<in> set new then Some (Some c) else dict_get p y)"
      "if t \<in> set xs - dom (dict_get p) then q' = [] \<and> t \<in> set new
       else q' = q @ new \<and> set new = set xs - dom (dict_get p)"
      by auto
    with Some show ?thesis by (intro exI [of _ new]) (auto split: if_splits)
  qed
qed auto

text \<open>Every discovered node has the start as its value, or a discovered predecessor one step nearer.\<close>

definition preds_ok :: "(string \<times> string) set \<Rightarrow> string \<Rightarrow> (string, string option) dict \<Rightarrow> bool" where
  "preds_ok E s p \<longleftrightarrow> dict_get p s = Some None \<and>
     (\<forall>x v. dict_get p x = Some v \<longrightarrow> x \<noteq> s \<longrightarrow>
       (\<exists>u. v = Some u \<and> dict_get p u \<noteq> None \<and> (u, x) \<in> E \<and> dist E s x = Suc (dist E s u)))"

lemma preds_ok_extend:
  assumes ok: "preds_ok E s p" and c: "dict_get p c \<noteq> None"
    and new: "\<And>x. x \<in> N \<Longrightarrow> dict_get p x = None \<and> (c, x) \<in> E \<and> dist E s x = Suc (dist E s c)"
    and p': "\<And>x. dict_get p' x = (if x \<in> N then Some (Some c) else dict_get p x)"
  shows "preds_ok E s p'"
proof -
  have s: "s \<notin> N" using ok new by (force simp: preds_ok_def)
  have keep: "dict_get p' u \<noteq> None" if "dict_get p u \<noteq> None" for u
    using p' that by simp
  show ?thesis
    unfolding preds_ok_def
  proof (intro conjI allI impI)
    show "dict_get p' s = Some None" using s p' ok by (simp add: preds_ok_def)
    fix x v assume x: "dict_get p' x = Some v" "x \<noteq> s"
    show "\<exists>u. v = Some u \<and> dict_get p' u \<noteq> None \<and> (u, x) \<in> E \<and> dist E s x = Suc (dist E s u)"
    proof (cases "x \<in> N")
      case True
      with x(1) p' have "v = Some c" by simp
      with new [OF True] keep [OF c] show ?thesis by blast
    next
      case False
      with x p' have "dict_get p x = Some v" by simp
      with ok x(2) keep show ?thesis unfolding preds_ok_def by blast
    qed
  qed
qed

lemma path_search_correct:
  assumes "bfs_inv (edges_of adj) s q (dom (dict_get p))" "preds_ok (edges_of adj) s p" "dict_get p t = None"
  shows "preds_ok (edges_of adj) s (path_search adj t q p) \<and>
    (dict_get (path_search adj t q p) t = None \<longrightarrow> \<not> reaches (edges_of adj) s t)"
  using assms
proof (induction adj t q p rule: path_search.induct)
  case (1 adj t p)
  then show ?case using bfs_inv_empty [of "edges_of adj" s "dom (dict_get p)" t] by (auto simp: domIff)
next
  case (2 adj t c q p)
  let ?E = "edges_of adj"
  obtain q' p' where sc: "scan_next t c (get_list adj c) q p = (q', p')" by fastforce
  then obtain new where new: "set new \<subseteq> set (get_list adj c) - dom (dict_get p)"
    "\<And>x. dict_get p' x = (if x \<in> set new then Some (Some c) else dict_get p x)"
    "if t \<in> set (get_list adj c) - dom (dict_get p) then q' = [] \<and> t \<in> set new
     else q' = q @ new \<and> set new = set (get_list adj c) - dom (dict_get p)"
    using scan_next_result by blast
  have c: "dict_get p c \<noteq> None" using bfs_inv_discovered [OF "2.prems"(1), of c] by auto
  have far: "dict_get p x = None \<and> (c, x) \<in> ?E \<and> dist ?E s x = Suc (dist ?E s c)" if "x \<in> set new" for x
    using that new(1) bfs_inv_new(2) [OF "2.prems"(1), of x] by (auto simp: edges_of_def)
  have ok: "preds_ok ?E s p'"
    by (rule preds_ok_extend [OF "2.prems"(2) c far new(2)])
  show ?case
  proof (cases "t \<in> set (get_list adj c) - dom (dict_get p)")
    case True
    with new sc ok show ?thesis by simp
  next
    case False
    with new(3) have q': "q' = q @ new" and eq: "set new = set (get_list adj c) - dom (dict_get p)" by simp_all
    have "set new = {x. (c, x) \<in> ?E} - dom (dict_get p)" using eq by (auto simp: edges_of_def)
    note step = bfs_inv_step [OF "2.prems"(1) this]
    have "dom (dict_get p') = dom (dict_get p) \<union> set new" using new(2) by (auto simp: dom_def)
    with step q' have "bfs_inv ?E s q' (dom (dict_get p'))" by simp
    moreover have "dict_get p' t = None" using False eq new(2) "2.prems"(3) by auto
    ultimately show ?thesis using "2.IH" [OF sc [symmetric] refl] ok sc by simp
  qed
qed

section \<open>The way back\<close>

lemma trace_back_correct:
  assumes "preds_ok E s p" "dict_get p x \<noteq> None" "dist E s x < k"
  shows "\<exists>path. trace_back k p x = Some path \<and> hd path = s \<and> last path = x \<and> path \<noteq> [] \<and>
    length path = Suc (dist E s x) \<and> successively (\<lambda>u d. (u, d) \<in> E) path"
  using assms
proof (induction k arbitrary: x)
  case (Suc k)
  show ?case
  proof (cases "x = s")
    case True
    with Suc.prems show ?thesis by (simp add: preds_ok_def)
  next
    case False
    with Suc.prems obtain u where u: "dict_get p x = Some (Some u)" "dict_get p u \<noteq> None" "(u, x) \<in> E"
      "dist E s x = Suc (dist E s u)"
      unfolding preds_ok_def by blast
    with Suc.IH [of u] Suc.prems obtain path where path: "trace_back k p u = Some path" "hd path = s" "last path = u"
      "path \<noteq> []" "length path = Suc (dist E s u)" "successively (\<lambda>u d. (u, d) \<in> E) path"
      by auto
    with u show ?thesis by (auto simp: successively_append_iff)
  qed
qed simp

text \<open>A discovered node is nearer than the number of entries, since every distance below occurs.\<close>

lemma preds_levels:
  assumes "preds_ok E s p" "dict_get p x \<noteq> None" "j \<le> dist E s x"
  shows "\<exists>y. dict_get p y \<noteq> None \<and> dist E s y = j"
  using assms
proof (induction "dist E s x" arbitrary: x)
  case 0
  then show ?case by (intro exI [of _ x]) simp
next
  case (Suc n)
  show ?case
  proof (cases "j = dist E s x")
    case True
    with Suc.prems show ?thesis by blast
  next
    case False
    have "x \<noteq> s" using Suc.hyps(2) by auto
    with Suc.prems obtain u where "dict_get p u \<noteq> None" "dist E s x = Suc (dist E s u)"
      unfolding preds_ok_def by blast
    moreover from this(2) Suc.hyps(2) Suc.prems(3) False have "n = dist E s u" "j \<le> dist E s u" by simp_all
    ultimately show ?thesis using Suc.hyps(1) [of u] Suc.prems(1) by blast
  qed
qed

lemma preds_dist_bound:
  assumes "preds_ok E s p" "dict_get p x \<noteq> None"
  shows "dist E s x < length p"
proof -
  have "{..dist E s x} \<subseteq> dist E s ` dom (dict_get p)"
    using preds_levels [OF assms] by (fastforce simp: domIff)
  then have "card {..dist E s x} \<le> card (dom (dict_get p))"
    by (meson card_image_le card_mono finite_dom_map_of finite_imageI order_trans)
  also have "\<dots> \<le> length p"
    by (metis card_length dom_map_of_conv_image_fst length_map list.set_map)
  finally show ?thesis by simp
qed

lemma successively_relpow:
  "successively (\<lambda>u d. (u, d) \<in> E) path \<Longrightarrow> path \<noteq> [] \<Longrightarrow> (hd path, last path) \<in> E ^^ (length path - 1)"
proof (induction path rule: rev_induct)
  case (snoc x path)
  show ?case
  proof (cases path rule: rev_cases)
    case Nil
    then show ?thesis by simp
  next
    case (snoc ys y)
    then have "(hd path, last path) \<in> E ^^ (length path - 1)" "(last path, x) \<in> E" "path \<noteq> []"
      using snoc.prems snoc.IH by (auto simp: successively_append_iff)
    moreover from this have "length path = Suc (length path - 1)" by (cases path) auto
    ultimately have "(hd path, x) \<in> E ^^ length path" by (metis relpow_Suc_I)
    with \<open>path \<noteq> []\<close> show ?thesis by simp
  qed
qed simp

lemma find_shortest_path_cases:
  obtains (found) path where "find_shortest_path adj u d = Some (Some path)" "hd path = u" "last path = d"
      "path \<noteq> []" "length path = Suc (dist (edges_of adj) u d)" "successively (\<lambda>u d. (u, d) \<in> edges_of adj) path"
  | (absent) "find_shortest_path adj u d = Some None" "\<not> reaches (edges_of adj) u d"
proof (cases "u = d")
  case True
  then show thesis by (intro found [of "[u]"]) (simp_all add: find_shortest_path_def)
next
  case False
  let ?E = "edges_of adj" and ?p = "path_search adj d [u] [(u, None)]"
  have "bfs_inv ?E u [u] (dom (dict_get [(u, None :: string option)]))"
    unfolding dom_single by (rule bfs_inv_start)
  moreover have "preds_ok ?E u [(u, None)]" by (simp add: preds_ok_def)
  ultimately have p: "preds_ok ?E u ?p" "dict_get ?p d = None \<longrightarrow> \<not> reaches ?E u d"
    using path_search_correct [of adj u "[u]" "[(u, None)]" d] False by simp_all
  show thesis
  proof (cases "dict_get ?p d = None")
    case True
    with p(2) False show thesis by (intro absent) (simp_all add: find_shortest_path_def Let_def)
  next
    case known: False
    obtain path where "trace_back (length ?p) ?p d = Some path" "hd path = u" "last path = d" "path \<noteq> []"
      "length path = Suc (dist ?E u d)" "successively (\<lambda>u d. (u, d) \<in> ?E) path"
      using trace_back_correct [OF p(1) known preds_dist_bound [OF p(1) known]] by blast
    with False known show thesis by (intro found [of path]) (auto simp: find_shortest_path_def Let_def)
  qed
qed

section \<open>Properties\<close>

definition example_diamond :: adjacency where
  "example_diamond = [(''a'', [''b'', ''c'']), (''b'', [''d'']), (''c'', [''d'']), (''d'', [''e''])]"

text \<open>
  C13: \<open>find_shortest_path\<close> always answers. It answers with no path exactly when the target cannot
  be reached, and otherwise with a walk along the edges from the one node to the other that is
  not longer than any other such walk.
\<close>

theorem shortest_path_correct:
  "\<exists>answer. find_shortest_path adj u d = Some answer \<and> (answer = None \<longleftrightarrow> \<not> reaches (edges_of adj) u d) \<and>
    (\<forall>path. answer = Some path \<longrightarrow> hd path = u \<and> last path = d \<and>
      successively (\<lambda>x y. (x, y) \<in> edges_of adj) path \<and>
      (\<forall>other. other \<noteq> [] \<and> hd other = u \<and> last other = d \<and>
        successively (\<lambda>x y. (x, y) \<in> edges_of adj) other \<longrightarrow> length path \<le> length other))"
proof (cases rule: find_shortest_path_cases [of adj u d])
  case (found path)
  have walk: "(hd other, last other) \<in> edges_of adj ^^ (length other - 1)"
    if "other \<noteq> []" "successively (\<lambda>x y. (x, y) \<in> edges_of adj) other" for other
    using successively_relpow [OF that(2,1)] .
  have "length path \<le> length other" if "other \<noteq> []" "hd other = u" "last other = d"
    "successively (\<lambda>x y. (x, y) \<in> edges_of adj) other" for other
  proof -
    have "dist (edges_of adj) u d \<le> length other - 1"
      using walk [OF that(1,4)] that(2,3) by (intro dist_le) simp
    moreover have "0 < length other" using that(1) by simp
    ultimately show ?thesis using found(5) by linarith
  qed
  moreover have "reaches (edges_of adj) u d"
    using walk [OF found(4,6)] found(2,3) by (auto simp: reaches_def)
  ultimately show ?thesis using found by auto
next
  case absent
  then show ?thesis by simp
qed

theorem shortest_path_correct_witness:
  "find_shortest_path example_diamond ''a'' ''e'' = Some (Some [''a'', ''b'', ''d'', ''e'']) \<and>
    length [''a'', ''b'', ''d'', ''e''] \<le> length [''a'', ''c'', ''d'', ''e'']"
proof -
  have r: "find_shortest_path example_diamond ''a'' ''e'' = Some (Some [''a'', ''b'', ''d'', ''e''])"
    by code_simp
  have s: "successively (\<lambda>x y. (x, y) \<in> edges_of example_diamond) [''a'', ''c'', ''d'', ''e'']"
    by (simp add: edges_of_def example_diamond_def get_list_def)
  from shortest_path_correct [of example_diamond "''a''" "''e''"] r
  have "other \<noteq> [] \<and> hd other = ''a'' \<and> last other = ''e'' \<and>
      successively (\<lambda>x y. (x, y) \<in> edges_of example_diamond) other \<Longrightarrow>
    length [''a'', ''b'', ''d'', ''e''] \<le> length other" for other
    by (elim exE conjE, simp only: option.inject) blast
  from this [of "[''a'', ''c'', ''d'', ''e'']"] r s show ?thesis by simp
qed

end
