(* ===== verification/Dag_Explain.thy ===== *)
theory Dag_Explain
  imports Dag_Search "HOL-Library.Product_Lexorder"
begin

text \<open>
  Explanations of the graph (\<open>src/dpone/dag/edge_explain.py\<close>, \<open>edge_reason_collector.py\<close>) and
  subgraphs of shortest paths (\<open>dag/subgraph.py\<close>): why an edge is there, which node a token
  means, which edges lie on a shortest path.
\<close>

section \<open>Reasons\<close>

record edge_reason =
  er_kind :: string
  er_description :: string
  er_evidence :: "(string \<times> pyval) list"

definition reason_to_jsonable :: "edge_reason \<Rightarrow> pyval" where
  "reason_to_jsonable r = PDict
     [(''kind'', PStr (er_kind r)), (''description'', PStr (er_description r)), (''evidence'', PDict (er_evidence r))]"

record edge_context =
  ec_nodes :: "process_node list"
  ec_indexes :: dep_indexes
  ec_resolutions :: "resolution list"
  ec_adjacency :: adjacency

definition build_edge_context :: "process_node list \<Rightarrow> edge_context" where
  "build_edge_context ns =
     (let ix = build_indexes ns; rs = collect_resolutions ns ix in
      \<lparr>ec_nodes = ns, ec_indexes = ix, ec_resolutions = rs, ec_adjacency = adjacency_of rs\<rparr>)"

text \<open>\<open>xs[:n]\<close>.\<close>

definition py_prefix :: "int \<Rightarrow> 'a list \<Rightarrow> 'a list" where
  "py_prefix n xs = take (nat (if 0 \<le> n then n else int (length xs) + n)) xs"

definition quoted :: "string \<Rightarrow> string" where
  "quoted s = [sq] @ s @ [sq]"

definition detail_text :: "resolution \<Rightarrow> string \<Rightarrow> string" where
  "detail_text r k = quoted (py_str (py_get (rs_detail r) k))"

definition group_reason :: "edge_context \<Rightarrow> process_node \<Rightarrow> process_node \<Rightarrow> int \<Rightarrow> edge_reason list" where
  "group_reason ctx up dn max_triggers =
     (case (some_text (pn_task_group up), some_text (pn_task_group dn)) of
        (Some g, Some h) \<Rightarrow>
          (let ts = triggers_at (ix_triggers (ec_indexes ctx)) (g, h) in
           if ts = [] then []
           else [\<lparr>er_kind = ''group_to_group'',
                  er_description = ''Group '' @ quoted h @ '' depends on group '' @ quoted g @ '', so every task in ''
                    @ quoted g @ '' is upstream of every task in '' @ quoted h,
                  er_evidence = [(''upstream_group'', PStr g), (''downstream_group'', PStr h),
                    (''trigger_count'', PInt (int (length ts))),
                    (''triggers'', PList (map trigger_to_jsonable (py_prefix max_triggers ts))),
                    (''triggers_truncated'', PBool (int (length ts) > max_triggers))]\<rparr>])
      | _ \<Rightarrow> [])"

definition declared_reason :: "process_node \<Rightarrow> process_node \<Rightarrow> resolution \<Rightarrow> edge_reason list" where
  "declared_reason up dn r =
     (let task = ''Task '' @ quoted (pn_name dn); at = (''depends_on_index'', PInt (int (rs_index r)));
          detail = (\<lambda>k. (k, py_get (rs_detail r) k)) in
      if rs_kind r = ''group_to_task'' then
        [\<lparr>er_kind = ''group_to_task'',
          er_description = task @ '' depends on group '' @ quoted (py_str (py_opt (rs_group r)))
            @ '', so it depends on every task in that group'',
          er_evidence = [at, (''group'', py_opt (rs_group r)), (''alias'', rs_alias r)]\<rparr>]
      else if rs_kind r = ''depends_on_task_id'' then
        [\<lparr>er_kind = ''depends_on_task_id'',
          er_description = task @ '' directly depends on task_id '' @ quoted (pn_name up),
          er_evidence = [at, (''task_id'', PStr (pn_name up))]\<rparr>]
      else if rs_kind r = ''depends_on_group_string'' then
        [\<lparr>er_kind = ''depends_on_group_string'',
          er_description = task @ '' depends on group '' @ detail_text r ''group''
            @ '' referenced as a string in depends_on.path'',
          er_evidence = [at, detail ''group'', detail ''match_count'']\<rparr>]
      else if rs_kind r = ''depends_on_selector'' then
        [\<lparr>er_kind = ''depends_on_selector'',
          er_description = task @ '' depends on selector '' @ detail_text r ''selector'' @ '' in file '' @ detail_text r ''file'',
          er_evidence = [at, detail ''file'', detail ''selector'', detail ''match_count'']\<rparr>]
      else if rs_kind r = ''depends_on_file_all'' then
        [\<lparr>er_kind = ''depends_on_file_all'',
          er_description = task @ '' depends on file '' @ detail_text r ''file''
            @ '' without selector, so it waits for all tasks from that file'',
          er_evidence = [at, detail ''file'', detail ''match_count'']\<rparr>]
      else if rs_kind r = ''depends_on_stem_fallback'' then
        [\<lparr>er_kind = ''depends_on_stem_fallback'',
          er_description = task @ '' resolved depends_on.path '' @ quoted (py_str (py_opt (rs_raw_path r)))
            @ '' by legacy stem fallback '' @ detail_text r ''stem'',
          er_evidence = [at, detail ''stem'', detail ''match_count'']\<rparr>]
      else if rs_kind r = ''unresolved'' then []
      else
        [\<lparr>er_kind = (if rs_kind r = [] then ''depends_on_other'' else rs_kind r),
          er_description = task @ '' depends on '' @ quoted (py_str (py_opt (rs_raw_path r)))
            @ '' which matched upstream '' @ quoted (pn_name up),
          er_evidence = foldl (\<lambda>d (k, v). dict_set d k v) [at] (rs_detail r)\<rparr>])"

fun dedupe_reasons :: "(string \<times> string) set \<Rightarrow> edge_reason list \<Rightarrow> edge_reason list" where
  "dedupe_reasons seen [] = []"
| "dedupe_reasons seen (r # rs) =
     (let key = (er_kind r, er_description r) in
      if key \<in> seen then dedupe_reasons seen rs else r # dedupe_reasons (insert key seen) rs)"

definition collect_edge_reasons :: "edge_context \<Rightarrow> process_node \<Rightarrow> process_node \<Rightarrow> int \<Rightarrow> edge_reason list" where
  "collect_edge_reasons ctx up dn max_triggers =
     dedupe_reasons {} (group_reason ctx up dn max_triggers @
       concat (map (declared_reason up dn)
         (filter (\<lambda>r. matches_edge r (pn_name up) (pn_name dn)) (resolve_node_dependencies (ec_indexes ctx) dn))))"

section \<open>Explaining an edge\<close>

record edge_explanation =
  ex_upstream :: "(string \<times> pyval) list"
  ex_downstream :: "(string \<times> pyval) list"
  ex_direct_edge :: bool
  ex_reasons :: "edge_reason list"
  ex_warnings :: "string list"
  ex_path :: "string list option"

definition explanation_to_jsonable :: "edge_explanation \<Rightarrow> pyval" where
  "explanation_to_jsonable e = PDict
     [(''upstream'', PDict (ex_upstream e)), (''downstream'', PDict (ex_downstream e)),
      (''direct_edge'', PBool (ex_direct_edge e)), (''reasons'', PList (map reason_to_jsonable (ex_reasons e))),
      (''warnings'', PList (map PStr (ex_warnings e))),
      (''path'', case ex_path e of None \<Rightarrow> PNone | Some p \<Rightarrow> if p = [] then PNone else PList (map PStr p))]"

definition table_text :: "string option \<times> string option \<Rightarrow> pyval" where
  "table_text t =
     (case (some_text (fst t), some_text (snd t)) of
        (Some s, Some n) \<Rightarrow> PStr (s @ ''.'' @ n) | _ \<Rightarrow> PNone)"

definition node_brief :: "process_node \<Rightarrow> (string \<times> pyval) list" where
  "node_brief n =
     [(''name'', PStr (pn_name n)), (''ref'', PStr (node_ref n)), (''selector'', py_opt (pn_selector n)),
      (''task_group'', py_opt (pn_task_group n)), (''config_path'', PStr (pn_config_path n)),
      (''source'', table_text (pn_source n)), (''sink'', table_text (pn_target n))]"

definition explain_direct_edge :: "edge_context \<Rightarrow> string \<Rightarrow> string \<Rightarrow> int \<Rightarrow> bool \<Rightarrow> edge_explanation res" where
  "explain_direct_edge ctx u d max_triggers include_path =
     (case (dict_get (ix_by_name (ec_indexes ctx)) u, dict_get (ix_by_name (ec_indexes ctx)) d) of
        (Some up, Some dn) \<Rightarrow>
          (let direct = d \<in> set (get_list (ec_adjacency ctx) u);
               reasons = (if direct then collect_edge_reasons ctx up dn max_triggers else []) in
           Inr \<lparr>ex_upstream = node_brief up, ex_downstream = node_brief dn, ex_direct_edge = direct,
                ex_reasons = reasons,
                ex_warnings = (if direct \<and> reasons = []
                  then [''Edge exists in computed DAG, but no specific reason was attributed (unexpected)''] else []),
                ex_path = (if \<not> direct \<and> include_path
                  then (case find_shortest_path (ec_adjacency ctx) u d of Some p \<Rightarrow> p | None \<Rightarrow> None) else None)\<rparr>)
      | (up, dn) \<Rightarrow>
          Inl (ValueError (''Node not found: '' @ py_join '', ''
            ((if up = None then [''upstream '' @ quoted u] else []) @
             (if dn = None then [''downstream '' @ quoted d] else [])))))"

section \<open>Locating a node\<close>

text \<open>One way of reading a token: the only match is the answer, several are an error, none goes on.\<close>

definition unique_or ::
  "process_node list \<Rightarrow> string \<Rightarrow> process_node res \<Rightarrow> process_node res" where
  "unique_or matches msg k = (case matches of [] \<Rightarrow> k | [n] \<Rightarrow> Inr n | _ \<Rightarrow> Inl (ValueError msg))"

definition token_path :: "string \<Rightarrow> string \<Rightarrow> string \<Rightarrow> string" where
  "token_path token root base =
     (let t = py_strip token in
      if path_is_absolute t then path_str t else if t \<noteq> [] then path_join base t else path_str root)"

definition at_path :: "process_node list \<Rightarrow> string \<Rightarrow> process_node list" where
  "at_path ns p = filter (\<lambda>n. path_str (pn_config_path n) = p) ns"

definition locate_node :: "process_node list \<Rightarrow> string \<Rightarrow> string \<Rightarrow> string \<Rightarrow> process_node res" where
  "locate_node ns token root base =
     (let raw = py_strip token in
      if raw = [] then Inl (ValueError ''Empty node token'')
      else
        unique_or (filter (\<lambda>n. pn_name n = raw) ns) ''Ambiguous task_id token''
        (let rest =
           unique_or (filter (\<lambda>n. pn_selector n = Some raw) ns) ''Ambiguous selector token''
           (unique_or (filter (\<lambda>n. node_ref n = raw) ns) ''Ambiguous ref token''
           (unique_or (at_path ns (token_path raw root base)) ''Token resolves to a file with several processes''
           (unique_or (filter (\<lambda>n. path_stem (pn_config_path n) = path_stem raw) ns) ''Ambiguous stem token''
             (Inl (ValueError ''Node not found for token''))))) in
         if CHR ''#'' \<in> set raw then
           (let (file, sel) = (if py_startswith raw ''#'' then (path_str root, py_strip (tl raw))
              else let (f, s) = py_split1 (CHR ''#'') raw in (token_path f root base, py_strip s)) in
            if sel = [] then rest
            else unique_or (filter (\<lambda>n. selected_by n sel) (at_path ns file)) ''Ambiguous selector token'' rest)
         else rest))"

section \<open>Subgraphs\<close>

record subgraph_edge =
  se_upstream :: string
  se_downstream :: string
  se_reasons :: "edge_reason list"

record subgraph =
  sg_nodes :: "string list"
  sg_edges :: "subgraph_edge list"
  sg_shortest :: "nat option"
  sg_warnings :: "string list"

definition reason_kinds :: "subgraph_edge \<Rightarrow> string list" where
  "reason_kinds e = sort (remdups (map er_kind (se_reasons e)))"

definition subgraph_edge_to_jsonable :: "subgraph_edge \<Rightarrow> pyval" where
  "subgraph_edge_to_jsonable e = PDict
     [(''upstream'', PStr (se_upstream e)), (''downstream'', PStr (se_downstream e)),
      (''reason_kinds'', PList (map PStr (reason_kinds e))),
      (''reasons'', PList (map reason_to_jsonable (se_reasons e)))]"

definition subgraph_to_jsonable :: "subgraph \<Rightarrow> pyval" where
  "subgraph_to_jsonable g = PDict
     [(''nodes'', PList (map PStr (sg_nodes g))), (''edges'', PList (map subgraph_edge_to_jsonable (sg_edges g))),
      (''shortest_distance'', case sg_shortest g of None \<Rightarrow> PNone | Some n \<Rightarrow> PInt (int n)),
      (''warnings'', PList (map PStr (sg_warnings g)))]"

text \<open>The reasons of an edge, when they are asked for.\<close>

definition edge_with_reasons :: "edge_context \<Rightarrow> bool \<Rightarrow> int \<Rightarrow> string \<times> string \<Rightarrow> subgraph_edge res" where
  "edge_with_reasons ctx wanted max_triggers = (\<lambda>(u, d).
     if wanted
     then bind_res (explain_direct_edge ctx u d max_triggers False)
       (\<lambda>e. Inr \<lparr>se_upstream = u, se_downstream = d, se_reasons = ex_reasons e\<rparr>)
     else Inr \<lparr>se_upstream = u, se_downstream = d, se_reasons = []\<rparr>)"

definition no_path :: subgraph where
  "no_path = \<lparr>sg_nodes = [], sg_edges = [], sg_shortest = None, sg_warnings = [''No path found'']\<rparr>"

definition one_path_subgraph :: "edge_context \<Rightarrow> bool \<Rightarrow> int \<Rightarrow> string list \<Rightarrow> subgraph res" where
  "one_path_subgraph ctx wanted max_triggers path =
     bind_res (map_res (edge_with_reasons ctx wanted max_triggers) (zip path (tl path))) (\<lambda>es.
       Inr \<lparr>sg_nodes = path, sg_edges = es, sg_shortest = Some (length path - 1), sg_warnings = []\<rparr>)"

text \<open>The edges between nodes whose distances add up.\<close>

definition shortest_edges :: "adjacency \<Rightarrow> (string, nat) dict \<Rightarrow> (string, nat) dict \<Rightarrow> nat \<Rightarrow> (string \<times> string) list" where
  "shortest_edges adj ds dt shortest =
     filter (\<lambda>(u, d). case (dict_get ds u, dict_get ds d, dict_get dt d) of
         (Some a, Some _, Some b) \<Rightarrow> a + 1 + b = shortest | _ \<Rightarrow> False)
       (concat (map (\<lambda>(u, ds). map (Pair u) ds) adj))"

definition far_away :: nat where "far_away = 10 ^ 9"

definition all_paths_subgraph ::
  "edge_context \<Rightarrow> bool \<Rightarrow> int \<Rightarrow> int \<Rightarrow> string \<Rightarrow> string \<Rightarrow> subgraph res" where
  "all_paths_subgraph ctx wanted max_triggers max_edges source target =
     (let adj = ec_adjacency ctx; ds = bfs_distances adj source in
      case dict_get ds target of
        None \<Rightarrow> Inr no_path
      | Some shortest \<Rightarrow>
          (let dt = bfs_distances (reverse_adjacency adj) target;
               on = shortest_edges adj ds dt shortest;
               nodes = sort_key (\<lambda>n. (case dict_get ds n of None \<Rightarrow> far_away | Some k \<Rightarrow> k, n))
                 (remdups (concat (map (\<lambda>(u, d). [u, d]) on)));
               kept = (if int (length on) > max_edges then py_prefix max_edges (sort on) else on) in
           bind_res (map_res (edge_with_reasons ctx wanted max_triggers) (sort kept)) (\<lambda>es.
             Inr \<lparr>sg_nodes = nodes, sg_edges = es, sg_shortest = Some shortest,
                  sg_warnings = (if int (length on) > max_edges
                    then [''Edges truncated: exceeded max_edges='' @ py_str_int max_edges] else [])\<rparr>)))"

definition extract_subgraph ::
  "edge_context \<Rightarrow> string \<Rightarrow> string \<Rightarrow> bool \<Rightarrow> bool \<Rightarrow> bool \<Rightarrow> int \<Rightarrow> int \<Rightarrow> subgraph res" where
  "extract_subgraph ctx source target all_shortest with_reasons with_evidence max_triggers max_edges =
     (let names = ix_by_name (ec_indexes ctx); wanted = with_reasons \<or> with_evidence in
      if dict_get names source = None then Inl (ValueError (''Node '' @ quoted source @ '' not found''))
      else if dict_get names target = None then Inl (ValueError (''Node '' @ quoted target @ '' not found''))
      else if all_shortest then all_paths_subgraph ctx wanted max_triggers max_edges source target
      else
        case find_shortest_path (ec_adjacency ctx) source target of
          Some (Some path) \<Rightarrow> if path = [] then Inr no_path else one_path_subgraph ctx wanted max_triggers path
        | _ \<Rightarrow> Inr no_path)"

end
