(* ===== verification/Dag_Explain_Proofs.thy ===== *)
theory Dag_Explain_Proofs
  imports Dag_Explain
begin

text \<open>
  Explanations are complete: every edge of the computed graph has a reason. Subgraphs are
  exact: they hold the edges that lie on a shortest walk, and no others. A node is found under
  its name.
\<close>

section \<open>Triggers\<close>

lemma triggers_at_set [simp]: "triggers_at (dict_set d k ts) k' = (if k' = k then ts else triggers_at d k')"
  by (simp add: triggers_at_def)

lemma index_trigger_keeps: "triggers_at d k \<noteq> [] \<Longrightarrow> triggers_at (index_trigger own n d e) k \<noteq> []"
  by (simp add: index_trigger_def split: prod.split option.split)

lemma index_trigger_fold_keeps: "triggers_at d k \<noteq> [] \<Longrightarrow> triggers_at (foldl (index_trigger own n) d es) k \<noteq> []"
  by (induction es arbitrary: d) (simp_all add: index_trigger_keeps)

lemma index_trigger_fold:
  "(i, dep) \<in> set es \<Longrightarrow> declared_group dep = Some g \<Longrightarrow> triggers_at (foldl (index_trigger own n) d es) (g, own) \<noteq> []"
proof (induction es arbitrary: d)
  case (Cons e es)
  show ?case
  proof (cases "e = (i, dep)")
    case True
    with Cons.prems have "triggers_at (index_trigger own n d e) (g, own) \<noteq> []"
      by (simp add: index_trigger_def)
    then show ?thesis by (simp add: index_trigger_fold_keeps)
  next
    case False
    with Cons show ?thesis by simp
  qed
qed simp

lemma index_triggers_fold_keeps: "triggers_at d k \<noteq> [] \<Longrightarrow> triggers_at (foldl index_triggers d ns) k \<noteq> []"
  by (induction ns arbitrary: d) (simp_all add: index_triggers_def index_trigger_fold_keeps split: option.split)

lemma index_triggers_fold:
  assumes "n \<in> set ns" "some_text (pn_task_group n) = Some own" "i < length (pn_dependencies n)"
    "declared_group (pn_dependencies n ! i) = Some g"
  shows "triggers_at (foldl index_triggers d ns) (g, own) \<noteq> []"
  using assms(1)
proof (induction ns arbitrary: d)
  case (Cons m ns)
  show ?case
  proof (cases "m = n")
    case True
    have "(i, pn_dependencies n ! i) \<in> set (enumerate 0 (pn_dependencies n))"
      using assms(3) by (simp add: set_enumerate)
    with assms(2,4) True have "triggers_at (index_triggers d m) (g, own) \<noteq> []"
      using index_trigger_fold by (fastforce simp: index_triggers_def)
    then show ?thesis by (simp add: index_triggers_fold_keeps)
  next
    case False
    with Cons show ?thesis by simp
  qed
qed simp

lemma build_indexes_triggers: "ix_triggers (build_indexes ns) = foldl index_triggers [] ns"
  by (simp add: build_indexes_def Let_def)

section \<open>Every edge has a reason\<close>

lemma dedupe_reasons_nonempty: "xs \<noteq> [] \<Longrightarrow> dedupe_reasons {} xs \<noteq> []"
  by (cases xs) (simp_all add: Let_def)

lemma declared_reason_nonempty: "rs_kind r \<noteq> ''unresolved'' \<Longrightarrow> declared_reason up dn r \<noteq> []"
  by (simp add: declared_reason_def Let_def)

lemma names_unique: "distinct (map pn_name ns) \<Longrightarrow> m \<in> set ns \<Longrightarrow> n \<in> set ns \<Longrightarrow> pn_name m = pn_name n \<Longrightarrow> m = n"
  by (simp add: distinct_map inj_on_def)

lemma edge_reasons_nonempty:
  assumes dist: "distinct (map pn_name ns)" and edge: "(pn_name up, pn_name dn) \<in> edges_of (build_adjacency ns)"
    and up: "up \<in> set ns" and dn: "dn \<in> set ns"
  shows "collect_edge_reasons (build_edge_context ns) up dn mt \<noteq> []"
proof -
  let ?ix = "build_indexes ns"
  from edge obtain n i where n: "n \<in> set ns" "i < length (pn_dependencies n)"
    and m: "matches_edge (resolve_declared_dependency n (pn_dependencies n ! i) i ?ix) (pn_name up) (pn_name dn)"
    unfolding build_adjacency_def edges_of_adjacency by (auto simp: collected_iff)
  let ?r = "resolve_declared_dependency n (pn_dependencies n ! i) i ?ix"
  show ?thesis
  proof (cases "\<exists>g own. declared_group (pn_dependencies n ! i) = Some g \<and> some_text (pn_task_group n) = Some own")
    case True
    then obtain g own where g: "declared_group (pn_dependencies n ! i) = Some g" "some_text (pn_task_group n) = Some own"
      by blast
    with m have "pn_name up \<in> pn_name ` set (get_list (ix_by_group ?ix) g)"
      "pn_name dn \<in> pn_name ` set (get_list (ix_by_group ?ix) own)"
      by (auto simp: matches_edge_def resolve_declared_dependency_def Let_def)
    then have "some_text (pn_task_group up) = Some g" "some_text (pn_task_group dn) = Some own"
      using names_unique [OF dist] up dn by (auto simp: build_indexes_fields)
    moreover have "triggers_at (ix_triggers ?ix) (g, own) \<noteq> []"
      unfolding build_indexes_triggers by (rule index_triggers_fold [OF n(1) g(2) n(2) g(1)])
    ultimately have "group_reason (build_edge_context ns) up dn mt \<noteq> []"
      by (simp add: group_reason_def build_edge_context_def Let_def)
    then show ?thesis unfolding collect_edge_reasons_def by (intro dedupe_reasons_nonempty) simp
  next
    case False
    then have "rs_downstream ?r = [pn_name n]"
      by (auto simp: resolve_declared_dependency_def Let_def split: option.splits)
    with m have "n = dn" using names_unique [OF dist n(1) dn] by (simp add: matches_edge_def)
    then have "?r \<in> set (resolve_node_dependencies ?ix dn)"
      using n(2) by (auto simp: resolve_node_dependencies_def set_enumerate image_image)
    with m have in_filter: "?r \<in> set (filter (\<lambda>r. matches_edge r (pn_name up) (pn_name dn))
        (resolve_node_dependencies (ec_indexes (build_edge_context ns)) dn))"
      by (simp add: build_edge_context_def Let_def)
    have "rs_kind ?r \<noteq> ''unresolved''"
    proof
      assume "rs_kind ?r = ''unresolved''"
      from declared_kind_unresolved [OF this] m show False by (simp add: matches_edge_def)
    qed
    then have "declared_reason up dn ?r \<noteq> []" by (rule declared_reason_nonempty)
    with in_filter have "concat (map (declared_reason up dn) (filter (\<lambda>r. matches_edge r (pn_name up) (pn_name dn))
        (resolve_node_dependencies (ec_indexes (build_edge_context ns)) dn))) \<noteq> []"
      unfolding concat_eq_Nil_conv by (metis image_eqI list.set_map)
    then show ?thesis unfolding collect_edge_reasons_def by (intro dedupe_reasons_nonempty) simp
  qed
qed

section \<open>Reversed distances\<close>

lemma edges_of_reverse_inner: "edges_of (foldl (\<lambda>rev d. add_edge rev (d, u)) acc ds) = (\<lambda>d. (d, u)) ` set ds \<union> edges_of acc"
  by (induction ds arbitrary: acc) auto

lemma edges_of_reverse_fold:
  "edges_of (foldl (\<lambda>rev (u, ds). foldl (\<lambda>rev d. add_edge rev (d, u)) rev ds) acc adj) =
     {(d, u). \<exists>ds. (u, ds) \<in> set adj \<and> d \<in> set ds} \<union> edges_of acc"
  by (induction adj arbitrary: acc) (auto simp: edges_of_reverse_inner)

lemma edge_entries:
  assumes "distinct (map fst adj)"
  shows "(u, d) \<in> edges_of adj \<longleftrightarrow> (\<exists>ds. (u, ds) \<in> set adj \<and> d \<in> set ds)"
proof
  assume "(u, d) \<in> edges_of adj"
  then show "\<exists>ds. (u, ds) \<in> set adj \<and> d \<in> set ds"
    by (cases "dict_get adj u") (auto simp: edges_of_def get_list_def dest: map_of_SomeD)
qed (use assms get_list_entry in \<open>auto simp: edges_of_def\<close>)

lemma edges_of_reverse:
  assumes "distinct (map fst adj)"
  shows "edges_of (reverse_adjacency adj) = (edges_of adj)\<inverse>"
  using edge_entries [OF assms] by (auto simp: reverse_adjacency_def edges_of_reverse_fold)

lemma relpow_inverse:
  fixes E :: "('a \<times> 'a) set"
  shows "(u, v) \<in> E\<inverse> ^^ n \<longleftrightarrow> (v, u) \<in> E ^^ n"
proof (induction n arbitrary: u)
  case (Suc n)
  have "E\<inverse> ^^ Suc n = E\<inverse> O E\<inverse> ^^ n" by (simp add: relpow_commute)
  then have "(u, v) \<in> E\<inverse> ^^ Suc n \<longleftrightarrow> (\<exists>w. (u, w) \<in> E\<inverse> \<and> (w, v) \<in> E\<inverse> ^^ n)"
    by auto
  also have "\<dots> \<longleftrightarrow> (v, u) \<in> E ^^ Suc n" using Suc.IH by auto
  finally show ?case .
qed auto

lemma reaches_inverse: "reaches (E\<inverse>) s v \<longleftrightarrow> reaches E v s"
  by (simp add: reaches_def relpow_inverse)

lemma dist_inverse: "dist (E\<inverse>) s v = dist E v s"
  by (simp add: dist_def relpow_inverse)

section \<open>Edges on shortest walks\<close>

text \<open>Some walk of least length from \<open>s\<close> to \<open>t\<close> uses the edge \<open>(u, d)\<close>.\<close>

definition on_shortest_walk :: "(string \<times> string) set \<Rightarrow> string \<Rightarrow> string \<Rightarrow> string \<Rightarrow> string \<Rightarrow> bool" where
  "on_shortest_walk E s t u d \<longleftrightarrow>
     (\<exists>a b. (s, u) \<in> E ^^ a \<and> (u, d) \<in> E \<and> (d, t) \<in> E ^^ b \<and> a + 1 + b = dist E s t)"

lemma on_shortest_walk_iff:
  "on_shortest_walk E s t u d \<longleftrightarrow>
     (u, d) \<in> E \<and> reaches E s u \<and> reaches E d t \<and> dist E s u + 1 + dist E d t = dist E s t"
proof
  assume "on_shortest_walk E s t u d"
  then obtain a b where w: "(s, u) \<in> E ^^ a" "(u, d) \<in> E" "(d, t) \<in> E ^^ b" "a + 1 + b = dist E s t"
    by (auto simp: on_shortest_walk_def)
  then have r: "reaches E s u" "reaches E d t" by (auto simp: reaches_def)
  have "(s, d) \<in> E ^^ Suc (dist E s u)"
    using dist_walk [OF r(1)] w(2) by (rule relpow_Suc_I)
  then have "(s, t) \<in> E ^^ (Suc (dist E s u) + dist E d t)"
    using dist_walk [OF r(2)] by (rule relpow_trans)
  then have "(s, t) \<in> E ^^ (dist E s u + 1 + dist E d t)" by simp
  then have "dist E s t \<le> dist E s u + 1 + dist E d t" by (rule dist_le)
  with dist_le [OF w(1)] dist_le [OF w(3)] w(2,4) r
  show "(u, d) \<in> E \<and> reaches E s u \<and> reaches E d t \<and> dist E s u + 1 + dist E d t = dist E s t" by auto
next
  assume "(u, d) \<in> E \<and> reaches E s u \<and> reaches E d t \<and> dist E s u + 1 + dist E d t = dist E s t"
  then show "on_shortest_walk E s t u d"
    unfolding on_shortest_walk_def using dist_walk by blast
qed

lemma shortest_edges_iff:
  assumes "distinct (map fst adj)" "reaches (edges_of adj) s t"
  shows "(u, d) \<in> set (shortest_edges adj (bfs_distances adj s) (bfs_distances (reverse_adjacency adj) t)
      (dist (edges_of adj) s t)) \<longleftrightarrow> on_shortest_walk (edges_of adj) s t u d"
proof -
  have pairs: "(u, d) \<in> set (concat (map (\<lambda>(u, ds). map (Pair u) ds) adj)) \<longleftrightarrow> (u, d) \<in> edges_of adj"
    unfolding edge_entries [OF assms(1)] by force
  show ?thesis
    unfolding on_shortest_walk_iff shortest_edges_def set_filter mem_Collect_eq pairs prod.case
    by (auto simp: bfs_distances_correct edges_of_reverse [OF assms(1)] reaches_inverse dist_inverse
        intro: reaches_edge)
qed

lemma build_adjacency_keys: "distinct (map fst (build_adjacency ns))"
proof -
  have "distinct (map fst (foldl add_edge adj es))" if "distinct (map fst adj)" for adj es
    using that by (induction es arbitrary: adj) (auto simp: add_edge_def split: prod.split)
  then show ?thesis by (simp add: build_adjacency_def adjacency_of_def)
qed

lemma map_res_edges:
  "map_res (edge_with_reasons ctx wanted mt) es = Inr out \<Longrightarrow> map (\<lambda>e. (se_upstream e, se_downstream e)) out = es"
  by (induction es arbitrary: out)
    (auto simp: bind_res_eq_Inr edge_with_reasons_def split: if_splits)

section \<open>Properties\<close>

text \<open>
  For every edge of the computed graph the explanation exists, says that the edge is
  direct, gives at least one reason and no warning: the case the code marks as unexpected
  cannot occur.
\<close>

theorem every_edge_explained:
  assumes "distinct (map pn_name ns)" "(u, d) \<in> edges_of (build_adjacency ns)"
  shows "\<exists>e. explain_direct_edge (build_edge_context ns) u d mt inc = Inr e \<and> ex_direct_edge e \<and>
    ex_reasons e \<noteq> [] \<and> ex_warnings e = []"
proof -
  let ?ctx = "build_edge_context ns"
  from assms(2) obtain r where "r \<in> set (collect_resolutions ns (build_indexes ns))" "(u, d) \<in> set (resolution_edges r)"
    by (auto simp: build_adjacency_def edges_of_adjacency resolution_edges_def matches_edge_def)
  from collected_edges(1,2) [OF assms(1) this] obtain up dn where
    n: "up \<in> set ns" "dn \<in> set ns" "pn_name up = u" "pn_name dn = d" by auto
  have names: "dict_get (ix_by_name (ec_indexes ?ctx)) u = Some up" "dict_get (ix_by_name (ec_indexes ?ctx)) d = Some dn"
    using n build_indexes_name [OF assms(1)] by (auto simp: build_edge_context_def Let_def)
  have "d \<in> set (get_list (ec_adjacency ?ctx) u)"
    using assms(2) by (simp add: build_edge_context_def Let_def build_adjacency_def edges_of_def)
  moreover have "collect_edge_reasons ?ctx up dn mt \<noteq> []"
    using edge_reasons_nonempty [OF assms(1) _ n(1,2)] assms(2) n(3,4) by simp
  ultimately show ?thesis by (simp add: explain_direct_edge_def names Let_def)
qed

theorem every_edge_explained_witness:
  "\<exists>e. explain_direct_edge (build_edge_context example_chain) ''a'' ''b'' 10 False = Inr e \<and> ex_reasons e \<noteq> []"
proof -
  have "distinct (map pn_name example_chain)" by code_simp
  moreover have "''b'' \<in> set (get_list (build_adjacency example_chain) ''a'')" by code_simp
  then have "(''a'', ''b'') \<in> edges_of (build_adjacency example_chain)" by (simp add: edges_of_def)
  ultimately show ?thesis using every_edge_explained by blast
qed

text \<open>
  C28: With all shortest paths asked for and no more than the allowed number of edges, the
  subgraph has the distance of the two nodes, no warning, and exactly the edges that lie on
  some walk of least length between them.
\<close>

theorem subgraph_exact:
  assumes "extract_subgraph (build_edge_context ns) s t True wr we mt me = Inr g"
    and "reaches (edges_of (build_adjacency ns)) s t" "sg_warnings g = []"
  shows "sg_shortest g = Some (dist (edges_of (build_adjacency ns)) s t) \<and>
    (\<forall>u d. (u, d) \<in> (\<lambda>e. (se_upstream e, se_downstream e)) ` set (sg_edges g) \<longleftrightarrow>
      on_shortest_walk (edges_of (build_adjacency ns)) s t u d)"
proof -
  let ?adj = "build_adjacency ns" and ?ctx = "build_edge_context ns"
  let ?on = "shortest_edges ?adj (bfs_distances ?adj s) (bfs_distances (reverse_adjacency ?adj) t) (dist (edges_of ?adj) s t)"
  have adj: "ec_adjacency ?ctx = ?adj"
    by (simp add: build_edge_context_def build_adjacency_def Let_def)
  have ds: "dict_get (bfs_distances ?adj s) t = Some (dist (edges_of ?adj) s t)"
    using assms(2) by (simp add: bfs_distances_correct)
  from assms(1) have "all_paths_subgraph ?ctx (wr \<or> we) mt me s t = Inr g"
    by (simp add: extract_subgraph_def Let_def split: if_splits)
  then obtain es nodes where es: "map_res (edge_with_reasons ?ctx (wr \<or> we) mt)
      (sort (if int (length ?on) > me then py_prefix me (sort ?on) else ?on)) = Inr es"
    and g': "Inr \<lparr>sg_nodes = nodes, sg_edges = es, sg_shortest = Some (dist (edges_of ?adj) s t),
      sg_warnings = (if int (length ?on) > me
        then [''Edges truncated: exceeded max_edges='' @ py_str_int me] else [])\<rparr> = (Inr g :: subgraph res)"
    unfolding all_paths_subgraph_def Let_def adj ds option.case bind_res_eq_Inr by (elim exE conjE) blast
  then have g: "sg_edges g = es" "sg_shortest g = Some (dist (edges_of ?adj) s t)"
      "sg_warnings g = (if int (length ?on) > me
        then [''Edges truncated: exceeded max_edges='' @ py_str_int me] else [])"
    by auto
  from g(3) assms(3) have "\<not> int (length ?on) > me" by (simp split: if_splits)
  with es have es: "map_res (edge_with_reasons ?ctx (wr \<or> we) mt) (sort ?on) = Inr es" by simp
  have "set (map (\<lambda>e. (se_upstream e, se_downstream e)) es) = set (sort ?on)"
    using map_res_edges [OF es] by (rule arg_cong)
  then have "(\<lambda>e. (se_upstream e, se_downstream e)) ` set es = set ?on" unfolding set_map set_sort .
  with g shortest_edges_iff [OF build_adjacency_keys assms(2)] show ?thesis by simp
qed

theorem subgraph_exact_witness:
  "\<exists>g. extract_subgraph (build_edge_context example_chain) ''a'' ''c'' True False False 10 500 = Inr g \<and>
    sg_shortest g = Some (dist (edges_of (build_adjacency example_chain)) ''a'' ''c'')"
proof -
  have g: "extract_subgraph (build_edge_context example_chain) ''a'' ''c'' True False False 10 500 =
    Inr \<lparr>sg_nodes = [''a'', ''b'', ''c''],
         sg_edges = [\<lparr>se_upstream = ''a'', se_downstream = ''b'', se_reasons = []\<rparr>,
                     \<lparr>se_upstream = ''b'', se_downstream = ''c'', se_reasons = []\<rparr>],
         sg_shortest = Some 2, sg_warnings = []\<rparr>"
    by code_simp
  have "''b'' \<in> set (get_list (build_adjacency example_chain) ''a'')"
    "''c'' \<in> set (get_list (build_adjacency example_chain) ''b'')" by code_simp+
  then have r: "reaches (edges_of (build_adjacency example_chain)) ''a'' ''c''"
    by (intro reaches_edge [OF reaches_edge [OF reaches_self]]) (simp_all add: edges_of_def)
  from subgraph_exact [OF g r] g show ?thesis by auto
qed

text \<open>
  A node is located by its name, whatever the other nodes, the root and the base path are.\<close>

theorem node_located_by_name:
  assumes "distinct (map pn_name ns)" "n \<in> set ns" "py_strip (pn_name n) = pn_name n" "pn_name n \<noteq> []"
  shows "locate_node ns (pn_name n) root base = Inr n"
proof -
  have "filter (\<lambda>m. pn_name m = pn_name n) ns = [n]"
    using assms(1,2)
  proof (induction ns)
    case (Cons m ns)
    show ?case
    proof (cases "m = n")
      case True
      with Cons.prems(1) have "filter (\<lambda>m. pn_name m = pn_name n) ns = []"
        by (auto simp: filter_empty_conv image_iff)
      with True show ?thesis by simp
    next
      case False
      with Cons show ?thesis by (auto simp: image_iff)
    qed
  qed simp
  with assms(3,4) show ?thesis by (simp add: locate_node_def unique_or_def Let_def)
qed

theorem node_located_by_name_witness:
  "locate_node example_chain ''b'' ''/m/a.yaml'' ''/m'' = Inr (example_chain ! 1)"
proof -
  have "py_strip ''b'' = ''b''" by code_simp
  then show ?thesis
    using node_located_by_name [of example_chain "example_chain ! 1" "''/m/a.yaml''" "''/m''"]
    by (simp add: example_chain_def example_node_def)
qed

end
