(* ===== verification/Nt_Checkpoint.thy ===== *)
theory Nt_Checkpoint
  imports Py_Value
begin

text \<open>
  Partition checkpoints of native transfers
  (\<open>src/dpone/runtime/lineage/partition_checkpoint.py\<close>, \<open>partition_checkpoint_store.py\<close>): the
  record, its JSON document, and the append-only JSONL store.

  A store is the list of the lines of its file, and a script of the faults that the next
  writes meet: a write may raise after none, a part or all of its bytes have reached the
  file. A process that dies is one whose later writes all raise and leave nothing.
\<close>

section \<open>The record\<close>

datatype ckpt_status = CkPlanned | CkExported | CkLoaded | CkFinalized | CkCommitted | CkFailed

fun status_value :: "ckpt_status \<Rightarrow> string" where
  "status_value CkPlanned = ''planned''"
| "status_value CkExported = ''exported''"
| "status_value CkLoaded = ''loaded''"
| "status_value CkFinalized = ''finalized''"
| "status_value CkCommitted = ''committed''"
| "status_value CkFailed = ''failed''"

definition ckpt_statuses :: "ckpt_status list" where
  "ckpt_statuses = [CkPlanned, CkExported, CkLoaded, CkFinalized, CkCommitted, CkFailed]"

definition parse_status :: "string \<Rightarrow> ckpt_status res" where
  "parse_status s =
     (case filter (\<lambda>c. status_value c = s) ckpt_statuses of
        c # _ \<Rightarrow> Inr c
      | [] \<Rightarrow> Inl (ValueError ''not a valid PartitionCheckpointStatus''))"

record partition_checkpoint =
  pc_id :: string
  pc_status :: ckpt_status
  pc_query_hash :: string
  pc_schema_hash :: string
  pc_source_table :: string
  pc_target_table :: string
  pc_bounds :: "(string \<times> pyval) list"
  pc_started_at :: pydt
  pc_completed_at :: "pydt option"
  pc_rows :: "int option"
  pc_bytes :: "int option"
  pc_diagnostics :: "(string \<times> pyval) list"

definition can_skip :: "partition_checkpoint \<Rightarrow> string \<Rightarrow> string \<Rightarrow> bool" where
  "can_skip c query_hash schema_hash =
     (pc_status c = CkCommitted \<and> pc_query_hash c = query_hash \<and> pc_schema_hash c = schema_hash)"

section \<open>Identity\<close>

definition partition_identity_payload ::
  "string \<Rightarrow> string \<Rightarrow> string \<Rightarrow> string \<Rightarrow> string \<Rightarrow> (string \<times> pyval) list \<Rightarrow> pyval" where
  "partition_identity_payload source_table target_table strategy query_hash schema_hash bounds =
     PDict [(''partition_bounds'', PDict bounds), (''query_hash'', PStr query_hash),
       (''schema_hash'', PStr schema_hash), (''source_table'', PStr source_table),
       (''strategy'', PStr strategy), (''target_table'', PStr target_table)]"

text \<open>\<open>sha\<close> is the hexadecimal SHA-256 digest of a text.\<close>

definition build_transfer_partition_id ::
  "(string \<Rightarrow> string) \<Rightarrow> string \<Rightarrow> string \<Rightarrow> string \<Rightarrow> string \<Rightarrow> string \<Rightarrow> (string \<times> pyval) list \<Rightarrow> string" where
  "build_transfer_partition_id sha source_table target_table strategy query_hash schema_hash bounds =
     sha (json_canonical (partition_identity_payload source_table target_table strategy query_hash schema_hash bounds))"

section \<open>Documents\<close>

definition opt_int :: "int option \<Rightarrow> pyval" where
  "opt_int v = (case v of None \<Rightarrow> PNone | Some i \<Rightarrow> PInt i)"

definition opt_iso :: "pydt option \<Rightarrow> pyval" where
  "opt_iso v = (case v of None \<Rightarrow> PNone | Some t \<Rightarrow> PStr (dt_iso (CHR ''T'') t))"

definition checkpoint_to_payload :: "partition_checkpoint \<Rightarrow> pyval" where
  "checkpoint_to_payload c =
     PDict [
       (''transfer_partition_id'', PStr (pc_id c)),
       (''status'', PStr (status_value (pc_status c))),
       (''query_hash'', PStr (pc_query_hash c)),
       (''schema_hash'', PStr (pc_schema_hash c)),
       (''source_table'', PStr (pc_source_table c)),
       (''target_table'', PStr (pc_target_table c)),
       (''partition_bounds'', PDict (pc_bounds c)),
       (''started_at'', PStr (dt_iso (CHR ''T'') (pc_started_at c))),
       (''completed_at'', opt_iso (pc_completed_at c)),
       (''rows_exported'', opt_int (pc_rows c)),
       (''bytes_exported'', opt_int (pc_bytes c)),
       (''diagnostics'', PDict (pc_diagnostics c))]"

text \<open>\<open>payload[k]\<close>, and \<open>str(payload[k])\<close>.\<close>

definition item :: "(string \<times> pyval) list \<Rightarrow> string \<Rightarrow> pyval res" where
  "item d k = (case dict_get d k of None \<Rightarrow> Inl (KeyError k) | Some v \<Rightarrow> Inr v)"

definition str_item :: "(string \<times> pyval) list \<Rightarrow> string \<Rightarrow> string res" where
  "str_item d k = bind_res (item d k) (\<lambda>v. Inr (py_str v))"

definition counter_invalid :: "string \<Rightarrow> 'a res" where
  "counter_invalid k = Inl (AppError ''PartitionCheckpointDecodeError'' k)"

definition optional_non_negative_int :: "(string \<times> pyval) list \<Rightarrow> string \<Rightarrow> int option res" where
  "optional_non_negative_int d k =
     (case dict_get d k of
        None \<Rightarrow> counter_invalid k
      | Some PNone \<Rightarrow> Inr None
      | Some (PInt i) \<Rightarrow> if i < 0 then counter_invalid k else Inr (Some i)
      | Some _ \<Rightarrow> counter_invalid k)"

definition optional_datetime :: "pyval \<Rightarrow> pydt option res" where
  "optional_datetime v =
     (if py_truthy v then bind_res (datetime_fromisoformat (py_str v)) (\<lambda>t. Inr (Some t)) else Inr None)"

definition checkpoint_from_dict :: "(string \<times> pyval) list \<Rightarrow> partition_checkpoint res" where
  "checkpoint_from_dict d =
     bind_res (str_item d ''transfer_partition_id'') (\<lambda>id.
     bind_res (bind_res (str_item d ''status'') parse_status) (\<lambda>status.
     bind_res (str_item d ''query_hash'') (\<lambda>query_hash.
     bind_res (str_item d ''schema_hash'') (\<lambda>schema_hash.
     bind_res (str_item d ''source_table'') (\<lambda>source_table.
     bind_res (str_item d ''target_table'') (\<lambda>target_table.
     bind_res (bind_res (item d ''partition_bounds'') py_dict) (\<lambda>bounds.
     bind_res (bind_res (str_item d ''started_at'') datetime_fromisoformat) (\<lambda>started_at.
     bind_res (optional_datetime (py_get d ''completed_at'')) (\<lambda>completed_at.
     bind_res (optional_non_negative_int d ''rows_exported'') (\<lambda>rows.
     bind_res (optional_non_negative_int d ''bytes_exported'') (\<lambda>bytes.
     bind_res (py_dict (py_or (py_get d ''diagnostics'') (PDict []))) (\<lambda>diagnostics.
       Inr \<lparr>pc_id = id, pc_status = status, pc_query_hash = query_hash, pc_schema_hash = schema_hash,
         pc_source_table = source_table, pc_target_table = target_table, pc_bounds = bounds,
         pc_started_at = started_at, pc_completed_at = completed_at, pc_rows = rows, pc_bytes = bytes,
         pc_diagnostics = diagnostics\<rparr>))))))))))))"

definition checkpoint_from_payload :: "pyval \<Rightarrow> partition_checkpoint res" where
  "checkpoint_from_payload v =
     (case v of
        PDict d \<Rightarrow> checkpoint_from_dict d
      | _ \<Rightarrow> Inl (AppError ''AttributeError'' ''get''))"

section \<open>The JSONL store\<close>

text \<open>
  A line with its newline is \<open>JDoc\<close>. A write that stops early leaves a complete document
  without a newline, \<open>JOpen\<close>, or the beginning of one, \<open>JPart\<close>; whatever is written next
  ends up on the same line, which is no JSON any more (\<open>JBad\<close>).
\<close>

datatype jsonl_line = JDoc pyval | JOpen pyval | JPart | JBad

datatype write_fault = NoFault | NothingWritten | PartWritten | DocumentWritten | AllWritten

record jsonl_store =
  jf_lines :: "jsonl_line list"
  jf_faults :: "write_fault list"

definition unfinished :: "jsonl_line list \<Rightarrow> bool" where
  "unfinished ls = (ls \<noteq> [] \<and> (case last ls of JOpen _ \<Rightarrow> True | JPart \<Rightarrow> True | _ \<Rightarrow> False))"

definition append_line :: "jsonl_line list \<Rightarrow> jsonl_line \<Rightarrow> jsonl_line list" where
  "append_line ls l = (if unfinished ls then butlast ls @ [case l of JDoc _ \<Rightarrow> JBad | _ \<Rightarrow> JPart] else ls @ [l])"

definition write_line :: "write_fault \<Rightarrow> jsonl_line list \<Rightarrow> pyval \<Rightarrow> jsonl_line list" where
  "write_line fault ls v =
     (case fault of
        NoFault \<Rightarrow> append_line ls (JDoc v)
      | NothingWritten \<Rightarrow> ls
      | PartWritten \<Rightarrow> append_line ls JPart
      | DocumentWritten \<Rightarrow> append_line ls (JOpen v)
      | AllWritten \<Rightarrow> append_line ls (JDoc v))"

definition store_upsert :: "jsonl_store \<Rightarrow> partition_checkpoint \<Rightarrow> unit res \<times> jsonl_store" where
  "store_upsert s c =
     (case jf_faults s of
        [] \<Rightarrow> (Inr (), s\<lparr>jf_lines := append_line (jf_lines s) (JDoc (checkpoint_to_payload c))\<rparr>)
      | f # fs \<Rightarrow>
          (if f = NoFault then Inr () else Inl (AppError ''OSError'' ''write''),
           s\<lparr>jf_lines := write_line f (jf_lines s) (checkpoint_to_payload c), jf_faults := fs\<rparr>))"

fun store_upsert_many :: "jsonl_store \<Rightarrow> partition_checkpoint list \<Rightarrow> unit res \<times> jsonl_store" where
  "store_upsert_many s [] = (Inr (), s)"
| "store_upsert_many s (c # cs) =
     (case store_upsert s c of
        (Inl e, s') \<Rightarrow> (Inl e, s')
      | (Inr _, s') \<Rightarrow> store_upsert_many s' cs)"

definition read_line :: "jsonl_line \<Rightarrow> partition_checkpoint res" where
  "read_line l =
     (case l of
        JDoc v \<Rightarrow> checkpoint_from_payload v
      | JOpen v \<Rightarrow> checkpoint_from_payload v
      | _ \<Rightarrow> Inl (ValueError ''JSONDecodeError''))"

definition iter_all :: "jsonl_store \<Rightarrow> partition_checkpoint list res" where
  "iter_all s = map_res read_line (jf_lines s)"

definition latest_of :: "partition_checkpoint list \<Rightarrow> (string, partition_checkpoint) dict" where
  "latest_of cs = foldl (\<lambda>d c. dict_set d (pc_id c) c) [] cs"

definition list_latest :: "jsonl_store \<Rightarrow> partition_checkpoint list res" where
  "list_latest s = bind_res (iter_all s) (\<lambda>cs. Inr (dict_values (latest_of cs)))"

definition safe_to_skip :: "jsonl_store \<Rightarrow> string \<Rightarrow> string \<Rightarrow> partition_checkpoint list res" where
  "safe_to_skip s query_hash schema_hash =
     bind_res (list_latest s) (\<lambda>cs. Inr (filter (\<lambda>c. can_skip c query_hash schema_hash) cs))"

definition store_summary :: "jsonl_store \<Rightarrow> (string, nat) dict res" where
  "store_summary s =
     bind_res (list_latest s) (\<lambda>cs.
       Inr (foldl (\<lambda>d c. dict_set d (status_value (pc_status c))
              (case dict_get d (status_value (pc_status c)) of None \<Rightarrow> 1 | Some n \<Rightarrow> n + 1))
            (map (\<lambda>st. (status_value st, 0)) ckpt_statuses) cs))"

end
