(* ===== verification/Nt_Resume.thy ===== *)
theory Nt_Resume
  imports Nt_Checkpoint
begin

text \<open>
  Resume planning of native transfers (\<open>src/dpone/runtime/lineage/partition_resume.py\<close>): the
  guard that an attempt leaves in the diagnostics of its checkpoints, and the planner that
  refuses a route with an unresolved guard and otherwise decides for each partition whether
  it is loaded again or skipped.
\<close>

section \<open>The target commit guard\<close>

definition guard_key :: string where "guard_key = ''target_commit_guard''"
definition guard_schema_version :: string where
  "guard_schema_version = ''dpone.native_transfer.target_commit_guard.v1''"
definition guard_recovery :: string where "guard_recovery = ''manual_reconciliation_required''"

definition guard_phase_status :: "(string, ckpt_status) dict" where
  "guard_phase_status =
     [(''armed'', CkExported), (''failed_before_target'', CkFailed), (''checkpoint_committed'', CkCommitted),
      (''checkpoint_incomplete'', CkFailed), (''target_outcome_unknown'', CkFailed)]"

definition unresolved_guard_phases :: "string list" where
  "unresolved_guard_phases = [''armed'', ''checkpoint_incomplete'', ''target_outcome_unknown'']"

record target_guard =
  tg_batch_id :: string
  tg_phase :: string
  tg_strategy :: "string option"

definition guard_error :: "string \<Rightarrow> 'a res" where
  "guard_error code = Inl (AppError ''NativeTransferTargetCommitGuardError'' code)"

definition invalid_guard :: "'a res" where
  "invalid_guard = guard_error ''native_transfer_target_commit_guard_invalid''"

definition sha256_prefix :: string where "sha256_prefix = ''sha256:''"

definition is_sha256_value :: "pyval \<Rightarrow> bool" where
  "is_sha256_value v =
     (case v of
        PStr s \<Rightarrow> py_startswith s sha256_prefix \<and>
          (let digest = drop (length sha256_prefix) s
           in length digest = 64 \<and> list_all (\<lambda>c. c \<in> set ''0123456789abcdef'') digest)
      | _ \<Rightarrow> False)"

text \<open>\<open>str.isalnum\<close> of one character: letters, digits and the other numeric characters.\<close>

definition py_isalnum_char :: "char \<Rightarrow> bool" where
  "py_isalnum_char c =
     (let n = code_of c in
       (48 \<le> n \<and> n \<le> 57) \<or> (65 \<le> n \<and> n \<le> 90) \<or> (97 \<le> n \<and> n \<le> 122) \<or>
       n \<in> {170, 178, 179, 181, 185, 186, 188, 189, 190} \<or> (192 \<le> n \<and> n \<noteq> 215 \<and> n \<noteq> 247))"

definition bounded_name :: "string \<Rightarrow> bool" where
  "bounded_name s =
     (1 \<le> length s \<and> length s \<le> 128 \<and> list_all (\<lambda>c. py_isalnum_char c \<or> c = CHR ''_'') s)"

definition is_bounded_strategy :: "pyval \<Rightarrow> bool" where
  "is_bounded_strategy v = (case v of PStr s \<Rightarrow> bounded_name s | _ \<Rightarrow> False)"

definition guard_fields_ok :: "(string \<times> pyval) list \<Rightarrow> ckpt_status \<Rightarrow> bool" where
  "guard_fields_ok raw status \<longleftrightarrow>
     py_get raw ''schema_version'' = PStr guard_schema_version \<and>
     is_sha256_value (py_get raw ''checkpoint_batch_id'') \<and>
     is_str (py_get raw ''phase'') \<and>
     py_get raw ''recovery'' = PStr guard_recovery \<and>
     (py_get raw ''strategy'' = PNone \<or> is_bounded_strategy (py_get raw ''strategy'')) \<and>
     dict_get guard_phase_status (py_str (py_get raw ''phase'')) = Some status"

definition guard_from_checkpoint :: "partition_checkpoint \<Rightarrow> target_guard option res" where
  "guard_from_checkpoint c =
     (if \<not> py_has (pc_diagnostics c) guard_key then Inr None
      else
        (case py_get (pc_diagnostics c) guard_key of
           PDict raw \<Rightarrow>
             if guard_fields_ok raw (pc_status c) then
               Inr (Some \<lparr>tg_batch_id = py_str (py_get raw ''checkpoint_batch_id''),
                 tg_phase = py_str (py_get raw ''phase''),
                 tg_strategy = (case py_get raw ''strategy'' of PStr s \<Rightarrow> Some s | _ \<Rightarrow> None)\<rparr>)
             else invalid_guard
         | _ \<Rightarrow> invalid_guard))"

definition requires_manual_reconciliation :: "target_guard \<Rightarrow> bool" where
  "requires_manual_reconciliation g = (tg_phase g \<in> set unresolved_guard_phases)"

definition applies_to_strategy :: "target_guard \<Rightarrow> string \<Rightarrow> bool" where
  "applies_to_strategy g strategy = (tg_strategy g = None \<or> tg_strategy g = Some strategy)"

definition guard_to_dict :: "target_guard \<Rightarrow> (string \<times> pyval) list" where
  "guard_to_dict g =
     [(''schema_version'', PStr guard_schema_version), (''checkpoint_batch_id'', PStr (tg_batch_id g)),
      (''phase'', PStr (tg_phase g)), (''recovery'', PStr guard_recovery)] @
     (case tg_strategy g of None \<Rightarrow> [] | Some s \<Rightarrow> [(''strategy'', PStr s)])"

definition build_batch_id :: "(string \<Rightarrow> string) \<Rightarrow> string \<Rightarrow> string list \<Rightarrow> string" where
  "build_batch_id sha run_id partition_ids =
     sha256_prefix @ sha (json_canonical
       (PDict [(''partition_ids'', PList (map PStr (sort partition_ids))), (''run_id'', PStr run_id)]))"

section \<open>Planned partitions and decisions\<close>

record planned_partition =
  pp_id :: string
  pp_source_table :: string
  pp_target_table :: string
  pp_strategy :: string
  pp_query_hash :: string
  pp_schema_hash :: string
  pp_bounds :: "(string \<times> pyval) list"
  pp_artifact_sha256 :: "string option"

record resume_decision_entry =
  re_partition :: planned_partition
  re_action :: string
  re_reason :: string
  re_checkpoint :: "partition_checkpoint option"

type_synonym resume_plan = "resume_decision_entry list"

definition plan_skip :: "resume_plan \<Rightarrow> resume_plan" where
  "plan_skip p = filter (\<lambda>e. re_action e = ''skip'') p"

definition plan_retry :: "resume_plan \<Rightarrow> resume_plan" where
  "plan_retry p = filter (\<lambda>e. re_action e = ''retry'') p"

definition plan_summary :: "resume_plan \<Rightarrow> (string \<times> pyval) list" where
  "plan_summary p =
     [(''skip'', PInt (int (length (plan_skip p)))), (''retry'', PInt (int (length (plan_retry p))))]"

definition opt_str :: "string option \<Rightarrow> pyval" where
  "opt_str v = (case v of None \<Rightarrow> PNone | Some s \<Rightarrow> PStr s)"

definition planned_to_dict :: "planned_partition \<Rightarrow> pyval" where
  "planned_to_dict p =
     PDict [(''transfer_partition_id'', PStr (pp_id p)), (''source_table'', PStr (pp_source_table p)),
       (''target_table'', PStr (pp_target_table p)), (''strategy'', PStr (pp_strategy p)),
       (''query_hash'', PStr (pp_query_hash p)), (''schema_hash'', PStr (pp_schema_hash p)),
       (''partition_bounds'', PDict (pp_bounds p)), (''artifact_sha256'', opt_str (pp_artifact_sha256 p))]"

definition entry_to_dict :: "resume_decision_entry \<Rightarrow> pyval" where
  "entry_to_dict e =
     PDict [(''partition'', planned_to_dict (re_partition e)), (''action'', PStr (re_action e)),
       (''reason'', PStr (re_reason e)),
       (''checkpoint_status'',
         (case re_checkpoint e of None \<Rightarrow> PNone | Some c \<Rightarrow> PStr (status_value (pc_status c))))]"

definition plan_to_dict :: "resume_plan \<Rightarrow> pyval" where
  "plan_to_dict p = PDict [(''summary'', PDict (plan_summary p)), (''decisions'', PList (map entry_to_dict p))]"

section \<open>The planner\<close>

definition matching_strategies :: "planned_partition list \<Rightarrow> partition_checkpoint \<Rightarrow> string list" where
  "matching_strategies planned c =
     map pp_strategy (filter (\<lambda>p. pc_source_table c = pp_source_table p \<and> pc_target_table c = pp_target_table p) planned)"

datatype guard_verdict = GuardClear | GuardInvalid | GuardUnresolved

definition raw_guard_strategy :: "partition_checkpoint \<Rightarrow> pyval" where
  "raw_guard_strategy c =
     (case py_get (pc_diagnostics c) guard_key of PDict raw \<Rightarrow> py_get raw ''strategy'' | _ \<Rightarrow> PNone)"

definition guard_verdict_of :: "planned_partition list \<Rightarrow> partition_checkpoint \<Rightarrow> guard_verdict" where
  "guard_verdict_of planned c =
     (let ms = matching_strategies planned c in
      if ms = [] \<or> \<not> py_has (pc_diagnostics c) guard_key then GuardClear
      else if (case raw_guard_strategy c of PStr s \<Rightarrow> s \<notin> set ms | _ \<Rightarrow> False) then GuardClear
      else
        (case guard_from_checkpoint c of
           Inl _ \<Rightarrow> GuardInvalid
         | Inr None \<Rightarrow> GuardClear
         | Inr (Some g) \<Rightarrow>
             if list_ex (applies_to_strategy g) ms \<and> requires_manual_reconciliation g then GuardUnresolved
             else GuardClear))"

definition validate_route_guards :: "planned_partition list \<Rightarrow> partition_checkpoint list \<Rightarrow> unit res" where
  "validate_route_guards planned cs =
     (let verdicts = map (guard_verdict_of planned) cs in
      if GuardInvalid \<in> set verdicts then invalid_guard
      else if GuardUnresolved \<in> set verdicts then guard_error ''native_transfer_manual_reconciliation_required''
      else Inr ())"

definition resume_entry ::
  "bool \<Rightarrow> planned_partition \<Rightarrow> partition_checkpoint option \<Rightarrow> resume_decision_entry" where
  "resume_entry require_checksum p checkpoint =
     (let entry = (\<lambda>action reason c.
            \<lparr>re_partition = p, re_action = action, re_reason = reason, re_checkpoint = c\<rparr>) in
      case checkpoint of
        None \<Rightarrow> entry ''retry'' ''missing_checkpoint'' None
      | Some c \<Rightarrow>
          let sha = py_get (pc_diagnostics c) ''artifact_sha256'' in
          if pc_status c \<noteq> CkCommitted then
            entry ''retry'' (''latest_status_'' @ status_value (pc_status c)) (Some c)
          else if pc_query_hash c \<noteq> pp_query_hash p \<or> pc_schema_hash c \<noteq> pp_schema_hash p then
            entry ''retry'' ''query_or_schema_hash_changed'' (Some c)
          else if require_checksum \<and> \<not> py_truthy sha then entry ''retry'' ''missing_artifact_checksum'' (Some c)
          else if require_checksum \<and> py_truthy (opt_str (pp_artifact_sha256 p))
                  \<and> sha \<noteq> opt_str (pp_artifact_sha256 p) then
            entry ''retry'' ''artifact_checksum_changed'' (Some c)
          else entry ''skip'' ''committed_matching_checkpoint'' (Some c))"

definition plan_resume ::
  "bool \<Rightarrow> planned_partition list \<Rightarrow> partition_checkpoint list \<Rightarrow> resume_plan res" where
  "plan_resume require_checksum planned latest =
     bind_res (validate_route_guards planned latest) (\<lambda>_.
       let by_id = latest_of latest in
       Inr (map (\<lambda>p. resume_entry require_checksum p (dict_get by_id (pp_id p))) planned))"

end
