(* ===== verification/Nt_Transfer.thy ===== *)
theory Nt_Transfer
  imports Nt_Resume
begin

text \<open>
  The checkpoint protocol around one native transfer
  (\<open>src/dpone/runtime/native_transfer_checkpoint_lifecycle.py\<close>, \<open>native_transfer.py\<close>,
  \<open>native_transfer_terminal_policy.py\<close>, \<open>native_transfer_row_authority.py\<close>,
  \<open>commit_unknown.py\<close>, \<open>etl/payload_loader.py\<close>) for an artifact of exported partition files.

  The checkpoint store is a pair of operations on its state, so that any store fits. The
  target is a function of its own state that may raise; the process-local facts of an attempt
  are a record that every operation returns updated, also when it raises.
\<close>

section \<open>Configuration, artifacts and context\<close>

record load_config =
  lc_source_schema :: string
  lc_source_table :: string
  lc_target_schema :: string
  lc_target_table :: string
  lc_strategy :: string
  lc_options :: "(string \<times> pyval) list"

text \<open>Attributes that nobody has set are \<open>None\<close>.\<close>

record file_artifact =
  fa_id :: "string option"
  fa_query_hash :: "string option"
  fa_schema_hash :: "string option"
  fa_source_table :: "string option"
  fa_target_table :: "string option"
  fa_strategy :: "string option"
  fa_bounds :: "(string \<times> pyval) list option"
  fa_rows_exported :: "pyval option"
  fa_row_count :: "pyval option"
  fa_rows_loaded :: "pyval option"
  fa_sha256 :: "string option"
  fa_size :: "int option"

text \<open>What a source attaches to the file of one range partition.\<close>

definition attach_partition_metadata ::
  "(string \<Rightarrow> string) \<Rightarrow> string \<Rightarrow> string \<Rightarrow> string \<Rightarrow> string \<Rightarrow> string \<Rightarrow> (string \<times> pyval) list \<Rightarrow>
    file_artifact \<Rightarrow> file_artifact" where
  "attach_partition_metadata sha source_table target_table strategy query_hash schema_hash part a =
     (let bounds = [(''index'', py_get part ''index''), (''lower'', py_get part ''lower_bound''),
            (''upper'', py_get part ''upper_bound''), (''include_upper'', py_get part ''include_upper'')] in
      a\<lparr>fa_bounds := Some bounds, fa_query_hash := Some query_hash, fa_schema_hash := Some schema_hash,
        fa_source_table := Some source_table, fa_target_table := Some target_table, fa_strategy := Some strategy,
        fa_id := Some (build_transfer_partition_id sha source_table target_table strategy query_hash schema_hash bounds)\<rparr>)"

record terminal_state =
  ts_committed :: "string list"
  ts_batch_id :: "string option"
  ts_guard_armed :: bool
  ts_invocation_started :: bool
  ts_returned_success :: bool
  ts_target_rows :: "int option"

record transfer_context =
  cx_enabled :: bool
  cx_config :: load_config
  cx_run_id :: string
  cx_plan :: resume_plan
  cx_active :: "file_artifact list"
  cx_reactivated :: "string list"
  cx_terminal :: terminal_state

definition initial_terminal :: terminal_state where
  "initial_terminal = \<lparr>ts_committed = [], ts_batch_id = None, ts_guard_armed = False,
     ts_invocation_started = False, ts_returned_success = False, ts_target_rows = None\<rparr>"

record 's checkpoint_ops =
  co_upsert_many :: "'s \<Rightarrow> partition_checkpoint list \<Rightarrow> unit res \<times> 's"
  co_list_latest :: "'s \<Rightarrow> partition_checkpoint list res"

text \<open>The times read by the calls of one attempt.\<close>

record transfer_clock =
  tk_export :: pydt
  tk_arm :: pydt
  tk_commit :: pydt
  tk_marker :: pydt
  tk_failed :: pydt

section \<open>Row authorities\<close>

definition canonical_non_negative_int :: "pyval \<Rightarrow> int option" where
  "canonical_non_negative_int v = (case v of PInt i \<Rightarrow> if i < 0 then None else Some i | _ \<Rightarrow> None)"

definition attr_value :: "pyval option \<Rightarrow> pyval" where
  "attr_value v = (case v of None \<Rightarrow> PNone | Some x \<Rightarrow> x)"

fun first_row_count :: "pyval option list \<Rightarrow> int option res" where
  "first_row_count [] = Inr None"
| "first_row_count (v # vs) =
     (if attr_value v = PNone then first_row_count vs
      else (case canonical_non_negative_int (attr_value v) of
              None \<Rightarrow> Inl (RuntimeError ''native_transfer_source_row_count_invalid'')
            | Some i \<Rightarrow> Inr (Some i)))"

definition actual_export_rows :: "file_artifact \<Rightarrow> int option res" where
  "actual_export_rows a = first_row_count [fa_rows_exported a, fa_row_count a]"

definition row_count_authority :: string where
  "row_count_authority = ''source_export_and_target_loader''"

definition authority_diagnostics ::
  "int option \<Rightarrow> int option \<Rightarrow> (string \<times> pyval) list \<Rightarrow> (string \<times> pyval) list" where
  "authority_diagnostics source_rows target_rows base =
     (case (source_rows, target_rows) of
        (Some _, Some rows) \<Rightarrow>
          dict_set (dict_set base ''rows_loaded'' (PInt rows)) ''row_count_authority'' (PStr row_count_authority)
      | _ \<Rightarrow> base)"

definition trusted_checkpoint_rows :: "partition_checkpoint \<Rightarrow> int option \<times> int option" where
  "trusted_checkpoint_rows c =
     (if py_get (pc_diagnostics c) ''row_count_authority'' \<noteq> PStr row_count_authority then (None, None)
      else
        (case (canonical_non_negative_int (opt_int (pc_rows c)),
               canonical_non_negative_int (py_get (pc_diagnostics c) ''rows_loaded'')) of
           (Some a, Some b) \<Rightarrow> (Some a, Some b)
         | _ \<Rightarrow> (None, None)))"

section \<open>Checkpoints of an attempt\<close>

definition transition_at :: "pydt \<Rightarrow> pydt res" where
  "transition_at t =
     (if \<not> dt_aware t then Inl (ValueError ''native_transfer_transition_timestamp_invalid'')
      else if instant_valid (dt_instant t) then Inr (of_instant (dt_instant t))
      else Inl (OverflowError ''date value out of range''))"

definition attribute :: "string \<Rightarrow> 'a option \<Rightarrow> 'a res" where
  "attribute name v = (case v of None \<Rightarrow> Inl (AppError ''AttributeError'' name) | Some x \<Rightarrow> Inr x)"

definition artifact_checksum :: "(file_artifact \<Rightarrow> string res) \<Rightarrow> file_artifact \<Rightarrow> string res" where
  "artifact_checksum checksum a = (case fa_sha256 a of None \<Rightarrow> checksum a | Some s \<Rightarrow> Inr s)"

definition guard_entry :: "target_guard option \<Rightarrow> (string \<times> pyval) list" where
  "guard_entry g = (case g of None \<Rightarrow> [] | Some g \<Rightarrow> [(guard_key, PDict (guard_to_dict g))])"

definition base_diagnostics :: "string \<Rightarrow> string \<Rightarrow> target_guard option \<Rightarrow> (string \<times> pyval) list" where
  "base_diagnostics sha256 error g =
     [(''artifact_sha256'', PStr sha256)] @
     (if error = [] then [] else [(''error'', PStr error)]) @ guard_entry g"

text \<open>An \<open>error\<close> of \<open>None\<close> is the empty text here; both are left out of the diagnostics.\<close>

definition checkpoint_for_artifact ::
  "(file_artifact \<Rightarrow> string res) \<Rightarrow> ckpt_status \<Rightarrow> string \<Rightarrow> pydt \<Rightarrow> target_guard option \<Rightarrow> file_artifact \<Rightarrow>
    partition_checkpoint res" where
  "checkpoint_for_artifact checksum status error at g a =
     bind_res (artifact_checksum checksum a) (\<lambda>sha256.
     bind_res (actual_export_rows a) (\<lambda>source_rows.
     let target_rows = canonical_non_negative_int (attr_value (fa_rows_loaded a));
         diagnostics = authority_diagnostics source_rows target_rows (base_diagnostics sha256 error g) in
     bind_res (attribute ''transfer_partition_id'' (fa_id a)) (\<lambda>id.
     bind_res (attribute ''query_hash'' (fa_query_hash a)) (\<lambda>query_hash.
     bind_res (attribute ''schema_hash'' (fa_schema_hash a)) (\<lambda>schema_hash.
     bind_res (attribute ''source_table'' (fa_source_table a)) (\<lambda>source_table.
     bind_res (attribute ''target_table'' (fa_target_table a)) (\<lambda>target_table.
     bind_res (attribute ''partition_bounds'' (fa_bounds a)) (\<lambda>bounds.
       Inr \<lparr>pc_id = id, pc_status = status, pc_query_hash = query_hash, pc_schema_hash = schema_hash,
         pc_source_table = source_table, pc_target_table = target_table, pc_bounds = bounds,
         pc_started_at = at,
         pc_completed_at = (if status \<in> {CkCommitted, CkFailed} then Some at else None),
         pc_rows = source_rows, pc_bytes = fa_size a, pc_diagnostics = diagnostics\<rparr>))))))))"

definition context_checkpoints ::
  "(file_artifact \<Rightarrow> string res) \<Rightarrow> transfer_context \<Rightarrow> ckpt_status \<Rightarrow> string \<Rightarrow> pydt \<Rightarrow> target_guard option \<Rightarrow>
    partition_checkpoint list res" where
  "context_checkpoints checksum cx status error at g =
     map_res (checkpoint_for_artifact checksum status error at g) (cx_active cx)"

definition partition_ids :: "partition_checkpoint list \<Rightarrow> string list" where
  "partition_ids cs = map pc_id cs"

definition with_guard :: "partition_checkpoint list \<Rightarrow> target_guard \<Rightarrow> partition_checkpoint list" where
  "with_guard cs g =
     map (\<lambda>c. c\<lparr>pc_diagnostics := dict_set (pc_diagnostics c) guard_key (PDict (guard_to_dict g))\<rparr>) cs"

text \<open>The artifact of partition files has no strategy of its own; its first active file may have one.\<close>

definition context_strategy :: "transfer_context \<Rightarrow> string" where
  "context_strategy cx =
     (case cx_active cx of
        a # _ \<Rightarrow> (case fa_strategy a of Some s \<Rightarrow> s | None \<Rightarrow> lc_strategy (cx_config cx))
      | [] \<Rightarrow> lc_strategy (cx_config cx))"

definition attempt_guard :: "transfer_context \<Rightarrow> string \<Rightarrow> string \<Rightarrow> target_guard" where
  "attempt_guard cx phase batch_id =
     \<lparr>tg_batch_id = batch_id, tg_phase = phase, tg_strategy = Some (context_strategy cx)\<rparr>"

end
