(* ===== verification/Nt_Attempt.thy ===== *)
theory Nt_Attempt
  imports Nt_Transfer
begin

text \<open>
  One attempt of a native transfer: the lifecycle of its checkpoints, the service calls around
  the target, and the \<open>try\<close> of the payload loader that composes them. Every operation returns
  its result or exception with the context and the store as they are afterwards.
\<close>

text \<open>What an attempt takes from its environment: SHA-256, file checksums, times, the store.\<close>

record 's transfer_env =
  te_sha :: "string \<Rightarrow> string"
  te_checksum :: "file_artifact \<Rightarrow> string res"
  te_clock :: transfer_clock
  te_ops :: "'s checkpoint_ops"

type_synonym ('a, 's) attempt_result = "'a res \<times> transfer_context \<times> 's"

abbreviation upsert_many :: "'s transfer_env \<Rightarrow> 's \<Rightarrow> partition_checkpoint list \<Rightarrow> unit res \<times> 's" where
  "upsert_many env \<equiv> co_upsert_many (te_ops env)"

definition set_terminal :: "transfer_context \<Rightarrow> (terminal_state \<Rightarrow> terminal_state) \<Rightarrow> transfer_context" where
  "set_terminal cx f = cx\<lparr>cx_terminal := f (cx_terminal cx)\<rparr>"

section \<open>The lifecycle of the checkpoints\<close>

definition mark_exported :: "'s transfer_env \<Rightarrow> file_artifact list \<Rightarrow> 's \<Rightarrow> string list res \<times> 's" where
  "mark_exported env active s =
     (if active = [] then (Inr [], s)
      else
        (case map_res (checkpoint_for_artifact (te_checksum env) CkExported [] (tk_export (te_clock env)) None) active of
           Inl e \<Rightarrow> (Inl e, s)
         | Inr cs \<Rightarrow>
             (case upsert_many env s cs of
                (Inl e, s') \<Rightarrow> (Inl e, s')
              | (Inr _, s') \<Rightarrow> (Inr (partition_ids cs), s'))))"

definition lifecycle_arm :: "'s transfer_env \<Rightarrow> transfer_context \<Rightarrow> 's \<Rightarrow> (string list, 's) attempt_result" where
  "lifecycle_arm env cx s =
     (if cx_active cx = [] then (Inr [], cx, s)
      else
        (case bind_res (transition_at (tk_arm (te_clock env))) (\<lambda>at.
                context_checkpoints (te_checksum env) cx CkExported [] at None) of
           Inl e \<Rightarrow> (Inl e, cx, s)
         | Inr base \<Rightarrow>
             let batch_id = build_batch_id (te_sha env) (cx_run_id cx) (partition_ids base);
                 cx' = set_terminal cx (\<lambda>t. t\<lparr>ts_batch_id := Some batch_id\<rparr>);
                 cs = with_guard base (attempt_guard cx ''armed'' batch_id) in
             (case upsert_many env s cs of
                (Inl e, s') \<Rightarrow> (Inl e, cx', s')
              | (Inr _, s') \<Rightarrow>
                  (Inr (partition_ids cs), set_terminal cx' (\<lambda>t. t\<lparr>ts_guard_armed := True\<rparr>), s'))))"

text \<open>Partial commits: what the store shows as committed is kept, the rest is marked.\<close>

definition committed_candidates ::
  "partition_checkpoint list \<Rightarrow> partition_checkpoint list \<Rightarrow> string list" where
  "committed_candidates latest candidates =
     map pc_id (filter (\<lambda>c. dict_get (latest_of latest) (pc_id c) = Some c) candidates)"

definition incomplete_markers :: "'s transfer_env \<Rightarrow> transfer_context \<Rightarrow> string \<Rightarrow> partition_checkpoint list res" where
  "incomplete_markers env cx batch_id =
     bind_res (transition_at (tk_marker (te_clock env))) (\<lambda>at.
       context_checkpoints (te_checksum env) cx CkFailed ''native_transfer_failed'' at
         (Some (attempt_guard cx ''checkpoint_incomplete'' batch_id)))"

definition handle_partial_commit ::
  "'s transfer_env \<Rightarrow> transfer_context \<Rightarrow> string \<Rightarrow> partition_checkpoint list \<Rightarrow> 's \<Rightarrow> transfer_context \<times> 's" where
  "handle_partial_commit env cx batch_id candidates s =
     (case co_list_latest (te_ops env) s of
        Inl _ \<Rightarrow> (cx, s)
      | Inr latest \<Rightarrow>
          let committed = committed_candidates latest candidates;
              cx' = set_terminal cx (\<lambda>t. t\<lparr>ts_committed := ts_committed t @ committed\<rparr>);
              unresolved = filter (\<lambda>i. i \<notin> set committed) (partition_ids candidates) in
          if unresolved = [] then (cx', s)
          else
            (case incomplete_markers env cx' batch_id of
               Inl _ \<Rightarrow> (cx', s)
             | Inr markers \<Rightarrow>
                 (cx', snd (upsert_many env s (filter (\<lambda>m. pc_id m \<in> set unresolved) markers)))))"

definition lifecycle_commit :: "'s transfer_env \<Rightarrow> transfer_context \<Rightarrow> 's \<Rightarrow> (string list, 's) attempt_result" where
  "lifecycle_commit env cx s =
     (if cx_active cx = [] then (Inr [], cx, s)
      else
        (case ts_batch_id (cx_terminal cx) of
           None \<Rightarrow> (Inl (RuntimeError ''native_transfer_target_commit_guard_not_armed''), cx, s)
         | Some batch_id \<Rightarrow>
             (case bind_res (transition_at (tk_commit (te_clock env))) (\<lambda>at.
                     context_checkpoints (te_checksum env) cx CkCommitted [] at
                       (Some (attempt_guard cx ''checkpoint_committed'' batch_id))) of
                Inl e \<Rightarrow> (Inl e, cx, s)
              | Inr candidates \<Rightarrow>
                  (case upsert_many env s candidates of
                     (Inl e, s') \<Rightarrow>
                       (case handle_partial_commit env cx batch_id candidates s' of
                          (cx', s'') \<Rightarrow> (Inl e, cx', s''))
                   | (Inr _, s') \<Rightarrow>
                       let committed = partition_ids candidates in
                       (Inr committed,
                        set_terminal cx (\<lambda>t. t\<lparr>ts_committed := ts_committed t @ committed\<rparr>), s')))))"

definition lifecycle_mark_failed ::
  "'s transfer_env \<Rightarrow> transfer_context \<Rightarrow> string \<Rightarrow> string \<Rightarrow> 's \<Rightarrow> (string list, 's) attempt_result" where
  "lifecycle_mark_failed env cx error phase s =
     (if cx_active cx = [] then (Inr [], cx, s)
      else
        (case bind_res (transition_at (tk_failed (te_clock env))) (\<lambda>at.
                context_checkpoints (te_checksum env) cx CkFailed error at None) of
           Inl e \<Rightarrow> (Inl e, cx, s)
         | Inr base \<Rightarrow>
             let batch_id = (case ts_batch_id (cx_terminal cx) of
                               Some b \<Rightarrow> b
                             | None \<Rightarrow> build_batch_id (te_sha env) (cx_run_id cx) (partition_ids base));
                 cx' = set_terminal cx (\<lambda>t. t\<lparr>ts_batch_id := Some batch_id\<rparr>);
                 cs = with_guard base (attempt_guard cx phase batch_id) in
             (case upsert_many env s cs of
                (Inl e, s') \<Rightarrow> (Inl e, cx', s')
              | (Inr _, s') \<Rightarrow> (Inr (partition_ids cs), cx', s'))))"

section \<open>Commit unknown\<close>

record commit_unknown =
  cu_failure_boundary :: string
  cu_checkpoint_state :: string

definition classify_commit_unknown :: "bool \<Rightarrow> bool \<Rightarrow> string list \<Rightarrow> string list \<Rightarrow> commit_unknown option" where
  "classify_commit_unknown started success expected committed =
     (if \<not> started then None
      else if success \<and> expected \<noteq> [] \<and> set expected \<subseteq> set committed then None
      else Some \<lparr>cu_failure_boundary = (if success then ''checkpoint_persistence'' else ''target_invocation''),
             cu_checkpoint_state = (if committed \<noteq> [] then ''incomplete'' else ''not_advanced'')\<rparr>)"

definition commit_unknown_to_jsonable :: "commit_unknown \<Rightarrow> pyval" where
  "commit_unknown_to_jsonable u =
     PDict [(''status'', PStr ''COMMIT_UNKNOWN''), (''failure_boundary'', PStr (cu_failure_boundary u)),
       (''target_state'', PStr ''unknown''), (''checkpoint_state'', PStr (cu_checkpoint_state u)),
       (''source_state'', PStr ''not_advanced''), (''safe_to_retry'', PBool False),
       (''operator_verification_required'', PBool True),
       (''recovery_action'', PStr ''operator_verification_required'')]"

definition classify_transfer :: "transfer_context \<Rightarrow> commit_unknown option" where
  "classify_transfer cx =
     (if \<not> cx_enabled cx then None
      else classify_commit_unknown (ts_invocation_started (cx_terminal cx)) (ts_returned_success (cx_terminal cx))
             (map (\<lambda>e. pp_id (re_partition e)) (plan_retry (cx_plan cx)) @ cx_reactivated cx)
             (ts_committed (cx_terminal cx)))"

definition safe_failure_code :: "string option \<Rightarrow> string" where
  "safe_failure_code v =
     (case v of
        None \<Rightarrow> ''native_transfer_failed''
      | Some s \<Rightarrow> if bounded_name s then s else ''native_transfer_failed'')"

section \<open>The service calls\<close>

definition before_target_mutation :: "'s transfer_env \<Rightarrow> transfer_context \<Rightarrow> 's \<Rightarrow> (unit, 's) attempt_result" where
  "before_target_mutation env cx s =
     (if \<not> cx_enabled cx \<or> cx_active cx = [] then (Inr (), cx, s)
      else
        (case (if ts_guard_armed (cx_terminal cx) then (Inr [], cx, s) else lifecycle_arm env cx s) of
           (Inl e, cx', s') \<Rightarrow> (Inl e, cx', s')
         | (Inr _, cx', s') \<Rightarrow> (Inr (), set_terminal cx' (\<lambda>t. t\<lparr>ts_invocation_started := True\<rparr>), s')))"

record load_result =
  lr_inserted :: pyval
  lr_total :: pyval
  lr_staging :: pyval
  lr_metrics :: "(string \<times> pyval) list"

definition runtime_metrics :: "transfer_context \<Rightarrow> pyval" where
  "runtime_metrics cx =
     PDict [(''enabled'', PBool (cx_enabled cx)), (''summary'', PDict (plan_summary (cx_plan cx))),
       (''decisions'', PList (map entry_to_dict (cx_plan cx)))]"

definition with_runtime_metrics :: "load_result \<Rightarrow> transfer_context \<Rightarrow> load_result" where
  "with_runtime_metrics r cx =
     r\<lparr>lr_metrics := dict_set (lr_metrics r) ''native_transfer_resume'' (runtime_metrics cx)\<rparr>"

definition stamp_single_partition :: "file_artifact list \<Rightarrow> load_result \<Rightarrow> file_artifact list" where
  "stamp_single_partition active r =
     (case active of
        [a] \<Rightarrow>
          if canonical_non_negative_int (attr_value (fa_rows_loaded a)) \<noteq> None then [a]
          else
            (case (canonical_non_negative_int (lr_inserted r), canonical_non_negative_int (lr_total r)) of
               (Some i, _) \<Rightarrow> [a\<lparr>fa_rows_loaded := Some (PInt i)\<rparr>]
             | (None, Some i) \<Rightarrow> [a\<lparr>fa_rows_loaded := Some (PInt i)\<rparr>]
             | (None, None) \<Rightarrow> [a])
      | _ \<Rightarrow> active)"

definition target_success_rows :: "file_artifact list \<Rightarrow> load_result \<Rightarrow> int option" where
  "target_success_rows active r =
     (case canonical_non_negative_int (lr_staging r) of
        Some i \<Rightarrow> Some i
      | None \<Rightarrow>
          let rows = map (\<lambda>a. canonical_non_negative_int (attr_value (fa_rows_loaded a))) active in
          if rows = [] \<or> None \<in> set rows then None else Some (sum_list (map the rows)))"

definition note_target_success :: "transfer_context \<Rightarrow> load_result \<Rightarrow> transfer_context" where
  "note_target_success cx r =
     (let active = stamp_single_partition (cx_active cx) r in
      set_terminal (cx\<lparr>cx_active := active\<rparr>)
        (\<lambda>t. t\<lparr>ts_returned_success := True, ts_target_rows := target_success_rows active r\<rparr>))"

definition record_target_success ::
  "'s transfer_env \<Rightarrow> transfer_context \<Rightarrow> load_result \<Rightarrow> 's \<Rightarrow> (load_result, 's) attempt_result" where
  "record_target_success env cx r s =
     (if \<not> cx_enabled cx then (Inr r, cx, s)
      else
        (case (if cx_active cx \<noteq> [] \<and> \<not> ts_guard_armed (cx_terminal cx) then before_target_mutation env cx s
               else (Inr (), cx, s)) of
           (Inl e, cx', s') \<Rightarrow> (Inl e, cx', s')
         | (Inr _, cx', s') \<Rightarrow>
             let cx'' = note_target_success cx' r in (Inr (with_runtime_metrics r cx''), cx'', s')))"

definition commit_checkpoints ::
  "'s transfer_env \<Rightarrow> transfer_context \<Rightarrow> load_result \<Rightarrow> 's \<Rightarrow> (load_result, 's) attempt_result" where
  "commit_checkpoints env cx r s =
     (if \<not> cx_enabled cx then (Inr r, cx, s)
      else
        (case record_target_success env cx r s of
           (Inl e, cx', s') \<Rightarrow> (Inl e, cx', s')
         | (Inr r', cx', s') \<Rightarrow>
             (case lifecycle_commit env cx' s' of
                (Inl e, cx'', s'') \<Rightarrow> (Inl e, cx'', s'')
              | (Inr committed, cx'', s'') \<Rightarrow>
                  let cx3 = set_terminal cx'' (\<lambda>t. t\<lparr>ts_committed := ts_committed t @ committed\<rparr>) in
                  (Inr (with_runtime_metrics r' cx3), cx3, s''))))"

definition service_mark_failed ::
  "'s transfer_env \<Rightarrow> transfer_context \<Rightarrow> string option \<Rightarrow> 's \<Rightarrow> (unit, 's) attempt_result" where
  "service_mark_failed env cx safe_code s =
     (if \<not> cx_enabled cx \<or> ts_returned_success (cx_terminal cx) then (Inr (), cx, s)
      else
        let error = (case classify_transfer cx of Some _ \<Rightarrow> ''COMMIT_UNKNOWN'' | None \<Rightarrow> safe_failure_code safe_code);
            phase = (if ts_invocation_started (cx_terminal cx) then ''target_outcome_unknown''
                     else ''failed_before_target'') in
        (case lifecycle_mark_failed env cx error phase s of
           (Inl e, cx', s') \<Rightarrow> (Inl e, cx', s')
         | (Inr _, cx', s') \<Rightarrow> (Inr (), cx', s')))"

section \<open>Preparation\<close>

text \<open>\<open>str(getattr(artifact, name, None) or default)\<close>.\<close>

definition attr_or :: "string option \<Rightarrow> string \<Rightarrow> string" where
  "attr_or v dflt = (case v of None \<Rightarrow> dflt | Some s \<Rightarrow> if s = [] then dflt else s)"

definition dotted :: "string \<Rightarrow> string \<Rightarrow> string" where
  "dotted a b = a @ ''.'' @ b"

definition identity_hash :: "(string \<Rightarrow> string) \<Rightarrow> string \<Rightarrow> string" where
  "identity_hash sha v = sha256_prefix @ sha v"

definition partition_bounds_of :: "file_artifact \<Rightarrow> nat \<Rightarrow> (string \<times> pyval) list" where
  "partition_bounds_of a index =
     (case fa_bounds a of Some (b # rest) \<Rightarrow> b # rest | _ \<Rightarrow> [(''index'', PInt (int index))])"

text \<open>The planned partition of an artifact, which gets its checksum as an attribute.\<close>

definition plan_partition ::
  "'s transfer_env \<Rightarrow> load_config \<Rightarrow> file_artifact \<Rightarrow> nat \<Rightarrow> (planned_partition \<times> file_artifact) res" where
  "plan_partition env cfg a index =
     (let bounds = partition_bounds_of a index;
          source = dotted (lc_source_schema cfg) (lc_source_table cfg);
          target = dotted (lc_target_schema cfg) (lc_target_table cfg);
          query_hash = attr_or (fa_query_hash a) (identity_hash (te_sha env) source);
          schema_hash = attr_or (fa_schema_hash a) (identity_hash (te_sha env) target);
          source_table = attr_or (fa_source_table a) source;
          target_table = attr_or (fa_target_table a) target;
          strategy = attr_or (fa_strategy a) (lc_strategy cfg);
          id = attr_or (fa_id a) (build_transfer_partition_id (te_sha env) source_table target_table strategy
                 query_hash schema_hash bounds) in
      bind_res (te_checksum env a) (\<lambda>sha256.
        Inr (\<lparr>pp_id = id, pp_source_table = source_table, pp_target_table = target_table, pp_strategy = strategy,
               pp_query_hash = query_hash, pp_schema_hash = schema_hash, pp_bounds = bounds,
               pp_artifact_sha256 = Some sha256\<rparr>, a\<lparr>fa_sha256 := Some sha256\<rparr>)))"

definition native_transfer_options :: "load_config \<Rightarrow> pyval" where
  "native_transfer_options cfg = py_get_default (lc_options cfg) ''native_transfer'' (PDict [])"

definition transfer_enabled :: "load_config \<Rightarrow> bool res" where
  "transfer_enabled cfg =
     (case native_transfer_options cfg of
        PBool False \<Rightarrow> Inr False
      | PDict d \<Rightarrow> Inr (py_get_default d ''enabled'' (PBool True) \<noteq> PBool False)
      | _ \<Rightarrow> Inl (AppError ''AttributeError'' ''get''))"

definition require_checksum :: "load_config \<Rightarrow> bool" where
  "require_checksum cfg =
     (case native_transfer_options cfg of
        PDict d \<Rightarrow> py_truthy (py_get d ''require_artifact_checksum'')
      | _ \<Rightarrow> False)"

text \<open>
  The partition of each artifact is looked up again by its identity, planned this time with
  the index 0.
\<close>

definition active_artifacts ::
  "'s transfer_env \<Rightarrow> load_config \<Rightarrow> file_artifact list \<Rightarrow> resume_plan \<Rightarrow> file_artifact list res" where
  "active_artifacts env cfg artifacts plan =
     (if plan_retry plan = [] then Inr []
      else if lc_strategy cfg = ''full_refresh'' \<and> plan_skip plan \<noteq> [] then Inr artifacts
      else
        bind_res (map_res (\<lambda>a. plan_partition env cfg a 0) artifacts) (\<lambda>again.
          Inr (map snd (filter (\<lambda>(p, _). pp_id p \<in> (\<lambda>e. pp_id (re_partition e)) ` set (plan_retry plan)) again))))"

definition reactivated_ids :: "load_config \<Rightarrow> resume_plan \<Rightarrow> string list" where
  "reactivated_ids cfg plan =
     (if lc_strategy cfg \<noteq> ''full_refresh'' \<or> plan_skip plan = [] \<or> plan_retry plan = [] then []
      else map (\<lambda>e. pp_id (re_partition e)) (plan_skip plan))"

definition disabled_context :: "load_config \<Rightarrow> string \<Rightarrow> transfer_context" where
  "disabled_context cfg run_id =
     \<lparr>cx_enabled = False, cx_config = cfg, cx_run_id = run_id, cx_plan = [], cx_active = [],
      cx_reactivated = [], cx_terminal = initial_terminal\<rparr>"

definition prepare_before_load ::
  "'s transfer_env \<Rightarrow> load_config \<Rightarrow> file_artifact list \<Rightarrow> string \<Rightarrow> 's \<Rightarrow> transfer_context res \<times> 's" where
  "prepare_before_load env cfg artifacts run_id s =
     (case transfer_enabled cfg of
        Inl e \<Rightarrow> (Inl e, s)
      | Inr False \<Rightarrow> (Inr (disabled_context cfg run_id), s)
      | Inr True \<Rightarrow>
          (case bind_res (map_res (\<lambda>(i, a). plan_partition env cfg a i) (enumerate 0 artifacts)) (\<lambda>planned.
                  bind_res (co_list_latest (te_ops env) s) (\<lambda>latest.
                  bind_res (plan_resume (require_checksum cfg) (map fst planned) latest) (\<lambda>plan.
                  bind_res (active_artifacts env cfg (map snd planned) plan) (\<lambda>active.
                    Inr (plan, active))))) of
             Inl e \<Rightarrow> (Inl e, s)
           | Inr (plan, active) \<Rightarrow>
               (case mark_exported env active s of
                  (Inl e, s') \<Rightarrow> (Inl e, s')
                | (Inr _, s') \<Rightarrow>
                    (Inr \<lparr>cx_enabled = True, cx_config = cfg, cx_run_id = run_id, cx_plan = plan,
                       cx_active = active, cx_reactivated = reactivated_ids cfg plan,
                       cx_terminal = initial_terminal\<rparr>, s'))))"

definition should_skip_load :: "transfer_context \<Rightarrow> bool" where
  "should_skip_load cx = (cx_enabled cx \<and> plan_skip (cx_plan cx) \<noteq> [] \<and> cx_active cx = [])"

section \<open>The attempt\<close>

text \<open>
  What the payload loader runs around the native calls: the preparation of the payload, the
  target, the checks of its result, and the report; \<open>ls_code\<close> is the \<open>code\<close> attribute of an
  exception. The target state is a parameter of the development.
\<close>

record 't load_steps =
  ls_prepare :: "unit res"
  ls_target :: "file_artifact list \<Rightarrow> 't \<Rightarrow> load_result res \<times> 't"
  ls_accept :: "unit res"
  ls_publish :: "unit res"
  ls_code :: "py_exn \<Rightarrow> string option"

definition commit_unknown_exn :: "commit_unknown \<Rightarrow> py_exn" where
  "commit_unknown_exn u = AppError ''CommitUnknownError'' (cu_failure_boundary u)"

definition is_commit_unknown :: "py_exn \<Rightarrow> bool" where
  "is_commit_unknown e = (case e of AppError k _ \<Rightarrow> k = ''CommitUnknownError'' | _ \<Rightarrow> False)"

text \<open>
  The \<open>except\<close> block: the failure is recorded unless the checkpoints are committed, an
  exception of the record is dropped, and an unknown outcome replaces the exception.
\<close>

definition attempt_failed ::
  "'s transfer_env \<Rightarrow> 't load_steps \<Rightarrow> bool \<Rightarrow> py_exn \<Rightarrow> transfer_context \<Rightarrow> 's \<Rightarrow> ('a, 's) attempt_result" where
  "attempt_failed env steps committed e cx s =
     (case (if committed then (Inr (), cx, s)
            else service_mark_failed env cx
                   (Some (case ls_code steps e of Some c \<Rightarrow> c | None \<Rightarrow> ''native_transfer_failed'')) s) of
        (_, cx', s') \<Rightarrow>
          (Inl (if is_commit_unknown e then e
                else (case classify_transfer cx' of Some u \<Rightarrow> commit_unknown_exn u | None \<Rightarrow> e)), cx', s'))"

text \<open>From the accepted target result to the report.\<close>

definition attempt_commit ::
  "'s transfer_env \<Rightarrow> 't load_steps \<Rightarrow> transfer_context \<Rightarrow> load_result \<Rightarrow> 's \<Rightarrow> (load_result, 's) attempt_result" where
  "attempt_commit env steps cx r s =
     (case ls_accept steps of
        Inl e \<Rightarrow> attempt_failed env steps False e cx s
      | Inr _ \<Rightarrow>
          (case commit_checkpoints env cx r s of
             (Inl e, cx', s') \<Rightarrow> attempt_failed env steps False e cx' s'
           | (Inr r', cx', s') \<Rightarrow>
               (case ls_publish steps of
                  Inl e \<Rightarrow> attempt_failed env steps (cx_enabled cx') e cx' s'
                | Inr _ \<Rightarrow> (Inr r', cx', s'))))"

definition load_attempt ::
  "'s transfer_env \<Rightarrow> 't load_steps \<Rightarrow> transfer_context \<Rightarrow> 's \<Rightarrow> 't \<Rightarrow> (load_result, 's) attempt_result \<times> 't" where
  "load_attempt env steps cx s t =
     (case ls_prepare steps of
        Inl e \<Rightarrow> (attempt_failed env steps False e cx s, t)
      | Inr _ \<Rightarrow>
          (case before_target_mutation env cx s of
             (Inl e, cx1, s1) \<Rightarrow> (attempt_failed env steps False e cx1 s1, t)
           | (Inr _, cx1, s1) \<Rightarrow>
               (case ls_target steps (cx_active cx1) t of
                  (Inl e, t1) \<Rightarrow> (attempt_failed env steps False e cx1 s1, t1)
                | (Inr r, t1) \<Rightarrow>
                    (case record_target_success env cx1 r s1 of
                       (Inl e, cx2, s2) \<Rightarrow> (attempt_failed env steps False e cx2 s2, t1)
                     | (Inr r', cx2, s2) \<Rightarrow> (attempt_commit env steps cx2 r' s2, t1)))))"

end
