(* ===== verification/Nt_Store_Proofs.thy ===== *)
theory Nt_Store_Proofs
  imports Nt_Attempt
begin

text \<open>
  What the protocol relies on in a checkpoint store, as the locale \<open>checkpoint_log\<close>, and the
  proof that the JSONL file keeps it: a write that raises has recorded some of the
  checkpoints, in order, or has left a file that nobody can read any more.
\<close>

section \<open>Documents read back\<close>

definition storable :: "partition_checkpoint \<Rightarrow> bool" where
  "storable c \<longleftrightarrow> dt_valid (pc_started_at c) \<and> pred_option dt_valid (pc_completed_at c) \<and>
     pred_option (\<lambda>i. 0 \<le> i) (pc_rows c) \<and> pred_option (\<lambda>i. 0 \<le> i) (pc_bytes c)"

lemma parse_status_value [simp]: "parse_status (status_value st) = Inr st"
  by (cases st) (simp_all add: parse_status_def ckpt_statuses_def)

lemma item_Cons [simp]: "item ((k, v) # d) k' = (if k' = k then Inr v else item d k')"
  by (simp add: item_def)

lemma str_item_Cons [simp]: "str_item ((k, PStr v) # d) k' = (if k' = k then Inr v else str_item d k')"
  and str_item_skip: "k' \<noteq> k \<Longrightarrow> str_item ((k, w) # d) k' = str_item d k'"
  by (simp_all add: str_item_def py_str_def)

lemma counter_opt_int:
  "dict_get d k = Some (opt_int v) \<Longrightarrow> pred_option (\<lambda>i. 0 \<le> i) v \<Longrightarrow> optional_non_negative_int d k = Inr v"
  by (cases v) (auto simp: optional_non_negative_int_def opt_int_def)

lemma dt_iso_nonempty [simp]: "dt_iso sep t \<noteq> []"
  by (simp add: dt_iso_def)

lemma optional_datetime_opt_iso: "pred_option dt_valid v \<Longrightarrow> optional_datetime (opt_iso v) = Inr v"
  by (cases v) (auto simp: optional_datetime_def opt_iso_def py_str_def)

lemma py_dict_or [simp]: "py_dict (py_or (PDict d) (PDict [])) = Inr d"
  by (cases d) (simp_all add: py_or_def py_dict_def)

lemma py_dict_PDict [simp]: "py_dict (PDict d) = Inr d"
  by (simp add: py_dict_def)

lemma checkpoint_roundtrip:
  assumes "storable c"
  shows "checkpoint_from_payload (checkpoint_to_payload c) = Inr c"
  using assms
  by (simp add: storable_def checkpoint_from_payload_def checkpoint_to_payload_def checkpoint_from_dict_def
      str_item_skip optional_datetime_opt_iso counter_opt_int)

section \<open>The contract\<close>

definition record_all ::
  "(string \<rightharpoonup> partition_checkpoint) \<Rightarrow> partition_checkpoint list \<Rightarrow> string \<rightharpoonup> partition_checkpoint" where
  "record_all m cs = foldl (\<lambda>m c. m(pc_id c \<mapsto> c)) m cs"

lemma record_all_simps [simp]:
  "record_all m [] = m" "record_all m (c # cs) = record_all (m(pc_id c \<mapsto> c)) cs"
  "record_all m (cs @ [c]) = (record_all m cs)(pc_id c \<mapsto> c)"
  by (simp_all add: record_all_def)

lemma record_all_cases:
  assumes "record_all m cs i = Some c"
  shows "c \<in> set cs \<and> pc_id c = i \<or> m i = Some c \<and> i \<notin> pc_id ` set cs"
  using assms by (induction cs rule: rev_induct) (auto split: if_splits)

lemma record_all_in: "i \<in> pc_id ` set cs \<Longrightarrow> \<exists>c\<in>set cs. pc_id c = i \<and> record_all m cs i = Some c"
  by (induction cs rule: rev_induct) auto

lemma record_all_notin: "i \<notin> pc_id ` set cs \<Longrightarrow> record_all m cs i = m i"
  by (induction cs rule: rev_induct) auto

text \<open>\<open>view\<close> is the latest checkpoint of each partition, or nothing when the store is unreadable.\<close>

locale checkpoint_log =
  fixes ops :: "'s checkpoint_ops"
    and view :: "'s \<Rightarrow> (string \<rightharpoonup> partition_checkpoint) option"
  assumes unreadable_latest: "view s = None \<Longrightarrow> \<exists>e. co_list_latest ops s = Inl e"
    and readable_latest: "view s = Some m \<Longrightarrow>
      \<exists>cs. co_list_latest ops s = Inr cs \<and> (\<forall>c. c \<in> set cs \<longleftrightarrow> m (pc_id c) = Some c) \<and> distinct (map pc_id cs)"
    and view_ids: "view s = Some m \<Longrightarrow> m i = Some c \<Longrightarrow> pc_id c = i"
    and unreadable_stays: "view s = None \<Longrightarrow> view (snd (co_upsert_many ops s cs)) = None"
    and upsert_prefix: "view s = Some m \<Longrightarrow> co_upsert_many ops s cs = (r, s') \<Longrightarrow> list_all storable cs \<Longrightarrow>
      view s' = None \<or>
      (\<exists>k. view s' = Some (record_all m (take k cs)) \<and> (r = Inr () \<longrightarrow> length cs \<le> k))"

text \<open>A store without faults, which the next attempt can rely on.\<close>

locale reliable_checkpoint_log = checkpoint_log +
  fixes healthy :: "'s \<Rightarrow> bool"
  assumes healthy_readable: "healthy s \<Longrightarrow> view s \<noteq> None"
    and healthy_upsert: "healthy s \<Longrightarrow> view s = Some m \<Longrightarrow> list_all storable cs \<Longrightarrow>
      \<exists>s'. co_upsert_many ops s cs = (Inr (), s') \<and> healthy s' \<and> view s' = Some (record_all m cs)"

section \<open>The JSONL store keeps it\<close>

definition jsonl_ops :: "jsonl_store checkpoint_ops" where
  "jsonl_ops = \<lparr>co_upsert_many = store_upsert_many, co_list_latest = list_latest\<rparr>"

definition jsonl_view :: "jsonl_store \<Rightarrow> (string \<rightharpoonup> partition_checkpoint) option" where
  "jsonl_view s = (case iter_all s of Inl _ \<Rightarrow> None | Inr cs \<Rightarrow> Some (record_all Map.empty cs))"

definition jsonl_healthy :: "jsonl_store \<Rightarrow> bool" where
  "jsonl_healthy s \<longleftrightarrow> jsonl_view s \<noteq> None \<and> \<not> unfinished (jf_lines s) \<and> jf_faults s = []"

lemma latest_of_map: "dict_get (latest_of cs) = record_all Map.empty cs"
proof (induction cs rule: rev_induct)
  case Nil
  then show ?case by (simp add: latest_of_def fun_eq_iff)
next
  case (snoc c cs)
  have "latest_of (cs @ [c]) = dict_set (latest_of cs) (pc_id c) c" by (simp add: latest_of_def)
  then show ?case using snoc by (auto simp: fun_eq_iff)
qed

lemma distinct_latest_of: "distinct (map fst (latest_of cs))"
  by (induction cs rule: rev_induct) (simp_all add: latest_of_def)

lemma latest_of_keys: "(k, c) \<in> set (latest_of cs) \<Longrightarrow> pc_id c = k"
  using distinct_latest_of [of cs] record_all_cases [of Map.empty cs k c]
  by (auto simp: latest_of_map [symmetric])

lemma latest_values:
  "(c \<in> set (dict_values (latest_of cs)) \<longleftrightarrow> record_all Map.empty cs (pc_id c) = Some c) \<and>
   map pc_id (dict_values (latest_of cs)) = map fst (latest_of cs)"
proof
  have "c \<in> set (dict_values (latest_of cs)) \<longleftrightarrow> (pc_id c, c) \<in> set (latest_of cs)"
    using latest_of_keys by (force simp: dict_values_def)
  then show "c \<in> set (dict_values (latest_of cs)) \<longleftrightarrow> record_all Map.empty cs (pc_id c) = Some c"
    using distinct_latest_of [of cs] by (simp add: latest_of_map [symmetric])
  show "map pc_id (dict_values (latest_of cs)) = map fst (latest_of cs)"
    using latest_of_keys [of _ _ cs] by (auto simp: dict_values_def)
qed

lemma map_res_append:
  "map_res f (xs @ ys) = bind_res (map_res f xs) (\<lambda>as. bind_res (map_res f ys) (\<lambda>bs. Inr (as @ bs)))"
  by (induction xs) (simp_all add: bind_res_assoc split: sum.split, cases "map_res f ys", simp_all)

lemma map_res_error: "x \<in> set xs \<Longrightarrow> f x = Inl e \<Longrightarrow> \<exists>e. map_res f xs = Inl e"
proof (induction xs)
  case (Cons y ys)
  then show ?case by (cases "f y"; cases "map_res f ys") auto
qed simp

lemma iter_all_snoc:
  "map_res read_line (ls @ [l]) =
    bind_res (map_res read_line ls) (\<lambda>cs. bind_res (read_line l) (\<lambda>c. Inr (cs @ [c])))"
  by (simp add: map_res_append bind_res_assoc)

text \<open>Appending a line: an unfinished last line becomes unreadable.\<close>

lemma read_append_line:
  "map_res read_line (append_line ls l) =
    (if unfinished ls then (case map_res read_line (append_line ls l) of Inl e \<Rightarrow> Inl e | Inr cs \<Rightarrow> Inr cs)
     else bind_res (map_res read_line ls) (\<lambda>cs. bind_res (read_line l) (\<lambda>c. Inr (cs @ [c]))))"
  by (simp add: append_line_def iter_all_snoc split: sum.split)

lemma read_append_unfinished:
  assumes "unfinished ls"
  shows "\<exists>e. map_res read_line (append_line ls l) = Inl e"
proof (rule map_res_error)
  show "(case l of JDoc _ \<Rightarrow> JBad | _ \<Rightarrow> JPart) \<in> set (append_line ls l)"
    using assms by (simp add: append_line_def)
  show "read_line (case l of JDoc _ \<Rightarrow> JBad | _ \<Rightarrow> JPart) = Inl (ValueError ''JSONDecodeError'')"
    by (cases l) (simp_all add: read_line_def)
qed

definition read_all :: "jsonl_line list \<Rightarrow> (string \<rightharpoonup> partition_checkpoint) option" where
  "read_all ls = (case map_res read_line ls of Inl _ \<Rightarrow> None | Inr cs \<Rightarrow> Some (record_all Map.empty cs))"

lemma jsonl_view_read: "jsonl_view s = read_all (jf_lines s)"
  by (simp add: jsonl_view_def read_all_def iter_all_def)

lemma read_all_append:
  "read_all (append_line ls l) =
    (if unfinished ls then None
     else case (read_all ls, read_line l) of (Some m, Inr c) \<Rightarrow> Some (m(pc_id c \<mapsto> c)) | _ \<Rightarrow> None)"
proof (cases "unfinished ls")
  case True
  then show ?thesis using read_append_unfinished [OF True, of l] by (auto simp: read_all_def)
next
  case False
  then show ?thesis
    by (cases "map_res read_line ls"; cases "read_line l") (simp_all add: append_line_def iter_all_snoc read_all_def)
qed

lemma read_document: "storable c \<Longrightarrow> read_line (JDoc (checkpoint_to_payload c)) = Inr c"
  "storable c \<Longrightarrow> read_line (JOpen (checkpoint_to_payload c)) = Inr c" "read_line JPart = Inl (ValueError ''JSONDecodeError'')"
  by (simp_all add: read_line_def checkpoint_roundtrip)

lemma read_all_write:
  assumes "storable c"
  shows "read_all (write_line f ls (checkpoint_to_payload c)) \<in>
    {None, read_all ls, map_option (\<lambda>m. m(pc_id c \<mapsto> c)) (read_all ls)}"
  using assms by (cases f) (auto simp: write_line_def read_all_append read_document split: option.split)

lemma write_NoFault: "write_line NoFault ls v = append_line ls (JDoc v)"
  by (simp add: write_line_def)

lemma upsert_cases:
  assumes "store_upsert s c = (r, s')" "storable c"
  shows "jsonl_view s' = None \<or> (r \<noteq> Inr () \<and> jsonl_view s' = jsonl_view s) \<or>
    jsonl_view s' = map_option (\<lambda>m. m(pc_id c \<mapsto> c)) (jsonl_view s)"
proof (cases "jf_faults s")
  case Nil
  then have "r = Inr ()" "jf_lines s' = append_line (jf_lines s) (JDoc (checkpoint_to_payload c))"
    using assms(1) by (auto simp: store_upsert_def)
  then show ?thesis using assms(2)
    by (simp add: jsonl_view_read read_all_append read_document split: option.split)
next
  case (Cons f fs)
  then have s': "jf_lines s' = write_line f (jf_lines s) (checkpoint_to_payload c)" "r = Inr () \<longleftrightarrow> f = NoFault"
    using assms(1) by (auto simp: store_upsert_def split: if_splits)
  then show ?thesis
    using read_all_write [OF assms(2), of f "jf_lines s"] assms(2)
    by (cases "f = NoFault") (auto simp: jsonl_view_read write_NoFault read_all_append read_document split: option.split)
qed

lemma upsert_unreadable: "jsonl_view s = None \<Longrightarrow> jsonl_view (snd (store_upsert s c)) = None"
  by (cases "jf_faults s")
    (auto simp: store_upsert_def jsonl_view_read read_all_append write_line_def split: write_fault.split)

lemma upsert_many_unreadable: "jsonl_view s = None \<Longrightarrow> jsonl_view (snd (store_upsert_many s cs)) = None"
proof (induction s cs rule: store_upsert_many.induct)
  case (2 s c cs)
  then show ?case using upsert_unreadable [of s c] by (auto split: prod.split sum.split)
qed simp

lemma upsert_many_prefix:
  assumes "jsonl_view s = Some m" "store_upsert_many s cs = (r, s')" "list_all storable cs"
  shows "jsonl_view s' = None \<or>
    (\<exists>k. jsonl_view s' = Some (record_all m (take k cs)) \<and> (r = Inr () \<longrightarrow> length cs \<le> k))"
  using assms
proof (induction cs arbitrary: s m)
  case Nil
  then show ?case by auto
next
  case (Cons c cs)
  obtain r1 s1 where u: "store_upsert s c = (r1, s1)" by (cases "store_upsert s c")
  have c: "storable c" and cs: "list_all storable cs" using Cons.prems(3) by simp_all
  consider "jsonl_view s1 = None" | "r1 \<noteq> Inr ()" "jsonl_view s1 = Some m"
    | "jsonl_view s1 = Some (m(pc_id c \<mapsto> c))"
    using upsert_cases [OF u c] Cons.prems(1) by auto
  then show ?case
  proof cases
    case 1
    then show ?thesis using Cons.prems(2) u upsert_many_unreadable [OF 1, of cs] by (auto split: sum.splits)
  next
    case 2
    then have "s' = s1" "r \<noteq> Inr ()" using Cons.prems(2) u by (auto split: sum.splits)
    then show ?thesis using 2 by (intro disjI2 exI [of _ 0]) simp
  next
    case 3
    show ?thesis
    proof (cases r1)
      case (Inl e)
      then have "s' = s1" "r \<noteq> Inr ()" using Cons.prems(2) u by auto
      then show ?thesis using 3 by (intro disjI2 exI [of _ 1]) (simp add: fun_upd_def)
    next
      case (Inr v)
      then have "store_upsert_many s1 cs = (r, s')" using Cons.prems(2) u by simp
      from Cons.IH [OF 3 this cs] show ?thesis
      proof (elim disjE exE conjE)
        fix k assume "jsonl_view s' = Some (record_all (m(pc_id c \<mapsto> c)) (take k cs))" "r = Inr () \<longrightarrow> length cs \<le> k"
        then show ?thesis by (intro disjI2 exI [of _ "Suc k"]) (simp add: fun_upd_def)
      qed simp
    qed
  qed
qed

lemma finished_append: "\<not> unfinished ls \<Longrightarrow> \<not> unfinished (append_line ls (JDoc v))"
  by (simp add: append_line_def unfinished_def)

lemma upsert_many_healthy:
  assumes "jsonl_healthy s" "jsonl_view s = Some m" "list_all storable cs"
  shows "\<exists>s'. store_upsert_many s cs = (Inr (), s') \<and> jsonl_healthy s' \<and> jsonl_view s' = Some (record_all m cs)"
  using assms
proof (induction cs arbitrary: s m)
  case Nil
  then show ?case by simp
next
  case (Cons c cs)
  let ?s = "s\<lparr>jf_lines := append_line (jf_lines s) (JDoc (checkpoint_to_payload c))\<rparr>"
  have u: "store_upsert s c = (Inr (), ?s)" using Cons.prems(1) by (simp add: store_upsert_def jsonl_healthy_def)
  have v: "jsonl_view ?s = Some (m(pc_id c \<mapsto> c))"
    using Cons.prems by (simp add: jsonl_view_read read_all_append read_document jsonl_healthy_def)
  then have "jsonl_healthy ?s"
    using Cons.prems(1) by (simp add: jsonl_healthy_def finished_append)
  from Cons.IH [OF this v] Cons.prems(3) u show ?case by (simp add: fun_upd_def)
qed

interpretation jsonl: reliable_checkpoint_log jsonl_ops jsonl_view jsonl_healthy
proof
  fix s m i c
  show "jsonl_view s = None \<Longrightarrow> \<exists>e. co_list_latest jsonl_ops s = Inl e"
    by (auto simp: jsonl_view_def jsonl_ops_def list_latest_def split: sum.splits)
  show "jsonl_view s = Some m \<Longrightarrow> \<exists>cs. co_list_latest jsonl_ops s = Inr cs \<and>
      (\<forall>c. c \<in> set cs \<longleftrightarrow> m (pc_id c) = Some c) \<and> distinct (map pc_id cs)"
    using latest_values distinct_latest_of
    by (fastforce simp: jsonl_view_def jsonl_ops_def list_latest_def split: sum.splits)
  show "jsonl_view s = Some m \<Longrightarrow> m i = Some c \<Longrightarrow> pc_id c = i"
    by (auto simp: jsonl_view_def split: sum.splits dest: record_all_cases)
qed (use upsert_many_unreadable upsert_many_prefix upsert_many_healthy in
      \<open>auto simp: jsonl_ops_def jsonl_healthy_def\<close>)

end
