(* ===== verification/Nt_Proofs.thy ===== *)
theory Nt_Proofs
  imports Nt_Store_Proofs
begin

text \<open>
  What the checkpoint protocol of a native transfer promises. Once the target may have been
  changed, the store shows for every partition of the attempt a checkpoint that either blocks
  the route or is committed; every later write of the attempt keeps that, whatever fails.
\<close>

section \<open>Checkpoints of an attempt\<close>

lemma py_get_set [simp]: "py_get (dict_set d k v) k' = (if k' = k then v else py_get d k')"
  by (simp add: py_get_def)

lemma py_has_set [simp]: "py_has (dict_set d k v) k' \<longleftrightarrow> k' = k \<or> py_has d k'"
  by (auto simp: py_has_def)

lemma guard_key_neq [simp]:
  "guard_key \<noteq> ''rows_loaded''" "guard_key \<noteq> ''row_count_authority''" "guard_key \<noteq> ''artifact_sha256''"
  "guard_key \<noteq> ''error''"
  by (simp_all add: guard_key_def)

lemmas guard_key_neq' [simp] = guard_key_neq [symmetric]

lemma transition_valid: "transition_at t = Inr at \<Longrightarrow> dt_valid at"
  by (auto simp: transition_at_def of_instant_valid split: if_splits)

lemma authority_get [simp]:
  "k \<noteq> ''rows_loaded'' \<Longrightarrow> k \<noteq> ''row_count_authority'' \<Longrightarrow> py_get (authority_diagnostics a b d) k = py_get d k"
  "k \<noteq> ''rows_loaded'' \<Longrightarrow> k \<noteq> ''row_count_authority'' \<Longrightarrow> py_has (authority_diagnostics a b d) k = py_has d k"
  by (auto simp: authority_diagnostics_def split: option.split)

lemma base_get:
  "py_get (base_diagnostics sha err g) ''artifact_sha256'' = PStr sha"
  "py_has (base_diagnostics sha err g) guard_key \<longleftrightarrow> g \<noteq> None"
  "py_get (base_diagnostics sha err (Some g')) guard_key = PDict (guard_to_dict g')"
  by (auto simp: base_diagnostics_def guard_entry_def split: option.split)

lemma first_row_count_nonneg: "first_row_count vs = Inr (Some i) \<Longrightarrow> 0 \<le> i"
  by (induction vs rule: first_row_count.induct)
    (auto simp: canonical_non_negative_int_def split: if_splits option.splits pyval.splits)

lemma actual_export_rows_nonneg: "actual_export_rows a = Inr r \<Longrightarrow> pred_option (\<lambda>i. 0 \<le> i) r"
  using first_row_count_nonneg by (cases r) (auto simp: actual_export_rows_def simp del: first_row_count.simps)

text \<open>What a checkpoint takes from its artifact.\<close>

definition checkpoint_of :: "file_artifact \<Rightarrow> ckpt_status \<Rightarrow> partition_checkpoint \<Rightarrow> bool" where
  "checkpoint_of a st c \<longleftrightarrow> fa_id a = Some (pc_id c) \<and> pc_status c = st \<and>
     fa_query_hash a = Some (pc_query_hash c) \<and> fa_schema_hash a = Some (pc_schema_hash c) \<and>
     fa_source_table a = Some (pc_source_table c) \<and> fa_target_table a = Some (pc_target_table c) \<and>
     (\<forall>sha. fa_sha256 a = Some sha \<longrightarrow> py_get (pc_diagnostics c) ''artifact_sha256'' = PStr sha)"

lemma checkpoint_for_artifact_of:
  assumes "checkpoint_for_artifact chk st err at g a = Inr c"
  shows "checkpoint_of a st c"
  using assms
  by (auto simp: checkpoint_for_artifact_def checkpoint_of_def attribute_def artifact_checksum_def Let_def base_get
      bind_res_eq_Inr split: option.splits)

lemma checkpoint_for_artifact_guard:
  assumes "checkpoint_for_artifact chk st err at g a = Inr c"
  shows "py_has (pc_diagnostics c) guard_key \<longleftrightarrow> g \<noteq> None"
    "g = Some g' \<Longrightarrow> py_get (pc_diagnostics c) guard_key = PDict (guard_to_dict g')"
  using assms
  by (auto simp: checkpoint_for_artifact_def Let_def base_get bind_res_eq_Inr)

lemma checkpoint_for_artifact_storable:
  assumes "checkpoint_for_artifact chk st err at g a = Inr c" "dt_valid at" "pred_option (\<lambda>i. 0 \<le> i) (fa_size a)"
  shows "storable c"
  using assms actual_export_rows_nonneg
  by (auto simp: checkpoint_for_artifact_def storable_def Let_def bind_res_eq_Inr)

text \<open>The identity of an artifact, without the row count that a load stamps on it.\<close>

definition art_key :: "file_artifact \<Rightarrow> file_artifact" where
  "art_key a = a\<lparr>fa_rows_loaded := None\<rparr>"

definition cx_keys :: "transfer_context \<Rightarrow> file_artifact list" where
  "cx_keys cx = map art_key (cx_active cx)"

lemma art_key_fields [simp]:
  "fa_id (art_key a) = fa_id a" "fa_query_hash (art_key a) = fa_query_hash a"
  "fa_schema_hash (art_key a) = fa_schema_hash a" "fa_source_table (art_key a) = fa_source_table a"
  "fa_target_table (art_key a) = fa_target_table a" "fa_strategy (art_key a) = fa_strategy a"
  "fa_sha256 (art_key a) = fa_sha256 a" "fa_size (art_key a) = fa_size a"
  by (simp_all add: art_key_def)

lemma checkpoint_of_key [simp]: "checkpoint_of (art_key a) st c = checkpoint_of a st c"
  by (simp add: checkpoint_of_def)

definition same_attempt :: "transfer_context \<Rightarrow> transfer_context \<Rightarrow> bool" where
  "same_attempt cx cx' \<longleftrightarrow> cx_keys cx' = cx_keys cx \<and> cx_config cx' = cx_config cx \<and> cx_enabled cx' = cx_enabled cx \<and>
     cx_plan cx' = cx_plan cx \<and> cx_reactivated cx' = cx_reactivated cx \<and> cx_run_id cx' = cx_run_id cx"

lemma same_attempt_refl [simp]: "same_attempt cx cx"
  by (simp add: same_attempt_def)

lemma same_attempt_trans: "same_attempt cx cx' \<Longrightarrow> same_attempt cx' cx'' \<Longrightarrow> same_attempt cx cx''"
  by (simp add: same_attempt_def)

lemma set_terminal_simps [simp]:
  "cx_keys (set_terminal cx f) = cx_keys cx" "cx_active (set_terminal cx f) = cx_active cx"
  "cx_config (set_terminal cx f) = cx_config cx" "cx_enabled (set_terminal cx f) = cx_enabled cx"
  "cx_plan (set_terminal cx f) = cx_plan cx" "cx_reactivated (set_terminal cx f) = cx_reactivated cx"
  "cx_run_id (set_terminal cx f) = cx_run_id cx"
  "cx_terminal (set_terminal cx f) = f (cx_terminal cx)"
  by (simp_all add: set_terminal_def cx_keys_def)

lemma same_attempt_set_terminal [simp]: "same_attempt cx (set_terminal cx' f) = same_attempt cx cx'"
  by (simp add: same_attempt_def)

lemma context_strategy_keys:
  "context_strategy cx =
     (case cx_keys cx of
        k # _ \<Rightarrow> (case fa_strategy k of Some s \<Rightarrow> s | None \<Rightarrow> lc_strategy (cx_config cx))
      | [] \<Rightarrow> lc_strategy (cx_config cx))"
  by (cases "cx_active cx") (simp_all add: context_strategy_def cx_keys_def)

lemma same_attempt_strategy: "same_attempt cx cx' \<Longrightarrow> context_strategy cx' = context_strategy cx"
  by (simp add: context_strategy_keys same_attempt_def split: list.split option.split)

lemma active_keys [simp]: "cx_keys cx = [] \<longleftrightarrow> cx_active cx = []"
  by (simp add: cx_keys_def)

text \<open>The planned partitions of the next attempt cover this one: they are on its route.\<close>

definition ready :: "planned_partition list \<Rightarrow> transfer_context \<Rightarrow> bool" where
  "ready P cx \<longleftrightarrow> distinct (map fa_id (cx_keys cx)) \<and>
     (\<forall>k\<in>set (cx_keys cx). fa_sha256 k \<noteq> None \<and> pred_option (\<lambda>i. 0 \<le> i) (fa_size k) \<and>
        (\<exists>p\<in>set P. fa_source_table k = Some (pp_source_table p) \<and> fa_target_table k = Some (pp_target_table p) \<and>
           pp_strategy p = context_strategy cx))"

lemma same_attempt_ready: "same_attempt cx cx' \<Longrightarrow> ready P cx' = ready P cx"
  using same_attempt_strategy [of cx cx'] by (simp add: ready_def same_attempt_def)

section \<open>Good checkpoints\<close>

definition committed_for :: "file_artifact \<Rightarrow> partition_checkpoint \<Rightarrow> bool" where
  "committed_for a c \<longleftrightarrow> fa_sha256 a \<noteq> None \<and> checkpoint_of a CkCommitted c"

definition good :: "planned_partition list \<Rightarrow> file_artifact list \<Rightarrow> partition_checkpoint \<Rightarrow> bool" where
  "good P ks c \<longleftrightarrow> (\<forall>k\<in>set ks. fa_id k = Some (pc_id c) \<longrightarrow> guard_verdict_of P c \<noteq> GuardClear \<or> committed_for k c)"

lemma unresolved_verdict:
  assumes p: "p \<in> set P" "pc_source_table c = pp_source_table p" "pc_target_table c = pp_target_table p"
      "pp_strategy p = st"
    and g: "py_has (pc_diagnostics c) guard_key"
      "py_get (pc_diagnostics c) guard_key =
        PDict (guard_to_dict \<lparr>tg_batch_id = b, tg_phase = ph, tg_strategy = Some st\<rparr>)"
    and ph: "ph \<in> set unresolved_guard_phases"
  shows "guard_verdict_of P c \<noteq> GuardClear"
proof -
  have st: "st \<in> set (matching_strategies P c)"
    using p by (force simp: matching_strategies_def)
  then have ms: "matching_strategies P c \<noteq> []" by auto
  have raw: "raw_guard_strategy c = PStr st" using g(2) by (simp add: raw_guard_strategy_def guard_to_dict_def)
  show ?thesis
  proof (cases "guard_from_checkpoint c")
    case (Inl e)
    then show ?thesis using ms st g(1) raw by (simp add: guard_verdict_of_def Let_def)
  next
    case (Inr og)
    then have "og = Some \<lparr>tg_batch_id = b, tg_phase = ph, tg_strategy = Some st\<rparr>"
      using g by (auto simp: guard_from_checkpoint_def guard_to_dict_def invalid_guard_def guard_error_def py_str_def
          split: if_splits)
    then show ?thesis using Inr ms st g(1) raw ph
      by (auto simp: guard_verdict_of_def Let_def list_ex_iff applies_to_strategy_def
          requires_manual_reconciliation_def)
  qed
qed

lemma committed_good:
  assumes "distinct (map fa_id ks)" "k \<in> set ks" "fa_sha256 k \<noteq> None" "checkpoint_of k CkCommitted c"
  shows "good P ks c"
proof -
  have "k' = k" if "k' \<in> set ks" "fa_id k' = Some (pc_id c)" for k'
  proof -
    have "inj_on fa_id (set ks)" "fa_id k' = fa_id k" using assms that by (simp_all add: distinct_map checkpoint_of_def)
    then show ?thesis using assms(2) that(1) by (auto dest: inj_onD)
  qed
  then show ?thesis using assms by (auto simp: good_def committed_for_def)
qed

text \<open>The batches an attempt writes: built from its artifacts, one checkpoint for each.\<close>

definition batch_of :: "transfer_context \<Rightarrow> ckpt_status \<Rightarrow> partition_checkpoint list \<Rightarrow> bool" where
  "batch_of cx st cs \<longleftrightarrow> list_all storable cs \<and> (\<forall>c\<in>set cs. \<exists>k\<in>set (cx_keys cx). checkpoint_of k st c) \<and>
     (\<forall>k\<in>set (cx_keys cx). \<exists>c\<in>set cs. checkpoint_of k st c)"

lemma context_checkpoints_batch:
  assumes "context_checkpoints chk cx st err at g = Inr cs" "dt_valid at" "ready P cx"
  shows "batch_of cx st cs"
proof -
  from assms(1) have all2: "list_all2 (\<lambda>a c. checkpoint_for_artifact chk st err at g a = Inr c) (cx_active cx) cs"
    by (simp add: context_checkpoints_def map_res_eq_Inr)
  have size: "pred_option (\<lambda>i. 0 \<le> i) (fa_size a)" if "a \<in> set (cx_active cx)" for a
    using assms(3) that by (auto simp: ready_def cx_keys_def)
  have "list_all storable cs"
    using all2 size assms(2) checkpoint_for_artifact_storable
    by (fastforce simp: list_all_iff list_all2_conv_all_nth in_set_conv_nth)
  moreover have "\<exists>k\<in>set (cx_keys cx). checkpoint_of k st c" if "c \<in> set cs" for c
    using all2 that checkpoint_for_artifact_of
    by (fastforce simp: cx_keys_def list_all2_conv_all_nth in_set_conv_nth)
  moreover have "\<exists>c\<in>set cs. checkpoint_of k st c" if "k \<in> set (cx_keys cx)" for k
    using all2 that checkpoint_for_artifact_of
    by (fastforce simp: cx_keys_def list_all2_conv_all_nth in_set_conv_nth)
  ultimately show ?thesis by (simp add: batch_of_def)
qed

lemma context_checkpoints_guard:
  assumes "context_checkpoints chk cx st err at (Some g) = Inr cs" "c \<in> set cs"
  shows "py_has (pc_diagnostics c) guard_key" "py_get (pc_diagnostics c) guard_key = PDict (guard_to_dict g)"
proof -
  from assms obtain a where "checkpoint_for_artifact chk st err at (Some g) a = Inr c"
    by (fastforce simp: context_checkpoints_def map_res_eq_Inr list_all2_conv_all_nth in_set_conv_nth)
  from checkpoint_for_artifact_guard(1) [OF this] checkpoint_for_artifact_guard(2) [OF this refl]
  show "py_has (pc_diagnostics c) guard_key" "py_get (pc_diagnostics c) guard_key = PDict (guard_to_dict g)"
    by simp_all
qed

lemma with_guard_batch: "batch_of cx st cs \<Longrightarrow> batch_of cx st (with_guard cs g)"
  by (auto simp: batch_of_def with_guard_def list_all_iff storable_def checkpoint_of_def)

lemma with_guard_get:
  "c \<in> set (with_guard cs g) \<Longrightarrow> py_has (pc_diagnostics c) guard_key \<and>
    py_get (pc_diagnostics c) guard_key = PDict (guard_to_dict g)"
  by (auto simp: with_guard_def)

lemma unresolved_good:
  assumes "ready P cx" "k \<in> set (cx_keys cx)" "checkpoint_of k st c" "py_has (pc_diagnostics c) guard_key"
    "py_get (pc_diagnostics c) guard_key = PDict (guard_to_dict (attempt_guard cx ph b))"
    "ph \<in> set unresolved_guard_phases"
  shows "good P ks c"
proof -
  obtain p where "p \<in> set P" "pc_source_table c = pp_source_table p" "pc_target_table c = pp_target_table p"
    "pp_strategy p = context_strategy cx"
    using assms(1-3) by (fastforce simp: ready_def checkpoint_of_def)
  then have "guard_verdict_of P c \<noteq> GuardClear"
    using assms(4-6) by (intro unresolved_verdict [where st = "context_strategy cx" and b = b and ph = ph])
      (simp_all add: attempt_guard_def)
  then show ?thesis by (simp add: good_def)
qed

lemma unresolved_batch_good:
  assumes "ready P cx" "batch_of cx st cs" "ph \<in> set unresolved_guard_phases"
    "\<And>c. c \<in> set cs \<Longrightarrow> py_has (pc_diagnostics c) guard_key \<and>
      py_get (pc_diagnostics c) guard_key = PDict (guard_to_dict (attempt_guard cx ph b))"
    "c \<in> set cs"
  shows "good P (cx_keys cx) c"
  using assms unresolved_good [OF assms(1)] by (auto simp: batch_of_def)

lemma committed_batch_good:
  assumes "ready P cx" "batch_of cx CkCommitted cs" "c \<in> set cs"
  shows "good P (cx_keys cx) c"
proof -
  obtain k where "k \<in> set (cx_keys cx)" "checkpoint_of k CkCommitted c"
    using assms(2,3) by (auto simp: batch_of_def)
  then show ?thesis using assms(1) committed_good by (auto simp: ready_def)
qed

section \<open>The attempt guards its partitions\<close>

lemma stamp_keys: "map art_key (stamp_single_partition as r) = map art_key as"
  by (auto simp: stamp_single_partition_def art_key_def split: list.split option.split)

lemma same_attempt_note [simp]: "same_attempt cx (note_target_success cx r)"
  by (simp add: same_attempt_def note_target_success_def set_terminal_def cx_keys_def stamp_keys Let_def)

lemma note_terminal:
  "ts_invocation_started (cx_terminal (note_target_success cx r)) = ts_invocation_started (cx_terminal cx)"
  "ts_guard_armed (cx_terminal (note_target_success cx r)) = ts_guard_armed (cx_terminal cx)"
  by (simp_all add: note_target_success_def set_terminal_def Let_def)

text \<open>A planned partition stands for an artifact that was loaded: same identity, hashes and content.\<close>

definition plans_artifact :: "planned_partition \<Rightarrow> file_artifact \<Rightarrow> bool" where
  "plans_artifact p a \<longleftrightarrow> fa_id a = Some (pp_id p) \<and> fa_query_hash a = Some (pp_query_hash p) \<and>
     fa_schema_hash a = Some (pp_schema_hash p) \<and> fa_sha256 a = pp_artifact_sha256 p \<and> fa_sha256 a \<noteq> Some []"

lemma plan_resume_Inr:
  assumes "plan_resume rc P latest = Inr plan"
  shows "c \<in> set latest \<Longrightarrow> guard_verdict_of P c = GuardClear"
    "plan = map (\<lambda>p. resume_entry rc p (dict_get (latest_of latest) (pp_id p))) P"
proof -
  have "guard_verdict_of P c = GuardClear" if "c \<in> set latest"
    using assms that
    by (cases "guard_verdict_of P c")
      (force simp: plan_resume_def validate_route_guards_def invalid_guard_def guard_error_def Let_def
        split: if_splits)+
  then show "c \<in> set latest \<Longrightarrow> guard_verdict_of P c = GuardClear" .
  show "plan = map (\<lambda>p. resume_entry rc p (dict_get (latest_of latest) (pp_id p))) P"
    using assms by (auto simp: plan_resume_def bind_res_eq_Inr Let_def)
qed

lemma resume_entry_partition [simp]: "re_partition (resume_entry rc p c) = p"
  by (simp add: resume_entry_def Let_def split: option.split)

lemma committed_for_skips:
  assumes "committed_for k c" "plans_artifact p k"
  shows "re_action (resume_entry rc p (Some c)) = ''skip''"
proof -
  obtain sha where "fa_sha256 k = Some sha" "pp_artifact_sha256 p = Some sha"
    using assms by (auto simp: committed_for_def plans_artifact_def)
  then show ?thesis using assms
    by (simp add: committed_for_def checkpoint_of_def plans_artifact_def resume_entry_def Let_def opt_str_def)
qed

lemma latest_of_distinct:
  assumes "distinct (map pc_id cs)" "c \<in> set cs"
  shows "dict_get (latest_of cs) (pc_id c) = Some c"
proof -
  obtain d where d: "d \<in> set cs" "pc_id d = pc_id c" "record_all Map.empty cs (pc_id c) = Some d"
    using record_all_in [of "pc_id c" cs Map.empty] assms(2) by blast
  moreover from d assms have "d = c" by (auto simp: distinct_map dest: inj_onD)
  ultimately show ?thesis by (simp add: latest_of_map)
qed

context checkpoint_log
begin

definition guarded :: "planned_partition list \<Rightarrow> file_artifact list \<Rightarrow> 's \<Rightarrow> bool" where
  "guarded P ks s \<longleftrightarrow> view s = None \<or>
     (\<exists>m. view s = Some m \<and> (\<forall>k\<in>set ks. \<exists>c. Some (pc_id c) = fa_id k \<and> m (pc_id c) = Some c \<and> good P ks c))"

lemma upsert_guarded:
  assumes "guarded P ks s" "list_all storable cs" "\<And>c. c \<in> set cs \<Longrightarrow> good P ks c"
  shows "guarded P ks (snd (co_upsert_many ops s cs))"
proof -
  obtain r s' where u: "co_upsert_many ops s cs = (r, s')" by (cases "co_upsert_many ops s cs")
  show ?thesis
  proof (cases "view s")
    case None
    then show ?thesis using unreadable_stays by (simp add: guarded_def)
  next
    case (Some m)
    from upsert_prefix [OF Some u assms(2)] show ?thesis
    proof (elim disjE exE conjE)
      fix n assume v: "view s' = Some (record_all m (take n cs))"
      have "\<exists>c. Some (pc_id c) = fa_id k \<and> record_all m (take n cs) (pc_id c) = Some c \<and> good P ks c"
        if "k \<in> set ks" for k
      proof -
        from assms(1) Some that obtain c where c: "Some (pc_id c) = fa_id k" "m (pc_id c) = Some c" "good P ks c"
          by (auto simp: guarded_def)
        show ?thesis
        proof (cases "pc_id c \<in> pc_id ` set (take n cs)")
          case True
          from record_all_in [OF this] obtain d where "d \<in> set (take n cs)" "pc_id d = pc_id c"
            "record_all m (take n cs) (pc_id c) = Some d" by blast
          moreover from this have "good P ks d" by (intro assms(3)) (blast dest: in_set_takeD)
          ultimately show ?thesis using c(1) by (intro exI [of _ d]) simp
        next
          case False
          then show ?thesis using c record_all_notin by metis
        qed
      qed
      then show ?thesis using u v by (auto simp: guarded_def)
    qed (simp add: u guarded_def)
  qed
qed

lemma upsert_establishes:
  assumes "co_upsert_many ops s cs = (Inr (), s')" "list_all storable cs" "\<And>c. c \<in> set cs \<Longrightarrow> good P ks c"
    "\<And>k. k \<in> set ks \<Longrightarrow> \<exists>c\<in>set cs. fa_id k = Some (pc_id c)"
  shows "guarded P ks s'"
proof (cases "view s")
  case None
  then show ?thesis using unreadable_stays [OF None, of cs] assms(1) by (simp add: guarded_def)
next
  case (Some m)
  from upsert_prefix [OF Some assms(1,2)] show ?thesis
  proof (elim disjE exE conjE)
    fix n assume v: "view s' = Some (record_all m (take n cs))" and n: "Inr () = Inr () \<longrightarrow> length cs \<le> n"
    have "\<exists>c. Some (pc_id c) = fa_id k \<and> record_all m cs (pc_id c) = Some c \<and> good P ks c" if "k \<in> set ks" for k
    proof -
      from assms(4) [OF that] obtain c where "c \<in> set cs" "fa_id k = Some (pc_id c)" by blast
      then show ?thesis using record_all_in [of "pc_id c" cs m] assms(3) by force
    qed
    then show ?thesis using v n by (auto simp: guarded_def)
  qed (simp add: guarded_def)
qed

lemma arm_guards:
  assumes "lifecycle_arm env cx s = (Inr ids, cx', s')" "te_ops env = ops" "ready P cx" "cx_active cx \<noteq> []"
  shows "guarded P (cx_keys cx) s' \<and> same_attempt cx cx' \<and> ts_guard_armed (cx_terminal cx') \<and>
    ts_returned_success (cx_terminal cx') = ts_returned_success (cx_terminal cx) \<and> ts_batch_id (cx_terminal cx') \<noteq> None"
proof -
  from assms obtain at base where t: "transition_at (tk_arm (te_clock env)) = Inr at"
      and base: "context_checkpoints (te_checksum env) cx CkExported [] at None = Inr base"
    by (auto simp: lifecycle_arm_def Let_def bind_res_def split: sum.splits prod.splits)
  let ?b = "build_batch_id (te_sha env) (cx_run_id cx) (partition_ids base)"
  let ?cx = "set_terminal cx (\<lambda>t. t\<lparr>ts_batch_id := Some ?b\<rparr>)"
  let ?cs = "with_guard base (attempt_guard cx ''armed'' ?b)"
  from assms t base have u: "co_upsert_many ops s ?cs = (Inr (), s')"
      and cx': "cx' = set_terminal ?cx (\<lambda>t. t\<lparr>ts_guard_armed := True\<rparr>)"
    by (auto simp: lifecycle_arm_def Let_def split: sum.splits prod.splits)
  have batch: "batch_of cx CkExported ?cs"
    using context_checkpoints_batch [OF base transition_valid [OF t] assms(3)] with_guard_batch by blast
  have "guarded P (cx_keys cx) s'"
  proof (rule upsert_establishes [OF u])
    show "list_all storable ?cs" using batch by (simp add: batch_of_def)
    show "good P (cx_keys cx) c" if "c \<in> set ?cs" for c
      by (rule unresolved_batch_good [where ph = "''armed''", OF assms(3) batch _ with_guard_get that])
        (simp add: unresolved_guard_phases_def)
    show "\<exists>c\<in>set ?cs. fa_id k = Some (pc_id c)" if "k \<in> set (cx_keys cx)" for k
      using batch that by (fastforce simp: batch_of_def checkpoint_of_def)
  qed
  then show ?thesis by (simp add: cx')
qed

text \<open>The state of an attempt from the moment the target may be called.\<close>

definition invoked :: "planned_partition list \<Rightarrow> transfer_context \<Rightarrow> transfer_context \<Rightarrow> 's \<Rightarrow> bool" where
  "invoked P cx0 cx s \<longleftrightarrow> same_attempt cx0 cx \<and> ts_invocation_started (cx_terminal cx) \<and>
     ts_guard_armed (cx_terminal cx) \<and> guarded P (cx_keys cx0) s"

lemma invoked_write:
  assumes "invoked P cx0 cx s" "ready P cx0" "batch_of cx st cs" "\<And>c. c \<in> set cs \<Longrightarrow> good P (cx_keys cx) c"
    "set ds \<subseteq> set cs" "ts_invocation_started (cx_terminal cx')" "ts_guard_armed (cx_terminal cx')" "same_attempt cx cx'"
  shows "invoked P cx0 cx' (snd (co_upsert_many ops s ds))"
proof -
  have k: "cx_keys cx = cx_keys cx0" using assms(1) by (simp add: invoked_def same_attempt_def)
  have "guarded P (cx_keys cx0) (snd (co_upsert_many ops s ds))"
    using assms(1,3-5) k by (intro upsert_guarded) (auto simp: invoked_def batch_of_def list_all_iff)
  then show ?thesis using assms(1,6-8) same_attempt_trans by (auto simp: invoked_def)
qed

lemma invoked_ready: "invoked P cx0 cx s \<Longrightarrow> ready P cx0 \<Longrightarrow> ready P cx"
  using same_attempt_ready by (auto simp: invoked_def)

lemma invoked_set_terminal:
  "invoked P cx0 cx s \<Longrightarrow> ts_invocation_started (f (cx_terminal cx)) \<Longrightarrow> ts_guard_armed (f (cx_terminal cx)) \<Longrightarrow>
    invoked P cx0 (set_terminal cx f) s"
  by (simp add: invoked_def)

lemma markers_write:
  assumes "invoked P cx0 cx s" "ready P cx0" "incomplete_markers env cx b = Inr cs" "set ds \<subseteq> set cs"
  shows "invoked P cx0 cx (snd (co_upsert_many ops s ds))"
proof -
  let ?g = "attempt_guard cx ''checkpoint_incomplete'' b"
  note r = invoked_ready [OF assms(1,2)]
  obtain at where t: "transition_at (tk_marker (te_clock env)) = Inr at"
      and cs: "context_checkpoints (te_checksum env) cx CkFailed ''native_transfer_failed'' at (Some ?g) = Inr cs"
    using assms(3) by (auto simp: incomplete_markers_def bind_res_eq_Inr)
  note batch = context_checkpoints_batch [OF cs transition_valid [OF t] r]
  have "good P (cx_keys cx) c" if "c \<in> set cs" for c
    using context_checkpoints_guard [OF cs]
    by (intro unresolved_batch_good [where ph = "''checkpoint_incomplete''" and b = b, OF r batch _ _ that])
      (auto simp: unresolved_guard_phases_def)
  from invoked_write [OF assms(1,2) batch this assms(4), where cx' = cx] assms(1) show ?thesis
    by (simp add: invoked_def)
qed

lemma handle_partial_invoked:
  assumes "invoked P cx0 cx s" "ready P cx0" "te_ops env = ops" "handle_partial_commit env cx b cs s = (cx', s')"
  shows "invoked P cx0 cx' s'"
proof (cases "co_list_latest ops s")
  case (Inl e)
  then show ?thesis using assms by (simp add: handle_partial_commit_def)
next
  case (Inr latest)
  let ?done = "committed_candidates latest cs"
  let ?cx = "set_terminal cx (\<lambda>t. t\<lparr>ts_committed := ts_committed t @ ?done\<rparr>)"
  have i: "invoked P cx0 ?cx s" using assms(1) by (auto simp: invoked_def)
  have "cx' = ?cx \<and> (s' = s \<or>
      (\<exists>ms Q. incomplete_markers env ?cx b = Inr ms \<and> s' = snd (co_upsert_many ops s (filter Q ms))))"
    using assms(3,4) Inr by (simp add: handle_partial_commit_def Let_def split: if_splits sum.splits) blast
  then show ?thesis using i markers_write [OF i assms(2)] filter_is_subset by metis
qed

lemma commit_invoked:
  assumes "invoked P cx0 cx s" "ready P cx0" "te_ops env = ops" "lifecycle_commit env cx s = (r, cx', s')"
  shows "invoked P cx0 cx' s'"
proof (cases "cx_active cx = [] \<or> ts_batch_id (cx_terminal cx) = None")
  case True
  then show ?thesis using assms by (auto simp: lifecycle_commit_def split: if_splits)
next
  case False
  then obtain b where b: "ts_batch_id (cx_terminal cx) = Some b" and a: "cx_active cx \<noteq> []" by auto
  let ?cks = "bind_res (transition_at (tk_commit (te_clock env))) (\<lambda>at.
    context_checkpoints (te_checksum env) cx CkCommitted [] at (Some (attempt_guard cx ''checkpoint_committed'' b)))"
  show ?thesis
  proof (cases ?cks)
    case (Inl e)
    then show ?thesis using assms a b by (simp add: lifecycle_commit_def)
  next
    case (Inr cs)
    note r = invoked_ready [OF assms(1,2)]
    from Inr obtain at where t: "transition_at (tk_commit (te_clock env)) = Inr at"
        and cs: "context_checkpoints (te_checksum env) cx CkCommitted [] at
          (Some (attempt_guard cx ''checkpoint_committed'' b)) = Inr cs"
      by (auto simp: bind_res_eq_Inr)
    note batch = context_checkpoints_batch [OF cs transition_valid [OF t] r]
    obtain r1 s1 where u: "co_upsert_many ops s cs = (r1, s1)" by (cases "co_upsert_many ops s cs")
    have i: "invoked P cx0 cx s1"
      using invoked_write [OF assms(1,2) batch committed_batch_good [OF r batch] subset_refl, where cx' = cx] assms(1) u
      by (simp add: invoked_def)
    show ?thesis
    proof (cases r1)
      case (Inl e)
      then have "handle_partial_commit env cx b cs s1 = (cx', s')"
        using assms(3,4) a b Inr u by (auto simp: lifecycle_commit_def split: prod.splits)
      from handle_partial_invoked [OF i assms(2,3) this] show ?thesis .
    next
      case (Inr v)
      then have "s' = s1" "cx' = set_terminal cx (\<lambda>t. t\<lparr>ts_committed := ts_committed t @ partition_ids cs\<rparr>)"
        using assms(3,4) a b \<open>?cks = Inr cs\<close> u by (auto simp: lifecycle_commit_def Let_def)
      then show ?thesis using i by (auto intro: invoked_set_terminal simp: invoked_def)
    qed
  qed
qed

lemma record_invoked:
  assumes "invoked P cx0 cx s" "record_target_success env cx r s = (x, cx', s')"
  shows "invoked P cx0 cx' s'"
proof -
  have "invoked P cx0 (note_target_success cx r) s"
    using assms(1) same_attempt_trans [OF _ same_attempt_note] by (auto simp: invoked_def note_terminal)
  then show ?thesis using assms by (auto simp: record_target_success_def Let_def invoked_def split: if_splits)
qed

lemma commit_checkpoints_invoked:
  assumes "invoked P cx0 cx s" "ready P cx0" "te_ops env = ops" "commit_checkpoints env cx r s = (x, cx', s')"
  shows "invoked P cx0 cx' s'"
proof (cases "cx_enabled cx")
  case False
  then show ?thesis using assms by (simp add: commit_checkpoints_def)
next
  case True
  obtain x1 cx1 s1 where r: "record_target_success env cx r s = (x1, cx1, s1)" by (metis prod_cases3)
  note i1 = record_invoked [OF assms(1) r]
  obtain x2 cx2 s2 where c: "lifecycle_commit env cx1 s1 = (x2, cx2, s2)" by (metis prod_cases3)
  note i2 = commit_invoked [OF i1 assms(2,3) c]
  show ?thesis
    using assms(4) True r c i1 i2
    by (auto simp: commit_checkpoints_def Let_def invoked_def split: sum.splits)
qed

lemma mark_failed_invoked:
  assumes "invoked P cx0 cx s" "ready P cx0" "te_ops env = ops" "service_mark_failed env cx code s = (x, cx', s')"
  shows "invoked P cx0 cx' s'"
proof -
  note r = invoked_ready [OF assms(1,2)]
  have started: "ts_invocation_started (cx_terminal cx)" using assms(1) by (simp add: invoked_def)
  have "invoked P cx0 cx2 s2"
    if l: "lifecycle_mark_failed env cx err ''target_outcome_unknown'' s = (y, cx2, s2)" for err y cx2 s2
  proof (cases "cx_active cx = []")
    case True
    then show ?thesis using l assms(1) by (simp add: lifecycle_mark_failed_def)
  next
    case False
    let ?cks = "bind_res (transition_at (tk_failed (te_clock env))) (\<lambda>at.
      context_checkpoints (te_checksum env) cx CkFailed err at None)"
    show ?thesis
    proof (cases ?cks)
      case (Inl e)
      then show ?thesis using l False assms(1) by (simp add: lifecycle_mark_failed_def)
    next
      case (Inr base)
      then obtain at where t: "transition_at (tk_failed (te_clock env)) = Inr at"
          and base: "context_checkpoints (te_checksum env) cx CkFailed err at None = Inr base"
        by (auto simp: bind_res_eq_Inr)
      let ?b = "case ts_batch_id (cx_terminal cx) of Some b \<Rightarrow> b
        | None \<Rightarrow> build_batch_id (te_sha env) (cx_run_id cx) (partition_ids base)"
      let ?cx = "set_terminal cx (\<lambda>t. t\<lparr>ts_batch_id := Some ?b\<rparr>)"
      let ?cs = "with_guard base (attempt_guard cx ''target_outcome_unknown'' ?b)"
      have out: "cx2 = ?cx" "s2 = snd (co_upsert_many ops s ?cs)"
        using l False Inr assms(3)
        by (auto simp: lifecycle_mark_failed_def Let_def attempt_guard_def context_strategy_def
            split: prod.splits sum.splits)
      have batch: "batch_of cx CkFailed ?cs"
        using context_checkpoints_batch [OF base transition_valid [OF t] r] with_guard_batch by blast
      have "good P (cx_keys cx) c" if "c \<in> set ?cs" for c
        by (rule unresolved_batch_good [where ph = "''target_outcome_unknown''", OF r batch _ with_guard_get that])
          (simp add: unresolved_guard_phases_def)
      from invoked_write [OF assms(1,2) batch this subset_refl, where cx' = ?cx] assms(1) show ?thesis
        by (simp add: out invoked_def)
    qed
  qed
  then show ?thesis using assms(1,4) started
    by (auto simp: service_mark_failed_def Let_def split: if_splits prod.splits sum.splits)
qed

lemma failed_invoked:
  assumes "invoked P cx0 cx s" "ready P cx0" "te_ops env = ops" "attempt_failed env steps b e cx s = (x, cx', s')"
  shows "invoked P cx0 cx' s'"
  using assms mark_failed_invoked [OF assms(1-3)]
  by (auto simp: attempt_failed_def split: if_splits prod.splits)

lemma attempt_commit_invoked:
  assumes "invoked P cx0 cx s" "ready P cx0" "te_ops env = ops" "attempt_commit env steps cx r s = (x, cx', s')"
  shows "invoked P cx0 cx' s'"
proof -
  obtain x1 cx1 s1 where c: "commit_checkpoints env cx r s = (x1, cx1, s1)" by (metis prod_cases3)
  note i1 = commit_checkpoints_invoked [OF assms(1-3) c]
  show ?thesis using assms(4) c i1 failed_invoked [OF assms(1-3)] failed_invoked [OF i1 assms(2,3)]
    by (auto simp: attempt_commit_def split: sum.splits)
qed

lemma before_target_invoked:
  assumes "before_target_mutation env cx s = (Inr u, cx', s')" "te_ops env = ops" "ready P cx" "cx_enabled cx"
    "cx_active cx \<noteq> []" "cx_terminal cx = initial_terminal"
  shows "invoked P cx cx' s'"
proof -
  from assms obtain ids cx1 where a: "lifecycle_arm env cx s = (Inr ids, cx1, s')"
      and cx': "cx' = set_terminal cx1 (\<lambda>t. t\<lparr>ts_invocation_started := True\<rparr>)"
    by (auto simp: before_target_mutation_def initial_terminal_def split: sum.splits prod.splits)
  from arm_guards [OF a assms(2,3,5)] show ?thesis by (simp add: invoked_def cx')
qed

lemma attempt_invoked:
  assumes "load_attempt env steps cx s t = ((x, cx', s'), t')" "t' \<noteq> t" "te_ops env = ops" "ready P cx"
    "cx_enabled cx" "cx_active cx \<noteq> []" "cx_terminal cx = initial_terminal"
  shows "invoked P cx cx' s'"
proof -
  obtain y where prep: "ls_prepare steps = Inr y" using assms(1,2) by (auto simp: load_attempt_def split: sum.splits)
  obtain x1 cx1 s1 where b: "before_target_mutation env cx s = (x1, cx1, s1)" by (metis prod_cases3)
  obtain u where x1: "x1 = Inr u"
    using assms(1,2) prep b by (cases x1) (simp_all add: load_attempt_def)
  note i1 = before_target_invoked [OF b [unfolded x1] assms(3-7)]
  obtain x2 t2 where t: "ls_target steps (cx_active cx1) t = (x2, t2)" by (metis surj_pair)
  show ?thesis
  proof (cases x2)
    case (Inl e)
    then have "attempt_failed env steps False e cx1 s1 = (x, cx', s')"
      using assms(1) prep b x1 t by (simp add: load_attempt_def)
    from failed_invoked [OF i1 assms(4,3) this] show ?thesis .
  next
    case (Inr r)
    obtain x3 cx3 s3 where rec: "record_target_success env cx1 r s1 = (x3, cx3, s3)" by (metis prod_cases3)
    note i3 = record_invoked [OF i1 rec]
    have "attempt_commit env steps cx3 r' s3 = (x, cx', s')" if "x3 = Inr r'" for r'
      using assms(1) prep b x1 t Inr rec that by (simp add: load_attempt_def)
    moreover have "attempt_failed env steps False e cx3 s3 = (x, cx', s')" if "x3 = Inl e" for e
      using assms(1) prep b x1 t Inr rec that by (simp add: load_attempt_def)
    ultimately show ?thesis
      using failed_invoked [OF i3 assms(4,3)] attempt_commit_invoked [OF i3 assms(4,3)] by (cases x3) blast+
  qed
qed

lemma latest_get:
  assumes "view s = Some m" "co_list_latest ops s = Inr latest"
  shows "dict_get (latest_of latest) i = m i" "c \<in> set latest \<longleftrightarrow> m (pc_id c) = Some c"
proof -
  from readable_latest [OF assms(1)] assms(2)
  have l: "\<And>c. c \<in> set latest \<longleftrightarrow> m (pc_id c) = Some c" "distinct (map pc_id latest)" by auto
  then show "c \<in> set latest \<longleftrightarrow> m (pc_id c) = Some c" by simp
  show "dict_get (latest_of latest) i = m i"
  proof (cases "m i")
    case (Some d)
    then have "d \<in> set latest" "pc_id d = i" using l(1) view_ids [OF assms(1)] by auto
    then show ?thesis using latest_of_distinct [OF l(2)] Some by auto
  next
    case None
    then have "i \<notin> pc_id ` set latest" using l(1) by auto
    then show ?thesis using None record_all_notin [of i latest Map.empty] by (simp add: latest_of_map)
  qed
qed

lemma guarded_plan:
  assumes "guarded P ks s" "bind_res (co_list_latest ops s) (plan_resume rc P) = Inr plan"
    and "e \<in> set plan" "k \<in> set ks" "plans_artifact (re_partition e) k"
  shows "re_action e = ''skip''"
proof -
  obtain latest where l: "co_list_latest ops s = Inr latest" and plan: "plan_resume rc P latest = Inr plan"
    using assms(2) by (auto simp: bind_res_eq_Inr)
  then obtain m where m: "view s = Some m" using unreadable_latest [of s] by (cases "view s") auto
  obtain c where c: "Some (pc_id c) = fa_id k" "m (pc_id c) = Some c" "good P ks c"
    using assms(1,4) m by (auto simp: guarded_def)
  then have "c \<in> set latest" using latest_get [OF m l] by simp
  from plan_resume_Inr(1) [OF plan this] c(1,3) assms(4) have "committed_for k c" by (simp add: good_def)
  moreover obtain p where "p \<in> set P" "e = resume_entry rc p (m (pp_id p))"
    using plan_resume_Inr(2) [OF plan] assms(3) latest_get(1) [OF m l] by auto
  moreover from this have "m (pp_id p) = Some c" using c(1,2) assms(5) by (simp add: plans_artifact_def)
  ultimately show ?thesis using committed_for_skips assms(5) by simp
qed

lemma plans_artifact_key [simp]: "plans_artifact p (art_key k) = plans_artifact p k"
  by (simp add: plans_artifact_def)

lemma loaded_at_most_once:
  assumes "load_attempt env steps cx s t = ((x, cx', s'), t')" "t' \<noteq> t" "te_ops env = ops" "ready P cx"
    "cx_enabled cx" "cx_active cx \<noteq> []" "cx_terminal cx = initial_terminal"
    "bind_res (co_list_latest ops s') (plan_resume rc P) = Inr plan"
    "e \<in> set plan" "a \<in> set (cx_active cx)" "plans_artifact (re_partition e) a"
  shows "re_action e = ''skip''"
  using guarded_plan [of P "cx_keys cx" s' rc plan e "art_key a"] attempt_invoked [OF assms(1-7)] assms(8-11)
  by (simp add: invoked_def cx_keys_def)

end

end
