(* ===== verification/Nt_Recovery.thy ===== *)
theory Nt_Recovery
  imports Nt_Proofs
begin

text \<open>
  Native transfers recover. What an attempt may have loaded is never loaded again without an
  operator; an attempt that failed before the target is retried; one that succeeded is skipped
  by the next plan, which is not refused.
\<close>

section \<open>Resolved guards\<close>

text \<open>The digest function returns 64 lower-case hexadecimal digits, as \<open>hexdigest\<close> does.\<close>

definition hex_digest :: "(string \<Rightarrow> string) \<Rightarrow> bool" where
  "hex_digest sha \<longleftrightarrow> (\<forall>x. length (sha x) = 64 \<and> list_all (\<lambda>c. c \<in> set ''0123456789abcdef'') (sha x))"

lemma batch_id_sha256: "hex_digest sha \<Longrightarrow> is_sha256_value (PStr (build_batch_id sha run ids))"
  by (simp add: hex_digest_def is_sha256_value_def build_batch_id_def sha256_prefix_def py_startswith_def Let_def)

lemma resolved_verdict:
  assumes "py_has (pc_diagnostics c) guard_key"
    "py_get (pc_diagnostics c) guard_key = PDict (guard_to_dict (attempt_guard cx ph b))"
    "dict_get guard_phase_status ph = Some (pc_status c)" "ph \<notin> set unresolved_guard_phases"
    "is_sha256_value (PStr b)" "bounded_name (context_strategy cx)"
  shows "guard_verdict_of P c = GuardClear"
proof -
  have "guard_from_checkpoint c = Inr (Some (attempt_guard cx ph b))"
    using assms
    by (simp add: guard_from_checkpoint_def guard_to_dict_def attempt_guard_def guard_fields_ok_def is_str_def
        is_bounded_strategy_def py_str_def)
  then show ?thesis using assms(4)
    by (simp add: guard_verdict_of_def Let_def attempt_guard_def requires_manual_reconciliation_def)
qed

text \<open>An artifact whose checkpoint can be built.\<close>

definition complete_artifact :: "file_artifact \<Rightarrow> bool" where
  "complete_artifact a \<longleftrightarrow> fa_id a \<noteq> None \<and> fa_query_hash a \<noteq> None \<and> fa_schema_hash a \<noteq> None \<and>
     fa_source_table a \<noteq> None \<and> fa_target_table a \<noteq> None \<and> fa_bounds a \<noteq> None \<and> fa_sha256 a \<noteq> None \<and>
     (\<exists>rows. actual_export_rows a = Inr rows)"

lemma complete_checkpoint: "complete_artifact a \<Longrightarrow> \<exists>c. checkpoint_for_artifact chk st err at g a = Inr c"
  by (auto simp: complete_artifact_def checkpoint_for_artifact_def artifact_checksum_def attribute_def Let_def)

lemma map_res_total: "(\<And>x. x \<in> set xs \<Longrightarrow> \<exists>y. f x = Inr y) \<Longrightarrow> \<exists>ys. map_res f xs = Inr ys"
  by (induction xs) fastforce+

lemma complete_context:
  "list_all complete_artifact (cx_active cx) \<Longrightarrow> \<exists>cs. context_checkpoints chk cx st err at g = Inr cs"
  unfolding context_checkpoints_def by (rule map_res_total) (simp add: list_all_iff complete_checkpoint)

lemma complete_key: "complete_artifact (art_key a) = complete_artifact a"
  by (simp add: complete_artifact_def actual_export_rows_def art_key_def del: first_row_count.simps)

lemma complete_keys: "list_all complete_artifact (map art_key as) = list_all complete_artifact as"
  by (induction as) (simp_all add: complete_key)

lemma complete_same: "map art_key as = map art_key ds \<Longrightarrow> list_all complete_artifact as = list_all complete_artifact ds"
  using complete_keys [of as] complete_keys [of ds] by simp

lemma batch_ids:
  assumes "batch_of cx st cs"
  shows "i \<in> pc_id ` set cs \<longleftrightarrow> Some i \<in> fa_id ` set (cx_keys cx)"
  using assms by (force simp: batch_of_def checkpoint_of_def image_iff)

context reliable_checkpoint_log
begin

lemma plan_accepts:
  assumes "view s = Some m" "\<And>i c. m i = Some c \<Longrightarrow> guard_verdict_of P c = GuardClear"
  shows "bind_res (co_list_latest ops s) (plan_resume rc P) = Inr (map (\<lambda>p. resume_entry rc p (m (pp_id p))) P)"
proof -
  obtain latest where l: "co_list_latest ops s = Inr latest" using readable_latest [OF assms(1)] by blast
  have "guard_verdict_of P c = GuardClear" if "c \<in> set latest" for c
    using latest_get(2) [OF assms(1) l] that assms(2) by blast
  then have "GuardInvalid \<notin> guard_verdict_of P ` set latest" "GuardUnresolved \<notin> guard_verdict_of P ` set latest"
    by (metis (no_types, lifting) guard_verdict.distinct(1,3) imageE)+
  then show ?thesis
    by (simp add: l plan_resume_def validate_route_guards_def latest_get(1) [OF assms(1) l])
qed

lemma plan_accepted:
  assumes "view s = Some m" "bind_res (co_list_latest ops s) (plan_resume rc P) = Inr plan" "m i = Some c"
  shows "guard_verdict_of P c = GuardClear"
proof -
  obtain latest where l: "co_list_latest ops s = Inr latest" "plan_resume rc P latest = Inr plan"
    using assms(2) by (auto simp: bind_res_eq_Inr)
  have "c \<in> set latest" using latest_get(2) [OF assms(1) l(1)] view_ids [OF assms(1,3)] assms(3) by simp
  from plan_resume_Inr(1) [OF l(2) this] show ?thesis .
qed

text \<open>A failure before the target is recorded and leaves the route open.\<close>

lemma failed_before_target_open:
  assumes "healthy s" "bind_res (co_list_latest ops s) (plan_resume rc P) = Inr plan"
    "te_ops env = ops" "ready P cx" "cx_enabled cx" "cx_active cx \<noteq> []" "cx_terminal cx = initial_terminal"
    "list_all complete_artifact (cx_active cx)" "transition_at (tk_failed (te_clock env)) = Inr at"
    "hex_digest (te_sha env)" "bounded_name (context_strategy cx)" "ls_prepare steps = Inl e0"
  shows "\<exists>cx' s'. load_attempt env steps cx s t = ((Inl e0, cx', s'), t) \<and>
    (\<exists>plan'. bind_res (co_list_latest ops s') (plan_resume rc P) = Inr plan' \<and>
      (\<forall>e\<in>set plan'. \<forall>a\<in>set (cx_active cx). fa_id a = Some (pp_id (re_partition e)) \<longrightarrow> re_action e = ''retry''))"
proof -
  obtain m where m: "view s = Some m" using healthy_readable [OF assms(1)] by blast
  let ?code = "safe_failure_code (Some (case ls_code steps e0 of Some c \<Rightarrow> c | None \<Rightarrow> ''native_transfer_failed''))"
  obtain base where base: "context_checkpoints (te_checksum env) cx CkFailed ?code at None = Inr base"
    using complete_context [OF assms(8)] by blast
  let ?b = "build_batch_id (te_sha env) (cx_run_id cx) (partition_ids base)"
  let ?g = "attempt_guard cx ''failed_before_target'' ?b"
  let ?cs = "with_guard base ?g"
  let ?cx = "set_terminal cx (\<lambda>t. t\<lparr>ts_batch_id := Some ?b\<rparr>)"
  have batch: "batch_of cx CkFailed ?cs"
    using context_checkpoints_batch [OF base transition_valid [OF assms(9)] assms(4)] with_guard_batch by blast
  then have "list_all storable ?cs" by (simp add: batch_of_def)
  from healthy_upsert [OF assms(1) m this]
  obtain s' where u: "co_upsert_many ops s ?cs = (Inr (), s')" "healthy s'" "view s' = Some (record_all m ?cs)"
    by blast
  have off: "\<not> ts_invocation_started (cx_terminal cx)" "\<not> ts_returned_success (cx_terminal cx)"
    "ts_batch_id (cx_terminal cx) = None"
    using assms(7) by (simp_all add: initial_terminal_def)
  then have none: "classify_transfer cx = None" "classify_transfer ?cx = None"
    by (simp_all add: classify_transfer_def classify_commit_unknown_def)
  have "service_mark_failed env cx (Some (case ls_code steps e0 of Some c \<Rightarrow> c | None \<Rightarrow> ''native_transfer_failed'')) s
      = (Inr (), ?cx, s')"
    using assms(3,5,6,9) off none base u(1)
    by (simp add: service_mark_failed_def lifecycle_mark_failed_def Let_def attempt_guard_def)
  then have run: "load_attempt env steps cx s t = ((Inl e0, ?cx, s'), t)"
    using assms(12) none by (simp add: load_attempt_def attempt_failed_def)
  have st: "pc_status c = CkFailed" if "c \<in> set ?cs" for c
    using batch that by (auto simp: batch_of_def checkpoint_of_def)
  have clear: "guard_verdict_of P c = GuardClear" if "c \<in> set ?cs" for c
    using with_guard_get [OF that] st [OF that] batch_id_sha256 [OF assms(10)] assms(11)
    by (intro resolved_verdict [where cx = cx and ph = "''failed_before_target''" and b = ?b])
      (simp_all add: guard_phase_status_def unresolved_guard_phases_def)
  have "guard_verdict_of P c = GuardClear" if "record_all m ?cs i = Some c" for i c
    using record_all_cases [OF that] clear plan_accepted [OF m assms(2)] by blast
  note plan' = plan_accepts [OF u(3) this]
  have "re_action (resume_entry rc p (record_all m ?cs (pp_id p))) = ''retry''"
    if "a \<in> set (cx_active cx)" "fa_id a = Some (pp_id p)" for a p
  proof -
    have "pp_id p \<in> pc_id ` set ?cs"
      using that batch_ids [OF batch, of "pp_id p"] by (force simp: cx_keys_def image_iff)
    from record_all_in [OF this, of m] st obtain c where
      "record_all m ?cs (pp_id p) = Some c" "pc_status c = CkFailed" by blast
    then show ?thesis by (simp add: resume_entry_def Let_def)
  qed
  then show ?thesis using run plan' by fastforce
qed

text \<open>Each of the two writes of an attempt without faults.\<close>

lemma arm_healthy:
  assumes "healthy s" "view s = Some m" "te_ops env = ops" "ready P cx" "cx_active cx \<noteq> []"
    "list_all complete_artifact (cx_active cx)" "transition_at (tk_arm (te_clock env)) = Inr at"
  shows "\<exists>cs b s' cx'. lifecycle_arm env cx s = (Inr (partition_ids cs), cx', s') \<and> batch_of cx CkExported cs \<and>
    b = build_batch_id (te_sha env) (cx_run_id cx) (partition_ids cs) \<and>
    cx' = set_terminal cx (\<lambda>t. t\<lparr>ts_batch_id := Some b, ts_guard_armed := True\<rparr>) \<and>
    healthy s' \<and> view s' = Some (record_all m cs)"
proof -
  obtain base where base: "context_checkpoints (te_checksum env) cx CkExported [] at None = Inr base"
    using complete_context [OF assms(6)] by blast
  let ?b = "build_batch_id (te_sha env) (cx_run_id cx) (partition_ids base)"
  let ?cs = "with_guard base (attempt_guard cx ''armed'' ?b)"
  have batch: "batch_of cx CkExported ?cs"
    using context_checkpoints_batch [OF base transition_valid [OF assms(7)] assms(4)] with_guard_batch by blast
  then have "list_all storable ?cs" by (simp add: batch_of_def)
  from healthy_upsert [OF assms(1,2) this] obtain s' where
    u: "co_upsert_many ops s ?cs = (Inr (), s')" "healthy s'" "view s' = Some (record_all m ?cs)" by blast
  have ids: "partition_ids ?cs = partition_ids base" by (simp add: partition_ids_def with_guard_def comp_def)
  have "lifecycle_arm env cx s = (Inr (partition_ids ?cs),
      set_terminal cx (\<lambda>t. t\<lparr>ts_batch_id := Some ?b, ts_guard_armed := True\<rparr>), s')"
    using assms(3,5,7) base u(1) by (simp add: lifecycle_arm_def Let_def set_terminal_def)
  then show ?thesis using batch u(2,3) ids by metis
qed

lemma commit_healthy:
  assumes "healthy s" "view s = Some m" "te_ops env = ops" "ready P cx" "cx_active cx \<noteq> []"
    "list_all complete_artifact (cx_active cx)" "transition_at (tk_commit (te_clock env)) = Inr at"
    "ts_batch_id (cx_terminal cx) = Some b"
  shows "\<exists>cs s' cx'. lifecycle_commit env cx s = (Inr (partition_ids cs), cx', s') \<and> batch_of cx CkCommitted cs \<and>
    (\<forall>c\<in>set cs. py_has (pc_diagnostics c) guard_key \<and>
      py_get (pc_diagnostics c) guard_key = PDict (guard_to_dict (attempt_guard cx ''checkpoint_committed'' b))) \<and>
    healthy s' \<and> view s' = Some (record_all m cs)"
proof -
  let ?g = "attempt_guard cx ''checkpoint_committed'' b"
  obtain cs where cs: "context_checkpoints (te_checksum env) cx CkCommitted [] at (Some ?g) = Inr cs"
    using complete_context [OF assms(6)] by blast
  have batch: "batch_of cx CkCommitted cs"
    using context_checkpoints_batch [OF cs transition_valid [OF assms(7)] assms(4)] .
  then have "list_all storable cs" by (simp add: batch_of_def)
  from healthy_upsert [OF assms(1,2) this] obtain s' where
    u: "co_upsert_many ops s cs = (Inr (), s')" "healthy s'" "view s' = Some (record_all m cs)" by blast
  have "lifecycle_commit env cx s = (Inr (partition_ids cs),
      set_terminal cx (\<lambda>t. t\<lparr>ts_committed := ts_committed t @ partition_ids cs\<rparr>), s')"
    using assms(3,5,7,8) cs u(1) by (simp add: lifecycle_commit_def Let_def)
  then show ?thesis using batch u(2,3) context_checkpoints_guard [OF cs] by blast
qed

text \<open>An attempt in which nothing fails commits all its partitions, and the next plan is accepted.\<close>

lemma success_accepted:
  assumes "healthy s" "bind_res (co_list_latest ops s) (plan_resume rc P) = Inr plan"
    "te_ops env = ops" "ready P cx" "cx_enabled cx" "cx_active cx \<noteq> []" "cx_terminal cx = initial_terminal"
    "list_all complete_artifact (cx_active cx)" "transition_at (tk_arm (te_clock env)) = Inr at1"
    "transition_at (tk_commit (te_clock env)) = Inr at2" "hex_digest (te_sha env)" "bounded_name (context_strategy cx)"
    "ls_prepare steps = Inr ()" "ls_target steps (cx_active cx) t = (Inr r, t')" "ls_accept steps = Inr ()"
    "ls_publish steps = Inr ()"
  shows "\<exists>r' cx' s' plan'. load_attempt env steps cx s t = ((Inr r', cx', s'), t') \<and>
    bind_res (co_list_latest ops s') (plan_resume rc P) = Inr plan'"
proof -
  obtain m where m: "view s = Some m" using healthy_readable [OF assms(1)] by blast
  obtain cs b s1 where arm: "lifecycle_arm env cx s = (Inr (partition_ids cs),
        set_terminal cx (\<lambda>t. t\<lparr>ts_batch_id := Some b, ts_guard_armed := True\<rparr>), s1)"
      and b: "b = build_batch_id (te_sha env) (cx_run_id cx) (partition_ids cs)"
      and armed: "batch_of cx CkExported cs" and s1: "healthy s1" "view s1 = Some (record_all m cs)"
    using arm_healthy [OF assms(1) m assms(3,4,6,8,9)] by blast
  let ?cx1 = "set_terminal cx (\<lambda>t. t\<lparr>ts_batch_id := Some b, ts_guard_armed := True, ts_invocation_started := True\<rparr>)"
  let ?cx2 = "note_target_success ?cx1 r"
  let ?cx3 = "note_target_success ?cx2 (with_runtime_metrics r ?cx2)"
  have before: "before_target_mutation env cx s = (Inr (), ?cx1, s1)"
    using arm assms(5-7) by (simp add: before_target_mutation_def initial_terminal_def set_terminal_def)
  have same: "same_attempt cx ?cx2" "same_attempt cx ?cx3"
    using same_attempt_trans [OF _ same_attempt_note] by (simp_all add: same_attempt_def)
  have on: "cx_enabled ?cx2" "cx_enabled ?cx3" using same assms(5) by (simp_all add: same_attempt_def)
  have armed2: "ts_guard_armed (cx_terminal ?cx2)" by (simp add: note_terminal)
  have rec: "record_target_success env ?cx1 r s1 = (Inr (with_runtime_metrics r ?cx2), ?cx2, s1)"
    using assms(5) by (simp add: record_target_success_def Let_def)
  have rec2: "record_target_success env ?cx2 (with_runtime_metrics r ?cx2) s1 =
      (Inr (with_runtime_metrics (with_runtime_metrics r ?cx2) ?cx3), ?cx3, s1)"
    using on armed2 by (simp add: record_target_success_def Let_def)
  have ready3: "ready P ?cx3" using same_attempt_ready [OF same(2)] assms(4) by simp
  have keys3: "cx_keys ?cx3 = cx_keys cx" using same(2) by (simp add: same_attempt_def)
  then have complete3: "list_all complete_artifact (cx_active ?cx3)"
    using complete_same [of "cx_active ?cx3" "cx_active cx"] assms(8) by (simp add: cx_keys_def)
  have active3: "cx_active ?cx3 \<noteq> []" using keys3 assms(6) active_keys by metis
  have batch3: "ts_batch_id (cx_terminal ?cx3) = Some b"
    by (simp add: note_target_success_def set_terminal_def Let_def)
  obtain ds s2 cx4 where commit: "lifecycle_commit env ?cx3 s1 = (Inr (partition_ids ds), cx4, s2)"
      and committed: "batch_of ?cx3 CkCommitted ds"
      and guard: "\<forall>c\<in>set ds. py_has (pc_diagnostics c) guard_key \<and>
        py_get (pc_diagnostics c) guard_key = PDict (guard_to_dict (attempt_guard ?cx3 ''checkpoint_committed'' b))"
      and s2: "healthy s2" "view s2 = Some (record_all (record_all m cs) ds)"
    using commit_healthy [OF s1 assms(3) ready3 active3 complete3 assms(10) batch3] by blast
  have "commit_checkpoints env ?cx2 (with_runtime_metrics r ?cx2) s1 =
      (let cx5 = set_terminal cx4 (\<lambda>t. t\<lparr>ts_committed := ts_committed t @ partition_ids ds\<rparr>) in
        (Inr (with_runtime_metrics (with_runtime_metrics (with_runtime_metrics r ?cx2) ?cx3) cx5), cx5, s2))"
    using on rec2 commit by (simp add: commit_checkpoints_def Let_def)
  then obtain r' cx' where "load_attempt env steps cx s t = ((Inr r', cx', s2), t')"
    using before rec assms(13-16) by (simp add: load_attempt_def attempt_commit_def Let_def)
  moreover have "guard_verdict_of P c = GuardClear" if c: "record_all (record_all m cs) ds i = Some c" for i c
  proof -
    have "i \<in> pc_id ` set cs \<longleftrightarrow> i \<in> pc_id ` set ds"
      using batch_ids [OF armed] batch_ids [OF committed] keys3 by simp
    then consider "c \<in> set ds" | "m i = Some c"
      using record_all_cases [OF c] record_all_cases [of m cs i c] by blast
    then show ?thesis
    proof cases
      case 1
      then have "pc_status c = CkCommitted" using committed by (auto simp: batch_of_def checkpoint_of_def)
      then show ?thesis
        using guard 1 batch_id_sha256 [OF assms(11)] assms(12) b same_attempt_strategy [OF same(2)]
        by (intro resolved_verdict [where cx = ?cx3 and ph = "''checkpoint_committed''" and b = b])
          (simp_all add: guard_phase_status_def unresolved_guard_phases_def)
    next
      case 2
      then show ?thesis using plan_accepted [OF m assms(2)] by blast
    qed
  qed
  ultimately show ?thesis using plan_accepts [OF s2(2)] by blast
qed

end

section \<open>Properties\<close>

definition zero_digest :: "string \<Rightarrow> string" where
  "zero_digest x = replicate 64 (CHR ''0'')"

definition nt_example_time :: pydt where
  "nt_example_time = \<lparr>dt_day = 738000, dt_us = 0, dt_off = Some 0\<rparr>"

definition nt_example_env :: "jsonl_store transfer_env" where
  "nt_example_env = \<lparr>te_sha = zero_digest, te_checksum = (\<lambda>a. Inr ''c1''),
     te_clock = \<lparr>tk_export = nt_example_time, tk_arm = nt_example_time, tk_commit = nt_example_time,
       tk_marker = nt_example_time, tk_failed = nt_example_time\<rparr>, te_ops = jsonl_ops\<rparr>"

definition nt_example_artifact :: file_artifact where
  "nt_example_artifact = \<lparr>fa_id = Some ''p1'', fa_query_hash = Some ''q'', fa_schema_hash = Some ''s'',
     fa_source_table = Some ''a.t'', fa_target_table = Some ''b.t'', fa_strategy = Some ''append'',
     fa_bounds = Some [(''index'', PInt 0)], fa_rows_exported = Some (PInt 5), fa_row_count = None,
     fa_rows_loaded = None, fa_sha256 = Some ''c1'', fa_size = Some 10\<rparr>"

definition nt_example_config :: load_config where
  "nt_example_config = \<lparr>lc_source_schema = ''a'', lc_source_table = ''t'', lc_target_schema = ''b'',
     lc_target_table = ''t'', lc_strategy = ''append'', lc_options = []\<rparr>"

definition nt_example_planned :: planned_partition where
  "nt_example_planned = \<lparr>pp_id = ''p1'', pp_source_table = ''a.t'', pp_target_table = ''b.t'',
     pp_strategy = ''append'', pp_query_hash = ''q'', pp_schema_hash = ''s'',
     pp_bounds = [(''index'', PInt 0)], pp_artifact_sha256 = Some ''c1''\<rparr>"

definition nt_example_context :: transfer_context where
  "nt_example_context = \<lparr>cx_enabled = True, cx_config = nt_example_config, cx_run_id = ''r1'',
     cx_plan = [resume_entry False nt_example_planned None], cx_active = [nt_example_artifact],
     cx_reactivated = [], cx_terminal = initial_terminal\<rparr>"

text \<open>A target that counts its loads, and steps that may fail in their preparation.\<close>

definition nt_example_steps :: "unit res \<Rightarrow> nat load_steps" where
  "nt_example_steps prepare = \<lparr>ls_prepare = prepare,
     ls_target = (\<lambda>_ n. (Inr \<lparr>lr_inserted = PInt 5, lr_total = PInt 5, lr_staging = PNone, lr_metrics = []\<rparr>, Suc n)),
     ls_accept = Inr (), ls_publish = Inr (), ls_code = (\<lambda>_. None)\<rparr>"

definition nt_example_store :: "write_fault list \<Rightarrow> jsonl_store" where
  "nt_example_store faults = \<lparr>jf_lines = [], jf_faults = faults\<rparr>"

lemma nt_example_ready: "ready [nt_example_planned] nt_example_context"
  by (simp add: ready_def nt_example_context_def nt_example_planned_def nt_example_artifact_def cx_keys_def
      context_strategy_def)

lemma nt_example_fields [simp]:
  "te_ops nt_example_env = jsonl_ops" "cx_enabled nt_example_context" "cx_active nt_example_context = [nt_example_artifact]"
  "cx_terminal nt_example_context = initial_terminal" "te_sha nt_example_env = zero_digest"
  "ls_prepare (nt_example_steps p) = p"
  by (simp_all add: nt_example_env_def nt_example_context_def nt_example_steps_def)

lemma nt_example_complete: "list_all complete_artifact [nt_example_artifact]"
  by (simp add: complete_artifact_def nt_example_artifact_def actual_export_rows_def attr_value_def
      canonical_non_negative_int_def)

lemma nt_example_clock:
  "transition_at (tk_arm (te_clock nt_example_env)) = Inr nt_example_time"
  "transition_at (tk_commit (te_clock nt_example_env)) = Inr nt_example_time"
  "transition_at (tk_failed (te_clock nt_example_env)) = Inr nt_example_time"
  by code_simp+

lemma nt_example_digest: "hex_digest zero_digest"
  by (simp add: hex_digest_def zero_digest_def list_all_iff)

lemma nt_example_strategy: "bounded_name (context_strategy nt_example_context)"
  by code_simp

lemma nt_example_healthy: "jsonl_healthy (nt_example_store [])"
  by (simp add: jsonl_healthy_def nt_example_store_def jsonl_view_def iter_all_def unfinished_def)

lemma nt_example_route_open:
  "bind_res (list_latest (nt_example_store [])) (plan_resume False [nt_example_planned]) =
    Inr [resume_entry False nt_example_planned None]"
  by (simp add: nt_example_store_def list_latest_def iter_all_def latest_of_def dict_values_def plan_resume_def
      validate_route_guards_def)

text \<open>
  C6: An attempt that may have changed its target is never repeated by the program itself.
  Whatever raises during the attempt, and whichever of its writes to the checkpoint file fail
  or are torn, afterwards the next plan for the route is refused, or it skips every partition
  the attempt has loaded. The target counts as changed when its state differs.
\<close>

theorem transfer_at_most_once:
  assumes "load_attempt env steps cx s t = ((r, cx', s'), t')" "t' \<noteq> t" "te_ops env = jsonl_ops" "ready P cx"
    and "cx_enabled cx" "cx_active cx \<noteq> []" "cx_terminal cx = initial_terminal"
    and "bind_res (list_latest s') (plan_resume require P) = Inr plan"
    and "e \<in> set plan" "a \<in> set (cx_active cx)" "plans_artifact (re_partition e) a"
  shows "re_action e = ''skip''"
  using jsonl.loaded_at_most_once [OF assms(1-7) _ assms(9-11), of require] assms(8)
  by (simp add: jsonl_ops_def)

text \<open>The commit writes its checkpoint and raises; the next plan skips the partition.\<close>

theorem transfer_at_most_once_witness:
  "\<exists>s'. snd (snd (fst (load_attempt nt_example_env (nt_example_steps (Inr ())) nt_example_context
      (nt_example_store [NoFault, AllWritten]) 0))) = s' \<and>
    (\<exists>e. bind_res (list_latest s') (plan_resume True [nt_example_planned]) = Inr [e] \<and> re_action e = ''skip'')"
proof -
  let ?run = "load_attempt nt_example_env (nt_example_steps (Inr ())) nt_example_context (nt_example_store [NoFault, AllWritten]) 0"
  obtain r cx' s' t' where run: "?run = ((r, cx', s'), t')" by (metis prod.collapse)
  have t': "snd ?run = Suc 0" by code_simp
  have "(case bind_res (list_latest (snd (snd (fst ?run)))) (plan_resume True [nt_example_planned]) of
      Inr [e] \<Rightarrow> re_partition e = nt_example_planned | _ \<Rightarrow> False)"
    by code_simp
  then obtain e where e: "bind_res (list_latest s') (plan_resume True [nt_example_planned]) = Inr [e]"
    "re_partition e = nt_example_planned" using run by (auto split: sum.splits list.splits)
  have "re_action e = ''skip''"
    by (rule transfer_at_most_once [OF run _ _ nt_example_ready _ _ _ e(1), where a = nt_example_artifact])
      (use t' run e in \<open>simp_all add: plans_artifact_def nt_example_planned_def nt_example_artifact_def\<close>)
  then show ?thesis using run e by auto
qed

text \<open>
  C16: A failure before the target is called never blocks the route. On a store without faults
  the attempt ends with its exception, the target unchanged, and the next plan is accepted and
  loads every partition of the attempt again.
\<close>

theorem transfer_early_failure_retried:
  assumes "jsonl_healthy s" "bind_res (list_latest s) (plan_resume require P) = Inr plan"
    and "te_ops env = jsonl_ops" "ready P cx" "cx_enabled cx" "cx_active cx \<noteq> []" "cx_terminal cx = initial_terminal"
    and "list_all complete_artifact (cx_active cx)" "transition_at (tk_failed (te_clock env)) = Inr at"
    and "hex_digest (te_sha env)" "bounded_name (context_strategy cx)" "ls_prepare steps = Inl e0"
  shows "\<exists>cx' s'. load_attempt env steps cx s t = ((Inl e0, cx', s'), t) \<and>
    (\<exists>plan'. bind_res (list_latest s') (plan_resume require P) = Inr plan' \<and>
      (\<forall>e\<in>set plan'. \<forall>a\<in>set (cx_active cx). fa_id a = Some (pp_id (re_partition e)) \<longrightarrow> re_action e = ''retry''))"
  using jsonl.failed_before_target_open [OF assms(1) _ assms(3-12), of require plan t] assms(2)
  by (simp add: jsonl_ops_def)

theorem transfer_early_failure_retried_witness:
  "fst (fst (load_attempt nt_example_env (nt_example_steps (Inl (RuntimeError ''lost''))) nt_example_context (nt_example_store []) 7))
    = Inl (RuntimeError ''lost'')"
  using transfer_early_failure_retried [OF nt_example_healthy nt_example_route_open _ nt_example_ready, of nt_example_env
      nt_example_time "nt_example_steps (Inl (RuntimeError ''lost''))" "RuntimeError ''lost''" 7]
    nt_example_complete nt_example_clock(3) nt_example_digest nt_example_strategy by auto

text \<open>
  C17: An attempt in which nothing fails succeeds, and it does not stand in the way of the
  next one: the next plan for the route is accepted and skips every partition it has loaded.
\<close>

theorem transfer_success_skipped:
  assumes "jsonl_healthy s" "bind_res (list_latest s) (plan_resume require P) = Inr plan"
    and "te_ops env = jsonl_ops" "ready P cx" "cx_enabled cx" "cx_active cx \<noteq> []" "cx_terminal cx = initial_terminal"
    and "list_all complete_artifact (cx_active cx)" "transition_at (tk_arm (te_clock env)) = Inr at1"
    and "transition_at (tk_commit (te_clock env)) = Inr at2" "hex_digest (te_sha env)"
    and "bounded_name (context_strategy cx)" "ls_prepare steps = Inr ()"
    and "ls_target steps (cx_active cx) t = (Inr r, t')" "ls_accept steps = Inr ()" "ls_publish steps = Inr ()"
    and "t' \<noteq> t"
  shows "\<exists>r' cx' s' plan'. load_attempt env steps cx s t = ((Inr r', cx', s'), t') \<and>
    bind_res (list_latest s') (plan_resume require P) = Inr plan' \<and>
    (\<forall>e\<in>set plan'. \<forall>a\<in>set (cx_active cx). plans_artifact (re_partition e) a \<longrightarrow> re_action e = ''skip'')"
proof -
  from jsonl.success_accepted [OF assms(1) _ assms(3-16), of require plan] assms(2)
  obtain r' cx' s' plan' where run: "load_attempt env steps cx s t = ((Inr r', cx', s'), t')"
      and plan': "bind_res (co_list_latest jsonl_ops s') (plan_resume require P) = Inr plan'"
    by (auto simp: jsonl_ops_def)
  have "re_action e = ''skip''"
    if "e \<in> set plan'" "a \<in> set (cx_active cx)" "plans_artifact (re_partition e) a" for e a
    by (rule jsonl.loaded_at_most_once [OF run assms(17,3-7) plan' that])
  then show ?thesis using run plan' by (auto simp: jsonl_ops_def)
qed

theorem transfer_success_skipped_witness:
  "\<exists>r'. fst (fst (load_attempt nt_example_env (nt_example_steps (Inr ())) nt_example_context (nt_example_store []) 7)) = Inr r'"
  using transfer_success_skipped [OF nt_example_healthy nt_example_route_open _ nt_example_ready, of nt_example_env
      nt_example_time nt_example_time "nt_example_steps (Inr ())" 7 _ 8]
    nt_example_complete nt_example_clock nt_example_digest nt_example_strategy
  by (auto simp: nt_example_steps_def)

end
