(* ===== verification/Xm_Manager.thy ===== *)
theory Xm_Manager
  imports Py_Value "HOL-Library.Word"
begin

text \<open>
  Incremental reading by transaction id (\<open>src/dpone/runtime/xmin/manager.py\<close>, the state of
  \<open>runtime/state/xmin_storage.py\<close>, and the choice between a full and an incremental read of
  \<open>postgres_xmin_legacy_artifact.py\<close>). PostgreSQL counts transactions with 64 bits, but the
  system column \<open>xmin\<close> of a row holds the low 32 bits only; the queries compare these.

  A query is its text, and next to it the condition of its \<open>WHERE\<close> clause, whose meaning on
  the \<open>xmin\<close> of a row is \<open>where_holds\<close>.
\<close>

section \<open>State\<close>

record xmin_state =
  xs_value :: int
  xs_timestamp :: pydt
  xs_initial :: bool
  xs_wraparound :: bool
  xs_frozen_xid :: "int option"
  xs_revision :: int

definition epoch_mod :: int where "epoch_mod = 2 ^ 32"

definition split_xid :: "int \<Rightarrow> int \<times> int" where
  "split_xid full = (full div epoch_mod, full mod epoch_mod)"

text \<open>A query answers with rows; the first value of the first one, when there is one.\<close>

definition first_value :: "(string \<times> pyval) list list \<Rightarrow> string \<Rightarrow> int res" where
  "first_value rows column =
     (case rows of
        [] \<Rightarrow> Inr 0
      | row # _ \<Rightarrow>
          (case dict_get row column of
             None \<Rightarrow> Inl (KeyError column)
           | Some PNone \<Rightarrow> Inr 0
           | Some v \<Rightarrow> py_to_int v))"

definition snapshot_xmin_anchor :: "(string \<times> pyval) list list \<Rightarrow> int res" where
  "snapshot_xmin_anchor rows = first_value rows ''xmin_raw_value''"

definition frozen_xid :: "(string \<times> pyval) list list \<Rightarrow> int res" where
  "frozen_xid rows = first_value rows ''datfrozenxid''"

section \<open>The safe state\<close>

text \<open>
  \<open>frozen\<close> is what the query for the frozen transaction id answers; it is asked only when the
  state was not found unsafe before.
\<close>

definition calculate_safe_xmin :: "int res \<Rightarrow> pydt \<Rightarrow> int \<Rightarrow> xmin_state option \<Rightarrow> xmin_state res" where
  "calculate_safe_xmin frozen now current previous =
     (let epoch_diff = (case previous of None \<Rightarrow> 0
                        | Some p \<Rightarrow> fst (split_xid current) - fst (split_xid (xs_value p))) in
      if previous \<noteq> None \<and> 1 < epoch_diff then
        Inr \<lparr>xs_value = current, xs_timestamp = now, xs_initial = True, xs_wraparound = True,
          xs_frozen_xid = None, xs_revision = 0\<rparr>
      else
        bind_res frozen (\<lambda>f.
          Inr \<lparr>xs_value = current, xs_timestamp = now, xs_initial = (previous = None),
            xs_wraparound = (previous \<noteq> None \<and> epoch_diff = 1),
            xs_frozen_xid = (if f \<noteq> 0 \<and> current mod epoch_mod < f then Some f else None), xs_revision = 0\<rparr>))"

definition should_perform_full_refresh :: "xmin_state \<Rightarrow> bool" where
  "should_perform_full_refresh s = xs_initial s"

section \<open>The incremental query\<close>

datatype where_condition = WTrue | WRange int int | WWrap int int

definition incremental_condition :: "xmin_state option \<Rightarrow> int \<Rightarrow> where_condition" where
  "incremental_condition previous anchor =
     (case previous of
        None \<Rightarrow> WTrue
      | Some p \<Rightarrow>
          let (curr_epoch, curr_low) = split_xid anchor;
              (prev_epoch, prev_low) = split_xid (xs_value p);
              diff = curr_epoch - prev_epoch in
          if diff = 0 then WRange prev_low curr_low
          else if diff = 1 then WWrap prev_low curr_low
          else WTrue)"

definition where_text :: "where_condition \<Rightarrow> string" where
  "where_text w =
     (case w of
        WTrue \<Rightarrow> ''TRUE''
      | WRange a b \<Rightarrow> ''(t.xmin::text::bigint >= '' @ py_str_int a @ '' AND t.xmin::text::bigint < '' @ py_str_int b @ '')''
      | WWrap a b \<Rightarrow> ''(t.xmin::text::bigint >= '' @ py_str_int a @ '') OR (t.xmin::text::bigint < '' @ py_str_int b @ '')'')"

definition columns_text :: "string list option \<Rightarrow> string" where
  "columns_text columns =
     (case columns of
        Some (c # cs) \<Rightarrow> py_join '', '' (map (\<lambda>c. [dq] @ c @ [dq]) (c # cs))
      | _ \<Rightarrow> ''*'')"

definition newline :: string where "newline = [char_of (10 :: nat)]"

definition build_incremental_query ::
  "string \<Rightarrow> string \<Rightarrow> xmin_state option \<Rightarrow> int \<Rightarrow> string list option \<Rightarrow> string option \<Rightarrow> string" where
  "build_incremental_query schema table previous anchor columns custom =
     (let condition = where_text (incremental_condition previous anchor);
          condition' = (case custom of
                          Some (c # cs) \<Rightarrow> ''('' @ condition @ '') AND ('' @ (c # cs) @ '')''
                        | _ \<Rightarrow> condition);
          indent = newline @ ''        '' in
      indent @ ''SELECT '' @ columns_text columns @ '', t.xmin AS __dpone__xmin'' @
      indent @ ''FROM '' @ [dq] @ schema @ [dq] @ ''.'' @ [dq] @ table @ [dq] @ '' AS t'' @
      indent @ ''WHERE '' @ condition' @ indent)"

text \<open>The meaning of the condition on the 32-bit \<open>xmin\<close> of a row.\<close>

definition where_holds :: "where_condition \<Rightarrow> 32 word \<Rightarrow> bool" where
  "where_holds w xmin =
     (case w of
        WTrue \<Rightarrow> True
      | WRange a b \<Rightarrow> a \<le> uint xmin \<and> uint xmin < b
      | WWrap a b \<Rightarrow> a \<le> uint xmin \<or> uint xmin < b)"

definition row_xmin :: "int \<Rightarrow> 32 word" where
  "row_xmin xid = word_of_int xid"

text \<open>Rows of a full read carry no condition on \<open>xmin\<close>.\<close>

definition read_condition :: "bool \<Rightarrow> xmin_state \<Rightarrow> xmin_state option \<Rightarrow> int \<Rightarrow> where_condition" where
  "read_condition force_full safe previous anchor =
     (if force_full \<or> should_perform_full_refresh safe then WTrue else incremental_condition previous anchor)"

definition checkpoint_state :: "int \<Rightarrow> xmin_state \<Rightarrow> xmin_state" where
  "checkpoint_state anchor safe =
     \<lparr>xs_value = anchor, xs_timestamp = xs_timestamp safe, xs_initial = xs_initial safe,
      xs_wraparound = xs_wraparound safe, xs_frozen_xid = xs_frozen_xid safe, xs_revision = 0\<rparr>"

text \<open>The largest \<open>xmin\<close> of the rows read.\<close>

definition max_xmin_from_data :: "(string \<times> pyval) list list \<Rightarrow> int option res" where
  "max_xmin_from_data rows =
     bind_res (map_res py_to_int (filter (\<lambda>v. v \<noteq> PNone) (map (\<lambda>r. py_get r ''__dpone__xmin'') rows))) (\<lambda>vs.
       Inr (case vs of [] \<Rightarrow> None | v # _ \<Rightarrow> Some (fold max vs v)))"

section \<open>One synchronisation\<close>

text \<open>
  Reading at \<open>anchor\<close>: the condition of the read and the state that is saved after the load.
\<close>

definition xmin_read ::
  "int res \<Rightarrow> pydt \<Rightarrow> bool \<Rightarrow> xmin_state option \<Rightarrow> int \<Rightarrow> (where_condition \<times> xmin_state) res" where
  "xmin_read frozen now force_full previous anchor =
     bind_res (calculate_safe_xmin frozen now anchor previous) (\<lambda>safe.
       Inr (read_condition force_full safe previous anchor, checkpoint_state anchor safe))"

lemma uint_row_xmin: "uint (row_xmin x) = x mod epoch_mod"
  by (simp add: row_xmin_def epoch_mod_def uint_word_of_int)

end
