(* ===== verification/Xm_Sync.thy ===== *)
theory Xm_Sync
  imports Xm_Manager
begin

text \<open>
  Synchronisations in a row, interleaved with the life of the source table. The contract of
  the source is that of \<open>txid_snapshot_xmin\<close>: a transaction below the oldest running one has
  ended, so a row version that becomes visible later has an id at or above it.
\<close>

section \<open>Windows of transaction ids\<close>

text \<open>An id in terms of its epoch and its low part.\<close>

lemma split_order:
  fixes x y :: int
  assumes "x div epoch_mod = y div epoch_mod"
  shows "x \<le> y \<longleftrightarrow> x mod epoch_mod \<le> y mod epoch_mod" "x < y \<longleftrightarrow> x mod epoch_mod < y mod epoch_mod"
proof -
  have "x - y = x mod epoch_mod - y mod epoch_mod"
    using assms by (simp add: minus_div_mult_eq_mod [symmetric])
  then show "x \<le> y \<longleftrightarrow> x mod epoch_mod \<le> y mod epoch_mod" "x < y \<longleftrightarrow> x mod epoch_mod < y mod epoch_mod"
    by linarith+
qed

lemma low_range: "0 \<le> x mod epoch_mod" "x mod epoch_mod < epoch_mod" for x :: int
  by (simp_all add: epoch_mod_def)

lemma epoch_mono: "x \<le> y \<Longrightarrow> x div epoch_mod \<le> y div epoch_mod" for x y :: int
  by (simp add: epoch_mod_def zdiv_mono1)

lemma epoch_back: "(x - epoch_mod) div epoch_mod = x div epoch_mod - 1" "(x - epoch_mod) mod epoch_mod = x mod epoch_mod"
  by (simp_all add: epoch_mod_def)

lemma incremental_complete:
  assumes "xs_value p \<le> x" "x < anchor"
  shows "where_holds (incremental_condition (Some p) anchor) (row_xmin x)"
proof -
  have "xs_value p div epoch_mod \<le> x div epoch_mod" "x div epoch_mod \<le> anchor div epoch_mod"
    using assms epoch_mono by simp_all
  then consider "anchor div epoch_mod - xs_value p div epoch_mod \<notin> {0, 1}"
    | "xs_value p div epoch_mod = x div epoch_mod" "x div epoch_mod = anchor div epoch_mod"
    | "anchor div epoch_mod - xs_value p div epoch_mod = 1" "xs_value p div epoch_mod = x div epoch_mod"
    | "anchor div epoch_mod - xs_value p div epoch_mod = 1" "x div epoch_mod = anchor div epoch_mod"
    by fastforce
  then show ?thesis
  proof cases
    case 1
    then show ?thesis by (simp add: incremental_condition_def split_xid_def where_holds_def)
  next
    case 2
    then have "incremental_condition (Some p) anchor = WRange (xs_value p mod epoch_mod) (anchor mod epoch_mod)"
      by (simp add: incremental_condition_def split_xid_def)
    then show ?thesis using assms split_order(1) [OF 2(1)] split_order(2) [OF 2(2)]
      by (simp add: where_holds_def uint_row_xmin)
  next
    case 3
    then show ?thesis using assms split_order(1) [OF 3(2)]
      by (simp add: incremental_condition_def split_xid_def where_holds_def uint_row_xmin)
  next
    case 4
    then show ?thesis using assms split_order(2) [OF 4(2)]
      by (simp add: incremental_condition_def split_xid_def where_holds_def uint_row_xmin)
  qed
qed

section \<open>The world\<close>

text \<open>A row version is the number of its tuple and the id of the transaction that wrote it.\<close>

type_synonym row_version = "nat \<times> int"

record sync_world =
  sw_rows :: "row_version set"
  sw_oldest :: int
  sw_state :: "xmin_state option"
  sw_delivered :: "row_version set"

definition rows_read :: "(row_version \<Rightarrow> bool) \<Rightarrow> sync_world \<Rightarrow> where_condition \<Rightarrow> row_version set" where
  "rows_read custom w c = {r \<in> sw_rows w. custom r \<and> where_holds c (row_xmin (snd r))}"

inductive sync_step :: "(row_version \<Rightarrow> bool) \<Rightarrow> sync_world \<Rightarrow> sync_world \<Rightarrow> bool" for custom where
  source: "(\<forall>r\<in>rows - sw_rows w. sw_oldest w \<le> snd r) \<Longrightarrow> sw_oldest w \<le> oldest \<Longrightarrow>
    sync_step custom w (w\<lparr>sw_rows := rows, sw_oldest := oldest\<rparr>)"
| load: "xmin_read frozen now force (sw_state w) (sw_oldest w) = Inr (c, st) \<Longrightarrow>
    sync_step custom w (w\<lparr>sw_state := Some st, sw_delivered := sw_delivered w \<union> rows_read custom w c\<rparr>)"
| failed_load: "sync_step custom w (w\<lparr>sw_delivered := sw_delivered w \<union> some\<rparr>)"

inductive_cases sync_stepE: "sync_step custom w w'"

definition sync_start :: "row_version set \<Rightarrow> int \<Rightarrow> sync_world" where
  "sync_start rows oldest = \<lparr>sw_rows = rows, sw_oldest = oldest, sw_state = None, sw_delivered = {}\<rparr>"

definition caught_up :: "(row_version \<Rightarrow> bool) \<Rightarrow> sync_world \<Rightarrow> bool" where
  "caught_up custom w \<longleftrightarrow>
     (\<forall>st. sw_state w = Some st \<longrightarrow> xs_value st \<le> sw_oldest w \<and>
       (\<forall>r\<in>sw_rows w. custom r \<longrightarrow> snd r < xs_value st \<longrightarrow> r \<in> sw_delivered w))"

lemma xmin_read_state:
  assumes "xmin_read frozen now force previous anchor = Inr (c, st)"
  shows "xs_value st = anchor"
  using assms by (auto simp: xmin_read_def checkpoint_state_def bind_res_eq_Inr)

text \<open>A read misses no row between the previous anchor and the new one.\<close>

lemma xmin_read_complete:
  assumes "xmin_read frozen now force previous anchor = Inr (c, st)" "x < anchor"
    "\<And>p. previous = Some p \<Longrightarrow> xs_value p \<le> x"
  shows "where_holds c (row_xmin x)"
proof -
  obtain safe where c: "c = read_condition force safe previous anchor"
    using assms(1) by (auto simp: xmin_read_def bind_res_eq_Inr)
  have full: "where_holds WTrue (row_xmin x)" by (simp add: where_holds_def)
  show ?thesis
  proof (cases previous)
    case None
    then show ?thesis using c full by (simp add: read_condition_def incremental_condition_def)
  next
    case (Some p)
    then show ?thesis using c full incremental_complete [of p x anchor] assms(2,3) by (simp add: read_condition_def)
  qed
qed

lemma caught_up_step: "sync_step custom w w' \<Longrightarrow> caught_up custom w \<Longrightarrow> caught_up custom w'"
proof (erule sync_stepE)
  fix rows oldest
  assume w': "w' = w\<lparr>sw_rows := rows, sw_oldest := oldest\<rparr>" and "\<forall>r\<in>rows - sw_rows w. sw_oldest w \<le> snd r"
    "sw_oldest w \<le> oldest" "caught_up custom w"
  have "r \<in> sw_delivered w" if "sw_state w = Some st" "r \<in> rows" "custom r" "snd r < xs_value st" for r st
    using \<open>caught_up custom w\<close> \<open>\<forall>r\<in>rows - sw_rows w. sw_oldest w \<le> snd r\<close> that by (force simp: caught_up_def)
  then show "caught_up custom w'"
    using w' \<open>caught_up custom w\<close> \<open>sw_oldest w \<le> oldest\<close> by (force simp: caught_up_def)
next
  fix frozen now force c st
  assume w': "w' = w\<lparr>sw_state := Some st, sw_delivered := sw_delivered w \<union> rows_read custom w c\<rparr>"
    and read: "xmin_read frozen now force (sw_state w) (sw_oldest w) = Inr (c, st)" and up: "caught_up custom w"
  have "r \<in> sw_delivered w'" if r: "r \<in> sw_rows w" "custom r" "snd r < sw_oldest w" for r
  proof (cases "\<exists>p. sw_state w = Some p \<and> snd r < xs_value p")
    case True
    then show ?thesis using up r w' by (auto simp: caught_up_def)
  next
    case False
    then have "where_holds c (row_xmin (snd r))" by (intro xmin_read_complete [OF read r(3)]) auto
    then show ?thesis using r w' by (simp add: rows_read_def)
  qed
  then show "caught_up custom w'" using w' xmin_read_state [OF read] by (simp add: caught_up_def)
next
  fix some
  assume "w' = w\<lparr>sw_delivered := sw_delivered w \<union> some\<rparr>" "caught_up custom w"
  then show ?thesis by (auto simp: caught_up_def)
qed

lemma caught_up_reachable:
  assumes "(sync_step custom)\<^sup>*\<^sup>* (sync_start rows oldest) w"
  shows "caught_up custom w"
  using assms
proof (induction rule: rtranclp_induct)
  case base
  then show ?case by (simp add: caught_up_def sync_start_def)
next
  case (step w w')
  then show ?case using caught_up_step by blast
qed

section \<open>Properties\<close>

text \<open>
  C24: Reading by \<open>xmin\<close> misses nothing. However the source changes between the loads, and
  however often a load fails, at every load each visible row of an ended transaction below the
  anchor has been delivered before or is selected by the query that runs now, also when the
  32-bit counter has wrapped around in between, once or several times.
\<close>

theorem xmin_sync_complete:
  assumes "(sync_step custom)\<^sup>*\<^sup>* (sync_start rows oldest) w"
    and "xmin_read frozen now force (sw_state w) (sw_oldest w) = Inr (c, st)"
    and "r \<in> sw_rows w" "custom r" "snd r < sw_oldest w"
  shows "r \<in> sw_delivered w \<or> where_holds c (row_xmin (snd r))"
proof (cases "\<exists>p. sw_state w = Some p \<and> snd r < xs_value p")
  case True
  then show ?thesis using caught_up_reachable [OF assms(1)] assms(3,4) by (auto simp: caught_up_def)
next
  case False
  then show ?thesis using xmin_read_complete [OF assms(2,5)] by force
qed

text \<open>A row written just before the counter wraps, read by the second load.\<close>

definition sync_example_time :: pydt where
  "sync_example_time = \<lparr>dt_day = 738000, dt_us = 0, dt_off = None\<rparr>"

definition sync_example_state :: xmin_state where
  "sync_example_state = checkpoint_state 4294967290 \<lparr>xs_value = 4294967290, xs_timestamp = sync_example_time,
     xs_initial = True, xs_wraparound = False, xs_frozen_xid = None, xs_revision = 0\<rparr>"

definition sync_example_world :: sync_world where
  "sync_example_world = \<lparr>sw_rows = {(1, 4294967295)}, sw_oldest = 4294967300, sw_state = Some sync_example_state,
     sw_delivered = {}\<rparr>"

lemma sync_example_read:
  "xmin_read (Inr 0) sync_example_time False None 4294967290 = Inr (WTrue, sync_example_state)"
  "\<exists>st. xmin_read (Inr 0) sync_example_time False (Some sync_example_state) 4294967300 = Inr (WWrap 4294967290 4, st)"
  by (simp_all add: xmin_read_def calculate_safe_xmin_def read_condition_def should_perform_full_refresh_def
      incremental_condition_def split_xid_def epoch_mod_def checkpoint_state_def sync_example_state_def)

theorem xmin_sync_complete_witness:
  "(sync_step (\<lambda>_. True))\<^sup>*\<^sup>* (sync_start {} 4294967290) sync_example_world \<and>
    where_holds (WWrap 4294967290 4) (row_xmin 4294967295)"
proof -
  let ?w1 = "(sync_start {} 4294967290)\<lparr>sw_state := Some sync_example_state\<rparr>"
  have "sync_step (\<lambda>_. True) (sync_start {} 4294967290) ?w1"
    using sync_step.load [where custom = "\<lambda>_. True" and w = "sync_start {} 4294967290" and force = False
        and frozen = "Inr 0" and now = sync_example_time and c = WTrue and st = sync_example_state] sync_example_read(1)
    by (simp add: sync_start_def rows_read_def)
  moreover have "sync_step (\<lambda>_. True) ?w1 sync_example_world"
    using sync_step.source [of "{(1, 4294967295)}" ?w1 4294967300 "\<lambda>_. True"]
    by (simp add: sync_start_def sync_example_world_def)
  ultimately have reach: "(sync_step (\<lambda>_. True))\<^sup>*\<^sup>* (sync_start {} 4294967290) sync_example_world" by auto
  obtain st where "xmin_read (Inr 0) sync_example_time False (sw_state sync_example_world) (sw_oldest sync_example_world)
      = Inr (WWrap 4294967290 4, st)"
    using sync_example_read(2) by (auto simp: sync_example_world_def)
  from xmin_sync_complete [OF reach this, of "(1, 4294967295)"] reach show ?thesis
    by (simp add: sync_example_world_def)
qed

text \<open>
  The window of a query is exact. As long as the anchor is at most \<open>2^32\<close> ids after the
  previous one and the row is one of the \<open>2^32\<close> ids before the anchor, a query between two known
  anchors of the same or of adjacent epochs selects a row by its 32 bits exactly when its full
  id is not below the previous anchor: no row that was read before comes again.
\<close>

theorem xmin_window_exact:
  assumes "xs_value p \<le> anchor" "anchor \<le> xs_value p + epoch_mod" "anchor - epoch_mod \<le> x" "x < anchor"
  shows "where_holds (incremental_condition (Some p) anchor) (row_xmin x) \<longleftrightarrow> xs_value p \<le> x"
proof
  show "xs_value p \<le> x \<Longrightarrow> where_holds (incremental_condition (Some p) anchor) (row_xmin x)"
    using incremental_complete assms(4) by simp
next
  assume holds: "where_holds (incremental_condition (Some p) anchor) (row_xmin x)"
  let ?e = "\<lambda>v. v div epoch_mod" and ?l = "\<lambda>v. v mod epoch_mod"
  have split: "v = ?e v * epoch_mod + ?l v" for v :: int by simp
  have ex: "?e anchor - 1 \<le> ?e x" "?e x \<le> ?e anchor"
    using epoch_mono [OF assms(3)] epoch_mono [of x anchor] assms(4) epoch_back(1) [of anchor] by simp_all
  have ep: "?e (xs_value p) \<le> ?e anchor" "?e anchor - 1 \<le> ?e (xs_value p)"
    using epoch_mono [OF assms(1)] epoch_mono [of "anchor - epoch_mod" "xs_value p"] assms(2) epoch_back(1) [of anchor]
    by simp_all
  have before: "?l anchor \<le> ?l x" if "?e x = ?e anchor - 1"
    using split_order(1) [of "anchor - epoch_mod" x] that assms(3) epoch_back [of anchor] by simp
  have wrap: "?l anchor \<le> ?l (xs_value p)" if "?e (xs_value p) = ?e anchor - 1"
    using split_order(1) [of "anchor - epoch_mod" "xs_value p"] that assms(2) epoch_back [of anchor] by simp
  consider "?e (xs_value p) = ?e anchor" | "?e (xs_value p) = ?e anchor - 1" using ep by linarith
  then show "xs_value p \<le> x"
  proof cases
    case 1
    then have h: "?l (xs_value p) \<le> ?l x" "?l x < ?l anchor"
      using holds by (simp_all add: incremental_condition_def split_xid_def where_holds_def uint_row_xmin)
    then have "?e x = ?e anchor" using ex before by linarith
    then show ?thesis using split_order(1) [of "xs_value p" x] 1 h by simp
  next
    case 2
    then have h: "?l (xs_value p) \<le> ?l x \<or> ?l x < ?l anchor"
      using holds by (simp add: incremental_condition_def split_xid_def where_holds_def uint_row_xmin)
    consider "?e x = ?e anchor" | "?e x = ?e anchor - 1" using ex by linarith
    then show ?thesis
    proof cases
      case 1
      then show ?thesis using 2 epoch_mono [of x "xs_value p"] by linarith
    next
      case c: 2
      then have "?l (xs_value p) \<le> ?l x" using h before by linarith
      then show ?thesis using split_order(1) [of "xs_value p" x] 2 c by simp
    qed
  qed
qed

theorem xmin_window_exact_witness:
  "\<not> where_holds (incremental_condition (Some sync_example_state) 4294967300) (row_xmin 4294967289) \<and>
    where_holds (incremental_condition (Some sync_example_state) 4294967300) (row_xmin 4294967297)"
  using xmin_window_exact [of sync_example_state 4294967300 4294967289]
    xmin_window_exact [of sync_example_state 4294967300 4294967297]
  by (simp add: sync_example_state_def checkpoint_state_def epoch_mod_def)

end
