(* ===== verification/Cdc_Change.thy ===== *)
theory Cdc_Change
  imports Py_Value "HOL-Library.Word"
begin

text \<open>
  Row-level changes of change data capture (\<open>src/dpone/runtime/cdc/base.py\<close>), and what the
  parsers of the two PostgreSQL plugins take from Python: UTF-8 and the numbers that
  \<open>decimal.Decimal\<close> reads. Strings hold code points below 256, so a text with any other
  character ends decoding with an exception of the model, \<open>AppError ''CharacterRange''\<close>. The
  conversion to a binary float is a parameter of the parsers.
\<close>

section \<open>Changes\<close>

datatype cdc_operation = CdcInsert | CdcUpdate | CdcDelete | CdcUpdateBefore

fun operation_value :: "cdc_operation \<Rightarrow> string" where
  "operation_value CdcInsert = ''insert''"
| "operation_value CdcUpdate = ''update''"
| "operation_value CdcDelete = ''delete''"
| "operation_value CdcUpdateBefore = ''update_before''"

type_synonym row_data = "(string \<times> pyval) list"

record cdc_change =
  cc_operation :: cdc_operation
  cc_data :: row_data
  cc_position :: string
  cc_source_schema :: string
  cc_source_table :: string
  cc_transaction_id :: "string option"
  cc_sequence :: pyval
  cc_before :: "row_data option"
  cc_metadata :: row_data

definition is_delete :: "cdc_change \<Rightarrow> bool" where
  "is_delete c = (cc_operation c = CdcDelete)"

definition change_to_row :: "cdc_change \<Rightarrow> row_data" where
  "change_to_row c =
     (let row = cc_data c;
          row = dict_set row ''_dpone_cdc_operation'' (PStr (operation_value (cc_operation c)));
          row = dict_set row ''_dpone_cdc_position'' (PStr (cc_position c));
          row = dict_set row ''_dpone_cdc_schema'' (PStr (cc_source_schema c));
          row = dict_set row ''_dpone_cdc_table'' (PStr (cc_source_table c));
          row = dict_set row ''_dpone_cdc_deleted'' (PBool (is_delete c));
          row = (case cc_transaction_id c of None \<Rightarrow> row
                 | Some x \<Rightarrow> dict_set row ''_dpone_cdc_transaction_id'' (PStr x));
          row = (if cc_sequence c = PNone then row else dict_set row ''_dpone_cdc_sequence'' (cc_sequence c));
          row = (case cc_before c of None \<Rightarrow> row | Some d \<Rightarrow> dict_set row ''_dpone_cdc_before'' (PDict d)) in
      foldl (\<lambda>row kv. dict_set row (''_dpone_cdc_'' @ fst kv) (snd kv)) row (cc_metadata c))"

text \<open>
  A durable offset (\<open>src/dpone/readiness/cdc.py\<close>): the backend, its token, and whether the
  snapshot is complete.
\<close>

datatype cdc_backend = PostgresLogical | MssqlCdc | MssqlChangeTracking

fun backend_value :: "cdc_backend \<Rightarrow> string" where
  "backend_value PostgresLogical = ''postgres_logical''"
| "backend_value MssqlCdc = ''mssql_cdc''"
| "backend_value MssqlChangeTracking = ''mssql_change_tracking''"

definition backend_of :: "string \<Rightarrow> cdc_backend res" where
  "backend_of s =
     (case find (\<lambda>b. backend_value b = s) [PostgresLogical, MssqlCdc, MssqlChangeTracking] of
        Some b \<Rightarrow> Inr b | None \<Rightarrow> Inl (ValueError (s @ '' is not a valid CDCBackend'')))"

record cdc_offset =
  co_backend :: cdc_backend
  co_token :: string
  co_snapshot_complete :: bool

definition offset_to_state :: "cdc_offset \<Rightarrow> pyval" where
  "offset_to_state o' = PDict [(''backend'', PStr (backend_value (co_backend o'))), (''token'', PStr (co_token o')),
     (''snapshot_complete'', PBool (co_snapshot_complete o'))]"

definition py_item :: "row_data \<Rightarrow> string \<Rightarrow> pyval res" where
  "py_item d k = (case dict_get d k of None \<Rightarrow> Inl (KeyError k) | Some v \<Rightarrow> Inr v)"

definition offset_from_state :: "row_data \<Rightarrow> cdc_offset res" where
  "offset_from_state d =
     bind_res (bind_res (py_item d ''backend'') (\<lambda>v. backend_of (py_str v))) (\<lambda>b.
     bind_res (py_item d ''token'') (\<lambda>t.
       Inr \<lparr>co_backend = b, co_token = py_str t,
            co_snapshot_complete = py_truthy (py_get_default d ''snapshot_complete'' (PBool False))\<rparr>))"

definition backend_offset :: "cdc_backend \<Rightarrow> string option \<Rightarrow> cdc_offset option" where
  "backend_offset b token =
     (case token of None \<Rightarrow> None
      | Some t \<Rightarrow> Some \<lparr>co_backend = b, co_token = t, co_snapshot_complete = True\<rparr>)"

record cdc_batch =
  cb_changes :: "cdc_change list"
  cb_next_offset :: "cdc_offset option"
  cb_high_watermark :: "string option"

definition batch_to_rows :: "cdc_batch \<Rightarrow> row_data list" where
  "batch_to_rows b = map change_to_row (cb_changes b)"

definition latest_position :: "cdc_change list \<Rightarrow> string option \<Rightarrow> string option" where
  "latest_position changes fallback = foldl (\<lambda>_ c. Some (cc_position c)) fallback changes"

section \<open>UTF-8\<close>

type_synonym byte = "8 word"

definition utf8_error :: "'a res" where
  "utf8_error = Inl (ValueError ''invalid utf-8'')"

definition character_range :: "'a res" where
  "character_range = Inl (AppError ''CharacterRange'' [])"

definition is_continuation :: "byte \<Rightarrow> bool" where
  "is_continuation b \<longleftrightarrow> 128 \<le> unat b \<and> unat b < 192"

text \<open>One character and two are decoded; the lead bytes of longer ones are outside the model.\<close>

fun utf8_decode :: "byte list \<Rightarrow> string res" where
  "utf8_decode [] = Inr []"
| "utf8_decode (b # bys) =
     (if unat b < 128 then bind_res (utf8_decode bys) (\<lambda>s. Inr (char_of (unat b) # s))
      else if 194 \<le> unat b \<and> unat b < 224 then
        (case bys of
           c # cs \<Rightarrow>
             if \<not> is_continuation c then utf8_error
             else if unat b < 196 then
               bind_res (utf8_decode cs) (\<lambda>s. Inr (char_of (64 * (unat b - 192) + (unat c - 128)) # s))
             else character_range
         | [] \<Rightarrow> utf8_error)
      else if 224 \<le> unat b \<and> unat b < 245 then character_range
      else utf8_error)"

definition utf8_char :: "char \<Rightarrow> byte list" where
  "utf8_char c =
     (let n = code_of c in
      if n < 128 then [of_nat n] else [of_nat (192 + n div 64), of_nat (128 + n mod 64)])"

definition utf8_encode :: "string \<Rightarrow> byte list" where
  "utf8_encode s = concat (map utf8_char s)"

lemma code_less_256: "code_of c < 256"
  by (rule nat_of_char_less_256)

lemma code_div_64: "code_of c div 64 < 4"
  using code_less_256 [of c] by (intro less_mult_imp_div_less) simp

lemma unat_byte: "n < 256 \<Longrightarrow> unat (of_nat n :: byte) = n"
  by (simp add: unat_of_nat)

lemma utf8_decode_char: "utf8_decode (utf8_char c @ bys) = bind_res (utf8_decode bys) (\<lambda>s. Inr (c # s))"
proof -
  have n: "code_of c < 256" by (rule code_less_256)
  show ?thesis
  proof (cases "code_of c < 128")
    case True
    then show ?thesis by (simp add: utf8_char_def Let_def unat_byte)
  next
    case False
    then have "128 div 64 \<le> code_of c div 64" by (intro div_le_mono) simp
    then have lead: "192 + code_of c div 64 < 196" "194 \<le> 192 + code_of c div 64"
      using code_div_64 [of c] by simp_all
    have "128 + code_of c mod 64 < 192" by simp
    then have cont: "is_continuation (of_nat (128 + code_of c mod 64))"
      by (simp only: is_continuation_def unat_byte) simp
    have "64 * (code_of c div 64) + code_of c mod 64 = code_of c" by simp
    then show ?thesis using False lead cont
      by (simp add: utf8_char_def Let_def unat_byte del: of_nat_add)
  qed
qed

lemma utf8_roundtrip [simp]: "utf8_decode (utf8_encode s) = Inr s"
  by (induction s) (simp_all add: utf8_encode_def utf8_decode_char)

lemma utf8_no_nul: "char_of (0 :: nat) \<notin> set s \<Longrightarrow> 0 \<notin> set (utf8_encode s)"
proof (induction s)
  case (Cons c s)
  have n: "code_of c < 256" by (rule code_less_256)
  have "code_of c \<noteq> 0" using Cons.prems by (metis char_of_char list.set_intros(1) of_char_of)
  have "unat x \<noteq> 0" if "x \<in> set (utf8_char c)" for x
  proof -
    have "x = of_nat (code_of c) \<or> x = of_nat (192 + code_of c div 64) \<or> x = of_nat (128 + code_of c mod 64)"
      using that by (auto simp: utf8_char_def Let_def split: if_splits)
    moreover have "192 + code_of c div 64 < 256" "128 + code_of c mod 64 < 256"
      using code_div_64 [of c] by simp_all
    ultimately show ?thesis using n \<open>code_of c \<noteq> 0\<close> by (auto simp only: unat_byte)
  qed
  then have "0 \<notin> set (utf8_char c)" by force
  then show ?case using Cons by (simp add: utf8_encode_def)
qed (simp add: utf8_encode_def)

section \<open>Decimal texts\<close>

text \<open>
  What \<open>Decimal(text)\<close> accepts: a finite number, an infinity or a NaN. The value of a finite
  one is kept as an integer and a power of ten. A signalling NaN is left out: the comparison
  that follows raises the same exception as a text that is no number.
\<close>

datatype decimal_value = DecFinite int int | DecInfinity bool | DecNaN

definition take_digits :: "string \<Rightarrow> string \<times> string" where
  "take_digits s = (takeWhile py_is_digit s, dropWhile py_is_digit s)"

definition sign_split :: "string \<Rightarrow> bool \<times> string" where
  "sign_split s =
     (case s of
        c # cs \<Rightarrow> if c = CHR ''-'' then (True, cs) else if c = CHR ''+'' then (False, cs) else (False, s)
      | [] \<Rightarrow> (False, []))"

definition parse_exponent :: "string \<Rightarrow> int option" where
  "parse_exponent s =
     (case s of
        [] \<Rightarrow> Some 0
      | e # rest \<Rightarrow>
          if e \<noteq> CHR ''e'' then None
          else (let (neg, digits) = sign_split rest in
            if digits = [] \<or> \<not> list_all py_is_digit digits then None
            else Some (if neg then - int (digits_value digits) else int (digits_value digits))))"

definition parse_finite :: "bool \<Rightarrow> string \<Rightarrow> decimal_value option" where
  "parse_finite neg s =
     (let (whole, rest) = take_digits s;
          (frac, rest) = (case rest of c # cs \<Rightarrow> if c = CHR ''.'' then take_digits cs else ([], rest) | [] \<Rightarrow> ([], []));
          n = int (digits_value (whole @ frac)) in
      if whole @ frac = [] then None
      else map_option (\<lambda>e. DecFinite (if neg then - n else n) (e - int (length frac))) (parse_exponent rest))"

definition parse_decimal_text :: "string \<Rightarrow> decimal_value option" where
  "parse_decimal_text text =
     (let (neg, s) = sign_split (filter (\<lambda>c. c \<noteq> CHR ''_'') (py_lower (py_strip text))) in
      if s = ''inf'' \<or> s = ''infinity'' then Some (DecInfinity neg)
      else if py_startswith s ''nan'' \<and> list_all py_is_digit (drop 3 s) then Some DecNaN
      else parse_finite neg s)"

text \<open>
  \<open>int(d) if d == d.to_integral_value() else float(d)\<close> for \<open>d = Decimal(text)\<close>: a NaN equals
  nothing, an infinity equals itself and is no integer.
\<close>

definition numeric_value :: "(string \<Rightarrow> pyval res) \<Rightarrow> string \<Rightarrow> pyval res" where
  "numeric_value to_float text =
     (case parse_decimal_text text of
        None \<Rightarrow> Inl (AppError ''InvalidOperation'' ''ConversionSyntax'')
      | Some DecNaN \<Rightarrow> to_float text
      | Some (DecInfinity _) \<Rightarrow> Inl (OverflowError ''cannot convert Infinity to integer'')
      | Some (DecFinite n e) \<Rightarrow>
          if 0 \<le> e then Inr (PInt (n * 10 ^ nat e))
          else if n mod 10 ^ nat (- e) = 0 then Inr (PInt (n div 10 ^ nat (- e)))
          else to_float text)"

section \<open>Dotted names\<close>

text \<open>\<open>s.split(''.'')\<close>.\<close>

fun split_dots :: "string \<Rightarrow> string list" where
  "split_dots [] = [[]]"
| "split_dots (c # cs) =
     (case split_dots cs of
        part # parts \<Rightarrow> if c = CHR ''.'' then [] # part # parts else (c # part) # parts
      | [] \<Rightarrow> [])"

end
