(* ===== verification/Cdc_Pgoutput.thy ===== *)
theory Cdc_Pgoutput
  imports Cdc_Change
begin

text \<open>
  The parser of PostgreSQL's binary \<open>pgoutput\<close> messages
  (\<open>src/dpone/runtime/cdc/postgres_pgoutput.py\<close>) and the batch of the logical reader
  (\<open>postgres_logical_reader.py\<close>). A payload is a list of bytes; the reader keeps what it has
  not read yet. A slice past the end of the payload is shorter, as in Python, not an error.
\<close>

section \<open>The binary reader\<close>

type_synonym 'a read = "('a \<times> byte list) res"

definition uint_be :: "byte list \<Rightarrow> int" where
  "uint_be bys = foldl (\<lambda>n b. 256 * n + uint b) 0 bys"

definition sint_be :: "byte list \<Rightarrow> int" where
  "sint_be bys =
     (case bys of
        [] \<Rightarrow> 0
      | b # _ \<Rightarrow> if 128 \<le> uint b then uint_be bys - 256 ^ length bys else uint_be bys)"

definition read_uint8 :: "byte list \<Rightarrow> int read" where
  "read_uint8 bys =
     (case bys of
        [] \<Rightarrow> Inl (AppError ''IndexError'' ''index out of range'')
      | b # rest \<Rightarrow> Inr (uint b, rest))"

definition read_char :: "byte list \<Rightarrow> char read" where
  "read_char bys = bind_res (read_uint8 bys) (\<lambda>(n, rest). Inr (char_of (nat n), rest))"

definition read_bytes :: "int \<Rightarrow> byte list \<Rightarrow> byte list \<times> byte list" where
  "read_bytes n bys = (take (nat n) bys, drop (nat n) bys)"

definition read_uint16 :: "byte list \<Rightarrow> int \<times> byte list" where
  "read_uint16 bys = (let (b, rest) = read_bytes 2 bys in (uint_be b, rest))"

definition read_uint32 :: "byte list \<Rightarrow> int \<times> byte list" where
  "read_uint32 bys = (let (b, rest) = read_bytes 4 bys in (uint_be b, rest))"

definition read_int32 :: "byte list \<Rightarrow> int \<times> byte list" where
  "read_int32 bys = (let (b, rest) = read_bytes 4 bys in (sint_be b, rest))"

definition read_cstring :: "byte list \<Rightarrow> string read" where
  "read_cstring bys =
     (if 0 \<notin> set bys then Inl (ValueError ''subsection not found'')
      else bind_res (utf8_decode (takeWhile (\<lambda>b. b \<noteq> 0) bys)) (\<lambda>s.
        Inr (s, drop 1 (dropWhile (\<lambda>b. b \<noteq> 0) bys))))"

section \<open>Relations\<close>

record pg_column =
  pl_name :: string
  pl_type_oid :: int
  pl_type_modifier :: int
  pl_flags :: int

record pg_relation =
  pg_relation_id :: int
  pg_namespace :: string
  pg_name :: string
  pg_replica_identity :: char
  pg_columns :: "pg_column list"

record pg_parser =
  gp_schema :: string
  gp_table :: string
  gp_relations :: "(int, pg_relation) dict"

fun read_columns :: "nat \<Rightarrow> byte list \<Rightarrow> pg_column list read" where
  "read_columns 0 bys = Inr ([], bys)"
| "read_columns (Suc n) bys =
     bind_res (read_uint8 bys) (\<lambda>(flags, bys).
     bind_res (read_cstring bys) (\<lambda>(name, bys).
       let (oid, bys) = read_uint32 bys; (modifier, bys) = read_int32 bys in
       bind_res (read_columns n bys) (\<lambda>(cols, bys).
         Inr (\<lparr>pl_name = name, pl_type_oid = oid, pl_type_modifier = modifier, pl_flags = flags\<rparr> # cols, bys))))"

definition parse_relation :: "byte list \<Rightarrow> pg_relation res" where
  "parse_relation bys =
     (let (rid, bys) = read_uint32 bys in
      bind_res (read_cstring bys) (\<lambda>(namespace, bys).
      bind_res (read_cstring bys) (\<lambda>(name, bys).
      bind_res (read_char bys) (\<lambda>(identity, bys).
        let (count, bys) = read_uint16 bys in
        bind_res (read_columns (nat count) bys) (\<lambda>(cols, _).
          Inr \<lparr>pg_relation_id = rid, pg_namespace = namespace, pg_name = name,
            pg_replica_identity = identity, pg_columns = cols\<rparr>)))))"

definition relation_for :: "pg_parser \<Rightarrow> int \<Rightarrow> pg_relation option" where
  "relation_for p rid =
     (case dict_get (gp_relations p) rid of
        None \<Rightarrow> None
      | Some r \<Rightarrow> if pg_namespace r \<noteq> gp_schema p \<or> pg_name r \<noteq> gp_table p then None else Some r)"

section \<open>Tuples\<close>

definition bool_oids :: "int list" where "bool_oids = [16]"
definition int_oids :: "int list" where "int_oids = [20, 21, 23]"
definition float_oids :: "int list" where "float_oids = [700, 701]"
definition numeric_oids :: "int list" where "numeric_oids = [1700]"

definition convert_value :: "(string \<Rightarrow> pyval res) \<Rightarrow> string \<Rightarrow> int \<Rightarrow> pyval res" where
  "convert_value to_float raw oid =
     (if oid \<in> set bool_oids then Inr (PBool (py_lower raw \<in> {''t'', ''true'', ''1''}))
      else if oid \<in> set int_oids then bind_res (py_to_int (PStr raw)) (\<lambda>i. Inr (PInt i))
      else if oid \<in> set float_oids then to_float raw
      else if oid \<in> set numeric_oids then numeric_value to_float raw
      else Inr (PStr raw))"

definition read_value :: "(string \<Rightarrow> pyval res) \<Rightarrow> pg_column \<Rightarrow> byte list \<Rightarrow> pyval read" where
  "read_value to_float col bys =
     bind_res (read_char bys) (\<lambda>(kind, bys).
       if kind = CHR ''n'' \<or> kind = CHR ''u'' then Inr (PNone, bys)
       else if kind = CHR ''t'' then
         (let (len, bys) = read_uint32 bys; (raw, bys) = read_bytes len bys in
          bind_res (utf8_decode raw) (\<lambda>s.
          bind_res (convert_value to_float s (pl_type_oid col)) (\<lambda>v. Inr (v, bys))))
       else Inl (ValueError ''Unsupported pgoutput tuple value kind''))"

text \<open>The columns that are left, the number of values that are left, the values so far.\<close>

fun read_values ::
  "(string \<Rightarrow> pyval res) \<Rightarrow> pg_column list \<Rightarrow> nat \<Rightarrow> row_data \<Rightarrow> byte list \<Rightarrow> row_data read" where
  "read_values to_float cols 0 values bys = Inr (values, bys)"
| "read_values to_float [] (Suc n) values bys = Inl (AppError ''IndexError'' ''tuple index out of range'')"
| "read_values to_float (c # cols) (Suc n) values bys =
     bind_res (read_value to_float c bys) (\<lambda>(v, bys).
       read_values to_float cols n (dict_set values (pl_name c) v) bys)"

definition read_tuple :: "(string \<Rightarrow> pyval res) \<Rightarrow> pg_relation \<Rightarrow> byte list \<Rightarrow> row_data read" where
  "read_tuple to_float r bys =
     (let (count, bys) = read_uint16 bys in read_values to_float (pg_columns r) (nat count) [] bys)"

section \<open>Messages\<close>

definition pg_change ::
  "cdc_operation \<Rightarrow> pg_relation \<Rightarrow> string \<Rightarrow> string option \<Rightarrow> row_data option \<Rightarrow> row_data \<Rightarrow> cdc_change" where
  "pg_change op r lsn xid before data =
     \<lparr>cc_operation = op, cc_data = data, cc_position = lsn, cc_source_schema = pg_namespace r,
      cc_source_table = pg_name r, cc_transaction_id = xid, cc_sequence = PNone, cc_before = before,
      cc_metadata = [(''plugin'', PStr ''pgoutput'')]\<rparr>"

definition parse_insert ::
  "(string \<Rightarrow> pyval res) \<Rightarrow> pg_parser \<Rightarrow> string \<Rightarrow> string option \<Rightarrow> byte list \<Rightarrow> cdc_change option res" where
  "parse_insert to_float p lsn xid bys =
     (let (rid, bys) = read_uint32 bys in
      bind_res (read_char bys) (\<lambda>(kind, bys).
        if kind \<noteq> CHR ''N'' then Inr None
        else (case relation_for p rid of
                None \<Rightarrow> Inr None
              | Some r \<Rightarrow> bind_res (read_tuple to_float r bys) (\<lambda>(data, _).
                  Inr (Some (pg_change CdcInsert r lsn xid None data))))))"

definition parse_update ::
  "(string \<Rightarrow> pyval res) \<Rightarrow> pg_parser \<Rightarrow> string \<Rightarrow> string option \<Rightarrow> byte list \<Rightarrow> cdc_change option res" where
  "parse_update to_float p lsn xid bys =
     (let (rid, bys) = read_uint32 bys in
      case relation_for p rid of
        None \<Rightarrow> Inr None
      | Some r \<Rightarrow>
          bind_res (read_char bys) (\<lambda>(kind, bys).
          bind_res (if kind \<in> {CHR ''K'', CHR ''O''} then
                      bind_res (read_tuple to_float r bys) (\<lambda>(before, bys).
                      bind_res (read_char bys) (\<lambda>(kind, bys). Inr (Some before, kind, bys)))
                    else Inr (None, kind, bys)) (\<lambda>(before, kind, bys).
            if kind \<noteq> CHR ''N'' then Inr None
            else bind_res (read_tuple to_float r bys) (\<lambda>(data, _).
              Inr (Some (pg_change CdcUpdate r lsn xid before data))))))"

definition parse_delete ::
  "(string \<Rightarrow> pyval res) \<Rightarrow> pg_parser \<Rightarrow> string \<Rightarrow> string option \<Rightarrow> byte list \<Rightarrow> cdc_change option res" where
  "parse_delete to_float p lsn xid bys =
     (let (rid, bys) = read_uint32 bys in
      bind_res (read_char bys) (\<lambda>(kind, bys).
        if kind \<notin> {CHR ''K'', CHR ''O''} then Inr None
        else (case relation_for p rid of
                None \<Rightarrow> Inr None
              | Some r \<Rightarrow> bind_res (read_tuple to_float r bys) (\<lambda>(data, _).
                  Inr (Some (pg_change CdcDelete r lsn xid None data))))))"

definition pgoutput_parse ::
  "(string \<Rightarrow> pyval res) \<Rightarrow> pg_parser \<Rightarrow> string \<Rightarrow> string option \<Rightarrow> byte list \<Rightarrow> cdc_change option res \<times> pg_parser" where
  "pgoutput_parse to_float p lsn xid payload =
     (case read_char payload of
        Inl e \<Rightarrow> (Inl e, p)
      | Inr (tag, bys) \<Rightarrow>
          if tag = CHR ''R'' then
            (case parse_relation bys of
               Inl e \<Rightarrow> (Inl e, p)
             | Inr r \<Rightarrow> (Inr None, p\<lparr>gp_relations := dict_set (gp_relations p) (pg_relation_id r) r\<rparr>))
          else if tag = CHR ''I'' then (parse_insert to_float p lsn xid bys, p)
          else if tag = CHR ''U'' then (parse_update to_float p lsn xid bys, p)
          else if tag = CHR ''D'' then (parse_delete to_float p lsn xid bys, p)
          else (Inr None, p))"

section \<open>Batches\<close>

text \<open>A row of the slot: its position, its transaction and its payload, which may be missing.\<close>

record slot_row =
  sr_lsn :: string
  sr_xid :: "string option"
  sr_data :: "byte list option"

fun read_rows ::
  "(string \<Rightarrow> pyval res) \<Rightarrow> pg_parser \<Rightarrow> cdc_change list \<Rightarrow> string option \<Rightarrow> slot_row list \<Rightarrow>
    cdc_batch res \<times> pg_parser" where
  "read_rows to_float p changes high [] =
     (Inr \<lparr>cb_changes = changes, cb_next_offset = backend_offset PostgresLogical high, cb_high_watermark = high\<rparr>, p)"
| "read_rows to_float p changes high (row # rows) =
     (case sr_data row of
        None \<Rightarrow> read_rows to_float p changes (Some (sr_lsn row)) rows
      | Some payload \<Rightarrow>
          (case pgoutput_parse to_float p (sr_lsn row) (sr_xid row) payload of
             (Inl e, p') \<Rightarrow> (Inl e, p')
           | (Inr None, p') \<Rightarrow> read_rows to_float p' changes (Some (sr_lsn row)) rows
           | (Inr (Some c), p') \<Rightarrow> read_rows to_float p' (changes @ [c]) (Some (sr_lsn row)) rows))"

definition read_pgoutput_batch :: "(string \<Rightarrow> pyval res) \<Rightarrow> pg_parser \<Rightarrow> slot_row list \<Rightarrow> cdc_batch res \<times> pg_parser" where
  "read_pgoutput_batch to_float p rows = read_rows to_float p [] None rows"

definition empty_parser :: "string \<Rightarrow> string \<Rightarrow> pg_parser" where
  "empty_parser schema table = \<lparr>gp_schema = schema, gp_table = table, gp_relations = []\<rparr>"

end
