(* ===== verification/Cdc_Test_Decoding.thy ===== *)
theory Cdc_Test_Decoding
  imports Cdc_Change
begin

text \<open>
  The parser of the text messages of PostgreSQL's \<open>test_decoding\<close> plugin
  (\<open>src/dpone/runtime/cdc/postgres_test_decoding.py\<close>). An index into the body becomes the
  rest of the body.
\<close>

section \<open>Values\<close>

definition nl :: char where "nl = char_of (10 :: nat)"

text \<open>The regular expressions end in \<open>$\<close>, which also matches before a final newline.\<close>

definition before_newline :: "string \<Rightarrow> string" where
  "before_newline s = (if s \<noteq> [] \<and> last s = nl then butlast s else s)"

definition all_digits :: "string \<Rightarrow> bool" where
  "all_digits s \<longleftrightarrow> s \<noteq> [] \<and> list_all py_is_digit s"

definition drop_minus :: "string \<Rightarrow> string" where
  "drop_minus s = (if take 1 s = ''-'' then drop 1 s else s)"

definition is_int_text :: "string \<Rightarrow> bool" where
  "is_int_text s = all_digits (drop_minus (before_newline s))"

definition is_decimal_text :: "string \<Rightarrow> bool" where
  "is_decimal_text s =
     (let t = drop_minus (before_newline s); whole = takeWhile py_is_digit t; rest = dropWhile py_is_digit t in
      whole \<noteq> [] \<and> take 1 rest = ''.'' \<and> all_digits (drop 1 rest))"

definition convert_text :: "(string \<Rightarrow> pyval res) \<Rightarrow> string \<Rightarrow> pyval res" where
  "convert_text to_float raw =
     (let lowered = py_lower raw in
      if lowered = ''null'' \<or> lowered = ''<null>'' then Inr PNone
      else if lowered = ''true'' then Inr (PBool True)
      else if lowered = ''false'' then Inr (PBool False)
      else if is_int_text raw then bind_res (py_to_int (PStr raw)) (\<lambda>i. Inr (PInt i))
      else if is_decimal_text raw then numeric_value to_float raw
      else Inr (PStr raw))"

text \<open>A quoted value after its opening quote: a doubled quote stands for one.\<close>

fun read_quoted :: "string \<Rightarrow> string \<times> string" where
  "read_quoted [] = ([], [])"
| "read_quoted [c] = (if c = sq then ([], []) else ([c], []))"
| "read_quoted (c # d # cs) =
     (if c = sq then
        (if d = sq then (let (s, rest) = read_quoted cs in (sq # s, rest)) else ([], d # cs))
      else (let (s, rest) = read_quoted (d # cs) in (c # s, rest)))"

definition read_text_value :: "string \<Rightarrow> string \<times> string" where
  "read_text_value s =
     (if take 1 s = [sq] then read_quoted (drop 1 s)
      else (takeWhile (\<lambda>c. \<not> py_is_space c) s, dropWhile (\<lambda>c. \<not> py_is_space c) s))"

text \<open>\<open>value.replace('""', '"')\<close>.\<close>

fun undouble :: "string \<Rightarrow> string" where
  "undouble (c # d # cs) = (if c = dq \<and> d = dq then dq # undouble cs else c # undouble (d # cs))"
| "undouble s = s"

definition unquote_identifier :: "string \<Rightarrow> string" where
  "unquote_identifier value =
     (let v = py_strip value in
      if 2 \<le> length v \<and> hd v = dq \<and> last v = dq then undouble (butlast (tl v)) else v)"

section \<open>Tuples\<close>

text \<open>
  One round of the loop: \<open>None\<close> where the loop ends, else the name, the raw value and the rest
  of the body.
\<close>

definition next_column :: "string \<Rightarrow> (string \<times> string \<times> string) option" where
  "next_column body =
     (let s = dropWhile py_is_space body;
          name = takeWhile (\<lambda>c. c \<noteq> CHR ''['') s;
          s1 = dropWhile (\<lambda>c. c \<noteq> CHR ''['') s;
          s2 = drop 1 (dropWhile (\<lambda>c. c \<noteq> CHR '']'') (drop 1 s1)) in
      if s1 = [] \<or> take 1 s2 \<noteq> '':'' then None
      else (let (raw, rest) = read_text_value (drop 1 s2) in Some (name, raw, rest)))"

lemma read_quoted_shorter: "length (snd (read_quoted s)) \<le> length s"
  by (induction s rule: read_quoted.induct) (auto split: prod.split)

lemma read_text_value_shorter: "length (snd (read_text_value s)) \<le> length s"
  using read_quoted_shorter [of "drop 1 s"] length_dropWhile_le [of "\<lambda>c. \<not> py_is_space c" s]
  by (simp add: read_text_value_def del: drop_Suc_Cons) linarith

lemma next_column_shorter:
  assumes "next_column body = Some (name, raw, rest)"
  shows "length rest < length body"
proof -
  let ?s = "dropWhile py_is_space body"
  let ?s1 = "dropWhile (\<lambda>c. c \<noteq> CHR ''['') ?s"
  let ?s2 = "drop 1 (dropWhile (\<lambda>c. c \<noteq> CHR '']'') (drop 1 ?s1))"
  from assms have s1: "?s1 \<noteq> []" and rest: "rest = snd (read_text_value (drop 1 ?s2))"
    by (auto simp: next_column_def Let_def split: if_splits prod.splits)
  have "length ?s1 \<le> length body"
    using length_dropWhile_le [of "\<lambda>c. c \<noteq> CHR ''[''" ?s] length_dropWhile_le [of py_is_space body] by linarith
  moreover have "length ?s2 \<le> length ?s1 - 1"
    using length_dropWhile_le [of "\<lambda>c. c \<noteq> CHR '']''" "drop 1 ?s1"] by simp
  moreover have "0 < length ?s1" using s1 by (simp only: length_greater_0_conv) simp
  moreover have "length rest \<le> length ?s2"
    using read_text_value_shorter [of "drop 1 ?s2"] length_drop [of 1 ?s2] unfolding rest by linarith
  ultimately show ?thesis by linarith
qed

function parse_text_tuple :: "(string \<Rightarrow> pyval res) \<Rightarrow> row_data \<Rightarrow> string \<Rightarrow> row_data res" where
  "parse_text_tuple to_float values body =
     (case next_column body of
        None \<Rightarrow> Inr values
      | Some (name, raw, rest) \<Rightarrow>
          bind_res (convert_text to_float raw) (\<lambda>v.
            parse_text_tuple to_float (dict_set values (unquote_identifier name) v) rest))"
  by pat_completeness auto
termination
  by (relation "measure (\<lambda>(f, d, body). length body)") (auto dest: next_column_shorter)

declare parse_text_tuple.simps [simp del]

section \<open>Messages\<close>

text \<open>\<open>s.partition(sep)\<close>: what is before the first \<open>sep\<close> and what is behind it.\<close>

fun py_partition :: "string \<Rightarrow> string \<Rightarrow> string \<times> string" where
  "py_partition sep [] = ([], [])"
| "py_partition sep (c # cs) =
     (if py_startswith (c # cs) sep then ([], drop (length sep) (c # cs))
      else (let (a, b) = py_partition sep cs in (c # a, b)))"

definition operations :: "(string \<times> cdc_operation) list" where
  "operations = [(''INSERT'', CdcInsert), (''UPDATE'', CdcUpdate), (''DELETE'', CdcDelete)]"

text \<open>The regular expression of a message: schema, table, operation and the body, one line.\<close>

definition match_message :: "string \<Rightarrow> (string \<times> string \<times> cdc_operation \<times> string) option" where
  "match_message s =
     (if \<not> py_startswith s ''table '' then None
      else
        (let t = drop 6 s;
             schema = takeWhile (\<lambda>c. c \<noteq> CHR ''.'') t;
             u = drop 1 (dropWhile (\<lambda>c. c \<noteq> CHR ''.'') t);
             table = takeWhile (\<lambda>c. c \<noteq> CHR '':'') u;
             v = dropWhile (\<lambda>c. c \<noteq> CHR '':'') u in
         if schema = [] \<or> table = [] \<or> CHR ''.'' \<notin> set t then None
         else
           (case filter (\<lambda>(name, _). py_startswith v ('': '' @ name @ '':'')) operations of
              [] \<Rightarrow> None
            | (name, op) # _ \<Rightarrow>
                let w = drop (length name + 3) v;
                    body = (if take 1 w = '' '' then drop 1 w else w) in
                if nl \<in> set body then None else Some (schema, table, op, body))))"

definition text_change ::
  "(string \<Rightarrow> pyval res) \<Rightarrow> string \<Rightarrow> string option \<Rightarrow> string \<Rightarrow> string \<Rightarrow> cdc_operation \<Rightarrow> string \<Rightarrow> cdc_change res" where
  "text_change to_float lsn xid schema table op body =
     bind_res
       (if op = CdcUpdate \<and> py_startswith body ''old-key:'' then
          (let (old, new) = py_partition '' new-tuple:'' body in
           bind_res (parse_text_tuple to_float [] (py_strip (drop (length ''old-key:'') old))) (\<lambda>before.
             Inr (Some before, py_strip new)))
        else Inr (None, body)) (\<lambda>(before, body).
     bind_res (parse_text_tuple to_float [] body) (\<lambda>data.
       Inr \<lparr>cc_operation = op, cc_data = data, cc_position = lsn, cc_source_schema = schema,
         cc_source_table = table, cc_transaction_id = xid, cc_sequence = PNone, cc_before = before,
         cc_metadata = [(''plugin'', PStr ''test_decoding'')]\<rparr>))"

definition test_decoding_parse ::
  "(string \<Rightarrow> pyval res) \<Rightarrow> string \<Rightarrow> string \<Rightarrow> string \<Rightarrow> string option \<Rightarrow> string \<Rightarrow> cdc_change option res" where
  "test_decoding_parse to_float source_schema source_table lsn xid data =
     (case match_message (py_strip data) of
        None \<Rightarrow> Inr None
      | Some (raw_schema, raw_table, op, body) \<Rightarrow>
          let schema = unquote_identifier raw_schema; table = unquote_identifier raw_table in
          if schema \<noteq> source_schema \<or> table \<noteq> source_table then Inr None
          else bind_res (text_change to_float lsn xid schema table op body) (\<lambda>c. Inr (Some c)))"

end
