(* ===== verification/Cdc_Reader.thy ===== *)
theory Cdc_Reader
  imports Cdc_Pgoutput Cdc_Test_Decoding
begin

text \<open>
  The reader of a logical replication slot
  (\<open>src/dpone/runtime/cdc/postgres_logical_reader.py\<close>): its configuration, the statement that
  creates its publication, and the batches it reads with either plugin. What the slot answers
  is an argument; a slot hands out every row once.
\<close>

section \<open>Configuration\<close>

record reader_config =
  rg_source_schema :: string
  rg_source_table :: string
  rg_slot_name :: string
  rg_plugin :: string
  rg_publication_name :: "string option"
  rg_drop_existing_slot :: bool
  rg_create_slot :: bool
  rg_create_publication :: bool
  rg_proto_version :: int

definition is_name_char :: "char \<Rightarrow> bool" where
  "is_name_char c \<longleftrightarrow> (let n = code_of c in
     65 \<le> n \<and> n \<le> 90 \<or> 97 \<le> n \<and> n \<le> 122 \<or> 48 \<le> n \<and> n \<le> 57 \<or> c = CHR ''_'')"

definition publication_safe_name :: "string \<Rightarrow> string" where
  "publication_safe_name s = map (\<lambda>c. if is_name_char c then c else CHR ''_'') s"

definition resolved_publication_name :: "reader_config \<Rightarrow> string" where
  "resolved_publication_name cfg =
     (case rg_publication_name cfg of
        Some (c # cs) \<Rightarrow> c # cs
      | _ \<Rightarrow> ''dpone_'' @ publication_safe_name (rg_source_schema cfg) @ ''_'' @ publication_safe_name (rg_source_table cfg) @ ''_pub'')"

definition is_pgoutput :: "reader_config \<Rightarrow> bool" where
  "is_pgoutput cfg = (rg_plugin cfg = ''pgoutput'')"

definition is_test_decoding :: "reader_config \<Rightarrow> bool" where
  "is_test_decoding cfg = (rg_plugin cfg = ''test_decoding'')"

definition escape_identifier :: "string \<Rightarrow> string" where
  "escape_identifier s = concat (map (\<lambda>c. if c = dq then [dq, dq] else [c]) s)"

definition create_publication_text :: "reader_config \<Rightarrow> string" where
  "create_publication_text cfg =
     ''CREATE PUBLICATION '' @ [dq] @ escape_identifier (resolved_publication_name cfg) @ [dq] @ '' FOR TABLE '' @
     [dq] @ escape_identifier (rg_source_schema cfg) @ [dq] @ ''.'' @ [dq] @ escape_identifier (rg_source_table cfg) @ [dq]"

section \<open>Setup\<close>

text \<open>The calls that \<open>setup\<close> makes; the two lookups answer whether they found a row.\<close>

datatype server_call =
    DropSlot string
  | FindPublication string
  | CreatePublication string
  | FindSlot string
  | CreateSlot string string

definition drop_slot_call :: "reader_config \<Rightarrow> server_call" where
  "drop_slot_call cfg = DropSlot (rg_slot_name cfg)"

definition publication_calls :: "(server_call \<Rightarrow> bool) \<Rightarrow> reader_config \<Rightarrow> server_call list" where
  "publication_calls found cfg =
     (let find = FindPublication (resolved_publication_name cfg) in
      if found find then [find] else [find, CreatePublication (create_publication_text cfg)])"

definition setup_calls :: "(server_call \<Rightarrow> bool) \<Rightarrow> reader_config \<Rightarrow> server_call list" where
  "setup_calls found cfg =
     (if rg_drop_existing_slot cfg then [drop_slot_call cfg] else []) @
     (if is_pgoutput cfg \<and> rg_create_publication cfg then publication_calls found cfg else []) @
     (if \<not> rg_create_slot cfg then []
      else (let find = FindSlot (rg_slot_name cfg) in
            if found find then [find] else [find, CreateSlot (rg_slot_name cfg) (rg_plugin cfg)]))"

section \<open>Batches\<close>

record text_row =
  tr_lsn :: string
  tr_xid :: "string option"
  tr_data :: string

fun read_text_rows ::
  "(string \<Rightarrow> pyval res) \<Rightarrow> string \<Rightarrow> string \<Rightarrow> cdc_change list \<Rightarrow> string option \<Rightarrow> text_row list \<Rightarrow> cdc_batch res" where
  "read_text_rows to_float schema table changes high [] =
     Inr \<lparr>cb_changes = changes, cb_next_offset = backend_offset PostgresLogical high, cb_high_watermark = high\<rparr>"
| "read_text_rows to_float schema table changes high (row # rows) =
     bind_res (test_decoding_parse to_float schema table (tr_lsn row) (tr_xid row) (tr_data row)) (\<lambda>c.
       read_text_rows to_float schema table (case c of None \<Rightarrow> changes | Some x \<Rightarrow> changes @ [x])
         (Some (tr_lsn row)) rows)"

definition read_test_decoding_batch ::
  "(string \<Rightarrow> pyval res) \<Rightarrow> reader_config \<Rightarrow> text_row list \<Rightarrow> cdc_batch res" where
  "read_test_decoding_batch to_float cfg rows =
     read_text_rows to_float (rg_source_schema cfg) (rg_source_table cfg) [] None rows"

text \<open>The reader keeps the relations its \<open>pgoutput\<close> parser has seen from one batch to the next.\<close>

definition read_batch ::
  "(string \<Rightarrow> pyval res) \<Rightarrow> reader_config \<Rightarrow> pg_parser \<Rightarrow> slot_row list \<Rightarrow> text_row list \<Rightarrow> cdc_batch res \<times> pg_parser" where
  "read_batch to_float cfg p binary texts =
     (if is_pgoutput cfg then read_pgoutput_batch to_float p binary
      else if is_test_decoding cfg then (read_test_decoding_batch to_float cfg texts, p)
      else (Inl (ValueError ''Unsupported PostgreSQL logical decoding plugin''), p))"

end
