(* ===== verification/Cdc_Wire.thy ===== *)
theory Cdc_Wire
  imports Cdc_Pgoutput
begin

text \<open>
  The messages of \<open>pgoutput\<close> as PostgreSQL documents them (Logical Replication Message
  Formats, protocol version 1): their data, their bytes, and the effect each stands for. The
  effects are those of the protocol: a value marked as unchanged is the one the row had before,
  and a truncation empties the table. The parser gives the row changes of all messages that
  send their values; what it makes of the marker and of a truncation is stated as well.
\<close>

section \<open>Big-endian integers\<close>

fun be_bytes :: "nat \<Rightarrow> int \<Rightarrow> byte list" where
  "be_bytes 0 n = []"
| "be_bytes (Suc k) n = be_bytes k (n div 256) @ [word_of_int n]"

lemma length_be_bytes [simp]: "length (be_bytes k n) = k"
  by (induction k arbitrary: n) simp_all

lemma uint_be_snoc: "uint_be (bys @ [b]) = 256 * uint_be bys + uint b"
  by (simp add: uint_be_def)

lemma uint_be_bytes: "uint_be (be_bytes k n) = n mod 256 ^ k"
proof (induction k arbitrary: n)
  case 0
  then show ?case by (simp add: uint_be_def)
next
  case (Suc k)
  have "n mod (256 * 256 ^ k) = 256 * (n div 256 mod 256 ^ k) + n mod 256"
    by (rule zmod_zmult2_eq) simp
  then show ?case by (simp add: uint_be_snoc Suc uint_word_of_int)
qed

lemma hd_be_bytes: "be_bytes (Suc k) n = word_of_int (n div 256 ^ k) # be_bytes k n"
proof (induction k arbitrary: n)
  case (Suc k)
  have "be_bytes (Suc (Suc k)) n = be_bytes (Suc k) (n div 256) @ [word_of_int n]" by simp
  also have "\<dots> = word_of_int (n div 256 div 256 ^ k) # be_bytes k (n div 256) @ [word_of_int n]"
    by (simp only: Suc append_Cons)
  finally show ?case by (simp add: zdiv_zmult2_eq)
qed simp

lemma sint_be_bytes:
  assumes "- (2 ^ 31) \<le> n" "n < 2 ^ 31"
  shows "sint_be (be_bytes 4 n) = n"
proof -
  have be: "be_bytes 4 n = word_of_int (n div 256 ^ 3) # be_bytes 3 n"
    using hd_be_bytes [of 3 n] by (simp add: eval_nat_numeral)
  have u: "uint_be (be_bytes 4 n) = n mod 2 ^ 32" by (simp add: uint_be_bytes)
  have b: "uint (word_of_int (n div 256 ^ 3) :: byte) = n div 2 ^ 24 mod 256" by (simp add: uint_word_of_int)
  have "sint_be (be_bytes 4 n) =
      (if 128 \<le> n div 2 ^ 24 mod 256 then n mod 2 ^ 32 - 2 ^ 32 else n mod 2 ^ 32)"
    using u b by (simp add: sint_be_def be del: be_bytes.simps)
  also have "\<dots> = n"
  proof (cases "0 \<le> n")
    case True
    then have "n div 2 ^ 24 < 128" "0 \<le> n div 2 ^ 24" "n mod 2 ^ 32 = n" using assms by auto
    then show ?thesis by simp
  next
    case False
    then have "- 128 \<le> n div 2 ^ 24" "n div 2 ^ 24 < 0" using assms by auto
    then have "(n div 2 ^ 24 + 256) mod 256 = n div 2 ^ 24 + 256" by (intro mod_pos_pos_trivial) simp_all
    then have "n div 2 ^ 24 mod 256 = n div 2 ^ 24 + 256" by simp
    moreover have "n mod 2 ^ 32 = n + 2 ^ 32"
    proof -
      have "(n + 2 ^ 32) mod 2 ^ 32 = n + 2 ^ 32" using False assms by (intro mod_pos_pos_trivial) simp_all
      then show ?thesis by simp
    qed
    ultimately show ?thesis using \<open>- 128 \<le> n div 2 ^ 24\<close> by simp
  qed
  finally show ?thesis .
qed

lemma read_be [simp]:
  "0 \<le> n \<Longrightarrow> n < 2 ^ 16 \<Longrightarrow> read_uint16 (be_bytes 2 n @ rest) = (n, rest)"
  "0 \<le> n \<Longrightarrow> n < 2 ^ 32 \<Longrightarrow> read_uint32 (be_bytes 4 n @ rest) = (n, rest)"
  "- (2 ^ 31) \<le> n \<Longrightarrow> n < 2 ^ 31 \<Longrightarrow> read_int32 (be_bytes 4 n @ rest) = (n, rest)"
  by (simp_all add: read_uint16_def read_uint32_def read_int32_def read_bytes_def uint_be_bytes sint_be_bytes
      del: be_bytes.simps)

section \<open>Messages and their bytes\<close>

datatype pg_value = VNull | VUnchanged | VText string

text \<open>
  Begin: final position, time and transaction. Commit: flags, position, end position and time.
  Origin: position and name. Type: id, namespace and name. Truncate: option bits and the
  relations. Positions and times are 64-bit fields.
\<close>

datatype pg_message =
    MBegin int int int
  | MCommit int int int int
  | MOrigin int string
  | MType int string string
  | MTruncate int "int list"
  | MRelation pg_relation
  | MInsert int "pg_value list"
  | MUpdate int "(char \<times> pg_value list) option" "pg_value list"
  | MDelete int char "pg_value list"

definition char_byte :: "char \<Rightarrow> byte" where
  "char_byte c = of_nat (code_of c)"

definition cstring_bytes :: "string \<Rightarrow> byte list" where
  "cstring_bytes s = utf8_encode s @ [0]"

definition column_bytes :: "pg_column \<Rightarrow> byte list" where
  "column_bytes c =
     word_of_int (pl_flags c) # cstring_bytes (pl_name c) @ be_bytes 4 (pl_type_oid c) @ be_bytes 4 (pl_type_modifier c)"

fun value_bytes :: "pg_value \<Rightarrow> byte list" where
  "value_bytes VNull = [char_byte (CHR ''n'')]"
| "value_bytes VUnchanged = [char_byte (CHR ''u'')]"
| "value_bytes (VText s) =
     char_byte (CHR ''t'') # be_bytes 4 (int (length (utf8_encode s))) @ utf8_encode s"

definition tuple_bytes :: "pg_value list \<Rightarrow> byte list" where
  "tuple_bytes vs = be_bytes 2 (int (length vs)) @ concat (map value_bytes vs)"

fun message_bytes :: "pg_message \<Rightarrow> byte list" where
  "message_bytes (MBegin final time xid) =
     char_byte (CHR ''B'') # be_bytes 8 final @ be_bytes 8 time @ be_bytes 4 xid"
| "message_bytes (MCommit flags at end_at time) =
     char_byte (CHR ''C'') # word_of_int flags # be_bytes 8 at @ be_bytes 8 end_at @ be_bytes 8 time"
| "message_bytes (MOrigin at name) = char_byte (CHR ''O'') # be_bytes 8 at @ cstring_bytes name"
| "message_bytes (MType oid ns name) =
     char_byte (CHR ''Y'') # be_bytes 4 oid @ cstring_bytes ns @ cstring_bytes name"
| "message_bytes (MTruncate options rels) =
     char_byte (CHR ''T'') # be_bytes 4 (int (length rels)) @ word_of_int options # concat (map (be_bytes 4) rels)"
| "message_bytes (MRelation r) =
     char_byte (CHR ''R'') # be_bytes 4 (pg_relation_id r) @ cstring_bytes (pg_namespace r) @ cstring_bytes (pg_name r) @
     char_byte (pg_replica_identity r) # be_bytes 2 (int (length (pg_columns r))) @ concat (map column_bytes (pg_columns r))"
| "message_bytes (MInsert r vs) =
     char_byte (CHR ''I'') # be_bytes 4 r @ char_byte (CHR ''N'') # tuple_bytes vs"
| "message_bytes (MUpdate r old vs) =
     char_byte (CHR ''U'') # be_bytes 4 r @
     (case old of None \<Rightarrow> [] | Some (k, us) \<Rightarrow> char_byte k # tuple_bytes us) @ char_byte (CHR ''N'') # tuple_bytes vs"
| "message_bytes (MDelete r k vs) =
     char_byte (CHR ''D'') # be_bytes 4 r @ char_byte k # tuple_bytes vs"

text \<open>Messages whose fields fit their width.\<close>

definition oid_ok :: "int \<Rightarrow> bool" where
  "oid_ok n \<longleftrightarrow> 0 \<le> n \<and> n < 2 ^ 32"

definition long_ok :: "int \<Rightarrow> bool" where
  "long_ok n \<longleftrightarrow> - (2 ^ 63) \<le> n \<and> n < 2 ^ 63"

definition no_nul :: "string \<Rightarrow> bool" where
  "no_nul s \<longleftrightarrow> char_of (0 :: nat) \<notin> set s"

definition column_ok :: "pg_column \<Rightarrow> bool" where
  "column_ok c \<longleftrightarrow> 0 \<le> pl_flags c \<and> pl_flags c < 256 \<and> no_nul (pl_name c) \<and> oid_ok (pl_type_oid c) \<and>
     - (2 ^ 31) \<le> pl_type_modifier c \<and> pl_type_modifier c < 2 ^ 31"

fun value_ok :: "pg_value \<Rightarrow> bool" where
  "value_ok (VText s) \<longleftrightarrow> length (utf8_encode s) < 2 ^ 32"
| "value_ok _ \<longleftrightarrow> True"

definition tuple_ok :: "pg_value list \<Rightarrow> bool" where
  "tuple_ok vs \<longleftrightarrow> length vs < 2 ^ 16 \<and> list_all value_ok vs"

fun message_ok :: "pg_message \<Rightarrow> bool" where
  "message_ok (MBegin final time xid) \<longleftrightarrow> long_ok final \<and> long_ok time \<and> oid_ok xid"
| "message_ok (MCommit flags at end_at time) \<longleftrightarrow>
     0 \<le> flags \<and> flags < 256 \<and> long_ok at \<and> long_ok end_at \<and> long_ok time"
| "message_ok (MOrigin at name) \<longleftrightarrow> long_ok at \<and> no_nul name"
| "message_ok (MType oid ns name) \<longleftrightarrow> oid_ok oid \<and> no_nul ns \<and> no_nul name"
| "message_ok (MTruncate options rels) \<longleftrightarrow>
     0 \<le> options \<and> options < 256 \<and> length rels < 2 ^ 31 \<and> list_all oid_ok rels"
| "message_ok (MRelation r) \<longleftrightarrow> oid_ok (pg_relation_id r) \<and> no_nul (pg_namespace r) \<and> no_nul (pg_name r) \<and>
     length (pg_columns r) < 2 ^ 16 \<and> list_all column_ok (pg_columns r)"
| "message_ok (MInsert r vs) \<longleftrightarrow> oid_ok r \<and> tuple_ok vs"
| "message_ok (MUpdate r old vs) \<longleftrightarrow> oid_ok r \<and> tuple_ok vs \<and>
     (case old of None \<Rightarrow> True | Some (k, us) \<Rightarrow> k \<in> {CHR ''K'', CHR ''O''} \<and> tuple_ok us)"
| "message_ok (MDelete r k vs) \<longleftrightarrow> oid_ok r \<and> k \<in> {CHR ''K'', CHR ''O''} \<and> tuple_ok vs"

section \<open>Their meaning\<close>

text \<open>
  The marker of an unchanged value stands for the value that its column has in the row so far,
  \<open>kept\<close> of the column's name.
\<close>

definition value_meaning ::
  "(string \<Rightarrow> pyval res) \<Rightarrow> (string \<Rightarrow> pyval) \<Rightarrow> pg_column \<Rightarrow> pg_value \<Rightarrow> pyval res" where
  "value_meaning to_float kept c v =
     (case v of
        VNull \<Rightarrow> Inr PNone
      | VUnchanged \<Rightarrow> Inr (kept (pl_name c))
      | VText s \<Rightarrow> convert_value to_float s (pl_type_oid c))"

text \<open>The values of a tuple belong to the columns of the relation, in order; none may be left over.\<close>

definition tuple_meaning ::
  "(string \<Rightarrow> pyval res) \<Rightarrow> (string \<Rightarrow> pyval) \<Rightarrow> pg_relation \<Rightarrow> pg_value list \<Rightarrow> row_data res" where
  "tuple_meaning to_float kept r vs =
     bind_res (map_res (\<lambda>(c, v). bind_res (value_meaning to_float kept c v) (\<lambda>x. Inr (pl_name c, x)))
         (zip (pg_columns r) vs))
       (\<lambda>kvs. if length (pg_columns r) < length vs then Inl (AppError ''IndexError'' ''tuple index out of range'')
               else Inr (foldl (\<lambda>d kv. dict_set d (fst kv) (snd kv)) [] kvs))"

text \<open>What a message does to the table that the reader follows.\<close>

datatype pg_effect = NoEffect | RowChange cdc_change | TableEmptied

definition for_source :: "pg_parser \<Rightarrow> int \<Rightarrow> (pg_relation \<Rightarrow> cdc_change res) \<Rightarrow> pg_effect res" where
  "for_source p r f =
     (case relation_for p r of None \<Rightarrow> Inr NoEffect | Some rel \<Rightarrow> bind_res (f rel) (\<lambda>c. Inr (RowChange c)))"

fun message_meaning ::
  "(string \<Rightarrow> pyval res) \<Rightarrow> (string \<Rightarrow> pyval) \<Rightarrow> pg_parser \<Rightarrow> string \<Rightarrow> string option \<Rightarrow> pg_message \<Rightarrow>
   pg_effect res \<times> pg_parser" where
  "message_meaning to_float kept p lsn xid (MRelation r) =
     (Inr NoEffect, p\<lparr>gp_relations := dict_set (gp_relations p) (pg_relation_id r) r\<rparr>)"
| "message_meaning to_float kept p lsn xid (MInsert r vs) =
     (for_source p r (\<lambda>rel. bind_res (tuple_meaning to_float kept rel vs) (\<lambda>d.
        Inr (pg_change CdcInsert rel lsn xid None d))), p)"
| "message_meaning to_float kept p lsn xid (MUpdate r old vs) =
     (for_source p r (\<lambda>rel.
        bind_res (case old of None \<Rightarrow> Inr None
                  | Some (_, us) \<Rightarrow> bind_res (tuple_meaning to_float kept rel us) (\<lambda>d. Inr (Some d))) (\<lambda>before.
        bind_res (tuple_meaning to_float kept rel vs) (\<lambda>d. Inr (pg_change CdcUpdate rel lsn xid before d)))), p)"
| "message_meaning to_float kept p lsn xid (MDelete r k vs) =
     (for_source p r (\<lambda>rel. bind_res (tuple_meaning to_float kept rel vs) (\<lambda>d.
        Inr (pg_change CdcDelete rel lsn xid None d))), p)"
| "message_meaning to_float kept p lsn xid (MTruncate options rels) =
     (Inr (if list_ex (\<lambda>r. relation_for p r \<noteq> None) rels then TableEmptied else NoEffect), p)"
| "message_meaning to_float kept p lsn xid m = (Inr NoEffect, p)"

text \<open>The row change of an effect, if it is one; and the messages that send all their values.\<close>

fun effect_change :: "pg_effect \<Rightarrow> cdc_change option" where
  "effect_change (RowChange c) = Some c"
| "effect_change _ = None"

definition row_changes :: "pg_effect res \<times> pg_parser \<Rightarrow> cdc_change option res \<times> pg_parser" where
  "row_changes r = (case r of (Inl e, p) \<Rightarrow> (Inl e, p) | (Inr eff, p) \<Rightarrow> (Inr (effect_change eff), p))"

fun all_sent :: "pg_message \<Rightarrow> bool" where
  "all_sent (MInsert r vs) \<longleftrightarrow> VUnchanged \<notin> set vs"
| "all_sent (MUpdate r old vs) \<longleftrightarrow> VUnchanged \<notin> set vs \<and>
     (case old of None \<Rightarrow> True | Some (k, us) \<Rightarrow> VUnchanged \<notin> set us)"
| "all_sent (MDelete r k vs) \<longleftrightarrow> VUnchanged \<notin> set vs"
| "all_sent _ \<longleftrightarrow> True"

lemma row_changes_simps [simp]:
  "row_changes (Inl e, p) = (Inl e, p)" "row_changes (Inr eff, p) = (Inr (effect_change eff), p)"
  by (simp_all add: row_changes_def)

lemma row_changes_source [simp]:
  "row_changes (for_source p r f, q) =
    (case relation_for p r of None \<Rightarrow> Inr None | Some rel \<Rightarrow> bind_res (f rel) (\<lambda>c. Inr (Some c)), q)"
  by (auto simp: for_source_def bind_res_def row_changes_def split: option.split sum.split)

text \<open>The values that are sent mean the same whatever the row was.\<close>

lemma tuple_meaning_sent:
  assumes "VUnchanged \<notin> set vs"
  shows "tuple_meaning to_float kept r vs = tuple_meaning to_float kept' r vs"
proof -
  have "value_meaning to_float kept c v = value_meaning to_float kept' c v" if "(c, v) \<in> set (zip (pg_columns r) vs)" for c v
    using that assms by (auto simp: value_meaning_def dest: set_zip_rightD split: pg_value.split)
  then have "map_res (\<lambda>(c, v). bind_res (value_meaning to_float kept c v) (\<lambda>x. Inr (pl_name c, x))) (zip (pg_columns r) vs) =
      map_res (\<lambda>(c, v). bind_res (value_meaning to_float kept' c v) (\<lambda>x. Inr (pl_name c, x))) (zip (pg_columns r) vs)"
    by (intro map_res_cong) auto
  then show ?thesis by (simp only: tuple_meaning_def)
qed

lemma message_meaning_sent:
  assumes "all_sent m"
  shows "message_meaning to_float kept p lsn xid m = message_meaning to_float kept' p lsn xid m"
  using assms
  by (cases m) (auto simp: tuple_meaning_sent [where kept = kept and kept' = kept'] split: option.splits)

section \<open>The parser implements the meaning\<close>

lemma read_char_byte [simp]: "read_char (char_byte c # rest) = Inr (c, rest)"
  using nat_of_char_less_256 [of c]
  by (simp add: read_char_def read_uint8_def char_byte_def unsigned_of_nat take_bit_nat_eq_self)

lemma read_flags [simp]: "0 \<le> n \<Longrightarrow> n < 256 \<Longrightarrow> read_uint8 (word_of_int n # rest) = Inr (n, rest)"
  by (simp add: read_uint8_def uint_word_of_int)

lemma read_cstring_bytes [simp]:
  assumes "no_nul s"
  shows "read_cstring (cstring_bytes s @ rest) = Inr (s, rest)"
proof -
  have "0 \<notin> set (utf8_encode s)" using assms utf8_no_nul by (simp add: no_nul_def)
  then have n: "\<forall>b\<in>set (utf8_encode s). b \<noteq> 0" by metis
  then have "takeWhile (\<lambda>b. b \<noteq> 0) (utf8_encode s @ 0 # rest) = utf8_encode s"
    "dropWhile (\<lambda>b. b \<noteq> 0) (utf8_encode s @ 0 # rest) = 0 # rest"
    by (simp_all add: takeWhile_append2 dropWhile_append2)
  then show ?thesis by (simp add: read_cstring_def cstring_bytes_def)
qed

lemma read_columns_bytes:
  "list_all column_ok cs \<Longrightarrow> read_columns (length cs) (concat (map column_bytes cs) @ rest) = Inr (cs, rest)"
proof (induction cs)
  case (Cons c cs)
  then show ?case by (simp add: column_bytes_def column_ok_def oid_ok_def del: be_bytes.simps)
qed simp

lemma parse_relation_bytes:
  assumes "message_ok (MRelation r)"
  shows "parse_relation (be_bytes 4 (pg_relation_id r) @ cstring_bytes (pg_namespace r) @ cstring_bytes (pg_name r) @
    char_byte (pg_replica_identity r) # be_bytes 2 (int (length (pg_columns r))) @ concat (map column_bytes (pg_columns r)))
    = Inr r"
  using assms read_columns_bytes [of "pg_columns r" "[]"]
  by (simp add: parse_relation_def oid_ok_def del: be_bytes.simps)

lemma read_value_bytes:
  "value_ok v \<Longrightarrow> read_value to_float c (value_bytes v @ rest) =
    bind_res (value_meaning to_float (\<lambda>_. PNone) c v) (\<lambda>x. Inr (x, rest))"
  by (cases v) (simp_all add: read_value_def value_meaning_def read_bytes_def Let_def bind_res_assoc del: be_bytes.simps)

lemma read_values_bytes:
  assumes "list_all value_ok vs"
  shows "read_values to_float cols (length vs) d (concat (map value_bytes vs) @ rest) =
    bind_res (map_res (\<lambda>(c, v). bind_res (value_meaning to_float (\<lambda>_. PNone) c v) (\<lambda>x. Inr (pl_name c, x))) (zip cols vs))
      (\<lambda>kvs. if length cols < length vs then Inl (AppError ''IndexError'' ''tuple index out of range'')
              else Inr (foldl (\<lambda>d kv. dict_set d (fst kv) (snd kv)) d kvs, rest))"
  using assms
proof (induction vs arbitrary: cols d)
  case Nil
  then show ?case by simp
next
  case (Cons v vs)
  show ?case
  proof (cases cols)
    case Nil
    then show ?thesis by simp
  next
    case (Cons c cs)
    then show ?thesis
      using Cons.prems Cons.IH [of cs] read_value_bytes [of v to_float c]
      by (cases "value_meaning to_float (\<lambda>_. PNone) c v") (simp_all add: bind_res_assoc cong: if_cong)
  qed
qed

lemma read_tuple_bytes:
  assumes "tuple_ok vs"
  shows "read_tuple to_float r (tuple_bytes vs @ rest) = bind_res (tuple_meaning to_float (\<lambda>_. PNone) r vs) (\<lambda>d. Inr (d, rest))"
proof -
  have "read_tuple to_float r (tuple_bytes vs @ rest) =
      read_values to_float (pg_columns r) (length vs) [] (concat (map value_bytes vs) @ rest)"
    using assms by (simp add: read_tuple_def tuple_bytes_def tuple_ok_def del: be_bytes.simps)
  then show ?thesis using assms
    by (simp add: read_values_bytes tuple_meaning_def tuple_ok_def bind_res_assoc if_distrib [of "\<lambda>r. bind_res r _"]
        cong: if_cong)
qed

lemmas read_tuple_end = read_tuple_bytes [where rest = "[]", simplified]

lemma parse_message_bytes:
  assumes "message_ok m"
  shows "pgoutput_parse to_float p lsn xid (message_bytes m) =
    row_changes (message_meaning to_float (\<lambda>_. PNone) p lsn xid m)"
proof (cases m)
  case (MRelation r)
  then show ?thesis using assms by (simp add: pgoutput_parse_def parse_relation_bytes del: be_bytes.simps)
next
  case (MInsert r vs)
  then show ?thesis using assms
    by (simp add: pgoutput_parse_def parse_insert_def oid_ok_def read_tuple_end bind_res_assoc
        del: be_bytes.simps split: option.split)
next
  case (MUpdate r old vs)
  show ?thesis
  proof (cases old)
    case None
    then show ?thesis using assms MUpdate
      by (simp add: pgoutput_parse_def parse_update_def oid_ok_def read_tuple_end bind_res_assoc
          del: be_bytes.simps split: option.split)
  next
    case (Some ku)
    obtain k us where ku: "ku = (k, us)" by (cases ku)
    then have "k \<in> {CHR ''K'', CHR ''O''}" "tuple_ok us" "tuple_ok vs" "oid_ok r"
      using assms MUpdate Some by simp_all
    then show ?thesis using MUpdate Some ku
      by (simp add: pgoutput_parse_def parse_update_def oid_ok_def read_tuple_bytes read_tuple_end
          bind_res_assoc del: be_bytes.simps split: option.split)
  qed
next
  case (MDelete r k vs)
  then have "k \<in> {CHR ''K'', CHR ''O''}" "tuple_ok vs" "oid_ok r" using assms by simp_all
  then show ?thesis using MDelete
    by (auto simp: pgoutput_parse_def parse_delete_def oid_ok_def read_tuple_end bind_res_assoc
        simp del: be_bytes.simps split: option.split)
qed (simp_all add: pgoutput_parse_def)

lemma parse_sent_message:
  assumes "message_ok m" "all_sent m"
  shows "pgoutput_parse to_float p lsn xid (message_bytes m) = row_changes (message_meaning to_float kept p lsn xid m)"
  using parse_message_bytes [OF assms(1)] message_meaning_sent [OF assms(2)] by metis

text \<open>
  C29: The parser gives the row changes that \<open>pgoutput\<close> messages stand for. For every
  well-formed message of the protocol (begin, commit, origin, type, truncate, relation, insert,
  update with or without an old tuple, delete) that sends all its values, that is without the
  marker for an unchanged large value, the bytes are parsed into the row change the message
  stands for, if it is one: the row is read through the last relation registered under its id,
  relations of other tables and the messages that frame a transaction give none, and a value
  that its column cannot convert or a tuple longer than its relation raises. A truncation is not
  a row change and gives none either, also when it empties the table that is followed.
\<close>

theorem pgoutput_parses_messages:
  assumes "message_ok m" "all_sent m"
  shows "pgoutput_parse to_float p lsn xid (message_bytes m) = row_changes (message_meaning to_float kept p lsn xid m)"
  using assms by (rule parse_sent_message)

definition wire_example_relation :: pg_relation where
  "wire_example_relation = \<lparr>pg_relation_id = 16385, pg_namespace = ''public'', pg_name = ''t'',
     pg_replica_identity = CHR ''d'', pg_columns =
       [\<lparr>pl_name = ''id'', pl_type_oid = 23, pl_type_modifier = -1, pl_flags = 1\<rparr>,
        \<lparr>pl_name = ''note'', pl_type_oid = 25, pl_type_modifier = -1, pl_flags = 0\<rparr>]\<rparr>"

definition wire_example_parser :: pg_parser where
  "wire_example_parser = (empty_parser ''public'' ''t'')\<lparr>gp_relations := [(16385, wire_example_relation)]\<rparr>"

definition no_float :: "string \<Rightarrow> pyval res" where
  "no_float s = Inl (ValueError s)"

text \<open>The column \<open>note\<close> of the row held \<open>long\<close> so far.\<close>

definition kept_note :: "string \<Rightarrow> pyval" where
  "kept_note c = (if c = ''note'' then PStr ''long'' else PNone)"

theorem pgoutput_parses_messages_witness:
  "fst (pgoutput_parse no_float wire_example_parser ''0/1'' (Some ''7'')
      (message_bytes (MUpdate 16385 None [VText ''42'', VText ''hi'']))) =
    Inr (Some (pg_change CdcUpdate wire_example_relation ''0/1'' (Some ''7'') None
      [(''id'', PInt 42), (''note'', PStr ''hi'')]))"
proof -
  have "message_ok (MUpdate 16385 None [VText ''42'', VText ''hi''])" "all_sent (MUpdate 16385 None [VText ''42'', VText ''hi''])"
    by (simp_all add: oid_ok_def tuple_ok_def utf8_encode_def utf8_char_def)
  note run = pgoutput_parses_messages [OF this, of no_float wire_example_parser "''0/1''" "Some ''7''" kept_note]
  have "fst (row_changes (message_meaning no_float kept_note wire_example_parser ''0/1'' (Some ''7'')
      (MUpdate 16385 None [VText ''42'', VText ''hi'']))) =
    Inr (Some (pg_change CdcUpdate wire_example_relation ''0/1'' (Some ''7'') None
      [(''id'', PInt 42), (''note'', PStr ''hi'')]))"
    by code_simp
  then show ?thesis by (simp only: run)
qed

section \<open>Where the parser leaves the protocol\<close>

text \<open>
  An update that leaves a large column unchanged is read as one that sets it to null:
  PostgreSQL sends the marker \<open>u\<close> for a TOASTed value that the update did not touch, and the
  parser reads every message as if the row had held nulls so far.
\<close>

theorem pgoutput_unchanged_read_as_null:
  assumes "message_ok m"
  shows "pgoutput_parse to_float p lsn xid (message_bytes m) =
    row_changes (message_meaning to_float (\<lambda>_. PNone) p lsn xid m)"
  using assms by (rule parse_message_bytes)

text \<open>So the row above loses its note, though the update does not touch it.\<close>

theorem pgoutput_unchanged_read_as_null_witness:
  "fst (pgoutput_parse no_float wire_example_parser ''0/1'' None
      (message_bytes (MUpdate 16385 None [VText ''42'', VUnchanged]))) =
    Inr (Some (pg_change CdcUpdate wire_example_relation ''0/1'' None None
      [(''id'', PInt 42), (''note'', PNone)])) \<and>
   fst (row_changes (message_meaning no_float kept_note wire_example_parser ''0/1'' None
      (MUpdate 16385 None [VText ''42'', VUnchanged]))) =
    Inr (Some (pg_change CdcUpdate wire_example_relation ''0/1'' None None
      [(''id'', PInt 42), (''note'', PStr ''long'')]))"
proof
  have ok: "message_ok (MUpdate 16385 None [VText ''42'', VUnchanged])"
    by (simp add: oid_ok_def tuple_ok_def utf8_encode_def utf8_char_def)
  have "fst (row_changes (message_meaning no_float (\<lambda>_. PNone) wire_example_parser ''0/1'' None
      (MUpdate 16385 None [VText ''42'', VUnchanged]))) =
    Inr (Some (pg_change CdcUpdate wire_example_relation ''0/1'' None None
      [(''id'', PInt 42), (''note'', PNone)]))"
    by code_simp
  then show "fst (pgoutput_parse no_float wire_example_parser ''0/1'' None
      (message_bytes (MUpdate 16385 None [VText ''42'', VUnchanged]))) =
    Inr (Some (pg_change CdcUpdate wire_example_relation ''0/1'' None None
      [(''id'', PInt 42), (''note'', PNone)]))"
    by (simp only: pgoutput_unchanged_read_as_null [OF ok])
qed code_simp

text \<open>A truncation of the followed table empties it at the source; the parser drops the message.\<close>

theorem pgoutput_truncate_dropped:
  assumes "message_ok (MTruncate options rels)" "r \<in> set rels" "relation_for p r \<noteq> None"
  shows "fst (message_meaning to_float kept p lsn xid (MTruncate options rels)) = Inr TableEmptied \<and>
    pgoutput_parse to_float p lsn xid (message_bytes (MTruncate options rels)) = (Inr None, p)"
  using assms parse_message_bytes [OF assms(1)] by (auto simp: list_ex_iff simp del: message_bytes.simps)

theorem pgoutput_truncate_dropped_witness:
  "pgoutput_parse no_float wire_example_parser ''0/1'' None (message_bytes (MTruncate 0 [16385])) =
    (Inr None, wire_example_parser)"
proof -
  have ok: "message_ok (MTruncate 0 [16385])" by (simp add: oid_ok_def)
  have "relation_for wire_example_parser 16385 \<noteq> None" by code_simp
  from pgoutput_truncate_dropped [OF ok _ this] show ?thesis by simp
qed

end
