(* ===== verification/Cdc_Stream.thy ===== *)
theory Cdc_Stream
  imports Cdc_Reader Cdc_Wire
begin

text \<open>
  A replication stream read in batches: however the messages are cut into batches, the reader
  delivers the row changes that the whole stream stands for.
\<close>

section \<open>The meaning of a stream\<close>

type_synonym logged_message = "string \<times> string option \<times> pg_message"

text \<open>
  The effects of the messages, in order. \<open>kept\<close> gives, for the position of a message, the values
  that the row it changes had so far.
\<close>

fun stream_meaning ::
  "(string \<Rightarrow> pyval res) \<Rightarrow> (string \<Rightarrow> string \<Rightarrow> pyval) \<Rightarrow> pg_parser \<Rightarrow> logged_message list \<Rightarrow>
   pg_effect list res \<times> pg_parser" where
  "stream_meaning to_float kept p [] = (Inr [], p)"
| "stream_meaning to_float kept p ((lsn, xid, m) # ms) =
     (case message_meaning to_float (kept lsn) p lsn xid m of
        (Inl e, q) \<Rightarrow> (Inl e, q)
      | (Inr eff, q) \<Rightarrow>
          (case stream_meaning to_float kept q ms of
             (Inl e, r) \<Rightarrow> (Inl e, r)
           | (Inr effs, r) \<Rightarrow> (Inr (eff # effs), r)))"

definition all_row_changes :: "pg_effect list res \<times> pg_parser \<Rightarrow> cdc_change list res \<times> pg_parser" where
  "all_row_changes r =
     (case r of (Inl e, p) \<Rightarrow> (Inl e, p) | (Inr effs, p) \<Rightarrow> (Inr (List.map_filter effect_change effs), p))"

text \<open>The messages of a stream: well-formed, and with all their values.\<close>

definition stream_ok :: "logged_message list \<Rightarrow> bool" where
  "stream_ok ms \<longleftrightarrow> list_all (\<lambda>(_, _, m). message_ok m \<and> all_sent m) ms"

definition slot_row_of :: "logged_message \<Rightarrow> slot_row" where
  "slot_row_of x = (case x of (lsn, xid, m) \<Rightarrow> \<lparr>sr_lsn = lsn, sr_xid = xid, sr_data = Some (message_bytes m)\<rparr>)"

text \<open>Batches one after another, with one reader; an exception ends the reading.\<close>

fun read_batches ::
  "(string \<Rightarrow> pyval res) \<Rightarrow> reader_config \<Rightarrow> pg_parser \<Rightarrow> slot_row list list \<Rightarrow> cdc_change list res \<times> pg_parser" where
  "read_batches to_float cfg p [] = (Inr [], p)"
| "read_batches to_float cfg p (rows # rest) =
     (case read_batch to_float cfg p rows [] of
        (Inl e, q) \<Rightarrow> (Inl e, q)
      | (Inr b, q) \<Rightarrow>
          (case read_batches to_float cfg q rest of
             (Inl e, r) \<Rightarrow> (Inl e, r)
           | (Inr cs, r) \<Rightarrow> (Inr (cb_changes b @ cs), r)))"

section \<open>Reading implements the meaning\<close>

text \<open>Changes put before those that follow.\<close>

definition after_changes :: "cdc_change list \<Rightarrow> cdc_change list res \<times> 'p \<Rightarrow> cdc_change list res \<times> 'p" where
  "after_changes cs r = (case r of (Inl e, q) \<Rightarrow> (Inl e, q) | (Inr ds, q) \<Rightarrow> (Inr (cs @ ds), q))"

lemma after_changes_simps [simp]:
  "after_changes cs (Inl e, q) = (Inl e, q)" "after_changes cs (Inr ds, q) = (Inr (cs @ ds), q)"
  by (simp_all add: after_changes_def)

lemma after_changes_nil [simp]: "after_changes [] r = r"
  by (auto simp: after_changes_def split: prod.split sum.split)

lemma after_changes_append [simp]: "after_changes cs (after_changes ds r) = after_changes (cs @ ds) r"
  by (auto simp: after_changes_def split: prod.split sum.split)

definition batch_changes :: "cdc_batch res \<times> 'p \<Rightarrow> cdc_change list res \<times> 'p" where
  "batch_changes r = (case r of (Inl e, q) \<Rightarrow> (Inl e, q) | (Inr b, q) \<Rightarrow> (Inr (cb_changes b), q))"

lemma batch_changes_simps [simp]:
  "batch_changes (Inl e, q) = (Inl e, q)" "batch_changes (Inr b, q) = (Inr (cb_changes b), q)"
  by (simp_all add: batch_changes_def)

definition change_list :: "cdc_change option \<Rightarrow> cdc_change list" where
  "change_list c = (case c of None \<Rightarrow> [] | Some x \<Rightarrow> [x])"

lemma change_list_simps [simp]: "change_list None = []" "change_list (Some x) = [x]"
  by (simp_all add: change_list_def)

lemma all_row_changes_simps [simp]:
  "all_row_changes (Inl e, p) = (Inl e, p)"
  "all_row_changes (Inr effs, p) = (Inr (List.map_filter effect_change effs), p)"
  by (simp_all add: all_row_changes_def)

lemma stream_changes_Cons:
  "all_row_changes (stream_meaning to_float kept p ((lsn, xid, m) # ms)) =
    (case row_changes (message_meaning to_float (kept lsn) p lsn xid m) of
       (Inl e, q) \<Rightarrow> (Inl e, q)
     | (Inr c, q) \<Rightarrow> after_changes (change_list c) (all_row_changes (stream_meaning to_float kept q ms)))"
  by (auto simp: row_changes_def all_row_changes_def map_filter_simps change_list_def
      split: prod.split sum.split option.split)

lemma read_rows_stream:
  assumes "stream_ok ms"
  shows "batch_changes (read_rows to_float p changes high (map slot_row_of ms)) =
    after_changes changes (all_row_changes (stream_meaning to_float kept p ms))"
  using assms
proof (induction ms arbitrary: p changes high)
  case Nil
  then show ?case by (simp add: map_filter_simps)
next
  case (Cons x ms)
  obtain lsn xid m where x: "x = (lsn, xid, m)" by (cases x)
  then have "pgoutput_parse to_float p lsn xid (message_bytes m) =
      row_changes (message_meaning to_float (kept lsn) p lsn xid m)"
    using Cons.prems by (intro parse_sent_message) (simp_all add: stream_ok_def)
  then show ?case using Cons x
    by (auto simp: slot_row_of_def stream_changes_Cons stream_ok_def simp del: stream_meaning.simps
        split: prod.split sum.split option.split)
qed

lemma stream_changes_append:
  "all_row_changes (stream_meaning to_float kept p (ms @ ns)) =
    (case all_row_changes (stream_meaning to_float kept p ms) of
       (Inl e, q) \<Rightarrow> (Inl e, q)
     | (Inr cs, q) \<Rightarrow> after_changes cs (all_row_changes (stream_meaning to_float kept q ns)))"
proof (induction ms arbitrary: p)
  case (Cons x ms)
  obtain lsn xid m where x: "x = (lsn, xid, m)" by (cases x)
  show ?case unfolding x append_Cons stream_changes_Cons Cons.IH
    by (auto split: prod.split sum.split)
qed (simp add: map_filter_simps)

lemma read_batches_stream:
  assumes "is_pgoutput cfg" "list_all stream_ok mss"
  shows "read_batches to_float cfg p (map (map slot_row_of) mss) =
    all_row_changes (stream_meaning to_float kept p (concat mss))"
  using assms(2)
proof (induction mss arbitrary: p)
  case (Cons ms mss)
  have b: "batch_changes (read_batch to_float cfg p (map slot_row_of ms) []) =
      all_row_changes (stream_meaning to_float kept p ms)"
    using Cons.prems assms(1) read_rows_stream [of ms to_float p "[]" None kept] by (simp add: read_batch_def read_pgoutput_batch_def)
  show ?case
    using Cons b by (auto simp: stream_changes_append after_changes_def batch_changes_def split: prod.splits sum.splits)
qed (simp add: map_filter_simps)

text \<open>
  C23: However the messages of a replication stream (begin, commit, origin, type, truncate,
  relation and row messages, all well-formed and with all values sent) are cut into batches,
  reading the batches one after another delivers the row changes that the stream stands for,
  each once and in order, with the relations announced in one batch kept for the next; an
  exception of a message ends the reading with the same exception. What a truncation does to the
  table is not a row change and is not delivered.
\<close>

theorem cdc_stream_delivered:
  assumes "is_pgoutput cfg" "list_all stream_ok mss"
  shows "read_batches to_float cfg p (map (map slot_row_of) mss) =
    all_row_changes (stream_meaning to_float kept p (concat mss))"
  using assms by (rule read_batches_stream)

definition stream_example_config :: reader_config where
  "stream_example_config = \<lparr>rg_source_schema = ''public'', rg_source_table = ''t'', rg_slot_name = ''s'',
     rg_plugin = ''pgoutput'', rg_publication_name = None, rg_drop_existing_slot = False, rg_create_slot = True,
     rg_create_publication = True, rg_proto_version = 1\<rparr>"

text \<open>Two transactions, framed and cut within the first.\<close>

definition stream_example :: "logged_message list list" where
  "stream_example =
     [[(''0/1'', Some ''7'', MBegin 5 0 7), (''0/1'', Some ''7'', MRelation wire_example_relation)],
      [(''0/2'', Some ''7'', MInsert 16385 [VText ''1'', VText ''a'']), (''0/3'', Some ''7'', MInsert 99 []),
       (''0/4'', Some ''7'', MCommit 0 4 5 0)],
      [(''0/6'', Some ''8'', MBegin 8 0 8), (''0/6'', Some ''8'', MTruncate 0 [99]),
       (''0/7'', Some ''8'', MDelete 16385 (CHR ''K'') [VText ''1'', VNull]), (''0/8'', Some ''8'', MCommit 0 7 8 0)]]"

theorem cdc_stream_delivered_witness:
  "fst (read_batches no_float stream_example_config (empty_parser ''public'' ''t'')
      (map (map slot_row_of) stream_example)) =
    Inr [pg_change CdcInsert wire_example_relation ''0/2'' (Some ''7'') None [(''id'', PInt 1), (''note'', PStr ''a'')],
         pg_change CdcDelete wire_example_relation ''0/7'' (Some ''8'') None [(''id'', PInt 1), (''note'', PNone)]]"
proof -
  have "no_nul ''public''" "no_nul ''t''" "no_nul ''id''" "no_nul ''note''" by code_simp+
  then have "list_all stream_ok stream_example"
    by (simp add: stream_example_def stream_ok_def wire_example_relation_def oid_ok_def long_ok_def tuple_ok_def
        column_ok_def utf8_encode_def utf8_char_def)
  moreover have "is_pgoutput stream_example_config" by code_simp
  moreover have "fst (all_row_changes (stream_meaning no_float (\<lambda>_. kept_note) (empty_parser ''public'' ''t'') (concat stream_example))) =
    Inr [pg_change CdcInsert wire_example_relation ''0/2'' (Some ''7'') None [(''id'', PInt 1), (''note'', PStr ''a'')],
         pg_change CdcDelete wire_example_relation ''0/7'' (Some ''8'') None [(''id'', PInt 1), (''note'', PNone)]]"
    by code_simp
  ultimately show ?thesis by (simp only: cdc_stream_delivered [where kept = "\<lambda>_. kept_note"])
qed

end
