(* ===== verification/Cdc_Text.thy ===== *)
theory Cdc_Text
  imports Cdc_Test_Decoding
begin

text \<open>
  The tuples of \<open>test_decoding\<close> as PostgreSQL prints them: the columns in order, separated by
  blanks, each with its name, its type in brackets and its value, which is quoted unless it is
  a number, a truth value or a bit string. The parser reads them back column by column, but
  only as far as the first column of an array type.
\<close>

section \<open>Printed tuples\<close>

record text_column =
  tc_name :: string
  tc_type :: string
  tc_quoted :: bool
  tc_text :: string

definition escape_char :: "char \<Rightarrow> string" where
  "escape_char c = (if c = sq then [sq, sq] else [c])"

definition print_value :: "text_column \<Rightarrow> string" where
  "print_value c = (if tc_quoted c then [sq] @ concat (map escape_char (tc_text c)) @ [sq] else tc_text c)"

definition print_column :: "text_column \<Rightarrow> string" where
  "print_column c = tc_name c @ ''['' @ tc_type c @ '']:'' @ print_value c"

definition print_tuple :: "text_column list \<Rightarrow> string" where
  "print_tuple cs = concat (map (\<lambda>c. '' '' @ print_column c) cs)"

definition name_ok :: "string \<Rightarrow> bool" where
  "name_ok s \<longleftrightarrow> s \<noteq> [] \<and> \<not> py_is_space (hd s) \<and> CHR ''['' \<notin> set s"

definition text_column_ok :: "text_column \<Rightarrow> bool" where
  "text_column_ok c \<longleftrightarrow> name_ok (tc_name c) \<and> CHR '']'' \<notin> set (tc_type c) \<and>
     (tc_quoted c \<or> (list_all (\<lambda>x. \<not> py_is_space x) (tc_text c) \<and> take 1 (tc_text c) \<noteq> [sq]))"

fun text_meaning :: "(string \<Rightarrow> pyval res) \<Rightarrow> row_data \<Rightarrow> text_column list \<Rightarrow> row_data res" where
  "text_meaning to_float acc [] = Inr acc"
| "text_meaning to_float acc (c # cs) =
     bind_res (convert_text to_float (tc_text c)) (\<lambda>v.
       text_meaning to_float (dict_set acc (unquote_identifier (tc_name c)) v) cs)"

section \<open>Reading one column\<close>

lemma read_quoted_other:
  "c \<noteq> sq \<Longrightarrow> xs \<noteq> [] \<Longrightarrow> read_quoted (c # xs) = (let (s, rest) = read_quoted xs in (c # s, rest))"
  by (cases xs) simp_all

lemma read_quoted_escaped:
  assumes "take 1 rest \<noteq> [sq]"
  shows "read_quoted (concat (map escape_char s) @ sq # rest) = (s, rest)"
proof (induction s)
  case Nil
  then show ?case using assms by (cases rest) simp_all
next
  case (Cons c s)
  show ?case
  proof (cases "c = sq")
    case True
    then have "concat (map escape_char (c # s)) = sq # sq # concat (map escape_char s)" by (simp add: escape_char_def)
    then show ?thesis using Cons True by simp
  next
    case False
    then have "concat (map escape_char (c # s)) = c # concat (map escape_char s)" by (simp add: escape_char_def)
    then show ?thesis using Cons False read_quoted_other [of c "concat (map escape_char s) @ sq # rest"] by simp
  qed
qed

text \<open>A tuple is at its end, or a blank follows.\<close>

definition at_blank :: "string \<Rightarrow> bool" where
  "at_blank rest \<longleftrightarrow> rest = [] \<or> hd rest = CHR '' ''"

lemma blank_is_space [simp]: "py_is_space (CHR '' '')"
  by (simp add: py_is_space_def)

lemma at_blank_print [simp]: "at_blank (print_tuple cs)"
  by (cases cs) (simp_all add: at_blank_def print_tuple_def)

lemma quote_neq_blank [simp]: "sq \<noteq> CHR '' ''" "CHR '' '' \<noteq> sq"
  by code_simp+

lemma read_text_value_printed:
  assumes "text_column_ok c" "at_blank rest"
  shows "read_text_value (print_value c @ rest) = (tc_text c, rest)"
proof (cases "tc_quoted c")
  case True
  have "take 1 rest \<noteq> [sq]" using assms(2) by (cases rest) (auto simp: at_blank_def)
  then show ?thesis using True read_quoted_escaped by (simp add: read_text_value_def print_value_def)
next
  case False
  then have ok: "list_all (\<lambda>x. \<not> py_is_space x) (tc_text c)" "take 1 (tc_text c) \<noteq> [sq]"
    using assms(1) by (simp_all add: text_column_ok_def)
  have "take 1 (tc_text c @ rest) \<noteq> [sq]"
    using ok(2) assms(2) by (cases "tc_text c"; cases rest) (auto simp: at_blank_def)
  moreover have "takeWhile (\<lambda>x. \<not> py_is_space x) (tc_text c @ rest) = tc_text c"
    "dropWhile (\<lambda>x. \<not> py_is_space x) (tc_text c @ rest) = rest"
    using ok(1) assms(2) by (cases rest; auto simp: list_all_iff at_blank_def takeWhile_append2 dropWhile_append2)+
  ultimately show ?thesis using False by (simp add: read_text_value_def print_value_def)
qed

lemma skip_blank:
  assumes "name_ok name"
  shows "dropWhile py_is_space ('' '' @ name @ rest) = name @ rest"
  using assms by (cases name) (simp_all add: name_ok_def)

lemma until_bracket:
  assumes "b \<notin> set s"
  shows "takeWhile (\<lambda>c. c \<noteq> b) (s @ b # rest) = s" "dropWhile (\<lambda>c. c \<noteq> b) (s @ b # rest) = b # rest"
proof -
  have "takeWhile (\<lambda>c. c \<noteq> b) (s @ b # rest) = s \<and> dropWhile (\<lambda>c. c \<noteq> b) (s @ b # rest) = b # rest"
    using assms by (induction s) auto
  then show "takeWhile (\<lambda>c. c \<noteq> b) (s @ b # rest) = s" "dropWhile (\<lambda>c. c \<noteq> b) (s @ b # rest) = b # rest"
    by blast+
qed

lemma next_column_printed:
  assumes "text_column_ok c" "at_blank rest"
  shows "next_column ('' '' @ print_column c @ rest) = Some (tc_name c, tc_text c, rest)"
proof -
  have n: "name_ok (tc_name c)" "CHR '']'' \<notin> set (tc_type c)" using assms(1) by (simp_all add: text_column_ok_def)
  have s: "dropWhile py_is_space ('' '' @ print_column c @ rest) =
      tc_name c @ CHR ''['' # tc_type c @ CHR '']'' # CHR '':'' # print_value c @ rest"
    using skip_blank [OF n(1)] by (simp add: print_column_def del: dropWhile.simps)
  have b: "CHR ''['' \<notin> set (tc_name c)" using n(1) by (simp add: name_ok_def)
  show ?thesis
    unfolding next_column_def s Let_def until_bracket [OF b]
    using read_text_value_printed [OF assms] by (simp add: until_bracket [OF n(2)])
qed

lemma next_column_array:
  assumes "name_ok name" "CHR '']'' \<notin> set t"
  shows "next_column ('' '' @ name @ ''['' @ t @ ''[]]:'' @ rest) = None"
proof -
  have s: "dropWhile py_is_space ('' '' @ name @ ''['' @ t @ ''[]]:'' @ rest) =
      name @ CHR ''['' # (t @ ''['') @ CHR '']'' # CHR '']'' # CHR '':'' # rest"
    using skip_blank [OF assms(1)] by (simp del: dropWhile.simps)
  have b: "CHR ''['' \<notin> set name" using assms(1) by (simp add: name_ok_def)
  have t: "CHR '']'' \<notin> set (t @ ''['')" using assms(2) by simp
  show ?thesis unfolding next_column_def s Let_def until_bracket [OF b] by (simp only: list.sel drop_Suc_Cons drop_0
      One_nat_def until_bracket [OF t]) simp
qed

section \<open>Reading tuples\<close>

lemma parse_printed:
  assumes "list_all text_column_ok cs" "at_blank rest"
  shows "parse_text_tuple to_float acc (print_tuple cs @ rest) =
    bind_res (text_meaning to_float acc cs) (\<lambda>d. parse_text_tuple to_float d rest)"
  using assms(1)
proof (induction cs arbitrary: acc)
  case Nil
  then show ?case by (simp add: print_tuple_def)
next
  case (Cons c cs)
  have "at_blank (print_tuple cs @ rest)" using assms(2) by (cases cs) (auto simp: print_tuple_def at_blank_def)
  then have "next_column (print_tuple (c # cs) @ rest) = Some (tc_name c, tc_text c, print_tuple cs @ rest)"
    using next_column_printed [of c "print_tuple cs @ rest"] Cons.prems by (simp add: print_tuple_def)
  then show ?case using Cons
    by (subst parse_text_tuple.simps) (simp add: bind_res_assoc)
qed

lemma parse_end [simp]: "parse_text_tuple to_float acc [] = Inr acc"
  by (subst parse_text_tuple.simps) (simp add: next_column_def)

text \<open>
  A printed tuple is read back column by column: every column whose type name has no bracket
  is in the row under its name, with the value its text stands for, whatever blanks, brackets
  and quotes a quoted text contains.
\<close>

theorem text_tuple_reads_back:
  assumes "list_all text_column_ok cs"
  shows "parse_text_tuple to_float [] (print_tuple cs) = text_meaning to_float [] cs"
  using parse_printed [OF assms, of "[]" to_float "[]"] by (simp add: at_blank_def bind_res_def split: sum.split)

definition text_example_columns :: "text_column list" where
  "text_example_columns = [\<lparr>tc_name = ''id'', tc_type = ''integer'', tc_quoted = False, tc_text = ''7''\<rparr>,
     \<lparr>tc_name = ''note'', tc_type = ''text'', tc_quoted = True, tc_text = ''it'' @ [sq] @ ''s [a]: b''\<rparr>]"

theorem text_tuple_reads_back_witness:
  "parse_text_tuple (\<lambda>s. Inl (ValueError s)) [] (print_tuple text_example_columns) =
    Inr [(''id'', PInt 7), (''note'', PStr (''it'' @ [sq] @ ''s [a]: b''))]"
proof -
  have "list_all text_column_ok text_example_columns" by code_simp
  moreover have "text_meaning (\<lambda>s. Inl (ValueError s)) [] text_example_columns =
      Inr [(''id'', PInt 7), (''note'', PStr (''it'' @ [sq] @ ''s [a]: b''))]"
    by code_simp
  ultimately show ?thesis by (simp only: text_tuple_reads_back)
qed

text \<open>
  A column of an array type ends the reading: PostgreSQL prints its type with a pair of
  brackets inside the brackets, the parser stops at the inner one, and the change comes without
  that column and without every column after it, with no error.
\<close>

theorem text_tuple_array_cuts:
  assumes "list_all text_column_ok cs" "name_ok name" "CHR '']'' \<notin> set t"
  shows "parse_text_tuple to_float [] (print_tuple cs @ '' '' @ name @ ''['' @ t @ ''[]]:'' @ rest) =
    text_meaning to_float [] cs"
proof -
  let ?rest = "'' '' @ name @ ''['' @ t @ ''[]]:'' @ rest"
  have "parse_text_tuple to_float d ?rest = Inr d" for d
    by (subst parse_text_tuple.simps) (simp only: next_column_array [OF assms(2,3)] option.simps)
  then show ?thesis using parse_printed [OF assms(1), of ?rest to_float "[]"]
    by (simp add: at_blank_def bind_res_def del: append.simps split: sum.split)
qed

theorem text_tuple_array_cuts_witness:
  "parse_text_tuple (\<lambda>s. Inl (ValueError s)) [] (print_tuple text_example_columns @ '' '' @ ''tags'' @ ''['' @ ''text'' @ ''[]]:'' @
      ([sq] @ ''{x}'' @ [sq] @ '' paid[boolean]:true'')) =
    Inr [(''id'', PInt 7), (''note'', PStr (''it'' @ [sq] @ ''s [a]: b''))]"
proof -
  have "list_all text_column_ok text_example_columns" by code_simp
  moreover have "name_ok ''tags''" by code_simp
  moreover have "text_meaning (\<lambda>s. Inl (ValueError s)) [] text_example_columns =
      Inr [(''id'', PInt 7), (''note'', PStr (''it'' @ [sq] @ ''s [a]: b''))]"
    by code_simp
  ultimately show ?thesis using text_tuple_array_cuts [of text_example_columns "''tags''" "''text''"] by simp
qed

end
