(* ===== verification/Cdc_Event.thy ===== *)
theory Cdc_Event
  imports Cdc_Change
begin

text \<open>
  Streams and events of the change data capture runtime (\<open>src/dpone/runtime/cdc\<close>): the
  identity of a stream and of an event (\<open>identity.py\<close>), the classification of events that
  must not reach the sink (\<open>poison.py\<close>) and the documents of quarantined changes
  (\<open>poison_models.py\<close>). SHA-256 of the UTF-8 text is the parameter \<open>sha\<close>. Values that
  \<open>json.dumps\<close> only prints with \<open>default=str\<close> are outside the model.
\<close>

section \<open>Streams\<close>

record cdc_stream =
  cs_pipeline_name :: string
  cs_source :: string
  cs_sink :: string
  cs_backend :: cdc_backend
  cs_source_schema :: string
  cs_source_table :: string
  cs_target_dataset :: string
  cs_unique_key :: "string list"
  cs_strategy :: string

definition stream_token :: "string \<Rightarrow> string" where
  "stream_token s = py_replace_char (CHR '' '') ''_'' (py_replace_char (CHR ''-'') ''_'' (py_lower (py_strip s)))"

definition dataset_token :: "string \<Rightarrow> string" where
  "dataset_token s = py_replace_char (CHR ''.'') ''_'' (stream_token s)"

definition source_dataset :: "cdc_stream \<Rightarrow> string" where
  "source_dataset st = cs_source_schema st @ ''.'' @ cs_source_table st"

definition route_id :: "cdc_stream \<Rightarrow> string" where
  "route_id st = stream_token (cs_source st) @ ''_to_'' @ stream_token (cs_sink st) @ ''__'' @ stream_token (cs_strategy st)"

definition route_colon_id :: "cdc_stream \<Rightarrow> string" where
  "route_colon_id st = stream_token (cs_source st) @ '':'' @ stream_token (cs_sink st) @ '':'' @ stream_token (cs_strategy st)"

definition stream_id :: "cdc_stream \<Rightarrow> string" where
  "stream_id st = route_id st @ ''__'' @ dataset_token (source_dataset st) @ ''__'' @ dataset_token (cs_target_dataset st)"

definition stream_to_dict :: "cdc_stream \<Rightarrow> pyval" where
  "stream_to_dict st =
     PDict [(''pipeline_name'', PStr (cs_pipeline_name st)), (''source'', PStr (cs_source st)),
            (''sink'', PStr (cs_sink st)), (''strategy'', PStr (cs_strategy st)),
            (''backend'', PStr (backend_value (cs_backend st))), (''source_schema'', PStr (cs_source_schema st)),
            (''source_table'', PStr (cs_source_table st)), (''source_dataset'', PStr (source_dataset st)),
            (''target_dataset'', PStr (cs_target_dataset st)),
            (''unique_key'', PList (map PStr (cs_unique_key st))), (''route_id'', PStr (route_id st)),
            (''route_colon_id'', PStr (route_colon_id st)), (''stream_id'', PStr (stream_id st))]"

section \<open>Event identities\<close>

definition opt_str_val :: "string option \<Rightarrow> pyval" where
  "opt_str_val v = (case v of None \<Rightarrow> PNone | Some s \<Rightarrow> PStr s)"

definition before_or_empty :: "cdc_change \<Rightarrow> row_data" where
  "before_or_empty c = (case cc_before c of None \<Rightarrow> [] | Some d \<Rightarrow> d)"

definition row_payload :: "cdc_change \<Rightarrow> pyval" where
  "row_payload c = PDict [(''data'', PDict (cc_data c)), (''before'', PDict (before_or_empty c))]"

definition key_value :: "cdc_change \<Rightarrow> string \<Rightarrow> pyval" where
  "key_value c key = (if py_has (cc_data c) key then py_get (cc_data c) key else py_get (before_or_empty c) key)"

definition key_payload :: "cdc_change \<Rightarrow> string list \<Rightarrow> pyval" where
  "key_payload c unique_key =
     (if unique_key = [] then row_payload c
      else PDict (foldl (\<lambda>d key. dict_set d key (key_value c key)) [] unique_key))"

definition event_payload :: "cdc_change \<Rightarrow> string list \<Rightarrow> pyval" where
  "event_payload c unique_key =
     PDict [(''source_schema'', PStr (cc_source_schema c)), (''source_table'', PStr (cc_source_table c)),
            (''operation'', PStr (operation_value (cc_operation c))), (''position'', PStr (cc_position c)),
            (''transaction_id'', opt_str_val (cc_transaction_id c)), (''sequence'', cc_sequence c),
            (''key'', key_payload c unique_key), (''row'', row_payload c)]"

definition event_id :: "(string \<Rightarrow> string) \<Rightarrow> string list \<Rightarrow> cdc_change \<Rightarrow> string" where
  "event_id sha unique_key c = sha (json_canonical (event_payload c unique_key))"

record idempotency_report =
  ir_total_events :: nat
  ir_unique_events :: nat
  ir_duplicate_event_ids :: "string list"

definition duplicate_count :: "idempotency_report \<Rightarrow> int" where
  "duplicate_count r = int (ir_total_events r) - int (ir_unique_events r)"

definition idempotency_passed :: "idempotency_report \<Rightarrow> bool" where
  "idempotency_passed r = (ir_duplicate_event_ids r = [])"

fun idempotency_scan :: "string list \<Rightarrow> string list \<Rightarrow> string list \<Rightarrow> string list \<times> string list" where
  "idempotency_scan seen duplicates [] = (seen, duplicates)"
| "idempotency_scan seen duplicates (i # is) =
     idempotency_scan (List.insert i seen)
       (if i \<in> set seen \<and> i \<notin> set duplicates then duplicates @ [i] else duplicates) is"

definition idempotency_evaluate :: "(string \<Rightarrow> string) \<Rightarrow> string list \<Rightarrow> cdc_change list \<Rightarrow> idempotency_report" where
  "idempotency_evaluate sha unique_key changes =
     (case idempotency_scan [] [] (map (event_id sha unique_key) changes) of (seen, duplicates) \<Rightarrow>
        \<lparr>ir_total_events = length changes, ir_unique_events = length seen, ir_duplicate_event_ids = duplicates\<rparr>)"

section \<open>Poisoned events\<close>

definition supported_runtime_operations :: "cdc_operation list" where
  "supported_runtime_operations = [CdcInsert, CdcUpdate, CdcDelete]"

text \<open>\<open>change.data.get(key, before.get(key))\<close>.\<close>

definition key_missing :: "cdc_change \<Rightarrow> string \<Rightarrow> bool" where
  "key_missing c key = (py_get_default (cc_data c) key (py_get (before_or_empty c) key) = PNone)"

definition poison_reason :: "cdc_change \<Rightarrow> string \<Rightarrow> string list \<Rightarrow> string list \<Rightarrow> string option" where
  "poison_reason c i seen unique_key =
     (if i \<in> set seen then Some ''cdc_poison.duplicate_event''
      else if cc_operation c \<notin> set supported_runtime_operations then Some ''cdc_poison.unsupported_operation''
      else if unique_key = [] then Some ''cdc_poison.unique_key_missing''
      else if list_ex (key_missing c) unique_key then Some ''cdc_poison.unique_key_missing''
      else None)"

definition poison_summary :: "string \<Rightarrow> string" where
  "poison_summary reason =
     (if reason = ''cdc_poison.duplicate_event'' then ''Duplicate CDC event identity was quarantined''
      else if reason = ''cdc_poison.unique_key_missing'' then ''CDC event is missing the configured unique key''
      else if reason = ''cdc_poison.unsupported_operation'' then ''Unsupported CDC operation was quarantined''
      else ''CDC event was quarantined'')"

record poison_record =
  po_record_id :: string
  po_event_id :: string
  po_reason :: string
  po_action :: string
  po_replayable :: bool
  po_summary :: string
  po_change :: cdc_change

definition mk_poison_record :: "cdc_stream \<Rightarrow> cdc_change \<Rightarrow> string \<Rightarrow> string \<Rightarrow> nat \<Rightarrow> poison_record" where
  "mk_poison_record st c i reason index =
     \<lparr>po_record_id = stream_id st @ '':'' @ cc_position c @ '':'' @ py_str_int (int index), po_event_id = i,
      po_reason = reason, po_action = ''quarantine'', po_replayable = True, po_summary = poison_summary reason,
      po_change = c\<rparr>"

text \<open>The loop of \<open>classify\<close>: the clean changes and the records of the others.\<close>

fun poison_scan ::
  "(string \<Rightarrow> string) \<Rightarrow> cdc_stream \<Rightarrow> nat \<Rightarrow> string list \<Rightarrow> cdc_change list \<Rightarrow> cdc_change list \<times> poison_record list" where
  "poison_scan sha st index seen [] = ([], [])"
| "poison_scan sha st index seen (c # cs) =
     (let i = event_id sha (cs_unique_key st) c;
          (clean, records) = poison_scan sha st (index + 1) (i # seen) cs in
      case poison_reason c i seen (cs_unique_key st) of
        None \<Rightarrow> (c # clean, records)
      | Some reason \<Rightarrow> (clean, mk_poison_record st c i reason index # records))"

definition poison_classify :: "(string \<Rightarrow> string) \<Rightarrow> cdc_stream \<Rightarrow> cdc_change list \<Rightarrow> cdc_change list \<times> poison_record list" where
  "poison_classify sha st changes = poison_scan sha st 0 [] changes"

section \<open>Documents of changes\<close>

definition change_to_dict :: "cdc_change \<Rightarrow> pyval" where
  "change_to_dict c =
     PDict [(''before'', PDict (before_or_empty c)), (''data'', PDict (cc_data c)), (''metadata'', PDict (cc_metadata c)),
            (''operation'', PStr (operation_value (cc_operation c))), (''position'', PStr (cc_position c)),
            (''sequence'', cc_sequence c), (''source_schema'', PStr (cc_source_schema c)),
            (''source_table'', PStr (cc_source_table c)), (''transaction_id'', opt_str_val (cc_transaction_id c))]"

definition as_mapping :: "pyval \<Rightarrow> row_data res" where
  "as_mapping v = (case v of PDict d \<Rightarrow> Inr d | _ \<Rightarrow> Inl (ValueError ''CDC poison quarantine payload fields must be objects''))"

definition operation_of :: "string \<Rightarrow> cdc_operation res" where
  "operation_of s =
     (case find (\<lambda>x. operation_value x = s) [CdcInsert, CdcUpdate, CdcDelete, CdcUpdateBefore] of
        Some x \<Rightarrow> Inr x | None \<Rightarrow> Inl (ValueError (s @ '' is not a valid CDCOperation'')))"

definition optional_text :: "pyval \<Rightarrow> string option" where
  "optional_text v = (if v = PNone then None else Some (py_str v))"

definition change_from_dict :: "row_data \<Rightarrow> cdc_change res" where
  "change_from_dict d =
     bind_res (bind_res (py_item d ''operation'') (\<lambda>v. operation_of (py_lower (py_strip (py_str v))))) (\<lambda>operation.
     bind_res (as_mapping (py_get d ''data'')) (\<lambda>data.
     bind_res (py_item d ''position'') (\<lambda>position.
     bind_res (py_item d ''source_schema'') (\<lambda>schema.
     bind_res (py_item d ''source_table'') (\<lambda>table.
     bind_res (if py_truthy (py_get d ''before'') then bind_res (as_mapping (py_get d ''before'')) (\<lambda>b. Inr (Some b)) else Inr None) (\<lambda>before.
     bind_res (as_mapping (py_get_default d ''metadata'' (PDict []))) (\<lambda>metadata.
       Inr \<lparr>cc_operation = operation, cc_data = data, cc_position = py_str position, cc_source_schema = py_str schema,
            cc_source_table = py_str table, cc_transaction_id = optional_text (py_get d ''transaction_id''),
            cc_sequence = py_get d ''sequence'', cc_before = before, cc_metadata = metadata\<rparr>)))))))"

definition poison_record_to_dict :: "poison_record \<Rightarrow> pyval" where
  "poison_record_to_dict r =
     PDict [(''action'', PStr (po_action r)), (''change'', change_to_dict (po_change r)), (''event_id'', PStr (po_event_id r)),
            (''reason'', PStr (po_reason r)), (''record_id'', PStr (po_record_id r)), (''replayable'', PBool (po_replayable r)),
            (''summary'', PStr (po_summary r))]"

text \<open>\<open>replay_execution._changes\<close>: the changes of a quarantine document that may be replayed.\<close>

fun replay_changes :: "int option \<Rightarrow> cdc_change list \<Rightarrow> pyval list \<Rightarrow> cdc_change list res" where
  "replay_changes max_events changes [] = Inr changes"
| "replay_changes max_events changes (record # records) =
     (case record of
        PDict item \<Rightarrow>
          if py_get_default item ''replayable'' (PBool True) = PBool False then replay_changes max_events changes records
          else
            bind_res (case py_get item ''change'' of PDict d \<Rightarrow> change_from_dict d
                      | _ \<Rightarrow> Inl (ValueError ''CDC replay quarantine records must be objects'')) (\<lambda>c.
              if (case max_events of None \<Rightarrow> False | Some n \<Rightarrow> int (length changes) + 1 \<ge> n) then Inr (changes @ [c])
              else replay_changes max_events (changes @ [c]) records)
      | _ \<Rightarrow> Inl (ValueError ''CDC replay quarantine records must be objects''))"

section \<open>Lemmas\<close>

lemma backend_roundtrip [simp]: "backend_of (backend_value b) = Inr b"
  by (cases b) (simp_all add: backend_of_def)

lemma offset_roundtrip:
  "offset_to_state o' = PDict d \<Longrightarrow> offset_from_state d = Inr o'"
  by (cases o') (auto simp: offset_to_state_def offset_from_state_def py_item_def py_str_def)

lemma operation_roundtrip [simp]: "operation_of (py_lower (py_strip (operation_value x))) = Inr x"
proof -
  have "list_all (\<lambda>x. operation_of (py_lower (py_strip (operation_value x))) = Inr x) [CdcInsert, CdcUpdate, CdcDelete, CdcUpdateBefore]"
    by code_simp
  then show ?thesis by (cases x) simp_all
qed

text \<open>Reading the document of a change gives the change; an empty row before counts as none.\<close>

lemma change_roundtrip:
  assumes "change_to_dict c = PDict d"
  shows "change_from_dict d = Inr (c\<lparr>cc_before := (if before_or_empty c = [] then None else cc_before c)\<rparr>)"
proof -
  have "optional_text (opt_str_val (cc_transaction_id c)) = cc_transaction_id c"
    by (cases "cc_transaction_id c") (simp_all add: optional_text_def opt_str_val_def py_str_def)
  moreover have "(if before_or_empty c = [] then None else Some (before_or_empty c))
      = (if before_or_empty c = [] then None else cc_before c)"
    by (simp add: before_or_empty_def split: option.split)
  ultimately show ?thesis
    using assms by (cases c) (auto simp: change_to_dict_def change_from_dict_def py_item_def py_str_def as_mapping_def)
qed

lemma poison_scan_keeps:
  "poison_scan sha st index seen cs = (clean, records) \<Longrightarrow> set clean \<union> po_change ` set records = set cs"
proof (induction cs arbitrary: index seen clean records)
  case (Cons c cs)
  obtain clean' records' where s: "poison_scan sha st (index + 1) (event_id sha (cs_unique_key st) c # seen) cs = (clean', records')"
    by fastforce
  with Cons.IH [OF s] Cons.prems show ?case
    by (auto simp: Let_def mk_poison_record_def split: option.splits) blast
qed simp

text \<open>With no records, the batch is clean as it is, and its events are distinct and have their keys.\<close>

lemma poison_scan_clean:
  "poison_scan sha st index seen cs = (clean, []) \<Longrightarrow> clean = cs
    \<and> distinct (map (event_id sha (cs_unique_key st)) cs) \<and> set (map (event_id sha (cs_unique_key st)) cs) \<inter> set seen = {}
    \<and> (\<forall>c\<in>set cs. cc_operation c \<noteq> CdcUpdateBefore \<and> \<not> list_ex (key_missing c) (cs_unique_key st))"
proof (induction cs arbitrary: index seen clean)
  case (Cons c cs)
  obtain clean' records where s: "poison_scan sha st (index + 1) (event_id sha (cs_unique_key st) c # seen) cs = (clean', records)"
    by fastforce
  with Cons.prems have "records = []" and r: "poison_reason c (event_id sha (cs_unique_key st) c) seen (cs_unique_key st) = None"
    and clean: "clean = c # clean'"
    by (auto simp: Let_def split: option.splits)
  with Cons.IH s have "clean' = cs \<and> distinct (map (event_id sha (cs_unique_key st)) cs)
      \<and> set (map (event_id sha (cs_unique_key st)) cs) \<inter> set (event_id sha (cs_unique_key st) c # seen) = {}
      \<and> (\<forall>c\<in>set cs. cc_operation c \<noteq> CdcUpdateBefore \<and> \<not> list_ex (key_missing c) (cs_unique_key st))" by blast
  with r clean show ?case
    by (auto simp: poison_reason_def supported_runtime_operations_def split: if_splits)
qed simp

lemma poison_classify_clean:
  "poison_classify sha st cs = (clean, []) \<Longrightarrow> clean = cs \<and> distinct (map (event_id sha (cs_unique_key st)) cs)"
  unfolding poison_classify_def by (drule poison_scan_clean) blast

end
