(* ===== verification/Cdc_Runtime.thy ===== *)
theory Cdc_Runtime
  imports Cdc_Event
begin

text \<open>
  One tick of the change data capture runtime
  (\<open>src/dpone/runtime/cdc/runtime_orchestrator.py\<close>): read a bounded batch after the saved
  offset, classify it, apply it to the sink, and save the next offset only when the sink
  reports a durable success. The reader, the offset store, the sink and the files are ports
  that may raise; the file offset store and the local sink are those of \<open>local_runtime.py\<close>,
  the ClickHouse sink that of \<open>live_adapters.py\<close>.
\<close>

section \<open>Receipts, policies and reports\<close>

datatype poison_mode = FailClosed | QuarantineAndContinue

record runtime_policy =
  rp_max_changes :: int
  rp_require_idempotent :: bool
  rp_commit_empty_batches :: bool
  rp_poison_mode :: poison_mode

definition default_policy :: runtime_policy where
  "default_policy = \<lparr>rp_max_changes = 10000, rp_require_idempotent = True, rp_commit_empty_batches = False,
     rp_poison_mode = FailClosed\<rparr>"

record apply_receipt =
  ar_passed :: bool
  ar_durable :: bool
  ar_rows_applied :: nat
  ar_rows_deleted :: nat
  ar_blockers :: "string list"
  ar_warnings :: "string list"
  ar_metrics :: row_data
  ar_artifact_uri :: string

record runtime_report =
  rr_start_offset :: "cdc_offset option"
  rr_next_offset :: "cdc_offset option"
  rr_high_watermark :: "string option"
  rr_rows_read :: nat
  rr_rows_applied :: nat
  rr_rows_deleted :: nat
  rr_committed :: bool
  rr_passed :: bool
  rr_blockers :: "string list"
  rr_warnings :: "string list"
  rr_poison :: "poison_record list"

section \<open>The tick\<close>

text \<open>Actions on the outside world \<open>'w\<close>: an exception, or a result, and the world after it.\<close>

type_synonym ('w, 'a) io = "'w \<Rightarrow> 'a res \<times> 'w"

definition io_bind :: "('w, 'a) io \<Rightarrow> ('a \<Rightarrow> ('w, 'b) io) \<Rightarrow> ('w, 'b) io" where
  "io_bind m f = (\<lambda>w. case m w of (Inl e, w') \<Rightarrow> (Inl e, w') | (Inr a, w') \<Rightarrow> f a w')"

definition io_return :: "'a \<Rightarrow> ('w, 'a) io" where
  "io_return a = (\<lambda>w. (Inr a, w))"

record 'w cdc_ports =
  port_setup :: "('w, unit) io"
  port_load :: "('w, cdc_offset option) io"
  port_read :: "cdc_offset option \<Rightarrow> int \<Rightarrow> ('w, cdc_batch) io"
  port_quarantine :: "poison_record list \<Rightarrow> ('w, unit) io"
  port_apply :: "cdc_batch \<Rightarrow> ('w, apply_receipt) io"
  port_save :: "cdc_offset \<Rightarrow> ('w, unit) io"
  port_report :: "runtime_report \<Rightarrow> ('w, unit) io"

definition applied_batch :: "runtime_policy \<Rightarrow> cdc_batch \<Rightarrow> cdc_change list \<Rightarrow> poison_record list \<Rightarrow> cdc_batch" where
  "applied_batch policy b clean records =
     (if records = [] then b
      else if rp_poison_mode policy = QuarantineAndContinue then b\<lparr>cb_changes := clean\<rparr>
      else b\<lparr>cb_changes := []\<rparr>)"

definition poison_blockers ::
  "runtime_policy \<Rightarrow> poison_record list \<Rightarrow> idempotency_report \<Rightarrow> string list" where
  "poison_blockers policy records idempotency =
     (if records \<noteq> [] \<and> rp_poison_mode policy = FailClosed then [''cdc_runtime.poison_events''] else []) @
     (if rp_poison_mode policy = FailClosed \<and> list_ex (\<lambda>r. po_reason r = ''cdc_poison.duplicate_event'') records
      then [''cdc_runtime.duplicate_events''] else []) @
     (if rp_require_idempotent policy \<and> \<not> idempotency_passed idempotency then [''cdc_runtime.duplicate_events''] else [])"

definition tick_warnings :: "runtime_policy \<Rightarrow> cdc_batch \<Rightarrow> poison_record list \<Rightarrow> string list" where
  "tick_warnings policy b records =
     (if records \<noteq> [] \<and> rp_poison_mode policy = QuarantineAndContinue then [''cdc_runtime.poison_events_quarantined''] else []) @
     (if cb_changes b = [] \<and> \<not> rp_commit_empty_batches policy then [''cdc_runtime.empty_batch''] else [])"

definition sink_blockers :: "apply_receipt \<Rightarrow> string list" where
  "sink_blockers r =
     (let blockers = ar_blockers r @ (if \<not> ar_passed r \<and> ar_blockers r = [] then [''cdc_runtime.sink_apply_failed''] else []) in
      blockers @ (if \<not> ar_durable r then [''cdc_runtime.sink_not_durable''] else []))"

definition receipt_blockers :: "cdc_batch \<Rightarrow> apply_receipt option \<Rightarrow> string list" where
  "receipt_blockers b receipt =
     (case receipt of
        None \<Rightarrow> []
      | Some r \<Rightarrow> sink_blockers r @ (if cb_next_offset b = None then [''cdc_runtime.next_offset_missing''] else []))"

text \<open>\<open>tuple(dict.fromkeys(names))\<close>.\<close>

definition without_repeats :: "string list \<Rightarrow> string list" where
  "without_repeats xs = rev (remdups (rev xs))"

definition tick_report ::
  "cdc_batch \<Rightarrow> cdc_offset option \<Rightarrow> apply_receipt option \<Rightarrow> bool \<Rightarrow> string list \<Rightarrow> string list \<Rightarrow> poison_record list
    \<Rightarrow> runtime_report" where
  "tick_report b start receipt committed blockers warnings records =
     \<lparr>rr_start_offset = start, rr_next_offset = cb_next_offset b, rr_high_watermark = cb_high_watermark b,
      rr_rows_read = length (cb_changes b),
      rr_rows_applied = (case receipt of None \<Rightarrow> 0 | Some r \<Rightarrow> ar_rows_applied r),
      rr_rows_deleted = (case receipt of None \<Rightarrow> 0 | Some r \<Rightarrow> ar_rows_deleted r),
      rr_committed = committed, rr_passed = (without_repeats blockers = []), rr_blockers = without_repeats blockers,
      rr_warnings = without_repeats warnings, rr_poison = records\<rparr>"

text \<open>After the batch was read and classified: the application, then the offset and the report.\<close>

definition settle_tick ::
  "runtime_policy \<Rightarrow> 'w cdc_ports \<Rightarrow> cdc_offset option \<Rightarrow> cdc_batch \<Rightarrow> cdc_batch \<Rightarrow> poison_record list \<Rightarrow> string list
    \<Rightarrow> apply_receipt option \<Rightarrow> ('w, runtime_report) io" where
  "settle_tick policy ports start b applied records blockers receipt =
     (let all_blockers = blockers @ receipt_blockers b receipt;
          all_warnings = tick_warnings policy b records @ (case receipt of None \<Rightarrow> [] | Some r \<Rightarrow> ar_warnings r);
          poison_only = (records \<noteq> [] \<and> rp_poison_mode policy = QuarantineAndContinue \<and> cb_changes applied = []
            \<and> cb_changes b \<noteq> []) in
      io_bind (case cb_next_offset b of
          Some next_offset \<Rightarrow>
            if all_blockers = [] \<and> (receipt \<noteq> None \<or> poison_only)
            then io_bind (port_save ports next_offset) (\<lambda>_. io_return True) else io_return False
        | None \<Rightarrow> io_return False) (\<lambda>committed.
      let report = tick_report b start receipt committed all_blockers all_warnings records in
      io_bind (port_report ports report) (\<lambda>_. io_return report)))"

definition apply_and_commit ::
  "(string \<Rightarrow> string) \<Rightarrow> runtime_policy \<Rightarrow> cdc_stream \<Rightarrow> 'w cdc_ports \<Rightarrow> cdc_offset option \<Rightarrow> cdc_batch
    \<Rightarrow> cdc_change list \<Rightarrow> poison_record list \<Rightarrow> ('w, runtime_report) io" where
  "apply_and_commit sha policy st ports start b clean records =
     (let applied = applied_batch policy b clean records;
          blockers = poison_blockers policy records (idempotency_evaluate sha (cs_unique_key st) (cb_changes applied)) in
      io_bind (if blockers = [] \<and> (cb_changes applied \<noteq> [] \<or> rp_commit_empty_batches policy)
               then io_bind (port_apply ports applied) (\<lambda>r. io_return (Some r)) else io_return None)
        (settle_tick policy ports start b applied records blockers))"

definition run_once ::
  "(string \<Rightarrow> string) \<Rightarrow> runtime_policy \<Rightarrow> cdc_stream \<Rightarrow> 'w cdc_ports \<Rightarrow> ('w, runtime_report) io" where
  "run_once sha policy st ports =
     io_bind (port_setup ports) (\<lambda>_.
     io_bind (port_load ports) (\<lambda>start.
     io_bind (port_read ports start (rp_max_changes policy)) (\<lambda>b.
       case poison_classify sha st (cb_changes b) of (clean, records) \<Rightarrow>
         io_bind (if records = [] then io_return () else port_quarantine ports records) (\<lambda>_.
           apply_and_commit sha policy st ports start b clean records))))"

section \<open>The file offset store\<close>

definition file_mapping :: "pyval \<Rightarrow> row_data res" where
  "file_mapping v = (case v of PDict d \<Rightarrow> Inr d | _ \<Rightarrow> Inl (ValueError ''CDC runtime JSON fields must be objects''))"

text \<open>A file is the document written to it. A list or an object is not hashable.\<close>

definition file_load_offset :: "cdc_stream \<Rightarrow> pyval option \<Rightarrow> cdc_offset option res" where
  "file_load_offset st file =
     (case file of
        None \<Rightarrow> Inr None
      | Some v \<Rightarrow>
          bind_res (file_mapping v) (\<lambda>d.
            case py_get d ''stream_id'' of
              PList _ \<Rightarrow> Inl (TypeError ''unhashable type'')
            | PDict _ \<Rightarrow> Inl (TypeError ''unhashable type'')
            | i \<Rightarrow>
                if i \<noteq> PNone \<and> i \<noteq> PStr (stream_id st) then Inr None
                else if \<not> py_truthy (py_get d ''offset'') then Inr None
                else bind_res (file_mapping (py_get d ''offset'')) (\<lambda>x. bind_res (offset_from_state x) (\<lambda>y. Inr (Some y)))))"

definition file_save_offset :: "cdc_stream \<Rightarrow> cdc_offset \<Rightarrow> pyval" where
  "file_save_offset st o' =
     PDict [(''stream_id'', PStr (stream_id st)), (''pipeline_name'', PStr (cs_pipeline_name st)), (''offset'', offset_to_state o')]"

lemma file_offset_roundtrip: "file_load_offset st (Some (file_save_offset st o')) = Inr (Some o')"
  by (simp add: file_load_offset_def file_save_offset_def file_mapping_def)
    (simp add: offset_to_state_def offset_roundtrip [unfolded offset_to_state_def, OF refl])

section \<open>The SQL offset store\<close>

text \<open>
  \<open>MSSQLCDCOffsetStorage\<close> behind \<open>SqlCdcOffsetStoreAdapter\<close>: the state table maps its primary
  key (pipeline, schema, table and backend) to the token and the snapshot flag.
\<close>

type_synonym offset_table = "(string \<times> string \<times> string \<times> string) \<rightharpoonup> (string \<times> bool)"

definition sql_load_offset :: "cdc_stream \<Rightarrow> offset_table \<Rightarrow> cdc_offset option res" where
  "sql_load_offset st table =
     (let key = (cs_pipeline_name st, cs_source_schema st, cs_source_table st, backend_value (cs_backend st)) in
      case table key of
        None \<Rightarrow> Inr None
      | Some (token, complete) \<Rightarrow>
          bind_res (backend_of (backend_value (cs_backend st))) (\<lambda>b.
            Inr (Some \<lparr>co_backend = b, co_token = token, co_snapshot_complete = complete\<rparr>)))"

definition sql_save_offset :: "cdc_stream \<Rightarrow> cdc_offset \<Rightarrow> offset_table \<Rightarrow> offset_table" where
  "sql_save_offset st o' table =
     table((cs_pipeline_name st, cs_source_schema st, cs_source_table st, backend_value (co_backend o')) \<mapsto>
       (co_token o', co_snapshot_complete o'))"

lemma backend_value_inject [simp]: "backend_value b = backend_value c \<longleftrightarrow> b = c"
  by (cases b; cases c) simp_all

lemma sql_offset_roundtrip:
  "sql_load_offset st (sql_save_offset st o' table) = (if co_backend o' = cs_backend st then Inr (Some o') else sql_load_offset st table)"
  by (cases o') (auto simp: sql_load_offset_def sql_save_offset_def Let_def)

section \<open>The local sink\<close>

definition local_apply :: "cdc_stream \<Rightarrow> string \<Rightarrow> cdc_batch \<Rightarrow> apply_receipt \<times> row_data list" where
  "local_apply st path b =
     (\<lparr>ar_passed = True, ar_durable = True, ar_rows_applied = length (cb_changes b),
       ar_rows_deleted = length (filter is_delete (cb_changes b)), ar_blockers = [], ar_warnings = [],
       ar_metrics = [(''sink'', PStr (cs_sink st)), (''target_dataset'', PStr (cs_target_dataset st)),
         (''artifact_rows'', PInt (int (length (batch_to_rows b))))],
       ar_artifact_uri = path\<rparr>, batch_to_rows b)"

section \<open>The ClickHouse sink\<close>

record log_row =
  lr_stream_id :: string
  lr_route_id :: string
  lr_pipeline_name :: string
  lr_source_schema :: string
  lr_source_table :: string
  lr_operation :: string
  lr_position :: string
  lr_sequence :: string
  lr_event_hash :: string
  lr_unique_key_hash :: string
  lr_unique_key_json :: string
  lr_payload_json :: string
  lr_before_json :: string
  lr_deleted :: int
  lr_ingested_at :: pyval

definition split_dataset :: "string \<Rightarrow> string \<Rightarrow> (string \<times> string) res" where
  "split_dataset dflt s =
     (case filter (\<lambda>part. part \<noteq> []) (split_dots s) of
        [t] \<Rightarrow> Inr (dflt, t)
      | [d, t] \<Rightarrow> Inr (d, t)
      | _ \<Rightarrow> Inl (ValueError ''ClickHouse CDC target dataset must be table or database.table''))"

definition unique_key_payload :: "cdc_change \<Rightarrow> string list \<Rightarrow> pyval" where
  "unique_key_payload c unique_key = PDict (foldl (\<lambda>d k. dict_set d k (py_get (cc_data c) k)) [] unique_key)"

definition cdc_event_hash :: "(string \<Rightarrow> string) \<Rightarrow> string list \<Rightarrow> cdc_change \<Rightarrow> string" where
  "cdc_event_hash sha unique_key c =
     sha (json_canonical (PDict
       [(''operation'', PStr (operation_value (cc_operation c))), (''position'', PStr (cc_position c)),
        (''source_schema'', PStr (cc_source_schema c)), (''source_table'', PStr (cc_source_table c)),
        (''transaction_id'', opt_str_val (cc_transaction_id c)), (''sequence'', cc_sequence c),
        (''unique_key'', unique_key_payload c unique_key), (''data'', PDict (cc_data c)),
        (''before'', PDict (before_or_empty c)), (''metadata'', PDict (cc_metadata c))]))"

definition cdc_event_row :: "(string \<Rightarrow> string) \<Rightarrow> pyval \<Rightarrow> cdc_stream \<Rightarrow> cdc_change \<Rightarrow> log_row" where
  "cdc_event_row sha now st c =
     (let key_json = json_canonical (unique_key_payload c (cs_unique_key st)) in
      \<lparr>lr_stream_id = stream_id st, lr_route_id = route_id st, lr_pipeline_name = cs_pipeline_name st,
       lr_source_schema = cc_source_schema c, lr_source_table = cc_source_table c,
       lr_operation = operation_value (cc_operation c), lr_position = cc_position c,
       lr_sequence = (if cc_sequence c = PNone then [] else py_str (cc_sequence c)),
       lr_event_hash = cdc_event_hash sha (cs_unique_key st) c, lr_unique_key_hash = sha key_json,
       lr_unique_key_json = key_json, lr_payload_json = json_canonical (PDict (cc_data c)),
       lr_before_json = json_canonical (PDict (before_or_empty c)), lr_deleted = (if is_delete c then 1 else 0),
       lr_ingested_at = now\<rparr>)"

definition existing_event_hashes :: "log_row list \<Rightarrow> log_row list \<Rightarrow> string set" where
  "existing_event_hashes table rows =
     (case rows of
        [] \<Rightarrow> {}
      | r # _ \<Rightarrow> set (map lr_event_hash (filter (\<lambda>x. lr_stream_id x = lr_stream_id r
          \<and> lr_event_hash x \<in> set (map lr_event_hash rows)) table)))"

definition batch_hash :: "(string \<Rightarrow> string) \<Rightarrow> log_row list \<Rightarrow> string" where
  "batch_hash sha rows = sha (json_canonical (PList (map (PStr \<circ> lr_event_hash) rows)))"

definition clickhouse_uri :: "string \<times> string \<Rightarrow> string" where
  "clickhouse_uri plan = ''clickhouse://'' @ fst plan @ ''.'' @ snd plan"

definition success_receipt :: "(string \<Rightarrow> string) \<Rightarrow> string \<times> string \<Rightarrow> log_row list \<Rightarrow> nat \<Rightarrow> apply_receipt" where
  "success_receipt sha plan rows skipped =
     \<lparr>ar_passed = True, ar_durable = True, ar_rows_applied = length rows,
      ar_rows_deleted = length (filter (\<lambda>r. lr_deleted r = 1) rows), ar_blockers = [], ar_warnings = [],
      ar_metrics = [(''sink'', PStr ''clickhouse''), (''target_dataset'', PStr (fst plan @ ''.'' @ snd plan)),
        (''apply_mode'', PStr ''clickhouse_append_cdc_log''), (''artifact_rows'', PInt (int (length rows))),
        (''duplicate_events_skipped'', PInt (int skipped)), (''batch_hash'', PStr (batch_hash sha rows))],
      ar_artifact_uri = clickhouse_uri plan\<rparr>"

definition failure_receipt :: "cdc_stream \<Rightarrow> string \<times> string \<Rightarrow> string \<Rightarrow> apply_receipt" where
  "failure_receipt st plan error =
     \<lparr>ar_passed = False, ar_durable = False, ar_rows_applied = 0, ar_rows_deleted = 0,
      ar_blockers = [''clickhouse_cdc_apply.failed''], ar_warnings = [],
      ar_metrics = [(''sink'', PStr (cs_sink st)), (''target_dataset'', PStr (cs_target_dataset st)),
        (''apply_mode'', PStr ''clickhouse_append_cdc_log''), (''error'', PStr error)],
      ar_artifact_uri = clickhouse_uri plan\<rparr>"

text \<open>
  What the server does during an application: \<open>cf_lookup\<close> an exception before the insert,
  \<open>cf_insert = Some n\<close> an exception during it after which the first \<open>n\<close> rows are in the table.
  The log table is the list of its rows.
\<close>

record sink_faults =
  cf_lookup :: bool
  cf_insert :: "nat option"

definition clickhouse_apply ::
  "(string \<Rightarrow> string) \<Rightarrow> string \<Rightarrow> pyval \<Rightarrow> sink_faults \<Rightarrow> cdc_stream \<Rightarrow> cdc_batch \<Rightarrow> log_row list
    \<Rightarrow> apply_receipt res \<times> log_row list" where
  "clickhouse_apply sha database now faults st b table =
     (case split_dataset database (cs_target_dataset st) of
        Inl e \<Rightarrow> (Inl e, table)
      | Inr plan \<Rightarrow>
          (let rows = map (cdc_event_row sha now st) (cb_changes b);
               new_rows = filter (\<lambda>r. lr_event_hash r \<notin> existing_event_hashes table rows) rows in
           if cf_lookup faults then (Inr (failure_receipt st plan ''lookup failed''), table)
           else if new_rows = [] then (Inr (success_receipt sha plan [] (length rows)), table)
           else case cf_insert faults of
               Some n \<Rightarrow> (Inr (failure_receipt st plan ''insert failed''), table @ take n new_rows)
             | None \<Rightarrow> (Inr (success_receipt sha plan new_rows (length rows - length new_rows)), table @ new_rows)))"

end
