(* ===== verification/Cdc_Mssql.thy ===== *)
theory Cdc_Mssql
  imports Cdc_Change
begin

text \<open>
  The readers of SQL Server's change tables and of its change tracking
  (\<open>src/dpone/runtime/cdc/mssql.py\<close>). The T-SQL batch the first one sends is translated
  with the documented behaviour of the functions it calls: a log sequence number is a number
  below \<open>2 ^ 80\<close>, printed as 20 hexadecimal digits. The rows that
  \<open>cdc.fn_cdc_get_all_changes\<close> and \<open>CHANGETABLE\<close> return are arguments.
\<close>

section \<open>Log sequence numbers\<close>

fun fixed_hex :: "nat \<Rightarrow> nat \<Rightarrow> string" where
  "fixed_hex 0 n = []"
| "fixed_hex (Suc k) n = fixed_hex k (n div 16) @ [hex_digit (n mod 16)]"

definition lsn_text :: "nat \<Rightarrow> string" where
  "lsn_text n = ''0x'' @ fixed_hex 20 n"

definition lsn_bound :: nat where "lsn_bound = 16 ^ 20"

definition hex_value :: "char \<Rightarrow> nat option" where
  "hex_value c =
     (let n = code_of c in
      if 48 \<le> n \<and> n \<le> 57 then Some (n - 48)
      else if 97 \<le> n \<and> n \<le> 102 then Some (n - 87)
      else if 65 \<le> n \<and> n \<le> 70 then Some (n - 55) else None)"

fun hex_number :: "nat \<Rightarrow> string \<Rightarrow> nat option" where
  "hex_number a [] = Some a"
| "hex_number a (c # cs) = (case hex_value c of None \<Rightarrow> None | Some d \<Rightarrow> hex_number (16 * a + d) cs)"

text \<open>\<open>CONVERT(binary(10), text, 1)\<close> for a text of the full length.\<close>

definition lsn_of_text :: "string \<Rightarrow> nat res" where
  "lsn_of_text s =
     (case (if take 2 s = ''0x'' \<and> length s = 22 then hex_number 0 (drop 2 s) else None) of
        Some n \<Rightarrow> Inr n
      | None \<Rightarrow> Inl (AppError ''ProgrammingError'' ''Error converting data type varchar to varbinary''))"

definition zero_lsn_text :: string where
  "zero_lsn_text = ''0x00000000000000000000''"

section \<open>Change tables\<close>

record cdc_row =
  mr_lsn :: nat
  mr_operation :: int
  mr_data :: row_data

text \<open>The lenient form of \<open>MSSQLObjectName.from_parts\<close>: database, schema and table.\<close>

definition object_part :: "string \<Rightarrow> string \<Rightarrow> unit res" where
  "object_part value part =
     (if py_strip value = [] then Inl (ValueError (''MSSQL '' @ part @ '' must not be empty''))
      else if CHR ''.'' \<in> set (py_strip value) then Inl (ValueError (''MSSQL '' @ part @ '' must not contain dots''))
      else Inr ())"

definition normalize_schema :: "string \<Rightarrow> string \<Rightarrow> (string option \<times> string) res" where
  "normalize_schema schema database =
     (let raw = py_strip schema;
          db = (if py_strip database = [] then None else Some (py_strip database));
          parts = map py_strip (split_dots raw) in
      if raw = [] then Inl (ValueError ''MSSQL schema must not be empty'')
      else case parts of
          [_] \<Rightarrow> Inr (db, raw)
        | [d, sc] \<Rightarrow> if db = Some d then Inr (db, sc) else if db = None then Inr (Some d, sc) else Inr (db, raw)
        | _ \<Rightarrow> Inl (ValueError ''Unsafe MSSQL schema identifier''))"

definition mssql_object_name :: "string \<Rightarrow> string \<Rightarrow> string \<Rightarrow> (string option \<times> string \<times> string) res" where
  "mssql_object_name schema table database =
     bind_res (normalize_schema schema database) (\<lambda>(db, sc).
     bind_res (object_part sc ''schema'') (\<lambda>_.
     bind_res (object_part table ''table'') (\<lambda>_.
     bind_res (case db of None \<Rightarrow> Inr () | Some d \<Rightarrow> object_part d ''database'') (\<lambda>_.
       Inr (db, sc, py_strip table)))))"

record mssql_config =
  mg_source_schema :: string
  mg_source_table :: string
  mg_source_database :: string
  mg_capture_instance :: "string option"
  mg_include_update_before :: bool

definition resolved_capture_instance :: "mssql_config \<Rightarrow> string res" where
  "resolved_capture_instance cfg =
     bind_res (mssql_object_name (mg_source_schema cfg) (mg_source_table cfg) (mg_source_database cfg)) (\<lambda>(db, sc, table).
       Inr (case mg_capture_instance cfg of Some (c # cs) \<Rightarrow> c # cs | _ \<Rightarrow> sc @ ''_'' @ table))"

definition is_word_start :: "char \<Rightarrow> bool" where
  "is_word_start c \<longleftrightarrow> (let n = code_of c in 65 \<le> n \<and> n \<le> 90 \<or> 97 \<le> n \<and> n \<le> 122 \<or> c = CHR ''_'')"

text \<open>The pattern ends with a dollar sign, which also matches before a final line feed.\<close>

definition is_capture_instance :: "string \<Rightarrow> bool" where
  "is_capture_instance s =
     (let body = (if s \<noteq> [] \<and> code_of (last s) = 10 then butlast s else s) in
      case body of [] \<Rightarrow> False | c # cs \<Rightarrow> is_word_start c \<and> list_all (\<lambda>x. is_word_start x \<or> py_is_digit x) cs)"

definition safe_capture_instance :: "mssql_config \<Rightarrow> string res" where
  "safe_capture_instance cfg =
     bind_res (resolved_capture_instance cfg) (\<lambda>name.
       if is_capture_instance name then Inr name else Inl (ValueError ''Unsafe SQL Server CDC capture instance''))"

text \<open>
  The state of the capture that the batch reads: the lowest and the highest number, each
  missing before the first capture, and the function of the change table.
\<close>

record cdc_capture =
  cp_min :: "nat option"
  cp_max :: "nat option"
  cp_changes :: "nat \<Rightarrow> nat \<Rightarrow> cdc_row list res"

definition requested_from_lsn :: "nat option \<Rightarrow> string option \<Rightarrow> nat option res" where
  "requested_from_lsn lowest token =
     (case token of
        None \<Rightarrow> Inr lowest
      | Some t \<Rightarrow> if t = zero_lsn_text then Inr lowest else bind_res (lsn_of_text t) (\<lambda>n. Inr (Some (n + 1))))"

definition from_lsn :: "nat option \<Rightarrow> nat option \<Rightarrow> nat option" where
  "from_lsn lowest requested =
     (case (requested, lowest) of
        (Some r, Some m) \<Rightarrow> Some (if r < m then m else r)
      | _ \<Rightarrow> None)"

definition query_changes :: "cdc_capture \<Rightarrow> string option \<Rightarrow> int \<Rightarrow> cdc_row list res" where
  "query_changes cap token max_changes =
     bind_res (requested_from_lsn (cp_min cap) token) (\<lambda>requested.
       case (from_lsn (cp_min cap) requested, cp_max cap) of
         (Some lo, Some hi) \<Rightarrow> bind_res (cp_changes cap lo hi) (\<lambda>rows. Inr (take (nat max_changes) rows))
       | _ \<Rightarrow> Inr [])"

definition cdc_operation_of :: "int \<Rightarrow> cdc_operation option" where
  "cdc_operation_of n =
     (if n = 1 then Some CdcDelete else if n = 2 then Some CdcInsert
      else if n = 3 then Some CdcUpdateBefore else if n = 4 then Some CdcUpdate else None)"

text \<open>A row as a change, when the reader keeps it.\<close>

definition mssql_change :: "mssql_config \<Rightarrow> string list \<Rightarrow> cdc_row \<Rightarrow> cdc_change option" where
  "mssql_change cfg columns row =
     (case cdc_operation_of (mr_operation row) of
        None \<Rightarrow> None
      | Some operation \<Rightarrow>
          if operation = CdcUpdateBefore \<and> \<not> mg_include_update_before cfg then None
          else Some \<lparr>cc_operation = operation, cc_data = map (\<lambda>c. (c, py_get (mr_data row) c)) columns,
                 cc_position = lsn_text (mr_lsn row), cc_source_schema = mg_source_schema cfg,
                 cc_source_table = mg_source_table cfg, cc_transaction_id = None, cc_sequence = PNone,
                 cc_before = None, cc_metadata = [(''backend'', PStr ''mssql_cdc'')]\<rparr>)"

fun read_cdc_rows ::
  "mssql_config \<Rightarrow> string list \<Rightarrow> string option \<Rightarrow> cdc_change list \<Rightarrow> cdc_row list \<Rightarrow> cdc_change list \<times> string option" where
  "read_cdc_rows cfg columns high changes [] = (changes, high)"
| "read_cdc_rows cfg columns high changes (row # rows) =
     read_cdc_rows cfg columns (Some (lsn_text (mr_lsn row)))
       (case mssql_change cfg columns row of None \<Rightarrow> changes | Some c \<Rightarrow> changes @ [c]) rows"

definition read_cdc_batch ::
  "mssql_config \<Rightarrow> string list \<Rightarrow> cdc_capture \<Rightarrow> cdc_offset option \<Rightarrow> int \<Rightarrow> cdc_batch res" where
  "read_cdc_batch cfg columns cap start max_changes =
     bind_res (mssql_object_name (mg_source_schema cfg) (mg_source_table cfg) (mg_source_database cfg)) (\<lambda>_.
      let token = map_option co_token start in
      if columns = [] then Inr \<lparr>cb_changes = [], cb_next_offset = backend_offset MssqlCdc token, cb_high_watermark = None\<rparr>
      else
        bind_res (safe_capture_instance cfg) (\<lambda>_.
        bind_res (query_changes cap token max_changes) (\<lambda>rows.
          case read_cdc_rows cfg columns token [] rows of (changes, high) \<Rightarrow>
            Inr \<lparr>cb_changes = changes, cb_next_offset = backend_offset MssqlCdc high, cb_high_watermark = high\<rparr>)))"

definition current_lsn :: "cdc_capture \<Rightarrow> string" where
  "current_lsn cap = (case cp_max cap of None \<Rightarrow> zero_lsn_text | Some n \<Rightarrow> lsn_text n)"

text \<open>The statements of the setup; the two lookups answer whether capture is enabled.\<close>

datatype mssql_call =
    FindDatabaseCdc
  | EnableDatabase
  | FindCapture string
  | EnableTable string string string

definition mssql_setup_calls :: "bool \<Rightarrow> bool \<Rightarrow> mssql_config \<Rightarrow> mssql_call list \<times> unit res" where
  "mssql_setup_calls database_enabled table_enabled cfg =
     (let database = [FindDatabaseCdc] @ (if database_enabled then [] else [EnableDatabase]) in
      case resolved_capture_instance cfg of
        Inl e \<Rightarrow> (database, Inl e)
      | Inr name \<Rightarrow>
          (database @ [FindCapture name] @
             (if table_enabled then [] else [EnableTable (mg_source_schema cfg) (mg_source_table cfg) name]), Inr ()))"

section \<open>Change tracking\<close>

record tracking_row =
  tk_version :: int
  tk_operation :: string
  tk_data :: row_data

definition tracking_operation_of :: "string \<Rightarrow> cdc_operation option" where
  "tracking_operation_of s =
     (if s = ''I'' then Some CdcInsert else if s = ''U'' then Some CdcUpdate else if s = ''D'' then Some CdcDelete else None)"

definition tracking_change :: "string \<Rightarrow> string \<Rightarrow> string list \<Rightarrow> tracking_row \<Rightarrow> cdc_change option" where
  "tracking_change schema table columns row =
     map_option (\<lambda>operation.
       \<lparr>cc_operation = operation, cc_data = map (\<lambda>c. (c, py_get (tk_data row) c)) columns,
        cc_position = py_str_int (tk_version row), cc_source_schema = schema, cc_source_table = table,
        cc_transaction_id = None, cc_sequence = PNone, cc_before = None,
        cc_metadata = [(''backend'', PStr ''mssql_change_tracking'')]\<rparr>) (tracking_operation_of (tk_operation row))"

text \<open>
  The server during a read: \<open>version\<close> is what \<open>CHANGE_TRACKING_CURRENT_VERSION()\<close> answers,
  \<open>changetable v\<close> the rows of \<open>CHANGETABLE(CHANGES ..., v)\<close> in the order of their versions.
\<close>

definition tracking_version :: "int option \<Rightarrow> int" where
  "tracking_version version = (case version of None \<Rightarrow> 0 | Some v \<Rightarrow> v)"

definition start_version :: "cdc_offset option \<Rightarrow> int res" where
  "start_version start =
     (case start of
        Some x \<Rightarrow>
          if co_token x = [] then Inr 0
          else (case py_int (co_token x) of Some v \<Rightarrow> Inr v
                | None \<Rightarrow> Inl (ValueError ''invalid literal for int() with base 10''))
      | None \<Rightarrow> Inr 0)"

definition primary_keys :: "string list \<Rightarrow> string list \<Rightarrow> string list res" where
  "primary_keys configured found =
     (if configured \<noteq> [] then Inr configured
      else if found = [] then Inl (ValueError ''SQL Server Change Tracking requires a primary key'')
      else Inr found)"

definition tracking_columns :: "string list \<Rightarrow> string list \<Rightarrow> string list" where
  "tracking_columns columns keys = (if columns \<noteq> [] then columns else keys)"

definition read_tracking_batch ::
  "string \<Rightarrow> string \<Rightarrow> string list \<Rightarrow> string list \<Rightarrow> string list \<Rightarrow> int option \<Rightarrow> (int \<Rightarrow> tracking_row list)
    \<Rightarrow> cdc_offset option \<Rightarrow> int \<Rightarrow> cdc_batch res" where
  "read_tracking_batch schema table configured found columns version changetable start max_changes =
     bind_res (start_version start) (\<lambda>v.
     bind_res (primary_keys configured found) (\<lambda>keys.
       let high = py_str_int (tracking_version version);
           rows = take (nat max_changes) (changetable v);
           changes = List.map_filter (tracking_change schema table (tracking_columns columns keys)) rows in
       Inr \<lparr>cb_changes = changes, cb_next_offset = backend_offset MssqlChangeTracking (Some high),
            cb_high_watermark = Some high\<rparr>))"

section \<open>Lemmas\<close>

lemma hex_digit_value: "d < 16 \<Longrightarrow> hex_value (hex_digit d) = Some d"
  by (auto simp: hex_value_def hex_digit_def Let_def)

lemma hex_number_snoc:
  "hex_number a (cs @ [c]) = (case hex_number a cs of None \<Rightarrow> None
     | Some n \<Rightarrow> (case hex_value c of None \<Rightarrow> None | Some d \<Rightarrow> Some (16 * n + d)))"
  by (induction cs arbitrary: a) (auto split: option.split)

lemma hex_number_fixed: "n < 16 ^ k \<Longrightarrow> hex_number 0 (fixed_hex k n) = Some n"
proof (induction k arbitrary: n)
  case (Suc k)
  have "n div 16 < 16 ^ k" using Suc.prems by (simp add: less_mult_imp_div_less mult.commute)
  with Suc.IH hex_digit_value [of "n mod 16"] show ?case by (simp add: hex_number_snoc)
qed simp

lemma length_fixed_hex [simp]: "length (fixed_hex k n) = k"
  by (induction k arbitrary: n) simp_all

lemma lsn_roundtrip: "n < lsn_bound \<Longrightarrow> lsn_of_text (lsn_text n) = Inr n"
  using hex_number_fixed [of n 20] by (simp add: lsn_of_text_def lsn_text_def lsn_bound_def del: fixed_hex.simps)

lemma zero_lsn_text: "lsn_text 0 = zero_lsn_text"
  by code_simp

lemma read_cdc_rows_eq:
  "read_cdc_rows cfg columns high changes rows =
     (changes @ List.map_filter (mssql_change cfg columns) rows,
      if rows = [] then high else Some (lsn_text (mr_lsn (last rows))))"
  by (induction rows arbitrary: high changes) (auto simp: map_filter_simps split: option.split)

end
