(* ===== verification/Cdc_Log.thy ===== *)
theory Cdc_Log
  imports Cdc_Runtime Cdc_Mssql
begin

text \<open>
  What the ticks of the change data capture runtime promise. The locale \<open>cdc_pipeline\<close> is what
  they rely on: a reader whose batch covers everything between the two offsets, and a sink
  that only reports success when the batch is in its log. Reading SQL Server's change tables
  into the ClickHouse log keeps this contract as long as no transaction is cut by the row
  limit and the clean-up does not pass the saved offset.
\<close>

section \<open>Ticks over a replaying reader\<close>

lemma io_bind_cases:
  assumes "io_bind m f w = (r, w')"
  obtains e where "m w = (Inl e, w')" "r = Inl e" | a w1 where "m w = (Inr a, w1)" "f a w1 = (r, w')"
  using assms by (auto simp: io_bind_def split: prod.splits sum.splits)

lemma io_return_simp [simp]: "io_return a w = (Inr a, w)"
  by (simp add: io_return_def)

text \<open>
  \<open>due w x\<close>: the hashes of the events that an offset \<open>x\<close> stands for; \<open>logged w\<close>: those in the
  log; \<open>known w x\<close>: \<open>x\<close> is an offset the source has reached; \<open>fair w\<close>: what the source has to
  guarantee when a tick reads.
\<close>

locale cdc_pipeline =
  fixes ports :: "'w cdc_ports"
    and stored :: "'w \<Rightarrow> cdc_offset option"
    and logged :: "'w \<Rightarrow> string set"
    and due :: "'w \<Rightarrow> cdc_offset option \<Rightarrow> string set"
    and fair :: "'w \<Rightarrow> bool"
    and known :: "'w \<Rightarrow> cdc_offset option \<Rightarrow> bool"
    and hash :: "cdc_change \<Rightarrow> string"
    and limit :: int
  assumes setup_pure: "port_setup ports w = (u, w') \<Longrightarrow> w' = w"
    and load_stored: "port_load ports w = (found, w') \<Longrightarrow> w' = w \<and> (\<forall>o'. found = Inr o' \<longrightarrow> o' = stored w)"
    and read_covers: "fair w \<Longrightarrow> port_read ports (stored w) limit w = (got, w') \<Longrightarrow> w' = w
      \<and> (\<forall>b next_offset. got = Inr b \<longrightarrow> cb_next_offset b = Some next_offset \<longrightarrow>
           due w (Some next_offset) \<subseteq> due w (stored w) \<union> hash ` set (cb_changes b)
           \<and> (known w (stored w) \<longrightarrow> known w (Some next_offset)))"
    and quarantine_pure: "port_quarantine ports records w = (u, w') \<Longrightarrow> w' = w"
    and apply_logs: "port_apply ports b w = (applied, w') \<Longrightarrow> stored w' = stored w \<and> due w' = due w \<and> known w' = known w \<and> logged w \<subseteq> logged w'
      \<and> (\<forall>receipt. applied = Inr receipt \<longrightarrow> ar_passed receipt \<longrightarrow> hash ` set (cb_changes b) \<subseteq> logged w')"
    and save_stores: "port_save ports o' w = (u, w') \<Longrightarrow> stored w' \<in> {stored w, Some o'} \<and> due w' = due w \<and> known w' = known w \<and> logged w' = logged w"
    and report_pure: "port_report ports rep w = (u, w') \<Longrightarrow> w' = w"
begin

definition complete :: "'w \<Rightarrow> bool" where
  "complete w = (known w (stored w) \<and> due w (stored w) \<subseteq> logged w)"

lemma complete_mono:
  "complete w \<Longrightarrow> stored w1 = stored w \<Longrightarrow> due w1 = due w \<Longrightarrow> known w1 = known w \<Longrightarrow> logged w \<subseteq> logged w1 \<Longrightarrow> complete w1"
  unfolding complete_def by (metis subset_trans)

lemma sink_blockers_none: "sink_blockers r = [] \<Longrightarrow> ar_passed r \<and> ar_durable r"
  by (auto simp: sink_blockers_def Let_def split: if_splits)

text \<open>The offset is saved only after a receipt without blockers, in the mode that refuses poison.\<close>

lemma settle_cases:
  assumes "settle_tick policy ports start b applied records blockers receipt w = (r, w')" "rp_poison_mode policy = FailClosed"
  obtains "w' = w"
  | next_offset rcp u where "cb_next_offset b = Some next_offset" "receipt = Some rcp" "blockers = []"
      "receipt_blockers b receipt = []" "port_save ports next_offset w = (u, w')"
  using assms(1) unfolding settle_tick_def Let_def
  by (elim io_bind_cases; cases "cb_next_offset b"; cases receipt)
    (auto split: if_splits simp: assms(2) elim!: io_bind_cases dest!: report_pure)

text \<open>When poison is refused, the sink only ever sees the batch as it was read.\<close>

lemma applied_as_read:
  assumes "rp_poison_mode policy = FailClosed"
    "poison_blockers policy records (idempotency_evaluate sha key (cb_changes (applied_batch policy b clean records))) = []"
  shows "applied_batch policy b clean records = b"
  using assms by (auto simp: poison_blockers_def applied_batch_def split: if_splits)

lemma apply_and_commit_cases:
  assumes "apply_and_commit sha policy st ports start b clean records w = (r, w')" "rp_poison_mode policy = FailClosed"
  obtains "w' = w"
  | x w1 where "port_apply ports b w = (x, w1)" "w' = w1"
  | rcp w1 next_offset u where "port_apply ports b w = (Inr rcp, w1)" "ar_passed rcp" "cb_next_offset b = Some next_offset"
      "port_save ports next_offset w1 = (u, w')"
proof -
  define applied where "applied = applied_batch policy b clean records"
  define blockers where "blockers = poison_blockers policy records (idempotency_evaluate sha (cs_unique_key st) (cb_changes applied))"
  have as_read: "applied = b" if "blockers = []"
    using applied_as_read [OF assms(2)] that by (simp add: applied_def blockers_def)
  from assms(1) have "io_bind (if blockers = [] \<and> (cb_changes applied \<noteq> [] \<or> rp_commit_empty_batches policy)
      then io_bind (port_apply ports applied) (\<lambda>r. io_return (Some r)) else io_return None)
      (settle_tick policy ports start b applied records blockers) w = (r, w')"
    by (simp only: apply_and_commit_def applied_def blockers_def Let_def)
  then show thesis
  proof (cases rule: io_bind_cases)
    case (1 e)
    then show ?thesis using as_read that(2) by (auto split: if_splits elim!: io_bind_cases)
  next
    case (2 receipt w1)
    from 2(1) as_read have act: "w1 = w \<and> receipt = None \<or> (\<exists>rcp. receipt = Some rcp \<and> port_apply ports b w = (Inr rcp, w1))"
      by (auto split: if_splits elim!: io_bind_cases)
    from 2(2) assms(2) show ?thesis
    proof (cases rule: settle_cases)
      case 1
      with act that(1,2) show ?thesis by blast
    next
      case (2 next_offset rcp u)
      then have "ar_passed rcp" using sink_blockers_none [of rcp] by (auto simp: receipt_blockers_def)
      with 2 act that(3) show ?thesis by blast
    qed
  qed
qed

lemma apply_and_commit_complete:
  assumes "complete w" "rp_poison_mode policy = FailClosed"
    and cover: "\<And>next_offset. cb_next_offset b = Some next_offset \<Longrightarrow> due w (Some next_offset) \<subseteq> due w (stored w) \<union> hash ` set (cb_changes b)
      \<and> known w (Some next_offset)"
    and run: "apply_and_commit sha policy st ports start b clean records w = (r, w')"
  shows "complete w'"
  using run assms(2)
proof (cases rule: apply_and_commit_cases)
  case (2 x w1)
  with apply_logs [OF 2(1)] complete_mono [OF assms(1)] show ?thesis by blast
next
  case (3 rcp w1 next_offset u)
  note a = apply_logs [OF 3(1)]
  then have kept: "complete w1" using complete_mono [OF assms(1)] by blast
  from a 3(2) have "hash ` set (cb_changes b) \<subseteq> logged w1" by simp
  moreover from cover [OF 3(3)] a have "known w1 (Some next_offset)"
    "due w1 (Some next_offset) \<subseteq> due w (stored w) \<union> hash ` set (cb_changes b)" by simp_all
  moreover have "due w (stored w) \<subseteq> logged w1" using assms(1) a unfolding complete_def by blast
  ultimately have "known w1 (Some next_offset)" "due w1 (Some next_offset) \<subseteq> logged w1" by blast+
  with save_stores [OF 3(4)] kept show ?thesis unfolding complete_def by auto
qed (use assms(1) in simp)

text \<open>A tick that reads a batch ends in its application, or changes nothing.\<close>

lemma run_once_cases:
  assumes "run_once sha policy st ports w = (r, w')" "fair w" "rp_max_changes policy = limit"
  obtains "w' = w"
  | b clean records where "port_read ports (stored w) limit w = (Inr b, w)"
      "apply_and_commit sha policy st ports (stored w) b clean records w = (r, w')"
  using assms(1) unfolding run_once_def
proof (elim io_bind_cases)
  fix u w1 start w2 b w3
  assume s: "port_setup ports w = (Inr u, w1)" and l: "port_load ports w1 = (Inr start, w2)"
    and rd: "port_read ports start (rp_max_changes policy) w2 = (Inr b, w3)"
    and k: "(case poison_classify sha st (cb_changes b) of (clean, records) \<Rightarrow>
      io_bind (if records = [] then io_return () else port_quarantine ports records)
        (\<lambda>_. apply_and_commit sha policy st ports start b clean records)) w3 = (r, w')"
  from setup_pure [OF s] load_stored [OF l] have w: "w1 = w" "w2 = w" "start = stored w" by auto
  with read_covers [OF assms(2)] rd assms(3) have w3: "w3 = w" by blast
  from k w3 quarantine_pure obtain clean records where
    "apply_and_commit sha policy st ports start b clean records w = (r, w') \<or> w' = w"
    by (auto elim!: io_bind_cases split: prod.splits if_splits) blast+
  with that rd w w3 assms(3) show thesis by auto
qed (use that(1) in \<open>auto dest!: setup_pure load_stored read_covers [OF assms(2)] simp: assms(3)\<close>)

lemma run_once_complete:
  assumes "complete w" "fair w" "rp_poison_mode policy = FailClosed" "rp_max_changes policy = limit"
    "run_once sha policy st ports w = (r, w')"
  shows "complete w'"
  using assms(5,2,4)
proof (cases rule: run_once_cases)
  case (2 b clean records)
  have "due w (Some next_offset) \<subseteq> due w (stored w) \<union> hash ` set (cb_changes b) \<and> known w (Some next_offset)"
    if "cb_next_offset b = Some next_offset" for next_offset
    using read_covers [OF assms(2) 2(1)] that assms(1) unfolding complete_def by blast
  from apply_and_commit_complete [OF assms(1,3) this 2(2)] show ?thesis .
qed (use assms(1) in simp)

end

text \<open>\<open>exact w\<close>: an invariant that the sink keeps for the batches that come from the source.\<close>

locale cdc_exact = cdc_pipeline +
  fixes exact :: "'a \<Rightarrow> bool"
    and from_source :: "'a \<Rightarrow> cdc_batch \<Rightarrow> bool"
  assumes read_from: "fair w \<Longrightarrow> port_read ports (stored w) limit w = (Inr b, w') \<Longrightarrow> from_source w b"
    and apply_exact: "exact w \<Longrightarrow> from_source w b \<Longrightarrow> port_apply ports b w = (applied, w') \<Longrightarrow> exact w'"
    and save_exact: "exact w \<Longrightarrow> port_save ports o' w = (u, w') \<Longrightarrow> exact w'"
begin

lemma run_once_exact:
  assumes "exact w" "fair w" "rp_poison_mode policy = FailClosed" "rp_max_changes policy = limit"
    "run_once sha policy st ports w = (r, w')"
  shows "exact w'"
  using assms(5,2,4)
proof (cases rule: run_once_cases)
  case (2 b clean records)
  note src = read_from [OF assms(2) 2(1)]
  from 2(2) assms(3) show ?thesis
  proof (cases rule: apply_and_commit_cases)
    case (2 x w1)
    with apply_exact [OF assms(1) src] show ?thesis by blast
  next
    case (3 rcp w1 next_offset u)
    with apply_exact [OF assms(1) src] save_exact show ?thesis by blast
  qed (use assms(1) in simp)
qed (use assms(1) in simp)

end

end
