(* ===== verification/Cdc_Sync.thy ===== *)
theory Cdc_Sync
  imports Cdc_Log
begin

text \<open>
  The runtime from SQL Server's change tables to the ClickHouse log
  (\<open>src/dpone/runtime/cdc/live_factory.py\<close> composes it): its ports with the failures of a
  tick, the system of ticks and source transactions, and the invariant that the properties in
  \<open>Cdc_Delivery\<close> rest on.
\<close>

section \<open>The live ports\<close>

text \<open>
  \<open>cw_history\<close> is every row ever captured, in order; the code sees \<open>cw_capture\<close>, the log and
  the state table.
\<close>

record cdc_world =
  cw_history :: "cdc_row list"
  cw_capture :: cdc_capture
  cw_log :: "log_row list"
  cw_offsets :: offset_table

text \<open>What fails in a tick; a failing write of the offset may have reached the table.\<close>

record tick_faults =
  tf_setup :: "py_exn option"
  tf_load :: "py_exn option"
  tf_read :: "py_exn option"
  tf_quarantine :: "py_exn option"
  tf_sink :: sink_faults
  tf_save :: "bool option"
  tf_report :: "py_exn option"

record live_route =
  lv_sha :: "string \<Rightarrow> string"
  lv_database :: string
  lv_now :: pyval
  lv_capture_instance :: "string option"
  lv_columns :: "string list"
  lv_stream :: cdc_stream

text \<open>\<open>CdcRuntimeLiveAdapterFactory.mssql_reader\<close>: the reader of a stream.\<close>

datatype live_reader = TableReader mssql_config | TrackingReader string string "string list"

definition mssql_reader :: "cdc_stream \<Rightarrow> string option \<Rightarrow> string list \<Rightarrow> live_reader res" where
  "mssql_reader st capture_instance tracking_keys =
     (case cs_backend st of
        MssqlCdc \<Rightarrow> Inr (TableReader
          \<lparr>mg_source_schema = cs_source_schema st, mg_source_table = cs_source_table st, mg_source_database = [],
           mg_capture_instance = capture_instance, mg_include_update_before = False\<rparr>)
      | MssqlChangeTracking \<Rightarrow> Inr (TrackingReader (cs_source_schema st) (cs_source_table st)
          (if tracking_keys \<noteq> [] then tracking_keys else cs_unique_key st))
      | PostgresLogical \<Rightarrow> Inl (ValueError ''Unsupported MSSQL live CDC backend: postgres_logical''))"

definition lv_config :: "live_route \<Rightarrow> mssql_config" where
  "lv_config lv = \<lparr>mg_source_schema = cs_source_schema (lv_stream lv), mg_source_table = cs_source_table (lv_stream lv),
     mg_source_database = [], mg_capture_instance = lv_capture_instance lv, mg_include_update_before = False\<rparr>"

lemma table_reader: "cs_backend (lv_stream lv) = MssqlCdc \<Longrightarrow> mssql_reader (lv_stream lv) (lv_capture_instance lv) keys = Inr (TableReader (lv_config lv))"
  by (simp add: mssql_reader_def lv_config_def)

definition failing :: "py_exn option \<Rightarrow> 'a res \<Rightarrow> 'a res" where
  "failing fault r = (case fault of Some e \<Rightarrow> Inl e | None \<Rightarrow> r)"

definition live_save :: "cdc_stream \<Rightarrow> bool option \<Rightarrow> cdc_offset \<Rightarrow> (cdc_world, unit) io" where
  "live_save st fault o' w =
     (case fault of
        None \<Rightarrow> (Inr (), w\<lparr>cw_offsets := sql_save_offset st o' (cw_offsets w)\<rparr>)
      | Some written \<Rightarrow> (Inl (AppError ''ProgrammingError'' ''write failed''),
          if written then w\<lparr>cw_offsets := sql_save_offset st o' (cw_offsets w)\<rparr> else w))"

definition live_ports :: "live_route \<Rightarrow> tick_faults \<Rightarrow> cdc_world cdc_ports" where
  "live_ports lv f =
     \<lparr>port_setup = (\<lambda>w. (failing (tf_setup f) (Inr ()), w)),
      port_load = (\<lambda>w. (failing (tf_load f) (sql_load_offset (lv_stream lv) (cw_offsets w)), w)),
      port_read = (\<lambda>start n w. (failing (tf_read f) (read_cdc_batch (lv_config lv) (lv_columns lv) (cw_capture w) start n), w)),
      port_quarantine = (\<lambda>records w. (failing (tf_quarantine f) (Inr ()), w)),
      port_apply = (\<lambda>b w. case clickhouse_apply (lv_sha lv) (lv_database lv) (lv_now lv) (tf_sink f) (lv_stream lv) b (cw_log w) of
        (r, table) \<Rightarrow> (r, w\<lparr>cw_log := table\<rparr>)),
      port_save = live_save (lv_stream lv) (tf_save f),
      port_report = (\<lambda>report w. (failing (tf_report f) (Inr ()), w))\<rparr>"

definition stored_offset :: "cdc_stream \<Rightarrow> cdc_world \<Rightarrow> cdc_offset option" where
  "stored_offset st w = (case sql_load_offset st (cw_offsets w) of Inr x \<Rightarrow> x | Inl _ \<Rightarrow> None)"

section \<open>What the source guarantees\<close>

text \<open>The function of the change table answers with the captured rows of the range, in order.\<close>

definition capture_ok :: "cdc_row list \<Rightarrow> cdc_capture \<Rightarrow> bool" where
  "capture_ok history cap = (sorted (map mr_lsn history) \<and> (\<forall>r\<in>set history. mr_lsn r < lsn_bound)
     \<and> (\<forall>m lo hi rows. cp_min cap = Some m \<longrightarrow> m \<le> lo \<longrightarrow> cp_changes cap lo hi = Inr rows
          \<longrightarrow> rows = filter (\<lambda>r. lo \<le> mr_lsn r \<and> mr_lsn r \<le> hi) history))"

text \<open>The clean-up has not passed the first number that is still to be read.\<close>

definition still_there :: "cdc_row list \<Rightarrow> cdc_capture \<Rightarrow> cdc_offset option \<Rightarrow> bool" where
  "still_there history cap start =
     (\<forall>m. cp_min cap = Some m \<longrightarrow> (\<forall>r\<in>set history. mr_lsn r < m \<longrightarrow>
        (\<exists>x n. start = Some x \<and> lsn_of_text (co_token x) = Inr n \<and> mr_lsn r \<le> n)))"

text \<open>The row limit does not cut a transaction.\<close>

definition uncut :: "cdc_capture \<Rightarrow> cdc_offset option \<Rightarrow> int \<Rightarrow> bool" where
  "uncut cap start max_changes =
     (\<forall>requested lo hi rows. requested_from_lsn (cp_min cap) (map_option co_token start) = Inr requested \<longrightarrow>
        from_lsn (cp_min cap) requested = Some lo \<longrightarrow> cp_max cap = Some hi \<longrightarrow> cp_changes cap lo hi = Inr rows \<longrightarrow>
        (\<forall>r\<in>set (take (nat max_changes) rows). \<forall>q\<in>set (drop (nat max_changes) rows). mr_lsn r < mr_lsn q))"

text \<open>The events up to an offset.\<close>

definition events_upto :: "live_route \<Rightarrow> cdc_row list \<Rightarrow> cdc_offset option \<Rightarrow> cdc_change list" where
  "events_upto lv history x =
     (case x of None \<Rightarrow> []
      | Some o' \<Rightarrow> (case lsn_of_text (co_token o') of Inl _ \<Rightarrow> []
          | Inr n \<Rightarrow> List.map_filter (mssql_change (lv_config lv) (lv_columns lv)) (filter (\<lambda>r. mr_lsn r \<le> n) history)))"

definition event_hash :: "live_route \<Rightarrow> cdc_change \<Rightarrow> string" where
  "event_hash lv = cdc_event_hash (lv_sha lv) (cs_unique_key (lv_stream lv))"

definition due_hashes :: "live_route \<Rightarrow> cdc_world \<Rightarrow> cdc_offset option \<Rightarrow> string set" where
  "due_hashes lv w x = event_hash lv ` set (events_upto lv (cw_history w) x)"

text \<open>The offset of a captured row, or none yet.\<close>

definition reached :: "cdc_world \<Rightarrow> cdc_offset option \<Rightarrow> bool" where
  "reached w x = (case x of None \<Rightarrow> True | Some o' \<Rightarrow> (\<exists>r\<in>set (cw_history w). co_token o' = lsn_text (mr_lsn r)))"

definition log_hashes :: "cdc_world \<Rightarrow> string set" where
  "log_hashes w = lr_event_hash ` set (cw_log w)"

definition tick_fair :: "live_route \<Rightarrow> int \<Rightarrow> cdc_world \<Rightarrow> bool" where
  "tick_fair lv limit w =
     (capture_ok (cw_history w) (cw_capture w)
      \<and> still_there (cw_history w) (cw_capture w) (stored_offset (lv_stream lv) w)
      \<and> uncut (cw_capture w) (stored_offset (lv_stream lv) w) limit)"

section \<open>The pipeline keeps its contract\<close>

lemma backend_offset_Some: "backend_offset b high = Some x \<longleftrightarrow> (\<exists>t. high = Some t \<and> x = \<lparr>co_backend = b, co_token = t, co_snapshot_complete = True\<rparr>)"
  by (auto simp: backend_offset_def split: option.splits)

text \<open>A read that returns rows: the numbers it computed, and what the function answered.\<close>

lemma query_changes_rows:
  assumes "query_changes cap token limit = Inr rows" "rows \<noteq> []"
  obtains requested lo hi m all_rows where "requested_from_lsn (cp_min cap) token = Inr requested" "cp_min cap = Some m"
    "from_lsn (cp_min cap) requested = Some lo" "m \<le> lo" "lo = m \<or> requested = Some lo" "cp_max cap = Some hi"
    "cp_changes cap lo hi = Inr all_rows" "rows = take (nat limit) all_rows"
proof -
  obtain requested where req: "requested_from_lsn (cp_min cap) token = Inr requested"
    using assms(1) by (auto simp: query_changes_def bind_res_eq_Inr)
  obtain lo where lo: "from_lsn (cp_min cap) requested = Some lo"
    using assms req by (cases "from_lsn (cp_min cap) requested") (auto simp: query_changes_def)
  obtain hi where hi: "cp_max cap = Some hi"
    using assms req lo by (cases "cp_max cap") (auto simp: query_changes_def)
  obtain all_rows where all: "cp_changes cap lo hi = Inr all_rows" "rows = take (nat limit) all_rows"
    using assms(1) req lo hi by (auto simp: query_changes_def bind_res_eq_Inr)
  obtain m where m: "cp_min cap = Some m" "m \<le> lo" "lo = m \<or> requested = Some lo"
    using lo by (auto simp: from_lsn_def split: option.splits if_splits)
  show thesis by (rule that [OF req m(1) lo m(2,3) hi all])
qed

text \<open>The rows a read returns, between the two offsets.\<close>

lemma query_covers:
  assumes ok: "capture_ok history cap" and there: "still_there history cap start" and cut: "uncut cap start limit"
    and q: "query_changes cap (map_option co_token start) limit = Inr rows" "rows \<noteq> []"
    and r: "r \<in> set history" "mr_lsn r \<le> mr_lsn (last rows)"
  shows "r \<in> set rows \<or> (\<exists>x n. start = Some x \<and> lsn_of_text (co_token x) = Inr n \<and> mr_lsn r \<le> n)"
proof -
  obtain requested lo hi m all_rows where req: "requested_from_lsn (cp_min cap) (map_option co_token start) = Inr requested"
    and m: "cp_min cap = Some m" "m \<le> lo" and lo: "from_lsn (cp_min cap) requested = Some lo"
    and lo_eq: "lo = m \<or> requested = Some lo" and hi: "cp_max cap = Some hi"
    and all: "cp_changes cap lo hi = Inr all_rows" and rows: "rows = take (nat limit) all_rows"
    using q by (rule query_changes_rows)
  have all_eq: "all_rows = filter (\<lambda>r. lo \<le> mr_lsn r \<and> mr_lsn r \<le> hi) history"
    using ok m all by (auto simp: capture_ok_def)
  have last_in: "last rows \<in> set rows" using q(2) by simp
  then have "last rows \<in> set all_rows" using rows in_set_takeD by metis
  with all_eq r(2) have hi_r: "mr_lsn r \<le> hi" by auto
  show ?thesis
  proof (cases "lo \<le> mr_lsn r")
    case True
    with all_eq r(1) hi_r have "r \<in> set all_rows" by simp
    then have "r \<in> set rows \<or> r \<in> set (drop (nat limit) all_rows)"
      unfolding rows by (metis append_take_drop_id UnE set_append)
    then show ?thesis
    proof
      assume "r \<in> set (drop (nat limit) all_rows)"
      with cut req lo hi all last_in rows have "mr_lsn (last rows) < mr_lsn r" by (auto simp: uncut_def)
      with r(2) show ?thesis by simp
    qed simp
  next
    case below: False
    show ?thesis
    proof (cases "mr_lsn r < m")
      case True
      with there m r(1) show ?thesis by (auto simp: still_there_def)
    next
      case False
      with below lo_eq have "requested = Some lo" by auto
      with below False req m(1) obtain x n where "start = Some x" "lsn_of_text (co_token x) = Inr n" "lo = n + 1"
        by (auto simp: requested_from_lsn_def bind_res_eq_Inr split: option.splits if_splits)
      with below show ?thesis by auto
    qed
  qed
qed

lemma in_map_filter: "y \<in> set (List.map_filter f xs) \<longleftrightarrow> (\<exists>x\<in>set xs. f x = Some y)"
  by (induction xs) (auto simp: map_filter_simps split: option.splits)

lemma history_bound: "capture_ok history cap \<Longrightarrow> r \<in> set history \<Longrightarrow> lsn_of_text (lsn_text (mr_lsn r)) = Inr (mr_lsn r)"
  by (simp add: capture_ok_def lsn_roundtrip)

lemma capture_answers:
  "capture_ok history cap \<Longrightarrow> cp_min cap = Some m \<Longrightarrow> m \<le> lo \<Longrightarrow> cp_changes cap lo hi = Inr rows
    \<Longrightarrow> rows = filter (\<lambda>r. lo \<le> mr_lsn r \<and> mr_lsn r \<le> hi) history"
  unfolding capture_ok_def by blast

lemma query_rows_captured:
  assumes "capture_ok history cap" "query_changes cap token limit = Inr rows" "rows \<noteq> []"
  obtains lo hi where "rows = take (nat limit) (filter (\<lambda>r. lo \<le> mr_lsn r \<and> mr_lsn r \<le> hi) history)"
proof -
  from assms(2,3) obtain requested lo hi m all_rows where "cp_min cap = Some m" "m \<le> lo" "cp_changes cap lo hi = Inr all_rows"
    "rows = take (nat limit) all_rows" by (rule query_changes_rows)
  then have "rows = take (nat limit) (filter (\<lambda>r. lo \<le> mr_lsn r \<and> mr_lsn r \<le> hi) history)"
    using capture_answers [OF assms(1)] by simp
  then show thesis by (rule that)
qed

lemma query_rows_subset: "capture_ok history cap \<Longrightarrow> query_changes cap token limit = Inr rows \<Longrightarrow> set rows \<subseteq> set history"
  by (cases "rows = []") (simp, metis query_rows_captured filter_is_subset set_take_subset subset_trans)

text \<open>A batch: the kept changes of the rows, and the number of the last one.\<close>

lemma read_cdc_batch_cases:
  assumes "read_cdc_batch cfg columns cap start limit = Inr b"
  obtains "cb_changes b = []" "map_option co_token (cb_next_offset b) = map_option co_token start"
  | rows where "query_changes cap (map_option co_token start) limit = Inr rows" "rows \<noteq> []"
      "cb_changes b = List.map_filter (mssql_change cfg columns) rows"
      "map_option co_token (cb_next_offset b) = Some (lsn_text (mr_lsn (last rows)))"
proof (cases "columns = []")
  case True
  then show ?thesis using assms that(1) by (auto simp: read_cdc_batch_def bind_res_eq_Inr backend_offset_def split: option.splits)
next
  case False
  with assms obtain rows where q: "query_changes cap (map_option co_token start) limit = Inr rows"
    and b: "b = \<lparr>cb_changes = List.map_filter (mssql_change cfg columns) rows,
      cb_next_offset = backend_offset MssqlCdc (if rows = [] then map_option co_token start else Some (lsn_text (mr_lsn (last rows)))),
      cb_high_watermark = (if rows = [] then map_option co_token start else Some (lsn_text (mr_lsn (last rows))))\<rparr>"
    by (auto simp: read_cdc_batch_def bind_res_eq_Inr Let_def read_cdc_rows_eq)
  show ?thesis
  proof (cases "rows = []")
    case True
    with b that(1) show ?thesis by (auto simp: backend_offset_def map_filter_simps split: option.splits)
  next
    case False
    with b that(2) [OF q] show ?thesis by (simp add: backend_offset_def)
  qed
qed

lemma read_covers_due:
  assumes ok: "capture_ok (cw_history w) (cw_capture w)" and there: "still_there (cw_history w) (cw_capture w) start"
    and cut: "uncut (cw_capture w) start limit"
    and rd: "read_cdc_batch (lv_config lv) (lv_columns lv) (cw_capture w) start limit = Inr b" and n: "cb_next_offset b = Some x"
  shows "due_hashes lv w (Some x) \<subseteq> due_hashes lv w start \<union> event_hash lv ` set (cb_changes b)"
    and "reached w start \<longrightarrow> reached w (Some x)"
proof -
  let ?change = "mssql_change (lv_config lv) (lv_columns lv)"
  have "due_hashes lv w (Some x) \<subseteq> due_hashes lv w start \<union> event_hash lv ` set (cb_changes b)
    \<and> (reached w start \<longrightarrow> reached w (Some x))"
    using rd
  proof (cases rule: read_cdc_batch_cases)
    case 1
    with n obtain y where "start = Some y" "co_token x = co_token y" by (cases start) auto
    then show ?thesis by (auto simp: due_hashes_def events_upto_def reached_def)
  next
    case (2 rows)
    have last_in: "last rows \<in> set (cw_history w)" using query_rows_subset [OF ok 2(1)] 2(2) by (meson last_in_set subsetD)
    have x: "co_token x = lsn_text (mr_lsn (last rows))" using n 2(4) by simp
    have "set (filter (\<lambda>r. mr_lsn r \<le> mr_lsn (last rows)) (cw_history w))
      \<subseteq> set rows \<union> (case start of None \<Rightarrow> {} | Some y \<Rightarrow> (case lsn_of_text (co_token y) of Inl _ \<Rightarrow> {}
           | Inr k \<Rightarrow> set (filter (\<lambda>r. mr_lsn r \<le> k) (cw_history w))))"
      using query_covers [OF ok there cut 2(1,2)] by fastforce
    then have "set (events_upto lv (cw_history w) (Some x)) \<subseteq> set (cb_changes b) \<union> set (events_upto lv (cw_history w) start)"
      unfolding events_upto_def 2(3) x option.case history_bound [OF ok last_in] sum.case
      by (auto simp: in_map_filter split: option.splits sum.splits) force+
    then show ?thesis using last_in x by (auto simp: due_hashes_def reached_def)
  qed
  then show "due_hashes lv w (Some x) \<subseteq> due_hashes lv w start \<union> event_hash lv ` set (cb_changes b)"
    "reached w start \<longrightarrow> reached w (Some x)" by simp_all
qed

lemma row_hash [simp]: "lr_event_hash (cdc_event_row (lv_sha lv) now (lv_stream lv) c) = event_hash lv c"
  by (simp add: cdc_event_row_def event_hash_def Let_def)

text \<open>The new rows of an application: one for each event whose hash is not in the log.\<close>

definition fresh_rows :: "live_route \<Rightarrow> cdc_batch \<Rightarrow> log_row list \<Rightarrow> log_row list" where
  "fresh_rows lv b table =
     (let rows = map (cdc_event_row (lv_sha lv) (lv_now lv) (lv_stream lv)) (cb_changes b) in
      filter (\<lambda>r. lr_event_hash r \<notin> existing_event_hashes table rows) rows)"

lemma clickhouse_apply_cases:
  assumes "clickhouse_apply (lv_sha lv) database (lv_now lv) faults (lv_stream lv) b table = (applied, table')"
  obtains n where "table' = table @ take n (fresh_rows lv b table)" "\<And>receipt. applied = Inr receipt \<Longrightarrow> \<not> ar_passed receipt"
  | "table' = table @ fresh_rows lv b table"
proof -
  have "(table' = table @ take 0 (fresh_rows lv b table) \<or> (\<exists>n. table' = table @ take n (fresh_rows lv b table)))
      \<and> (\<forall>receipt. applied = Inr receipt \<longrightarrow> \<not> ar_passed receipt) \<or> table' = table @ fresh_rows lv b table"
    using assms unfolding clickhouse_apply_def fresh_rows_def Let_def failure_receipt_def
    by (cases "split_dataset database (cs_target_dataset (lv_stream lv))"; cases "cf_lookup faults"; cases "cf_insert faults")
      (auto simp: split_beta split: if_split_asm)
  with that show thesis by blast
qed

text \<open>A success means that every event of the batch is in the log.\<close>

lemma fresh_rows_logged:
  "event_hash lv ` set (cb_changes b) \<subseteq> lr_event_hash ` set (table @ fresh_rows lv b table)"
proof -
  define rows where "rows = map (cdc_event_row (lv_sha lv) (lv_now lv) (lv_stream lv)) (cb_changes b)"
  have "existing_event_hashes table rows \<subseteq> lr_event_hash ` set table"
    by (auto simp: existing_event_hashes_def split: list.splits)
  then have "lr_event_hash ` set rows \<subseteq> lr_event_hash ` set (table @ filter (\<lambda>r. lr_event_hash r \<notin> existing_event_hashes table rows) rows)"
    by auto
  then show ?thesis by (simp add: rows_def fresh_rows_def image_image Let_def)
qed

text \<open>The rows of another stream aside, a new row has a hash that the log does not hold.\<close>

lemma fresh_rows_new:
  assumes "\<forall>r\<in>set table. lr_stream_id r = stream_id (lv_stream lv)" "r \<in> set (fresh_rows lv b table)"
  shows "lr_event_hash r \<notin> lr_event_hash ` set table" "lr_event_hash r \<in> event_hash lv ` set (cb_changes b)"
    "lr_stream_id r = stream_id (lv_stream lv)"
proof -
  define rows where "rows = map (cdc_event_row (lv_sha lv) (lv_now lv) (lv_stream lv)) (cb_changes b)"
  have r: "r \<in> set rows" "lr_event_hash r \<notin> existing_event_hashes table rows"
    using assms(2) by (simp_all add: fresh_rows_def rows_def Let_def)
  have st: "\<forall>x\<in>set rows. lr_stream_id x = stream_id (lv_stream lv)" by (auto simp: rows_def cdc_event_row_def Let_def)
  with r(1) show "lr_stream_id r = stream_id (lv_stream lv)" by blast
  from r(1) obtain first rest where first: "rows = first # rest" by (cases rows) auto
  with st have "lr_stream_id first = stream_id (lv_stream lv)" by simp
  with r assms(1) first show "lr_event_hash r \<notin> lr_event_hash ` set table"
    by (simp add: existing_event_hashes_def image_iff) metis
  from r(1) show "lr_event_hash r \<in> event_hash lv ` set (cb_changes b)" by (auto simp: rows_def)
qed

section \<open>The live ports keep the contract\<close>

text \<open>The events of the history, and what the log holds of them.\<close>

definition history_events :: "live_route \<Rightarrow> cdc_world \<Rightarrow> cdc_change list" where
  "history_events lv w = List.map_filter (mssql_change (lv_config lv) (lv_columns lv)) (cw_history w)"

definition once_each :: "live_route \<Rightarrow> cdc_world \<Rightarrow> bool" where
  "once_each lv w = ((\<forall>r\<in>set (cw_log w). lr_stream_id r = stream_id (lv_stream lv))
     \<and> log_hashes w \<subseteq> event_hash lv ` set (history_events lv w)
     \<and> (distinct (map (event_hash lv) (history_events lv w)) \<longrightarrow> distinct (map lr_event_hash (cw_log w))))"

definition of_history :: "live_route \<Rightarrow> cdc_world \<Rightarrow> cdc_batch \<Rightarrow> bool" where
  "of_history lv w b = (event_hash lv ` set (cb_changes b) \<subseteq> event_hash lv ` set (history_events lv w)
     \<and> (distinct (map (event_hash lv) (history_events lv w)) \<longrightarrow> distinct (map (event_hash lv) (cb_changes b))))"

lemma map_filter_append: "List.map_filter f (xs @ ys) = List.map_filter f xs @ List.map_filter f ys"
  by (simp add: List.map_filter_def)

lemma distinct_map_filter_filter:
  "distinct (map h (List.map_filter f xs)) \<Longrightarrow> distinct (map h (List.map_filter f (filter P xs)))"
proof (induction xs)
  case (Cons x xs)
  have "h ` set (List.map_filter f (filter P xs)) \<subseteq> h ` set (List.map_filter f xs)" by (rule image_mono) (auto simp: in_map_filter)
  with Cons show ?case by (auto simp: map_filter_simps split: option.splits)
qed simp

lemma distinct_map_filter_take:
  "distinct (map h (List.map_filter f xs)) \<Longrightarrow> distinct (map h (List.map_filter f (take n xs)))"
  using map_filter_append [of f "take n xs" "drop n xs"] by simp

lemma read_of_history:
  assumes "capture_ok (cw_history w) (cw_capture w)"
    "read_cdc_batch (lv_config lv) (lv_columns lv) (cw_capture w) start limit = Inr b"
  shows "of_history lv w b"
  using assms(2)
proof (cases rule: read_cdc_batch_cases)
  case 1
  then show ?thesis by (simp add: of_history_def)
next
  case (2 rows)
  from assms(1) 2(1,2) obtain lo hi where "rows = take (nat limit) (filter (\<lambda>r. lo \<le> mr_lsn r \<and> mr_lsn r \<le> hi) (cw_history w))"
    by (rule query_rows_captured)
  moreover have "set rows \<subseteq> set (cw_history w)" by (rule query_rows_subset [OF assms(1) 2(1)])
  then have "set (List.map_filter (mssql_change (lv_config lv) (lv_columns lv)) rows) \<subseteq> set (history_events lv w)"
    unfolding history_events_def subset_iff in_map_filter by blast
  ultimately show ?thesis
    unfolding of_history_def 2(3) by (auto simp: history_events_def intro: distinct_map_filter_take distinct_map_filter_filter)
qed

lemma fresh_rows_distinct:
  "distinct (map (event_hash lv) (cb_changes b)) \<Longrightarrow> distinct (map lr_event_hash (fresh_rows lv b table))"
  unfolding fresh_rows_def Let_def by (rule distinct_map_filter) (simp add: o_def)

lemma same_history:
  "cw_history w' = cw_history w \<Longrightarrow> due_hashes lv w' = due_hashes lv w"
  "cw_history w' = cw_history w \<Longrightarrow> reached w' = reached w"
  by (auto simp: fun_eq_iff due_hashes_def reached_def split: option.split)

lemma logged_exact:
  assumes "once_each lv w" "of_history lv w b"
  shows "once_each lv (w\<lparr>cw_log := cw_log w @ take n (fresh_rows lv b (cw_log w))\<rparr>)"
proof -
  let ?new = "take n (fresh_rows lv b (cw_log w))"
  have st: "\<forall>r\<in>set (cw_log w). lr_stream_id r = stream_id (lv_stream lv)" using assms(1) by (simp add: once_each_def)
  have new: "lr_event_hash r \<notin> lr_event_hash ` set (cw_log w)" "lr_event_hash r \<in> event_hash lv ` set (cb_changes b)"
    "lr_stream_id r = stream_id (lv_stream lv)" if "r \<in> set ?new" for r
    using fresh_rows_new [OF st] in_set_takeD [OF that] by blast+
  have "distinct (map lr_event_hash (cw_log w @ ?new))" if "distinct (map (event_hash lv) (history_events lv w))"
  proof -
    have "distinct (map lr_event_hash (cw_log w))" using that assms(1) by (simp add: once_each_def)
    moreover have "distinct (map lr_event_hash ?new)"
    proof -
      have "distinct (map lr_event_hash (fresh_rows lv b (cw_log w)))"
        by (rule fresh_rows_distinct) (use that assms(2) in \<open>simp add: of_history_def\<close>)
      then show ?thesis unfolding take_map [symmetric] by (rule distinct_take)
    qed
    moreover have "lr_event_hash ` set ?new \<inter> lr_event_hash ` set (cw_log w) = {}"
      unfolding disjoint_iff by (intro allI impI, elim imageE) (simp add: new(1))
    ultimately show ?thesis by (simp add: Int_commute)
  qed
  moreover have "lr_event_hash ` set ?new \<subseteq> event_hash lv ` set (history_events lv w)"
  proof -
    have "lr_event_hash ` set ?new \<subseteq> event_hash lv ` set (cb_changes b)" using new(2) by (rule image_subsetI)
    also have "\<dots> \<subseteq> event_hash lv ` set (history_events lv w)" using assms(2) by (simp add: of_history_def)
    finally show ?thesis .
  qed
  moreover have "history_events lv (w\<lparr>cw_log := cw_log w @ ?new\<rparr>) = history_events lv w" by (simp add: history_events_def)
  moreover have "\<forall>r\<in>set ?new. lr_stream_id r = stream_id (lv_stream lv)" using new(3) by blast
  moreover have "log_hashes w \<subseteq> event_hash lv ` set (history_events lv w)" using assms(1) by (simp add: once_each_def)
  ultimately show ?thesis using st by (simp add: once_each_def log_hashes_def ball_Un image_Un)
qed

text \<open>The laws of the ports, one at a time.\<close>

lemma live_apply_log:
  assumes "port_apply (live_ports lv f) b w = (applied, w')"
  obtains n where "w' = w\<lparr>cw_log := cw_log w @ take n (fresh_rows lv b (cw_log w))\<rparr>"
    "\<And>receipt. applied = Inr receipt \<Longrightarrow> ar_passed receipt \<Longrightarrow> event_hash lv ` set (cb_changes b) \<subseteq> log_hashes w'"
proof -
  obtain table' where t: "clickhouse_apply (lv_sha lv) (lv_database lv) (lv_now lv) (tf_sink f) (lv_stream lv) b (cw_log w) = (applied, table')"
    "w' = w\<lparr>cw_log := table'\<rparr>" using assms by (auto simp: live_ports_def split: prod.splits)
  from t(1) show thesis
  proof (cases rule: clickhouse_apply_cases)
    case (1 n)
    with t(2) that show ?thesis by blast
  next
    case 2
    with t(2) that [of "length (fresh_rows lv b (cw_log w))"] fresh_rows_logged [of lv b "cw_log w"] show ?thesis
      by (simp add: log_hashes_def)
  qed
qed

lemma live_apply_keeps:
  assumes "port_apply (live_ports lv f) b w = (applied, w')"
  shows "stored_offset (lv_stream lv) w' = stored_offset (lv_stream lv) w \<and> due_hashes lv w' = due_hashes lv w \<and> reached w' = reached w
    \<and> log_hashes w \<subseteq> log_hashes w'
    \<and> (\<forall>receipt. applied = Inr receipt \<longrightarrow> ar_passed receipt \<longrightarrow> event_hash lv ` set (cb_changes b) \<subseteq> log_hashes w')"
proof -
  obtain n where w': "w' = w\<lparr>cw_log := cw_log w @ take n (fresh_rows lv b (cw_log w))\<rparr>"
    and passed: "\<And>receipt. applied = Inr receipt \<Longrightarrow> ar_passed receipt \<Longrightarrow> event_hash lv ` set (cb_changes b) \<subseteq> log_hashes w'"
    using live_apply_log [OF assms] by blast
  have "due_hashes lv w' = due_hashes lv w" "reached w' = reached w"
    by (rule same_history, simp add: w')+
  moreover have "log_hashes w \<subseteq> log_hashes w'" by (auto simp: w' log_hashes_def)
  ultimately show ?thesis using passed by (simp add: w' stored_offset_def)
qed

lemma live_save_keeps:
  assumes "port_save (live_ports lv f) o' w = (u, w')"
  shows "stored_offset (lv_stream lv) w' \<in> {stored_offset (lv_stream lv) w, Some o'} \<and> due_hashes lv w' = due_hashes lv w
    \<and> reached w' = reached w \<and> log_hashes w' = log_hashes w" "once_each lv w \<Longrightarrow> once_each lv w'"
proof -
  have w': "w' = w \<or> w' = w\<lparr>cw_offsets := sql_save_offset (lv_stream lv) o' (cw_offsets w)\<rparr>"
    using assms by (auto simp: live_ports_def live_save_def split: option.splits if_splits)
  then have same: "cw_history w' = cw_history w" "cw_log w' = cw_log w" by auto
  note same_history [OF same(1)]
  then show "stored_offset (lv_stream lv) w' \<in> {stored_offset (lv_stream lv) w, Some o'} \<and> due_hashes lv w' = due_hashes lv w
    \<and> reached w' = reached w \<and> log_hashes w' = log_hashes w"
    using w' by (auto simp: stored_offset_def log_hashes_def sql_offset_roundtrip split: if_splits)
  show "once_each lv w \<Longrightarrow> once_each lv w'" using same by (simp add: once_each_def log_hashes_def history_events_def)
qed

lemma live_read_keeps:
  assumes "tick_fair lv limit w" "port_read (live_ports lv f) (stored_offset (lv_stream lv) w) limit w = (got, w')"
  shows "w' = w" "got = Inr b \<Longrightarrow> of_history lv w b" "got = Inr b \<Longrightarrow> cb_next_offset b = Some x \<Longrightarrow>
    due_hashes lv w (Some x) \<subseteq> due_hashes lv w (stored_offset (lv_stream lv) w) \<union> event_hash lv ` set (cb_changes b)
    \<and> (reached w (stored_offset (lv_stream lv) w) \<longrightarrow> reached w (Some x))"
proof -
  show "w' = w" using assms(2) by (simp add: live_ports_def)
  have read: "read_cdc_batch (lv_config lv) (lv_columns lv) (cw_capture w) (stored_offset (lv_stream lv) w) limit = Inr b" if "got = Inr b"
    using assms(2) that by (auto simp: live_ports_def failing_def split: option.splits)
  show "of_history lv w b" if "got = Inr b"
    using read_of_history [OF _ read [OF that]] assms(1) by (simp add: tick_fair_def)
  show "due_hashes lv w (Some x) \<subseteq> due_hashes lv w (stored_offset (lv_stream lv) w) \<union> event_hash lv ` set (cb_changes b)
    \<and> (reached w (stored_offset (lv_stream lv) w) \<longrightarrow> reached w (Some x))" if "got = Inr b" "cb_next_offset b = Some x"
    using read_covers_due [OF _ _ _ read [OF that(1)] that(2)] assms(1) by (simp add: tick_fair_def)
qed

interpretation live: cdc_exact "live_ports lv f" "stored_offset (lv_stream lv)" log_hashes "due_hashes lv" "tick_fair lv limit"
  reached "event_hash lv" limit "once_each lv" "of_history lv"
proof unfold_locales
  fix w found w'
  assume "port_load (live_ports lv f) w = (found, w')"
  then show "w' = w \<and> (\<forall>o'. found = Inr o' \<longrightarrow> o' = stored_offset (lv_stream lv) w)"
    by (auto simp: live_ports_def failing_def stored_offset_def split: option.splits)
next
  fix w got w'
  assume r: "tick_fair lv limit w" "port_read (live_ports lv f) (stored_offset (lv_stream lv) w) limit w = (got, w')"
  show "w' = w \<and> (\<forall>b next_offset. got = Inr b \<longrightarrow> cb_next_offset b = Some next_offset \<longrightarrow>
      due_hashes lv w (Some next_offset) \<subseteq> due_hashes lv w (stored_offset (lv_stream lv) w) \<union> event_hash lv ` set (cb_changes b)
      \<and> (reached w (stored_offset (lv_stream lv) w) \<longrightarrow> reached w (Some next_offset)))"
    using live_read_keeps(1,3) [OF r] by blast
next
  fix w b w'
  assume "tick_fair lv limit w" "port_read (live_ports lv f) (stored_offset (lv_stream lv) w) limit w = (Inr b, w')"
  then show "of_history lv w b" using live_read_keeps(2) by blast
next
  fix w b applied w'
  assume "once_each lv w" "of_history lv w b" "port_apply (live_ports lv f) b w = (applied, w')"
  then show "once_each lv w'" by (metis live_apply_log logged_exact)
next
  fix b w applied w'
  assume "port_apply (live_ports lv f) b w = (applied, w')"
  then show "stored_offset (lv_stream lv) w' = stored_offset (lv_stream lv) w \<and> due_hashes lv w' = due_hashes lv w \<and> reached w' = reached w
    \<and> log_hashes w \<subseteq> log_hashes w'
    \<and> (\<forall>receipt. applied = Inr receipt \<longrightarrow> ar_passed receipt \<longrightarrow> event_hash lv ` set (cb_changes b) \<subseteq> log_hashes w')"
    by (rule live_apply_keeps)
next
  fix o' w u w'
  assume s: "port_save (live_ports lv f) o' w = (u, w')"
  show "stored_offset (lv_stream lv) w' \<in> {stored_offset (lv_stream lv) w, Some o'} \<and> due_hashes lv w' = due_hashes lv w
    \<and> reached w' = reached w \<and> log_hashes w' = log_hashes w" by (rule live_save_keeps(1) [OF s])
  show "once_each lv w \<Longrightarrow> once_each lv w'" by (rule live_save_keeps(2) [OF s])
qed (simp_all add: live_ports_def)

section \<open>The system\<close>

text \<open>
  The source commits whole transactions above all earlier numbers, in one change of the
  capture with what its clean-up dropped; a tick runs with any failures, under the
  conditions of \<open>tick_fair\<close>.
\<close>

inductive sync_reach :: "live_route \<Rightarrow> runtime_policy \<Rightarrow> cdc_world \<Rightarrow> bool" for lv policy where
  start: "sync_reach lv policy \<lparr>cw_history = [], cw_capture = cap, cw_log = [], cw_offsets = Map.empty\<rparr>"
| source: "sync_reach lv policy w \<Longrightarrow> (\<forall>r\<in>set rows. \<forall>q\<in>set (cw_history w). mr_lsn q < mr_lsn r)
    \<Longrightarrow> capture_ok (cw_history w @ rows) cap
    \<Longrightarrow> sync_reach lv policy (w\<lparr>cw_history := cw_history w @ rows, cw_capture := cap\<rparr>)"
| tick: "sync_reach lv policy w \<Longrightarrow> tick_fair lv (rp_max_changes policy) w
    \<Longrightarrow> run_once (lv_sha lv) policy (lv_stream lv) (live_ports lv f) w = (r, w') \<Longrightarrow> sync_reach lv policy w'"

lemma source_keeps_complete:
  assumes "reached w (stored_offset (lv_stream lv) w)" "due_hashes lv w (stored_offset (lv_stream lv) w) \<subseteq> log_hashes w"
    "\<forall>r\<in>set rows. \<forall>q\<in>set (cw_history w). mr_lsn q < mr_lsn r" "capture_ok (cw_history w @ rows) cap"
  defines "w' \<equiv> w\<lparr>cw_history := cw_history w @ rows, cw_capture := cap\<rparr>"
  shows "reached w' (stored_offset (lv_stream lv) w')" "due_hashes lv w' (stored_offset (lv_stream lv) w') \<subseteq> log_hashes w'"
proof -
  have st: "stored_offset (lv_stream lv) w' = stored_offset (lv_stream lv) w" by (simp add: w'_def stored_offset_def)
  show "reached w' (stored_offset (lv_stream lv) w')"
    using assms(1) unfolding st by (auto simp: reached_def w'_def split: option.splits)
  have "events_upto lv (cw_history w') (stored_offset (lv_stream lv) w) = events_upto lv (cw_history w) (stored_offset (lv_stream lv) w)"
  proof (cases "stored_offset (lv_stream lv) w")
    case (Some x)
    with assms(1) obtain q where q: "q \<in> set (cw_history w)" "co_token x = lsn_text (mr_lsn q)" by (auto simp: reached_def)
    have "lsn_of_text (co_token x) = Inr (mr_lsn q)" using history_bound [OF assms(4)] q by simp
    moreover have "filter (\<lambda>r. mr_lsn r \<le> mr_lsn q) rows = []" using assms(3) q(1) by (force simp: filter_empty_conv)
    ultimately show ?thesis using Some by (simp add: events_upto_def w'_def)
  qed (simp add: events_upto_def)
  then show "due_hashes lv w' (stored_offset (lv_stream lv) w') \<subseteq> log_hashes w'"
    using assms(2) unfolding st due_hashes_def by (simp add: w'_def log_hashes_def)
qed

lemma source_keeps_once: "once_each lv w \<Longrightarrow> once_each lv (w\<lparr>cw_history := cw_history w @ rows, cw_capture := cap\<rparr>)"
  by (auto simp: once_each_def history_events_def log_hashes_def map_filter_append)

lemma sync_reach_invariant:
  assumes "sync_reach lv policy w" "rp_poison_mode policy = FailClosed"
  shows "live.complete lv w \<and> once_each lv w"
  using assms(1)
proof induction
  case (start cap)
  show ?case unfolding live.complete_def by (simp add: once_each_def log_hashes_def history_events_def reached_def stored_offset_def
      sql_load_offset_def due_hashes_def events_upto_def)
next
  case (source w rows cap)
  then show ?case using source_keeps_complete [of w lv rows cap] source_keeps_once by (simp add: live.complete_def)
next
  case (tick w f r w')
  from tick.hyps(3) live.run_once_complete [OF _ tick.hyps(2) assms(2) refl] live.run_once_exact [OF _ tick.hyps(2) assms(2) refl]
    tick.IH show ?case by blast
qed

end
