(* ===== verification/Cdc_Delivery.thy ===== *)
theory Cdc_Delivery
  imports Cdc_Sync
begin

text \<open>
  The properties of the change data capture runtime: what the log holds whatever fails, what a
  tick without failures reaches, and three ways in which changes are not delivered although
  nothing fails: a transaction cut by the row limit, a truncated answer of change tracking, and
  two changes of one transaction that the identity does not tell apart.
\<close>

section \<open>A tick with a clean batch\<close>

definition no_faults :: tick_faults where
  "no_faults = \<lparr>tf_setup = None, tf_load = None, tf_read = None, tf_quarantine = None,
     tf_sink = \<lparr>cf_lookup = False, cf_insert = None\<rparr>, tf_save = None, tf_report = None\<rparr>"

lemma idempotency_scan_distinct:
  "distinct xs \<Longrightarrow> set xs \<inter> set seen = {} \<Longrightarrow> snd (idempotency_scan seen duplicates xs) = duplicates"
  by (induction xs arbitrary: seen) auto

lemma clean_batch_idempotent:
  "poison_classify sha st cs = (clean, []) \<Longrightarrow> idempotency_passed (idempotency_evaluate sha (cs_unique_key st) cs)"
  by (drule poison_classify_clean)
    (simp add: idempotency_passed_def idempotency_evaluate_def idempotency_scan_distinct split_beta)

lemma clickhouse_apply_without_faults:
  assumes "split_dataset database (cs_target_dataset (lv_stream lv)) = Inr plan"
  obtains receipt where "clickhouse_apply (lv_sha lv) database (lv_now lv) \<lparr>cf_lookup = False, cf_insert = None\<rparr> (lv_stream lv) b table
      = (Inr receipt, table @ fresh_rows lv b table)" "sink_blockers receipt = []"
proof -
  have success: "sink_blockers (success_receipt sha plan rows n) = []" for sha rows n
    by (simp add: sink_blockers_def success_receipt_def)
  then have "\<exists>receipt. clickhouse_apply (lv_sha lv) database (lv_now lv) \<lparr>cf_lookup = False, cf_insert = None\<rparr> (lv_stream lv) b table
      = (Inr receipt, table @ fresh_rows lv b table) \<and> sink_blockers receipt = []"
    using assms by (cases "fresh_rows lv b table = []") (simp_all add: clickhouse_apply_def fresh_rows_def Let_def)
  with that show thesis by blast
qed

text \<open>A batch of changes without poison is applied, and then its offset is written.\<close>

lemma clean_tick_outcome:
  assumes faults: "f = no_faults\<lparr>tf_save := fault\<rparr>"
    and loaded: "sql_load_offset (lv_stream lv) (cw_offsets w) = Inr start"
    and read: "read_cdc_batch (lv_config lv) (lv_columns lv) (cw_capture w) start (rp_max_changes policy) = Inr b"
    and rows: "cb_changes b \<noteq> []" "cb_next_offset b = Some x"
    and clean: "poison_classify (lv_sha lv) (lv_stream lv) (cb_changes b) = (clean_changes, [])"
    and target: "split_dataset (lv_database lv) (cs_target_dataset (lv_stream lv)) = Inr plan"
  defines "w1 \<equiv> w\<lparr>cw_log := cw_log w @ fresh_rows lv b (cw_log w)\<rparr>"
  obtains report where "rr_committed report" "rr_passed report"
    "run_once (lv_sha lv) policy (lv_stream lv) (live_ports lv f) w =
       (case live_save (lv_stream lv) fault x w1 of (Inl e, w2) \<Rightarrow> (Inl e, w2) | (Inr u, w2) \<Rightarrow> (Inr report, w2))"
proof -
  have clean': "clean_changes = cb_changes b" using clean poison_classify_clean by blast
  have idem: "idempotency_passed (idempotency_evaluate (lv_sha lv) (cs_unique_key (lv_stream lv)) (cb_changes b))"
    using clean by (rule clean_batch_idempotent)
  obtain receipt where ap: "clickhouse_apply (lv_sha lv) (lv_database lv) (lv_now lv) \<lparr>cf_lookup = False, cf_insert = None\<rparr> (lv_stream lv) b
      (cw_log w) = (Inr receipt, cw_log w @ fresh_rows lv b (cw_log w))" and ok: "sink_blockers receipt = []"
    using target by (rule clickhouse_apply_without_faults)
  let ?report = "tick_report b start (Some receipt) True [] (tick_warnings policy b [] @ ar_warnings receipt) []"
  let ?result = "case live_save (lv_stream lv) fault x w1 of (Inl e, w2) \<Rightarrow> (Inl e, w2) | (Inr u, w2) \<Rightarrow> (Inr ?report, w2)"
  have "settle_tick policy (live_ports lv f) start b b [] [] (Some receipt) w1 = ?result"
    using rows ok by (simp add: settle_tick_def Let_def io_bind_def receipt_blockers_def live_ports_def no_faults_def faults failing_def
        split: prod.split sum.split)
  moreover have "applied_batch policy b (cb_changes b) [] = b" by (simp add: applied_batch_def)
  moreover have "poison_blockers policy [] (idempotency_evaluate (lv_sha lv) (cs_unique_key (lv_stream lv)) (cb_changes b)) = []"
    using idem by (simp add: poison_blockers_def)
  moreover have "port_apply (live_ports lv f) b w = (Inr receipt, w1)" using ap by (simp add: live_ports_def no_faults_def faults w1_def)
  ultimately have "apply_and_commit (lv_sha lv) policy (lv_stream lv) (live_ports lv f) start b (cb_changes b) [] w = ?result"
    using rows by (simp add: apply_and_commit_def Let_def io_bind_def)
  then have "run_once (lv_sha lv) policy (lv_stream lv) (live_ports lv f) w = ?result"
    using loaded read clean unfolding clean'
    by (simp add: run_once_def io_bind_def live_ports_def no_faults_def faults failing_def)
  moreover have "rr_committed ?report" "rr_passed ?report" by (simp_all add: tick_report_def without_repeats_def)
  ultimately show thesis using that by blast
qed

section \<open>A small source\<close>

definition sample_stream :: cdc_stream where
  "sample_stream = \<lparr>cs_pipeline_name = ''p'', cs_source = ''mssql'', cs_sink = ''clickhouse'', cs_backend = MssqlCdc,
     cs_source_schema = ''dbo'', cs_source_table = ''t'', cs_target_dataset = ''log'', cs_unique_key = [''id''], cs_strategy = ''cdc''\<rparr>"

definition sample_route :: live_route where
  "sample_route = \<lparr>lv_sha = (\<lambda>s. s), lv_database = ''db'', lv_now = PNone,
     lv_capture_instance = None, lv_columns = [''id'', ''v''], lv_stream = sample_stream\<rparr>"

definition sample_row :: "nat \<Rightarrow> int \<Rightarrow> int \<Rightarrow> cdc_row" where
  "sample_row n operation v = \<lparr>mr_lsn = n, mr_operation = operation, mr_data = [(''id'', PInt 1), (''v'', PInt v)]\<rparr>"

definition sample_capture :: "cdc_row list \<Rightarrow> cdc_capture" where
  "sample_capture history = \<lparr>cp_min = Some 1, cp_max = Some 9,
     cp_changes = (\<lambda>lo hi. Inr (filter (\<lambda>r. lo \<le> mr_lsn r \<and> mr_lsn r \<le> hi) history))\<rparr>"

definition sample_change :: "nat \<Rightarrow> cdc_operation \<Rightarrow> int \<Rightarrow> cdc_change" where
  "sample_change n operation v = \<lparr>cc_operation = operation, cc_data = [(''id'', PInt 1), (''v'', PInt v)], cc_position = lsn_text n,
     cc_source_schema = ''dbo'', cc_source_table = ''t'', cc_transaction_id = None, cc_sequence = PNone, cc_before = None,
     cc_metadata = [(''backend'', PStr ''mssql_cdc'')]\<rparr>"

definition sample_offset :: cdc_offset where
  "sample_offset = \<lparr>co_backend = MssqlCdc, co_token = lsn_text 1, co_snapshot_complete = True\<rparr>"

definition sample_batch :: cdc_batch where
  "sample_batch = \<lparr>cb_changes = [sample_change 1 CdcInsert 10], cb_next_offset = Some sample_offset, cb_high_watermark = Some (lsn_text 1)\<rparr>"

definition sample_world :: "cdc_row list \<Rightarrow> cdc_world" where
  "sample_world history = \<lparr>cw_history = history, cw_capture = sample_capture history, cw_log = [], cw_offsets = Map.empty\<rparr>"

lemma sample_setup:
  "mssql_object_name ''dbo'' ''t'' [] = Inr (None, ''dbo'', ''t'')"
  "safe_capture_instance (lv_config sample_route) = Inr ''dbo_t''"
  "split_dataset (lv_database sample_route) (cs_target_dataset sample_stream) = Inr (''db'', ''log'')"
  by code_simp+

lemma sample_change_of_row:
  "mssql_change (lv_config sample_route) (lv_columns sample_route) (sample_row n 2 v) = Some (sample_change n CdcInsert v)"
  "mssql_change (lv_config sample_route) (lv_columns sample_route) (sample_row n 4 v) = Some (sample_change n CdcUpdate v)"
  by (simp_all add: mssql_change_def sample_route_def sample_stream_def lv_config_def sample_row_def sample_change_def cdc_operation_of_def py_get_def)

lemma sample_query:
  "query_changes (sample_capture history) None limit = Inr (take (nat limit) (filter (\<lambda>r. 1 \<le> mr_lsn r \<and> mr_lsn r \<le> 9) history))"
  by (simp add: query_changes_def requested_from_lsn_def from_lsn_def sample_capture_def)

lemma sample_row_lsn [simp]: "mr_lsn (sample_row n operation v) = n"
  by (simp add: sample_row_def)

lemma sample_read_rows:
  assumes "take (nat limit) (filter (\<lambda>r. 1 \<le> mr_lsn r \<and> mr_lsn r \<le> 9) history) = rows" "rows \<noteq> []"
  shows "read_cdc_batch (lv_config sample_route) (lv_columns sample_route) (sample_capture history) None limit =
    Inr \<lparr>cb_changes = List.map_filter (mssql_change (lv_config sample_route) (lv_columns sample_route)) rows,
      cb_next_offset = backend_offset MssqlCdc (Some (lsn_text (mr_lsn (last rows)))), cb_high_watermark = Some (lsn_text (mr_lsn (last rows)))\<rparr>"
proof -
  have "mg_source_schema (lv_config sample_route) = ''dbo''" "mg_source_table (lv_config sample_route) = ''t''"
    "mg_source_database (lv_config sample_route) = []" "lv_columns sample_route \<noteq> []" by (simp_all add: sample_route_def sample_stream_def lv_config_def)
  with assms show ?thesis
    by (simp add: read_cdc_batch_def sample_setup sample_query read_cdc_rows_eq)
qed

lemma sample_read:
  "read_cdc_batch (lv_config sample_route) (lv_columns sample_route) (sample_capture [sample_row 1 2 10]) None 10000 = Inr sample_batch"
  by (simp add: sample_read_rows [where rows = "[sample_row 1 2 10]"] sample_change_of_row map_filter_simps
      backend_offset_def sample_batch_def sample_offset_def)

lemma sample_clean:
  "poison_classify sha sample_stream (cb_changes sample_batch) = (cb_changes sample_batch, [])"
  by (simp add: poison_classify_def sample_batch_def sample_change_def poison_reason_def supported_runtime_operations_def key_missing_def
      sample_stream_def py_get_default_def Let_def)

lemma sample_capture_ok: "sorted (map mr_lsn history) \<Longrightarrow> \<forall>r\<in>set history. mr_lsn r < lsn_bound \<Longrightarrow> capture_ok history (sample_capture history)"
  by (simp add: capture_ok_def sample_capture_def)

lemma sample_fields: "lv_stream sample_route = sample_stream" "lv_now sample_route = PNone" "lv_sha sample_route = (\<lambda>s. s)"
  by (simp_all add: sample_route_def)

lemma sample_source: "capture_ok [sample_row 1 2 10] (sample_capture [sample_row 1 2 10])"
  by (rule sample_capture_ok) (simp_all add: lsn_bound_def)

lemma sample_fair:
  "cw_history w = [sample_row 1 2 10] \<Longrightarrow> cw_capture w = sample_capture [sample_row 1 2 10]
    \<Longrightarrow> tick_fair sample_route (rp_max_changes default_policy) w"
  using sample_source by (auto simp: tick_fair_def still_there_def uncut_def sample_capture_def default_policy_def)

definition sample_log_row :: log_row where
  "sample_log_row = cdc_event_row (\<lambda>s. s) PNone sample_stream (sample_change 1 CdcInsert 10)"

lemma sample_fresh_rows:
  "fresh_rows sample_route sample_batch [] = [sample_log_row]" "fresh_rows sample_route sample_batch [sample_log_row] = []"
  by (simp_all add: fresh_rows_def existing_event_hashes_def sample_batch_def sample_fields sample_log_row_def)

lemma sample_tick:
  assumes "cw_capture w = sample_capture [sample_row 1 2 10]" "cw_offsets w = Map.empty"
  obtains r where "run_once (lv_sha sample_route) default_policy (lv_stream sample_route) (live_ports sample_route (no_faults\<lparr>tf_save := fault\<rparr>)) w
      = (r, snd (live_save sample_stream fault sample_offset (w\<lparr>cw_log := cw_log w @ fresh_rows sample_route sample_batch (cw_log w)\<rparr>)))"
  by (rule clean_tick_outcome [where lv = sample_route and policy = default_policy and f = "no_faults\<lparr>tf_save := fault\<rparr>" and fault = fault
      and w = w and start = None and b = sample_batch and x = sample_offset and clean_changes = "cb_changes sample_batch" and plan = "(''db'', ''log'')"])
    (use assms sample_read sample_clean sample_setup(3) in \<open>auto simp: sample_fields default_policy_def sql_load_offset_def sample_batch_def
      split: prod.splits sum.splits\<close>)

section \<open>Delivery\<close>

text \<open>
  C18: Whatever fails in the ticks between SQL Server's change table and the ClickHouse log, and
  however the inserts are cut, the log holds every event up to the saved offset, only events of
  the history, and each of them once when their hashes are distinct. The ticks refuse poison,
  no transaction is cut by the row limit, and the clean-up stays behind the saved offset.
\<close>

theorem cdc_log_exact:
  assumes "sync_reach lv policy w" "rp_poison_mode policy = FailClosed"
  shows "event_hash lv ` set (events_upto lv (cw_history w) (stored_offset (lv_stream lv) w)) \<subseteq> log_hashes w
    \<and> log_hashes w \<subseteq> event_hash lv ` set (history_events lv w)
    \<and> (distinct (map (event_hash lv) (history_events lv w)) \<longrightarrow> distinct (map lr_event_hash (cw_log w)))"
  using sync_reach_invariant [OF assms] unfolding live.complete_def by (simp add: once_each_def due_hashes_def)

text \<open>The first tick writes the log and loses its offset; the second one reads the same event again.\<close>

theorem cdc_log_exact_witness:
  "\<exists>w. sync_reach sample_route default_policy w \<and> stored_offset sample_stream w = Some sample_offset
    \<and> log_hashes w = {event_hash sample_route (sample_change 1 CdcInsert 10)} \<and> length (cw_log w) = 1"
proof -
  let ?h = "[sample_row 1 2 10]"
  define w1 where "w1 = (sample_world ?h)\<lparr>cw_log := [sample_log_row]\<rparr>"
  define w2 where "w2 = w1\<lparr>cw_offsets := sql_save_offset sample_stream sample_offset (cw_offsets w1)\<rparr>"
  have "sync_reach sample_route default_policy \<lparr>cw_history = [], cw_capture = sample_capture ?h, cw_log = [], cw_offsets = Map.empty\<rparr>"
    by (rule sync_reach.start)
  from sync_reach.source [OF this, of ?h "sample_capture ?h"] sample_source have reach0: "sync_reach sample_route default_policy (sample_world ?h)"
    by (simp add: sample_world_def)
  obtain r1 where run1: "run_once (lv_sha sample_route) default_policy (lv_stream sample_route)
      (live_ports sample_route (no_faults\<lparr>tf_save := Some False\<rparr>)) (sample_world ?h) = (r1, w1)"
    by (rule sample_tick [of "sample_world ?h" "Some False"]) (auto simp: w1_def sample_world_def live_save_def sample_fresh_rows)
  have reach1: "sync_reach sample_route default_policy w1"
    by (rule sync_reach.tick [OF reach0 sample_fair run1]) (simp_all add: sample_world_def)
  obtain r2 where run2: "run_once (lv_sha sample_route) default_policy (lv_stream sample_route)
      (live_ports sample_route (no_faults\<lparr>tf_save := None\<rparr>)) w1 = (r2, w2)"
    by (rule sample_tick [of w1 None]) (auto simp: w2_def w1_def sample_world_def live_save_def sample_fresh_rows)
  have reach: "sync_reach sample_route default_policy w2"
    by (rule sync_reach.tick [OF reach1 sample_fair run2]) (simp_all add: sample_world_def w1_def)
  have stored: "stored_offset sample_stream w2 = Some sample_offset" by (simp add: stored_offset_def w2_def sql_offset_roundtrip sample_offset_def sample_stream_def)
  have "lsn_of_text (co_token sample_offset) = Inr 1" by (simp add: sample_offset_def lsn_roundtrip lsn_bound_def)
  then have "events_upto sample_route (cw_history w2) (Some sample_offset) = [sample_change 1 CdcInsert 10]"
    by (simp add: events_upto_def w2_def w1_def sample_world_def sample_change_of_row map_filter_simps)
  moreover have "history_events sample_route w2 = [sample_change 1 CdcInsert 10]"
    by (simp add: history_events_def w2_def w1_def sample_world_def sample_change_of_row map_filter_simps)
  ultimately have "log_hashes w2 = {event_hash sample_route (sample_change 1 CdcInsert 10)}"
    using cdc_log_exact [OF reach] by (simp add: default_policy_def sample_fields stored) blast
  moreover have "length (cw_log w2) = 1" by (simp add: w2_def w1_def)
  ultimately show ?thesis using reach stored by blast
qed

lemma read_offset_backend:
  "read_cdc_batch cfg columns cap start limit = Inr b \<Longrightarrow> cb_next_offset b = Some x \<Longrightarrow> co_backend x = MssqlCdc"
  by (auto simp: read_cdc_batch_def bind_res_eq_Inr Let_def backend_offset_def read_cdc_rows_eq split: if_splits option.splits)

text \<open>
  A tick without failures whose batch has changes and no poison commits: every event of the
  batch is in the log, the offset of the batch is saved, and the report says so.
\<close>

theorem clean_tick_commits:
  assumes "sql_load_offset (lv_stream lv) (cw_offsets w) = Inr start"
    "read_cdc_batch (lv_config lv) (lv_columns lv) (cw_capture w) start (rp_max_changes policy) = Inr b"
    "cb_changes b \<noteq> []" "cb_next_offset b = Some x"
    "poison_classify (lv_sha lv) (lv_stream lv) (cb_changes b) = (clean_changes, [])"
    "split_dataset (lv_database lv) (cs_target_dataset (lv_stream lv)) = Inr plan"
    "run_once (lv_sha lv) policy (lv_stream lv) (live_ports lv no_faults) w = (r, w')"
    "cs_backend (lv_stream lv) = MssqlCdc"
  shows "stored_offset (lv_stream lv) w' = Some x \<and> event_hash lv ` set (cb_changes b) \<subseteq> log_hashes w'
    \<and> (\<exists>report. r = Inr report \<and> rr_committed report \<and> rr_passed report)"
proof -
  have "no_faults = no_faults\<lparr>tf_save := None\<rparr>" by (simp add: no_faults_def)
  then obtain report where "rr_committed report" "rr_passed report"
    "run_once (lv_sha lv) policy (lv_stream lv) (live_ports lv no_faults) w =
       (Inr report, w\<lparr>cw_log := cw_log w @ fresh_rows lv b (cw_log w), cw_offsets := sql_save_offset (lv_stream lv) x (cw_offsets w)\<rparr>)"
    using assms(1-6) by (rule clean_tick_outcome) (simp add: live_save_def)
  moreover have "co_backend x = MssqlCdc" using assms(2,4) by (rule read_offset_backend)
  ultimately show ?thesis using assms(7,8) fresh_rows_logged [of lv b "cw_log w"]
    by (auto simp: stored_offset_def sql_offset_roundtrip log_hashes_def)
qed

theorem clean_tick_commits_witness:
  "\<exists>r w'. run_once (lv_sha sample_route) default_policy (lv_stream sample_route) (live_ports sample_route no_faults)
      (sample_world [sample_row 1 2 10]) = (r, w') \<and> stored_offset sample_stream w' = Some sample_offset
    \<and> event_hash sample_route (sample_change 1 CdcInsert 10) \<in> log_hashes w'"
proof -
  let ?w = "sample_world [sample_row 1 2 10]"
  obtain r w' where run: "run_once (lv_sha sample_route) default_policy (lv_stream sample_route) (live_ports sample_route no_faults) ?w = (r, w')"
    by fastforce
  have load: "sql_load_offset (lv_stream sample_route) (cw_offsets ?w) = Inr None" by (simp add: sql_load_offset_def sample_world_def)
  have batch: "cb_changes sample_batch \<noteq> []" "cb_next_offset sample_batch = Some sample_offset" by (simp_all add: sample_batch_def)
  have stream: "lv_stream sample_route = sample_stream" by (simp add: sample_route_def)
  have "read_cdc_batch (lv_config sample_route) (lv_columns sample_route) (cw_capture ?w) None (rp_max_changes default_policy) = Inr sample_batch"
    using sample_read by (simp add: sample_world_def default_policy_def)
  from clean_tick_commits [OF load this batch, of "cb_changes sample_batch" "(''db'', ''log'')", OF _ _ run] run
  show ?thesis by (simp add: stream sample_clean sample_setup) (simp add: sample_batch_def sample_stream_def)
qed

section \<open>Transactions cut by the row limit\<close>

text \<open>What a read after an offset returns lies above the number of the offset.\<close>

lemma read_after_offset:
  assumes ok: "capture_ok history cap" and bound: "0 < n" "n < lsn_bound" and y: "co_token y = lsn_text n"
    and read: "read_cdc_batch cfg columns cap (Some y) limit = Inr b" and c: "c \<in> set (cb_changes b)"
  obtains m where "n < m" "m < lsn_bound" "cc_position c = lsn_text m"
  using read
proof (cases rule: read_cdc_batch_cases)
  case 1
  with c show ?thesis by simp
next
  case (2 rows)
  with c obtain r where r: "r \<in> set rows" "mssql_change cfg columns r = Some c" by (auto simp: in_map_filter)
  from 2(1,2) obtain requested lo hi m all_rows where req: "requested_from_lsn (cp_min cap) (map_option co_token (Some y)) = Inr requested"
    and m: "cp_min cap = Some m" "from_lsn (cp_min cap) requested = Some lo" "m \<le> lo"
    and all: "cp_changes cap lo hi = Inr all_rows" "rows = take (nat limit) all_rows"
    by (rule query_changes_rows)
  have lsn: "lsn_of_text (lsn_text n) = Inr n" using bound(2) by (rule lsn_roundtrip)
  have "lsn_of_text zero_lsn_text = Inr 0" using lsn_roundtrip [of 0] by (simp add: zero_lsn_text lsn_bound_def)
  with lsn bound(1) have "lsn_text n \<noteq> zero_lsn_text" by auto
  with req y lsn have "requested = Some (n + 1)" by (auto simp: requested_from_lsn_def)
  with m have "n < lo" by (auto simp: from_lsn_def split: if_splits)
  moreover have r_in: "lo \<le> mr_lsn r" "r \<in> set history" using capture_answers [OF ok m(1,3) all(1)] r(1) all(2) by (auto dest: in_set_takeD)
  moreover have "cc_position c = lsn_text (mr_lsn r)" using r(2) by (auto simp: mssql_change_def split: option.splits if_splits)
  moreover have "mr_lsn r < lsn_bound" using ok r_in by (simp add: capture_ok_def)
  ultimately show ?thesis using that [of "mr_lsn r"] by simp
qed

lemma lsn_text_inject: "m < lsn_bound \<Longrightarrow> n < lsn_bound \<Longrightarrow> lsn_text m = lsn_text n \<Longrightarrow> m = n"
  by (metis lsn_roundtrip sum.inject(2))

text \<open>
  C25: When the row limit cuts a transaction, its other rows are lost: the batch holds the rows
  before the cut, its offset is the number of the transaction, and no read after that offset or
  a later one returns a change with that number, whatever the change table then holds.
\<close>

theorem cut_transaction_never_read:
  assumes "capture_ok history cap" "read_cdc_batch cfg columns cap start limit = Inr b" "columns \<noteq> []"
    "query_changes cap (map_option co_token start) limit = Inr rows" "rows \<noteq> []"
    "r \<in> set history" "r \<notin> set rows" "mr_lsn r = mr_lsn (last rows)" "0 < mr_lsn r"
  shows "cb_changes b = List.map_filter (mssql_change cfg columns) rows
    \<and> map_option co_token (cb_next_offset b) = Some (lsn_text (mr_lsn r))
    \<and> (\<forall>history' cap' y m limit' b' c. capture_ok history' cap' \<longrightarrow> co_token y = lsn_text m \<longrightarrow> mr_lsn r \<le> m \<longrightarrow> m < lsn_bound
        \<longrightarrow> read_cdc_batch cfg columns cap' (Some y) limit' = Inr b' \<longrightarrow> c \<in> set (cb_changes b') \<longrightarrow> cc_position c \<noteq> lsn_text (mr_lsn r))"
proof (intro conjI allI impI)
  have "cb_changes b = List.map_filter (mssql_change cfg columns) rows \<and> map_option co_token (cb_next_offset b) = Some (lsn_text (mr_lsn r))"
    using assms(2-5,8) by (auto simp: read_cdc_batch_def bind_res_eq_Inr Let_def read_cdc_rows_eq backend_offset_def)
  then show "cb_changes b = List.map_filter (mssql_change cfg columns) rows"
    "map_option co_token (cb_next_offset b) = Some (lsn_text (mr_lsn r))" by simp_all
next
  fix history' cap' y m limit' b' c
  assume later: "capture_ok history' cap'" "co_token y = lsn_text m" "mr_lsn r \<le> m" "m < lsn_bound"
    "read_cdc_batch cfg columns cap' (Some y) limit' = Inr b'" "c \<in> set (cb_changes b')"
  then obtain k where "m < k" "k < lsn_bound" "cc_position c = lsn_text k"
    using read_after_offset [OF later(1) _ later(4,2,5,6)] assms(9) by auto
  moreover have "mr_lsn r < lsn_bound" using assms(1,6) by (simp add: capture_ok_def)
  ultimately show "cc_position c \<noteq> lsn_text (mr_lsn r)" using later(3) lsn_text_inject [of k "mr_lsn r"] by auto
qed

text \<open>Two rows of one transaction, and a limit of one: the second row is never read.\<close>

theorem cut_transaction_never_read_witness:
  "\<exists>b. read_cdc_batch (lv_config sample_route) (lv_columns sample_route) (sample_capture [sample_row 1 2 10, sample_row 1 4 11]) None 1 = Inr b
    \<and> cb_changes b = [sample_change 1 CdcInsert 10] \<and> map_option co_token (cb_next_offset b) = Some (lsn_text 1)"
proof -
  let ?h = "[sample_row 1 2 10, sample_row 1 4 11]"
  obtain b where read: "read_cdc_batch (lv_config sample_route) (lv_columns sample_route) (sample_capture ?h) None 1 = Inr b"
    by (simp add: sample_read_rows [where rows = "[sample_row 1 2 10]"])
  have ok: "capture_ok ?h (sample_capture ?h)" by (rule sample_capture_ok) (simp_all add: lsn_bound_def)
  have columns: "lv_columns sample_route \<noteq> []" by (simp add: sample_route_def)
  have query: "query_changes (sample_capture ?h) (map_option co_token None) 1 = Inr [sample_row 1 2 10]" by (simp add: sample_query)
  have lost: "sample_row 1 4 11 \<in> set ?h" "sample_row 1 4 11 \<notin> set [sample_row 1 2 10]"
    "mr_lsn (sample_row 1 4 11) = mr_lsn (last [sample_row 1 2 10])" "0 < mr_lsn (sample_row 1 4 11)"
    by (simp_all add: sample_row_def)
  from cut_transaction_never_read [OF ok read columns query _ lost] read
  show ?thesis by (auto simp: sample_change_of_row map_filter_simps)
qed

section \<open>Truncated answers of change tracking\<close>

text \<open>
  The rows that \<open>TOP\<close> cuts from the answer of change tracking are lost: the offset of the
  batch is the current version of the database all the same, and no read from that version or a
  later one returns a change of theirs, since the function only answers with later versions.
\<close>

theorem tracking_cut_never_read:
  assumes "read_tracking_batch schema table configured found columns version changetable start limit = Inr b"
    "start_version start = Inr v" "r \<in> set (drop (nat limit) (changetable v))" "tk_version r \<le> tracking_version version"
  shows "cb_changes b = List.map_filter (tracking_change schema table (tracking_columns columns (if configured = [] then found else configured)))
        (take (nat limit) (changetable v))
    \<and> map_option co_token (cb_next_offset b) = Some (py_str_int (tracking_version version))
    \<and> (\<forall>version' changetable' y m limit' b' c. (\<forall>u. \<forall>q\<in>set (changetable' u). u < tk_version q) \<longrightarrow> co_token y = py_str_int m
        \<longrightarrow> tracking_version version \<le> m
        \<longrightarrow> read_tracking_batch schema table configured found columns version' changetable' (Some y) limit' = Inr b'
        \<longrightarrow> c \<in> set (cb_changes b') \<longrightarrow> cc_position c \<noteq> py_str_int (tk_version r))"
proof (intro conjI allI impI)
  have keys: "primary_keys configured found = Inr (if configured = [] then found else configured)"
    using assms(1) by (auto simp: read_tracking_batch_def primary_keys_def bind_res_eq_Inr split: if_splits)
  show "cb_changes b = List.map_filter (tracking_change schema table (tracking_columns columns (if configured = [] then found else configured)))
        (take (nat limit) (changetable v))"
    "map_option co_token (cb_next_offset b) = Some (py_str_int (tracking_version version))"
    using assms(1,2) keys by (auto simp: read_tracking_batch_def Let_def backend_offset_def)
next
  fix version' changetable' y m limit' b' c
  assume later: "\<forall>u. \<forall>q\<in>set (changetable' u). u < tk_version q" "co_token y = py_str_int m" "tracking_version version \<le> m"
    "read_tracking_batch schema table configured found columns version' changetable' (Some y) limit' = Inr b'" "c \<in> set (cb_changes b')"
  from later(2,4) have "start_version (Some y) = Inr m"
    by (auto simp: read_tracking_batch_def bind_res_eq_Inr start_version_def split: option.splits dest: py_int_str_Some)
  with later(4) obtain keys where
    "cb_changes b' = List.map_filter (tracking_change schema table (tracking_columns columns keys)) (take (nat limit') (changetable' m))"
    by (auto simp: read_tracking_batch_def bind_res_eq_Inr Let_def)
  with later(5) obtain q where q: "q \<in> set (changetable' m)" "tracking_change schema table (tracking_columns columns keys) q = Some c"
    using in_set_takeD by (metis in_map_filter)
  from q(2) have "cc_position c = py_str_int (tk_version q)" by (auto simp: tracking_change_def)
  moreover have "m < tk_version q" using later(1) q(1) by blast
  ultimately show "cc_position c \<noteq> py_str_int (tk_version r)" using assms(4) later(3) by simp
qed

text \<open>Two changes at versions 1 and 2, and a limit of one: the offset is 2 although only the first was read.\<close>

theorem tracking_cut_never_read_witness:
  "\<exists>b. read_tracking_batch ''dbo'' ''t'' [''id''] [] [''id''] (Some 2)
      (\<lambda>v. filter (\<lambda>q. v < tk_version q)
        [\<lparr>tk_version = 1, tk_operation = ''I'', tk_data = [(''id'', PInt 1)]\<rparr>, \<lparr>tk_version = 2, tk_operation = ''I'', tk_data = [(''id'', PInt 2)]\<rparr>])
      None 1 = Inr b
    \<and> length (cb_changes b) = 1 \<and> map_option co_token (cb_next_offset b) = Some ''2''"
proof -
  let ?rows = "[\<lparr>tk_version = 1, tk_operation = ''I'', tk_data = [(''id'', PInt 1)]\<rparr>, \<lparr>tk_version = 2, tk_operation = ''I'', tk_data = [(''id'', PInt 2)]\<rparr>]"
  let ?table = "\<lambda>v. filter (\<lambda>q. v < tk_version q) ?rows"
  obtain b where read: "read_tracking_batch ''dbo'' ''t'' [''id''] [] [''id''] (Some 2) ?table None 1 = Inr b"
    by (simp add: read_tracking_batch_def start_version_def primary_keys_def Let_def)
  have v: "start_version None = Inr 0" by (simp add: start_version_def)
  have "last ?rows \<in> set (drop (nat 1) (?table 0))" "tk_version (last ?rows) \<le> tracking_version (Some 2)" by (simp_all add: tracking_version_def)
  from tracking_cut_never_read [OF read v this] read
  have "cb_changes b = List.map_filter (tracking_change ''dbo'' ''t'' (tracking_columns [''id''] [''id''])) (take (nat 1) (?table 0))"
    "map_option co_token (cb_next_offset b) = Some (py_str_int 2)" by (simp_all add: tracking_version_def)
  moreover have "py_str_int 2 = ''2''" by code_simp
  ultimately show ?thesis using read by (simp add: map_filter_simps tracking_change_def tracking_operation_of_def)
qed

section \<open>Changes that the identity does not tell apart\<close>

lemma poison_scan_repeat:
  "\<not> distinct (map (event_id sha (cs_unique_key st)) cs) \<or> set (map (event_id sha (cs_unique_key st)) cs) \<inter> set seen \<noteq> {} \<Longrightarrow>
    \<exists>po\<in>set (snd (poison_scan sha st index seen cs)). po_reason po = ''cdc_poison.duplicate_event''"
proof (induction cs arbitrary: index seen)
  case (Cons c cs)
  let ?i = "event_id sha (cs_unique_key st) c"
  show ?case
  proof (cases "?i \<in> set seen")
    case True
    then show ?thesis by (simp add: Let_def split_beta poison_reason_def mk_poison_record_def)
  next
    case False
    with Cons.prems have "\<not> distinct (map (event_id sha (cs_unique_key st)) cs)
        \<or> set (map (event_id sha (cs_unique_key st)) cs) \<inter> set (?i # seen) \<noteq> {}" by auto
    from Cons.IH [OF this, of "index + 1"] show ?thesis by (auto simp: Let_def split_beta split: option.split)
  qed
qed simp

text \<open>Two equal rows of a batch are one event twice.\<close>

lemma equal_rows_repeat:
  assumes "i < j" "j < length rows" "rows ! i = rows ! j" "f (rows ! i) = Some c"
  shows "\<not> distinct (map h (List.map_filter f rows))"
proof
  assume d: "distinct (map h (List.map_filter f rows))"
  have "List.map_filter f rows = List.map_filter f (take j rows) @ c # List.map_filter f (drop (Suc j) rows)"
    using assms(3,4) by (subst id_take_nth_drop [OF assms(2)]) (simp add: map_filter_append map_filter_simps)
  moreover have "c \<in> set (List.map_filter f (take j rows))"
    unfolding in_map_filter
  proof (rule bexI)
    show "f (rows ! i) = Some c" by (rule assms(4))
    show "rows ! i \<in> set (take j rows)" using assms(1,2) by (auto simp: in_set_conv_nth)
  qed
  ultimately show False using d by auto
qed

lemma in_without_repeats [simp]: "set (without_repeats xs) = set xs"
  by (simp add: without_repeats_def)

text \<open>A poisoned batch is neither applied nor passed over.\<close>

lemma poisoned_tick:
  assumes "apply_and_commit sha policy st (live_ports lv f) start b clean records w = (r, w')"
    "rp_poison_mode policy = FailClosed" "\<exists>po\<in>set records. po_reason po = ''cdc_poison.duplicate_event''"
  shows "w' = w \<and> (\<forall>report. r = Inr report \<longrightarrow> \<not> rr_committed report
      \<and> {''cdc_runtime.poison_events'', ''cdc_runtime.duplicate_events''} \<subseteq> set (rr_blockers report))"
proof -
  define blockers where "blockers = poison_blockers policy records
    (idempotency_evaluate sha (cs_unique_key st) (cb_changes (applied_batch policy b clean records)))"
  have bl: "blockers \<noteq> []" "{''cdc_runtime.poison_events'', ''cdc_runtime.duplicate_events''} \<subseteq> set blockers"
    using assms(2,3) by (auto simp: blockers_def poison_blockers_def list_ex_iff)
  from assms(1) have "settle_tick policy (live_ports lv f) start b (applied_batch policy b clean records) records blockers None w = (r, w')"
    using bl(1) by (simp add: apply_and_commit_def blockers_def [symmetric] io_bind_def Let_def)
  then show ?thesis
    using bl by (auto simp: settle_tick_def Let_def io_bind_def live_ports_def failing_def tick_report_def receipt_blockers_def
        split: option.splits)
qed

text \<open>
  A transaction that changes a row to the same values twice (away from them and back in between)
  is read with two equal changes, for the query does not select the sequence numbers: the batch
  counts as poisoned. In the mode that fails closed a tick then applies and saves nothing.
\<close>

lemma repeated_update_tick:
  assumes "sql_load_offset (lv_stream lv) (cw_offsets w) = Inr start" "lv_columns lv \<noteq> []"
    "query_changes (cw_capture w) (map_option co_token start) (rp_max_changes policy) = Inr rows"
    "i < j" "j < length rows" "rows ! i = rows ! j" "mssql_change (lv_config lv) (lv_columns lv) (rows ! i) = Some c"
    "rp_poison_mode policy = FailClosed"
    "run_once (lv_sha lv) policy (lv_stream lv) (live_ports lv f) w = (r, w')"
  shows "w' = w \<and> (\<forall>report. r = Inr report \<longrightarrow> \<not> rr_committed report
      \<and> {''cdc_runtime.poison_events'', ''cdc_runtime.duplicate_events''} \<subseteq> set (rr_blockers report))"
proof -
  have dup: "\<exists>po\<in>set (snd (poison_classify (lv_sha lv) (lv_stream lv) (cb_changes b))). po_reason po = ''cdc_poison.duplicate_event''"
    if "read_cdc_batch (lv_config lv) (lv_columns lv) (cw_capture w) start (rp_max_changes policy) = Inr b" for b
    unfolding poison_classify_def
  proof (rule poison_scan_repeat)
    have "cb_changes b = List.map_filter (mssql_change (lv_config lv) (lv_columns lv)) rows"
      using that assms(2,3) by (auto simp: read_cdc_batch_def bind_res_eq_Inr Let_def read_cdc_rows_eq)
    then show "\<not> distinct (map (event_id (lv_sha lv) (cs_unique_key (lv_stream lv))) (cb_changes b))
        \<or> set (map (event_id (lv_sha lv) (cs_unique_key (lv_stream lv))) (cb_changes b)) \<inter> set [] \<noteq> {}"
      using equal_rows_repeat [where f = "mssql_change (lv_config lv) (lv_columns lv)", OF assms(4-7)] by simp
  qed
  show ?thesis using assms(9) unfolding run_once_def
  proof (elim io_bind_cases)
    fix u w1 found w2 b w3
    assume "port_setup (live_ports lv f) w = (Inr u, w1)" "port_load (live_ports lv f) w1 = (Inr found, w2)"
      and rd: "port_read (live_ports lv f) found (rp_max_changes policy) w2 = (Inr b, w3)"
      and k: "(case poison_classify (lv_sha lv) (lv_stream lv) (cb_changes b) of (clean, records) \<Rightarrow>
        io_bind (if records = [] then io_return () else port_quarantine (live_ports lv f) records)
          (\<lambda>_. apply_and_commit (lv_sha lv) policy (lv_stream lv) (live_ports lv f) found b clean records)) w3 = (r, w')"
    then have same: "w2 = w" "found = start" using assms(1) by (auto simp: live_ports_def failing_def split: option.splits)
    then have "w3 = w" "read_cdc_batch (lv_config lv) (lv_columns lv) (cw_capture w) start (rp_max_changes policy) = Inr b"
      using rd by (auto simp: live_ports_def failing_def split: option.splits)
    note dup = dup [OF this(2)] and w3 = this(1)
    obtain clean records where pc: "poison_classify (lv_sha lv) (lv_stream lv) (cb_changes b) = (clean, records)" by fastforce
    from k [unfolded pc split w3] show ?thesis
    proof (cases rule: io_bind_cases)
      case (2 u w4)
      then have "w4 = w" by (auto simp: live_ports_def split: if_splits)
      with 2(2) poisoned_tick assms(8) dup pc show ?thesis by fastforce
    qed (auto simp: live_ports_def split: if_splits)
  qed (auto simp: live_ports_def)
qed

text \<open>Ticks of one stream one after another, each with its own faults, the capture left as it is.\<close>

definition run_ticks :: "runtime_policy \<Rightarrow> live_route \<Rightarrow> tick_faults list \<Rightarrow> cdc_world \<Rightarrow> cdc_world" where
  "run_ticks policy lv fs w =
     foldl (\<lambda>w f. snd (run_once (lv_sha lv) policy (lv_stream lv) (live_ports lv f) w)) w fs"

text \<open>
  C40: With the poison mode \<open>fail_closed\<close>, a transaction that changes a row to the same values
  twice (away from them and back in between) stops its stream. The query does not select the
  sequence numbers, so the two changes have one identity and the batch counts as poisoned:
  any number of ticks, whatever faults they meet, leave the applied events, the saved position
  and the rest of the world as they were as long as the capture does not change, and a tick
  that reports does not commit and names the poisoned and duplicate events as its blockers.
  (With \<open>quarantine_and_continue\<close> the tick goes on without the repeated change.)
\<close>

theorem repeated_update_blocks_stream:
  assumes "sql_load_offset (lv_stream lv) (cw_offsets w) = Inr start" "lv_columns lv \<noteq> []"
    "query_changes (cw_capture w) (map_option co_token start) (rp_max_changes policy) = Inr rows"
    "i < j" "j < length rows" "rows ! i = rows ! j" "mssql_change (lv_config lv) (lv_columns lv) (rows ! i) = Some c"
    "rp_poison_mode policy = FailClosed"
  shows "run_ticks policy lv fs w = w \<and>
    (\<forall>f report w'. run_once (lv_sha lv) policy (lv_stream lv) (live_ports lv f) w = (Inr report, w') \<longrightarrow>
      \<not> rr_committed report
      \<and> {''cdc_runtime.poison_events'', ''cdc_runtime.duplicate_events''} \<subseteq> set (rr_blockers report))"
proof (intro conjI allI impI)
  note tick = repeated_update_tick [OF assms]
  have "snd (run_once (lv_sha lv) policy (lv_stream lv) (live_ports lv f) w) = w" for f
    using tick by (metis prod.collapse)
  then show "run_ticks policy lv fs w = w" by (induction fs) (simp_all add: run_ticks_def)
  fix f report w'
  assume "run_once (lv_sha lv) policy (lv_stream lv) (live_ports lv f) w = (Inr report, w')"
  from tick [OF this] show "\<not> rr_committed report"
    "{''cdc_runtime.poison_events'', ''cdc_runtime.duplicate_events''} \<subseteq> set (rr_blockers report)" by blast+
qed

text \<open>One transaction that writes 11, then 10, then 11 again.\<close>

theorem repeated_update_blocks_stream_witness:
  "run_ticks default_policy sample_route [no_faults, no_faults]
      (sample_world [sample_row 1 4 11, sample_row 1 4 10, sample_row 1 4 11])
    = sample_world [sample_row 1 4 11, sample_row 1 4 10, sample_row 1 4 11]"
proof -
  let ?h = "[sample_row 1 4 11, sample_row 1 4 10, sample_row 1 4 11]"
  let ?w = "sample_world ?h"
  have load: "sql_load_offset (lv_stream sample_route) (cw_offsets ?w) = Inr None" by (simp add: sql_load_offset_def sample_world_def)
  have columns: "lv_columns sample_route \<noteq> []" by (simp add: sample_route_def)
  have query: "query_changes (cw_capture ?w) (map_option co_token None) (rp_max_changes default_policy) = Inr ?h"
    by (simp add: sample_world_def sample_query default_policy_def)
  have "(0 :: nat) < 2" "2 < length ?h" "?h ! 0 = ?h ! 2"
    "mssql_change (lv_config sample_route) (lv_columns sample_route) (?h ! 0) = Some (sample_change 1 CdcUpdate 11)"
    "rp_poison_mode default_policy = FailClosed"
    by (simp_all add: sample_change_of_row default_policy_def)
  from repeated_update_blocks_stream [OF load columns query this] show ?thesis by simp
qed

end
