(* ===== verification/Js_Scan.thy ===== *)
theory Js_Scan
  imports Py_Value
begin

text \<open>
  The texts that \<open>json.loads\<close> accepts, as a pushdown automaton that follows the scanner of the
  standard library: a value, or what may follow one inside the open brackets. Two exceptions
  are told apart: a syntax error is a \<open>JSONDecodeError\<close>, and an integer of more than 4300
  digits a plain \<open>ValueError\<close>. The limit of nesting (\<open>RecursionError\<close>) is outside the model.

  Every document without floats that the program prints is accepted (\<open>json_prints_accepted\<close>).
\<close>

datatype json_fault = JsonSyntax | JsonDigits

definition json_space :: "char \<Rightarrow> bool" where
  "json_space c = (code_of c \<in> {9, 10, 13, 32})"

definition skip_space :: "string \<Rightarrow> string" where
  "skip_space s = dropWhile json_space s"

definition is_hex_char :: "char \<Rightarrow> bool" where
  "is_hex_char c = (py_is_digit c \<or> code_of c \<in> {65..70} \<or> code_of c \<in> {97..102})"

definition simple_escapes :: "char list" where
  "simple_escapes = [dq, bs] @ ''/bfnrt''"

text \<open>The rest of a string after its opening quote: what follows the closing one.\<close>

fun scan_string :: "string \<Rightarrow> string option" where
  "scan_string [] = None"
| "scan_string (c # r) =
     (if c = dq then Some r
      else if c = bs then
        (case r of
           [] \<Rightarrow> None
         | e # r' \<Rightarrow>
             if e \<in> set simple_escapes then scan_string r'
             else if e = CHR ''u'' \<and> 4 \<le> length r' \<and> list_all is_hex_char (take 4 r')
               then scan_string (drop 4 r')
             else None)
      else if code_of c < 32 then None
      else scan_string r)"

text \<open>An optional fraction and exponent; each is left alone when no digit follows.\<close>

definition scan_fraction :: "string \<Rightarrow> string" where
  "scan_fraction s =
     (case s of
        c # d # r \<Rightarrow> if c = CHR ''.'' \<and> py_is_digit d then dropWhile py_is_digit r else s
      | _ \<Rightarrow> s)"

definition scan_exponent :: "string \<Rightarrow> string" where
  "scan_exponent s =
     (case s of
        c # r \<Rightarrow>
          if c = CHR ''e'' \<or> c = CHR ''E'' then
            (let t = (case r of g # r' \<Rightarrow> if g = CHR ''+'' \<or> g = CHR ''-'' then r' else r | [] \<Rightarrow> r)
             in (case t of d # t' \<Rightarrow> if py_is_digit d then dropWhile py_is_digit t' else s | [] \<Rightarrow> s))
          else s
      | [] \<Rightarrow> s)"

text \<open>A number without its sign: what follows it.\<close>

definition scan_digits :: "string \<Rightarrow> json_fault + string" where
  "scan_digits s =
     (case s of
        [] \<Rightarrow> Inl JsonSyntax
      | c # r \<Rightarrow>
          if \<not> py_is_digit c then Inl JsonSyntax
          else (let whole = (if c = CHR ''0'' then [] else takeWhile py_is_digit r);
                    rest = (if c = CHR ''0'' then r else dropWhile py_is_digit r);
                    t = scan_exponent (scan_fraction rest) in
                if t = rest \<and> max_str_digits < Suc (length whole) then Inl JsonDigits else Inr t))"

text \<open>A value that is no string and no bracket: a constant or a number.\<close>

definition json_constants :: "string list" where
  "json_constants = [''null'', ''true'', ''false'', ''NaN'', ''Infinity'', ''-Infinity'']"

definition scan_plain :: "string \<Rightarrow> json_fault + string" where
  "scan_plain s =
     (case find (py_startswith s) json_constants of
        Some k \<Rightarrow> Inr (drop (length k) s)
      | None \<Rightarrow> (case s of c # r \<Rightarrow> if c = CHR ''-'' then scan_digits r else scan_digits s
                 | [] \<Rightarrow> Inl JsonSyntax))"

text \<open>The key of an object member with its colon, from the opening quote on.\<close>

definition scan_key :: "string \<Rightarrow> string option" where
  "scan_key s =
     (case s of
        c # r \<Rightarrow>
          if c \<noteq> dq then None
          else (case scan_string r of
                  None \<Rightarrow> None
                | Some t \<Rightarrow> (case skip_space t of k # u \<Rightarrow> if k = CHR '':'' then Some u else None
                            | [] \<Rightarrow> None))
      | [] \<Rightarrow> None)"

lemma skip_space_length [simp]: "length (skip_space s) \<le> length s"
  by (simp add: skip_space_def length_dropWhile_le)

lemma skip_space_eq_Cons: "skip_space s = c # r \<Longrightarrow> length r < length s"
  using skip_space_length [of s] by simp

lemmas skip_space_Cons = skip_space_eq_Cons skip_space_eq_Cons [OF sym]

lemma scan_string_shorter: "scan_string s = Some r \<Longrightarrow> length r < length s"
proof (induction s arbitrary: r rule: scan_string.induct)
  case (2 c t)
  show ?case
  proof (cases "c = bs \<and> c \<noteq> dq")
    case True
    with "2.prems" obtain e u where t: "t = e # u" by (auto split: list.splits)
    with True "2.prems" show ?thesis
      using "2.IH"(1) [of e u r] "2.IH"(2) [of e u r] by (auto split: if_splits)
  next
    case False
    with "2.prems" "2.IH"(3) [of r] show ?thesis by (auto split: if_splits)
  qed
qed simp

lemma scan_key_shorter:
  assumes "scan_key s = Some u"
  shows "length u < length s"
proof -
  from assms obtain r t where s: "s = dq # r" and t: "scan_string r = Some t" "skip_space t = CHR '':'' # u"
    by (auto simp: scan_key_def split: list.splits if_splits option.splits)
  then show ?thesis using scan_string_shorter [OF t(1)] skip_space_eq_Cons [OF t(2)] by simp
qed

lemma dropWhile_length [simp]: "length (dropWhile p s) \<le> length s"
  by (rule length_dropWhile_le)

lemma scan_fraction_length: "length (scan_fraction s) \<le> length s"
proof -
  have "length (dropWhile py_is_digit r) \<le> Suc (Suc (length r))" for r
    using dropWhile_length [of py_is_digit r] by linarith
  then show ?thesis by (auto simp: scan_fraction_def split: list.splits)
qed

lemma scan_exponent_length: "length (scan_exponent s) \<le> length s"
proof -
  have "length (dropWhile py_is_digit r) \<le> Suc (Suc (length r))"
    "length (dropWhile py_is_digit r) \<le> Suc (Suc (Suc (length r)))" for r
    using dropWhile_length [of py_is_digit r] by linarith+
  then show ?thesis by (auto simp: scan_exponent_def Let_def split: list.splits)
qed

lemma scan_digits_shorter: "scan_digits s = Inr r \<Longrightarrow> length r < length s"
proof -
  assume a: "scan_digits s = Inr r"
  then obtain c t where s: "s = c # t" by (auto simp: scan_digits_def split: list.splits)
  let ?rest = "if c = CHR ''0'' then t else dropWhile py_is_digit t"
  have "length (scan_exponent (scan_fraction ?rest)) \<le> length ?rest"
    using scan_exponent_length [of "scan_fraction ?rest"] scan_fraction_length [of ?rest] by linarith
  moreover have "length ?rest \<le> length t" by simp
  ultimately have "length (scan_exponent (scan_fraction ?rest)) < Suc (length t)" by linarith
  moreover from a s have "r = scan_exponent (scan_fraction ?rest)"
    by (auto simp: scan_digits_def Let_def split: if_splits)
  ultimately show ?thesis using s by simp
qed

lemma scan_plain_shorter:
  assumes "scan_plain s = Inr r"
  shows "length r < length s"
proof (cases "find (py_startswith s) json_constants")
  case None
  with assms show ?thesis
    by (auto simp: scan_plain_def dest!: scan_digits_shorter split: list.splits if_splits)
next
  case (Some k)
  then have "k \<in> set json_constants" "py_startswith s k"
    by (auto simp: find_Some_iff)
  then have "0 < length k" "0 < length s"
    by (auto simp: json_constants_def py_startswith_def)
  with assms Some show ?thesis by (auto simp: scan_plain_def)
qed

section \<open>The automaton\<close>

datatype json_open = InArray | InObject

lemma skip_space_less [simp]: "length (skip_space r) < n" if "length r < n"
  using that skip_space_length [of r] by linarith

lemma scan_key_skip1: "scan_key (skip_space r) = Some u \<Longrightarrow> length u < length r"
  by (auto dest: scan_key_shorter intro: less_le_trans [OF _ skip_space_length])

lemma scan_key_skip2: "scan_key (c # t) = Some u \<Longrightarrow> skip_space r = c # t \<Longrightarrow> length u < length r"
  using scan_key_skip1 [of r u] by simp

text \<open>
  \<open>json_run st True s\<close> reads a value inside the brackets \<open>st\<close>, \<open>json_run st False s\<close> what
  follows one. Each step consumes a character.
\<close>

function json_run :: "json_open list \<Rightarrow> bool \<Rightarrow> string \<Rightarrow> json_fault option" where
  "json_run st True s =
     (case skip_space s of
        [] \<Rightarrow> Some JsonSyntax
      | c # r \<Rightarrow>
          if c = dq then (case scan_string r of None \<Rightarrow> Some JsonSyntax | Some t \<Rightarrow> json_run st False t)
          else if c = CHR ''['' then
            (case skip_space r of
               [] \<Rightarrow> Some JsonSyntax
             | d # t \<Rightarrow> if d = CHR '']'' then json_run st False t else json_run (InArray # st) True r)
          else if c = CHR ''{'' then
            (case skip_space r of
               [] \<Rightarrow> Some JsonSyntax
             | d # t \<Rightarrow>
                 if d = CHR ''}'' then json_run st False t
                 else (case scan_key (d # t) of None \<Rightarrow> Some JsonSyntax
                       | Some u \<Rightarrow> json_run (InObject # st) True u))
          else (case scan_plain (c # r) of Inl e \<Rightarrow> Some e | Inr t \<Rightarrow> json_run st False t))"
| "json_run st False s =
     (case (st, skip_space s) of
        ([], []) \<Rightarrow> None
      | (InArray # st', c # r) \<Rightarrow>
          if c = CHR '','' then json_run st True r
          else if c = CHR '']'' then json_run st' False r
          else Some JsonSyntax
      | (InObject # st', c # r) \<Rightarrow>
          if c = CHR '','' then
            (case scan_key (skip_space r) of None \<Rightarrow> Some JsonSyntax | Some u \<Rightarrow> json_run st True u)
          else if c = CHR ''}'' then json_run st' False r
          else Some JsonSyntax
      | _ \<Rightarrow> Some JsonSyntax)"
  by pat_completeness auto

termination
  by (relation "measure (\<lambda>(st, m, s). length s)")
    (auto dest!: scan_string_shorter scan_plain_shorter dest: scan_key_skip1 scan_key_skip2 skip_space_Cons intro: less_trans)

definition json_loads_fault :: "string \<Rightarrow> json_fault option" where
  "json_loads_fault s = json_run [] True s"

declare json_run.simps [simp del]

section \<open>What the program prints is accepted\<close>

lemma dq_char: "dq = CHR 0x22" and bs_char: "bs = CHR 0x5C"
  by code_simp+

lemma hex_digit_hex [simp]: "n < 16 \<Longrightarrow> is_hex_char (hex_digit n)"
  by (auto simp: is_hex_char_def hex_digit_def py_is_digit_def of_char_of)

lemma scan_string_char: "scan_string (json_char c @ t) = scan_string t"
proof -
  have e: "CHR ''n'' \<in> set simple_escapes" "CHR ''r'' \<in> set simple_escapes" "CHR ''t'' \<in> set simple_escapes"
    "CHR ''b'' \<in> set simple_escapes" "CHR ''f'' \<in> set simple_escapes" "dq \<in> set simple_escapes"
    "bs \<in> set simple_escapes"
    by (simp_all add: simple_escapes_def)
  have u: "CHR ''u'' \<notin> set simple_escapes" by (simp add: simple_escapes_def dq_char bs_char)
  have n: "bs \<noteq> dq" "CHR ''u'' \<noteq> dq" "is_hex_char CHR ''0''"
    by (simp_all add: bs_char dq_char is_hex_char_def py_is_digit_def)
  have b: "code_of c div 16 < 16" using nat_of_char_less_256 [of c] by linarith
  show ?thesis
    using e u n b by (auto simp: json_char_def)
qed

lemma scan_string_json: "scan_string (concat (map json_char s) @ dq # r) = Some r"
  by (induction s) (simp_all add: scan_string_char)

text \<open>What may follow a value inside a document.\<close>

definition json_ends :: "string \<Rightarrow> bool" where
  "json_ends r = (r = [] \<or> hd r \<in> {CHR '','', CHR '']'', CHR ''}''})"

lemma nat_digits_zero: "nat_digits m = CHR ''0'' # u \<Longrightarrow> m = 0"
proof (induction m arbitrary: u rule: nat_digits.induct)
  case (1 m)
  show ?case
  proof (cases "m < 10")
    case True
    with "1.prems" have "char_of (48 + m) = CHR ''0''" by (simp add: nat_digits.simps [of m])
    then have "(of_char (char_of (48 + m) :: char) :: nat) = 48" by simp
    with True show ?thesis by simp
  next
    case False
    with "1.prems" obtain v where "nat_digits (m div 10) = CHR ''0'' # v"
      by (cases "nat_digits (m div 10)") (auto simp: nat_digits.simps [of m])
    with "1.IH" [OF False] False show ?thesis by fastforce
  qed
qed

lemma scan_digits_nat:
  assumes "json_ends r" "n < 10 ^ max_str_digits"
  shows "scan_digits (nat_digits n @ r) = Inr r"
proof -
  obtain c t where c: "nat_digits n = c # t" by (cases "nat_digits n") auto
  have d: "py_is_digit c" "\<forall>x\<in>set t. py_is_digit x"
    using nat_digits_digit [of n] c by auto
  have z: "t = []" if "c = CHR ''0''"
  proof (rule ccontr)
    assume "t \<noteq> []"
    from c that have "n = 0" by (auto dest: nat_digits_zero)
    with c \<open>t \<noteq> []\<close> show False by (simp add: nat_digits.simps [of 0])
  qed
  have r: "takeWhile py_is_digit (t @ r) = t" "dropWhile py_is_digit (t @ r) = r"
    using d(2) assms(1) by (cases r; auto simp: json_ends_def py_is_digit_def takeWhile_append dropWhile_append)+
  have "length (c # t) \<le> max_str_digits"
    using nat_digits_length [OF max_str_digits_pos assms(2)] c by simp
  moreover have "scan_exponent (scan_fraction r) = r"
    using assms(1) by (auto simp: json_ends_def scan_fraction_def scan_exponent_def split: list.splits)
  ultimately show ?thesis
    using c d r z by (auto simp: scan_digits_def Let_def)
qed

lemma scan_plain_int:
  assumes "json_ends r" "\<bar>i\<bar> < 10 ^ max_str_digits"
  shows "scan_plain (py_str_int i @ r) = Inr r"
proof -
  obtain c t where c: "nat_digits (nat \<bar>i\<bar>) = c # t" by (cases "nat_digits (nat \<bar>i\<bar>)") auto
  have d: "py_is_digit c" using nat_digits_digit [of "nat \<bar>i\<bar>"] c by simp
  then have h: "c \<noteq> CHR ''n''" "c \<noteq> CHR ''t''" "c \<noteq> CHR ''f''" "c \<noteq> CHR ''N''" "c \<noteq> CHR ''I''"
    "c \<noteq> CHR ''-''"
    by (auto simp: py_is_digit_def)
  have f: "find (py_startswith (p @ c # t @ r)) json_constants = None" if "p = [] \<or> p = ''-''" for p
    using that h by (auto simp: json_constants_def py_startswith_def)
  have s: "scan_digits (c # t @ r) = Inr r"
    using scan_digits_nat [OF assms(1), of "nat \<bar>i\<bar>"] assms(2) c by simp
  show ?thesis
  proof (cases "i < 0")
    case True
    with c have "py_str_int i = CHR ''-'' # c # t" by (simp add: py_str_int_def)
    with f [of "''-''"] s show ?thesis by (simp add: scan_plain_def)
  next
    case False
    with c have "py_str_int i = c # t" by (simp add: py_str_int_def)
    with f [of "[]"] s h show ?thesis by (simp add: scan_plain_def)
  qed
qed

text \<open>A text that the automaton reads as a value, whatever follows it.\<close>

definition json_value_text :: "string \<Rightarrow> bool" where
  "json_value_text t =
     (t \<noteq> [] \<and> \<not> json_space (hd t) \<and> hd t \<noteq> CHR '']'' \<and>
      (\<forall>st r. json_ends r \<longrightarrow> json_run st True (t @ r) = json_run st False r))"

fun no_floats :: "pyval \<Rightarrow> bool" where
  "no_floats (PFloat t r) = False"
| "no_floats (PInt i) = (\<bar>i\<bar> < 10 ^ max_str_digits)"
| "no_floats (PList xs) = list_all no_floats xs"
| "no_floats (PDict d) = list_all (\<lambda>kv. no_floats (snd kv)) d"
| "no_floats _ = True"

lemma skip_space_text [simp]: "c = hd t \<Longrightarrow> t \<noteq> [] \<Longrightarrow> \<not> json_space (hd t) \<Longrightarrow> skip_space (t @ r) = t @ r"
  by (cases t) (simp_all add: skip_space_def)

lemma skip_space_nonspace [simp]: "\<not> json_space c \<Longrightarrow> skip_space (c # r) = c # r"
  by (simp add: skip_space_def)

lemma json_punctuation [simp]:
  "\<not> json_space CHR '',''" "\<not> json_space CHR '']''" "\<not> json_space CHR ''}''" "\<not> json_space CHR '':''"
  "\<not> json_space CHR ''[''" "\<not> json_space CHR ''{''" "\<not> json_space dq"
  by (simp_all add: json_space_def dq_char)

lemma run_elements:
  assumes "list_all json_value_text ts" "ts \<noteq> []"
  shows "json_run (InArray # st) True (py_join '','' ts @ CHR '']'' # r) = json_run st False r"
  using assms
proof (induction ts rule: induct_list012)
  case (2 t)
  then show ?case by (simp add: json_value_text_def json_ends_def json_run.simps(2))
next
  case (3 t u ts)
  then have "json_run (InArray # st) True (t @ CHR '','' # py_join '','' (u # ts) @ CHR '']'' # r) =
      json_run (InArray # st) False (CHR '','' # py_join '','' (u # ts) @ CHR '']'' # r)"
    by (simp add: json_value_text_def json_ends_def)
  with 3 show ?case by (simp add: json_run.simps(2))
qed simp

lemma scan_key_text: "scan_key (json_string k @ CHR '':'' # r) = Some r"
  by (simp add: scan_key_def json_string_def scan_string_json)

lemma run_members:
  assumes "list_all (\<lambda>kt. json_value_text (snd kt)) ts" "ts \<noteq> []"
  shows "\<exists>u. scan_key (py_join '','' (map (\<lambda>(k, t). json_string k @ '':'' @ t) ts) @ CHR ''}'' # r) = Some u \<and>
    json_run (InObject # st) True u = json_run st False r"
  using assms
proof (induction ts rule: induct_list012)
  case (2 kt)
  then show ?case
    by (cases kt) (simp add: scan_key_text json_value_text_def json_ends_def json_run.simps(2))
next
  case (3 kt lu ts)
  let ?rest = "py_join '','' (map (\<lambda>(k, t). json_string k @ '':'' @ t) (lu # ts)) @ CHR ''}'' # r"
  obtain u where u: "scan_key ?rest = Some u" "json_run (InObject # st) True u = json_run st False r"
    using "3.IH"(2) "3.prems" by auto
  have "skip_space ?rest = ?rest"
    by (cases lu; cases ts) (simp_all add: json_string_def)
  with u 3 show ?case
    by (cases kt) (simp add: scan_key_text json_value_text_def json_ends_def json_run.simps(2))
qed simp

lemma json_value_textI:
  assumes "t = c # t'" "\<not> json_space c" "c \<noteq> CHR '']''"
    "\<And>st r. json_ends r \<Longrightarrow> json_run st True (t @ r) = json_run st False r"
  shows "json_value_text t"
  using assms by (simp add: json_value_text_def)

lemma json_text_plain:
  assumes "t \<noteq> []" "\<not> json_space (hd t)" "hd t \<notin> {dq, CHR ''['', CHR ''{'', CHR '']''}"
    "\<And>r. json_ends r \<Longrightarrow> scan_plain (t @ r) = Inr r"
  shows "json_value_text t"
  using assms by (cases t) (simp_all add: json_value_text_def json_run.simps(1))

lemma json_text_int: "\<bar>i\<bar> < 10 ^ max_str_digits \<Longrightarrow> json_value_text (py_str_int i)"
proof (rule json_text_plain)
  have "hd (py_str_int i) = CHR ''-'' \<or> py_is_digit (hd (py_str_int i))"
    using nat_digits_digit [of "nat i"] by (simp add: py_str_int_def)
  then show "hd (py_str_int i) \<notin> {dq, CHR ''['', CHR ''{'', CHR '']''}" "\<not> json_space (hd (py_str_int i))"
    by (auto simp: dq_char json_space_def py_is_digit_def)
qed (simp_all add: scan_plain_int)

lemma json_text_string: "json_value_text (json_string s)"
  by (rule json_value_textI [where c = dq])
    (auto simp: json_string_def json_run.simps(1) scan_string_json, simp add: dq_char)

lemma json_text_list:
  assumes "list_all json_value_text ts"
  shows "json_value_text (''['' @ py_join '','' ts @ '']'')"
proof (rule json_value_textI [where c = "CHR ''[''"], goal_cases)
  case (4 st r)
  show ?case
  proof (cases "ts = []")
    case True
    then show ?thesis by (simp add: json_run.simps(1) dq_char)
  next
    case False
    with assms have "py_join '','' ts \<noteq> []" "\<not> json_space (hd (py_join '','' ts))" "hd (py_join '','' ts) \<noteq> CHR '']''"
      by (cases ts rule: remdups_adj.cases, auto simp: json_value_text_def)+
    then obtain c t where c: "py_join '','' ts = c # t" "\<not> json_space c" "c \<noteq> CHR '']''"
      by (cases "py_join '','' ts") auto
    with run_elements [OF assms False, of st r] show ?thesis by (simp add: json_run.simps(1) dq_char)
  qed
qed simp_all

lemma json_text_object:
  assumes "list_all (\<lambda>kt. json_value_text (snd kt)) ts"
  shows "json_value_text (''{'' @ py_join '','' (map (\<lambda>(k, t). json_string k @ '':'' @ t) ts) @ ''}'')"
proof (rule json_value_textI [where c = "CHR ''{''"], goal_cases)
  case (4 st r)
  let ?t = "py_join '','' (map (\<lambda>(k, t). json_string k @ '':'' @ t) ts)"
  show ?case
  proof (cases "ts = []")
    case True
    then show ?thesis by (simp add: json_run.simps(1) dq_char)
  next
    case False
    then obtain u where u: "scan_key (?t @ CHR ''}'' # r) = Some u" "json_run (InObject # st) True u = json_run st False r"
      using run_members [OF assms] by blast
    from False obtain t where t: "?t = dq # t"
      by (cases ts rule: remdups_adj.cases) (auto simp: json_string_def)
    with u show ?thesis by (simp add: json_run.simps(1)) (simp add: dq_char)
  qed
qed simp_all

lemma json_text_canonical: "no_floats v \<Longrightarrow> json_value_text (json_canonical v)"
proof (induction v rule: json_canonical.induct)
  case (6 xs)
  then show ?case
    unfolding json_canonical.simps by (intro json_text_list) (auto simp: list_all_iff)
next
  case (7 d)
  then show ?case
    unfolding json_canonical.simps by (intro json_text_object) (auto simp: list_all_iff)
qed (auto intro!: json_text_int json_text_string json_text_plain
      simp: scan_plain_def json_constants_def py_startswith_def json_space_def dq_char)

text \<open>
  A document without floats that the program prints is accepted by \<open>json.loads\<close>.
\<close>

theorem json_prints_accepted: "no_floats v \<Longrightarrow> json_loads_fault (json_canonical v) = None"
  using json_text_canonical [of v]
  by (auto simp: json_value_text_def json_loads_fault_def json_ends_def json_run.simps(2) skip_space_def
      dest: spec [of _ "[]"])

end
