(* ===== verification/Dc_Contract.thy ===== *)
theory Dc_Contract
  imports Js_Scan Cdc_Runtime
begin

text \<open>
  Data contracts (\<open>readiness/schema_contracts.py\<close>) and the validation of the values of a row
  against them (\<open>type_system/enforcement.py\<close>).

  A cell is a value that a driver or a decoder puts into a row. A float is its \<open>repr\<close>, a
  \<open>Decimal\<close> its coefficient and exponent; signalling NaNs, exponents of more than 18 digits and
  objects of other classes are outside the model.
\<close>

section \<open>Contracts\<close>

record column_contract =
  cc_name :: string
  cc_type :: string
  cc_precision :: "int option"
  cc_scale :: "int option"
  cc_nullable :: bool
  cc_timezone :: "bool option"

datatype enforcement_mode = EnforceStrict | EnforceCoerce | EnforceQuarantine | EnforceWarn

record schema_contract =
  sc_enforcement :: enforcement_mode
  sc_columns :: "(string \<times> column_contract) list option"

definition contract_optional_int :: "pyval \<Rightarrow> string \<Rightarrow> int option res" where
  "contract_optional_int v field =
     (if v = PNone then Inr None
      else bind_res (py_to_int v) (\<lambda>i.
        if i < 0 then Inl (ValueError (field @ '' must be >= 0'')) else Inr (Some i)))"

definition column_options :: "string list" where
  "column_options = [''type'', ''logical_type'', ''precision'', ''scale'', ''nullable'', ''timezone'']"

definition column_from_config :: "string \<Rightarrow> (string \<times> pyval) list \<Rightarrow> column_contract res" where
  "column_from_config nm raw =
     (let unknown = sort (filter (\<lambda>k. k \<notin> set column_options) (map fst raw)) in
      if unknown \<noteq> [] then
        Inl (ValueError (''schema_contract.columns.'' @ nm @ '' has unsupported options: '' @
          py_join '', '' unknown))
      else
        bind_res (contract_optional_int (py_get raw ''precision'') ''precision'') (\<lambda>p.
        bind_res (contract_optional_int (py_get raw ''scale'') ''scale'') (\<lambda>s.
        Inr \<lparr>cc_name = nm,
             cc_type = py_str (py_get_default raw ''type''
               (py_get_default raw ''logical_type'' (PStr ''string''))),
             cc_precision = p, cc_scale = s,
             cc_nullable = py_truthy (py_get_default raw ''nullable'' (PBool True)),
             cc_timezone = map_option py_truthy (dict_get raw ''timezone'')\<rparr>)))"

definition enforcement_of :: "string \<Rightarrow> enforcement_mode option" where
  "enforcement_of s =
     map_of [(''strict'', EnforceStrict), (''coerce'', EnforceCoerce),
       (''quarantine'', EnforceQuarantine), (''warn'', EnforceWarn)] s"

definition ensure_column_mapping :: "pyval \<Rightarrow> string \<Rightarrow> (string \<times> pyval) list res" where
  "ensure_column_mapping v nm =
     (case v of PDict d \<Rightarrow> Inr d
      | _ \<Rightarrow> Inl (ValueError (''schema_contract.columns.'' @ nm @ '' must be an object'')))"

definition contract_from_config :: "(string \<times> pyval) list \<Rightarrow> schema_contract res" where
  "contract_from_config raw =
     (case enforcement_of (py_str (py_get_default raw ''enforcement'' (PStr ''strict''))) of
        None \<Rightarrow> Inl (ValueError
          ''schema_contract.enforcement must be one of: strict, coerce, quarantine, warn'')
      | Some mode \<Rightarrow>
          (case py_get_default raw ''columns'' (PDict []) of
             PNone \<Rightarrow> Inr \<lparr>sc_enforcement = mode, sc_columns = Some []\<rparr>
           | PDict d \<Rightarrow>
               bind_res (map_res (\<lambda>(k, v). bind_res (ensure_column_mapping v k) (\<lambda>c.
                 map_sum id (Pair k) (column_from_config k c))) d) (\<lambda>cols.
               Inr \<lparr>sc_enforcement = mode, sc_columns = Some cols\<rparr>)
           | _ \<Rightarrow> Inl (ValueError ''schema_contract.columns must be an object'')))"

definition contract_columns :: "schema_contract \<Rightarrow> column_contract list" where
  "contract_columns k = (case sc_columns k of None \<Rightarrow> [] | Some d \<Rightarrow> map snd d)"

definition contract_column :: "schema_contract \<Rightarrow> string \<Rightarrow> column_contract option" where
  "contract_column k nm =
     (let d = (case sc_columns k of None \<Rightarrow> [] | Some d \<Rightarrow> d) in
      case dict_get d nm of Some c \<Rightarrow> Some c | None \<Rightarrow> dict_get d (py_lower nm))"

section \<open>Cells\<close>

datatype cell =
    CNull
  | CBool bool
  | CInt int
  | CFloat string
  | CStr string
  | CDec decimal_value
  | CDatetime pydt
  | CDate pydate
  | CTime int
  | CBytes "byte list"
  | CByteArray "byte list"
  | CMemory bool "byte list"
  | CList "cell list"
  | CTuple "cell list"
  | CDict "(string \<times> cell) list"

type_synonym cell_row = "(string \<times> cell) list"

definition row_get :: "cell_row \<Rightarrow> string \<Rightarrow> cell" where
  "row_get r k = (case dict_get r k of None \<Rightarrow> CNull | Some v \<Rightarrow> v)"

text \<open>\<open>s.isdigit()\<close>: the superscripts two, three and one are digits too.\<close>

definition py_isdigit :: "string \<Rightarrow> bool" where
  "py_isdigit s = (s \<noteq> [] \<and> list_all (\<lambda>c. py_is_digit c \<or> code_of c \<in> {178, 179, 185}) s)"

definition is_int_cell :: "cell \<Rightarrow> bool" where
  "is_int_cell v =
     (case v of
        CInt _ \<Rightarrow> True
      | CStr s \<Rightarrow> py_isdigit (dropWhile (\<lambda>c. c = CHR ''-'') (py_strip s))
      | _ \<Rightarrow> False)"

text \<open>
  \<open>Decimal(str(value))\<close>. The text of a \<open>Decimal\<close> gives it back; that of an integer of more
  than 4300 digits raises \<open>ValueError\<close>, and no other text of a cell is a number.
\<close>

definition as_decimal :: "cell \<Rightarrow> decimal_value option" where
  "as_decimal v =
     (case v of
        CInt i \<Rightarrow> if \<bar>i\<bar> < 10 ^ max_str_digits then Some (DecFinite i 0) else None
      | CFloat r \<Rightarrow> parse_decimal_text r
      | CStr s \<Rightarrow> parse_decimal_text s
      | CDec d \<Rightarrow> Some d
      | _ \<Rightarrow> None)"

definition is_decimal_cell :: "cell \<Rightarrow> column_contract \<Rightarrow> bool" where
  "is_decimal_cell v c =
     (case as_decimal v of
        Some (DecFinite n e) \<Rightarrow>
          (case cc_scale c of Some s \<Rightarrow> \<bar>e\<bar> \<le> s | None \<Rightarrow> True) \<and>
          (case cc_precision c of Some p \<Rightarrow> int (length (nat_digits (nat \<bar>n\<bar>))) \<le> p | None \<Rightarrow> True)
      | _ \<Rightarrow> False)"

text \<open>
  The texts that \<open>float\<close> takes: underscores only between digits, surrounding white space, an
  infinity or a NaN by name.
\<close>

fun underscores_between_digits :: "bool \<Rightarrow> string \<Rightarrow> bool" where
  "underscores_between_digits p [] = True"
| "underscores_between_digits p (c # s) =
     ((c = CHR ''_'' \<longrightarrow> p \<and> s \<noteq> [] \<and> py_is_digit (hd s)) \<and>
      underscores_between_digits (py_is_digit c) s)"

definition float_text_ok :: "string \<Rightarrow> bool" where
  "float_text_ok s =
     (underscores_between_digits False s \<and>
      (let (neg, t) = sign_split (filter (\<lambda>c. c \<noteq> CHR ''_'') (py_lower s)) in
       t = ''inf'' \<or> t = ''infinity'' \<or> t = ''nan'' \<or> parse_finite neg t \<noteq> None))"

definition byte_chars :: "byte list \<Rightarrow> string" where
  "byte_chars b = map (\<lambda>x. char_of (unat x)) b"

definition ascii_space :: "char \<Rightarrow> bool" where
  "ascii_space c = (code_of c \<in> {9, 10, 11, 12, 13, 32})"

definition float_bytes_ok :: "byte list \<Rightarrow> bool" where
  "float_bytes_ok b = float_text_ok
     (rev (dropWhile ascii_space (rev (dropWhile ascii_space (byte_chars b)))))"

text \<open>An integer from \<open>2^1024 - 2^970\<close> on rounds to no finite double.\<close>

definition float_limit :: int where
  "float_limit = 2 ^ 1024 - 2 ^ 970"

definition is_float_cell :: "cell \<Rightarrow> bool res" where
  "is_float_cell v =
     (case v of
        CInt i \<Rightarrow> if \<bar>i\<bar> < float_limit then Inr True
                  else Inl (OverflowError ''int too large to convert to float'')
      | CFloat _ \<Rightarrow> Inr True
      | CDec _ \<Rightarrow> Inr True
      | CStr s \<Rightarrow> Inr (float_text_ok (py_strip s))
      | CBytes b \<Rightarrow> Inr (float_bytes_ok b)
      | CByteArray b \<Rightarrow> Inr (float_bytes_ok b)
      | CMemory _ b \<Rightarrow> Inr (float_bytes_ok b)
      | _ \<Rightarrow> Inr False)"

text \<open>The exception of \<open>hash(value)\<close>; the test \<open>value in {0, 1}\<close> hashes the value.\<close>

fun hash_fault :: "cell \<Rightarrow> py_exn option" where
  "hash_fault (CList _) = Some (TypeError ''unhashable type: list'')"
| "hash_fault (CDict _) = Some (TypeError ''unhashable type: dict'')"
| "hash_fault (CByteArray _) = Some (TypeError ''unhashable type: bytearray'')"
| "hash_fault (CMemory ro _) =
     (if ro then None else Some (ValueError ''cannot hash writable memoryview object''))"
| "hash_fault (CTuple xs) =
     (case filter (\<lambda>f. f \<noteq> None) (map hash_fault xs) of [] \<Rightarrow> None | f # _ \<Rightarrow> f)"
| "hash_fault _ = None"

definition bool_texts :: "string list" where
  "bool_texts = [''true'', ''false'', ''1'', ''0'', ''yes'', ''no'']"

definition is_bool_cell :: "cell \<Rightarrow> bool res" where
  "is_bool_cell v =
     (case v of
        CBool _ \<Rightarrow> Inr True
      | CStr s \<Rightarrow> Inr (py_lower (py_strip s) \<in> set bool_texts)
      | _ \<Rightarrow>
          (case hash_fault v of
             Some e \<Rightarrow> Inl e
           | None \<Rightarrow> Inr (case v of
                 CInt i \<Rightarrow> i = 0 \<or> i = 1
               | CFloat r \<Rightarrow> r = ''0.0'' \<or> r = ''-0.0'' \<or> r = ''1.0''
               | CDec (DecFinite n e) \<Rightarrow> n = 0 \<or> (e \<le> 0 \<and> n = 10 ^ nat (- e))
               | _ \<Rightarrow> False)))"

definition is_datetime_cell :: "cell \<Rightarrow> bool" where
  "is_datetime_cell v =
     (case v of
        CDatetime _ \<Rightarrow> True
      | CStr s \<Rightarrow> \<not> isl (datetime_fromisoformat (py_replace_char CHR ''Z'' ''+00:00'' s))
      | _ \<Rightarrow> False)"

definition is_date_cell :: "cell \<Rightarrow> bool" where
  "is_date_cell v =
     (case v of
        CDate _ \<Rightarrow> True
      | CStr s \<Rightarrow> \<not> isl (date_fromisoformat s)
      | _ \<Rightarrow> False)"

text \<open>\<open>time.fromisoformat\<close>: a leading \<open>T\<close> is skipped.\<close>

definition time_text_ok :: "string \<Rightarrow> bool" where
  "time_text_ok s =
     (case parse_iso_time (if py_startswith s ''T'' then tl s else s) of
        None \<Rightarrow> False
      | Some (vals, f, z) \<Rightarrow>
          (case z of None \<Rightarrow> True | Some off \<Rightarrow> - us_day < off \<and> off < us_day) \<and>
          tcomp vals 0 \<le> 23 \<and> tcomp vals 1 \<le> 59 \<and> tcomp vals 2 \<le> 59)"

definition is_time_cell :: "cell \<Rightarrow> bool" where
  "is_time_cell v =
     (case v of CTime _ \<Rightarrow> True | CStr s \<Rightarrow> time_text_ok s | _ \<Rightarrow> False)"

text \<open>Only a \<open>JSONDecodeError\<close> is caught.\<close>

definition is_json_cell :: "cell \<Rightarrow> bool res" where
  "is_json_cell v =
     (case v of
        CDict _ \<Rightarrow> Inr True
      | CList _ \<Rightarrow> Inr True
      | CStr s \<Rightarrow>
          (case json_loads_fault s of
             None \<Rightarrow> Inr True
           | Some JsonSyntax \<Rightarrow> Inr False
           | Some JsonDigits \<Rightarrow> Inl (ValueError ''Exceeds the limit for integer string conversion''))
      | _ \<Rightarrow> Inr False)"

section \<open>Validation of a value\<close>

definition is_string_cell :: "cell \<Rightarrow> bool" where
  "is_string_cell v = (case v of CStr _ \<Rightarrow> True | _ \<Rightarrow> False)"

definition is_array_cell :: "cell \<Rightarrow> bool" where
  "is_array_cell v = (case v of CList _ \<Rightarrow> True | CTuple _ \<Rightarrow> True | _ \<Rightarrow> False)"

definition is_binary_cell :: "cell \<Rightarrow> bool" where
  "is_binary_cell v =
     (case v of CBytes _ \<Rightarrow> True | CByteArray _ \<Rightarrow> True | CMemory _ _ \<Rightarrow> True | _ \<Rightarrow> False)"

definition validate_typed :: "string \<Rightarrow> cell \<Rightarrow> column_contract \<Rightarrow> (bool \<times> string) res" where
  "validate_typed logical v c =
     (let must = (\<lambda>ok ty. (ok, cc_name c @ '' must be '' @ ty)) in
      if logical = ''string'' then Inr (must (is_string_cell v) ''string'')
      else if logical = ''integer'' \<or> logical = ''bigint'' then Inr (must (is_int_cell v) ''integer'')
      else if logical = ''decimal'' then Inr (must (is_decimal_cell v c) ''decimal'')
      else if logical = ''float'' then map_sum id (\<lambda>ok. must ok ''float'') (is_float_cell v)
      else if logical = ''boolean'' then map_sum id (\<lambda>ok. must ok ''boolean'') (is_bool_cell v)
      else if logical = ''timestamp'' then Inr (must (is_datetime_cell v) ''timestamp'')
      else if logical = ''date'' then Inr (must (is_date_cell v) ''date'')
      else if logical = ''time'' then Inr (must (is_time_cell v) ''time'')
      else if logical = ''json'' then map_sum id (\<lambda>ok. must ok ''json'') (is_json_cell v)
      else if logical = ''array'' then Inr (must (is_array_cell v) ''array'')
      else if logical = ''binary'' then Inr (must (is_binary_cell v) ''binary'')
      else Inr (True, []))"

definition validate_value :: "cell \<Rightarrow> column_contract \<Rightarrow> (bool \<times> string) res" where
  "validate_value v c =
     (if v = CNull then Inr (cc_nullable c, cc_name c @ '' is required but value is NULL'')
      else validate_typed (py_lower (cc_type c)) v c)"

definition actual_type :: "cell \<Rightarrow> string" where
  "actual_type v =
     (case v of
        CNull \<Rightarrow> ''null''
      | CBool _ \<Rightarrow> ''boolean''
      | CInt _ \<Rightarrow> ''integer''
      | CFloat _ \<Rightarrow> ''float''
      | CStr _ \<Rightarrow> ''string''
      | CDict _ \<Rightarrow> ''object''
      | CList _ \<Rightarrow> ''array''
      | CTuple _ \<Rightarrow> ''array''
      | CDec _ \<Rightarrow> ''Decimal''
      | CDatetime _ \<Rightarrow> ''datetime''
      | CDate _ \<Rightarrow> ''date''
      | CTime _ \<Rightarrow> ''time''
      | CBytes _ \<Rightarrow> ''bytes''
      | CByteArray _ \<Rightarrow> ''bytearray''
      | CMemory _ _ \<Rightarrow> ''memoryview'')"

text \<open>The type of a staging column under a contract (\<open>runtime/etl/lifecycle.py\<close>).\<close>

definition int_or :: "int option \<Rightarrow> int \<Rightarrow> int" where
  "int_or x dflt = (case x of Some i \<Rightarrow> if i = 0 then dflt else i | None \<Rightarrow> dflt)"

definition contract_dtype :: "string \<Rightarrow> string \<Rightarrow> schema_contract \<Rightarrow> string" where
  "contract_dtype nm dtype k =
     (case contract_column k nm of
        None \<Rightarrow> dtype
      | Some c \<Rightarrow>
          (let logical = py_lower (cc_type c) in
           if logical = ''decimal'' then
             ''decimal('' @ py_str_int (int_or (cc_precision c) 38) @ '','' @
             py_str_int (int_or (cc_scale c) 9) @ '')''
           else if logical = ''timestamp'' then ''timestamp''
           else if logical = ''integer'' \<or> logical = ''bigint'' then ''bigint''
           else if logical \<in> {''boolean'', ''date'', ''time'', ''json'', ''binary''} then logical
           else dtype))"

end
