(* ===== verification/Dc_Enforce.thy ===== *)
theory Dc_Enforce
  imports Dc_Contract
begin

text \<open>
  The enforcement of a contract on rows (\<open>type_system/enforcement.py\<close>), on a list of rows and
  on a stream cut into batches (\<open>runtime/etl/contract_artifacts.py\<close>).

  The writer of rejected rows and the inserter of accepted ones are actions on a world
  \<open>'w\<close>; the dead-letter queue of the program is plugged in in \<open>Dlq_Service\<close>. \<open>repr\<close> of a
  driver's value, the JSON text of a row under \<open>default=str\<close> and SHA-256 are parameters.
\<close>

definition io_raise :: "py_exn \<Rightarrow> ('w, 'a) io" where
  "io_raise e = (\<lambda>w. (Inl e, w))"

definition io_lift :: "'a res \<Rightarrow> ('w, 'a) io" where
  "io_lift r = (\<lambda>w. (r, w))"

section \<open>The rejected row and its writer\<close>

record rejection =
  rj_code :: string
  rj_stage :: string
  rj_column :: "string option"
  rj_diagnostics :: "(string \<times> pyval) list"

record dlq_receipt =
  wr_record_id :: string
  wr_reason_code :: string

record 'w dlq_writer =
  dw_write :: "string \<Rightarrow> string \<Rightarrow> cell_row \<Rightarrow> nat \<Rightarrow> rejection \<Rightarrow> ('w, dlq_receipt) io"
  dw_finalize :: "string \<Rightarrow> ('w, string option) io"

section \<open>Diagnostics and results\<close>

datatype contract_action = ActionFail | ActionWarn | ActionQuarantine | ActionVariant

datatype conflict_policy = ConflictFail | ConflictVariant | ConflictQuarantine

record contract_diagnostic =
  dg_row_index :: nat
  dg_column :: string
  dg_action :: contract_action
  dg_message :: string
  dg_expected_type :: string
  dg_actual_value :: string
  dg_reason_code :: string
  dg_actual_type :: string

record enforcement_result =
  er_passed :: bool
  er_rows :: "cell_row list"
  er_diagnostics :: "contract_diagnostic list"
  er_rejected :: nat
  er_quarantined :: nat
  er_commit_allowed :: bool
  er_dlq_ids :: "string list"
  er_dlq_reasons :: "(string \<times> nat) list"
  er_index_ref :: "string option"
  er_accepted_count :: "nat option"

definition accepted_rows :: "enforcement_result \<Rightarrow> nat" where
  "accepted_rows r = (case er_accepted_count r of Some n \<Rightarrow> n | None \<Rightarrow> length (er_rows r))"

definition data_outcome :: "enforcement_result \<Rightarrow> string" where
  "data_outcome r =
     (if \<not> er_passed r then ''failed_quality_gate''
      else if er_quarantined r \<noteq> 0 then ''passed_with_quarantine''
      else ''passed'')"

text \<open>
  The projections for durable evidence and lineage. The code calls them safe for personal data:
  they leave out \<open>actual_value\<close>, the text of the rejected value.
\<close>

definition action_name :: "contract_action \<Rightarrow> string" where
  "action_name a = (case a of ActionFail \<Rightarrow> ''fail'' | ActionWarn \<Rightarrow> ''warn'' | ActionQuarantine \<Rightarrow> ''quarantine''
     | ActionVariant \<Rightarrow> ''variant_column'')"

definition diagnostic_to_evidence :: "contract_diagnostic \<Rightarrow> pyval" where
  "diagnostic_to_evidence d = PDict
     [(''row_index'', PInt (int (dg_row_index d))), (''column'', PStr (dg_column d)),
      (''action'', PStr (action_name (dg_action d))), (''message'', PStr (dg_message d)),
      (''expected_type'', PStr (dg_expected_type d)), (''actual_type'', PStr (dg_actual_type d)),
      (''reason_code'', PStr (dg_reason_code d))]"

definition result_to_evidence :: "enforcement_result \<Rightarrow> pyval" where
  "result_to_evidence r = PDict
     [(''passed'', PBool (er_passed r)), (''diagnostics'', PList (map diagnostic_to_evidence (er_diagnostics r))),
      (''accepted_rows'', PInt (int (accepted_rows r))), (''rejected_rows'', PInt (int (er_rejected r))),
      (''quarantined_rows'', PInt (int (er_quarantined r))), (''state_commit_allowed'', PBool (er_commit_allowed r))]"

definition enforce_action :: "enforcement_mode \<Rightarrow> conflict_policy \<Rightarrow> contract_action" where
  "enforce_action m p =
     (if p = ConflictVariant then ActionVariant
      else if p = ConflictQuarantine then ActionQuarantine
      else if m = EnforceQuarantine then ActionQuarantine
      else if m = EnforceWarn then ActionWarn
      else ActionFail)"

definition variant_prefix :: string where
  "variant_prefix = ''__dpone__nc__''"

definition safe_value :: "(cell \<Rightarrow> string) \<Rightarrow> cell \<Rightarrow> string" where
  "safe_value rp v = (let s = rp v in if length s \<le> 500 then s else take 497 s @ ''...'')"

text \<open>The service with its writer, and the arguments of \<open>enforce\<close> that do not change.\<close>

record 'w enforcer =
  ef_writer :: "'w dlq_writer option"
  ef_contract :: schema_contract
  ef_run :: string
  ef_load :: string
  ef_policy :: conflict_policy
  ef_repr :: "cell \<Rightarrow> string"

definition reason_of :: "cell \<Rightarrow> column_contract \<Rightarrow> string" where
  "reason_of v c =
     (if v = CNull \<and> \<not> cc_nullable c then ''schema.required_null'' else ''schema.type_mismatch'')"

definition diagnose ::
  "'w enforcer \<Rightarrow> nat \<Rightarrow> column_contract \<Rightarrow> cell \<Rightarrow> string \<Rightarrow> contract_diagnostic" where
  "diagnose e i c v msg =
     \<lparr>dg_row_index = i, dg_column = cc_name c,
      dg_action = enforce_action (sc_enforcement (ef_contract e)) (ef_policy e),
      dg_message = msg, dg_expected_type = cc_type c, dg_actual_value = safe_value (ef_repr e) v,
      dg_reason_code = reason_of v c, dg_actual_type = actual_type v\<rparr>"

text \<open>The loop over the columns of one row: the row, whether it is valid, its diagnostics.\<close>

fun check_columns ::
  "'w enforcer \<Rightarrow> nat \<Rightarrow> column_contract list \<Rightarrow> cell_row \<Rightarrow> bool \<Rightarrow> contract_diagnostic list \<Rightarrow>
    (cell_row \<times> bool \<times> contract_diagnostic list) res" where
  "check_columns e i [] row valid ds = Inr (row, valid, ds)"
| "check_columns e i (c # cs) row valid ds =
     (let v = row_get row (cc_name c) in
      bind_res (validate_value v c) (\<lambda>(ok, msg).
        if ok then check_columns e i cs row valid ds
        else
          (let a = enforce_action (sc_enforcement (ef_contract e)) (ef_policy e);
               ds' = ds @ [diagnose e i c v msg] in
           if a = ActionVariant then
             check_columns e i cs
               (dict_set (dict_set row (variant_prefix @ cc_name c) v) (cc_name c) CNull) True ds'
           else check_columns e i cs row (a = ActionWarn) ds')))"

definition rejection_of :: "contract_diagnostic list \<Rightarrow> rejection" where
  "rejection_of ds =
     (case ds of
        [] \<Rightarrow> \<lparr>rj_code = ''unknown.unclassified'', rj_stage = ''contract_enforcement'',
               rj_column = None, rj_diagnostics = []\<rparr>
      | d # _ \<Rightarrow> \<lparr>rj_code = dg_reason_code d, rj_stage = ''contract_enforcement'',
               rj_column = Some (dg_column d),
               rj_diagnostics = [(''column'', PStr (dg_column d)),
                 (''expected_type'', PStr (dg_expected_type d)),
                 (''actual_type'', PStr (dg_actual_type d))]\<rparr>)"

definition put_quarantine ::
  "'w enforcer \<Rightarrow> cell_row \<Rightarrow> contract_diagnostic list \<Rightarrow> nat \<Rightarrow> ('w, dlq_receipt) io" where
  "put_quarantine e row ds i =
     (case ef_writer e of
        None \<Rightarrow> io_raise (RuntimeError
          ''DPONE_DLQ_STORE_REQUIRED: quarantine enforcement requires a durable DLQ store'')
      | Some wr \<Rightarrow> dw_write wr (ef_run e) (ef_load e) row i (rejection_of ds))"

section \<open>The loop over the rows\<close>

record enforce_acc =
  ea_rows :: "cell_row list"
  ea_diagnostics :: "contract_diagnostic list"
  ea_rejected :: nat
  ea_quarantined :: nat
  ea_ids :: "string list"
  ea_reasons :: "(string \<times> nat) list"

definition empty_acc :: enforce_acc where
  "empty_acc = \<lparr>ea_rows = [], ea_diagnostics = [], ea_rejected = 0, ea_quarantined = 0,
     ea_ids = [], ea_reasons = []\<rparr>"

definition count_add :: "(string \<times> nat) list \<Rightarrow> string \<Rightarrow> nat \<Rightarrow> (string \<times> nat) list" where
  "count_add d k n = dict_set d k ((case dict_get d k of None \<Rightarrow> 0 | Some m \<Rightarrow> m) + n)"

definition enforce_row ::
  "'w enforcer \<Rightarrow> nat \<Rightarrow> cell_row \<Rightarrow> enforce_acc \<Rightarrow> ('w, enforce_acc) io" where
  "enforce_row e i raw a =
     io_bind (io_lift (check_columns e i (contract_columns (ef_contract e)) raw True []))
       (\<lambda>(row, valid, ds).
         (let a = a\<lparr>ea_diagnostics := ea_diagnostics a @ ds\<rparr> in
          if valid then io_return (a\<lparr>ea_rows := ea_rows a @ [row]\<rparr>)
          else if sc_enforcement (ef_contract e) = EnforceQuarantine then
            io_bind (put_quarantine e row ds i) (\<lambda>rc.
              io_return (a\<lparr>ea_quarantined := Suc (ea_quarantined a),
                ea_ids := ea_ids a @ [wr_record_id rc],
                ea_reasons := count_add (ea_reasons a) (wr_reason_code rc) 1\<rparr>))
          else io_return (a\<lparr>ea_rejected := Suc (ea_rejected a)\<rparr>)))"

fun enforce_rows ::
  "'w enforcer \<Rightarrow> nat \<Rightarrow> cell_row list \<Rightarrow> enforce_acc \<Rightarrow> ('w, enforce_acc) io" where
  "enforce_rows e i [] a = io_return a"
| "enforce_rows e i (r # rs) a = io_bind (enforce_row e i r a) (enforce_rows e (Suc i) rs)"

definition text_or_none :: "string option \<Rightarrow> string option" where
  "text_or_none x = (case x of Some s \<Rightarrow> if s = [] then None else Some s | None \<Rightarrow> None)"

definition enforce_index_ref :: "'w enforcer \<Rightarrow> bool \<Rightarrow> ('w, string option) io" where
  "enforce_index_ref e wanted =
     (case ef_writer e of
        Some wr \<Rightarrow> if wanted then io_bind (dw_finalize wr (ef_run e)) (\<lambda>x. io_return (text_or_none x))
                   else io_return None
      | None \<Rightarrow> io_return None)"

definition enforce :: "'w enforcer \<Rightarrow> nat \<Rightarrow> bool \<Rightarrow> cell_row list \<Rightarrow> ('w, enforcement_result) io" where
  "enforce e offset finalize rows =
     io_bind (enforce_rows e offset rows empty_acc) (\<lambda>a.
     io_bind (enforce_index_ref e (ea_ids a \<noteq> [] \<and> finalize)) (\<lambda>ref.
     io_return \<lparr>er_passed = (ea_rejected a = 0), er_rows = ea_rows a,
       er_diagnostics = ea_diagnostics a, er_rejected = ea_rejected a,
       er_quarantined = ea_quarantined a, er_commit_allowed = (ea_rejected a = 0),
       er_dlq_ids = ea_ids a, er_dlq_reasons = sort_key fst (ea_reasons a),
       er_index_ref = ref, er_accepted_count = None\<rparr>))"

text \<open>The enforcement of the rows of a payload in memory (\<open>runtime/etl/lifecycle.py\<close>).\<close>

definition enforcement_failed :: "py_exn" where
  "enforcement_failed = RuntimeError ''data contract enforcement failed''"

definition prepare_rows :: "'w enforcer \<Rightarrow> cell_row list \<Rightarrow> ('w, cell_row list \<times> enforcement_result) io" where
  "prepare_rows e rows =
     io_bind (enforce e 0 True rows) (\<lambda>r.
       if er_passed r then io_return (er_rows r, r) else io_raise enforcement_failed)"

section \<open>The stream\<close>

function batched :: "nat \<Rightarrow> 'a list \<Rightarrow> 'a list list" where
  "batched n xs = (if n = 0 \<or> xs = [] then [] else take n xs # batched n (drop n xs))"
  by pat_completeness auto

termination
  by (relation "measure (\<lambda>(n, xs). length xs)") (auto simp: length_greater_0_conv [symmetric]
    simp del: length_greater_0_conv)

declare batched.simps [simp del]

record stream_state =
  ss_accepted :: nat
  ss_rejected :: nat
  ss_quarantined :: nat
  ss_inserted_any :: bool
  ss_digest_input :: string
  ss_ids :: "string list"
  ss_reasons :: "(string \<times> nat) list"
  ss_index_ref :: "string option"

definition empty_stream :: stream_state where
  "empty_stream = \<lparr>ss_accepted = 0, ss_rejected = 0, ss_quarantined = 0, ss_inserted_any = False,
     ss_digest_input = [], ss_ids = [], ss_reasons = [], ss_index_ref = None\<rparr>"

definition insert_mismatch :: py_exn where
  "insert_mismatch = RuntimeError ''streaming_rows.insert_count_mismatch''"

definition count_updates :: "(string \<times> nat) list \<Rightarrow> (string \<times> nat) list \<Rightarrow> (string \<times> nat) list" where
  "count_updates d u = foldl (\<lambda>d (k, n). count_add d k n) d u"

type_synonym 'w inserter = "cell_row list \<Rightarrow> ('w, pyval) io"

definition stream_insert :: "'w inserter \<Rightarrow> cell_row list \<Rightarrow> ('w, bool) io" where
  "stream_insert ins rows =
     (if rows = [] then io_return False
      else io_bind (ins rows) (\<lambda>n.
        if n = PInt (int (length rows)) then io_return True else io_raise insert_mismatch))"

definition stream_chunk ::
  "'w enforcer \<Rightarrow> 'w inserter \<Rightarrow> (cell_row \<Rightarrow> string) \<Rightarrow> cell_row list \<Rightarrow> stream_state \<Rightarrow>
    ('w, stream_state) io" where
  "stream_chunk e ins blob chunk s =
     io_bind (enforce e (ss_accepted s + ss_rejected s + ss_quarantined s) False chunk) (\<lambda>r.
     if \<not> er_passed r then io_raise enforcement_failed
     else io_bind (stream_insert ins (er_rows r)) (\<lambda>did.
       io_return
         \<lparr>ss_accepted = ss_accepted s + length (er_rows r),
          ss_rejected = ss_rejected s + er_rejected r,
          ss_quarantined = ss_quarantined s + er_quarantined r,
          ss_inserted_any = (ss_inserted_any s \<or> did),
          ss_digest_input = ss_digest_input s @ concat (map blob chunk),
          ss_ids = ss_ids s @ er_dlq_ids r,
          ss_reasons = count_updates (ss_reasons s) (er_dlq_reasons r),
          ss_index_ref = (case text_or_none (er_index_ref r) of None \<Rightarrow> ss_index_ref s | x \<Rightarrow> x)\<rparr>))"

fun stream_chunks ::
  "'w enforcer \<Rightarrow> 'w inserter \<Rightarrow> (cell_row \<Rightarrow> string) \<Rightarrow> cell_row list list \<Rightarrow> stream_state \<Rightarrow>
    ('w, stream_state) io" where
  "stream_chunks e ins blob [] s = io_return s"
| "stream_chunks e ins blob (c # cs) s =
     io_bind (stream_chunk e ins blob c s) (stream_chunks e ins blob cs)"

definition equals_zero :: "pyval \<Rightarrow> bool" where
  "equals_zero v = (case v of PInt i \<Rightarrow> i = 0 | PFloat _ r \<Rightarrow> r = ''0.0'' \<or> r = ''-0.0'' | _ \<Rightarrow> False)"

record stream_outcome =
  so_result :: enforcement_result
  so_checksum :: string
  so_bytes :: nat

definition load_with_row_inserter ::
  "'w enforcer \<Rightarrow> 'w inserter \<Rightarrow> (cell_row \<Rightarrow> string) \<Rightarrow> (string \<Rightarrow> string) \<Rightarrow> int \<Rightarrow> cell_row list \<Rightarrow>
    ('w, stream_outcome) io" where
  "load_with_row_inserter e ins blob sha batch rows =
     (if batch \<le> 0 then io_raise (ValueError ''streaming_rows.batch_size_positive'')
      else
        io_bind (stream_chunks e ins blob (batched (nat batch) rows) empty_stream) (\<lambda>s.
        io_bind (if ss_inserted_any s then io_return ()
                 else io_bind (ins []) (\<lambda>n. if equals_zero n then io_return () else io_raise insert_mismatch))
          (\<lambda>_.
        io_bind (if ss_ids s \<noteq> [] \<and> ef_writer e \<noteq> None then enforce_index_ref e True
                 else io_return (ss_index_ref s)) (\<lambda>ref.
        io_return
          \<lparr>so_result = \<lparr>er_passed = (ss_rejected s = 0), er_rows = [], er_diagnostics = [],
             er_rejected = ss_rejected s, er_quarantined = ss_quarantined s,
             er_commit_allowed = (ss_rejected s = 0), er_dlq_ids = ss_ids s,
             er_dlq_reasons = sort_key fst (ss_reasons s), er_index_ref = ref,
             er_accepted_count = Some (ss_accepted s)\<rparr>,
           so_checksum = sha (ss_digest_input s), so_bytes = length (ss_digest_input s)\<rparr>))))"

end
