(* ===== verification/Dlq_Record.thy ===== *)
theory Dlq_Record
  imports Dc_Enforce
begin

text \<open>
  The records of the dead-letter queue (\<open>contracts/dlq.py\<close>, \<open>ops/dlq_safety.py\<close>,
  \<open>ops/dlq_models.py\<close>), their identifiers (\<open>ops/ids.py\<close>) and the canonical fingerprint
  (\<open>contracts/airflow_deployment.py\<close>).

  SHA-256 of the UTF-8 text is the parameter \<open>sha\<close>. A tuple in a row is written as an array.
\<close>

definition value_error :: "string \<Rightarrow> 'a res" where
  "value_error msg = Inl (ValueError msg)"

section \<open>The canonical fingerprint\<close>

definition text_id :: "pyval \<Rightarrow> string option" where
  "text_id v =
     (case v of PDict d \<Rightarrow> (case dict_get d ''id'' of Some (PStr s) \<Rightarrow> Some s | _ \<Rightarrow> None) | _ \<Rightarrow> None)"

text \<open>Arrays of objects with a textual \<open>id\<close> are sorted by it; a backslash counts as a slash.\<close>

fun normalize_json :: "pyval \<Rightarrow> pyval" where
  "normalize_json (PDict d) = PDict (map (\<lambda>kv. (fst kv, normalize_json (snd kv))) d)"
| "normalize_json (PList xs) =
     (let ys = map normalize_json xs in
      PList (if list_all (\<lambda>y. text_id y \<noteq> None) ys then sort_key (\<lambda>y. the (text_id y)) ys else ys))"
| "normalize_json (PStr s) = PStr (py_replace_char bs ''/'' s)"
| "normalize_json v = v"

definition canonical_fingerprint ::
  "(string \<Rightarrow> string) \<Rightarrow> string list \<Rightarrow> (string \<times> pyval) list \<Rightarrow> string" where
  "canonical_fingerprint sha excluded d =
     ''sha256:'' @ sha (json_canonical (normalize_json (PDict (filter (\<lambda>kv. fst kv \<notin> set excluded) d))))"

section \<open>Identifiers\<close>

definition crockford :: string where
  "crockford = ''0123456789ABCDEFGHJKMNPQRSTVWXYZ''"

fun ulid_chars :: "nat \<Rightarrow> int \<Rightarrow> string" where
  "ulid_chars 0 v = []"
| "ulid_chars (Suc n) v = crockford ! nat (v mod 32) # ulid_chars n (v div 32)"

text \<open>\<open>new_ulid\<close> at a clock of \<open>millis\<close> with 80 random bits.\<close>

definition new_ulid :: "int \<Rightarrow> int \<Rightarrow> string" where
  "new_ulid millis entropy = rev (ulid_chars 26 (millis * 2 ^ 80 + entropy mod 2 ^ 80))"

section \<open>The policy\<close>

datatype pii_policy = PiiReferenceOnly | PiiMasked | PiiPreserve

fun pii_text :: "pii_policy \<Rightarrow> string" where
  "pii_text PiiReferenceOnly = ''reference_only''"
| "pii_text PiiMasked = ''masked''"
| "pii_text PiiPreserve = ''preserve''"

definition pii_of :: "pyval \<Rightarrow> pii_policy res" where
  "pii_of v =
     (case map_of (map (\<lambda>p. (pii_text p, p)) [PiiReferenceOnly, PiiMasked, PiiPreserve]) (py_str v) of
        Some p \<Rightarrow> Inr p
      | None \<Rightarrow> value_error ''dlq.pii_policy must be reference_only, masked, or preserve'')"

record dlq_policy =
  dp_directory :: string
  dp_enabled :: bool
  dp_retention_days :: int
  dp_pii :: pii_policy
  dp_max_record_bytes :: int
  dp_max_diagnostic_bytes :: int
  dp_max_records_per_run :: int
  dp_max_index_bytes :: int

definition dlq_policy_default :: dlq_policy where
  "dlq_policy_default =
     \<lparr>dp_directory = ''.dpone/dlq'', dp_enabled = True, dp_retention_days = 30,
      dp_pii = PiiReferenceOnly, dp_max_record_bytes = 262144, dp_max_diagnostic_bytes = 16384,
      dp_max_records_per_run = 100000, dp_max_index_bytes = 67108864\<rparr>"

definition guard :: "bool \<Rightarrow> string \<Rightarrow> unit res" where
  "guard ok msg = (if ok then Inr () else value_error msg)"

definition dlq_policy_validate :: "string \<Rightarrow> dlq_policy \<Rightarrow> unit res" where
  "dlq_policy_validate environment p =
     bind_res (guard (1 \<le> dp_retention_days p \<and> dp_retention_days p \<le> 3650)
       ''dlq.retention_days must be between 1 and 3650'') (\<lambda>_.
     bind_res (guard (4096 \<le> dp_max_record_bytes p \<and> dp_max_record_bytes p \<le> 1048576)
       ''dlq.max_record_bytes must be between 4096 and 1048576'') (\<lambda>_.
     bind_res (guard (1024 \<le> dp_max_diagnostic_bytes p \<and> dp_max_diagnostic_bytes p \<le> 65536)
       ''dlq.max_diagnostic_bytes must be between 1024 and 65536'') (\<lambda>_.
     bind_res (guard (dp_max_diagnostic_bytes p \<le> dp_max_record_bytes p)
       ''dlq.max_diagnostic_bytes cannot exceed max_record_bytes'') (\<lambda>_.
     bind_res (guard (1 \<le> dp_max_records_per_run p \<and> dp_max_records_per_run p \<le> 1000000)
       ''dlq.max_records_per_run must be between 1 and 1000000'') (\<lambda>_.
     bind_res (guard (1048576 \<le> dp_max_index_bytes p \<and> dp_max_index_bytes p \<le> 536870912)
       ''dlq.max_index_bytes must be between 1048576 and 536870912'') (\<lambda>_.
     guard (\<not> (dp_pii p = PiiPreserve \<and> py_startswith (py_lower environment) ''prod''))
       ''dlq.pii_policy=preserve is forbidden in production''))))))"

definition dlq_integer :: "pyval \<Rightarrow> string \<Rightarrow> int res" where
  "dlq_integer v field =
     (let bad = value_error (''dlq.'' @ field @ '' must be an integer'') in
      case v of
        PInt i \<Rightarrow> Inr i
      | PStr s \<Rightarrow> (case py_int s of Some i \<Rightarrow> Inr i | None \<Rightarrow> bad)
      | _ \<Rightarrow> bad)"

definition dlq_boolean :: "pyval \<Rightarrow> string \<Rightarrow> bool res" where
  "dlq_boolean v field =
     (case v of PBool b \<Rightarrow> Inr b | _ \<Rightarrow> value_error (''dlq.'' @ field @ '' must be a boolean''))"

definition dlq_policy_from_config :: "(string \<times> pyval) list \<Rightarrow> string \<Rightarrow> dlq_policy res" where
  "dlq_policy_from_config config environment =
     (let directory = py_strip (py_str (py_get_default config ''directory'' (PStr ''.dpone/dlq'')));
          integer = (\<lambda>field dflt. dlq_integer (py_get_default config field (PInt dflt)) field) in
      bind_res (guard (directory \<noteq> []) ''dlq.directory must not be empty'') (\<lambda>_.
      bind_res (dlq_boolean (py_get_default config ''enabled'' (PBool True)) ''enabled'') (\<lambda>en.
      bind_res (integer ''retention_days'' 30) (\<lambda>days.
      bind_res (pii_of (py_get_default config ''pii_policy'' (PStr ''reference_only''))) (\<lambda>pii.
      bind_res (integer ''max_record_bytes'' 262144) (\<lambda>rb.
      bind_res (integer ''max_diagnostic_bytes'' 16384) (\<lambda>db.
      bind_res (integer ''max_records_per_run'' 100000) (\<lambda>mr.
      bind_res (integer ''max_index_bytes'' 67108864) (\<lambda>ib.
      (let p = \<lparr>dp_directory = directory, dp_enabled = en, dp_retention_days = days, dp_pii = pii,
         dp_max_record_bytes = rb, dp_max_diagnostic_bytes = db, dp_max_records_per_run = mr,
         dp_max_index_bytes = ib\<rparr> in
       bind_res (dlq_policy_validate environment p) (\<lambda>_. Inr p)))))))))))"

section \<open>Reasons\<close>

record dlq_reason =
  ds_category :: string
  ds_code :: string
  ds_stage :: string
  ds_message :: string
  ds_column :: "string option"

definition reason_messages :: "(string \<times> string) list" where
  "reason_messages =
     [(''schema.required_null'', ''A required value is null.''),
      (''schema.type_mismatch'', ''Value does not match the declared logical type.''),
      (''source.decode_failed'', ''The source record could not be decoded.''),
      (''transform.failed'', ''The transform could not process the record.''),
      (''quality.rule_failed'', ''The record failed a data-quality rule.''),
      (''sink.row_rejected'', ''The sink rejected the record.''),
      (''cdc.poison'', ''The CDC event cannot be applied safely.''),
      (''unknown.unclassified'', ''The record was rejected for an unclassified reason.'')]"

definition reason_categories :: "(string \<times> string) list" where
  "reason_categories =
     [(''schema.required_null'', ''schema_validation''),
      (''schema.type_mismatch'', ''schema_validation''),
      (''source.decode_failed'', ''source_decode''),
      (''transform.failed'', ''transform''),
      (''quality.rule_failed'', ''quality''),
      (''sink.row_rejected'', ''sink_rejection''),
      (''cdc.poison'', ''cdc_poison''),
      (''unknown.unclassified'', ''unknown'')]"

definition registered_reason :: "string \<Rightarrow> string \<Rightarrow> string option \<Rightarrow> dlq_reason" where
  "registered_reason code stage column =
     (let k = (if dict_get reason_messages code \<noteq> None then code else ''unknown.unclassified'') in
      \<lparr>ds_category = the (dict_get reason_categories k), ds_code = k, ds_stage = stage,
       ds_message = the (dict_get reason_messages k), ds_column = column\<rparr>)"

definition reason_to_dict :: "dlq_reason \<Rightarrow> (string \<times> pyval) list" where
  "reason_to_dict r =
     [(''category'', PStr (ds_category r)), (''code'', PStr (ds_code r)), (''stage'', PStr (ds_stage r)),
      (''message'', PStr (ds_message r))] @
     (case ds_column r of Some c \<Rightarrow> [(''column'', PStr c)] | None \<Rightarrow> [])"

definition reason_validate :: "dlq_reason \<Rightarrow> unit res" where
  "reason_validate r =
     (case dict_get reason_messages (ds_code r) of
        None \<Rightarrow> value_error ''dlq reason code is not registered''
      | Some msg \<Rightarrow>
          bind_res (guard (dict_get reason_categories (ds_code r) = Some (ds_category r))
            ''dlq reason category does not match code'') (\<lambda>_.
          bind_res (guard (ds_message r = msg)
            ''dlq reason message does not match registered safe text'') (\<lambda>_.
          guard (ds_stage r \<noteq> [] \<and> length (ds_stage r) \<le> 128) ''dlq reason stage is invalid'')))"

section \<open>Diagnostics and payload\<close>

definition dlq_diagnostic_fields :: "string list" where
  "dlq_diagnostic_fields =
     [''actual_type'', ''column'', ''expected_type'', ''rule_id'', ''source_offset'', ''source_partition'']"

text \<open>The keys are taken in sorted order; the list above is sorted.\<close>

fun safe_item :: "pyval \<Rightarrow> pyval res" where
  "safe_item PNone = Inr PNone"
| "safe_item (PBool b) = Inr (PBool b)"
| "safe_item (PInt i) = Inr (PInt i)"
| "safe_item (PFloat t r) =
     (if t = None then value_error ''DPONE_DLQ_DIAGNOSTIC_INVALID: non-finite numbers are not allowed''
      else Inr (PFloat t r))"
| "safe_item v = Inr (PStr (take 512 (py_str v)))"

definition safe_diagnostics :: "(string \<times> pyval) list \<Rightarrow> (string \<times> pyval) list res" where
  "safe_diagnostics raw =
     map_res (\<lambda>k. map_sum id (Pair k) (safe_item (py_get raw k)))
       (filter (py_has raw) dlq_diagnostic_fields)"

text \<open>A cell as the JSON value that \<open>json.dumps\<close> makes of it, where it can.\<close>

definition float_part :: "string \<Rightarrow> int option" where
  "float_part r =
     (case parse_decimal_text r of
        Some (DecFinite n e) \<Rightarrow>
          Some (if 0 \<le> e then n * 10 ^ nat e else sgn n * (\<bar>n\<bar> div 10 ^ nat (- e)))
      | _ \<Rightarrow> None)"

definition not_serializable :: "'a res" where
  "not_serializable = Inl (TypeError ''Object is not JSON serializable'')"

declare map_res_cong [fundef_cong]

fun cell_json :: "cell \<Rightarrow> pyval res" where
  "cell_json CNull = Inr PNone"
| "cell_json (CBool b) = Inr (PBool b)"
| "cell_json (CInt i) = Inr (PInt i)"
| "cell_json (CFloat r) = Inr (PFloat (float_part r) r)"
| "cell_json (CStr s) = Inr (PStr s)"
| "cell_json (CList xs) = map_sum id PList (map_res cell_json xs)"
| "cell_json (CTuple xs) = map_sum id PList (map_res cell_json xs)"
| "cell_json (CDict d) = map_sum id PDict (map_res (\<lambda>kv. map_sum id (Pair (fst kv)) (cell_json (snd kv))) d)"
| "cell_json _ = not_serializable"

definition redacted :: pyval where
  "redacted = PStr ''[REDACTED]''"

fun mask_cell :: "cell \<Rightarrow> pyval" where
  "mask_cell (CDict d) = PDict (sort_key fst (map (\<lambda>kv. (fst kv, mask_cell (snd kv))) d))"
| "mask_cell (CList xs) = PList (map mask_cell xs)"
| "mask_cell (CTuple xs) = PList (map mask_cell xs)"
| "mask_cell _ = redacted"

fun is_masked :: "pyval \<Rightarrow> bool" where
  "is_masked (PDict d) = list_all (\<lambda>kv. is_masked (snd kv)) d"
| "is_masked (PList xs) = list_all is_masked xs"
| "is_masked v = (v = redacted)"

text \<open>
  The payload. \<open>preserve\<close> keeps the cells; a cell that is no JSON value raises when the
  fingerprint of the record is computed, which is the next step after the projection.
\<close>

definition project_payload :: "cell_row \<Rightarrow> pii_policy \<Rightarrow> pyval res" where
  "project_payload row p =
     (case p of
        PiiReferenceOnly \<Rightarrow> Inr PNone
      | PiiMasked \<Rightarrow> Inr (mask_cell (CDict row))
      | PiiPreserve \<Rightarrow> cell_json (CDict row))"

section \<open>Records\<close>

record dlq_record =
  dr_schema :: string
  dr_id :: string
  dr_run :: string
  dr_load :: string
  dr_ref :: string
  dr_reason :: dlq_reason
  dr_diagnostics :: "(string \<times> pyval) list"
  dr_pii :: pii_policy
  dr_value :: pyval
  dr_acknowledged :: bool
  dr_replayable :: bool
  dr_created :: string
  dr_expires :: string
  dr_sha :: string

definition dlq_record_schema :: string where
  "dlq_record_schema = ''dpone.dlq.v1''"

definition dlq_index_schema :: string where
  "dlq_index_schema = ''dpone.dlq-index.v1''"

definition record_to_dict :: "dlq_record \<Rightarrow> (string \<times> pyval) list" where
  "record_to_dict r =
     [(''schema'', PStr (dr_schema r)), (''record_id'', PStr (dr_id r)), (''run_id'', PStr (dr_run r)),
      (''load_id'', PStr (dr_load r)), (''record_ref'', PStr (dr_ref r)),
      (''reason'', PDict (reason_to_dict (dr_reason r))), (''diagnostics'', PDict (dr_diagnostics r)),
      (''payload'', PDict [(''policy'', PStr (pii_text (dr_pii r))), (''value'', dr_value r)]),
      (''replay'', PDict [(''status'', PStr (if dr_acknowledged r then ''acknowledged'' else ''pending'')),
         (''replayable'', PBool (dr_replayable r))]),
      (''created_at'', PStr (dr_created r)), (''expires_at'', PStr (dr_expires r)),
      (''sha256'', PStr (dr_sha r))]"

definition record_fingerprint :: "(string \<Rightarrow> string) \<Rightarrow> dlq_record \<Rightarrow> string" where
  "record_fingerprint sha r = canonical_fingerprint sha [''sha256''] (record_to_dict r)"

definition dlq_mapping :: "pyval \<Rightarrow> string \<Rightarrow> (string \<times> pyval) list res" where
  "dlq_mapping v field =
     (case v of PDict d \<Rightarrow> Inr d | _ \<Rightarrow> value_error (''dlq.'' @ field @ '' must be an object''))"

definition text_or :: "(string \<times> pyval) list \<Rightarrow> string \<Rightarrow> string \<Rightarrow> string" where
  "text_or d k dflt = py_str (py_get_default d k (PStr dflt))"

definition reason_from_dict :: "(string \<times> pyval) list \<Rightarrow> dlq_reason" where
  "reason_from_dict d =
     \<lparr>ds_category = text_or d ''category'' [], ds_code = text_or d ''code'' [],
      ds_stage = text_or d ''stage'' [], ds_message = text_or d ''message'' [],
      ds_column = (if py_get d ''column'' = PNone then None else Some (py_str (py_get d ''column'')))\<rparr>"

definition record_from_dict :: "(string \<times> pyval) list \<Rightarrow> dlq_record res" where
  "record_from_dict d =
     bind_res (dlq_mapping (py_get d ''reason'') ''reason'') (\<lambda>reason.
     bind_res (dlq_mapping (py_get d ''payload'') ''payload'') (\<lambda>body.
     bind_res (dlq_mapping (py_get d ''replay'') ''replay'') (\<lambda>replay.
     bind_res (pii_of (py_get_default body ''policy'' (PStr ''reference_only''))) (\<lambda>pii.
     (let status = text_or replay ''status'' ''pending'' in
      bind_res (guard (status = ''pending'' \<or> status = ''acknowledged'') ''dlq replay status is invalid'') (\<lambda>_.
      bind_res (dlq_mapping (py_get_default d ''diagnostics'' (PDict [])) ''diagnostics'') (\<lambda>diags.
      Inr \<lparr>dr_schema = text_or d ''schema'' [], dr_id = text_or d ''record_id'' [],
           dr_run = text_or d ''run_id'' [], dr_load = text_or d ''load_id'' [],
           dr_ref = text_or d ''record_ref'' [], dr_reason = reason_from_dict reason,
           dr_diagnostics = diags, dr_pii = pii, dr_value = py_get body ''value'',
           dr_acknowledged = (status = ''acknowledged''),
           dr_replayable = py_truthy (py_get_default replay ''replayable'' (PBool True)),
           dr_created = text_or d ''created_at'' [], dr_expires = text_or d ''expires_at'' [],
           dr_sha = text_or d ''sha256'' []\<rparr>)))))))"

definition aware_datetime :: "string \<Rightarrow> string \<Rightarrow> pydt res" where
  "aware_datetime s field =
     (case parse_utc_text s of
        Inl _ \<Rightarrow> value_error (''dlq '' @ field @ '' is invalid'')
      | Inr d \<Rightarrow> if dt_aware d then Inr d
                 else value_error (''dlq '' @ field @ '' must be offset-aware''))"

definition record_ref_ok :: "string \<Rightarrow> bool" where
  "record_ref_ok s =
     (py_startswith s ''dpone://'' \<and> length s \<le> 2048 \<and> list_all (\<lambda>c. 32 \<le> code_of c) s)"

definition record_validate :: "dlq_record \<Rightarrow> unit res" where
  "record_validate r =
     bind_res (guard (dr_schema r = dlq_record_schema) ''unsupported dlq record schema'') (\<lambda>_.
     bind_res (guard (record_ref_ok (dr_ref r)) ''dlq record_ref is invalid'') (\<lambda>_.
     bind_res (reason_validate (dr_reason r)) (\<lambda>_.
     bind_res (guard (fst ` set (dr_diagnostics r) \<subseteq> set dlq_diagnostic_fields)
       ''dlq diagnostics contain non-safe fields'') (\<lambda>_.
     bind_res (guard (dr_pii r = PiiReferenceOnly \<longrightarrow> dr_value r = PNone)
       ''reference_only dlq payload must be null'') (\<lambda>_.
     bind_res (guard (dr_pii r = PiiMasked \<longrightarrow> is_masked (dr_value r))
       ''masked dlq payload contains an unmasked scalar'') (\<lambda>_.
     bind_res (aware_datetime (dr_created r) ''created_at'') (\<lambda>c.
     bind_res (aware_datetime (dr_expires r) ''expires_at'') (\<lambda>x.
     guard (dt_instant c < dt_instant x) ''dlq expires_at must be after created_at''))))))))"

definition record_create ::
  "(string \<Rightarrow> string) \<Rightarrow> instant \<Rightarrow> string \<Rightarrow> string \<Rightarrow> string \<Rightarrow> string \<Rightarrow> dlq_reason \<Rightarrow>
    (string \<times> pyval) list \<Rightarrow> pii_policy \<Rightarrow> pyval \<Rightarrow> int \<Rightarrow> dlq_record res" where
  "record_create sha now rid run load ref reason diags pii val days =
     (if \<not> instant_valid (now + days * us_day) then Inl (OverflowError ''date value out of range'')
      else
        (let draft = \<lparr>dr_schema = dlq_record_schema, dr_id = rid, dr_run = run, dr_load = load, dr_ref = ref,
           dr_reason = reason, dr_diagnostics = diags, dr_pii = pii, dr_value = val,
           dr_acknowledged = False, dr_replayable = True, dr_created = utc_text now,
           dr_expires = utc_text (now + days * us_day), dr_sha = []\<rparr> in
         Inr (draft\<lparr>dr_sha := record_fingerprint sha draft\<rparr>)))"

end
