(* ===== verification/Dlq_Store.thy ===== *)
theory Dlq_Store
  imports Dlq_Record
begin

text \<open>
  The file store of the dead-letter queue (\<open>ops/dlq_store.py\<close>, \<open>ops/dlq_store_io.py\<close>,
  \<open>ops/dlq_store_paths.py\<close>): create-only record files, acknowledgements, and one index per run.

  A file is the JSON document it holds, with its keys sorted as they are written, or a torn
  text: what a crash leaves of a file that is written in place. A torn file is a proper prefix
  of a document and no JSON. The size of a file is that of the text that is written. The names are
  checked components, so every path stays inside the root; symbolic links are left out.
\<close>

section \<open>Texts and sizes\<close>

definition newline_indent :: "nat \<Rightarrow> string" where
  "newline_indent d = char_of (10::nat) # replicate (2 * d) CHR '' ''"

text \<open>\<open>json.dumps(v, ensure_ascii=False, indent=2)\<close> of a document with sorted keys.\<close>

fun json_pretty :: "nat \<Rightarrow> pyval \<Rightarrow> string" where
  "json_pretty d (PList xs) =
     (if xs = [] then ''[]''
      else ''['' @ newline_indent (Suc d) @
        py_join ('','' @ newline_indent (Suc d)) (map (json_pretty (Suc d)) xs) @ newline_indent d @ '']'')"
| "json_pretty d (PDict kvs) =
     (if kvs = [] then ''{}''
      else ''{'' @ newline_indent (Suc d) @
        py_join ('','' @ newline_indent (Suc d))
          (map (\<lambda>kv. json_string (fst kv) @ '': '' @ json_pretty (Suc d) (snd kv)) kvs) @
        newline_indent d @ ''}'')"
| "json_pretty d v = json_canonical v"

fun json_sorted :: "pyval \<Rightarrow> pyval" where
  "json_sorted (PDict d) = PDict (sort_key fst (map (\<lambda>kv. (fst kv, json_sorted (snd kv))) d))"
| "json_sorted (PList xs) = PList (map json_sorted xs)"
| "json_sorted v = v"

text \<open>\<open>json.dumps(v, ensure_ascii=False, sort_keys=True)\<close>.\<close>

fun json_spaced :: "pyval \<Rightarrow> string" where
  "json_spaced (PList xs) = ''['' @ py_join '', '' (map json_spaced xs) @ '']''"
| "json_spaced (PDict d) =
     ''{'' @ py_join '', '' (map (\<lambda>(k, v). json_string k @ '': '' @ v)
        (sort_key fst (map (\<lambda>kv. (fst kv, json_spaced (snd kv))) d))) @ ''}''"
| "json_spaced v = json_canonical v"

definition document_bytes :: "pyval \<Rightarrow> int" where
  "document_bytes v = int (length (utf8_encode (json_pretty 0 (json_sorted v)))) + 1"

definition spaced_bytes :: "pyval \<Rightarrow> int" where
  "spaced_bytes v = int (length (utf8_encode (json_spaced v)))"

section \<open>Files\<close>

datatype json_file = JDoc pyval | JTorn

record dlq_files =
  df_records :: "((string \<times> string) \<times> json_file) list"
  df_acks :: "(string \<times> json_file) list"
  df_indexes :: "(string \<times> json_file) list"

record dlq_store_config =
  st_root :: string
  st_record_bytes :: int
  st_diagnostic_bytes :: int
  st_index_bytes :: int

definition integrity_error :: "string \<Rightarrow> py_exn" where
  "integrity_error msg = AppError ''DlqIntegrityError'' msg"

definition path_error :: "string \<Rightarrow> py_exn" where
  "path_error msg = AppError ''DlqPathError'' msg"

definition too_large :: "string \<Rightarrow> py_exn" where
  "too_large msg = AppError ''DlqRecordTooLarge'' msg"

definition not_found :: "string \<Rightarrow> py_exn" where
  "not_found msg = AppError ''DlqRecordNotFound'' msg"

definition component_chars :: string where
  "component_chars = ''abcdefghijklmnopqrstuvwxyzABCDEFGHIJKLMNOPQRSTUVWXYZ0123456789-_.''"

definition component :: "string \<Rightarrow> string res" where
  "component s =
     (if s = [] \<or> s = ''.'' \<or> s = ''..'' \<or> \<not> list_all (\<lambda>c. c \<in> set component_chars) s
      then Inl (path_error ''DPONE_DLQ_PATH_INVALID: identifier contains unsafe characters'')
      else Inr s)"

definition read_sized :: "(pyval \<Rightarrow> int) \<Rightarrow> int \<Rightarrow> json_file \<Rightarrow> (string \<times> pyval) list res" where
  "read_sized bytes max_bytes f =
     (case f of
        JTorn \<Rightarrow> Inl (integrity_error ''DPONE_DLQ_ARTIFACT_INVALID: artifact is not valid JSON'')
      | JDoc v \<Rightarrow>
          if max_bytes < bytes v then
            Inl (too_large ''DPONE_DLQ_RECORD_TOO_LARGE: artifact bytes exceed the limit'')
          else (case v of PDict d \<Rightarrow> Inr d
                | _ \<Rightarrow> Inl (integrity_error ''DPONE_DLQ_ARTIFACT_INVALID: artifact root must be an object'')))"

text \<open>Records and indexes are written with an indent, acknowledgements on one line.\<close>

definition read_json :: "int \<Rightarrow> json_file \<Rightarrow> (string \<times> pyval) list res" where
  "read_json max_bytes f = read_sized document_bytes max_bytes f"

definition ack_max_bytes :: int where
  "ack_max_bytes = 16384"

definition read_ack :: "json_file \<Rightarrow> (string \<times> pyval) list res" where
  "read_ack f = read_sized (\<lambda>v. spaced_bytes v + 1) ack_max_bytes f"

section \<open>Record files\<close>

definition record_check :: "(string \<Rightarrow> string) \<Rightarrow> dlq_store_config \<Rightarrow> dlq_record \<Rightarrow> unit res" where
  "record_check sha st r =
     (if dr_sha r \<noteq> record_fingerprint sha r then
        Inl (integrity_error ''DPONE_DLQ_CHECKSUM_MISMATCH: record checksum does not match content'')
      else
        (case record_validate r of
           Inl (ValueError msg) \<Rightarrow> Inl (integrity_error (''DPONE_DLQ_RECORD_INVALID: '' @ msg))
         | Inl e \<Rightarrow> Inl e
         | Inr _ \<Rightarrow>
             if st_diagnostic_bytes st < spaced_bytes (PDict (dr_diagnostics r)) then
               Inl (too_large ''DPONE_DLQ_DIAGNOSTICS_TOO_LARGE: diagnostics exceed configured byte limit'')
             else
               bind_res (component (dr_run r)) (\<lambda>_.
               bind_res (component (dr_load r)) (\<lambda>_.
               bind_res (component (dr_id r)) (\<lambda>_. Inr ())))))"

definition read_record :: "(string \<Rightarrow> string) \<Rightarrow> dlq_store_config \<Rightarrow> json_file \<Rightarrow> dlq_record res" where
  "read_record sha st f =
     bind_res (read_json (st_record_bytes st) f) (\<lambda>d.
     bind_res (record_from_dict d) (\<lambda>r.
     bind_res (record_check sha st r) (\<lambda>_. Inr r)))"

definition record_document :: "dlq_record \<Rightarrow> pyval" where
  "record_document r = json_sorted (PDict (record_to_dict r))"

definition record_append ::
  "(string \<Rightarrow> string) \<Rightarrow> dlq_store_config \<Rightarrow> dlq_record \<Rightarrow> (dlq_files, dlq_record) io" where
  "record_append sha st r fs =
     (case record_check sha st r of
        Inl e \<Rightarrow> (Inl e, fs)
      | Inr _ \<Rightarrow>
          if st_record_bytes st < document_bytes (PDict (record_to_dict r)) then
            (Inl (too_large ''DPONE_DLQ_RECORD_TOO_LARGE: record bytes exceed the limit''), fs)
          else
            (case dict_get (df_records fs) (dr_run r, dr_id r) of
               Some f \<Rightarrow>
                 (bind_res (read_record sha st f) (\<lambda>old.
                    if dr_sha old = dr_sha r then Inr old
                    else Inl (integrity_error
                      ''DPONE_DLQ_RECORD_CONFLICT: record_id already has different content'')), fs)
             | None \<Rightarrow>
                 (Inr r, fs\<lparr>df_records :=
                    dict_set (df_records fs) (dr_run r, dr_id r) (JDoc (record_document r))\<rparr>)))"

definition run_files :: "string \<Rightarrow> dlq_files \<Rightarrow> ((string \<times> string) \<times> json_file) list" where
  "run_files run fs =
     sort_key (\<lambda>kf. snd (fst kf) @ ''.json'') (filter (\<lambda>kf. fst (fst kf) = run) (df_records fs))"

definition record_files ::
  "(string \<Rightarrow> string) \<Rightarrow> dlq_store_config \<Rightarrow> string \<Rightarrow> dlq_files \<Rightarrow> dlq_record list res" where
  "record_files sha st run fs =
     bind_res (component run) (\<lambda>_.
     bind_res (map_res (\<lambda>kf. read_record sha st (snd kf)) (run_files run fs)) (\<lambda>rs.
     Inr (sort_key dr_id rs)))"

definition record_for_run ::
  "(string \<Rightarrow> string) \<Rightarrow> dlq_store_config \<Rightarrow> string \<Rightarrow> string \<Rightarrow> dlq_files \<Rightarrow> dlq_record res" where
  "record_for_run sha st run rid fs =
     bind_res (component run) (\<lambda>_.
     bind_res (component rid) (\<lambda>_.
     (case dict_get (df_records fs) (run, rid) of
        None \<Rightarrow> Inl (not_found (''DPONE_DLQ_RECORD_NOT_FOUND: '' @ rid))
      | Some f \<Rightarrow> read_record sha st f)))"

definition record_require ::
  "(string \<Rightarrow> string) \<Rightarrow> dlq_store_config \<Rightarrow> dlq_record \<Rightarrow> dlq_files \<Rightarrow> unit res" where
  "record_require sha st r fs =
     bind_res (record_for_run sha st (dr_run r) (dr_id r) fs) (\<lambda>s.
       if dr_sha s \<noteq> dr_sha r then
         Inl (integrity_error ''DPONE_DLQ_RECORD_SNAPSHOT_DRIFT: record differs from durable artifact'')
       else Inr ())"

definition record_delete :: "dlq_record \<Rightarrow> dlq_files \<Rightarrow> dlq_files" where
  "record_delete r fs = fs\<lparr>df_records := AList.delete (dr_run r, dr_id r) (df_records fs)\<rparr>"

section \<open>Acknowledgements\<close>

definition ack_document :: "dlq_record \<Rightarrow> string \<Rightarrow> string \<Rightarrow> instant \<Rightarrow> (string \<times> pyval) list" where
  "ack_document r plan_id key now =
     [(''schema'', PStr ''dpone.dlq-replay-ack.v1''), (''record_id'', PStr (dr_id r)),
      (''record_sha256'', PStr (dr_sha r)), (''plan_id'', PStr plan_id),
      (''idempotency_key'', PStr key), (''acknowledged_at'', PStr (utc_text now))]"

definition ack_stable_fields :: "string list" where
  "ack_stable_fields = [''record_id'', ''record_sha256'', ''plan_id'', ''idempotency_key'']"

definition acknowledge ::
  "(string \<Rightarrow> string) \<Rightarrow> dlq_store_config \<Rightarrow> instant \<Rightarrow> dlq_record \<Rightarrow> string \<Rightarrow> string \<Rightarrow>
    (dlq_files, unit) io" where
  "acknowledge sha st now r plan_id key fs =
     (case bind_res (record_require sha st r fs) (\<lambda>_. component (dr_id r)) of
        Inl e \<Rightarrow> (Inl e, fs)
      | Inr _ \<Rightarrow>
          (let payload = ack_document r plan_id key now in
           case dict_get (df_acks fs) (dr_id r) of
             None \<Rightarrow> (Inr (), fs\<lparr>df_acks :=
               dict_set (df_acks fs) (dr_id r) (JDoc (json_sorted (PDict payload)))\<rparr>)
           | Some f \<Rightarrow>
               (bind_res (read_ack f) (\<lambda>old.
                  if list_all (\<lambda>k. py_get old k = py_get payload k) ack_stable_fields then Inr ()
                  else Inl (integrity_error ''DPONE_DLQ_ACK_CONFLICT: acknowledgement content differs'')), fs)))"

definition is_acknowledged :: "dlq_record \<Rightarrow> dlq_files \<Rightarrow> bool res" where
  "is_acknowledged r fs =
     bind_res (component (dr_id r)) (\<lambda>_.
     (case dict_get (df_acks fs) (dr_id r) of
        None \<Rightarrow> Inr False
      | Some f \<Rightarrow>
          bind_res (read_ack f) (\<lambda>d.
            if py_get d ''record_sha256'' \<noteq> PStr (dr_sha r) then
              Inl (integrity_error ''DPONE_DLQ_ACK_CHECKSUM_MISMATCH: acknowledgement references stale record'')
            else Inr True)))"

section \<open>Run indexes\<close>

definition index_ref :: "dlq_store_config \<Rightarrow> string \<Rightarrow> string" where
  "index_ref st run = ''file://'' @ st_root st @ ''/runs/'' @ run @ ''/index.json''"

definition index_item :: "dlq_record \<Rightarrow> pyval" where
  "index_item r =
     PDict [(''id'', PStr (dr_id r)), (''record_ref'', PStr (dr_ref r)),
       (''reason_code'', PStr (ds_code (dr_reason r))), (''sha256'', PStr (dr_sha r)),
       (''expires_at'', PStr (dr_expires r))]"

definition index_stable :: "string \<Rightarrow> dlq_record list \<Rightarrow> (string \<times> pyval) list" where
  "index_stable run rs =
     [(''schema'', PStr dlq_index_schema), (''run_id'', PStr run), (''records'', PList (map index_item rs))]"

definition index_document :: "(string \<Rightarrow> string) \<Rightarrow> string \<Rightarrow> dlq_record list \<Rightarrow> pyval" where
  "index_document sha run rs =
     PDict (index_stable run rs @
       [(''fingerprint'', PStr (canonical_fingerprint sha [] (index_stable run rs)))])"

definition refresh_index ::
  "(string \<Rightarrow> string) \<Rightarrow> dlq_store_config \<Rightarrow> string \<Rightarrow> (dlq_files, string) io" where
  "refresh_index sha st run fs =
     (case record_files sha st run fs of
        Inl e \<Rightarrow> (Inl e, fs)
      | Inr rs \<Rightarrow>
          (let doc = index_document sha run rs in
           if st_index_bytes st < document_bytes doc then
             (Inl (too_large ''DPONE_DLQ_INDEX_TOO_LARGE: index exceeds configured byte limit''), fs)
           else
             (Inr (index_ref st run),
              fs\<lparr>df_indexes := dict_set (df_indexes fs) run (JDoc (json_sorted doc))\<rparr>)))"

definition index_payload ::
  "(string \<Rightarrow> string) \<Rightarrow> dlq_store_config \<Rightarrow> string \<Rightarrow> dlq_files \<Rightarrow> (string \<times> pyval) list res" where
  "index_payload sha st run fs =
     bind_res (component run) (\<lambda>_.
     (case dict_get (df_indexes fs) run of
        None \<Rightarrow> Inl (integrity_error ''DPONE_DLQ_INDEX_MISSING: replay requires a finalized run index'')
      | Some f \<Rightarrow>
          bind_res (read_json (st_index_bytes st) f) (\<lambda>d.
            if py_get d ''schema'' \<noteq> PStr dlq_index_schema \<or> py_get d ''run_id'' \<noteq> PStr run then
              Inl (integrity_error ''DPONE_DLQ_INDEX_INVALID: schema or run identity does not match'')
            else if py_get d ''fingerprint'' \<noteq>
                PStr (canonical_fingerprint sha [] (filter (\<lambda>kv. fst kv \<noteq> ''fingerprint'') d)) then
              Inl (integrity_error ''DPONE_DLQ_INDEX_CHECKSUM_MISMATCH: index checksum does not match content'')
            else Inr d)))"

definition index_records :: "(string \<times> pyval) list \<Rightarrow> pyval list res" where
  "index_records d =
     (case py_get d ''records'' of
        PList xs \<Rightarrow> Inr xs
      | _ \<Rightarrow> Inl (integrity_error ''DPONE_DLQ_INDEX_INVALID: records must be an array''))"

fun indexed_pairs :: "pyval list \<Rightarrow> (string \<times> string) list" where
  "indexed_pairs [] = []"
| "indexed_pairs (PDict d # xs) =
     (py_str (py_get d ''id''), py_str (py_get d ''sha256'')) # indexed_pairs xs"
| "indexed_pairs (_ # xs) = indexed_pairs xs"

definition index_validate ::
  "(string \<Rightarrow> string) \<Rightarrow> dlq_store_config \<Rightarrow> string \<Rightarrow> dlq_record list \<Rightarrow> dlq_files \<Rightarrow> unit res" where
  "index_validate sha st run rs fs =
     (if dict_get (df_indexes fs) run = None then Inr ()
      else
        bind_res (index_payload sha st run fs) (\<lambda>d.
        bind_res (index_records d) (\<lambda>items.
          if indexed_pairs items \<noteq> map (\<lambda>r. (dr_id r, dr_sha r)) rs then
            Inl (integrity_error ''DPONE_DLQ_INDEX_DRIFT: index does not match record artifacts'')
          else Inr ())))"

record dlq_locator =
  dl_id :: string
  dl_ref :: string
  dl_sha :: string

definition is_sha256_digest :: "string \<Rightarrow> bool" where
  "is_sha256_digest s =
     (length s = 71 \<and> py_startswith s ''sha256:'' \<and>
      list_all (\<lambda>c. py_is_digit c \<or> code_of c \<in> {97..102}) (drop 7 s))"

definition str_or_empty :: "pyval \<Rightarrow> string" where
  "str_or_empty v = (if py_truthy v then py_str v else [])"

definition index_locator :: "pyval \<Rightarrow> dlq_locator res" where
  "index_locator v =
     (case v of
        PDict d \<Rightarrow>
          bind_res (component (str_or_empty (py_get d ''id''))) (\<lambda>rid.
          (let ref = str_or_empty (py_get d ''record_ref''); sha = str_or_empty (py_get d ''sha256'') in
           if \<not> py_startswith ref ''dpone://'' \<or> \<not> is_sha256_digest sha then
             Inl (integrity_error ''DPONE_DLQ_INDEX_INVALID: record locator is invalid'')
           else Inr \<lparr>dl_id = rid, dl_ref = ref, dl_sha = sha\<rparr>))
      | _ \<Rightarrow> Inl (integrity_error ''DPONE_DLQ_INDEX_INVALID: record locator must be an object''))"

definition replay_candidates ::
  "(string \<Rightarrow> string) \<Rightarrow> dlq_store_config \<Rightarrow> string \<Rightarrow> dlq_files \<Rightarrow> dlq_locator list res" where
  "replay_candidates sha st run fs =
     bind_res (index_payload sha st run fs) (\<lambda>d.
     bind_res (index_records d) (map_res index_locator))"

section \<open>The store\<close>

definition store_records ::
  "(string \<Rightarrow> string) \<Rightarrow> dlq_store_config \<Rightarrow> string \<Rightarrow> dlq_files \<Rightarrow> dlq_record list res" where
  "store_records sha st run fs =
     bind_res (record_files sha st run fs) (\<lambda>rs.
     bind_res (index_validate sha st run rs fs) (\<lambda>_. Inr rs))"

definition run_names :: "dlq_files \<Rightarrow> string list" where
  "run_names fs = sort (remdups (map (\<lambda>kf. fst (fst kf)) (df_records fs) @ map fst (df_indexes fs)))"

definition all_records ::
  "(string \<Rightarrow> string) \<Rightarrow> dlq_store_config \<Rightarrow> dlq_files \<Rightarrow> dlq_record list res" where
  "all_records sha st fs =
     bind_res (map_res (\<lambda>run. store_records sha st run fs) (run_names fs)) (\<lambda>rss.
     Inr (sort_key dr_id (concat rss)))"

definition store_record ::
  "(string \<Rightarrow> string) \<Rightarrow> dlq_store_config \<Rightarrow> string \<Rightarrow> dlq_files \<Rightarrow> dlq_record res" where
  "store_record sha st rid fs =
     bind_res (component rid) (\<lambda>wanted.
     bind_res (all_records sha st fs) (\<lambda>rs.
     (case find (\<lambda>r. dr_id r = wanted) rs of
        Some r \<Rightarrow> Inr r
      | None \<Rightarrow> Inl (not_found (''DPONE_DLQ_RECORD_NOT_FOUND: '' @ wanted)))))"

text \<open>The record of an id: of records with one id the last of the dictionary.\<close>

definition records_by_id :: "dlq_record list \<Rightarrow> string \<Rightarrow> dlq_record option" where
  "records_by_id rs rid = find (\<lambda>r. dr_id r = rid) (rev rs)"

definition delete_one :: "dlq_record \<Rightarrow> dlq_files \<Rightarrow> dlq_files" where
  "delete_one r fs = (record_delete r fs)\<lparr>df_acks := AList.delete (dr_id r) (df_acks fs)\<rparr>"

fun refresh_all ::
  "(string \<Rightarrow> string) \<Rightarrow> dlq_store_config \<Rightarrow> string list \<Rightarrow> (dlq_files, unit) io" where
  "refresh_all sha st [] = io_return ()"
| "refresh_all sha st (run # runs) = io_bind (refresh_index sha st run) (\<lambda>_. refresh_all sha st runs)"

definition delete_many ::
  "(string \<Rightarrow> string) \<Rightarrow> dlq_store_config \<Rightarrow> string list \<Rightarrow> (dlq_files, unit) io" where
  "delete_many sha st rids fs =
     (case bind_res (all_records sha st fs) (\<lambda>rs.
         bind_res (map_res component rids) (\<lambda>requested.
           (case filter (\<lambda>rid. records_by_id rs rid = None) requested of
              m # _ \<Rightarrow> Inl (not_found (''DPONE_DLQ_RECORD_NOT_FOUND: '' @ m))
            | [] \<Rightarrow> Inr (map (\<lambda>rid. the (records_by_id rs rid)) requested)))) of
        Inl e \<Rightarrow> (Inl e, fs)
      | Inr victims \<Rightarrow>
          refresh_all sha st (sort (remdups (map dr_run victims))) (fold delete_one victims fs))"

end
