(* ===== verification/Dc_Stream.thy ===== *)
theory Dc_Stream
  imports Dc_Proofs "HOL-Library.Multiset"
begin

text \<open>
  A stream that is cut into batches of any size stages the same rows, writes the same dead
  letters and ends with the same counts as one list (\<open>stream_equals_whole\<close>).
\<close>

section \<open>Counters\<close>

definition count_of :: "(string \<times> nat) list \<Rightarrow> string \<Rightarrow> nat" where
  "count_of d k = (case dict_get d k of None \<Rightarrow> 0 | Some n \<Rightarrow> n)"

definition counter_ok :: "(string \<times> nat) list \<Rightarrow> bool" where
  "counter_ok d \<longleftrightarrow> distinct (map fst d) \<and> 0 \<notin> snd ` set d"

lemma count_add_alt: "count_add d k n = dict_set d k (count_of d k + n)"
  by (simp add: count_add_def count_of_def)

lemma count_of_add [simp]: "count_of (count_add d k n) k' = count_of d k' + (if k' = k then n else 0)"
  by (simp add: count_add_alt count_of_def)

lemma values_dict_set: "snd ` set (dict_set d k v) \<subseteq> insert v (snd ` set d)"
  by (induction d) auto

lemma counter_ok_add [simp]: "counter_ok d \<Longrightarrow> 0 < n \<Longrightarrow> counter_ok (count_add d k n)"
  using values_dict_set [where d = d and k = k and v = "count_of d k + n"]
  by (auto simp: counter_ok_def count_add_alt distinct_update)

lemma count_of_Nil [simp]: "count_of [] k = 0"
  by (simp add: count_of_def)

lemma count_of_Cons: "count_of ((k, n) # u) k' = (if k' = k then n else count_of u k')"
  by (simp add: count_of_def)

lemma count_of_notin: "k \<notin> fst ` set u \<Longrightarrow> count_of u k = 0"
  by (simp add: count_of_def) (metis (no_types, lifting) map_of_eq_None_iff option.simps(4))

lemma count_updates_Cons [simp]: "count_updates d ((k, n) # u) = count_updates (count_add d k n) u"
  by (simp add: count_updates_def)

lemma count_updates_Nil [simp]: "count_updates d [] = d"
  by (simp add: count_updates_def)

lemma counter_ok_Cons: "counter_ok ((k, n) # u) \<longleftrightarrow> 0 < n \<and> k \<notin> fst ` set u \<and> counter_ok u"
  by (auto simp: counter_ok_def)

lemma count_of_updates:
  "counter_ok u \<Longrightarrow> count_of (count_updates d u) k = count_of d k + count_of u k"
  by (induction u arbitrary: d) (auto simp: counter_ok_Cons count_of_Cons count_of_notin)

lemma counter_ok_updates: "counter_ok d \<Longrightarrow> counter_ok u \<Longrightarrow> counter_ok (count_updates d u)"
  by (induction u arbitrary: d) (auto simp: counter_ok_Cons)

lemma counter_same_set:
  assumes "counter_ok d" "counter_ok d'" "count_of d = count_of d'"
  shows "set d = set d'"
proof -
  have "(k, n) \<in> set d \<longleftrightarrow> n = count_of d k \<and> 0 < n" if "counter_ok d" for d k n
  proof -
    from that have "distinct (map fst d)" "0 \<notin> snd ` set d" by (simp_all add: counter_ok_def)
    then have "(k, n) \<in> set d \<longleftrightarrow> dict_get d k = Some n" by (simp add: map_of_eq_Some_iff)
    moreover have "dict_get d k \<noteq> Some 0"
      using \<open>0 \<notin> snd ` set d\<close> by (auto dest!: map_of_SomeD intro: rev_image_eqI)
    ultimately show ?thesis by (auto simp: count_of_def split: option.splits)
  qed
  with assms show ?thesis by auto
qed

lemma counter_sorted_eq:
  assumes "counter_ok d" "counter_ok d'" "count_of d = count_of d'"
  shows "sort_key fst d = sort_key fst d'"
proof -
  have s: "set d = set d'" by (rule counter_same_set [OF assms])
  have d: "distinct d" "distinct d'" "inj_on fst (set d)" "inj_on fst (set d')"
    using assms by (auto simp: counter_ok_def distinct_map)
  have "mset d = mset d'" using s d set_eq_iff_mset_eq_distinct by blast
  then show ?thesis using d by (intro sort_key_inj_key_eq) simp_all
qed

lemma counter_ok_sort [simp]: "counter_ok (sort_key fst d) = counter_ok d"
  by (simp add: counter_ok_def distinct_map)

lemma count_of_sort [simp]:
  assumes "counter_ok d"
  shows "count_of (sort_key fst d) = count_of d"
proof -
  have "dict_get (sort_key fst d) = dict_get d"
    using assms by (intro map_of_eqI) (auto simp: counter_ok_def distinct_map)
  then show ?thesis by (simp add: count_of_def fun_eq_iff)
qed

lemma keys_count_add [simp]: "fst ` set (count_add d k n) = insert k (fst ` set d)"
  by (simp add: count_add_alt)

lemma dict_set_commute:
  "k \<noteq> k' \<Longrightarrow> k \<in> fst ` set d \<Longrightarrow> dict_set (dict_set d k' v') k v = dict_set (dict_set d k v) k' v'"
  by (induction d) auto

lemma dict_set_twice: "dict_set (dict_set d k v) k w = dict_set d k w"
  by (induction d) auto

lemma count_of_dict_set [simp]: "count_of (dict_set d k v) k' = (if k' = k then v else count_of d k')"
  by (simp add: count_of_def)

lemma distinct_count_add [simp]: "distinct (map fst d) \<Longrightarrow> distinct (map fst (count_add d k n))"
  by (simp add: count_add_alt distinct_update)

lemma count_add_commute:
  "k \<noteq> k' \<Longrightarrow> k \<in> fst ` set d \<Longrightarrow>
    count_add (count_add d k' m) k n = count_add (count_add d k n) k' m"
  by (simp add: count_add_alt) (rule dict_set_commute)

lemma count_add_twice: "count_add (count_add d k m) k n = count_add d k (m + n)"
  by (simp add: count_add_alt dict_set_twice add.assoc)

lemma count_add_after:
  "k \<notin> fst ` set u \<Longrightarrow> k \<in> fst ` set d \<Longrightarrow>
    count_add (count_updates d u) k n = count_updates (count_add d k n) u"
proof (induction u arbitrary: d)
  case (Cons p u)
  obtain k' m where p: "p = (k', m)" by (cases p)
  with Cons.prems have "k \<noteq> k'" "k \<notin> fst ` set u" "k \<in> fst ` set (count_add d k' m)" by auto
  with p Cons.IH [of "count_add d k' m"] Cons.prems(2) show ?case by (simp add: count_add_commute)
qed simp

lemma count_add_updates:
  "distinct (map fst u) \<Longrightarrow> count_add (count_updates d u) k n = count_updates d (count_add u k n)"
proof (induction u arbitrary: d)
  case Nil
  show ?case by (simp add: count_add_alt [of "[]"])
next
  case (Cons p u)
  obtain k' m where p: "p = (k', m)" by (cases p)
  show ?case
  proof (cases "k = k'")
    case True
    have "count_add ((k', m) # u) k' n = (k', m + n) # u"
      by (simp add: count_add_alt count_of_Cons)
    with True p Cons.prems show ?thesis by (simp add: count_add_after count_add_twice)
  next
    case False
    then have "count_add ((k', m) # u) k n = (k', m) # count_add u k n"
      by (simp add: count_add_alt count_of_Cons)
    with False p Cons show ?thesis by simp
  qed
qed

section \<open>Accumulated results\<close>

definition acc_plus :: "enforce_acc \<Rightarrow> enforce_acc \<Rightarrow> enforce_acc" where
  "acc_plus a b = \<lparr>ea_rows = ea_rows a @ ea_rows b, ea_diagnostics = ea_diagnostics a @ ea_diagnostics b,
     ea_rejected = ea_rejected a + ea_rejected b, ea_quarantined = ea_quarantined a + ea_quarantined b,
     ea_ids = ea_ids a @ ea_ids b, ea_reasons = count_updates (ea_reasons a) (ea_reasons b)\<rparr>"

lemma acc_plus_empty [simp]: "acc_plus a empty_acc = a"
  by (simp add: acc_plus_def)

lemma acc_plus_assoc:
  assumes "distinct (map fst (ea_reasons b))"
  shows "acc_plus (acc_plus a b) c = acc_plus a (acc_plus b c)"
proof -
  have "count_updates (count_updates d u) v = count_updates d (count_updates u v)"
    if "distinct (map fst u)" for d u v :: "(string \<times> nat) list"
    using that
    by (induction v arbitrary: u) (auto simp: count_add_updates)
  with assms show ?thesis by (simp add: acc_plus_def)
qed

lemma enforce_row_plus:
  "enforce_row e i r a = io_bind (enforce_row e i r empty_acc) (\<lambda>b. io_return (acc_plus a b))"
proof -
  have "count_add d k (Suc 0) = count_updates d (count_add [] k (Suc 0))" for d k
    using count_add_updates [of "[]" d k "Suc 0"] by simp
  note reasons = this [symmetric]
  show ?thesis
  proof
    fix w
    show "enforce_row e i r a w = io_bind (enforce_row e i r empty_acc) (\<lambda>b. io_return (acc_plus a b)) w"
    proof (cases "check_columns e i (contract_columns (ef_contract e)) r True []")
      case (Inl x)
      then show ?thesis by (simp add: enforce_row_def io_bind_def io_lift_def)
    next
      case (Inr t)
      then show ?thesis
        by (cases t) (simp add: enforce_row_def io_bind_def io_lift_def io_return_def Let_def acc_plus_def
            reasons split: prod.split sum.split)
    qed
  qed
qed

lemma enforce_row_counter:
  assumes "enforce_row e i r a w = (Inr b, w')" "counter_ok (ea_reasons a)"
  shows "counter_ok (ea_reasons b)"
  using assms by (auto simp: enforce_row_def io_simps Let_def split: if_splits)

lemma io_bind_cong_Inr:
  "(\<And>w b w'. m w = (Inr b, w') \<Longrightarrow> f b w' = g b w') \<Longrightarrow> io_bind m f = io_bind m g"
  by (auto simp: io_bind_def fun_eq_iff split: prod.splits sum.splits)

lemma enforce_rows_plus:
  "enforce_rows e i rs a = io_bind (enforce_rows e i rs empty_acc) (\<lambda>b. io_return (acc_plus a b))"
proof (induction rs arbitrary: i a)
  case (Cons r rs)
  have c: "counter_ok []" by (simp add: counter_ok_def)
  have "enforce_rows e i (r # rs) a =
      io_bind (enforce_row e i r empty_acc) (\<lambda>b. enforce_rows e (Suc i) rs (acc_plus a b))"
    by (simp add: enforce_row_plus [of e i r a] io_bind_assoc)
  also have "\<dots> = io_bind (enforce_row e i r empty_acc) (\<lambda>b.
      io_bind (enforce_rows e (Suc i) rs b) (\<lambda>c. io_return (acc_plus a c)))"
  proof (rule io_bind_cong_Inr)
    fix w b w' assume "enforce_row e i r empty_acc w = (Inr b, w')"
    then have "distinct (map fst (ea_reasons b))"
      using enforce_row_counter c by (fastforce simp: counter_ok_def)
    then show "enforce_rows e (Suc i) rs (acc_plus a b) w' =
        io_bind (enforce_rows e (Suc i) rs b) (\<lambda>c. io_return (acc_plus a c)) w'"
      by (simp add: Cons.IH [of "Suc i" "acc_plus a b"] Cons.IH [of "Suc i" b] io_bind_assoc acc_plus_assoc)
  qed
  finally show ?case by (simp add: io_bind_assoc)
qed simp

lemma enforce_rows_append:
  "enforce_rows e i (xs @ ys) a = io_bind (enforce_rows e i xs a) (enforce_rows e (i + length xs) ys)"
proof (induction xs arbitrary: i a)
  case (Cons x xs)
  then have "enforce_rows e (Suc i) (xs @ ys) =
      (\<lambda>b. io_bind (enforce_rows e (Suc i) xs b) (enforce_rows e (Suc i + length xs) ys))"
    by blast
  then show ?case by (simp add: io_bind_assoc)
qed simp

lemma enforce_rows_counter:
  assumes "enforce_rows e i rs a w = (Inr b, w')" "counter_ok (ea_reasons a)"
  shows "counter_ok (ea_reasons b)"
  using assms
  by (induction rs arbitrary: i a w) (auto simp: io_simps dest: enforce_row_counter)

section \<open>The queue and the staging table as one world\<close>

text \<open>
  The world of a stream: the queue's own world and the staging table. The inserter of a
  staging table appends the rows and returns their number.
\<close>

definition on_queue :: "('d, 'a) io \<Rightarrow> ('d \<times> 't, 'a) io" where
  "on_queue m = (\<lambda>(d, t). case m d of (r, d') \<Rightarrow> (r, d', t))"

definition table_insert :: "('d \<times> cell_row list) inserter" where
  "table_insert rows = (\<lambda>(d, t). (Inr (PInt (int (length rows))), d, t @ rows))"

definition queue_enforcer :: "'d enforcer \<Rightarrow> ('d \<times> 't) enforcer" where
  "queue_enforcer e =
     \<lparr>ef_writer = map_option (\<lambda>wr.
        \<lparr>dw_write = (\<lambda>run load row i rj. on_queue (dw_write wr run load row i rj)),
         dw_finalize = (\<lambda>run. on_queue (dw_finalize wr run))\<rparr>) (ef_writer e),
      ef_contract = ef_contract e, ef_run = ef_run e, ef_load = ef_load e,
      ef_policy = ef_policy e, ef_repr = ef_repr e\<rparr>"

lemma queue_enforcer_simps [simp]:
  "ef_contract (queue_enforcer e) = ef_contract e" "ef_policy (queue_enforcer e) = ef_policy e"
  "ef_repr (queue_enforcer e) = ef_repr e" "ef_writer (queue_enforcer e) = None \<longleftrightarrow> ef_writer e = None"
  by (simp_all add: queue_enforcer_def)

lemma on_queue_bind [simp]: "on_queue (io_bind m f) = io_bind (on_queue m) (\<lambda>a. on_queue (f a))"
  by (auto simp: on_queue_def io_bind_def fun_eq_iff split: prod.splits sum.splits)

lemma on_queue_basic [simp]:
  "on_queue (io_return a) = io_return a" "on_queue (io_raise x) = io_raise x"
  "on_queue (io_lift r) = io_lift r"
  by (auto simp: on_queue_def io_return_def io_raise_def io_lift_def)

lemma on_queue_if: "on_queue (if p then m else n) = (if p then on_queue m else on_queue n)"
  by simp

lemma on_queue_eq: "on_queue m (d, t) = (r, d', t') \<longleftrightarrow> m d = (r, d') \<and> t' = t"
  by (auto simp: on_queue_def split: prod.splits)

lemma diagnose_queue [simp]: "diagnose (queue_enforcer e) = diagnose e"
  by (simp add: diagnose_def fun_eq_iff)

lemma check_columns_queue [simp]: "check_columns (queue_enforcer e) i cs row v ds = check_columns e i cs row v ds"
  by (induction cs arbitrary: row v ds) (simp_all add: Let_def cong: if_cong)

lemma put_quarantine_queue [simp]:
  "put_quarantine (queue_enforcer e) row ds i = on_queue (put_quarantine e row ds i)"
  by (cases "ef_writer e") (simp_all add: put_quarantine_def queue_enforcer_def)

lemma enforce_row_queue: "enforce_row (queue_enforcer e) i r a = on_queue (enforce_row e i r a)"
  by (auto simp: enforce_row_def Let_def intro!: arg_cong2 [where f = io_bind])

lemma enforce_rows_queue: "enforce_rows (queue_enforcer e) i rs a = on_queue (enforce_rows e i rs a)"
proof (induction rs arbitrary: i a)
  case (Cons r rs)
  then show ?case
    by (simp add: enforce_row_queue) (rule arg_cong2 [where f = io_bind], simp, rule ext, simp)
qed simp

lemma index_ref_queue: "enforce_index_ref (queue_enforcer e) b = on_queue (enforce_index_ref e b)"
  by (cases "ef_writer e") (simp_all add: enforce_index_ref_def queue_enforcer_def)

lemma enforce_queue: "enforce (queue_enforcer e) off fin rows = on_queue (enforce e off fin rows)"
  by (simp add: enforce_def enforce_rows_queue index_ref_queue)

section \<open>Batches\<close>

lemma concat_batched: "0 < n \<Longrightarrow> concat (batched n xs) = xs"
  by (induction n xs rule: batched.induct) (subst batched.simps, auto)

definition stream_plus :: "stream_state \<Rightarrow> enforce_acc \<Rightarrow> string \<Rightarrow> stream_state" where
  "stream_plus s a text =
     \<lparr>ss_accepted = ss_accepted s + length (ea_rows a), ss_rejected = ss_rejected s + ea_rejected a,
      ss_quarantined = ss_quarantined s + ea_quarantined a,
      ss_inserted_any = (ss_inserted_any s \<or> ea_rows a \<noteq> []),
      ss_digest_input = ss_digest_input s @ text, ss_ids = ss_ids s @ ea_ids a,
      ss_reasons = count_updates (ss_reasons s) (ea_reasons a), ss_index_ref = ss_index_ref s\<rparr>"

definition sorted_reasons :: "stream_state \<Rightarrow> stream_state" where
  "sorted_reasons s = s\<lparr>ss_reasons := sort_key fst (ss_reasons s)\<rparr>"

lemma stream_insert_table:
  "stream_insert table_insert rows (d, t) = (Inr b, d', t') \<longleftrightarrow>
    (b \<longleftrightarrow> rows \<noteq> []) \<and> d' = d \<and> t' = t @ rows"
  by (auto simp: stream_insert_def table_insert_def io_simps)

lemma enforce_unfinalized:
  "enforce e off False rows w = (Inr r, w') \<longleftrightarrow>
    (\<exists>a. enforce_rows e off rows empty_acc w = (Inr a, w') \<and> r = result_of a None)"
proof -
  have "enforce_index_ref e False w = (Inr x, w') \<longleftrightarrow> x = None \<and> w' = w" for w x w'
    by (cases "ef_writer e") (auto simp: enforce_index_ref_def io_simps)
  then show ?thesis by (auto simp: enforce_eq_Inr)
qed

lemma stream_chunk_eq:
  assumes "ss_rejected s = 0"
  shows "stream_chunk (queue_enforcer e) table_insert blob c s (d, t) = (Inr s', d', t') \<longleftrightarrow>
    (\<exists>a. enforce_rows e (ss_accepted s + ss_quarantined s) c empty_acc d = (Inr a, d') \<and>
       ea_rejected a = 0 \<and> t' = t @ ea_rows a \<and>
       s' = stream_plus s (a\<lparr>ea_reasons := sort_key fst (ea_reasons a)\<rparr>) (concat (map blob c)))"
proof
  assume "stream_chunk (queue_enforcer e) table_insert blob c s (d, t) = (Inr s', d', t')"
  then show "\<exists>a. enforce_rows e (ss_accepted s + ss_quarantined s) c empty_acc d = (Inr a, d') \<and>
       ea_rejected a = 0 \<and> t' = t @ ea_rows a \<and>
       s' = stream_plus s (a\<lparr>ea_reasons := sort_key fst (ea_reasons a)\<rparr>) (concat (map blob c))"
    by (auto simp: stream_chunk_def enforce_queue on_queue_eq enforce_unfinalized assms io_simps
      stream_insert_table stream_plus_def text_or_none_def split: if_splits)
next
  assume "\<exists>a. enforce_rows e (ss_accepted s + ss_quarantined s) c empty_acc d = (Inr a, d') \<and>
       ea_rejected a = 0 \<and> t' = t @ ea_rows a \<and>
       s' = stream_plus s (a\<lparr>ea_reasons := sort_key fst (ea_reasons a)\<rparr>) (concat (map blob c))"
  then obtain a where a: "enforce_rows e (ss_accepted s + ss_quarantined s) c empty_acc d = (Inr a, d')"
    "ea_rejected a = 0" "t' = t @ ea_rows a"
    "s' = stream_plus s (a\<lparr>ea_reasons := sort_key fst (ea_reasons a)\<rparr>) (concat (map blob c))"
    by blast
  then have "enforce (queue_enforcer e) (ss_accepted s + ss_rejected s + ss_quarantined s) False c (d, t) =
      (Inr (result_of a None), d', t)"
    by (auto simp: enforce_queue on_queue_eq enforce_unfinalized assms)
  moreover have "stream_insert table_insert (ea_rows a) (d', t) = (Inr (ea_rows a \<noteq> []), d', t')"
    using a by (simp add: stream_insert_table)
  ultimately show "stream_chunk (queue_enforcer e) table_insert blob c s (d, t) = (Inr s', d', t')"
    using a assms by (simp add: stream_chunk_def io_bind_def io_return_def stream_plus_def text_or_none_def)
qed

lemma stream_plus_empty [simp]: "stream_plus s empty_acc [] = s"
  by (cases s) (simp add: stream_plus_def)

lemma sorted_reasons_plus:
  assumes "counter_ok (ss_reasons s)" "counter_ok (ea_reasons a)" "counter_ok (ea_reasons b)"
  shows "sorted_reasons (stream_plus (stream_plus s (a\<lparr>ea_reasons := sort_key fst (ea_reasons a)\<rparr>) x) b y) =
    sorted_reasons (stream_plus s (acc_plus a b) (x @ y))"
proof -
  have "sort_key fst (count_updates (count_updates (ss_reasons s) (sort_key fst (ea_reasons a))) (ea_reasons b)) =
      sort_key fst (count_updates (ss_reasons s) (count_updates (ea_reasons a) (ea_reasons b)))"
    using assms by (intro counter_sorted_eq) (auto simp: counter_ok_updates count_of_updates fun_eq_iff)
  then show ?thesis by (simp add: sorted_reasons_def stream_plus_def acc_plus_def)
qed

lemma enforce_rows_ok: "enforce_rows e i rs empty_acc w = (Inr b, w') \<Longrightarrow> counter_ok (ea_reasons b)"
  by (drule enforce_rows_counter) (simp_all add: counter_ok_def)

lemma enforce_rows_split:
  "enforce_rows e i (xs @ ys) empty_acc w = (Inr c, w') \<longleftrightarrow>
    (\<exists>a w1 b. enforce_rows e i xs empty_acc w = (Inr a, w1) \<and>
       enforce_rows e (i + length xs) ys empty_acc w1 = (Inr b, w') \<and> c = acc_plus a b)"
proof -
  have "enforce_rows e j ys a w1 = (Inr c, w') \<longleftrightarrow>
      (\<exists>b. enforce_rows e j ys empty_acc w1 = (Inr b, w') \<and> c = acc_plus a b)" for j a w1
    by (subst enforce_rows_plus) (auto simp: io_simps)
  then show ?thesis by (auto simp: enforce_rows_append io_bind_eq_Inr)
qed

lemma stream_chunks_eq:
  assumes "ss_rejected s = 0" "counter_ok (ss_reasons s)"
  shows "(\<exists>s'. stream_chunks (queue_enforcer e) table_insert blob cs s (d, t) = (Inr s', d', t') \<and>
      sorted_reasons s' = x) \<longleftrightarrow>
    (\<exists>a. enforce_rows e (ss_accepted s + ss_quarantined s) (concat cs) empty_acc d = (Inr a, d') \<and>
       ea_rejected a = 0 \<and> t' = t @ ea_rows a \<and>
       x = sorted_reasons (stream_plus s a (concat (map blob (concat cs)))))"
  using assms
proof (induction cs arbitrary: s d t)
  case Nil
  then show ?case by (auto simp: io_simps)
next
  case (Cons c cs)
  let ?n = "ss_accepted s + ss_quarantined s"
  let ?next = "\<lambda>a. stream_plus s (a\<lparr>ea_reasons := sort_key fst (ea_reasons a)\<rparr>) (concat (map blob c))"
  let ?goal = "\<lambda>a b. sorted_reasons (stream_plus s (acc_plus a b) (concat (map blob (concat (c # cs)))))"
  have step: "(\<exists>s'. stream_chunks (queue_enforcer e) table_insert blob cs (?next a) (d1, t @ ea_rows a) =
        (Inr s', d', t') \<and> sorted_reasons s' = x) \<longleftrightarrow>
      (\<exists>b. enforce_rows e (?n + length c) (concat cs) empty_acc d1 = (Inr b, d') \<and>
        ea_rejected b = 0 \<and> t' = t @ ea_rows (acc_plus a b) \<and> x = ?goal a b)"
    if a: "enforce_rows e ?n c empty_acc d = (Inr a, d1)" "ea_rejected a = 0" for a d1
  proof -
    have ok: "counter_ok (ea_reasons a)" by (rule enforce_rows_ok [OF a(1)])
    have "length (ea_rows a) + ea_quarantined a = length c"
      using enforce_rows_counts [OF a(1)] a(2) by simp
    then have n: "ss_accepted (?next a) + ss_quarantined (?next a) = ?n + length c"
      by (simp add: stream_plus_def)
    have ih: "ss_rejected (?next a) = 0" "counter_ok (ss_reasons (?next a))"
      using Cons.prems a ok by (simp_all add: stream_plus_def counter_ok_updates)
    have "sorted_reasons (stream_plus (?next a) b (concat (map blob (concat cs)))) = ?goal a b"
      if "enforce_rows e (?n + length c) (concat cs) empty_acc d1 = (Inr b, d')" for b
      using sorted_reasons_plus [OF Cons.prems(2) ok enforce_rows_ok [OF that]] by simp
    then show ?thesis unfolding Cons.IH [OF ih] n by (auto simp: acc_plus_def)
  qed
  have "(\<exists>s'. stream_chunks (queue_enforcer e) table_insert blob (c # cs) s (d, t) = (Inr s', d', t') \<and>
      sorted_reasons s' = x) \<longleftrightarrow>
    (\<exists>a d1. enforce_rows e ?n c empty_acc d = (Inr a, d1) \<and> ea_rejected a = 0 \<and>
      (\<exists>s'. stream_chunks (queue_enforcer e) table_insert blob cs (?next a) (d1, t @ ea_rows a) =
        (Inr s', d', t') \<and> sorted_reasons s' = x))"
    using Cons.prems(1) by (force simp: io_simps stream_chunk_eq)
  also have "\<dots> \<longleftrightarrow> (\<exists>a d1 b. enforce_rows e ?n c empty_acc d = (Inr a, d1) \<and> ea_rejected a = 0 \<and>
      enforce_rows e (?n + length c) (concat cs) empty_acc d1 = (Inr b, d') \<and>
        ea_rejected b = 0 \<and> t' = t @ ea_rows (acc_plus a b) \<and> x = ?goal a b)"
    using step by blast
  also have "\<dots> \<longleftrightarrow> (\<exists>a. enforce_rows e ?n (concat (c # cs)) empty_acc d = (Inr a, d') \<and>
       ea_rejected a = 0 \<and> t' = t @ ea_rows a \<and>
       x = sorted_reasons (stream_plus s a (concat (map blob (concat (c # cs))))))"
    by (simp add: enforce_rows_split) (auto simp: acc_plus_def)
  finally show ?case .
qed

text \<open>The end of the stream, after the last batch.\<close>

definition stream_close ::
  "'d enforcer \<Rightarrow> (string \<Rightarrow> string) \<Rightarrow> stream_state \<Rightarrow> ('d, stream_outcome) io" where
  "stream_close e sha s =
     io_bind (if ss_ids s \<noteq> [] \<and> ef_writer e \<noteq> None then enforce_index_ref e True
              else io_return (ss_index_ref s)) (\<lambda>ref.
     io_return
       \<lparr>so_result = \<lparr>er_passed = (ss_rejected s = 0), er_rows = [], er_diagnostics = [],
          er_rejected = ss_rejected s, er_quarantined = ss_quarantined s,
          er_commit_allowed = (ss_rejected s = 0), er_dlq_ids = ss_ids s,
          er_dlq_reasons = ss_reasons s, er_index_ref = ref,
          er_accepted_count = Some (ss_accepted s)\<rparr>,
        so_checksum = sha (ss_digest_input s), so_bytes = length (ss_digest_input s)\<rparr>)"

lemma load_stream_bind:
  assumes "0 < batch"
  shows "load_with_row_inserter (queue_enforcer e) table_insert blob sha batch rows =
      io_bind (stream_chunks (queue_enforcer e) table_insert blob (batched (nat batch) rows) empty_stream)
        (\<lambda>s. on_queue (stream_close e sha (sorted_reasons s)))"
proof -
  have e1: "(if p then io_return () else io_bind (table_insert [])
      (\<lambda>n. if equals_zero n then io_return () else io_raise insert_mismatch)) = io_return ()"
    for p :: bool
    by (auto simp: fun_eq_iff table_insert_def io_bind_def io_return_def equals_zero_def)
  have e2: "(if q then enforce_index_ref (queue_enforcer e) True else io_return x) =
      on_queue (if q then enforce_index_ref e True else io_return x)" for q x
    by (simp add: index_ref_queue)
  show ?thesis
    using assms
    by (simp add: load_with_row_inserter_def stream_close_def sorted_reasons_def e1 e2 del: not_None_eq cong: if_cong)
qed

lemma load_stream_eq:
  assumes "0 < batch"
  shows "load_with_row_inserter (queue_enforcer e) table_insert blob sha batch rows (d, t) = (Inr out, d', t') \<longleftrightarrow>
    (\<exists>s d1. stream_chunks (queue_enforcer e) table_insert blob (batched (nat batch) rows) empty_stream (d, t) =
       (Inr s, d1, t') \<and> stream_close e sha (sorted_reasons s) d1 = (Inr out, d'))"
  unfolding load_stream_bind [OF assms] by (auto simp: io_bind_eq_Inr on_queue_eq)

lemma stream_close_fault:
  assumes "stream_close e sha s w = (Inl x, w')"
  shows "enforce_index_ref e True w = (Inl x, w')"
  using assms by (auto simp: stream_close_def io_bind_def io_return_def split: if_splits prod.splits sum.splits)

lemma stream_close_eq:
  assumes "ea_rejected a = 0" "counter_ok (ea_reasons a)"
  shows "stream_close e sha (sorted_reasons (stream_plus empty_stream a text)) w = (Inr out, w') \<longleftrightarrow>
    (\<exists>ref. enforce_index_ref e (ea_ids a \<noteq> []) w = (Inr ref, w') \<and>
       out = \<lparr>so_result = (result_of a ref)\<lparr>er_rows := [], er_diagnostics := [],
          er_accepted_count := Some (accepted_rows (result_of a ref))\<rparr>,
        so_checksum = sha text, so_bytes = length text\<rparr>)"
proof -
  have "enforce_index_ref e False = io_return None"
    "ef_writer e = None \<Longrightarrow> enforce_index_ref e (ea_ids a \<noteq> []) = io_return None"
    by (cases "ef_writer e"; simp add: enforce_index_ref_def)+
  then have "(if ea_ids a \<noteq> [] \<and> ef_writer e \<noteq> None then enforce_index_ref e True else io_return None) =
      enforce_index_ref e (ea_ids a \<noteq> [])"
    by (cases "ef_writer e"; cases "ea_ids a = []") simp_all
  moreover have "sort_key fst (count_updates [] (ea_reasons a)) = sort_key fst (ea_reasons a)"
    using assms(2) by (intro counter_sorted_eq counter_ok_updates)
      (auto simp: fun_eq_iff count_of_updates, auto simp: counter_ok_def)
  ultimately show ?thesis
    using assms
    by (simp add: stream_close_def sorted_reasons_def stream_plus_def empty_stream_def io_bind_eq_Inr
        io_return_eq result_of_def accepted_rows_def del: not_None_eq cong: if_cong split del: if_split)
qed

section \<open>A stream that fails\<close>

lemma io_bind_eq_Inl [io_simps]:
  "io_bind m f w = (Inl x, w'') \<longleftrightarrow> m w = (Inl x, w'') \<or> (\<exists>a w'. m w = (Inr a, w') \<and> f a w' = (Inl x, w''))"
  by (auto simp: io_bind_def split: prod.splits sum.splits)

text \<open>The enforcement of one batch fails: it raises, or it does not pass.\<close>

definition batch_fault :: "'d enforcer \<Rightarrow> nat \<Rightarrow> cell_row list \<Rightarrow> 'd \<Rightarrow> py_exn \<Rightarrow> 'd \<Rightarrow> bool" where
  "batch_fault e off c d x d' =
     (case enforce e off False c d of
        (Inl y, w) \<Rightarrow> x = y \<and> d' = w
      | (Inr r, w) \<Rightarrow> \<not> er_passed r \<and> x = enforcement_failed \<and> d' = w)"

lemma stream_chunk_fault:
  "stream_chunk (queue_enforcer e) table_insert blob c s (d, t) = (Inl x, d', t') \<longleftrightarrow>
    t' = t \<and> batch_fault e (ss_accepted s + ss_rejected s + ss_quarantined s) c d x d'"
proof -
  have ins: "stream_insert table_insert rows (d1, t1) \<noteq> (Inl y, w)" for rows d1 t1 y w
    by (auto simp: stream_insert_def table_insert_def io_simps)
  show ?thesis
    by (auto simp: stream_chunk_def enforce_queue io_simps on_queue_eq batch_fault_def ins
        split: if_splits prod.splits sum.splits)
qed

lemma stream_chunks_fault:
  assumes "ss_rejected s = 0" "stream_chunks (queue_enforcer e) table_insert blob cs s (d, t) = (Inl x, d', t')"
  shows "\<exists>cs1 c cs2 a d1. cs = cs1 @ c # cs2 \<and>
    enforce_rows e (ss_accepted s + ss_quarantined s) (concat cs1) empty_acc d = (Inr a, d1) \<and> ea_rejected a = 0 \<and>
    t' = t @ ea_rows a \<and>
    batch_fault e (ss_accepted s + ss_quarantined s + length (concat cs1)) c d1 x d'"
  using assms
proof (induction cs arbitrary: s d t)
  case (Cons c cs)
  let ?n = "ss_accepted s + ss_quarantined s"
  from Cons.prems(2) consider
      "stream_chunk (queue_enforcer e) table_insert blob c s (d, t) = (Inl x, d', t')"
    | s1 d1 t1 where "stream_chunk (queue_enforcer e) table_insert blob c s (d, t) = (Inr s1, d1, t1)"
        "stream_chunks (queue_enforcer e) table_insert blob cs s1 (d1, t1) = (Inl x, d', t')"
    by (auto simp: io_simps)
  then show ?case
  proof cases
    case 1
    with Cons.prems(1) show ?thesis
      by (intro exI [of _ "[]"] exI [of _ c] exI [of _ cs] exI [of _ empty_acc] exI [of _ d])
        (simp add: stream_chunk_fault io_return_eq)
  next
    case (2 s1 d1 t1)
    from 2(1) obtain a where a: "enforce_rows e ?n c empty_acc d = (Inr a, d1)" "ea_rejected a = 0" "t1 = t @ ea_rows a"
      "s1 = stream_plus s (a\<lparr>ea_reasons := sort_key fst (ea_reasons a)\<rparr>) (concat (map blob c))"
      by (auto simp: stream_chunk_eq [OF Cons.prems(1)])
    have "length (ea_rows a) + ea_quarantined a = length c"
      using enforce_rows_counts [OF a(1)] a(2) by simp
    then have n: "ss_accepted s1 + ss_quarantined s1 = ?n + length c" "ss_rejected s1 = 0"
      using a(2,4) Cons.prems(1) by (simp_all add: stream_plus_def)
    from Cons.IH [OF n(2) 2(2)] n(1) obtain cs1 b cs2 a1 d2 where
      f: "cs = cs1 @ b # cs2" "enforce_rows e (?n + length c) (concat cs1) empty_acc d1 = (Inr a1, d2)"
        "ea_rejected a1 = 0" "t' = t1 @ ea_rows a1" "batch_fault e (?n + length c + length (concat cs1)) b d2 x d'"
      by auto
    then have "enforce_rows e ?n (concat (c # cs1)) empty_acc d = (Inr (acc_plus a a1), d2)"
      using a(1) by (auto simp: enforce_rows_split)
    with f a(2,3) show ?thesis
      by (intro exI [of _ "c # cs1"] exI [of _ b] exI [of _ cs2] exI [of _ "acc_plus a a1"] exI [of _ d2])
        (simp add: acc_plus_def add.assoc)
  qed
qed (simp add: io_simps)

lemma batched_split:
  assumes "batched n xs = cs1 @ c # cs2" "0 < n"
  shows "n dvd length (concat cs1) \<and> c = take n (drop (length (concat cs1)) xs) \<and> c \<noteq> []
    \<and> concat cs1 = take (length (concat cs1)) xs"
  using assms
proof (induction cs1 arbitrary: xs)
  case Nil
  then show ?case by (subst (asm) batched.simps) (auto split: if_splits)
next
  case (Cons b cs1)
  from Cons.prems have b: "b = take n xs" "batched n (drop n xs) = cs1 @ c # cs2" "xs \<noteq> []"
    by (subst (asm) batched.simps, auto split: if_splits)+
  have "batched n (drop n xs) \<noteq> []" using b(2) by simp
  then have "n < length xs" by (subst (asm) batched.simps) (auto split: if_splits)
  note ih = Cons.IH [OF b(2) Cons.prems(2)]
  have len: "length (concat (b # cs1)) = length (concat cs1) + n"
    using b(1) \<open>n < length xs\<close> by simp
  have "c = take n (drop (length (concat (b # cs1))) xs)" unfolding len using ih by (metis drop_drop)
  moreover have "concat (b # cs1) = take (length (concat (b # cs1))) xs"
    unfolding len using ih b(1) by (metis add.commute concat.simps(2) take_add)
  ultimately show ?case using ih len by (metis dvd_add_right_iff dvd_refl add.commute)
qed

text \<open>
  How a stream fails after \<open>off\<close> rows: the next batch of the remaining rows fails, or there is
  none and the index of the queue cannot be written.
\<close>

definition stream_fault ::
  "'d enforcer \<Rightarrow> nat \<Rightarrow> cell_row list \<Rightarrow> nat \<Rightarrow> 'd \<Rightarrow> py_exn \<Rightarrow> 'd \<Rightarrow> bool" where
  "stream_fault e n post off d x d' =
     (if post = [] then enforce_index_ref e True d = (Inl x, d')
      else batch_fault e off (take n post) d x d')"

lemma load_stream_fault:
  assumes "0 < batch"
    "load_with_row_inserter (queue_enforcer e) table_insert blob sha batch rows (d, t) = (Inl x, d', t')"
  shows "\<exists>pre post r d1. rows = pre @ post \<and> (batch dvd int (length pre) \<or> post = []) \<and>
    enforce e 0 False pre d = (Inr r, d1) \<and> er_passed r \<and> t' = t @ er_rows r \<and>
    stream_fault e (nat batch) post (length pre) d1 x d'"
proof -
  let ?cs = "batched (nat batch) rows" and ?run = "stream_chunks (queue_enforcer e) table_insert blob (batched (nat batch) rows) empty_stream (d, t)"
  have n: "0 < nat batch" using assms(1) by simp
  have c: "concat ?cs = rows" using n by (simp add: concat_batched)
  have pass: "enforce e 0 False pre d = (Inr (result_of a None), d1)"
    if "enforce_rows e 0 pre empty_acc d = (Inr a, d1)" for pre a d1
    using that by (auto simp: enforce_unfinalized)
  obtain y d1 t1 where run: "?run = (y, d1, t1)" by (cases ?run) auto
  show ?thesis
  proof (cases y)
    case (Inl z)
    with run assms have z: "z = x" "d1 = d'" "t1 = t'"
      by (auto simp: load_with_row_inserter_def io_bind_def)
    from stream_chunks_fault [of empty_stream e blob ?cs d t z d1 t1] run Inl obtain cs1 b cs2 a d2 where
      f: "?cs = cs1 @ b # cs2" "enforce_rows e 0 (concat cs1) empty_acc d = (Inr a, d2)" "ea_rejected a = 0"
        "t1 = t @ ea_rows a" "batch_fault e (length (concat cs1)) b d2 z d1"
      by (auto simp: empty_stream_def)
    from batched_split [OF f(1) n] have s: "nat batch dvd length (concat cs1)"
      "b = take (nat batch) (drop (length (concat cs1)) rows)" "b \<noteq> []" "concat cs1 = take (length (concat cs1)) rows" by auto
    let ?post = "drop (length (concat cs1)) rows"
    have "rows = concat cs1 @ ?post" using s(4) append_take_drop_id [of "length (concat cs1)" rows] by simp
    moreover have "batch dvd int (length (concat cs1))" using s(1) assms(1) by (simp flip: int_dvd_int_iff)
    moreover have "?post \<noteq> []" using s(2,3) by auto
    ultimately show ?thesis
      using pass [OF f(2)] f(3-5) s(2) z
      by (intro exI [of _ "concat cs1"] exI [of _ ?post] exI [of _ "result_of a None"] exI [of _ d2])
        (simp add: stream_fault_def)
  next
    case (Inr s)
    have "\<exists>s'. ?run = (Inr s', d1, t1) \<and> sorted_reasons s' = sorted_reasons s" using run Inr by blast
    then obtain a where a: "enforce_rows e 0 rows empty_acc d = (Inr a, d1)" "ea_rejected a = 0" "t1 = t @ ea_rows a"
      "sorted_reasons s = sorted_reasons (stream_plus empty_stream a (concat (map blob rows)))"
      by (subst (asm) stream_chunks_eq) (auto simp: c empty_stream_def counter_ok_def)
    have "t' = t1 \<and> enforce_index_ref e True d1 = (Inl x, d')"
      using assms(2) run Inr unfolding load_stream_bind [OF assms(1)]
      by (auto simp: io_bind_def on_queue_def dest: stream_close_fault split: prod.splits)
    with a pass [OF a(1)] show ?thesis
      by (intro exI [of _ rows] exI [of _ "[]"] exI [of _ "result_of a None"] exI [of _ d1])
        (simp add: stream_fault_def)
  qed
qed

lemma stream_returns:
  assumes "0 < batch"
  shows "load_with_row_inserter (queue_enforcer e) table_insert blob sha batch rows (d, t) = (Inr out, d', t') \<longleftrightarrow>
  (\<exists>r. enforce e 0 True rows d = (Inr r, d') \<and> er_passed r \<and> t' = t @ er_rows r \<and>
     out = \<lparr>so_result = r\<lparr>er_rows := [], er_diagnostics := [], er_accepted_count := Some (accepted_rows r)\<rparr>,
            so_checksum = sha (concat (map blob rows)), so_bytes = length (concat (map blob rows))\<rparr>)"
  (is "?lhs \<longleftrightarrow> ?rhs")
proof -
  let ?cs = "batched (nat batch) rows"
  let ?run = "stream_chunks (queue_enforcer e) table_insert blob ?cs empty_stream (d, t)"
  have c: "concat ?cs = rows" using assms by (simp add: concat_batched)
  have "?lhs \<longleftrightarrow> (\<exists>s d1. ?run = (Inr s, d1, t') \<and> stream_close e sha (sorted_reasons s) d1 = (Inr out, d'))"
  using assms by (auto simp: load_stream_eq)
  also have "\<dots> \<longleftrightarrow> (\<exists>x d1. (\<exists>s. ?run = (Inr s, d1, t') \<and> sorted_reasons s = x) \<and>
    stream_close e sha x d1 = (Inr out, d'))"
  by blast
  also have "\<dots> \<longleftrightarrow> (\<exists>a d1. enforce_rows e 0 rows empty_acc d = (Inr a, d1) \<and> ea_rejected a = 0 \<and>
    t' = t @ ea_rows a \<and>
    stream_close e sha (sorted_reasons (stream_plus empty_stream a (concat (map blob rows)))) d1 = (Inr out, d'))"
  by (subst stream_chunks_eq) (auto simp: c empty_stream_def counter_ok_def)
  also have "\<dots> \<longleftrightarrow> ?rhs"
  by (auto simp: enforce_eq_Inr stream_close_eq [OF _ enforce_rows_ok])
  finally show ?thesis .
qed

text \<open>
  C19: a stream that is cut into batches of any size returns exactly when the enforcement of all its
  rows at once returns and passes; then it has staged the same rows in the same order, written
  the same dead letters, and its result has the same counts, record ids, reasons and index. The
  checksum is that of all rows, whatever the batches were. A stream that raises differs from the
  whole enforcement, which stages nothing then: the batches before the failing one have been
  staged and their letters written, as the enforcement of their rows alone would, and the rows
  of the failing batch have not been staged.
\<close>

theorem stream_equals_whole:
  assumes "0 < batch"
  shows "(load_with_row_inserter (queue_enforcer e) table_insert blob sha batch rows (d, t) = (Inr out, d', t') \<longleftrightarrow>
  (\<exists>r. enforce e 0 True rows d = (Inr r, d') \<and> er_passed r \<and> t' = t @ er_rows r \<and>
     out = \<lparr>so_result = r\<lparr>er_rows := [], er_diagnostics := [], er_accepted_count := Some (accepted_rows r)\<rparr>,
            so_checksum = sha (concat (map blob rows)), so_bytes = length (concat (map blob rows))\<rparr>)) \<and>
  (load_with_row_inserter (queue_enforcer e) table_insert blob sha batch rows (d, t) = (Inl x, d', t') \<longrightarrow>
  (\<exists>pre post r d1. rows = pre @ post \<and> (batch dvd int (length pre) \<or> post = []) \<and>
     enforce e 0 False pre d = (Inr r, d1) \<and> er_passed r \<and> t' = t @ er_rows r \<and>
     stream_fault e (nat batch) post (length pre) d1 x d'))"
  by (intro conjI impI stream_returns [OF assms] load_stream_fault [OF assms])

section \<open>Witnesses\<close>

definition example_contract :: schema_contract where
  "example_contract =
     \<lparr>sc_enforcement = EnforceStrict,
      sc_columns = Some [(''n'', \<lparr>cc_name = ''n'', cc_type = ''Integer'', cc_precision = None,
        cc_scale = None, cc_nullable = False, cc_timezone = None\<rparr>)]\<rparr>"

definition example_enforcer :: "unit enforcer" where
  "example_enforcer =
     \<lparr>ef_writer = None, ef_contract = example_contract, ef_run = ''r'', ef_load = ''l'',
      ef_policy = ConflictFail, ef_repr = (\<lambda>_. ''?'')\<rparr>"

lemma example_enforced:
  "enforce example_enforcer 0 True [[(''n'', CInt 1)], [(''n'', CStr ''x'')], [(''n'', CStr ''-2'')]] () =
    (Inr \<lparr>er_passed = False, er_rows = [[(''n'', CInt 1)], [(''n'', CStr ''-2'')]],
       er_diagnostics = [\<lparr>dg_row_index = 1, dg_column = ''n'', dg_action = ActionFail,
         dg_message = ''n must be integer'', dg_expected_type = ''Integer'', dg_actual_value = ''?'',
         dg_reason_code = ''schema.type_mismatch'', dg_actual_type = ''string''\<rparr>],
       er_rejected = 1, er_quarantined = 0, er_commit_allowed = False, er_dlq_ids = [],
       er_dlq_reasons = [], er_index_ref = None, er_accepted_count = None\<rparr>, ())"
  by code_simp

lemma example_passed:
  "enforce example_enforcer 0 True [[(''n'', CInt 1)], [(''n'', CStr ''-2'')]] () =
    (Inr \<lparr>er_passed = True, er_rows = [[(''n'', CInt 1)], [(''n'', CStr ''-2'')]],
       er_diagnostics = [], er_rejected = 0, er_quarantined = 0, er_commit_allowed = True,
       er_dlq_ids = [], er_dlq_reasons = [], er_index_ref = None, er_accepted_count = None\<rparr>, ())"
  by code_simp

theorem staged_rows_typed_witness:
  "has_type (hd (contract_columns example_contract)) (CStr ''-2'') \<and> \<not> row_conforms example_contract [(''n'', CStr ''x'')]"
proof -
  have "\<not> false_accept (hd (contract_columns example_contract)) (CStr ''-2'')" by code_simp
  then show ?thesis
    using staged_rows_typed [OF example_enforced]
    by (auto simp: example_enforcer_def example_contract_def row_typed_def row_get_def contract_columns_def split: if_splits)
qed

text \<open>In batches of one row the row before the conflict is staged; all at once it is not.\<close>

theorem stream_equals_whole_witness:
  "load_with_row_inserter (queue_enforcer example_enforcer) table_insert (\<lambda>_. ''x'') (\<lambda>s. s) 1
     [[(''n'', CInt 1)], [(''n'', CStr ''-2'')]] ((), []) =
   (Inr \<lparr>so_result = \<lparr>er_passed = True, er_rows = [], er_diagnostics = [], er_rejected = 0,
        er_quarantined = 0, er_commit_allowed = True, er_dlq_ids = [], er_dlq_reasons = [],
        er_index_ref = None, er_accepted_count = Some 2\<rparr>, so_checksum = ''xx'', so_bytes = 2\<rparr>,
    (), [[(''n'', CInt 1)], [(''n'', CStr ''-2'')]])"
  by (subst conjunct1 [OF stream_equals_whole]) (simp_all add: example_passed accepted_rows_def)

theorem failed_stream_stages_prefix:
  "load_with_row_inserter (queue_enforcer example_enforcer) table_insert (\<lambda>_. ''x'') (\<lambda>s. s) 1
     [[(''n'', CInt 1)], [(''n'', CStr ''x'')]] ((), []) = (Inl enforcement_failed, (), [[(''n'', CInt 1)]])"
  by code_simp

end
