(* ===== verification/Dlq_Service.thy ===== *)
theory Dlq_Service
  imports Dlq_Store Dc_Stream
begin

text \<open>
  The services of the dead-letter queue (\<open>ops/dlq.py\<close>): writing, replay and retention.

  The world of the writer is the store with the counters of the service and the supply of
  clock readings and random bits that \<open>new_ulid\<close> and \<open>datetime.now\<close> consume. The resolver of
  original rows and the replay sink are actions of the caller.
\<close>

section \<open>Writing\<close>

record dlq_world =
  qw_files :: dlq_files
  qw_counts :: "(string \<times> nat) list"
  qw_supply :: "nat \<Rightarrow> int \<times> int \<times> instant"
  qw_drawn :: nat

text \<open>
  The store of a policy. \<open>resolve\<close> is \<open>Path.resolve\<close>, which makes the configured directory
  absolute; the root only shows in the text of index references.
\<close>

definition dlq_config :: "(string \<Rightarrow> string) \<Rightarrow> dlq_policy \<Rightarrow> dlq_store_config" where
  "dlq_config resolve p =
     \<lparr>st_root = resolve (dp_directory p), st_record_bytes = dp_max_record_bytes p,
      st_diagnostic_bytes = dp_max_diagnostic_bytes p, st_index_bytes = dp_max_index_bytes p\<rparr>"

definition run_count ::
  "(string \<Rightarrow> string) \<Rightarrow> dlq_store_config \<Rightarrow> string \<Rightarrow> (dlq_world, nat) io" where
  "run_count sha st run w =
     (case dict_get (qw_counts w) run of
        Some n \<Rightarrow> (Inr n, w)
      | None \<Rightarrow>
          (case store_records sha st run (qw_files w) of
             Inl e \<Rightarrow> (Inl e, w)
           | Inr rs \<Rightarrow> (Inr (length rs), w\<lparr>qw_counts := dict_set (qw_counts w) run (length rs)\<rparr>)))"

definition default_ref :: "string \<Rightarrow> string \<Rightarrow> nat \<Rightarrow> string" where
  "default_ref run load i =
     ''dpone://runs/'' @ run @ ''/loads/'' @ load @ ''/rows/'' @ py_str_int (int i)"

text \<open>The record of one call: its parts are computed in the order of the source.\<close>

definition build_record ::
  "(string \<Rightarrow> string) \<Rightarrow> dlq_policy \<Rightarrow> int \<times> int \<times> instant \<Rightarrow> string \<Rightarrow> string \<Rightarrow> cell_row \<Rightarrow>
    dlq_reason \<Rightarrow> (string \<times> pyval) list \<Rightarrow> nat \<Rightarrow> dlq_record res" where
  "build_record sha p supply run load row reason diagnostics i =
     (case supply of (millis, entropy, now) \<Rightarrow>
        bind_res (project_payload row (dp_pii p)) (\<lambda>val.
        record_create sha now (new_ulid millis entropy) run load (default_ref run load i) reason
          diagnostics (dp_pii p) val (dp_retention_days p)))"

definition dlq_put ::
  "(string \<Rightarrow> string) \<Rightarrow> dlq_policy \<Rightarrow> dlq_store_config \<Rightarrow> string \<Rightarrow> string \<Rightarrow> cell_row \<Rightarrow> dlq_reason \<Rightarrow>
    (string \<times> pyval) list \<Rightarrow> nat \<Rightarrow> (dlq_world, dlq_record) io" where
  "dlq_put sha p st run load row reason diagnostics i =
     io_bind (run_count sha st run) (\<lambda>count.
     if dp_max_records_per_run p \<le> int count then
       io_raise (ValueError ''DPONE_DLQ_RUN_RECORD_LIMIT_EXCEEDED: run reached its configured DLQ limit'')
     else
       io_bind (io_lift (safe_diagnostics diagnostics)) (\<lambda>projected.
       if dp_max_diagnostic_bytes p < spaced_bytes (PDict projected) then
         io_raise (ValueError ''DPONE_DLQ_DIAGNOSTICS_TOO_LARGE: redacted diagnostics exceed configured limit'')
       else
         (\<lambda>w. (let drawn = qw_supply w (qw_drawn w); w = w\<lparr>qw_drawn := Suc (qw_drawn w)\<rparr> in
            case build_record sha p drawn run load row reason projected i of
              Inl e \<Rightarrow> (Inl e, w)
            | Inr r \<Rightarrow>
                (case record_append sha st r (qw_files w) of
                   (Inl e, fs) \<Rightarrow> (Inl e, w\<lparr>qw_files := fs\<rparr>)
                 | (Inr stored, fs) \<Rightarrow>
                     (Inr stored, w\<lparr>qw_files := fs,
                        qw_counts := dict_set (qw_counts w) run (Suc count)\<rparr>))))))"

definition write_rejected ::
  "(string \<Rightarrow> string) \<Rightarrow> dlq_policy \<Rightarrow> dlq_store_config \<Rightarrow> string \<Rightarrow> string \<Rightarrow> cell_row \<Rightarrow> nat \<Rightarrow> rejection \<Rightarrow>
    (dlq_world, dlq_receipt) io" where
  "write_rejected sha p st run load row i rj =
     io_bind (dlq_put sha p st run load row
       (registered_reason (rj_code rj) (rj_stage rj) (rj_column rj)) (rj_diagnostics rj) i) (\<lambda>r.
     io_return \<lparr>wr_record_id = dr_id r, wr_reason_code = ds_code (dr_reason r)\<rparr>)"

record dlq_summary =
  su_count :: nat
  su_ids :: "string list"
  su_reasons :: "(string \<times> nat) list"
  su_index_ref :: string

definition on_files :: "(dlq_files, 'a) io \<Rightarrow> (dlq_world, 'a) io" where
  "on_files m = (\<lambda>w. case m (qw_files w) of (r, fs) \<Rightarrow> (r, w\<lparr>qw_files := fs\<rparr>))"

definition dlq_summarize ::
  "(string \<Rightarrow> string) \<Rightarrow> dlq_store_config \<Rightarrow> string \<Rightarrow> (dlq_files, dlq_summary) io" where
  "dlq_summarize sha st run =
     io_bind (refresh_index sha st run) (\<lambda>ref.
     io_bind (\<lambda>fs. (store_records sha st run fs, fs)) (\<lambda>rs.
     io_return \<lparr>su_count = length rs, su_ids = map dr_id rs,
       su_reasons = sort_key fst (foldl (\<lambda>d r. count_add d (ds_code (dr_reason r)) 1) [] rs),
       su_index_ref = ref\<rparr>))"

definition dlq_service ::
  "(string \<Rightarrow> string) \<Rightarrow> dlq_policy \<Rightarrow> dlq_store_config \<Rightarrow> dlq_world dlq_writer" where
  "dlq_service sha p st =
     \<lparr>dw_write = write_rejected sha p st,
      dw_finalize = (\<lambda>run. io_bind (on_files (dlq_summarize sha st run)) (\<lambda>s. io_return (Some (su_index_ref s))))\<rparr>"

section \<open>Replay\<close>

record replay_policy =
  rp_max_records :: int
  rp_max_bytes :: int

definition replay_policy_default :: replay_policy where
  "replay_policy_default = \<lparr>rp_max_records = 100000, rp_max_bytes = 67108864\<rparr>"

definition replay_policy_validate :: "replay_policy \<Rightarrow> unit res" where
  "replay_policy_validate p =
     bind_res (guard (1 \<le> rp_max_records p \<and> rp_max_records p \<le> 1000000)
       ''DLQ replay max_records must be between 1 and 1000000'') (\<lambda>_.
     guard (1048576 \<le> rp_max_bytes p \<and> rp_max_bytes p \<le> 536870912)
       ''DLQ replay max_bytes must be between 1048576 and 536870912'')"

record replay_item =
  ri_id :: string
  ri_sha :: string
  ri_ref :: string
  ri_key :: string

record replay_plan =
  pl_id :: string
  pl_run :: string
  pl_resolver :: string
  pl_target :: string
  pl_policy :: replay_policy
  pl_items :: "replay_item list"
  pl_created :: string

definition replay_policy_dict :: "replay_policy \<Rightarrow> pyval" where
  "replay_policy_dict p =
     PDict [(''max_records'', PInt (rp_max_records p)), (''max_bytes'', PInt (rp_max_bytes p))]"

definition item_payload :: "dlq_locator \<Rightarrow> (string \<times> pyval) list" where
  "item_payload l =
     [(''record_id'', PStr (dl_id l)), (''record_sha256'', PStr (dl_sha l)), (''record_ref'', PStr (dl_ref l))]"

definition plan_payload ::
  "string \<Rightarrow> string \<Rightarrow> string \<Rightarrow> replay_policy \<Rightarrow> dlq_locator list \<Rightarrow> (string \<times> pyval) list" where
  "plan_payload run resolver target p ls =
     [(''schema'', PStr ''dpone.dlq-replay-plan.v1''), (''run_id'', PStr run),
      (''resolver_identity'', PStr resolver), (''target_identity'', PStr target),
      (''policy'', replay_policy_dict p), (''items'', PList (map (\<lambda>l. PDict (item_payload l)) ls))]"

definition idempotency_key :: "(string \<Rightarrow> string) \<Rightarrow> string \<Rightarrow> dlq_locator \<Rightarrow> string" where
  "idempotency_key sha plan_id l =
     canonical_fingerprint sha []
       ([(''schema'', PStr ''dpone.dlq-replay-idempotency.v1''), (''plan_id'', PStr plan_id)] @ item_payload l)"

definition item_of :: "(string \<Rightarrow> string) \<Rightarrow> string \<Rightarrow> dlq_locator \<Rightarrow> replay_item" where
  "item_of sha plan_id l =
     \<lparr>ri_id = dl_id l, ri_sha = dl_sha l, ri_ref = dl_ref l, ri_key = idempotency_key sha plan_id l\<rparr>"

definition locator_of :: "replay_item \<Rightarrow> dlq_locator" where
  "locator_of i = \<lparr>dl_id = ri_id i, dl_ref = ri_ref i, dl_sha = ri_sha i\<rparr>"

definition plan_dict :: "replay_plan \<Rightarrow> pyval" where
  "plan_dict p =
     PDict [(''schema'', PStr ''dpone.dlq-replay-plan.v1''), (''plan_id'', PStr (pl_id p)),
       (''run_id'', PStr (pl_run p)), (''resolver_identity'', PStr (pl_resolver p)),
       (''target_identity'', PStr (pl_target p)), (''policy'', replay_policy_dict (pl_policy p)),
       (''items'', PList (map (\<lambda>i. PDict [(''record_id'', PStr (ri_id i)),
          (''record_sha256'', PStr (ri_sha i)), (''record_ref'', PStr (ri_ref i)),
          (''idempotency_key'', PStr (ri_key i))]) (pl_items p))),
       (''created_at'', PStr (pl_created p))]"

definition identity_ok :: "string \<Rightarrow> bool" where
  "identity_ok s = (s \<noteq> [] \<and> length s \<le> 512 \<and> list_all (\<lambda>c. 32 \<le> code_of c) s)"

definition replay_limit :: "py_exn" where
  "replay_limit = RuntimeError ''DPONE_DLQ_REPLAY_PLAN_LIMIT_EXCEEDED''"

definition replay_plan_of ::
  "(string \<Rightarrow> string) \<Rightarrow> dlq_store_config \<Rightarrow> instant \<Rightarrow> string \<Rightarrow> string \<Rightarrow> string \<Rightarrow> replay_policy \<Rightarrow>
    dlq_files \<Rightarrow> replay_plan res" where
  "replay_plan_of sha st now run resolver target p fs =
     bind_res (replay_policy_validate p) (\<lambda>_.
     bind_res (guard (identity_ok resolver) ''DLQ replay resolver_identity is invalid'') (\<lambda>_.
     bind_res (guard (identity_ok target) ''DLQ replay target_identity is invalid'') (\<lambda>_.
     bind_res (replay_candidates sha st run fs) (\<lambda>ls.
     if rp_max_records p < int (length ls) then Inl replay_limit
     else
       (let plan_id = canonical_fingerprint sha [] (plan_payload run resolver target p ls);
            plan = \<lparr>pl_id = plan_id, pl_run = run, pl_resolver = resolver, pl_target = target,
              pl_policy = p, pl_items = map (item_of sha plan_id) ls, pl_created = utc_text now\<rparr> in
        if rp_max_bytes p < spaced_bytes (plan_dict plan) then Inl replay_limit else Inr plan)))))"

text \<open>The caller's side of a replay, and the world of an execution.\<close>

record 'w replay_ports =
  ry_resolver :: string
  ry_target :: string
  ry_resolve :: "string \<Rightarrow> ('w, cell_row) io"
  ry_apply :: "cell_row \<Rightarrow> string \<Rightarrow> ('w, unit) io"

type_synonym 'w replay_world = "dlq_files \<times> 'w"

definition in_store :: "(dlq_files, 'a) io \<Rightarrow> ('w replay_world, 'a) io" where
  "in_store m = (\<lambda>(fs, w). case m fs of (r, fs') \<Rightarrow> (r, fs', w))"

definition in_target :: "('w, 'a) io \<Rightarrow> ('w replay_world, 'a) io" where
  "in_target m = (\<lambda>(fs, w). case m w of (r, w') \<Rightarrow> (r, fs, w'))"

definition store_read :: "(dlq_files \<Rightarrow> 'a res) \<Rightarrow> ('w replay_world, 'a) io" where
  "store_read f = (\<lambda>(fs, w). (f fs, fs, w))"

definition plan_checksum_error :: py_exn where
  "plan_checksum_error = RuntimeError ''DPONE_DLQ_REPLAY_PLAN_CHECKSUM_MISMATCH''"

text \<open>One item: whether it was applied now.\<close>

definition replay_step ::
  "(string \<Rightarrow> string) \<Rightarrow> dlq_store_config \<Rightarrow> instant \<Rightarrow> 'w replay_ports \<Rightarrow> replay_plan \<Rightarrow> replay_item \<Rightarrow>
    ('w replay_world, bool) io" where
  "replay_step sha st now ry plan i =
     (if ri_key i \<noteq> idempotency_key sha (pl_id plan) (locator_of i) then io_raise plan_checksum_error
      else
        io_bind (store_read (record_for_run sha st (pl_run plan) (ri_id i))) (\<lambda>r.
        if dr_sha r \<noteq> ri_sha i \<or> dr_ref r \<noteq> ri_ref i then
          io_raise (RuntimeError ''DPONE_DLQ_REPLAY_SNAPSHOT_DRIFT: record changed after planning'')
        else if \<not> dr_replayable r then
          io_raise (RuntimeError ''DPONE_DLQ_RECORD_NOT_REPLAYABLE: record policy forbids replay'')
        else
          io_bind (store_read (is_acknowledged r)) (\<lambda>acked.
          if acked then io_return False
          else
            io_bind (in_target (ry_resolve ry (dr_ref r))) (\<lambda>row.
            io_bind (in_target (ry_apply ry row (ri_key i))) (\<lambda>_.
            io_bind (in_store (acknowledge sha st now r (pl_id plan) (ri_key i))) (\<lambda>_.
            io_return True))))))"

fun replay_items ::
  "(string \<Rightarrow> string) \<Rightarrow> dlq_store_config \<Rightarrow> instant \<Rightarrow> 'w replay_ports \<Rightarrow> replay_plan \<Rightarrow> replay_item list \<Rightarrow>
    nat \<Rightarrow> nat \<Rightarrow> ('w replay_world, nat \<times> nat) io" where
  "replay_items sha st now ry plan [] applied_now old = io_return (applied_now, old)"
| "replay_items sha st now ry plan (i # rest) applied_now old =
     io_bind (replay_step sha st now ry plan i) (\<lambda>applied.
       if applied then replay_items sha st now ry plan rest (Suc applied_now) old
       else replay_items sha st now ry plan rest applied_now (Suc old))"

record replay_result =
  rr_plan :: string
  rr_replayed :: nat
  rr_already :: nat
  rr_applied :: bool

definition replay_execute ::
  "(string \<Rightarrow> string) \<Rightarrow> dlq_store_config \<Rightarrow> instant \<Rightarrow> 'w replay_ports \<Rightarrow> replay_plan \<Rightarrow>
    ('w replay_world, replay_result) io" where
  "replay_execute sha st now ry plan =
     (if pl_id plan \<noteq> canonical_fingerprint sha [] (plan_payload (pl_run plan) (pl_resolver plan)
          (pl_target plan) (pl_policy plan) (map locator_of (pl_items plan)))
      then io_raise plan_checksum_error
      else if ry_resolver ry \<noteq> pl_resolver plan \<or> ry_target ry \<noteq> pl_target plan then
        io_raise (RuntimeError ''DPONE_DLQ_REPLAY_IDENTITY_MISMATCH: executor identity differs from replay plan'')
      else
        io_bind (replay_items sha st now ry plan (pl_items plan) 0 0) (\<lambda>(n, k).
        io_return \<lparr>rr_plan = pl_id plan, rr_replayed = n, rr_already = k, rr_applied = True\<rparr>))"

section \<open>Retention\<close>

record retention_plan =
  rt_id :: string
  rt_snapshot :: string
  rt_delete :: "string list"
  rt_protected :: "string list"
  rt_planned_at :: string

definition snapshot_item :: "dlq_record \<Rightarrow> bool \<Rightarrow> pyval" where
  "snapshot_item r a = PDict [(''id'', PStr (dr_id r)), (''sha256'', PStr (dr_sha r)), (''acknowledged'', PBool a)]"

definition retention_snapshot :: "dlq_files \<Rightarrow> dlq_record list \<Rightarrow> bool list res" where
  "retention_snapshot fs rs = map_res (\<lambda>r. is_acknowledged r fs) rs"

definition snapshot_fingerprint :: "(string \<Rightarrow> string) \<Rightarrow> dlq_record list \<Rightarrow> bool list \<Rightarrow> string" where
  "snapshot_fingerprint sha rs acks =
     canonical_fingerprint sha []
       [(''schema'', PStr ''dpone.dlq-retention-snapshot.v1''),
        (''records'', PList (map2 snapshot_item rs acks))]"

definition expired_at :: "instant \<Rightarrow> dlq_record \<Rightarrow> bool res" where
  "expired_at now r =
     bind_res (parse_utc_text (dr_expires r)) (\<lambda>d.
       if dt_aware d then Inr (dt_instant d \<le> now)
       else Inl (TypeError ''cannot compare offset-naive and offset-aware datetimes''))"

text \<open>Whether the record may go, decided for each record with its state.\<close>

definition retention_verdict ::
  "instant \<Rightarrow> string set \<Rightarrow> string set \<Rightarrow> dlq_record \<times> bool \<Rightarrow> (string \<times> bool) res" where
  "retention_verdict now active pinned ra =
     (case ra of (r, acked) \<Rightarrow>
        bind_res (expired_at now r) (\<lambda>ex.
        Inr (dr_id r, \<not> (dr_id r \<in> active \<or> dr_id r \<in> pinned \<or> \<not> acked \<or> \<not> ex))))"

definition retention_plan_of ::
  "(string \<Rightarrow> string) \<Rightarrow> dlq_store_config \<Rightarrow> instant \<Rightarrow> string set \<Rightarrow> string set \<Rightarrow> dlq_files \<Rightarrow>
    retention_plan res" where
  "retention_plan_of sha st now active pinned fs =
     bind_res (all_records sha st fs) (\<lambda>rs.
     bind_res (retention_snapshot fs rs) (\<lambda>acks.
     bind_res (map_res (retention_verdict now active pinned) (zip rs acks)) (\<lambda>vs.
     (let fp = snapshot_fingerprint sha rs acks;
          gone = sort (map fst (filter snd vs));
          kept = sort (map fst (filter (\<lambda>v. \<not> snd v) vs)) in
      Inr \<lparr>rt_id = canonical_fingerprint sha []
             [(''schema'', PStr ''dpone.dlq-retention-plan.v1''), (''snapshot_fingerprint'', PStr fp),
              (''delete_record_ids'', PList (map PStr gone)), (''protected_record_ids'', PList (map PStr kept))],
           rt_snapshot = fp, rt_delete = gone, rt_protected = kept, rt_planned_at = utc_text now\<rparr>))))"

definition retention_protected :: "string \<Rightarrow> py_exn" where
  "retention_protected msg = RuntimeError (''DPONE_DLQ_RETENTION_RECORD_PROTECTED: '' @ msg)"

definition deletable :: "dlq_files \<Rightarrow> dlq_record list \<Rightarrow> string \<Rightarrow> unit res" where
  "deletable fs rs rid =
     (let bad = Inl (retention_protected ''pending record cannot be deleted'') in
      case records_by_id rs rid of
        None \<Rightarrow> bad
      | Some r \<Rightarrow> bind_res (is_acknowledged r fs) (\<lambda>a. if a then Inr () else bad))"

definition retention_apply ::
  "(string \<Rightarrow> string) \<Rightarrow> dlq_store_config \<Rightarrow> string set \<Rightarrow> string set \<Rightarrow> retention_plan \<Rightarrow>
    (dlq_files, string \<times> string list) io" where
  "retention_apply sha st active pinned plan =
     (if (active \<union> pinned) \<inter> set (rt_delete plan) \<noteq> {} then
        io_raise (retention_protected ''protection changed after planning'')
      else
        io_bind (\<lambda>fs. (bind_res (all_records sha st fs) (\<lambda>rs.
            bind_res (retention_snapshot fs rs) (\<lambda>acks.
            if snapshot_fingerprint sha rs acks \<noteq> rt_snapshot plan then
              Inl (RuntimeError ''DPONE_DLQ_RETENTION_SNAPSHOT_DRIFT: store changed after planning'')
            else map_res (deletable fs rs) (rt_delete plan))), fs)) (\<lambda>_.
        io_bind (delete_many sha st (rt_delete plan)) (\<lambda>_.
        io_return (rt_id plan, rt_delete plan))))"

end
