(* ===== verification/Dlq_Record_Proofs.thy ===== *)
theory Dlq_Record_Proofs
  imports Dlq_Service
begin

text \<open>
  The records of the dead-letter queue on their way to a file and back: the dictionary of a
  record gives it back, sorting the keys of a document changes neither its fingerprint nor its
  size, and a record that was accepted is read back. A masked payload holds no value of the row.
\<close>

section \<open>Sorting by a key\<close>

lemma map_insort_key:
  "(\<And>x. k' (h x) = k x) \<Longrightarrow> map h (insort_key k a xs) = insort_key k' (h a) (map h xs)"
  by (induction xs) auto

lemma map_sort_key: "(\<And>x. k' (h x) = k x) \<Longrightarrow> map h (sort_key k xs) = sort_key k' (map h xs)"
  by (induction xs) (simp_all add: map_insort_key [where k = k and k' = k'])

lemma sort_key_sorted [simp]: "sort_key f (sort_key f xs) = sort_key f xs"
  by (simp add: sort_key_id_if_sorted)

lemma sort_entries:
  "sort_key fst (map (\<lambda>kv. (fst kv, f (snd kv))) (sort_key fst (map (\<lambda>kv. (fst kv, g (snd kv))) d))) =
   sort_key fst (map (\<lambda>kv. (fst kv, f (g (snd kv)))) d)"
  by (subst map_sort_key [where k' = fst]) (simp_all add: o_def)

lemma insort_key_cong:
  "(\<And>x. x \<in> insert a (set xs) \<Longrightarrow> k x = k' x) \<Longrightarrow> insort_key k a xs = insort_key k' a xs"
  by (induction xs) auto

lemma sort_key_cong_on: "(\<And>x. x \<in> set xs \<Longrightarrow> k x = k' x) \<Longrightarrow> sort_key k xs = sort_key k' xs"
  by (induction xs) (auto intro: insort_key_cong)

lemma map_sort_cong:
  assumes "\<And>x. x \<in> set xs \<Longrightarrow> k (h x) = k (h' x) \<and> f (h x) = f (h' x)"
  shows "map f (sort_key k (map h xs)) = map f (sort_key k (map h' xs))"
proof -
  have s: "sort_key k (map g xs) = map g (sort_key (\<lambda>x. k (g x)) xs)" for g
    by (rule map_sort_key [symmetric]) simp
  have "sort_key (\<lambda>x. k (h x)) xs = sort_key (\<lambda>x. k (h' x)) xs"
    using assms by (intro sort_key_cong_on) blast
  then show ?thesis using assms by (simp add: s)
qed

lemma dict_get_filter: "dict_get d k = (case filter (\<lambda>kv. fst kv = k) d of [] \<Rightarrow> None | kv # _ \<Rightarrow> Some (snd kv))"
  by (induction d) auto

lemma dict_get_sort [simp]: "dict_get (sort_key fst d) k = dict_get d k"
  by (simp add: dict_get_filter sort_key_stable)

lemma dict_get_map [simp]: "dict_get (map (\<lambda>kv. (fst kv, f (snd kv))) d) k = map_option f (dict_get d k)"
  by (induction d) auto

section \<open>Sorting the keys of a document\<close>

definition sorted_dict :: "(string \<times> pyval) list \<Rightarrow> (string \<times> pyval) list" where
  "sorted_dict d = sort_key fst (map (\<lambda>kv. (fst kv, json_sorted (snd kv))) d)"

lemma json_sorted_PDict: "json_sorted (PDict d) = PDict (sorted_dict d)"
  by (simp add: sorted_dict_def)

lemma dict_get_sorted [simp]: "dict_get (sorted_dict d) k = map_option json_sorted (dict_get d k)"
  by (simp add: sorted_dict_def)

lemma keys_sorted [simp]: "fst ` set (sorted_dict d) = fst ` set d"
  by (simp add: sorted_dict_def image_image)

lemma json_sorted_idem [simp]: "json_sorted (json_sorted v) = json_sorted v"
proof (induction v rule: json_sorted.induct)
  case (1 d)
  then show ?case by (simp add: sort_entries cong: map_cong)
qed (auto simp: list.map_comp intro!: map_cong)

lemma sorted_dict_idem [simp]: "sorted_dict (sorted_dict d) = sorted_dict d"
  using json_sorted_idem [of "PDict d"] by (simp only: json_sorted_PDict pyval.inject)

lemma json_spaced_sorted [simp]: "json_spaced (json_sorted v) = json_spaced v"
proof (induction v rule: json_sorted.induct)
  case (1 d)
  then show ?case by (simp add: sort_entries cong: map_cong)
next
  case (2 xs)
  then show ?case by (simp add: o_def cong: map_cong)
qed simp_all

lemma is_masked_sorted [simp]: "is_masked (json_sorted v) = is_masked v"
  by (induction v rule: json_sorted.induct) (auto simp: list_all_iff redacted_def)

lemma text_id_sorted:
  "text_id (normalize_json (json_sorted v)) = text_id (normalize_json v)"
proof -
  have c: "(case normalize_json (json_sorted w) of PStr s \<Rightarrow> Some s | _ \<Rightarrow> None) =
      (case normalize_json w of PStr s \<Rightarrow> Some s | _ \<Rightarrow> None)" for w
    by (cases w) (simp_all add: Let_def)
  show ?thesis
  proof (cases v)
    case (PDict d)
    then show ?thesis by (cases "dict_get d ''id''") (simp_all add: text_id_def c)
  qed (simp_all add: text_id_def Let_def)
qed

lemma fingerprint_text_sorted: "json_canonical (normalize_json (json_sorted v)) = json_canonical (normalize_json v)"
proof (induction v rule: json_sorted.induct)
  case (1 d)
  then show ?case
    using sort_entries [of "\<lambda>x. json_canonical (normalize_json x)" json_sorted d]
    by (simp add: o_def cong: map_cong)
next
  case (2 xs)
  let ?all = "\<lambda>h. list_all (\<lambda>y. text_id y \<noteq> None) (map h xs)"
  have "?all (\<lambda>x. normalize_json (json_sorted x)) = ?all normalize_json"
    by (simp add: list_all_iff text_id_sorted)
  moreover have "map json_canonical (sort_key (\<lambda>y. the (text_id y)) (map (\<lambda>x. normalize_json (json_sorted x)) xs)) =
      map json_canonical (sort_key (\<lambda>y. the (text_id y)) (map normalize_json xs))"
    using 2 by (intro map_sort_cong) (simp add: text_id_sorted)
  ultimately show ?case using 2 by (simp add: o_def Let_def cong: map_cong)
qed simp_all

lemma fingerprint_sorted:
  "canonical_fingerprint sha excluded (sorted_dict d) = canonical_fingerprint sha excluded d"
proof -
  have "filter (\<lambda>kv. fst kv \<notin> set excluded) (sorted_dict d) =
      sorted_dict (filter (\<lambda>kv. fst kv \<notin> set excluded) d)"
    by (simp add: sorted_dict_def filter_sort filter_map o_def)
  then have "PDict (filter (\<lambda>kv. fst kv \<notin> set excluded) (sorted_dict d)) =
      json_sorted (PDict (filter (\<lambda>kv. fst kv \<notin> set excluded) d))"
    by (simp only: json_sorted_PDict)
  then show ?thesis
    unfolding canonical_fingerprint_def by (simp only: fingerprint_text_sorted)
qed

lemma document_bytes_sorted [simp]: "document_bytes (json_sorted v) = document_bytes v"
  by (simp add: document_bytes_def)

section \<open>Masking\<close>

lemma mask_is_masked: "is_masked (mask_cell v)"
  by (induction v rule: mask_cell.induct) (auto simp: list_all_iff redacted_def)

lemma mask_sorted [simp]: "json_sorted (mask_cell v) = mask_cell v"
proof (induction v rule: mask_cell.induct)
  case (1 d)
  then show ?case
    using sort_entries [of json_sorted mask_cell d] by (simp cong: map_cong)
qed (auto simp: redacted_def list.map_comp intro!: map_cong)

text \<open>A masked value shows no scalar of the row: every leaf is the same text.\<close>

inductive_set leaves :: "pyval \<Rightarrow> pyval set" for v where
  itself: "v \<in> leaves v"
| item: "PList xs \<in> leaves v \<Longrightarrow> x \<in> set xs \<Longrightarrow> x \<in> leaves v"
| entry: "PDict d \<in> leaves v \<Longrightarrow> (k, x) \<in> set d \<Longrightarrow> x \<in> leaves v"

lemma leaves_masked: "x \<in> leaves v \<Longrightarrow> is_masked v \<Longrightarrow> is_masked x"
  by (induction rule: leaves.induct) (auto simp: list_all_iff)

lemma masked_scalar:
  "x \<in> leaves (mask_cell v) \<Longrightarrow> (\<exists>xs. x = PList xs) \<or> (\<exists>d. x = PDict d) \<or> x = redacted"
  using leaves_masked [OF _ mask_is_masked] by (cases x) (fastforce simp: redacted_def)+

declare json_sorted.simps(1) [simp del] json_sorted_PDict [simp]

section \<open>The dictionary of a record\<close>

lemma pii_of_text [simp]: "pii_of (PStr (pii_text p)) = Inr p"
  by (cases p) (simp_all add: pii_of_def py_str_def)

lemma reason_from_to [simp]: "reason_from_dict (reason_to_dict r) = r"
  by (cases r; cases "ds_column r")
    (simp_all add: reason_from_dict_def reason_to_dict_def text_or_def py_get_default_def py_get_def py_str_def)

text \<open>
  C31: the dictionary of a record gives the record back, whatever its fields hold.
\<close>

theorem record_dict_roundtrip: "record_from_dict (record_to_dict r) = Inr r"
  by (cases r)
    (simp add: record_from_dict_def record_to_dict_def dlq_mapping_def text_or_def py_get_default_def
      py_get_def py_str_def guard_def Let_def)

text \<open>A record as it is read from a file: the keys of its diagnostics and payload are sorted.\<close>

definition sorted_record :: "dlq_record \<Rightarrow> dlq_record" where
  "sorted_record r =
     r\<lparr>dr_diagnostics := sorted_dict (dr_diagnostics r), dr_value := json_sorted (dr_value r)\<rparr>"

lemma sorted_record_simps [simp]:
  "dr_id (sorted_record r) = dr_id r" "dr_run (sorted_record r) = dr_run r" "dr_sha (sorted_record r) = dr_sha r"
  "dr_ref (sorted_record r) = dr_ref r" "dr_load (sorted_record r) = dr_load r"
  "dr_reason (sorted_record r) = dr_reason r" "dr_replayable (sorted_record r) = dr_replayable r"
  "dr_expires (sorted_record r) = dr_expires r" "dr_created (sorted_record r) = dr_created r"
  "dr_pii (sorted_record r) = dr_pii r" "dr_value (sorted_record r) = json_sorted (dr_value r)"
  "dr_schema (sorted_record r) = dr_schema r" "dr_acknowledged (sorted_record r) = dr_acknowledged r"
  "dr_diagnostics (sorted_record r) = sorted_dict (dr_diagnostics r)"
  by (simp_all add: sorted_record_def)

lemma sorted_record_idem [simp]: "sorted_record (sorted_record r) = sorted_record r"
  by (simp add: sorted_record_def)

lemma reason_from_sorted [simp]: "reason_from_dict (sorted_dict (reason_to_dict r)) = r"
  by (cases r; cases "ds_column r")
    (simp_all add: reason_from_dict_def reason_to_dict_def text_or_def py_get_default_def py_get_def py_str_def)

lemma record_from_document:
  "record_document r = PDict d \<Longrightarrow> record_from_dict d = Inr (sorted_record r)"
proof -
  assume "record_document r = PDict d"
  then have d: "d = sorted_dict (record_to_dict r)"
    by (simp add: record_document_def)
  have p: "py_get_default (sorted_dict e) k dflt = (case dict_get e k of None \<Rightarrow> dflt | Some v \<Rightarrow> json_sorted v)"
    "py_get (sorted_dict e) k = (case dict_get e k of None \<Rightarrow> PNone | Some v \<Rightarrow> json_sorted v)" for e k dflt
    by (simp_all add: py_get_default_def py_get_def split: option.split)
  show ?thesis
    by (cases r)
      (simp add: d record_from_dict_def record_to_dict_def dlq_mapping_def text_or_def p
        py_str_def guard_def Let_def sorted_record_def)
qed

lemma fingerprint_record_sorted [simp]: "record_fingerprint sha (sorted_record r) = record_fingerprint sha r"
proof -
  let ?f = "\<lambda>kv. (fst kv, json_sorted (snd kv))"
  have "map ?f (record_to_dict (sorted_record r)) = map ?f (record_to_dict r)"
    by (simp add: record_to_dict_def sorted_dict_def sort_entries)
  then have "sorted_dict (record_to_dict (sorted_record r)) = sorted_dict (record_to_dict r)"
    unfolding sorted_dict_def by (rule arg_cong)
  then show ?thesis
    unfolding record_fingerprint_def by (metis fingerprint_sorted)
qed

section \<open>Reading back\<close>

lemma validate_sorted [simp]: "record_validate (sorted_record r) = record_validate r"
proof -
  have "json_sorted v = PNone \<longleftrightarrow> v = PNone" for v by (cases v) simp_all
  then show ?thesis by (simp add: record_validate_def)
qed

lemma record_check_sorted [simp]: "record_check sha st (sorted_record r) = record_check sha st r"
proof -
  have "spaced_bytes (PDict (sorted_dict d)) = spaced_bytes (PDict d)" for d
    using json_spaced_sorted [of "PDict d"] by (simp add: spaced_bytes_def)
  then show ?thesis
    by (cases "record_validate r") (simp_all add: record_check_def split: py_exn.split)
qed

lemma record_document_dict: "record_document r = PDict (sorted_dict (record_to_dict r))"
  by (simp add: record_document_def)

text \<open>A record that may be written is read back from its file, with sorted keys.\<close>

definition storable :: "(string \<Rightarrow> string) \<Rightarrow> dlq_store_config \<Rightarrow> dlq_record \<Rightarrow> bool" where
  "storable sha st r \<longleftrightarrow> record_check sha st r = Inr () \<and>
     document_bytes (PDict (record_to_dict r)) \<le> st_record_bytes st"

lemma read_stored:
  assumes "storable sha st r"
  shows "read_record sha st (JDoc (record_document r)) = Inr (sorted_record r)"
proof -
  have "\<not> st_record_bytes st < document_bytes (record_document r)"
    using assms document_bytes_sorted [of "PDict (record_to_dict r)"]
    by (simp add: storable_def record_document_def)
  moreover have "record_from_dict (sorted_dict (record_to_dict r)) = Inr (sorted_record r)"
    using record_from_document [of r] by (simp add: record_document_dict)
  ultimately show ?thesis
    using assms by (simp add: read_record_def read_json_def read_sized_def record_document_dict storable_def)
qed

lemma storable_components:
  assumes "storable sha st r"
  shows "component (dr_run r) = Inr (dr_run r)" "component (dr_load r) = Inr (dr_load r)"
    "component (dr_id r) = Inr (dr_id r)"
  using assms
  by (auto simp: storable_def record_check_def component_def split: if_splits sum.splits py_exn.splits)

lemma created_record:
  assumes "record_create sha now rid run load ref reason diags pii val days = Inr r"
  shows "dr_id r = rid \<and> dr_run r = run \<and> dr_load r = load \<and> dr_ref r = ref \<and> dr_reason r = reason \<and>
    dr_pii r = pii \<and> dr_value r = val \<and> dr_replayable r \<and> \<not> dr_acknowledged r \<and>
    dr_diagnostics r = diags \<and> dr_created r = utc_text now \<and> dr_expires r = utc_text (now + days * us_day) \<and>
    dr_sha r = record_fingerprint sha r"
  using assms
  by (auto simp: record_create_def Let_def record_fingerprint_def canonical_fingerprint_def record_to_dict_def
      split: if_splits)

end
