(* ===== verification/Dlq_Store_Proofs.thy ===== *)
theory Dlq_Store_Proofs
  imports Dlq_Record_Proofs
begin

text \<open>
  What the file store of the dead-letter queue promises: every record file that its operations
  leave behind is read back, whatever they were and however they ended, and a finalized run is
  listed by its index.
\<close>

section \<open>Well-formed stores\<close>

definition record_file_ok ::
  "(string \<Rightarrow> string) \<Rightarrow> dlq_store_config \<Rightarrow> (string \<times> string) \<times> json_file \<Rightarrow> bool" where
  "record_file_ok sha st kf \<longleftrightarrow>
     (\<exists>r. kf = ((dr_run r, dr_id r), JDoc (record_document r)) \<and> storable sha st r)"

definition files_ok :: "(string \<Rightarrow> string) \<Rightarrow> dlq_store_config \<Rightarrow> dlq_files \<Rightarrow> bool" where
  "files_ok sha st fs \<longleftrightarrow>
     distinct (map fst (df_records fs)) \<and> list_all (record_file_ok sha st) (df_records fs)"

lemma files_ok_cong: "df_records fs' = df_records fs \<Longrightarrow> files_ok sha st fs' = files_ok sha st fs"
  by (simp add: files_ok_def)

lemma files_ok_read:
  assumes "files_ok sha st fs" "(k, f) \<in> set (df_records fs)"
  shows "\<exists>r. read_record sha st f = Inr r \<and> (dr_run r, dr_id r) = k \<and> sorted_record r = r \<and>
    record_check sha st r = Inr ()"
proof -
  from assms obtain r where r: "k = (dr_run r, dr_id r)" "f = JDoc (record_document r)" "storable sha st r"
    by (auto simp: files_ok_def list_all_iff record_file_ok_def)
  then show ?thesis by (intro exI [of _ "sorted_record r"]) (simp add: read_stored, simp add: storable_def)
qed

definition record_at :: "(string \<Rightarrow> string) \<Rightarrow> dlq_store_config \<Rightarrow> (string \<times> string) \<times> json_file \<Rightarrow> dlq_record" where
  "record_at sha st kf = (case read_record sha st (snd kf) of Inr r \<Rightarrow> r | Inl _ \<Rightarrow> undefined)"

lemma record_at_read:
  assumes "files_ok sha st fs" "kf \<in> set (df_records fs)"
  shows "read_record sha st (snd kf) = Inr (record_at sha st kf)"
    "(dr_run (record_at sha st kf), dr_id (record_at sha st kf)) = fst kf"
    "record_check sha st (record_at sha st kf) = Inr ()"
    "sorted_record (record_at sha st kf) = record_at sha st kf"
  using files_ok_read [OF assms(1), of "fst kf" "snd kf"] assms(2) by (auto simp: record_at_def)

lemma dict_get_mem: "dict_get d k = Some v \<Longrightarrow> (k, v) \<in> set d"
  by (induction d) (auto split: if_splits)

lemma dict_get_distinct: "distinct (map fst d) \<Longrightarrow> (k, v) \<in> set d \<Longrightarrow> dict_get d k = Some v"
  by (induction d) (auto split: if_splits simp: image_iff)

lemma dict_set_absent: "dict_get d k = None \<Longrightarrow> dict_set d k v = d @ [(k, v)]"
  by (induction d) (auto split: if_splits)

lemma append_outcome:
  assumes "record_append sha st r fs = (x, fs')"
  shows "(fs' = fs \<and> (\<forall>s. x = Inr s \<longrightarrow> dict_get (df_records fs) (dr_run r, dr_id r) \<noteq> None)) \<or>
    (x = Inr r \<and> storable sha st r \<and> dict_get (df_records fs) (dr_run r, dr_id r) = None \<and>
     fs' = fs\<lparr>df_records := df_records fs @ [((dr_run r, dr_id r), JDoc (record_document r))]\<rparr>)"
  using assms
  by (auto simp: record_append_def storable_def dict_set_absent split: sum.splits option.splits if_splits)

lemma append_files_ok:
  assumes "record_append sha st r fs = (x, fs')" "files_ok sha st fs"
  shows "files_ok sha st fs'"
proof -
  have "dict_get (df_records fs) k = None \<Longrightarrow> k \<notin> fst ` set (df_records fs)" for k
    using assms(2) by (auto simp: files_ok_def dest: dict_get_distinct)
  with append_outcome [OF assms(1)] assms(2) show ?thesis
    by (auto simp: files_ok_def record_file_ok_def)
qed

lemma acknowledge_records:
  "acknowledge sha st now r pid key fs = (x, fs') \<Longrightarrow> df_records fs' = df_records fs \<and> df_indexes fs' = df_indexes fs"
  by (auto simp: acknowledge_def Let_def split: sum.splits option.splits)

lemma refresh_records:
  "refresh_index sha st run fs = (x, fs') \<Longrightarrow> df_records fs' = df_records fs \<and> df_acks fs' = df_acks fs"
  by (auto simp: refresh_index_def Let_def split: sum.splits if_splits)

lemma refresh_all_records:
  "refresh_all sha st runs fs = (x, fs') \<Longrightarrow> df_records fs' = df_records fs \<and> df_acks fs' = df_acks fs"
proof (induction runs arbitrary: fs)
  case (Cons run runs)
  then show ?case
    by (auto simp: io_bind_def split: prod.splits sum.splits dest!: refresh_records Cons.IH)
qed (simp add: io_return_def)

lemma delete_one_records:
  "df_records (fold delete_one rs fs) =
     filter (\<lambda>kf. fst kf \<notin> (\<lambda>r. (dr_run r, dr_id r)) ` set rs) (df_records fs)"
proof (induction rs arbitrary: fs)
  case (Cons r rs)
  have "df_records (delete_one r fs) = filter (\<lambda>kf. fst kf \<noteq> (dr_run r, dr_id r)) (df_records fs)"
    by (auto simp: delete_one_def record_delete_def AList.delete_eq case_prod_unfold intro!: filter_cong)
  with Cons show ?case by (auto intro!: filter_cong)
qed simp

lemma files_ok_filter:
  "files_ok sha st fs \<Longrightarrow> df_records fs' = filter P (df_records fs) \<Longrightarrow> files_ok sha st fs'"
  by (auto simp: files_ok_def list_all_iff distinct_map_filter)

lemma delete_many_files:
  assumes "delete_many sha st rids fs = (x, fs')"
  obtains P where "df_records fs' = filter P (df_records fs)"
  using assms
  by (auto simp: delete_many_def delete_one_records split: sum.splits
      dest!: refresh_all_records intro: that [of "\<lambda>_. True"])

text \<open>The stores that the operations make of an empty one, whether they return or raise.\<close>

inductive store_reach :: "(string \<Rightarrow> string) \<Rightarrow> dlq_store_config \<Rightarrow> dlq_files \<Rightarrow> bool" for sha st where
  empty: "store_reach sha st \<lparr>df_records = [], df_acks = [], df_indexes = []\<rparr>"
| append: "\<lbrakk>store_reach sha st fs; record_append sha st r fs = (x, fs')\<rbrakk> \<Longrightarrow> store_reach sha st fs'"
| acknowledge: "\<lbrakk>store_reach sha st fs; acknowledge sha st now r pid key fs = (x', fs')\<rbrakk> \<Longrightarrow> store_reach sha st fs'"
| refresh: "\<lbrakk>store_reach sha st fs; refresh_index sha st run fs = (x'', fs')\<rbrakk> \<Longrightarrow> store_reach sha st fs'"
| delete: "\<lbrakk>store_reach sha st fs; delete_many sha st rids fs = (x', fs')\<rbrakk> \<Longrightarrow> store_reach sha st fs'"

lemma reach_files_ok: "store_reach sha st fs \<Longrightarrow> files_ok sha st fs"
proof (induction rule: store_reach.induct)
  case (delete fs rids x' fs')
  then show ?case by (metis delete_many_files files_ok_filter)
qed (auto simp: files_ok_def [of _ _ "\<lparr>df_records = _, df_acks = _, df_indexes = _\<rparr>"]
    intro: append_files_ok dest: acknowledge_records refresh_records files_ok_cong)

section \<open>Reading a run\<close>

definition run_keys :: "string \<Rightarrow> dlq_files \<Rightarrow> string list" where
  "run_keys run fs = map (\<lambda>kf. snd (fst kf)) (filter (\<lambda>kf. fst (fst kf) = run) (df_records fs))"

lemma record_files_ok:
  assumes "files_ok sha st fs" "component run = Inr run"
  shows "record_files sha st run fs = Inr (sort_key dr_id (map (record_at sha st) (run_files run fs)))"
proof -
  have "map_res (\<lambda>kf. read_record sha st (snd kf)) (run_files run fs) = Inr (map (record_at sha st) (run_files run fs))"
    using assms(1) by (intro map_res_Inr_map) (simp add: run_files_def record_at_read)
  with assms(2) show ?thesis by (simp add: record_files_def)
qed

lemma distinct_map_sort: "distinct (map f (sort_key k xs)) = distinct (map f xs)"
  by (simp add: distinct_map)

lemma record_files_cases:
  assumes "files_ok sha st fs" "record_files sha st run fs = Inr rs"
  shows "distinct (map dr_id rs)" "sorted (map dr_id rs)" "set (map dr_id rs) = set (run_keys run fs)"
    "\<And>r. r \<in> set rs \<Longrightarrow> dr_run r = run \<and> record_check sha st r = Inr () \<and> sorted_record r = r"
proof -
  from assms(2) have "component run = Inr run"
    by (auto simp: record_files_def component_def bind_res_eq_Inr split: if_splits)
  with assms record_files_ok [of sha st fs run]
  have rs: "rs = sort_key dr_id (map (record_at sha st) (run_files run fs))" by simp
  have f: "kf \<in> set (df_records fs)" "fst (fst kf) = run" if "kf \<in> set (run_files run fs)" for kf
    using that by (auto simp: run_files_def)
  have i: "map (\<lambda>kf. dr_id (record_at sha st kf)) (run_files run fs) = map (\<lambda>kf. snd (fst kf)) (run_files run fs)"
    using record_at_read(2) [OF assms(1) f(1)] by (metis (mono_tags, lifting) list.map_cong0 snd_conv)
  have d: "distinct (map fst (filter (\<lambda>kf. fst (fst kf) = run) (df_records fs)))"
    using assms(1) by (simp add: files_ok_def distinct_map_filter)
  have "distinct (map (\<lambda>kf. snd (fst kf)) (filter (\<lambda>kf. fst (fst kf) = run) (df_records fs)))"
    using d by (auto simp: distinct_map inj_on_def prod_eq_iff)
  then have "distinct (map (\<lambda>kf. snd (fst kf)) (run_files run fs))"
    by (simp add: run_files_def distinct_map)
  then have "distinct (map dr_id (map (record_at sha st) (run_files run fs)))"
    by (simp only: list.map_comp o_def i)
  then show "distinct (map dr_id rs)" by (simp only: rs distinct_map_sort)
  show "sorted (map dr_id rs)" by (simp add: rs)
  show "set (map dr_id rs) = set (run_keys run fs)"
    using arg_cong [OF i, of set] by (simp add: rs run_keys_def run_files_def image_image)
  show "dr_run r = run \<and> record_check sha st r = Inr () \<and> sorted_record r = r" if "r \<in> set rs" for r
    using that f record_at_read [OF assms(1)] by (auto simp: rs prod_eq_iff)
qed

section \<open>Finalized runs\<close>

lemma indexed_pairs_items:
  "indexed_pairs (map json_sorted (map index_item rs)) = map (\<lambda>r. (dr_id r, dr_sha r)) rs"
  by (induction rs) (simp_all add: index_item_def py_get_def py_str_def)

lemma index_payload_written:
  assumes "component run = Inr run" "document_bytes (index_document sha run rs) \<le> st_index_bytes st"
    "dict_get (df_indexes fs) run = Some (JDoc (json_sorted (index_document sha run rs)))"
  shows "\<exists>d. index_payload sha st run fs = Inr d \<and>
    index_records d = Inr (map json_sorted (map index_item rs))"
proof -
  let ?fp = "(''fingerprint'', PStr (canonical_fingerprint sha [] (index_stable run rs)))"
  let ?d = "sorted_dict (index_stable run rs @ [?fp])"
  have doc: "json_sorted (index_document sha run rs) = PDict ?d"
    by (simp only: index_document_def json_sorted_PDict)
  have "filter (\<lambda>kv. fst kv \<noteq> ''fingerprint'') ?d = sorted_dict (index_stable run rs)"
    by (simp add: sorted_dict_def filter_sort index_stable_def)
  moreover have "read_json (st_index_bytes st) (JDoc (PDict ?d)) = Inr ?d"
    using assms(2) document_bytes_sorted [of "index_document sha run rs"] by (simp add: read_json_def read_sized_def doc)
  ultimately have "index_payload sha st run fs = Inr ?d"
    using assms(1,3)
    by (simp add: index_payload_def doc py_get_def fingerprint_sorted) (simp add: index_stable_def)
  moreover have "index_records ?d = Inr (map json_sorted (map index_item rs))"
    by (simp add: index_records_def py_get_def index_stable_def)
  ultimately show ?thesis by blast
qed

text \<open>Every index file is one that the store wrote: of its own run, and within the size limit.\<close>

definition indexes_ok :: "(string \<Rightarrow> string) \<Rightarrow> dlq_store_config \<Rightarrow> dlq_files \<Rightarrow> bool" where
  "indexes_ok sha st fs \<longleftrightarrow> (\<forall>run f. dict_get (df_indexes fs) run = Some f \<longrightarrow>
     (\<exists>listed. f = JDoc (json_sorted (index_document sha run listed)) \<and>
        document_bytes (index_document sha run listed) \<le> st_index_bytes st))"

lemma indexes_ok_cong: "df_indexes fs' = df_indexes fs \<Longrightarrow> indexes_ok sha st fs' = indexes_ok sha st fs"
  by (simp add: indexes_ok_def)

lemma refresh_indexes_ok:
  "refresh_index sha st run fs = (x, fs') \<Longrightarrow> indexes_ok sha st fs \<Longrightarrow> indexes_ok sha st fs'"
  by (auto simp: refresh_index_def indexes_ok_def Let_def not_less split: sum.splits if_splits)

lemma refresh_all_indexes_ok:
  "refresh_all sha st runs fs = (x, fs') \<Longrightarrow> indexes_ok sha st fs \<Longrightarrow> indexes_ok sha st fs'"
proof (induction runs arbitrary: fs)
  case (Cons run runs)
  then show ?case
    by (auto simp: io_bind_def split: prod.splits sum.splits intro: refresh_indexes_ok dest!: Cons.IH)
qed (simp add: io_return_def)

lemma delete_one_indexes: "df_indexes (fold delete_one rs fs) = df_indexes fs"
  by (induction rs arbitrary: fs) (simp_all add: delete_one_def record_delete_def)

lemma delete_many_indexes_ok:
  assumes "delete_many sha st rids fs = (x, fs')" "indexes_ok sha st fs"
  shows "indexes_ok sha st fs'"
  using assms indexes_ok_cong [OF delete_one_indexes]
  by (auto simp: delete_many_def split: sum.splits intro: refresh_all_indexes_ok)

lemma reach_indexes_ok: "store_reach sha st fs \<Longrightarrow> indexes_ok sha st fs"
proof (induction rule: store_reach.induct)
  case empty
  show ?case by (simp add: indexes_ok_def)
next
  case (append fs r x fs')
  with append_outcome [OF append.hyps(2)] show ?case by (auto simp: indexes_ok_def)
next
  case (acknowledge fs now r pid key x' fs')
  with acknowledge_records [OF acknowledge.hyps(2)] show ?case by (simp add: indexes_ok_def)
qed (auto intro: refresh_indexes_ok delete_many_indexes_ok)

definition index_drift :: py_exn where
  "index_drift = integrity_error ''DPONE_DLQ_INDEX_DRIFT: index does not match record artifacts''"

abbreviation listing :: "dlq_record list \<Rightarrow> (string \<times> string) list" where
  "listing rs \<equiv> map (\<lambda>r. (dr_id r, dr_sha r)) rs"

lemma store_records_indexed:
  assumes "component run = Inr run" "record_files sha st run fs = Inr rs"
    "dict_get (df_indexes fs) run = Some (JDoc (json_sorted (index_document sha run listed)))"
    "document_bytes (index_document sha run listed) \<le> st_index_bytes st"
  shows "store_records sha st run fs = (if listing listed = listing rs then Inr rs else Inl index_drift)"
proof -
  obtain d where "index_payload sha st run fs = Inr d" "index_records d = Inr (map json_sorted (map index_item listed))"
    using index_payload_written [OF assms(1,4,3)] by blast
  with assms(2,3) show ?thesis
    by (simp add: store_records_def index_validate_def index_drift_def indexed_pairs_items [simplified])
qed

text \<open>
  C32: after any operations on the store, completed or refused, the record files of every run are
  readable: the records come back in the order of their ids, each once, each in its own run, with
  a checksum that matches and a form that is valid, and they are the files of the run. The
  store's own read also compares them with the index of the run: it returns exactly these
  records when the run has no index or its index lists them, and otherwise, when the files have
  changed since the index was written, it refuses with \<open>INDEX_DRIFT\<close>. No other error occurs.
\<close>

theorem store_readable:
  assumes "store_reach sha st fs" "component run = Inr run"
  shows "\<exists>rs. record_files sha st run fs = Inr rs \<and> distinct (map dr_id rs) \<and> sorted (map dr_id rs) \<and>
    set (map dr_id rs) = set (run_keys run fs) \<and>
    (\<forall>r\<in>set rs. dr_run r = run \<and> record_check sha st r = Inr ()) \<and>
    (dict_get (df_indexes fs) run = None \<and> store_records sha st run fs = Inr rs \<or>
     (\<exists>listed. dict_get (df_indexes fs) run = Some (JDoc (json_sorted (index_document sha run listed))) \<and>
        store_records sha st run fs = (if listing listed = listing rs then Inr rs else Inl index_drift)))"
proof -
  note ok = reach_files_ok [OF assms(1)]
  obtain rs where rs: "record_files sha st run fs = Inr rs" using record_files_ok [OF ok assms(2)] by blast
  have "dict_get (df_indexes fs) run = None \<and> store_records sha st run fs = Inr rs \<or>
     (\<exists>listed. dict_get (df_indexes fs) run = Some (JDoc (json_sorted (index_document sha run listed))) \<and>
        store_records sha st run fs = (if listing listed = listing rs then Inr rs else Inl index_drift))"
  proof (cases "dict_get (df_indexes fs) run")
    case None
    with rs show ?thesis by (simp add: store_records_def index_validate_def)
  next
    case (Some f)
    with reach_indexes_ok [OF assms(1)] obtain listed where
      l: "dict_get (df_indexes fs) run = Some (JDoc (json_sorted (index_document sha run listed)))"
        "document_bytes (index_document sha run listed) \<le> st_index_bytes st"
      by (auto simp: indexes_ok_def)
    with store_records_indexed [OF assms(2) rs l] show ?thesis by blast
  qed
  with rs record_files_cases [OF ok rs] show ?thesis by blast
qed

definition locator :: "dlq_record \<Rightarrow> dlq_locator" where
  "locator r = \<lparr>dl_id = dr_id r, dl_ref = dr_ref r, dl_sha = dr_sha r\<rparr>"

definition hex_digests :: "(string \<Rightarrow> string) \<Rightarrow> bool" where
  "hex_digests sha \<longleftrightarrow> (\<forall>s. length (sha s) = 64 \<and> set (sha s) \<subseteq> set ''0123456789abcdef'')"

lemma hex_digest_ok: "hex_digests sha \<Longrightarrow> is_sha256_digest (''sha256:'' @ sha s)"
  by (fastforce simp: hex_digests_def is_sha256_digest_def py_startswith_def list_all_iff py_is_digit_def)

lemma locator_read:
  assumes "record_check sha st r = Inr ()" "hex_digests sha"
  shows "index_locator (json_sorted (index_item r)) = Inr (locator r)"
proof -
  from assms(1) have c: "component (dr_id r) = Inr (dr_id r)" "dr_sha r = record_fingerprint sha r"
      "record_validate r = Inr ()"
    by (auto simp: record_check_def component_def split: if_splits sum.splits py_exn.splits)
  then have "py_startswith (dr_ref r) ''dpone://''"
    by (auto simp: record_validate_def bind_res_eq_Inr guard_def record_ref_ok_def value_error_def split: if_splits)
  moreover from c have "is_sha256_digest (dr_sha r)"
    using assms(2) by (simp add: record_fingerprint_def canonical_fingerprint_def hex_digest_ok [simplified])
  ultimately show ?thesis
    using c(1)
    by (auto simp: index_locator_def index_item_def py_get_def str_or_empty_def py_str_def locator_def
        is_sha256_digest_def py_startswith_def component_def split: if_splits)
qed

lemma locators_read:
  "\<forall>r\<in>set rs. record_check sha st r = Inr () \<Longrightarrow> hex_digests sha \<Longrightarrow>
    map_res index_locator (map json_sorted (map index_item rs)) = Inr (map locator rs)"
  by (induction rs) (simp_all add: locator_read [where st = st and sha = sha])

text \<open>
  C33: a run that was finalized is read back under its index, and the replay plan of it starts
  from exactly its records: their ids, references and checksums in order. SHA-256 is used for
  the form of its digests only.
\<close>

theorem finalized_run_replayable:
  assumes "store_reach sha st fs" "refresh_index sha st run fs = (Inr ref, fs')" "hex_digests sha"
  shows "\<exists>rs. record_files sha st run fs = Inr rs \<and> store_records sha st run fs' = Inr rs \<and>
    replay_candidates sha st run fs' = Inr (map locator rs)"
proof -
  from assms(2) obtain rs where rs: "record_files sha st run fs = Inr rs"
    "document_bytes (index_document sha run rs) \<le> st_index_bytes st"
    "fs' = fs\<lparr>df_indexes := dict_set (df_indexes fs) run (JDoc (json_sorted (index_document sha run rs)))\<rparr>"
    by (auto simp: refresh_index_def Let_def split: sum.splits if_splits)
  have run: "component run = Inr run"
    using rs(1) by (auto simp: record_files_def component_def split: if_splits)
  obtain d where d: "index_payload sha st run fs' = Inr d"
    "index_records d = Inr (map json_sorted (map index_item rs))"
    using index_payload_written [OF run rs(2), of fs'] rs(3) by auto
  have "record_files sha st run fs' = Inr rs"
    using rs(1) by (simp add: rs(3) record_files_def run_files_def)
  then have "store_records sha st run fs' = Inr rs"
    using store_records_indexed [OF run _ _ rs(2), of fs' rs] rs(3) by simp
  moreover have "map_res index_locator (map json_sorted (map index_item rs)) = Inr (map locator rs)"
    using record_files_cases(4) [OF reach_files_ok [OF assms(1)] rs(1)] assms(3)
    by (intro locators_read) auto
  ultimately show ?thesis using rs(1) d by (simp add: replay_candidates_def)
qed

text \<open>
  C38: a run that was finalized takes no more letters: a record appended to it is written, but
  from then on the records of the run are refused as drifted from their index, so neither the
  next process that writes to the run nor retention can read it until it is finalized again.
\<close>

theorem append_after_finalize_drifts:
  assumes "store_reach sha st fs" "refresh_index sha st run fs = (Inr ref, fs1)"
    "record_append sha st r fs1 = (Inr r', fs2)" "dr_run r = run" "dr_id r \<notin> set (run_keys run fs)"
  shows "\<exists>rs. record_files sha st run fs2 = Inr rs \<and> dr_id r \<in> set (map dr_id rs) \<and>
    store_records sha st run fs2 = Inl index_drift"
proof -
  from assms(2) obtain rs where rs: "record_files sha st run fs = Inr rs"
    "document_bytes (index_document sha run rs) \<le> st_index_bytes st"
    "fs1 = fs\<lparr>df_indexes := dict_set (df_indexes fs) run (JDoc (json_sorted (index_document sha run rs)))\<rparr>"
    by (auto simp: refresh_index_def Let_def split: sum.splits if_splits)
  have run: "component run = Inr run"
    using rs(1) by (auto simp: record_files_def component_def split: if_splits)
  have "dict_get (df_records fs1) (run, dr_id r) = None"
    using assms(5) by (cases "dict_get (df_records fs1) (run, dr_id r)")
      (auto simp: rs(3) run_keys_def image_iff dest!: dict_get_mem)
  with append_outcome [OF assms(3)] assms(4) have fs2:
    "fs2 = fs1\<lparr>df_records := df_records fs1 @ [((run, dr_id r), JDoc (record_document r))]\<rparr>" by auto
  have ok: "files_ok sha st fs" "files_ok sha st fs2"
    using reach_files_ok [OF assms(1)] append_files_ok [OF assms(3)] by (auto simp: rs(3) files_ok_def)
  obtain rs2 where rs2: "record_files sha st run fs2 = Inr rs2" using record_files_ok [OF ok(2) run] by blast
  have ids: "set (map dr_id rs) = set (run_keys run fs)" "set (map dr_id rs2) = insert (dr_id r) (set (run_keys run fs))"
    using record_files_cases(3) [OF ok(1) rs(1)] record_files_cases(3) [OF ok(2) rs2]
    by (simp_all add: run_keys_def fs2 rs(3))
  then have "listing rs \<noteq> listing rs2"
    using assms(5) by (metis (no_types, lifting) insertI1 list.map_comp map_eq_conv o_def fst_conv map_map)
  then have "store_records sha st run fs2 = Inl index_drift"
    using store_records_indexed [OF run rs2 _ rs(2)] by (simp add: fs2 rs(3))
  with rs2 ids(2) show ?thesis by auto
qed

end
