(* ===== verification/Dlq_Delivery.thy ===== *)
theory Dlq_Delivery
  imports Dlq_Store_Proofs
begin

text \<open>
  Enforcement and queue together: what the rows that a contract rejects leave in the queue.

  The locale states what the enforcement needs of a writer: a write that returns has added one
  letter, a write that fails has added none, and nothing that was stored changes. The service of
  the program provides it while its identifiers are new.
\<close>

section \<open>The contract of a writer\<close>

definition rejected :: "'w enforcer \<Rightarrow> nat \<Rightarrow> cell_row list \<Rightarrow> (nat \<times> cell_row) list" where
  "rejected e i rows = filter (\<lambda>ir. \<not> row_conforms (ef_contract e) (snd ir)) (enumerate i rows)"

locale letter_box =
  fixes writer :: "'w dlq_writer"
    and letters :: "'w \<Rightarrow> dlq_record list"
    and ready :: "nat \<Rightarrow> 'w \<Rightarrow> bool"
    and letter_for :: "string \<Rightarrow> string \<Rightarrow> cell_row \<Rightarrow> nat \<Rightarrow> rejection \<Rightarrow> dlq_record \<Rightarrow> bool"
  assumes write_letter: "ready (Suc n) w \<Longrightarrow> dw_write writer run load row i rj w = (Inr rc, w') \<Longrightarrow>
      ready n w' \<and> (\<exists>l. letters w' = letters w @ [l] \<and> letter_for run load row i rj l \<and> wr_record_id rc = dr_id l)"
    and write_refused: "ready (Suc n) w \<Longrightarrow> dw_write writer run load row i rj w = (Inl x, w') \<Longrightarrow>
      letters w' = letters w"
    and finalize_keeps: "ready n w \<Longrightarrow> dw_finalize writer run w = (ref, w') \<Longrightarrow> letters w' = letters w"
    and ready_less: "ready (Suc n) w \<Longrightarrow> ready n w"
begin

definition row_letter :: "'w enforcer \<Rightarrow> nat \<times> cell_row \<Rightarrow> dlq_record \<Rightarrow> bool" where
  "row_letter e ir l = (\<exists>ds. check_columns e (fst ir) (contract_columns (ef_contract e)) (snd ir) True [] =
     Inr (snd ir, False, ds) \<and> letter_for (ef_run e) (ef_load e) (snd ir) (fst ir) (rejection_of ds) l)"

lemma row_cases:
  assumes "blocking e" "ef_writer e = Some writer" "sc_enforcement (ef_contract e) = EnforceQuarantine"
    "ready (Suc n) w" "enforce_row e i row a w = (x, w')"
  shows "(\<exists>a'. x = Inr a' \<and> ready n w' \<and> (if row_conforms (ef_contract e) row then letters w' = letters w \<and> ea_ids a' = ea_ids a
      else \<exists>l. letters w' = letters w @ [l] \<and> row_letter e (i, row) l \<and> ea_ids a' = ea_ids a @ [dr_id l])) \<or>
    (isl x \<and> letters w' = letters w)"
proof (cases "check_columns e i (contract_columns (ef_contract e)) row True []")
  case (Inl y)
  with assms(5) show ?thesis by (auto simp: enforce_row_def io_bind_def io_lift_def)
next
  case (Inr t)
  obtain row' valid ds where t: "t = (row', valid, ds)" by (cases t)
  note c = check_columns_blocking [OF assms(1) Inr [unfolded t]]
  then have v: "row' = row" "valid \<longleftrightarrow> row_conforms (ef_contract e) row"
    by (auto simp: row_conforms_def)
  show ?thesis
  proof (cases valid)
    case True
    with assms(4,5) Inr t v show ?thesis
      by (auto simp: enforce_row_def io_bind_def io_lift_def io_return_def Let_def intro: ready_less)
  next
    case False
    let ?m = "dw_write writer (ef_run e) (ef_load e) row i (rejection_of ds)"
    obtain y w1 where m: "?m w = (y, w1)" by (cases "?m w")
    have e: "enforce_row e i row a w = (case y of Inl z \<Rightarrow> (Inl z, w1) | Inr rc \<Rightarrow>
        (Inr (a\<lparr>ea_diagnostics := ea_diagnostics a @ ds, ea_quarantined := Suc (ea_quarantined a),
          ea_ids := ea_ids a @ [wr_record_id rc], ea_reasons := count_add (ea_reasons a) (wr_reason_code rc) 1\<rparr>), w1))"
      using Inr t v False m assms(2,3)
      by (simp add: enforce_row_def io_bind_def io_lift_def io_return_def Let_def put_quarantine_def split: sum.split)
    show ?thesis
    proof (cases y)
      case (Inl z)
      with e m assms(4,5) show ?thesis by (auto dest: write_refused)
    next
      case (Inr rc)
      with write_letter [OF assms(4) m [unfolded Inr]] e assms(5) v False t
        \<open>check_columns e i (contract_columns (ef_contract e)) row True [] = Inr t\<close>
      show ?thesis by (auto simp: row_letter_def)
    qed
  qed
qed

lemma rows_delivered:
  assumes "blocking e" "ef_writer e = Some writer" "sc_enforcement (ef_contract e) = EnforceQuarantine"
    "ready (length rows) w" "enforce_rows e i rows a w = (x, w')"
  shows "\<exists>new n. letters w' = letters w @ new \<and> list_all2 (row_letter e) (take n (rejected e i rows)) new \<and>
    (\<forall>a'. x = Inr a' \<longrightarrow> ready 0 w' \<and> length new = length (rejected e i rows) \<and> ea_ids a' = ea_ids a @ map dr_id new)"
  using assms(4,5)
proof (induction rows arbitrary: i a w)
  case Nil
  then show ?case by (intro exI [of _ "[]"]) (auto simp: io_return_def rejected_def)
next
  case (Cons row rows)
  obtain y w1 where y: "enforce_row e i row a w = (y, w1)" by (cases "enforce_row e i row a w")
  from Cons.prems(1) have ready: "ready (Suc (length rows)) w" by simp
  note r = row_cases [OF assms(1-3) ready y]
  show ?case
  proof (cases y)
    case (Inl z)
    with r y Cons.prems(2) show ?thesis
      by (intro exI [of _ "[]"] exI [of _ 0]) (auto simp: io_bind_def)
  next
    case (Inr b)
    with y Cons.prems(2) have rest: "enforce_rows e (Suc i) rows b w1 = (x, w')" by (simp add: io_bind_def)
    from r Inr have "ready (length rows) w1" by auto
    from Cons.IH [OF this rest] obtain new n where ih: "letters w' = letters w1 @ new"
      "list_all2 (row_letter e) (take n (rejected e (Suc i) rows)) new"
      "\<forall>a'. x = Inr a' \<longrightarrow> ready 0 w' \<and> length new = length (rejected e (Suc i) rows) \<and> ea_ids a' = ea_ids b @ map dr_id new"
      by blast
    show ?thesis
    proof (cases "row_conforms (ef_contract e) row")
      case True
      with r Inr ih show ?thesis by (intro exI [of _ new] exI [of _ n]) (auto simp: rejected_def)
    next
      case False
      with r Inr obtain l where "letters w1 = letters w @ [l]" "row_letter e (i, row) l" "ea_ids b = ea_ids a @ [dr_id l]"
        by auto
      with False ih show ?thesis
        by (intro exI [of _ "l # new"] exI [of _ "Suc n"]) (auto simp: rejected_def)
    qed
  qed
qed

lemma letters_delivered:
  assumes "blocking e" "ef_writer e = Some writer" "sc_enforcement (ef_contract e) = EnforceQuarantine"
    "ready (length rows) w" "enforce e i fin rows w = (x, w')"
  shows "\<exists>new n. letters w' = letters w @ new \<and> list_all2 (row_letter e) (take n (rejected e i rows)) new \<and>
    (\<forall>r. x = Inr r \<longrightarrow> length new = length (rejected e i rows) \<and> er_dlq_ids r = map dr_id new)"
proof -
  obtain y w1 where y: "enforce_rows e i rows empty_acc w = (y, w1)"
    by (cases "enforce_rows e i rows empty_acc w")
  from rows_delivered [OF assms(1-4) y] obtain new n where new: "letters w1 = letters w @ new"
    "list_all2 (row_letter e) (take n (rejected e i rows)) new"
    "\<forall>a'. y = Inr a' \<longrightarrow> ready 0 w1 \<and> length new = length (rejected e i rows) \<and> ea_ids a' = map dr_id new"
    by (auto simp: empty_acc_def)
  show ?thesis
  proof (cases y)
    case (Inl z)
    with new y assms(5) show ?thesis by (auto simp: enforce_def io_bind_def)
  next
    case (Inr a)
    with new have "ready 0 w1" by blast
    then have "letters w2 = letters w1" if "enforce_index_ref e b w1 = (z, w2)" for b z w2
      using that assms(2) finalize_keeps
      by (auto simp: enforce_index_ref_def io_bind_def io_return_def split: if_splits prod.splits sum.splits)
    with new y Inr assms(5) show ?thesis
      by (intro exI [of _ new] exI [of _ n]) (auto simp: enforce_def io_bind_def io_return_def
          split: prod.splits sum.splits)
  qed
qed

end

section \<open>The service of the program\<close>

definition stored_letters :: "(string \<Rightarrow> string) \<Rightarrow> dlq_store_config \<Rightarrow> dlq_world \<Rightarrow> dlq_record list" where
  "stored_letters sha st w = map (record_at sha st) (df_records (qw_files w))"

definition drawn_id :: "dlq_world \<Rightarrow> nat \<Rightarrow> string" where
  "drawn_id w k = (case qw_supply w k of (millis, entropy, _) \<Rightarrow> new_ulid millis entropy)"

text \<open>The next \<open>n\<close> identifiers are new, to each other and to the store.\<close>

definition fresh_ids :: "nat \<Rightarrow> dlq_world \<Rightarrow> bool" where
  "fresh_ids n w \<longleftrightarrow>
     (let ids = map (drawn_id w) [qw_drawn w ..< qw_drawn w + n] in
      distinct ids \<and> set ids \<inter> (\<lambda>kf. snd (fst kf)) ` set (df_records (qw_files w)) = {})"

definition queue_ready :: "(string \<Rightarrow> string) \<Rightarrow> dlq_store_config \<Rightarrow> nat \<Rightarrow> dlq_world \<Rightarrow> bool" where
  "queue_ready sha st n w \<longleftrightarrow> files_ok sha st (qw_files w) \<and> fresh_ids n w"

definition letter_of ::
  "dlq_policy \<Rightarrow> string \<Rightarrow> string \<Rightarrow> cell_row \<Rightarrow> nat \<Rightarrow> rejection \<Rightarrow> dlq_record \<Rightarrow> bool" where
  "letter_of p run load row i rj l \<longleftrightarrow>
     dr_run l = run \<and> dr_load l = load \<and> dr_ref l = default_ref run load i \<and>
     dr_reason l = registered_reason (rj_code rj) (rj_stage rj) (rj_column rj) \<and>
     dr_replayable l \<and> \<not> dr_acknowledged l \<and> dr_pii l = dp_pii p \<and>
     (\<exists>ds. safe_diagnostics (rj_diagnostics rj) = Inr ds \<and> dr_diagnostics l = sorted_dict ds) \<and>
     (\<exists>v. project_payload row (dp_pii p) = Inr v \<and> dr_value l = json_sorted v)"

lemma run_count_outcome:
  "run_count sha st run w = (x, w') \<Longrightarrow>
    qw_files w' = qw_files w \<and> qw_supply w' = qw_supply w \<and> qw_drawn w' = qw_drawn w"
  by (auto simp: run_count_def split: option.splits sum.splits)

lemma queue_ready_cong:
  "qw_files w' = qw_files w \<Longrightarrow> qw_supply w' = qw_supply w \<Longrightarrow> qw_drawn w' = qw_drawn w \<Longrightarrow>
    queue_ready sha st n w' = queue_ready sha st n w"
  by (simp add: queue_ready_def fresh_ids_def drawn_id_def [abs_def])

lemma fresh_ids_Suc:
  "fresh_ids (Suc n) w \<longleftrightarrow> fresh_ids n w \<and>
    drawn_id w (qw_drawn w + n) \<notin> drawn_id w ` {qw_drawn w ..< qw_drawn w + n} \<and>
    drawn_id w (qw_drawn w + n) \<notin> (\<lambda>kf. snd (fst kf)) ` set (df_records (qw_files w))"
  by (auto simp: fresh_ids_def Let_def)

lemma fresh_ids_less: "fresh_ids (Suc n) w \<Longrightarrow> fresh_ids n w"
  by (simp add: fresh_ids_Suc)

lemma upt_front: "[k ..< k + Suc n] = k # [Suc k ..< Suc k + n]"
  by (subst upt_rec) simp

lemma fresh_ids_now:
  "fresh_ids (Suc n) w \<Longrightarrow> drawn_id w (qw_drawn w) \<notin> (\<lambda>kf. snd (fst kf)) ` set (df_records (qw_files w))"
  unfolding fresh_ids_def Let_def upt_front by simp

lemma fresh_ids_step:
  assumes "fresh_ids (Suc n) w"
    and "df_records fs = df_records (qw_files w) @ [((run, drawn_id w (qw_drawn w)), f)]"
  shows "fresh_ids n (w\<lparr>qw_files := fs, qw_counts := c, qw_drawn := Suc (qw_drawn w)\<rparr>)"
proof -
  let ?w = "w\<lparr>qw_files := fs, qw_counts := c, qw_drawn := Suc (qw_drawn w)\<rparr>"
  have "drawn_id ?w = drawn_id w" by (simp add: drawn_id_def fun_eq_iff)
  with assms show ?thesis unfolding fresh_ids_def Let_def upt_front by auto
qed

lemma build_record_outcome:
  assumes "build_record sha p s run load row reason ds i = Inr r"
  shows "dr_id r = (case s of (millis, entropy, _) \<Rightarrow> new_ulid millis entropy) \<and> dr_run r = run \<and> dr_load r = load \<and>
    dr_ref r = default_ref run load i \<and> dr_reason r = reason \<and> dr_pii r = dp_pii p \<and>
    project_payload row (dp_pii p) = Inr (dr_value r) \<and> dr_replayable r \<and> \<not> dr_acknowledged r \<and> dr_diagnostics r = ds"
  using assms by (cases s) (auto simp: build_record_def bind_res_eq_Inr dest!: created_record)

lemma put_outcome:
  assumes "queue_ready sha st (Suc n) w" "dlq_put sha p st run load row reason raw i w = (x, w')"
  shows "(isl x \<and> qw_files w' = qw_files w) \<or>
    (\<exists>r ds c. x = Inr r \<and> safe_diagnostics raw = Inr ds \<and> storable sha st r \<and>
       build_record sha p (qw_supply w (qw_drawn w)) run load row reason ds i = Inr r \<and>
       w' = w\<lparr>qw_files := (qw_files w)\<lparr>df_records := df_records (qw_files w) @ [((dr_run r, dr_id r), JDoc (record_document r))]\<rparr>,
         qw_counts := c, qw_drawn := Suc (qw_drawn w)\<rparr>)"
proof -
  obtain y w1 where y: "run_count sha st run w = (y, w1)" by (cases "run_count sha st run w")
  note c = run_count_outcome [OF y]
  have new: "dict_get (df_records (qw_files w)) (dr_run r, dr_id r) = None"
    if "build_record sha p (qw_supply w (qw_drawn w)) run load row reason ds i = Inr r" for r ds
  proof -
    have "dr_id r = drawn_id w (qw_drawn w)"
      using build_record_outcome [OF that] by (simp add: drawn_id_def)
    with assms(1) have "dr_id r \<notin> (\<lambda>kf. snd (fst kf)) ` set (df_records (qw_files w))"
      using fresh_ids_now [of n w] by (simp add: queue_ready_def)
    then show ?thesis by (cases "dict_get (df_records (qw_files w)) (dr_run r, dr_id r)") (force dest: dict_get_mem)+
  qed
  show ?thesis
  proof (cases "isl x")
    case True
    with y c assms(2) show ?thesis
      by (auto simp: dlq_put_def io_bind_def io_lift_def io_raise_def Let_def
          split: sum.splits if_splits prod.splits dest: append_outcome)
  next
    case False
    then obtain r where x: "x = Inr r" by (cases x) auto
    with y c assms(2) obtain ds count r' fs where p: "safe_diagnostics raw = Inr ds"
      "build_record sha p (qw_supply w (qw_drawn w)) run load row reason ds i = Inr r'"
      "record_append sha st r' (qw_files w) = (Inr r, fs)"
      "w' = w1\<lparr>qw_drawn := Suc (qw_drawn w), qw_files := fs, qw_counts := dict_set (qw_counts w1) run (Suc count)\<rparr>"
      by (auto simp: dlq_put_def io_bind_def io_lift_def io_raise_def Let_def
          split: sum.splits if_splits prod.splits)
    from append_outcome [OF p(3)] new [OF p(2)] have "r' = r" "storable sha st r"
      "fs = (qw_files w)\<lparr>df_records := df_records (qw_files w) @ [((dr_run r, dr_id r), JDoc (record_document r))]\<rparr>"
      by auto
    moreover have "w1\<lparr>qw_drawn := Suc (qw_drawn w), qw_files := fs, qw_counts := k\<rparr> =
        w\<lparr>qw_files := fs, qw_counts := k, qw_drawn := Suc (qw_drawn w)\<rparr>" for fs k
      using c by (cases w, cases w1) simp
    ultimately show ?thesis using p x by auto
  qed
qed

lemma service_writes:
  assumes "queue_ready sha st (Suc n) w" "dw_write (dlq_service sha p st) run load row i rj w = (x, w')"
  shows "isl x \<and> stored_letters sha st w' = stored_letters sha st w \<or>
    (\<exists>rc l. x = Inr rc \<and> queue_ready sha st n w' \<and> stored_letters sha st w' = stored_letters sha st w @ [l] \<and>
      letter_of p run load row i rj l \<and> wr_record_id rc = dr_id l)"
proof -
  let ?reason = "registered_reason (rj_code rj) (rj_stage rj) (rj_column rj)"
  obtain y w1 where y: "dlq_put sha p st run load row ?reason (rj_diagnostics rj) i w = (y, w1)" by fastforce
  have x: "w' = w1 \<and> x = map_sum id (\<lambda>r. \<lparr>wr_record_id = dr_id r, wr_reason_code = ds_code (dr_reason r)\<rparr>) y"
    using assms(2) y by (cases y) (auto simp: dlq_service_def write_rejected_def io_bind_def io_return_def)
  from put_outcome [OF assms(1) y] show ?thesis
  proof (elim disjE exE conjE)
    fix r ds c
    assume r: "y = Inr r" "safe_diagnostics (rj_diagnostics rj) = Inr ds" "storable sha st r"
      "build_record sha p (qw_supply w (qw_drawn w)) run load row ?reason ds i = Inr r"
      "w1 = w\<lparr>qw_files := (qw_files w)\<lparr>df_records := df_records (qw_files w) @
          [((dr_run r, dr_id r), JDoc (record_document r))]\<rparr>, qw_counts := c, qw_drawn := Suc (qw_drawn w)\<rparr>"
    note b = build_record_outcome [OF r(4)]
    have rid: "dr_id r = drawn_id w (qw_drawn w)" using b by (simp add: drawn_id_def)
    have "files_ok sha st (qw_files w1)"
      using assms(1) r(3,5) fresh_ids_now [of n w] rid
      by (force simp: queue_ready_def files_ok_def record_file_ok_def)
    moreover have "fresh_ids n w1"
      using assms(1) rid unfolding r(5) by (intro fresh_ids_step) (auto simp: queue_ready_def)
    moreover have "stored_letters sha st w1 = stored_letters sha st w @ [sorted_record r]"
      using read_stored [OF r(3)] by (simp add: r(5) stored_letters_def record_at_def)
    moreover have "letter_of p run load row i rj (sorted_record r)"
      using b r(2) by (auto simp: letter_of_def)
    ultimately show ?thesis using x r(1) by (auto simp: queue_ready_def)
  qed (use x in \<open>cases y; auto simp: stored_letters_def\<close>)
qed

lemma service_finalizes:
  "dw_finalize (dlq_service sha p st) run w = (ref, w') \<Longrightarrow> stored_letters sha st w' = stored_letters sha st w"
  by (auto simp: dlq_service_def dlq_summarize_def on_files_def io_bind_def io_return_def stored_letters_def
      split: prod.splits sum.splits dest!: refresh_records)

interpretation queue: letter_box "dlq_service sha p st" "stored_letters sha st" "queue_ready sha st" "letter_of p"
  for sha p st
  by unfold_locales
    (fastforce dest: service_writes service_finalizes simp: queue_ready_def intro: fresh_ids_less)+

section \<open>Dead letters\<close>

definition dead_letter :: "'w enforcer \<Rightarrow> dlq_policy \<Rightarrow> nat \<times> cell_row \<Rightarrow> dlq_record \<Rightarrow> bool" where
  "dead_letter e p ir l \<longleftrightarrow>
     dr_run l = ef_run e \<and> dr_load l = ef_load e \<and> dr_ref l = default_ref (ef_run e) (ef_load e) (fst ir) \<and>
     dr_replayable l \<and> \<not> dr_acknowledged l \<and>
     (\<exists>c. find (\<lambda>c. \<not> cell_conforms (row_get (snd ir) (cc_name c)) c) (contract_columns (ef_contract e)) = Some c \<and>
        dr_reason l = registered_reason (reason_of (row_get (snd ir) (cc_name c)) c) ''contract_enforcement''
          (Some (cc_name c))) \<and>
     (\<exists>v. project_payload (snd ir) (dp_pii p) = Inr v \<and> dr_value l = json_sorted v)"

lemma check_columns_prefix:
  "check_columns e i cs row v ds = Inr (row', v', ds') \<Longrightarrow> \<exists>xs. ds' = ds @ xs"
  by (induction cs arbitrary: row v ds)
    (fastforce simp: bind_res_eq_Inr Let_def split: prod.splits if_splits)+

lemma check_columns_first:
  assumes "blocking e" "check_columns e i cs row True [] = Inr (row', False, ds)"
  shows "\<exists>c msg xs. find (\<lambda>c. \<not> cell_conforms (row_get row (cc_name c)) c) cs = Some c \<and>
    ds = diagnose e i c (row_get row (cc_name c)) msg # xs"
  using assms(2)
proof (induction cs)
  case (Cons c cs)
  from Cons.prems obtain ok msg where v: "validate_value (row_get row (cc_name c)) c = Inr (ok, msg)"
    by (auto simp: bind_res_eq_Inr Let_def)
  show ?case
  proof (cases ok)
    case True
    with v Cons show ?thesis by (auto simp: cell_conforms_def)
  next
    case False
    with v Cons.prems assms(1)
    have "check_columns e i cs row False [diagnose e i c (row_get row (cc_name c)) msg] = Inr (row', False, ds)"
      by (auto simp: Let_def blocking_def)
    from check_columns_prefix [OF this] v False show ?thesis by (auto simp: cell_conforms_def)
  qed
qed simp

lemma row_letter_dead:
  "blocking e \<Longrightarrow> queue.row_letter p e ir l \<Longrightarrow> dead_letter e p ir l"
  by (auto simp: queue.row_letter_def letter_of_def dead_letter_def rejection_of_def diagnose_def
      dest!: check_columns_first)

text \<open>
  C7: whether an enforcement with a quarantine returns or fails, the letters stored before it
  stay as they are and the new ones are, in order and one each, those of the first rejected
  rows: readable from disk, with the reference of the row, the column that conflicts first and
  the payload that the policy allows. When it returns, every rejected row has its letter, and
  the result lists exactly their identifiers.
\<close>

theorem dead_letters_stored:
  assumes "ef_writer e = Some (dlq_service sha p st)" "sc_enforcement (ef_contract e) = EnforceQuarantine"
    "ef_policy e \<noteq> ConflictVariant" "queue_ready sha st (length rows) w" "enforce e i fin rows w = (x, w')"
  shows "\<exists>new n. stored_letters sha st w' = stored_letters sha st w @ new \<and>
    list_all2 (dead_letter e p) (take n (rejected e i rows)) new \<and>
    (\<forall>r. x = Inr r \<longrightarrow> length new = length (rejected e i rows) \<and> er_dlq_ids r = map dr_id new)"
proof -
  have b: "blocking e" using assms(2,3) by (simp add: blocking_iff)
  from queue.letters_delivered [OF b assms(1,2,4,5)] obtain new n where new:
    "stored_letters sha st w' = stored_letters sha st w @ new"
    "list_all2 (queue.row_letter p e) (take n (rejected e i rows)) new"
    "\<forall>r. x = Inr r \<longrightarrow> length new = length (rejected e i rows) \<and> er_dlq_ids r = map dr_id new"
    by blast
  from new(2) have "list_all2 (dead_letter e p) (take n (rejected e i rows)) new"
    by (rule list_all2_mono) (rule row_letter_dead [OF b])
  with new(1,3) show ?thesis by blast
qed

end
