(* ===== verification/Dlq_Privacy.thy ===== *)
theory Dlq_Privacy
  imports Dlq_Delivery
begin

text \<open>
  Privacy of the dead-letter queue: as long as its policy does not preserve payloads, the files
  it leaves and the evidence of the enforcement are a function of the shape of the rejected
  rows, not of their values.
\<close>

section \<open>Rows that look alike\<close>

text \<open>
  Two rows that look alike to the queue: the same verdict on every column, the same types, and
  the same masked payload where payloads are kept masked.
\<close>

definition cell_alike :: "column_contract \<Rightarrow> cell \<Rightarrow> cell \<Rightarrow> bool" where
  "cell_alike c v v' \<longleftrightarrow>
     map_sum id fst (validate_value v c) = map_sum id fst (validate_value v' c) \<and>
     actual_type v = actual_type v' \<and> (v = CNull \<longleftrightarrow> v' = CNull)"

definition row_alike :: "schema_contract \<Rightarrow> pii_policy \<Rightarrow> cell_row \<Rightarrow> cell_row \<Rightarrow> bool" where
  "row_alike k p row row' \<longleftrightarrow>
     (\<forall>c\<in>set (contract_columns k). cell_alike c (row_get row (cc_name c)) (row_get row' (cc_name c))) \<and>
     (p = PiiMasked \<longrightarrow> mask_cell (CDict row) = mask_cell (CDict row')) \<and> p \<noteq> PiiPreserve"

text \<open>A diagnostic without the text of the value, and a result without it and the accepted rows.\<close>

definition masked :: "contract_diagnostic \<Rightarrow> contract_diagnostic" where
  "masked d = d\<lparr>dg_actual_value := []\<rparr>"

definition without_values :: "enforcement_result \<Rightarrow> enforcement_result" where
  "without_values r = r\<lparr>er_rows := map (\<lambda>_. []) (er_rows r), er_diagnostics := map masked (er_diagnostics r)\<rparr>"

lemma masked_fields:
  assumes "masked d = masked d'"
  shows "dg_row_index d = dg_row_index d'" "dg_column d = dg_column d'" "dg_action d = dg_action d'"
    "dg_message d = dg_message d'" "dg_expected_type d = dg_expected_type d'" "dg_reason_code d = dg_reason_code d'"
    "dg_actual_type d = dg_actual_type d'"
  using arg_cong [OF assms, of dg_row_index] arg_cong [OF assms, of dg_column] arg_cong [OF assms, of dg_action]
    arg_cong [OF assms, of dg_message] arg_cong [OF assms, of dg_expected_type] arg_cong [OF assms, of dg_reason_code]
    arg_cong [OF assms, of dg_actual_type]
  by (simp_all add: masked_def)

lemma validate_message:
  "validate_value v c = Inr (ok, m) \<Longrightarrow> validate_value v' c = Inr (ok', m') \<Longrightarrow> (v = CNull \<longleftrightarrow> v' = CNull) \<Longrightarrow> m = m'"
  by (auto simp: validate_value_def validate_typed_def Let_def map_sum_eq_Inr split: if_splits)

lemma check_columns_alike:
  assumes "ef_policy e \<noteq> ConflictVariant"
    "\<forall>c\<in>set cs. cell_alike c (row_get row (cc_name c)) (row_get row' (cc_name c))"
    "map masked ds = map masked ds'"
  shows "rel_sum (=) (\<lambda>(r, v, xs) (r', v', xs'). r = row \<and> r' = row' \<and> v = v' \<and> map masked xs = map masked xs')
    (check_columns e i cs row valid ds) (check_columns e i cs row' valid ds')"
  using assms(2,3)
proof (induction cs arbitrary: valid ds ds')
  case (Cons c cs)
  from assms(1) have a: "enforce_action (sc_enforcement (ef_contract e)) (ef_policy e) \<noteq> ActionVariant"
    by (auto simp: enforce_action_def)
  let ?v = "row_get row (cc_name c)" and ?v' = "row_get row' (cc_name c)"
  from Cons.prems(1) have c: "cell_alike c ?v ?v'" by simp
  have "masked (diagnose e i c ?v m) = masked (diagnose e i c ?v' m)" for m
    using c by (auto simp: masked_def diagnose_def reason_of_def cell_alike_def)
  then have d: "map masked (ds @ [diagnose e i c ?v m]) = map masked (ds' @ [diagnose e i c ?v' m])" for m
    using Cons.prems(2) by simp
  show ?case
  proof (cases "validate_value ?v c")
    case (Inl x)
    with c show ?thesis by (cases "validate_value ?v' c") (auto simp: cell_alike_def)
  next
    case (Inr y)
    with c obtain ok m m' where v: "validate_value ?v c = Inr (ok, m)" "validate_value ?v' c = Inr (ok, m')"
      by (cases y; cases "validate_value ?v' c") (auto simp: cell_alike_def)
    with validate_message [OF v] c have "m' = m" by (simp add: cell_alike_def)
    with v Cons d a show ?thesis by (auto simp: Let_def)
  qed
qed simp

lemma rejection_alike:
  assumes "map masked ds = map masked ds'"
  shows "rejection_of ds = rejection_of ds'"
proof (cases ds)
  case (Cons d xs)
  with assms obtain d' xs' where "ds' = d' # xs'" "masked d = masked d'" by (cases ds') auto
  with Cons masked_fields [OF this(2)] show ?thesis by (simp add: rejection_of_def)
qed (use assms in simp)

lemma payload_alike: "row_alike k p row row' \<Longrightarrow> project_payload row p = project_payload row' p"
  by (cases p) (auto simp: row_alike_def project_payload_def)

lemma write_alike:
  assumes "row_alike k (dp_pii p) row row'"
  shows "dw_write (dlq_service sha p st) run load row i rj = dw_write (dlq_service sha p st) run load row' i rj"
proof -
  have "build_record sha p s run load row reason ds i = build_record sha p s run load row' reason ds i" for s reason ds
    by (simp add: build_record_def payload_alike [OF assms])
  then show ?thesis by (simp add: dlq_service_def write_rejected_def dlq_put_def cong: if_cong)
qed

definition acc_alike :: "enforce_acc \<Rightarrow> enforce_acc \<Rightarrow> bool" where
  "acc_alike a a' \<longleftrightarrow> ea_ids a = ea_ids a' \<and> ea_reasons a = ea_reasons a' \<and> ea_rejected a = ea_rejected a' \<and>
     ea_quarantined a = ea_quarantined a' \<and> length (ea_rows a) = length (ea_rows a') \<and>
     map masked (ea_diagnostics a) = map masked (ea_diagnostics a')"

lemma alike_bind:
  assumes "snd (m w) = snd (m' w)" "rel_sum (=) R (fst (m w)) (fst (m' w))"
    "\<And>a a' w. R a a' \<Longrightarrow> snd (f a w) = snd (f' a' w) \<and> rel_sum (=) S (fst (f a w)) (fst (f' a' w))"
  shows "snd (io_bind m f w) = snd (io_bind m' f' w) \<and>
    rel_sum (=) S (fst (io_bind m f w)) (fst (io_bind m' f' w))"
  using assms by (auto simp: io_bind_def split: prod.split elim!: rel_sum.cases)

lemma enforce_row_alike:
  assumes "ef_writer e = Some (dlq_service sha p st)" "ef_policy e \<noteq> ConflictVariant"
    "row_alike (ef_contract e) (dp_pii p) row row'" "acc_alike a a'"
  shows "snd (enforce_row e i row a w) = snd (enforce_row e i row' a' w) \<and>
    rel_sum (=) acc_alike (fst (enforce_row e i row a w)) (fst (enforce_row e i row' a' w))"
proof -
  let ?c = "\<lambda>r. check_columns e i (contract_columns (ef_contract e)) r True []"
  have rel: "rel_sum (=) (\<lambda>(r, v, xs) (r', v', xs'). r = row \<and> r' = row' \<and> v = v' \<and> map masked xs = map masked xs')
      (?c row) (?c row')"
    using assms(2,3) by (intro check_columns_alike) (auto simp: row_alike_def)
  show ?thesis
  proof (cases "?c row")
    case (Inl x)
    with rel show ?thesis by (cases "?c row'") (auto simp: enforce_row_def io_bind_def io_lift_def)
  next
    case (Inr t)
    with rel obtain v xs xs' where t: "?c row = Inr (row, v, xs)" "?c row' = Inr (row', v, xs')"
      "map masked xs = map masked xs'"
      by (cases t; cases "?c row'") auto
    have "put_quarantine e row xs i = put_quarantine e row' xs' i"
      using assms(1) rejection_alike [OF t(3)] write_alike [OF assms(3)] by (simp add: put_quarantine_def)
    with t assms(4) show ?thesis
      by (cases "put_quarantine e row' xs' i w")
        (auto simp: enforce_row_def io_bind_def io_lift_def io_return_def Let_def acc_alike_def split: sum.split)
  qed
qed

lemma enforce_rows_alike:
  assumes "ef_writer e = Some (dlq_service sha p st)" "ef_policy e \<noteq> ConflictVariant"
    "list_all2 (row_alike (ef_contract e) (dp_pii p)) rows rows'" "acc_alike a a'"
  shows "snd (enforce_rows e i rows a w) = snd (enforce_rows e i rows' a' w) \<and>
    rel_sum (=) acc_alike (fst (enforce_rows e i rows a w)) (fst (enforce_rows e i rows' a' w))"
  using assms(3,4)
proof (induction rows rows' arbitrary: i a a' w rule: list_all2_induct)
  case (Cons row rows row' rows')
  show ?case
    unfolding enforce_rows.simps
    by (rule alike_bind [where R = acc_alike])
      (use enforce_row_alike [OF assms(1,2) Cons.hyps(1) Cons.prems] Cons.IH in blast)+
qed (simp add: io_return_def)

definition result_alike :: "enforcement_result \<Rightarrow> enforcement_result \<Rightarrow> bool" where
  "result_alike r r' \<longleftrightarrow> without_values r = without_values r' \<and> result_to_evidence r = result_to_evidence r'"

lemma masked_evidence: "masked d = masked d' \<Longrightarrow> diagnostic_to_evidence d = diagnostic_to_evidence d'"
  by (simp add: diagnostic_to_evidence_def masked_fields [of d d'])

lemma masked_list_evidence:
  "map masked ds = map masked ds' \<Longrightarrow> map diagnostic_to_evidence ds = map diagnostic_to_evidence ds'"
  by (induction ds ds' rule: list_induct2') (auto dest: masked_evidence)

lemma result_of_alike:
  assumes "acc_alike a a'"
  shows "result_alike (result_of a ref) (result_of a' ref)"
proof -
  have "map (\<lambda>_. []) (ea_rows a) = map (\<lambda>_. []) (ea_rows a')"
    using assms by (simp add: acc_alike_def map_replicate_const)
  with assms masked_list_evidence [of "ea_diagnostics a" "ea_diagnostics a'"] show ?thesis
    by (simp add: acc_alike_def result_alike_def without_values_def result_to_evidence_def result_of_def accepted_rows_def)
qed

lemma enforce_result_of:
  "enforce e off fin rows = io_bind (enforce_rows e off rows empty_acc) (\<lambda>a.
     io_bind (enforce_index_ref e (ea_ids a \<noteq> [] \<and> fin)) (\<lambda>ref. io_return (result_of a ref)))"
  by (simp add: enforce_def result_of_def)

lemma enforce_alike:
  assumes "ef_writer e = Some (dlq_service sha p st)" "ef_policy e \<noteq> ConflictVariant"
    "list_all2 (row_alike (ef_contract e) (dp_pii p)) rows rows'"
  shows "snd (enforce e i fin rows w) = snd (enforce e i fin rows' w) \<and>
    rel_sum (=) result_alike (fst (enforce e i fin rows w)) (fst (enforce e i fin rows' w))"
  unfolding enforce_result_of
proof (rule alike_bind [where R = acc_alike])
  have "acc_alike empty_acc empty_acc" by (simp add: acc_alike_def)
  note rows = enforce_rows_alike [OF assms this, of i w]
  then show "snd (enforce_rows e i rows empty_acc w) = snd (enforce_rows e i rows' empty_acc w)"
    "rel_sum (=) acc_alike (fst (enforce_rows e i rows empty_acc w)) (fst (enforce_rows e i rows' empty_acc w))"
    by blast+
next
  fix a a' w assume a: "acc_alike a a'"
  then have "ea_ids a' = ea_ids a" by (simp add: acc_alike_def)
  with a show "snd (io_bind (enforce_index_ref e (ea_ids a \<noteq> [] \<and> fin)) (\<lambda>ref. io_return (result_of a ref)) w) =
      snd (io_bind (enforce_index_ref e (ea_ids a' \<noteq> [] \<and> fin)) (\<lambda>ref. io_return (result_of a' ref)) w) \<and>
    rel_sum (=) result_alike
      (fst (io_bind (enforce_index_ref e (ea_ids a \<noteq> [] \<and> fin)) (\<lambda>ref. io_return (result_of a ref)) w))
      (fst (io_bind (enforce_index_ref e (ea_ids a' \<noteq> [] \<and> fin)) (\<lambda>ref. io_return (result_of a' ref)) w))"
    by (auto simp: io_bind_def io_return_def result_of_alike split: prod.split sum.split)
qed

text \<open>
  C22: what an enforcement leaves in the queue and in the durable evidence does not depend on the
  values of the rows. Let the payload policy be one that does not preserve payloads and the
  conflict policy not be \<open>variant_column\<close>. Rows that agree in the types and verdicts of their
  columns, and in the masked payload where the policy masks, give the same files and the same
  evidence (\<open>to_evidence_dict\<close>), and the same result in memory up to the accepted rows and the
  field \<open>actual_value\<close> of the diagnostics, which holds the text of the value.
\<close>

theorem rejected_values_private:
  assumes "ef_writer e = Some (dlq_service sha p st)" "ef_policy e \<noteq> ConflictVariant"
    "list_all2 (row_alike (ef_contract e) (dp_pii p)) rows rows'"
    "enforce e i fin rows w = (x, w1)" "enforce e i fin rows' w = (x', w1')"
  shows "w1 = w1' \<and> rel_sum (=) result_alike x x'"
  using enforce_alike [OF assms(1-3), of i fin w] by (simp add: assms(4,5))

section \<open>An example\<close>

definition example_queue :: dlq_world where
  "example_queue = \<lparr>qw_files = \<lparr>df_records = [], df_acks = [], df_indexes = []\<rparr>, qw_counts = [],
     qw_supply = (\<lambda>n. (int n, 0, 86400000000)), qw_drawn = 0\<rparr>"

definition example_digest :: "string \<Rightarrow> string" where
  "example_digest s = replicate 64 CHR ''0''"

definition example_resolve :: "string \<Rightarrow> string" where
  "example_resolve d = ''/work/'' @ d"

definition example_service :: "dlq_world dlq_writer" where
  "example_service = dlq_service example_digest dlq_policy_default (dlq_config example_resolve dlq_policy_default)"

definition example_quarantine :: "dlq_world enforcer" where
  "example_quarantine =
     \<lparr>ef_writer = Some example_service,
      ef_contract = example_contract\<lparr>sc_enforcement := EnforceQuarantine\<rparr>, ef_run = ''r'', ef_load = ''l'',
      ef_policy = ConflictFail, ef_repr = (\<lambda>_. ''?'')\<rparr>"

abbreviation example_rows :: "string \<Rightarrow> cell_row list" where
  "example_rows s \<equiv> [[(''n'', CInt 1)], [(''n'', CStr s)]]"

lemma example_quarantine_simps [simp]:
  "ef_writer example_quarantine = Some example_service"
  "ef_contract example_quarantine = example_contract\<lparr>sc_enforcement := EnforceQuarantine\<rparr>"
  "ef_policy example_quarantine = ConflictFail"
  by (simp_all add: example_quarantine_def)

lemma example_ready: "queue_ready sha st (length (example_rows s)) example_queue"
proof -
  have "drawn_id example_queue 0 \<noteq> drawn_id example_queue 1" by code_simp
  then show ?thesis by (simp add: queue_ready_def files_ok_def fresh_ids_def example_queue_def numeral_2_eq_2)
qed

lemma cell_conforms_code: "cell_conforms v c \<longleftrightarrow> map_sum (\<lambda>_. ()) fst (validate_value v c) = Inr True"
  by (cases "validate_value v c") (auto simp: cell_conforms_def)

lemma example_rejected: "rejected example_quarantine 0 (example_rows ''x'') = [(1, [(''n'', CStr ''x'')])]"
proof -
  have "row_conforms (ef_contract example_quarantine) [(''n'', CInt 1)]"
    "\<not> row_conforms (ef_contract example_quarantine) [(''n'', CStr ''x'')]"
    unfolding row_conforms_def cell_conforms_code example_quarantine_simps by code_simp+
  then show ?thesis by (simp add: rejected_def)
qed

theorem dead_letters_stored_witness:
  "\<exists>new n. stored_letters example_digest (dlq_config example_resolve dlq_policy_default)
       (snd (enforce example_quarantine 0 True (example_rows ''x'') example_queue)) = new \<and>
     list_all2 (dead_letter example_quarantine dlq_policy_default) (take n [(1, [(''n'', CStr ''x'')])]) new"
proof -
  obtain x w' where x: "enforce example_quarantine 0 True (example_rows ''x'') example_queue = (x, w')" by fastforce
  have e: "ef_writer example_quarantine = Some (dlq_service example_digest dlq_policy_default (dlq_config example_resolve dlq_policy_default))"
    "sc_enforcement (ef_contract example_quarantine) = EnforceQuarantine" "ef_policy example_quarantine \<noteq> ConflictVariant"
    by (simp_all add: example_service_def)
  have "stored_letters example_digest (dlq_config example_resolve dlq_policy_default) example_queue = []"
    by (simp add: stored_letters_def example_queue_def)
  with dead_letters_stored [OF e example_ready x] x show ?thesis
    by (auto simp: example_rejected)
qed

theorem rejected_values_private_witness:
  "snd (enforce example_quarantine 0 True (example_rows ''x'') example_queue) =
   snd (enforce example_quarantine 0 True (example_rows ''secret'') example_queue)"
proof -
  let ?e = example_quarantine
  have "\<forall>c\<in>set (contract_columns (ef_contract ?e)).
      cell_alike c (row_get [(''n'', CStr ''x'')] (cc_name c)) (row_get [(''n'', CStr ''secret'')] (cc_name c))"
    "\<forall>c\<in>set (contract_columns (ef_contract ?e)).
      cell_alike c (row_get [(''n'', CInt 1)] (cc_name c)) (row_get [(''n'', CInt 1)] (cc_name c))"
    unfolding cell_alike_def example_quarantine_simps by code_simp+
  then have "list_all2 (row_alike (ef_contract ?e) (dp_pii dlq_policy_default)) (example_rows ''x'') (example_rows ''secret'')"
    by (simp add: row_alike_def dlq_policy_default_def)
  from rejected_values_private [OF _ _ this, of example_digest "dlq_config example_resolve dlq_policy_default" 0 True example_queue]
  show ?thesis by (simp add: example_service_def prod_eq_iff)
qed

end
