(* ===== verification/Dlq_Replay.thy ===== *)
theory Dlq_Replay
  imports Dlq_Store_Proofs
begin

text \<open>
  Replay of dead letters: with a sink that honours idempotency keys, every planned letter is
  applied exactly once, however often the execution is cut off and started again.

  A cut leaves the acknowledgement missing or torn: its file is written in place.
\<close>

section \<open>Sinks and interrupted executions\<close>

text \<open>
  The contract of a sink: \<open>effects\<close> lists the keys of the applications that took effect. An
  application takes effect at most once per key, and has taken effect when it returns.
\<close>

definition idempotent_sink :: "('w \<Rightarrow> string list) \<Rightarrow> 'w replay_ports \<Rightarrow> bool" where
  "idempotent_sink effects ry \<longleftrightarrow>
     (\<forall>ref w. effects (snd (ry_resolve ry ref w)) = effects w) \<and>
     (\<forall>row key w. let w' = snd (ry_apply ry row key w) in
        (effects w' = effects w \<or> key \<notin> set (effects w) \<and> effects w' = effects w @ [key]) \<and>
        (\<not> isl (fst (ry_apply ry row key w)) \<longrightarrow> key \<in> set (effects w')))"

text \<open>What the checks of one item establish before its row is resolved.\<close>

definition item_ready ::
  "(string \<Rightarrow> string) \<Rightarrow> dlq_store_config \<Rightarrow> replay_plan \<Rightarrow> replay_item \<Rightarrow> dlq_files \<Rightarrow> dlq_record \<Rightarrow> bool" where
  "item_ready sha st plan i fs r \<longleftrightarrow>
     ri_key i = idempotency_key sha (pl_id plan) (locator_of i) \<and>
     record_for_run sha st (pl_run plan) (ri_id i) fs = Inr r \<and> dr_sha r = ri_sha i \<and> dr_ref r = ri_ref i \<and>
     dr_replayable r \<and> is_acknowledged r fs = Inr False"

inductive replay_cut ::
  "(string \<Rightarrow> string) \<Rightarrow> dlq_store_config \<Rightarrow> 'w replay_ports \<Rightarrow> replay_plan \<Rightarrow> replay_item \<Rightarrow>
    'w replay_world \<Rightarrow> 'w replay_world \<Rightarrow> bool" for sha st ry plan i where
  checked: "replay_cut sha st ry plan i s s"
| resolving: "\<lbrakk>item_ready sha st plan i fs r; ry_resolve ry (dr_ref r) w = (x, w')\<rbrakk> \<Longrightarrow>
    replay_cut sha st ry plan i (fs, w) (fs, w')"
| applying: "\<lbrakk>item_ready sha st plan i fs r; ry_resolve ry (dr_ref r) w = (Inr row, w1);
    ry_apply ry row (ri_key i) w1 = (y, w')\<rbrakk> \<Longrightarrow> replay_cut sha st ry plan i (fs, w) (fs, w')"
| acknowledging: "\<lbrakk>item_ready sha st plan i fs r; ry_resolve ry (dr_ref r) w = (Inr row, w1);
    ry_apply ry row (ri_key i) w1 = (Inr (), w');
    fs' = fs\<lparr>df_acks := dict_set (df_acks fs) (dr_id r) JTorn\<rparr>\<rbrakk> \<Longrightarrow>
    replay_cut sha st ry plan i (fs, w) (fs', w')"

text \<open>Executions of one plan, completed, failed, or cut off in the middle of an item.\<close>

inductive replay_history ::
  "(string \<Rightarrow> string) \<Rightarrow> dlq_store_config \<Rightarrow> 'w replay_ports \<Rightarrow> replay_plan \<Rightarrow>
    'w replay_world \<Rightarrow> 'w replay_world \<Rightarrow> bool" for sha st ry plan s0 where
  start: "replay_history sha st ry plan s0 s0"
| run: "\<lbrakk>replay_history sha st ry plan s0 s; replay_execute sha st now ry plan s = (x, s')\<rbrakk> \<Longrightarrow>
    replay_history sha st ry plan s0 s'"
| cut: "\<lbrakk>replay_history sha st ry plan s0 s; k < length (pl_items plan);
    replay_items sha st now ry plan (take k (pl_items plan)) 0 0 s = (Inr c, s1);
    replay_cut sha st ry plan (pl_items plan ! k) s1 s'\<rbrakk> \<Longrightarrow>
    replay_history sha st ry plan s0 s'"

section \<open>One item\<close>

lemma replay_step_cases:
  assumes "replay_step sha st now ry plan i (fs, w) = (x, fs', w')"
  shows "(fs' = fs \<and> w' = w \<and> (\<forall>b. x = Inr b \<longrightarrow> (\<exists>r. record_for_run sha st (pl_run plan) (ri_id i) fs = Inr r \<and>
      is_acknowledged r fs = Inr True))) \<or>
    (\<exists>r y. item_ready sha st plan i fs r \<and> ry_resolve ry (dr_ref r) w = (y, w') \<and> fs' = fs \<and> isl x) \<or>
    (\<exists>r row w1 y. item_ready sha st plan i fs r \<and> ry_resolve ry (dr_ref r) w = (Inr row, w1) \<and>
       ry_apply ry row (ri_key i) w1 = (y, w') \<and>
       (fs' = fs \<and> isl x \<or> y = Inr () \<and> x = Inr True \<and>
          acknowledge sha st now r (pl_id plan) (ri_key i) fs = (Inr (), fs')))"
proof -
  have ack: "acknowledge sha st now r p k fs = (Inl z, fs'') \<Longrightarrow> fs'' = fs" for r p k z fs''
    by (auto simp: acknowledge_def Let_def split: sum.splits option.splits)
  from assms show ?thesis
    unfolding replay_step_def item_ready_def
    by (auto simp: io_raise_def io_bind_def io_return_def store_read_def in_target_def in_store_def
        split: if_splits prod.splits sum.splits dest!: ack)
qed

definition replay_inv ::
  "('w \<Rightarrow> string list) \<Rightarrow> replay_plan \<Rightarrow> dlq_files \<Rightarrow> 'w replay_world \<Rightarrow> bool" where
  "replay_inv effects plan fs0 s \<longleftrightarrow>
     df_records (fst s) = df_records fs0 \<and>
     (\<forall>i\<in>set (pl_items plan). count_list (effects (snd s)) (ri_key i) \<le> 1 \<and>
        (dict_get (df_acks (fst s)) (ri_id i) \<noteq> None \<longrightarrow> ri_key i \<in> set (effects (snd s))))"

lemma for_run_id:
  assumes "files_ok sha st fs0" "df_records fs = df_records fs0" "record_for_run sha st run rid fs = Inr r"
  shows "dr_id r = rid"
proof -
  from assms(3) obtain f where "dict_get (df_records fs) (run, rid) = Some f" "read_record sha st f = Inr r"
    by (auto simp: record_for_run_def bind_res_eq_Inr component_def split: if_splits option.splits)
  with assms(1,2) files_ok_read [of sha st fs0 "(run, rid)" f] show ?thesis by (auto dest: dict_get_mem)
qed

lemma acknowledged_present: "is_acknowledged r fs = Inr True \<Longrightarrow> dict_get (df_acks fs) (dr_id r) \<noteq> None"
  by (auto simp: is_acknowledged_def bind_res_eq_Inr component_def split: if_splits option.splits)

lemma pending_absent: "is_acknowledged r fs = Inr False \<Longrightarrow> dict_get (df_acks fs) (dr_id r) = None"
  by (auto simp: is_acknowledged_def bind_res_eq_Inr component_def split: if_splits option.splits)

lemma acknowledge_absent:
  assumes "acknowledge sha st now r p k fs = (Inr (), fs')" "dict_get (df_acks fs) (dr_id r) = None"
  shows "\<exists>f. fs' = fs\<lparr>df_acks := dict_set (df_acks fs) (dr_id r) f\<rparr>"
  using assms by (auto simp: acknowledge_def Let_def split: sum.splits)

lemma sink_resolve: "idempotent_sink effects ry \<Longrightarrow> ry_resolve ry ref w = (x, w') \<Longrightarrow> effects w' = effects w"
  unfolding idempotent_sink_def by (metis snd_conv)

lemma sink_apply:
  assumes "idempotent_sink effects ry" "ry_apply ry row key w = (x, w')"
  shows "effects w' = effects w \<or> key \<notin> set (effects w) \<and> effects w' = effects w @ [key]"
    "x = Inr () \<Longrightarrow> key \<in> set (effects w')"
  using assms unfolding idempotent_sink_def Let_def by (metis fst_conv snd_conv sum.disc(2))+

text \<open>Effects of a step: the keys only grow, each at most once, and acknowledged means applied.\<close>

lemma inv_grow:
  assumes "replay_inv effects plan fs0 (fs, w)"
    "effects w' = effects w \<or> key \<notin> set (effects w) \<and> effects w' = effects w @ [key]"
  shows "replay_inv effects plan fs0 (fs, w') \<and> set (effects w) \<subseteq> set (effects w')"
  using assms by (auto simp: replay_inv_def count_list_0_iff)

lemma inv_acknowledge:
  assumes "replay_inv effects plan fs0 (fs, w)" "distinct (map ri_id (pl_items plan))" "i \<in> set (pl_items plan)"
    "ri_key i \<in> set (effects w)"
  shows "replay_inv effects plan fs0 (fs\<lparr>df_acks := dict_set (df_acks fs) (ri_id i) f\<rparr>, w)"
  using assms by (auto simp: replay_inv_def distinct_map inj_on_def)

lemma replay_step_inv:
  assumes "idempotent_sink effects ry" "files_ok sha st fs0" "distinct (map ri_id (pl_items plan))"
    "i \<in> set (pl_items plan)" "replay_inv effects plan fs0 (fs, w)"
    "replay_step sha st now ry plan i (fs, w) = (x, fs', w')"
  shows "replay_inv effects plan fs0 (fs', w') \<and> set (effects w) \<subseteq> set (effects w') \<and>
    (\<not> isl x \<longrightarrow> ri_key i \<in> set (effects w'))"
proof -
  have recs: "df_records fs = df_records fs0" using assms(5) by (simp add: replay_inv_def)
  note rid = for_run_id [OF assms(2) recs]
  from replay_step_cases [OF assms(6)] show ?thesis
  proof (elim disjE exE conjE)
    fix r row w1 y
    assume c: "item_ready sha st plan i fs r" "ry_resolve ry (dr_ref r) w = (Inr row, w1)"
      "ry_apply ry row (ri_key i) w1 = (y, w')" "y = Inr ()" "x = Inr True"
      "acknowledge sha st now r (pl_id plan) (ri_key i) fs = (Inr (), fs')"
    then have r: "dr_id r = ri_id i" "dict_get (df_acks fs) (dr_id r) = None"
      by (auto simp: item_ready_def intro: rid pending_absent)
    from acknowledge_absent [OF c(6) r(2)] obtain f
      where f: "fs' = fs\<lparr>df_acks := dict_set (df_acks fs) (ri_id i) f\<rparr>" by (auto simp: r(1))
    note a = sink_apply [OF assms(1) c(3)]
    have "effects w1 = effects w" using c(2) assms(1) by (rule sink_resolve [rotated])
    with inv_grow [OF assms(5), of w' "ri_key i"] a(1) have "replay_inv effects plan fs0 (fs, w')" "set (effects w) \<subseteq> set (effects w')"
      by auto
    moreover have "ri_key i \<in> set (effects w')" using a(2) c(4) by blast
    ultimately show ?thesis using inv_acknowledge [OF _ assms(3,4), of effects fs0 fs w' f] f by simp
  next
    fix r row w1 y
    assume c: "item_ready sha st plan i fs r" "ry_resolve ry (dr_ref r) w = (Inr row, w1)"
      "ry_apply ry row (ri_key i) w1 = (y, w')" "fs' = fs" "isl x"
    have "effects w1 = effects w" using c(2) assms(1) by (rule sink_resolve [rotated])
    with inv_grow [OF assms(5)] sink_apply(1) [OF assms(1) c(3)] c(4,5) show ?thesis by metis
  next
    fix r y assume c: "ry_resolve ry (dr_ref r) w = (y, w')" "fs' = fs" "isl x"
    from sink_resolve [OF assms(1) c(1)] inv_grow [OF assms(5)] c(2,3) show ?thesis by metis
  next
    assume c: "fs' = fs" "w' = w" and acked: "\<forall>b. x = Inr b \<longrightarrow>
      (\<exists>r. record_for_run sha st (pl_run plan) (ri_id i) fs = Inr r \<and> is_acknowledged r fs = Inr True)"
    have "ri_key i \<in> set (effects w)" if "\<not> isl x"
    proof -
      from that acked obtain r where r: "record_for_run sha st (pl_run plan) (ri_id i) fs = Inr r"
        "is_acknowledged r fs = Inr True" by (cases x) auto
      with rid acknowledged_present have "dict_get (df_acks fs) (ri_id i) \<noteq> None" by metis
      with assms(4,5) show ?thesis by (simp add: replay_inv_def)
    qed
    with c assms(5) show ?thesis by simp
  qed
qed

section \<open>Executions\<close>

lemma replay_items_inv:
  assumes "idempotent_sink effects ry" "files_ok sha st fs0" "distinct (map ri_id (pl_items plan))"
    "set xs \<subseteq> set (pl_items plan)" "replay_inv effects plan fs0 s"
    "replay_items sha st now ry plan xs n k s = (x, s')"
  shows "replay_inv effects plan fs0 s' \<and> set (effects (snd s)) \<subseteq> set (effects (snd s')) \<and>
    (\<forall>m l. x = Inr (m, l) \<longrightarrow> ri_key ` set xs \<subseteq> set (effects (snd s')) \<and> m + l = n + k + length xs)"
  using assms(4-6)
proof (induction xs arbitrary: n k s)
  case Nil
  then show ?case by (auto simp: io_return_def)
next
  case (Cons i xs)
  obtain y s1 where y: "replay_step sha st now ry plan i s = (y, s1)"
    by (cases "replay_step sha st now ry plan i s") auto
  have step: "replay_inv effects plan fs0 s1 \<and> set (effects (snd s)) \<subseteq> set (effects (snd s1)) \<and>
      (\<not> isl y \<longrightarrow> ri_key i \<in> set (effects (snd s1)))"
    using replay_step_inv [OF assms(1-3), of i "fst s" "snd s" now y "fst s1" "snd s1"] Cons.prems y by simp
  show ?case
  proof (cases y)
    case (Inl e)
    with y step Cons.prems(3) show ?thesis by (auto simp: io_bind_def)
  next
    case (Inr b)
    with y Cons.prems(3) have rest: "replay_items sha st now ry plan xs (if b then Suc n else n) (if b then k else Suc k) s1 = (x, s')"
      by (auto simp: io_bind_def split: if_splits)
    have sub: "set xs \<subseteq> set (pl_items plan)" using Cons.prems(1) by simp
    from step Inr have s1: "replay_inv effects plan fs0 s1" "set (effects (snd s)) \<subseteq> set (effects (snd s1))"
      "ri_key i \<in> set (effects (snd s1))" by simp_all
    note ih = Cons.IH [OF sub s1(1) rest]
    then have "set (effects (snd s)) \<subseteq> set (effects (snd s'))" "ri_key i \<in> set (effects (snd s'))"
      using s1(2,3) by blast+
    with ih show ?thesis by (cases b) simp_all
  qed
qed

lemma replay_execute_inv:
  assumes "idempotent_sink effects ry" "files_ok sha st fs0" "distinct (map ri_id (pl_items plan))"
    "replay_inv effects plan fs0 s" "replay_execute sha st now ry plan s = (x, s')"
  shows "replay_inv effects plan fs0 s' \<and> (\<forall>r. x = Inr r \<longrightarrow> ri_key ` set (pl_items plan) \<subseteq> set (effects (snd s')) \<and>
      rr_replayed r + rr_already r = length (pl_items plan))"
proof -
  obtain y s1 where y: "replay_items sha st now ry plan (pl_items plan) 0 0 s = (y, s1)"
    by (cases "replay_items sha st now ry plan (pl_items plan) 0 0 s") auto
  note i = replay_items_inv [OF assms(1-3) subset_refl assms(4) y]
  show ?thesis
    using assms(4,5) i y
    by (auto simp: replay_execute_def io_raise_def io_bind_def io_return_def split: if_splits sum.splits prod.splits)
qed

lemma replay_cut_inv:
  assumes "idempotent_sink effects ry" "files_ok sha st fs0" "distinct (map ri_id (pl_items plan))"
    "i \<in> set (pl_items plan)" "replay_cut sha st ry plan i s s'" "replay_inv effects plan fs0 s"
  shows "replay_inv effects plan fs0 s'"
  using assms(5,6)
proof (induction rule: replay_cut.induct)
  case (resolving fs r w x w')
  then show ?case using inv_grow sink_resolve [OF assms(1)] by metis
next
  case (applying fs r w row w1 y w')
  then show ?case using inv_grow sink_resolve [OF assms(1)] sink_apply(1) [OF assms(1)] by metis
next
  case (acknowledging fs r w row w1 w' fs')
  then have "replay_inv effects plan fs0 (fs, w')"
    using inv_grow sink_resolve [OF assms(1)] sink_apply(1) [OF assms(1)] by metis
  moreover have "dr_id r = ri_id i"
    using acknowledging for_run_id [OF assms(2), of fs] by (auto simp: item_ready_def replay_inv_def)
  ultimately show ?case
    using inv_acknowledge [OF _ assms(3,4)] sink_apply(2) [OF assms(1) acknowledging(3)] acknowledging(4) by simp
qed

lemma replay_history_inv:
  assumes "replay_history sha st ry plan s0 s" "idempotent_sink effects ry" "files_ok sha st fs0"
    "distinct (map ri_id (pl_items plan))" "replay_inv effects plan fs0 s0"
  shows "replay_inv effects plan fs0 s"
  using assms(1)
proof (induction rule: replay_history.induct)
  case start
  show ?case by (rule assms(5))
next
  case (run s now x s')
  then show ?case using replay_execute_inv [OF assms(2-4)] by blast
next
  case (cut s k now c s1 s')
  have "set (take k (pl_items plan)) \<subseteq> set (pl_items plan)" by (rule set_take_subset)
  from replay_items_inv [OF assms(2-4) this cut.IH cut.hyps(3)] cut.hyps(2,4) show ?case
    using replay_cut_inv [OF assms(2-4)] by (metis nth_mem)
qed

definition planned_effects :: "('w \<Rightarrow> string list) \<Rightarrow> replay_plan \<Rightarrow> 'w \<Rightarrow> string list" where
  "planned_effects effects plan w = filter (\<lambda>k. k \<in> ri_key ` set (pl_items plan)) (effects w)"

lemma distinct_count_le: "\<forall>x\<in>set xs. count_list xs x \<le> 1 \<Longrightarrow> distinct xs"
  by (induction xs) (auto simp: count_list_0_iff split: if_splits)

lemma planned_distinct:
  assumes "replay_inv effects plan fs0 (fs, w)"
  shows "distinct (planned_effects effects plan w)"
proof (rule distinct_count_le, rule ballI)
  fix k assume "k \<in> set (planned_effects effects plan w)"
  then have k: "k \<in> ri_key ` set (pl_items plan)" by (simp add: planned_effects_def)
  then have "count_list (planned_effects effects plan w) k = count_list (effects w) k"
    by (simp add: planned_effects_def count_list_eq_length_filter conj_commute) (metis (mono_tags, lifting) filter_cong)
  with assms k show "count_list (planned_effects effects plan w) k \<le> 1" by (auto simp: replay_inv_def)
qed

text \<open>
  C8: with a sink that honours idempotency keys, and from a store in which no planned letter is
  acknowledged or applied yet: whatever executions of the plan ran before, completed, failed or
  cut off between any two actions or within the writing of an acknowledgement, no planned key
  took effect twice; and once an execution returns, every planned key has taken effect exactly
  once, and the counts that it reports add up to the plan.
\<close>

theorem replay_exactly_once:
  assumes "idempotent_sink effects ry" "files_ok sha st fs0"
    "distinct (map ri_id (pl_items plan))" "distinct (map ri_key (pl_items plan))"
    "\<forall>i\<in>set (pl_items plan). dict_get (df_acks fs0) (ri_id i) = None \<and> ri_key i \<notin> set (effects w0)"
    "replay_history sha st ry plan (fs0, w0) (fs, w)"
  shows "distinct (planned_effects effects plan w) \<and>
    (\<forall>now r fs' w'. replay_execute sha st now ry plan (fs, w) = (Inr r, fs', w') \<longrightarrow>
       mset (planned_effects effects plan w') = mset (map ri_key (pl_items plan)) \<and>
       rr_replayed r + rr_already r = length (pl_items plan))"
proof -
  have "count_list (effects w0) (ri_key i) = 0" if "i \<in> set (pl_items plan)" for i
    using that assms(5) by (simp add: count_list_0_iff)
  then have "replay_inv effects plan fs0 (fs0, w0)" using assms(5) by (simp add: replay_inv_def)
  from replay_history_inv [OF assms(6,1,2,3) this] have inv: "replay_inv effects plan fs0 (fs, w)" .
  have "mset (planned_effects effects plan w') = mset (map ri_key (pl_items plan)) \<and>
      rr_replayed r + rr_already r = length (pl_items plan)"
    if "replay_execute sha st now ry plan (fs, w) = (Inr r, fs', w')" for now r fs' w'
  proof -
    note e = replay_execute_inv [OF assms(1-3) inv that]
    then have "distinct (planned_effects effects plan w')" by (blast intro: planned_distinct)
    moreover from e have "set (planned_effects effects plan w') = set (map ri_key (pl_items plan))"
      by (auto simp: planned_effects_def)
    ultimately show ?thesis using e assms(4) by (metis mset_eq_setD set_eq_iff_mset_eq_distinct)
  qed
  with planned_distinct [OF inv] show ?thesis by blast
qed

section \<open>An example\<close>

definition example_sha :: "string \<Rightarrow> string" where
  "example_sha s = replicate 64 CHR ''0''"

definition example_draft :: dlq_record where
  "example_draft =
     \<lparr>dr_schema = dlq_record_schema, dr_id = ''A'', dr_run = ''r'', dr_load = ''l'', dr_ref = ''dpone://x'',
      dr_reason = registered_reason ''cdc.poison'' ''s'' None, dr_diagnostics = [], dr_pii = PiiReferenceOnly,
      dr_value = PNone, dr_acknowledged = False, dr_replayable = True,
      dr_created = ''2024-01-01T00:00:00+00:00'', dr_expires = ''2024-01-02T00:00:00+00:00'', dr_sha = []\<rparr>"

definition letter_named :: "string \<Rightarrow> dlq_record" where
  "letter_named rid =
     (let d = example_draft\<lparr>dr_id := rid\<rparr> in d\<lparr>dr_sha := record_fingerprint example_sha d\<rparr>)"

abbreviation example_letter :: dlq_record where
  "example_letter \<equiv> letter_named ''A''"

definition example_config :: dlq_store_config where
  "example_config =
     \<lparr>st_root = ''.dpone/dlq'', 
      st_record_bytes = max (document_bytes (PDict (record_to_dict example_letter)))
        (document_bytes (PDict (record_to_dict (letter_named ''B'')))),
      st_diagnostic_bytes = 1024,
      st_index_bytes = document_bytes (index_document example_sha ''r'' [sorted_record example_letter])\<rparr>"

definition example_files :: dlq_files where
  "example_files =
     \<lparr>df_records = [((''r'', ''A''), JDoc (record_document example_letter))], df_acks = [], df_indexes = []\<rparr>"

definition example_plan :: replay_plan where
  "example_plan =
     (let l = locator example_letter;
          pid = canonical_fingerprint example_sha [] (plan_payload ''r'' ''R'' ''T'' replay_policy_default [l]) in
      \<lparr>pl_id = pid, pl_run = ''r'', pl_resolver = ''R'', pl_target = ''T'', pl_policy = replay_policy_default,
       pl_items = [item_of example_sha pid l], pl_created = ''2024-01-01T00:00:00+00:00''\<rparr>)"

text \<open>A sink that remembers the keys it has applied.\<close>

definition example_ports :: "string list replay_ports" where
  "example_ports =
     \<lparr>ry_resolver = ''R'', ry_target = ''T'', ry_resolve = (\<lambda>ref w. (Inr [], w)),
      ry_apply = (\<lambda>row key w. (Inr (), if key \<in> set w then w else w @ [key]))\<rparr>"

lemma letter_named_simps [simp]:
  "dr_id (letter_named rid) = rid" "dr_run (letter_named rid) = ''r''" "dr_load (letter_named rid) = ''l''"
  "dr_ref (letter_named rid) = ''dpone://x''" "dr_replayable (letter_named rid)" "dr_diagnostics (letter_named rid) = []"
  by (simp_all add: letter_named_def example_draft_def Let_def)

lemma letter_storable:
  assumes "rid = ''A'' \<or> rid = ''B''"
  shows "storable example_sha example_config (letter_named rid)"
proof -
  have "record_validate example_draft = Inr ()" by code_simp
  then have "record_validate (letter_named rid) = Inr ()" by (simp add: letter_named_def record_validate_def Let_def)
  moreover have "record_fingerprint example_sha (letter_named rid) = dr_sha (letter_named rid)"
    by (simp add: letter_named_def record_fingerprint_def canonical_fingerprint_def record_to_dict_def Let_def)
  moreover have "\<not> 1024 < spaced_bytes (PDict [])" "component ''A'' = Inr ''A''" "component ''B'' = Inr ''B''"
    "component ''r'' = Inr ''r''" "component ''l'' = Inr ''l''"
    by code_simp+
  ultimately show ?thesis
    using assms by (auto simp: storable_def record_check_def example_config_def)
qed

lemmas example_letter_ok = letter_storable [of "''A''", simplified]

lemma example_for_run:
  "df_records fs = df_records example_files \<Longrightarrow>
    record_for_run example_sha example_config ''r'' ''A'' fs = Inr (sorted_record example_letter)"
proof -
  assume fs: "df_records fs = df_records example_files"
  have "component ''A'' = Inr ''A''" "component ''r'' = Inr ''r''" by code_simp+
  with fs read_stored [OF example_letter_ok] show ?thesis
    by (simp add: record_for_run_def example_files_def)
qed

lemma example_executed:
  "\<exists>r fs'. replay_execute example_sha example_config 86400000000 example_ports example_plan (example_files, []) =
    (Inr r, fs', map ri_key (pl_items example_plan))"
proof -
  have "component ''A'' = Inr ''A''" by code_simp
  moreover have "df_acks example_files = []" by (simp add: example_files_def)
  ultimately show ?thesis
    by (simp add: replay_execute_def example_plan_def example_ports_def Let_def locator_def item_of_def locator_of_def
        replay_step_def io_bind_def io_return_def store_read_def in_store_def in_target_def example_for_run
        is_acknowledged_def acknowledge_def record_require_def)
qed

theorem replay_exactly_once_witness:
  "\<exists>w. snd (snd (replay_execute example_sha example_config 86400000000 example_ports example_plan (example_files, []))) = w \<and>
    mset (planned_effects (\<lambda>w. w) example_plan w) = mset (map ri_key (pl_items example_plan))"
proof -
  have sink: "idempotent_sink (\<lambda>w. w) example_ports" by (simp add: idempotent_sink_def example_ports_def Let_def)
  have ok: "files_ok example_sha example_config example_files"
    using example_letter_ok by (auto simp: files_ok_def example_files_def record_file_ok_def intro!: exI [of _ example_letter])
  have items: "distinct (map ri_id (pl_items example_plan))" "distinct (map ri_key (pl_items example_plan))"
    "\<forall>i\<in>set (pl_items example_plan). dict_get (df_acks example_files) (ri_id i) = None \<and> ri_key i \<notin> set []"
    by (simp_all add: example_plan_def Let_def example_files_def)
  from replay_exactly_once [OF sink ok items replay_history.start] example_executed show ?thesis by fastforce
qed

lemma example_reached: "store_reach example_sha example_config example_files"
proof -
  have "record_append example_sha example_config example_letter \<lparr>df_records = [], df_acks = [], df_indexes = []\<rparr> =
      (Inr example_letter, example_files)"
    using example_letter_ok by (simp add: record_append_def storable_def example_files_def)
  then show ?thesis by (rule store_reach.append [OF store_reach.empty])
qed

theorem store_readable_witness:
  "\<exists>rs. store_records example_sha example_config ''r'' example_files = Inr rs \<and> set (map dr_id rs) = {''A''}"
proof -
  have "component ''r'' = Inr ''r''" by code_simp
  from store_readable [OF example_reached this] show ?thesis
    by (auto simp: run_keys_def example_files_def)
qed

lemma example_record_files:
  "record_files example_sha example_config ''r'' example_files = Inr [sorted_record example_letter]"
proof -
  have "component ''r'' = Inr ''r''" by code_simp
  with read_stored [OF example_letter_ok] show ?thesis
    by (simp add: record_files_def run_files_def example_files_def)
qed

theorem finalized_run_replayable_witness:
  "\<exists>fs'. replay_candidates example_sha example_config ''r'' fs' = Inr [locator (sorted_record example_letter)]"
proof -
  obtain ref fs' where r: "refresh_index example_sha example_config ''r'' example_files = (Inr ref, fs')"
    by (simp add: refresh_index_def example_record_files Let_def) (simp add: example_config_def Let_def)
  have "hex_digests example_sha" by (simp add: hex_digests_def example_sha_def)
  from finalized_run_replayable [OF example_reached r this] show ?thesis
    by (auto simp: example_record_files)
qed

theorem append_after_finalize_drifts_witness:
  "\<exists>fs. store_records example_sha example_config ''r'' fs = Inl index_drift"
proof -
  obtain ref fs' where r: "refresh_index example_sha example_config ''r'' example_files = (Inr ref, fs')"
    by (simp add: refresh_index_def example_record_files Let_def) (simp add: example_config_def Let_def)
  obtain fs'' where "record_append example_sha example_config (letter_named ''B'') fs' = (Inr (letter_named ''B''), fs'')"
    using letter_storable [of "''B''"] refresh_records [OF r]
    by (simp add: record_append_def storable_def example_files_def)
  from append_after_finalize_drifts [OF example_reached r this] show ?thesis
    by (auto simp: run_keys_def example_files_def)
qed

end
