(* ===== verification/Dlq_Retention.thy ===== *)
theory Dlq_Retention
  imports Dlq_Replay
begin












section \<open>An example\<close>





end
