(* ===== verification/Spec2Isabelle.thy ===== *)
theory Spec2Isabelle
  imports Bf_Plan_Proofs Bf_Chunk_Lease Bf_Lease Bf_Run_Proofs Orch_Proofs Dag_Explain_Proofs Nt_Recovery Xm_Sync Cdc_Stream
    Cdc_Text Cdc_Delivery Dlq_Privacy Dlq_Retention
begin

text \<open>
  A verification development of dpone's data-movement core (Python, under \<open>src/dpone\<close>).

  What the program does. A load is described by a manifest. Three parts of dpone decide, with
  no database at hand, what is run, in which order, and by whom: the \<^bold>\<open>backfill\<close> package
  cuts a declared interval into chunks and hands the chunks out to workers under leases, the
  \<^bold>\<open>orchestration\<close> package runs a manifest once under a lock with a durable state, and the
  \<^bold>\<open>dag\<close> package orders manifests by their declared dependencies and explains the order. Of
  the \<^bold>\<open>runtime\<close> package, which moves the rows, the parts that decide which rows are moved and
  what is remembered of it are modelled: the checkpoints of native transfers, the windows of
  transaction ids of incremental reads, the readers of replication messages and change tables
  with the runtime that drives them, and the contracts that rows are checked against, with the
  dead-letter queue that rejected rows go to. The connectors themselves are not.

  How the parts interact. A chunk of a plan carries a \<^emph>\<open>portable relation scope\<close>, a small closed
  AST that says which rows belong to it; the planner builds it, the ledger stores its digest.
  The ledger is one JSON document per campaign in a state store; the chunk leases and the
  campaign lock are fields of it, and the campaign lease object is a client of that lock. An
  orchestrated run is a client of the job state store, of the run lock and of an executor,
  which is a parameter. The graph resolves declared dependencies into edges and hands the
  adjacency to the sort, to the cycle search and to the path searches. A native transfer is a
  client of a checkpoint store and of its target: it writes a guard before it calls the target
  and outcomes after it, and the planner of the next attempt reads them. A tick of the change
  data capture runtime is a client of a reader, an offset store and a sink, and saves an offset
  only after the sink has reported a durable success. The enforcement of a contract is a client
  of a writer of rejected rows, which is the dead-letter service over its file store; replay
  and retention are clients of the same store.

  \<^bold>\<open>Common ground.\<close>
  \<^item> \<open>Py_Prelude\<close>: exceptions (\<open>py_exn\<close>), results (\<open>py_exn + 'a\<close>, \<open>bind_res\<close>), dictionaries as
    association lists in insertion order (\<open>dict_get\<close>, \<open>dict_set\<close>), and the string operations
    that the source uses. Characters are bytes, so non-ASCII text is outside the model.
  \<^item> \<open>Py_Value\<close>: the dynamically typed values of YAML and JSON with Python's truth, \<open>str\<close>,
    \<open>int\<close> and equality. A float is its integral part and its \<open>repr\<close>.
  \<^item> \<open>Py_Calendar\<close>, \<open>Py_Datetime\<close>: the proleptic Gregorian calendar, dates, date-times with an
    offset, their ISO texts, and the range 0001..9999 outside which Python raises.

  \<^bold>\<open>Backfill\<close> (\<open>backfill/*.py\<close>, \<open>contracts/portable_scope_*.py\<close>).
  \<^item> \<open>Ps_Scope\<close>: literals, bounds, scopes, validation, the canonical contract and the parser.
  \<^item> \<open>Bf_Models\<close>: \<open>options.backfill.chunk\<close> to a \<open>chunk_spec\<close>. \<open>Bf_Planner\<close>: the loops of the
    four kinds of plan. The loops of integers and of times are partial functions, because an
    odd step might never reach the end; \<open>plan_chunks_returns\<close> shows that they do.
    \<open>Bf_Plan_Proofs\<close>: the chunks partition the declared interval, in the locale \<open>time_axis\<close> for
    dates and date-times together.
  \<^item> \<open>Bf_State\<close>: the ledger and its documents. \<open>Bf_FileStore\<close>: every operation of the
    filesystem store, with the atomic replacement of a file as the update of a map from run
    keys to documents. \<open>Bf_Store_Proofs\<close>: its invariant and the view of an operation as a
    function of the ledger; \<open>file_op\<close> are the public operations, the raw \<open>save\<close> and
    \<open>update_chunk\<close> of a ledger that the caller holds among them. \<open>Bf_Chunk_Lease\<close>: what holds
    over any sequence of operations. The lock of the store is one of the process
    (\<open>distributed_lock\<close> is false), so its callers are threads that share the store object.
    Leases are exclusive as long as raw writes carry the fields of the lease as they are in the
    store; \<open>stale_save_frees_lock\<close> and \<open>stale_write_takes_lease\<close> show what a stale write does.
    SHA-256 is a parameter \<open>sha\<close> of the definitions that use it.
  \<^item> \<open>Bf_Lease\<close>: the campaign lease over the contract \<open>campaign_store\<close>, which the filesystem
    store interprets; mutual exclusion of any number of lease objects, fenced phases.
  \<^item> \<open>Bf_Execution\<close>: the lanes that claim, run and complete chunks, as small-step programs over
    a shared queue, the admission gate and the state store; a heartbeat, a failing store call
    and the runner's result are inputs of a step, so every interleaving of the threads is a
    sequence of steps. \<open>Bf_Lanes_Proofs\<close>: what they promise over the contract \<open>chunk_store\<close>;
    \<open>Bf_Run_Proofs\<close>: the filesystem store keeps it among the threads that share it. All
    threads read one clock.

  \<^bold>\<open>Orchestration\<close> (\<open>orchestration/*.py\<close>).
  \<^item> \<open>Orch_State\<close>: the job state, its document, the local and the no-op store, the resume policy.
  \<^item> \<open>Orch_Locks\<close>: the lock operations run alone, and each of their system calls as a step of
    interleaved processes (\<open>lock_call\<close>), where the race between creating and writing the file
    shows.
  \<^item> \<open>Orch_Handoff\<close>: the command line of the handoff and \<open>shlex.quote\<close>, with a reader of POSIX
    shell words as the reference.
  \<^item> \<open>Orch_Run\<close>: the run with its reports, exceptions and \<open>finally\<close>. \<open>Orch_Proofs\<close>: the contract
    \<open>durable_job_store\<close>, which the local store interprets, and what a run promises.

  \<^bold>\<open>Graph\<close> (\<open>dag/*.py\<close>, \<open>contracts/process_types.py\<close>).
  \<^item> \<open>Dag_Model\<close>: nodes, \<open>depends_on\<close>, registry, paths. \<open>Dag_Edges\<close>: resolution of references.
    \<open>Dag_Graph\<close>: links, Kahn's order, the depth-first cycle search. The search recurses with
    fuel \<open>n + 1\<close> for \<open>n\<close> nodes, enough because the nodes on the recursion stack are distinct;
    running out would be \<open>None\<close>, and \<open>cycles_raise\<close> shows that it does not happen.
  \<^item> \<open>Dag_Sort\<close>, \<open>Dag_Cycles\<close>, \<open>Dag_Order\<close>: both algorithms are correct, and the execution order
    respects every declared dependency.
  \<^item> \<open>Dag_Paths\<close>, \<open>Dag_Search\<close>: breadth-first searches, correct for least length. The loop over
    the queue terminates because each node enters it once; \<open>trace_back\<close> has as fuel the number
    of discovered nodes. \<open>Dag_Explain\<close>, \<open>Dag_Explain_Proofs\<close>: reasons of edges, tokens of
    nodes, subgraphs of all shortest paths.

  \<^bold>\<open>Native transfers\<close> (\<open>runtime/lineage/partition_*.py\<close>, \<open>runtime/native_transfer*.py\<close>,
  \<open>runtime/commit_unknown.py\<close>, \<open>runtime/etl/payload_loader.py\<close>).
  \<^item> \<open>Nt_Checkpoint\<close>: checkpoints and the append-only JSONL store. The store carries a script of
    faults, so that a write may fail after any part of it has reached the file. \<open>Nt_Resume\<close>: the
    commit guard and the planner. \<open>Nt_Transfer\<close>, \<open>Nt_Attempt\<close>: preparation, lifecycle, and the
    \<open>try\<close> of the payload loader with the target as a function of its own state that may raise.
  \<^item> \<open>Nt_Store_Proofs\<close>: the contracts \<open>checkpoint_log\<close> and \<open>reliable_checkpoint_log\<close>, which the
    JSONL store interprets. \<open>Nt_Proofs\<close>, \<open>Nt_Recovery\<close>: what was possibly loaded is not loaded
    again, an early failure is retried, a success is skipped.
  \<^item> SHA-256, the file checksums and the clock are parameters. Lazy transfer plans, quality
    gates and reports are left out.

  \<^bold>\<open>Incremental reads\<close> (\<open>runtime/xmin/manager.py\<close>, \<open>runtime/sources/strategies/postgres\<close>).
  \<^item> \<open>Xm_Manager\<close>: state, queries and the choice of the read, with the condition of a query next
    to its text. \<open>Xm_Sync\<close>: the source table and the loads as steps (\<open>sync_step\<close>); the contract
    of the source is that of \<open>txid_snapshot_xmin\<close>, and \<open>xmin\<close> is a \<open>32 word\<close>, so that the
    comparison of low halves across an epoch is the one that the database does.

  \<^bold>\<open>Change data capture\<close> (\<open>runtime/cdc/*.py\<close>).
  \<^item> \<open>Cdc_Change\<close>: changes, batches, UTF-8 and decimal texts. \<open>Cdc_Pgoutput\<close>: the parser of the
    binary messages. \<open>Cdc_Test_Decoding\<close>: the parser of the text messages. \<open>Cdc_Reader\<close>: the
    reader with its setup and batches. What the server answers is an argument.
  \<^item> \<open>Cdc_Wire\<close>: the documented format as an encoder of abstract messages (begin, commit, origin,
    type, truncate, relation and row messages of protocol version 1), the effect each has on the
    followed table, and the proof that the parser gives the row changes of the messages that send
    all their values. It reads the marker of an unchanged large value as a null and drops
    truncations, which two theorems state. \<open>Cdc_Stream\<close>: streams cut into batches. \<open>Cdc_Text\<close>:
    printed tuples are read back, up to the first column of an array type.
  \<^item> The conversion of a text to a binary float is a parameter (\<open>to_float\<close>). Texts with code
    points from 256 on end decoding with an exception of the model, and so are outside it.

  \<^bold>\<open>The change data capture runtime\<close> (\<open>runtime/cdc\<close>, \<open>runtime/state/cdc.py\<close>).
  \<^item> \<open>Cdc_Event\<close>: identities of streams and events, poison, documents of changes. \<open>Cdc_Runtime\<close>:
    one tick over ports that may raise, the local and the ClickHouse sink. \<open>Cdc_Mssql\<close>: both
    readers of SQL Server; what the server's functions return is an argument.
  \<^item> \<open>Cdc_Log\<close>: the contract \<open>cdc_pipeline\<close> of reader and sink and what ticks promise over it.
    \<open>Cdc_Sync\<close>, \<open>Cdc_Delivery\<close>: SQL Server to ClickHouse keeps it, with the failures of a tick as
    a record of faults. \<open>cdc_log_exact\<close> assumes that no transaction is cut by the row limit, that
    the clean-up stays behind the saved offset, and the mode that fails closed; other theorems
    of the theory show that the first two are needed.

  \<^bold>\<open>Contracts and dead letters\<close> (\<open>readiness/schema_contracts.py\<close>, \<open>type_system/enforcement.py\<close>,
  \<open>runtime/etl/contract_artifacts.py\<close>, \<open>contracts/dlq.py\<close>, \<open>ops/dlq*.py\<close>).
  \<^item> \<open>Js_Scan\<close>: the texts that \<open>json.loads\<close> accepts, and that printed documents are among them.
    \<open>Dc_Contract\<close>: contracts, the cells of a row and the validators of their types.
    \<open>Dc_Enforce\<close>: the enforcement of a list and of a stream in batches, with the writer of
    rejected rows and the inserter as actions on a world of their own; \<open>batched\<close> terminates by
    the length of the list. \<open>Dc_Proofs\<close>: typing rules by value (\<open>has_type\<close>: a text is an integer
    when it has at most one sign and digits, a decimal fits when its unscaled value does) as the
    reference of the validators, and the cells they accept by mistake (\<open>false_accept\<close>).
    \<open>Dc_Stream\<close>: a stream cut into batches returns what the whole list returns when that passes;
    when it raises, the batches before the failing one have been staged.
  \<^item> \<open>Dlq_Record\<close>, \<open>Dlq_Store\<close>, \<open>Dlq_Service\<close>: records, the file store and the services. A file is
    the document it holds, with its keys sorted as they are written, or torn: a proper prefix,
    which is no JSON. \<open>Dlq_Record_Proofs\<close>: sorting the keys changes neither the fingerprint nor
    the size, so what is written is read back. \<open>Dlq_Store_Proofs\<close>: the invariant of the files, the
    reads of the store with their check against the index, and finalized runs. \<open>Dlq_Delivery\<close>: the contract \<open>letter_box\<close> of a writer, which the service
    interprets while its identifiers are new, and the letters of an enforcement.
    \<open>Dlq_Privacy\<close>: no value leaks into the queue or the evidence, unless the policy preserves
    payloads or gives variant columns. \<open>Dlq_Replay\<close>: executions cut off anywhere.
    \<open>Dlq_Retention\<close>: what may be removed.
  \<^item> Parameters: SHA-256 (\<open>sha\<close>), \<open>repr\<close> of a driver's value, the JSON text of a row under
    \<open>default=str\<close>, the clock and the random bits of identifiers, the absolute path of a directory
    (\<open>resolve\<close>), the resolver and the sink of a replay. Of SHA-256 only the form of its digests is used. Outside the model: symbolic links
    in the store, signalling NaNs and exponents of more than 18 digits, rows with two keys of
    one text, and the limit of recursion of the JSON functions.

  \<^bold>\<open>Not modelled.\<close> The connectors, sources, sinks and the rest of the ETL runtime, whose effect
  lies in third-party drivers and generated SQL; setup, compare, repair and retention of change
  data capture, and Kafka; the SQL state stores and the child processes of a parallel backfill;
  schema evolution, masking and file artifacts of the load lifecycle; the command line and
  rendering; GitOps, readiness and evidence documents; the text of log messages. Error texts
  are shortened where they quote a \<open>repr\<close>.
\<close>

end
